(* ===== verification/Go_Prelude.thy ===== *)
theory Go_Prelude
  imports
    Main
    "HOL-Library.Word"
    "HOL-Library.AList"
    "HOL-Library.List_Lexorder"
    "HOL-Library.Char_ord"
    "HOL-Library.Multiset"
    "HOL-Library.Code_Target_Nat"
begin

section \<open>Go values and the shared vocabulary of the development\<close>

text \<open>
  What every component of Rin uses of the Go language and its standard library:
  \<^item> strings are byte sequences (\<^typ>\<open>string\<close>, one \<^typ>\<open>char\<close> per byte; \<open>len\<close> is \<^const>\<open>length\<close>,
    \<open>strings.Compare\<close> is the lexicographic order of HOL-Library), with UTF-8 decoding, \<open>strings.TrimSpace\<close>
    and decimal formatting written out;
  \<^item> \<open>uint64\<close> and \<open>uint32\<close> are machine words, so that every addition and subtraction wraps as in Go;
    \<open>int64\<close> clock values are \<^typ>\<open>int\<close> (the code only compares them, or adds to them behind an explicit
    bound check);
  \<^item> a validator, a Go function returning \<open>error\<close>, returns an \<^typ>\<open>'e option\<close> (\<open>None\<close> is \<open>nil\<close>); a body that is a
    sequence of \<open>if err := ...; err != nil { return err }\<close> is a list of checks run by \<open>first_err\<close>, and a loop
    with an index and a set of already seen values is \<open>loop_err\<close>;
  \<^item> a function returning a value and an error returns a sum (\<open>Inl\<close> is the error);
  \<^item> a Go map is an association list with distinct keys. Its iteration order is the order of the list;
    Go leaves that order open, so theorems that depend on it are stated for every list.
\<close>

type_synonym u64 = "64 word"
type_synonym u32 = "32 word"

named_theorems validator_simps \<open>when a validator accepts\<close>
named_theorems map_simps \<open>lookups after map operations\<close>

subsection \<open>Errors, checks and loops of checks\<close>

definition require :: "bool \<Rightarrow> 'e \<Rightarrow> 'e option" where
  "require ok e = (if ok then None else Some e)"

primrec first_err :: "'e option list \<Rightarrow> 'e option" where
  "first_err [] = None"
| "first_err (c # cs) = (case c of Some e \<Rightarrow> Some e | None \<Rightarrow> first_err cs)"

text \<open>
  \<open>loop_err f pre xs\<close> runs the body \<open>f index previous element\<close> of a \<open>for index, element := range\<close> loop and
  stops at the first error; \<open>previous\<close> are the elements already visited, what the loops keep in a \<open>seen\<close> map.
\<close>

fun loop_err :: "(nat \<Rightarrow> 'a list \<Rightarrow> 'a \<Rightarrow> 'e option) \<Rightarrow> 'a list \<Rightarrow> 'a list \<Rightarrow> 'e option" where
  "loop_err f pre [] = None"
| "loop_err f pre (x # xs) =
     (case f (length pre) pre x of
        Some e \<Rightarrow> Some e
      | None \<Rightarrow> loop_err f (pre @ [x]) xs)"

definition ebind :: "'e + 'a \<Rightarrow> ('a \<Rightarrow> 'e + 'b) \<Rightarrow> 'e + 'b" where
  "ebind r f = (case r of Inl e \<Rightarrow> Inl e | Inr a \<Rightarrow> f a)"

definition guard_err :: "'e option \<Rightarrow> 'e + 'a \<Rightarrow> 'e + 'a" where
  "guard_err c r = (case c of Some e \<Rightarrow> Inl e | None \<Rightarrow> r)"

definition err_of :: "'e + 'a \<Rightarrow> 'e option" where
  "err_of r = (case r of Inl e \<Rightarrow> Some e | Inr _ \<Rightarrow> None)"

lemma require_None [simp, validator_simps]: "require ok e = None \<longleftrightarrow> ok"
  by (simp add: require_def)

lemma require_True [simp]: "require True e = None"
  by (simp add: require_def)

lemma require_False [simp]: "require False e = Some e"
  by (simp add: require_def)

lemma case_err_None [simp, validator_simps]:
  "(case c of Some e \<Rightarrow> Some (f e) | None \<Rightarrow> r) = None \<longleftrightarrow> c = None \<and> r = None"
  "(case c of Some e \<Rightarrow> Some e | None \<Rightarrow> r) = None \<longleftrightarrow> c = None \<and> r = None"
  by (cases c; simp)+

lemma first_err_None_iff: "first_err cs = None \<longleftrightarrow> (\<forall>c \<in> set cs. c = None)"
  by (induction cs) auto

lemma first_err_append: "first_err (as @ bs) = (case first_err as of Some e \<Rightarrow> Some e | None \<Rightarrow> first_err bs)"
  by (induction as) (auto split: option.splits)

lemma loop_err_None_iff:
  "loop_err f pre xs = None \<longleftrightarrow>
     (\<forall>i < length xs. f (length pre + i) (pre @ take i xs) (xs ! i) = None)"
proof (induction xs arbitrary: pre)
  case Nil
  then show ?case by simp
next
  case (Cons x xs)
  show ?case
  proof (cases "f (length pre) pre x")
    case (Some e)
    then have "\<not> (\<forall>i < length (x # xs). f (length pre + i) (pre @ take i (x # xs)) ((x # xs) ! i) = None)"
      by (auto intro!: exI [of _ 0])
    moreover have "loop_err f pre (x # xs) \<noteq> None" using Some by simp
    ultimately show ?thesis by blast
  next
    case None
    have "(\<forall>i < length xs. f (length (pre @ [x]) + i) ((pre @ [x]) @ take i xs) (xs ! i) = None)
      \<longleftrightarrow> (\<forall>i < length (x # xs). f (length pre + i) (pre @ take i (x # xs)) ((x # xs) ! i) = None)"
      (is "?L \<longleftrightarrow> ?R")
    proof
      assume ?L
      show ?R
      proof (intro allI impI)
        fix i
        assume "i < length (x # xs)"
        then show "f (length pre + i) (pre @ take i (x # xs)) ((x # xs) ! i) = None"
          using \<open>?L\<close> None by (cases i) auto
      qed
    next
      assume R: ?R
      show ?L
      proof (intro allI impI)
        fix i
        assume "i < length xs"
        then show "f (length (pre @ [x]) + i) ((pre @ [x]) @ take i xs) (xs ! i) = None"
          using R [rule_format, of "Suc i"] by simp
      qed
    qed
    with None Cons.IH [of "pre @ [x]"] show ?thesis by simp
  qed
qed

lemma loop_err_all:
  assumes "loop_err f pre xs = None" and "x \<in> set xs"
  shows "\<exists>i ys. f i ys x = None"
  using assms unfolding loop_err_None_iff in_set_conv_nth by blast

text \<open>A loop that rejects an element whose key was seen before accepts only lists with distinct keys.\<close>

lemma loop_err_distinct:
  assumes "loop_err f [] xs = None"
    and "\<And>i ys x. f i ys x = None \<Longrightarrow> key x \<notin> key ` set ys"
  shows "distinct (map key xs)"
proof (unfold distinct_conv_nth, intro allI impI)
  fix i j
  assume ij: "i < length (map key xs)" "j < length (map key xs)" "i \<noteq> j"
  have fresh: "key (xs ! n) \<notin> key ` set (take n xs)" if "n < length xs" for n
    using that assms(1) assms(2) [of n "take n xs" "xs ! n"] by (simp add: loop_err_None_iff)
  have "key (xs ! m) \<in> key ` set (take n xs)" if "m < n" "n < length xs" for m n
    using that by (metis dual_order.strict_trans imageI in_set_conv_nth length_take min_less_iff_conj nth_take)
  then show "map key xs ! i \<noteq> map key xs ! j"
    using ij fresh by (metis length_map linorder_neqE_nat nth_map)
qed

lemma ebind_Inr [simp]: "ebind (Inr a) f = f a"
  and ebind_Inl [simp]: "ebind (Inl e) f = Inl e"
  by (simp_all add: ebind_def)

lemma ebind_Inr_iff: "ebind r f = Inr b \<longleftrightarrow> (\<exists>a. r = Inr a \<and> f a = Inr b)"
  by (cases r) auto

lemma guard_err_Inr_iff [simp]: "guard_err c r = Inr b \<longleftrightarrow> c = None \<and> r = Inr b"
  by (auto simp: guard_err_def split: option.splits)

lemma guard_err_None [simp]: "guard_err None r = r"
  by (simp add: guard_err_def)

lemma err_of_None_iff: "err_of r = None \<longleftrightarrow> (\<exists>a. r = Inr a)"
  by (auto simp: err_of_def split: sum.splits)

subsection \<open>Decimal numbers, NUL-separated keys\<close>

fun format_nat :: "nat \<Rightarrow> string" where
  "format_nat n =
     (if n < 10 then [char_of (48 + n)]
      else format_nat (n div 10) @ [char_of (48 + n mod 10)])"

declare format_nat.simps [simp del]

definition format_u64 :: "u64 \<Rightarrow> string" where
  "format_u64 w = format_nat (unat w)"

definition NUL :: char where
  "NUL = CHR 0x00"

fun nul_join :: "string list \<Rightarrow> string" where
  "nul_join [] = []"
| "nul_join [s] = s"
| "nul_join (s # t # ss) = s @ NUL # nul_join (t # ss)"

definition indexed :: "string \<Rightarrow> nat \<Rightarrow> string" where
  "indexed field i = field @ ''['' @ format_nat i @ '']''"

lemma of_char_digit: "d < 10 \<Longrightarrow> of_char (char_of (48 + d) :: char) = (48 + d :: nat)"
  by (simp add: of_char_of)

lemma digit_char_inj:
  assumes "d < 10" "e < 10" "(char_of (48 + d) :: char) = char_of (48 + e)"
  shows "d = (e :: nat)"
  using assms of_char_digit [of d] of_char_digit [of e] by simp

lemma format_nat_nonempty [simp]: "format_nat n \<noteq> []"
  by (subst format_nat.simps) simp

lemma format_nat_digits: "c \<in> set (format_nat n) \<Longrightarrow> 48 \<le> (of_char c :: nat) \<and> (of_char c :: nat) \<le> 57"
proof (induction n rule: format_nat.induct)
  case (1 n)
  show ?case
  proof (cases "n < 10")
    case True
    with "1.prems" have "c = char_of (48 + n)" by (subst (asm) format_nat.simps) simp
    with True show ?thesis by (simp only: of_char_digit) simp
  next
    case False
    with "1.prems" have "c \<in> set (format_nat (n div 10)) \<or> c = char_of (48 + n mod 10)"
      by (subst (asm) format_nat.simps) auto
    moreover have "n mod 10 < 10" by simp
    ultimately show ?thesis using "1.IH" [OF False] of_char_digit [of "n mod 10"] by auto
  qed
qed

lemma NUL_notin_format_nat [simp]: "NUL \<notin> set (format_nat n)"
  using format_nat_digits [of NUL n] by (auto simp: NUL_def)

lemma NUL_notin_format_u64 [simp]: "NUL \<notin> set (format_u64 w)"
  by (simp add: format_u64_def)

lemma format_nat_inj: "format_nat m = format_nat n \<Longrightarrow> m = n"
proof (induction m arbitrary: n rule: format_nat.induct)
  case (1 m)
  have long: "length (format_nat k) \<ge> 2" if "\<not> k < 10" for k
    using that format_nat_nonempty [of "k div 10"]
    by (subst format_nat.simps) (simp, metis Suc_leI length_greater_0_conv format_nat_nonempty)
  have short: "length (format_nat k) = 1" if "k < 10" for k
    using that by (subst format_nat.simps) simp
  show ?case
  proof (cases "m < 10")
    case True
    then have "n < 10" using "1.prems" short [of m] long [of n] by force
    then show ?thesis using True "1.prems" digit_char_inj [of m n]
      by (subst (asm) (1 2) format_nat.simps) simp
  next
    case False
    then have n: "\<not> n < 10" using "1.prems" short [of n] long [of m] by force
    have "format_nat (m div 10) = format_nat (n div 10)"
      and last: "(char_of (48 + m mod 10) :: char) = char_of (48 + n mod 10)"
      using "1.prems" False n
      by (auto simp: format_nat.simps [of m] format_nat.simps [of n])
    then have "m div 10 = n div 10" using "1.IH" [OF False] by blast
    moreover have "m mod 10 = n mod 10" using last digit_char_inj [of "m mod 10" "n mod 10"] by simp
    ultimately show ?thesis by (metis div_mult_mod_eq)
  qed
qed

lemma format_u64_inj: "format_u64 v = format_u64 w \<Longrightarrow> v = w"
  unfolding format_u64_def by (drule format_nat_inj) (simp add: word_unat_eq_iff)

lemma append_NUL_split:
  assumes "s @ NUL # a = t @ NUL # b" and "NUL \<notin> set s" and "NUL \<notin> set t"
  shows "s = t \<and> a = b"
  using assms
proof (induction s arbitrary: t)
  case Nil
  then show ?case by (cases t) auto
next
  case (Cons c s)
  then show ?case by (cases t) auto
qed

text \<open>NUL-separated keys of the same number of NUL-free parts are equal only if the parts are.\<close>

lemma nul_join_inj:
  assumes "nul_join ss = nul_join ts" and "length ss = length ts"
    and "\<forall>s \<in> set (ss @ ts). NUL \<notin> set s"
  shows "ss = ts"
  using assms
proof (induction ss arbitrary: ts rule: nul_join.induct)
  case 1
  then show ?case by simp
next
  case (2 s)
  then obtain t where "ts = [t]" by (metis length_0_conv length_Suc_conv)
  with 2 show ?case by simp
next
  case (3 s s' ss)
  then obtain t t' ts' where ts: "ts = t # t' # ts'"
    by (metis length_Suc_conv)
  have "s = t \<and> nul_join (s' # ss) = nul_join (t' # ts')"
    using "3.prems" ts by (intro append_NUL_split) auto
  moreover have "s' # ss = t' # ts'" if "nul_join (s' # ss) = nul_join (t' # ts')"
    using "3.IH" [OF that] "3.prems" ts by auto
  ultimately show ?case using ts by simp
qed


subsection \<open>Maps\<close>

text \<open>
  The contract of a Go map: what a lookup gives after a store or a delete, and that its length counts its keys.
  The lemmas bound the length of a map that is only grown behind a capacity check, and describe a loop that
  deletes a list of keys.
\<close>

type_synonym ('k, 'v) gomap = "('k \<times> 'v) list"

abbreviation map_ok :: "('k, 'v) gomap \<Rightarrow> bool" where
  "map_ok m \<equiv> distinct (map fst m)"

locale go_map =
  fixes empty :: "'m"
    and get :: "'m \<Rightarrow> 'k \<Rightarrow> 'v option"
    and put :: "'k \<Rightarrow> 'v \<Rightarrow> 'm \<Rightarrow> 'm"
    and del :: "'k \<Rightarrow> 'm \<Rightarrow> 'm"
    and len :: "'m \<Rightarrow> nat"
    and invar :: "'m \<Rightarrow> bool"
  assumes get_empty: "get empty = (\<lambda>_. None)"
    and get_put: "get (put k v m) = (get m)(k \<mapsto> v)"
    and get_del: "get (del k m) = (get m)(k := None)"
    and finite_dom: "finite (dom (get m))"
    and len_card: "invar m \<Longrightarrow> len m = card (dom (get m))"
    and invar_empty: "invar empty"
    and invar_put: "invar m \<Longrightarrow> invar (put k v m)"
    and invar_del: "invar m \<Longrightarrow> invar (del k m)"
begin

lemma get_put_same: "get (put k v m) k = Some v"
  by (simp add: get_put)

lemma get_put_other: "k' \<noteq> k \<Longrightarrow> get (put k v m) k' = get m k'"
  by (simp add: get_put)

lemma len_put:
  "invar m \<Longrightarrow> len (put k v m) = (if k \<in> dom (get m) then len m else Suc (len m))"
  by (simp add: len_card invar_put get_put finite_dom insert_absorb)

lemma len_put_capacity: "invar m \<Longrightarrow> len m < n \<Longrightarrow> len (put k v m) \<le> n"
  by (simp add: len_put)

lemma len_del_le: "invar m \<Longrightarrow> len (del k m) \<le> len m"
  by (simp add: len_card invar_del get_del finite_dom card_mono)

lemma get_fold_del: "get (fold del ks m) = (\<lambda>k. if k \<in> set ks then None else get m k)"
proof (induction ks arbitrary: m)
  case Nil
  then show ?case by simp
next
  case (Cons k ks)
  then show ?case by (auto simp: get_del fun_eq_iff)
qed

lemma invar_fold_del: "invar m \<Longrightarrow> invar (fold del ks m)"
  by (induction ks arbitrary: m) (auto simp: invar_del)

lemma put_agree: "get m = get m' \<Longrightarrow> get (put k v m) = get (put k v m')"
  by (simp add: get_put)

end

lemma map_ok_update: "map_ok m \<Longrightarrow> map_ok (AList.update k v m)"
  by (rule AList.distinct_update)

lemma map_ok_delete: "map_ok m \<Longrightarrow> map_ok (AList.delete k m)"
  by (simp add: AList.delete_eq distinct_map_filter)

lemma map_of_delete: "map_of (AList.delete k m) = (map_of m)(k := None)"
  by (rule AList.delete_conv')

lemma length_map_ok: "map_ok m \<Longrightarrow> length m = card (dom (map_of m))"
  by (metis distinct_card dom_map_of_conv_image_fst length_map list.set_map)

interpretation gm: go_map "[]" "map_of :: ('k, 'v) gomap \<Rightarrow> _" AList.update AList.delete length map_ok
proof unfold_locales
  show "map_of ([] :: ('k, 'v) gomap) = (\<lambda>_. None)" by auto
  show "map_of (AList.update k v m) = (map_of m)(k \<mapsto> v)" for k v and m :: "('k, 'v) gomap"
    by (rule AList.update_conv')
  show "map_of (AList.delete k m) = (map_of m)(k := None)" for k and m :: "('k, 'v) gomap"
    by (rule map_of_delete)
  show "finite (dom (map_of m))" for m :: "('k, 'v) gomap"
    by (rule finite_dom_map_of)
  show "length m = card (dom (map_of m))" if "map_ok m" for m :: "('k, 'v) gomap"
    using that by (rule length_map_ok)
  show "map_ok ([] :: ('k, 'v) gomap)" by simp
  show "map_ok (AList.update k v m)" if "map_ok m" for k v and m :: "('k, 'v) gomap"
    using that by (rule map_ok_update)
  show "map_ok (AList.delete k m)" if "map_ok m" for k and m :: "('k, 'v) gomap"
    using that by (rule map_ok_delete)
qed

declare gm.get_put [map_simps] gm.get_del [map_simps] gm.get_fold_del [map_simps]

lemma map_ok_filter: "map_ok m \<Longrightarrow> map_ok (filter P m)"
  by (rule distinct_map_filter)

lemma map_of_filter:
  assumes "map_ok m"
  shows "map_of (filter P m) k = (case map_of m k of None \<Rightarrow> None | Some v \<Rightarrow> if P (k, v) then Some v else None)"
  using assms
proof (induction m)
  case Nil
  then show ?case by simp
next
  case (Cons a m)
  obtain k' v' where a: "a = (k', v')" by (cases a)
  have "map_of (filter P m) k' = None" if "k' \<notin> fst ` set m"
    using that by (force simp: map_of_eq_None_iff)
  moreover have "k' \<notin> fst ` set m" using Cons.prems a by simp
  ultimately show ?case using Cons a by (auto split: option.splits)
qed

lemma map_of_filter_SomeD: "map_ok m \<Longrightarrow> map_of (filter P m) k = Some v \<Longrightarrow> map_of m k = Some v \<and> P (k, v)"
  by (simp add: map_of_filter split: option.splits if_splits)

lemma map_of_filter_Some: "map_ok m \<Longrightarrow> map_of (filter P m) k = Some v \<longleftrightarrow> map_of m k = Some v \<and> P (k, v)"
  by (auto simp: map_of_filter simp del: map_of_eq_Some_iff split: option.splits)

lemma map_ok_Some_in: "map_of m k = Some v \<Longrightarrow> (k, v) \<in> set m"
  by (rule map_of_SomeD)

subsection \<open>Characters, identifiers and digests\<close>

definition lower_char :: "char \<Rightarrow> bool" where
  "lower_char c \<longleftrightarrow> (97 \<le> (of_char c :: nat) \<and> (of_char c :: nat) \<le> 122)"

definition upper_char :: "char \<Rightarrow> bool" where
  "upper_char c \<longleftrightarrow> (65 \<le> (of_char c :: nat) \<and> (of_char c :: nat) \<le> 90)"

definition digit_char :: "char \<Rightarrow> bool" where
  "digit_char c \<longleftrightarrow> (48 \<le> (of_char c :: nat) \<and> (of_char c :: nat) \<le> 57)"

definition separator_char :: "char \<Rightarrow> bool" where
  "separator_char c \<longleftrightarrow> c = CHR ''.'' \<or> c = CHR ''_'' \<or> c = CHR ''-''"

text \<open>
  The identifier pattern \<^verbatim>\<open>^[a-z][a-z0-9]*(?:[._-][a-z0-9]+)*$\<close>, compiled twice in the repository
  (\<open>hostIDPattern\<close> in package \<open>host\<close>, \<open>safeIDPattern\<close> in package \<open>policy\<close>), as the automaton with the single
  piece of state \<open>the last character was alphanumeric\<close>; and \<^verbatim>\<open>^[0-9a-f]{64}$\<close>.
\<close>

fun id_tail :: "bool \<Rightarrow> string \<Rightarrow> bool" where
  "id_tail alnum [] = alnum"
| "id_tail alnum (c # cs) =
     (if lower_char c \<or> digit_char c then id_tail True cs
      else if separator_char c \<and> alnum then id_tail False cs
      else False)"

definition id_pattern :: "string \<Rightarrow> bool" where
  "id_pattern s = (case s of [] \<Rightarrow> False | c # cs \<Rightarrow> lower_char c \<and> id_tail True cs)"

definition digest_pattern :: "string \<Rightarrow> bool" where
  "digest_pattern s \<longleftrightarrow> length s = 64 \<and>
     list_all (\<lambda>c. digit_char c \<or> (97 \<le> (of_char c :: nat) \<and> (of_char c :: nat) \<le> 102)) s"

lemma separator_not_alnum [simp]:
  "separator_char c \<Longrightarrow> \<not> lower_char c" "separator_char c \<Longrightarrow> \<not> digit_char c"
  by (auto simp: separator_char_def lower_char_def digit_char_def)

lemma id_tail_chars:
  "id_tail b s \<Longrightarrow> c \<in> set s \<Longrightarrow> lower_char c \<or> digit_char c \<or> separator_char c"
  by (induction b s rule: id_tail.induct) (auto split: if_splits)

lemma id_pattern_chars:
  "id_pattern s \<Longrightarrow> c \<in> set s \<Longrightarrow> lower_char c \<or> digit_char c \<or> separator_char c"
  by (auto simp: id_pattern_def dest: id_tail_chars split: list.splits)

lemma NUL_notin_id [simp]: "id_pattern s \<Longrightarrow> NUL \<notin> set s"
  using id_pattern_chars [of s NUL]
  by (auto simp: NUL_def lower_char_def digit_char_def separator_char_def)

lemma NUL_notin_digest [simp]: "digest_pattern s \<Longrightarrow> NUL \<notin> set s"
  by (auto simp: digest_pattern_def list_all_iff digit_char_def NUL_def)

lemma id_pattern_nonempty: "id_pattern s \<Longrightarrow> s \<noteq> []"
  by (auto simp: id_pattern_def)

lemma id_tail_append: "id_tail b s \<Longrightarrow> id_tail True t \<Longrightarrow> id_tail b (s @ t)"
proof (induction b s rule: id_tail.induct)
  case (1 alnum)
  then show ?case by simp
next
  case (2 alnum c cs)
  then show ?case by (auto split: if_splits)
qed

lemma id_pattern_append: "id_pattern s \<Longrightarrow> id_tail True t \<Longrightarrow> id_pattern (s @ t)"
  by (cases s) (auto simp: id_pattern_def intro: id_tail_append)

lemma id_tail_alnum: "list_all (\<lambda>c. lower_char c \<or> digit_char c) s \<Longrightarrow> s \<noteq> [] \<or> b \<Longrightarrow> id_tail b s"
  by (induction s arbitrary: b) auto

lemma id_tail_segment:
  "separator_char p \<Longrightarrow> s \<noteq> [] \<Longrightarrow> list_all (\<lambda>c. lower_char c \<or> digit_char c) s \<Longrightarrow> id_tail True (p # s)"
  by (simp add: id_tail_alnum)

subsection \<open>UTF-8 text\<close>

text \<open>
  \<open>decode_runes\<close> is the decoding loop of Go's \<open>for range string\<close>: \<open>Some r\<close> is a code point, \<open>None\<close> one byte of
  an invalid sequence. The accepted second bytes are those of \<open>unicode/utf8\<close>.
\<close>

definition cont_byte :: "nat \<Rightarrow> bool" where
  "cont_byte b \<longleftrightarrow> 128 \<le> b \<and> b \<le> 191"

definition second_ok3 :: "nat \<Rightarrow> nat \<Rightarrow> bool" where
  "second_ok3 a b = (if a = 224 then 160 \<le> b \<and> b \<le> 191
     else if a = 237 then 128 \<le> b \<and> b \<le> 159 else cont_byte b)"

definition second_ok4 :: "nat \<Rightarrow> nat \<Rightarrow> bool" where
  "second_ok4 a b = (if a = 240 then 144 \<le> b \<and> b \<le> 191
     else if a = 244 then 128 \<le> b \<and> b \<le> 143 else cont_byte b)"

fun decode_runes :: "nat list \<Rightarrow> nat option list" where
  "decode_runes [] = []"
| "decode_runes (a # bs) =
     (if a < 128 then Some a # decode_runes bs
      else if 194 \<le> a \<and> a \<le> 223 then
        (case bs of
           b # cs \<Rightarrow> if cont_byte b then Some ((a - 192) * 64 + (b - 128)) # decode_runes cs
                      else None # decode_runes bs
         | [] \<Rightarrow> None # decode_runes bs)
      else if 224 \<le> a \<and> a \<le> 239 then
        (case bs of
           b # c # ds \<Rightarrow> if second_ok3 a b \<and> cont_byte c
                           then Some ((a - 224) * 4096 + (b - 128) * 64 + (c - 128)) # decode_runes ds
                           else None # decode_runes bs
         | _ \<Rightarrow> None # decode_runes bs)
      else if 240 \<le> a \<and> a \<le> 244 then
        (case bs of
           b # c # d # es \<Rightarrow> if second_ok4 a b \<and> cont_byte c \<and> cont_byte d
                               then Some ((a - 240) * 262144 + (b - 128) * 4096 + (c - 128) * 64 + (d - 128))
                                      # decode_runes es
                               else None # decode_runes bs
         | _ \<Rightarrow> None # decode_runes bs)
      else None # decode_runes bs)"

definition runes :: "string \<Rightarrow> nat option list" where
  "runes s = decode_runes (map of_char s)"

definition valid_utf8 :: "string \<Rightarrow> bool" where
  "valid_utf8 s \<longleftrightarrow> None \<notin> set (runes s)"

definition rune_count :: "string \<Rightarrow> nat" where
  "rune_count s = length (runes s)"

definition space_rune :: "nat \<Rightarrow> bool" where
  "space_rune r \<longleftrightarrow> r \<in> {9, 10, 11, 12, 13, 32, 133, 160, 5760, 8232, 8233, 8239, 8287, 12288}
     \<or> 8192 \<le> r \<and> r \<le> 8202"

text \<open>\<open>strings.TrimSpace(s) == ""\<close>.\<close>

definition blank :: "string \<Rightarrow> bool" where
  "blank s \<longleftrightarrow> list_all (\<lambda>r. case r of None \<Rightarrow> False | Some c \<Rightarrow> space_rune c) (runes s)"

definition ascii :: "string \<Rightarrow> bool" where
  "ascii s \<longleftrightarrow> list_all (\<lambda>c. (of_char c :: nat) < 128) s"

lemma decode_runes_ascii: "list_all (\<lambda>b. b < 128) bs \<Longrightarrow> decode_runes bs = map Some bs"
  by (induction bs) auto

lemma runes_ascii: "ascii s \<Longrightarrow> runes s = map (\<lambda>c. Some (of_char c)) s"
  unfolding runes_def ascii_def by (subst decode_runes_ascii) (auto simp: list_all_iff)

lemma valid_utf8_ascii: "ascii s \<Longrightarrow> valid_utf8 s"
  by (auto simp: valid_utf8_def runes_ascii)

lemma rune_count_ascii: "ascii s \<Longrightarrow> rune_count s = length s"
  by (simp add: rune_count_def runes_ascii)

subsection \<open>Words\<close>

lemma unat_minus_le: "(b :: 'a::len word) \<le> a \<Longrightarrow> unat (a - b) = unat a - unat b"
  by (simp add: unat_sub word_le_nat_alt)

lemma unat_plus_no_wrap:
  "unat (a :: u64) + unat b < 2 ^ 64 \<Longrightarrow> unat (a + b) = unat a + unat b"
  by (simp add: unat_word_ariths)

lemma max_minus_less_iff: "(- 1 - a :: u64) < b \<longleftrightarrow> \<not> unat a + unat b < 2 ^ 64"
proof -
  have "unat (- 1 - a :: u64) = 2 ^ 64 - 1 - unat a"
    by (subst unat_minus_le) (simp_all add: unsigned_minus_1_eq_mask mask_eq_exp_minus_1)
  moreover have "unat a < 2 ^ 64" using unsigned_less [of a] by simp
  ultimately show ?thesis by (simp add: word_less_nat_alt) linarith
qed

end
