(* ===== verification/Host_Types.thy ===== *)
theory Host_Types
  imports Go_Prelude
begin

section \<open>The Host contract: data (package \<open>host\<close>, types.go and action.go)\<close>

text \<open>
  The engine-neutral values exchanged between Rin and an authoritative game Host. A Go string enumeration is a
  datatype with one constructor per declared constant and one constructor for every other string, so that the
  validators and the \<open>default\<close> branches of the code have something to reject. Optional pointers are options.
  \<open>json.RawMessage\<close> is the byte string itself.

  The record \<open>go_env\<close> holds what the code takes from outside the modelled sources: the JSON decoder and encoder,
  the strict JSON pre-check of \<open>internal/jsonwire\<close>, SHA-256, float parsing and the third-party JSON Schema
  compiler. Every definition that needs them takes the record as an argument, and every theorem holds for all
  of them unless it names a hypothesis.
\<close>

datatype validation_error = ValidationError (ve_Field: string) (ve_Message: string)

definition invalid :: "string \<Rightarrow> string \<Rightarrow> validation_error" where
  "invalid field message = ValidationError field message"

definition prefixValidation :: "string \<Rightarrow> validation_error \<Rightarrow> validation_error" where
  "prefixValidation prefix e = invalid (prefix @ ''.'' @ ve_Field e) (ve_Message e)"

subsection \<open>Enumerations\<close>

datatype clock_mode = ClockEvent | ClockStep | ClockRealtime | ClockOther string
datatype decision_mode = DecisionSequential | DecisionSimultaneous | DecisionAsynchronous | DecisionOther string
datatype authority_mode = AuthorityStandalone | AuthorityServer | AuthorityClientAdvisory | AuthorityOther string
datatype deployment_mode =
    DeploymentLoopbackSidecar | DeploymentDedicatedServer | DeploymentRemoteHTTPS
  | DeploymentEmbeddedOffline | DeploymentComputerControl | DeploymentOther string
datatype control_mode = ControlSemantic | ControlAccessibility | ControlComputerControl | ControlOther string
datatype durability_profile = DurabilityAdvisory | DurabilityIdempotent | DurabilityTransactional | DurabilityOther string
datatype execution_mode = ExecutionImmediate | ExecutionQueued | ExecutionLongRunning | ExecutionOther string
datatype risk_level = RiskLow | RiskModerate | RiskHigh | RiskCritical | RiskOther string
datatype cancellation_mode =
    CancellationUnsupported | CancellationCooperative | CancellationPreemptive | CancellationOther string
datatype action_run_status =
    ActionQueued | ActionRunning | ActionSucceeded | ActionFailed | ActionCancelled | ActionInterrupted
  | ActionStale | ActionOutcomeUnknown | ActionStatusOther string
datatype ownership_class =
    OwnershipUnknown | OwnershipSystem | OwnershipActor | OwnershipController | OwnershipPlayer
  | OwnershipShared | OwnershipUnowned | OwnershipOther string
datatype effect_operation =
    OperationRead | OperationCreate | OperationUpdate | OperationDelete | OperationTransfer
  | OperationConsume | OperationExecute | OperationCommunicate | EffectOperationOther string
datatype capability_kind = CapabilityAtomic | CapabilityMacro | CapabilityKindOther string

text \<open>The strings behind the constants, where the code sorts by them or prints them.\<close>

fun clock_string :: "clock_mode \<Rightarrow> string" where
  "clock_string ClockEvent = ''event''"
| "clock_string ClockStep = ''step''"
| "clock_string ClockRealtime = ''realtime''"
| "clock_string (ClockOther s) = s"

fun ownership_string :: "ownership_class \<Rightarrow> string" where
  "ownership_string OwnershipUnknown = ''unknown''"
| "ownership_string OwnershipSystem = ''system''"
| "ownership_string OwnershipActor = ''actor''"
| "ownership_string OwnershipController = ''controller''"
| "ownership_string OwnershipPlayer = ''player''"
| "ownership_string OwnershipShared = ''shared''"
| "ownership_string OwnershipUnowned = ''unowned''"
| "ownership_string (OwnershipOther s) = s"

fun effect_operation_string :: "effect_operation \<Rightarrow> string" where
  "effect_operation_string OperationRead = ''read''"
| "effect_operation_string OperationCreate = ''create''"
| "effect_operation_string OperationUpdate = ''update''"
| "effect_operation_string OperationDelete = ''delete''"
| "effect_operation_string OperationTransfer = ''transfer''"
| "effect_operation_string OperationConsume = ''consume''"
| "effect_operation_string OperationExecute = ''execute''"
| "effect_operation_string OperationCommunicate = ''communicate''"
| "effect_operation_string (EffectOperationOther s) = s"

fun action_run_status_string :: "action_run_status \<Rightarrow> string" where
  "action_run_status_string ActionQueued = ''queued''"
| "action_run_status_string ActionRunning = ''running''"
| "action_run_status_string ActionSucceeded = ''succeeded''"
| "action_run_status_string ActionFailed = ''failed''"
| "action_run_status_string ActionCancelled = ''cancelled''"
| "action_run_status_string ActionInterrupted = ''interrupted''"
| "action_run_status_string ActionStale = ''stale''"
| "action_run_status_string ActionOutcomeUnknown = ''outcome-unknown''"
| "action_run_status_string (ActionStatusOther s) = s"

fun durability_profile_string :: "durability_profile \<Rightarrow> string" where
  "durability_profile_string DurabilityAdvisory = ''advisory''"
| "durability_profile_string DurabilityIdempotent = ''idempotent-action''"
| "durability_profile_string DurabilityTransactional = ''transactional-action''"
| "durability_profile_string (DurabilityOther s) = s"

subsection \<open>Manifest, principal, epoch, time, references\<close>

record durability =
  du_Profile :: durability_profile
  du_StableIdentity :: bool
  du_DurableBeforeNetwork :: bool
  du_DurableOutbox :: bool
  du_IdempotentApply :: bool
  du_AtomicApplyAndOutbox :: bool

record host_manifest =
  hm_ContractVersion :: string
  hm_AdapterID :: string
  hm_AdapterVersion :: string
  hm_EngineID :: string
  hm_EngineVersion :: string
  hm_Runtime :: string
  hm_Platform :: string
  hm_Headless :: bool
  hm_Authority :: authority_mode
  hm_Deployment :: deployment_mode
  hm_Control :: control_mode
  hm_ClockModes :: "clock_mode list"
  hm_DecisionModes :: "decision_mode list"
  hm_MaxConcurrentActors :: u32
  hm_Durability :: durability

record principal =
  pr_ID :: string
  pr_GrantedScopes :: "string list"

record epoch =
  ep_SessionID :: string
  ep_WorldID :: string
  ep_Host :: u64
  ep_World :: u64
  ep_Timeline :: u64

record timepoint =
  tp_Clock :: clock_mode
  tp_Value :: int

record duration =
  dr_Clock :: clock_mode
  dr_Value :: u64

record host_ref =
  hr_Namespace :: string
  hr_Type :: string
  hr_Key :: string
  hr_Ephemeral :: bool
  hr_Epoch :: epoch

record schema =
  sc_Dialect :: string
  sc_Document :: string
  sc_SHA256 :: string

text \<open>
  A capability version. The catalog is ordered by identifier, then version (\<open>SnapshotSpecs\<close>,
  \<open>capabilityRefLess\<close>), which makes the type a linear order.
\<close>

datatype capability_ref = CapabilityRef (cr_ID: string) (cr_Version: string)

instantiation capability_ref :: linorder
begin

definition less_eq_capability_ref :: "capability_ref \<Rightarrow> capability_ref \<Rightarrow> bool" where
  "less_eq_capability_ref a b \<longleftrightarrow> cr_ID a < cr_ID b \<or> cr_ID a = cr_ID b \<and> cr_Version a \<le> cr_Version b"

definition less_capability_ref :: "capability_ref \<Rightarrow> capability_ref \<Rightarrow> bool" where
  "less_capability_ref a b \<longleftrightarrow> cr_ID a < cr_ID b \<or> cr_ID a = cr_ID b \<and> cr_Version a < cr_Version b"

instance
proof
  fix x y z :: capability_ref
  show "x < y \<longleftrightarrow> x \<le> y \<and> \<not> y \<le> x"
    by (auto simp: less_eq_capability_ref_def less_capability_ref_def)
  show "x \<le> x" by (simp add: less_eq_capability_ref_def)
  show "x \<le> y \<Longrightarrow> y \<le> z \<Longrightarrow> x \<le> z" by (auto simp: less_eq_capability_ref_def)
  show "x \<le> y \<Longrightarrow> y \<le> x \<Longrightarrow> x = y"
    by (auto simp: less_eq_capability_ref_def intro: capability_ref.expand)
  show "x \<le> y \<or> y \<le> x" by (auto simp: less_eq_capability_ref_def)
qed

end

subsection \<open>Runs and outcomes\<close>

record action_run =
  ar_OperationID :: string
  ar_Status :: action_run_status
  ar_ProgressSeq :: u64
  ar_Progress :: u32
  ar_UpdatedAt :: timepoint
  ar_Message :: string

record action_outcome =
  ao_OperationID :: string
  ao_Status :: action_run_status
  ao_Code :: string
  ao_Summary :: string
  ao_Evidence :: "host_ref list"
  ao_Epoch :: epoch
  ao_WorldSeq :: u64
  ao_OccurredAt :: timepoint

subsection \<open>Observations\<close>

record schema_ref =
  sr_ID :: string
  sr_Version :: string
  sr_SHA256 :: string

record observation_fact =
  of_FactID :: string
  of_Kind :: string
  of_Subject :: "host_ref option"
  of_Tags :: "string list"
  of_Value :: string

record observation_resource =
  or_Ref :: host_ref
  or_Kind :: string
  or_Tags :: "string list"
  or_Ownership :: ownership_class
  or_Scope :: string
  or_Quantity :: u64
  or_Unit :: string
  or_Attributes :: string

record observation_artifact =
  oa_ArtifactID :: string
  oa_Kind :: string
  oa_MediaType :: string
  oa_SizeBytes :: u64
  oa_SHA256 :: string

record observation_envelope =
  oe_ObservationID :: string
  oe_HostID :: string
  oe_WorldID :: string
  oe_ActorID :: string
  oe_Epoch :: epoch
  oe_Sequence :: u64
  oe_ObservedAt :: timepoint
  oe_Schema :: schema_ref
  oe_Payload :: string
  oe_Facts :: "observation_fact list"
  oe_Resources :: "observation_resource list"
  oe_Artifacts :: "observation_artifact list"
  oe_ContinuationToken :: string

record observation_query =
  oq_QueryID :: string
  oq_HostID :: string
  oq_WorldID :: string
  oq_ActorID :: string
  oq_ExpectedEpoch :: epoch
  oq_AfterSequence :: u64
  oq_Kinds :: "string list"
  oq_Limit :: u32
  oq_ContinuationToken :: string

subsection \<open>Capabilities, effects, requests and bindings\<close>

record capability_spec =
  cs_Capability :: capability_ref
  cs_Description :: string
  cs_Input :: schema
  cs_Output :: schema
  cs_EffectSchema :: schema
  cs_Kind :: capability_kind
  cs_Execution :: execution_mode
  cs_Cancellation :: cancellation_mode
  cs_RiskFloor :: risk_level
  cs_RequiredDurability :: durability_profile
  cs_RequiredScopes :: "string list"
  cs_ExecutionBudget :: duration
  cs_MaxInputBytes :: u32
  cs_MaxOutputBytes :: u32
  cs_MaxEffects :: u32
  cs_ProducesChildOperations :: bool
  cs_Digest :: string

record effect =
  ef_EffectID :: string
  ef_Kind :: string
  ef_Operation :: effect_operation
  ef_Subject :: "host_ref option"
  ef_Target :: "host_ref option"
  ef_Tags :: "string list"
  ef_Ownership :: ownership_class
  ef_Scope :: string
  ef_Quantity :: u64
  ef_Unit :: string
  ef_Reversible :: bool
  ef_Risk :: risk_level
  ef_Attributes :: string

record plan_step_ref =
  ps_PlanID :: string
  ps_PlanRevision :: u64
  ps_StepID :: string

record action_request =
  rq_RequestID :: string
  rq_ControllerID :: string
  rq_ActorID :: string
  rq_Capability :: capability_ref
  rq_SpecDigest :: string
  rq_Arguments :: string
  rq_Targets :: "host_ref list"
  rq_ExpectedEpoch :: epoch
  rq_ObservationSeq :: u64
  rq_TaskID :: string
  rq_PlanStep :: "plan_step_ref option"
  rq_IdempotencyKey :: string

record binding_draft =
  bd_BindingID :: string
  bd_ResolvedTargets :: "host_ref list"
  bd_Effects :: "effect list"
  bd_ValidUntil :: timepoint

record bound_action =
  ba_BindingID :: string
  ba_RequestID :: string
  ba_RequestDigest :: string
  ba_ControllerID :: string
  ba_ActorID :: string
  ba_Capability :: capability_ref
  ba_SpecDigest :: string
  ba_NormalizedArguments :: string
  ba_RequestedTargets :: "host_ref list"
  ba_ResolvedTargets :: "host_ref list"
  ba_ExpectedEpoch :: epoch
  ba_ObservationSeq :: u64
  ba_TaskID :: string
  ba_PlanStep :: "plan_step_ref option"
  ba_IdempotencyKey :: string
  ba_Effects :: "effect list"
  ba_EffectDigest :: string
  ba_BoundAt :: timepoint
  ba_ValidUntil :: timepoint

subsection \<open>JSON values and the environment\<close>

datatype json =
    JNull
  | JBool bool
  | JNumber string
  | JString string
  | JArray "json list"
  | JObject "(string \<times> json) list"

text \<open>
  \<^item> \<open>jsonwire_Validate\<close>: the strict pre-check of \<open>internal/jsonwire\<close> (the message of its error, if any);
  \<^item> \<open>json_decode\<close>: one value decoded with \<open>UseNumber\<close>, or the decoder's error message;
  \<^item> \<open>json_trailing\<close>: the error of \<open>requireJSONEOF\<close> after that value, if any;
  \<^item> \<open>json_decode_raw_object\<close>: decoding into \<open>map[string]json.RawMessage\<close> (\<open>null\<close> is the empty map);
  \<^item> \<open>json_marshal\<close>, \<open>json_marshal_raw_object\<close>: \<open>json.Marshal\<close> of a decoded value and of such a map;
  \<^item> \<open>marshal_request\<close>, \<open>marshal_effects\<close>, \<open>marshal_bound_action\<close>, \<open>marshal_capability_spec\<close>,
    \<open>marshal_observation\<close>: \<open>json.Marshal\<close> of the structures the code digests or measures;
  \<^item> \<open>sha256Hex\<close>: the hexadecimal SHA-256 of a byte string;
  \<^item> \<open>float_interoperable\<close>: \<open>strconv.ParseFloat\<close> succeeds with a finite value of magnitude at most
    \<open>maxInteroperableInteger\<close>;
  \<^item> \<open>schema_compile\<close>, \<open>schema_unmarshal\<close>, \<open>schema_validate\<close>: the \<open>jsonschema\<close> package; a compiled schema is
    identified by the canonical document it was compiled from.
\<close>

record go_env =
  jsonwire_Validate :: "string \<Rightarrow> string option"
  json_decode :: "string \<Rightarrow> string + json"
  json_trailing :: "string \<Rightarrow> string option"
  json_decode_raw_object :: "string \<Rightarrow> (string \<times> string) list option"
  json_marshal :: "json \<Rightarrow> string + string"
  json_marshal_raw_object :: "(string \<times> string) list \<Rightarrow> string + string"
  marshal_request :: "action_request \<Rightarrow> string + string"
  marshal_effects :: "effect list \<Rightarrow> string + string"
  marshal_bound_action :: "bound_action \<Rightarrow> string + string"
  marshal_capability_spec :: "capability_spec \<Rightarrow> string + string"
  marshal_observation :: "observation_envelope \<Rightarrow> string + string"
  sha256Hex :: "string \<Rightarrow> string"
  float_interoperable :: "string \<Rightarrow> bool"
  schema_compile :: "string \<Rightarrow> string option"
  schema_unmarshal :: "string \<Rightarrow> string + json"
  schema_validate :: "string \<Rightarrow> json \<Rightarrow> string option"

end
