(* ===== verification/Host_Validate.thy ===== *)
theory Host_Validate
  imports Host_Types
begin

section \<open>Validation of Host values (package \<open>host\<close>, validate.go and action_validate.go)\<close>

text \<open>
  Every validator of the Host contract, in the order and with the error paths of the source. The last
  subsections characterise what the validators accept: the identifier automaton against the grammar of its
  regular expression, the progress state machine of action runs, and what a valid \<open>BoundAction\<close> guarantees
  to the policy engine.
\<close>

definition maxHostIdentifierBytes :: nat where
  "maxHostIdentifierBytes = 96"

definition maxInteroperableInteger :: nat where
  "maxInteroperableInteger = 9007199254740991"

definition ContractVersion :: string where
  "ContractVersion = ''rin.host/v2''"

definition SchemaDialect :: string where
  "SchemaDialect = ''https://json-schema.org/draft/2020-12/schema''"

text \<open>A positive integer that JSON clients represent exactly: \<open>x == 0 || x > maxInteroperableInteger\<close> is rejected.\<close>

definition positive_json_safe :: "u64 \<Rightarrow> bool" where
  "positive_json_safe w \<longleftrightarrow> w \<noteq> 0 \<and> unat w \<le> maxInteroperableInteger"

subsection \<open>Text and identifiers\<close>

definition validateHostID :: "string \<Rightarrow> string \<Rightarrow> bool \<Rightarrow> validation_error option" where
  "validateHostID field value namespaced =
     (if length value = 0 \<or> length value > maxHostIdentifierBytes \<or> \<not> id_pattern value
      then Some (invalid field ''must be a lowercase safe identifier of at most 96 bytes'')
      else if namespaced \<and> CHR ''.'' \<notin> set value
      then Some (invalid field ''must be namespaced'')
      else None)"

definition validateText :: "string \<Rightarrow> string \<Rightarrow> nat \<Rightarrow> bool \<Rightarrow> validation_error option" where
  "validateText field value maximum required =
     first_err [
       require (\<not> (required \<and> blank value)) (invalid field ''is required''),
       require (valid_utf8 value \<and> NUL \<notin> set value) (invalid field ''must be valid UTF-8 without NUL''),
       require (rune_count value \<le> maximum)
         (invalid field (''must contain at most '' @ format_nat maximum @ '' characters''))]"

fun validate_ids :: "(string \<times> string) list \<Rightarrow> validation_error option" where
  "validate_ids [] = None"
| "validate_ids ((field, value) # rest) =
     (case validateHostID field value False of Some e \<Rightarrow> Some e | None \<Rightarrow> validate_ids rest)"

subsection \<open>Semantic versions\<close>

text \<open>
  \<open>versionCore\<close>: three numbers without leading zeros, an optional pre-release after \<open>-\<close> and optional build
  metadata after \<open>+\<close>. \<open>version_core\<close> returns the two optional groups (the empty string when absent).
\<close>

fun span :: "('a \<Rightarrow> bool) \<Rightarrow> 'a list \<Rightarrow> 'a list \<times> 'a list" where
  "span p [] = ([], [])"
| "span p (x # xs) = (if p x then (let (ys, zs) = span p xs in (x # ys, zs)) else ([], x # xs))"

definition version_number :: "string \<Rightarrow> bool" where
  "version_number s \<longleftrightarrow> s \<noteq> [] \<and> list_all digit_char s \<and> (hd s = CHR ''0'' \<longrightarrow> s = ''0'')"

definition version_tail_char :: "char \<Rightarrow> bool" where
  "version_tail_char c \<longleftrightarrow> digit_char c \<or> upper_char c \<or> lower_char c \<or> c = CHR ''.'' \<or> c = CHR ''-''"

definition version_numbers :: "string \<Rightarrow> string option" where
  "version_numbers s =
     (let (major, r1) = span digit_char s in
      case r1 of
        [] \<Rightarrow> None
      | d1 # r1' \<Rightarrow>
          (let (minor, r2) = span digit_char r1' in
           case r2 of
             [] \<Rightarrow> None
           | d2 # r2' \<Rightarrow>
               (let (patch, r3) = span digit_char r2' in
                if version_number major \<and> d1 = CHR ''.'' \<and> version_number minor \<and> d2 = CHR ''.''
                   \<and> version_number patch
                then Some r3 else None)))"

definition version_build :: "string \<Rightarrow> string option" where
  "version_build s =
     (case s of
        [] \<Rightarrow> Some ''''
      | c # r \<Rightarrow> if c = CHR ''+'' \<and> r \<noteq> [] \<and> list_all version_tail_char r then Some r else None)"

definition version_core :: "string \<Rightarrow> (string \<times> string) option" where
  "version_core s =
     (case version_numbers s of
        None \<Rightarrow> None
      | Some rest \<Rightarrow>
          (case rest of
             c # r \<Rightarrow>
               if c = CHR ''-'' then
                 (let (pre, tail) = span version_tail_char r in
                  if pre = [] then None else map_option (\<lambda>b. (pre, b)) (version_build tail))
               else map_option (\<lambda>b. ('''', b)) (version_build rest)
           | [] \<Rightarrow> Some ('''', '''')))"

fun split_dots :: "string \<Rightarrow> string list" where
  "split_dots [] = [[]]"
| "split_dots (c # cs) =
     (if c = CHR ''.'' then [] # split_dots cs
      else (case split_dots cs of [] \<Rightarrow> [[c]] | s # ss \<Rightarrow> (c # s) # ss))"

definition digits_value :: "string \<Rightarrow> nat" where
  "digits_value s = foldl (\<lambda>acc c. 10 * acc + (of_char c - 48)) 0 s"

text \<open>\<open>strconv.ParseUint(s, 10, 64)\<close> returns no error.\<close>

definition parse_uint64_ok :: "string \<Rightarrow> bool" where
  "parse_uint64_ok s \<longleftrightarrow> s \<noteq> [] \<and> list_all digit_char s \<and> digits_value s < 2 ^ 64"

definition validateVersionIdentifiers :: "string \<Rightarrow> bool \<Rightarrow> string option" where
  "validateVersionIdentifiers value prerelease =
     (if value = [] then None
      else first_err (map (\<lambda>identifier.
        if identifier = [] then Some ''version identifiers must not be empty''
        else if prerelease \<and> length identifier > 1 \<and> hd identifier = CHR ''0'' \<and> parse_uint64_ok identifier
        then Some ''numeric prerelease identifiers must not contain leading zeroes''
        else None) (split_dots value)))"

definition validateExactVersion :: "string \<Rightarrow> string \<Rightarrow> validation_error option" where
  "validateExactVersion field value =
     (case version_core value of
        None \<Rightarrow> Some (invalid field ''must be an exact SemVer version'')
      | Some (pre, build) \<Rightarrow>
          first_err [
            map_option (invalid field) (validateVersionIdentifiers pre True),
            map_option (invalid field) (validateVersionIdentifiers build False)])"

subsection \<open>Enumerations, time, epochs and references\<close>

definition validClockMode :: "clock_mode \<Rightarrow> bool" where
  "validClockMode v \<longleftrightarrow> v = ClockEvent \<or> v = ClockStep \<or> v = ClockRealtime"

definition validDecisionMode :: "decision_mode \<Rightarrow> bool" where
  "validDecisionMode v \<longleftrightarrow> v = DecisionSequential \<or> v = DecisionSimultaneous \<or> v = DecisionAsynchronous"

definition validAuthorityMode :: "authority_mode \<Rightarrow> bool" where
  "validAuthorityMode v \<longleftrightarrow> v = AuthorityStandalone \<or> v = AuthorityServer \<or> v = AuthorityClientAdvisory"

definition validDeploymentMode :: "deployment_mode \<Rightarrow> bool" where
  "validDeploymentMode v \<longleftrightarrow> v = DeploymentLoopbackSidecar \<or> v = DeploymentDedicatedServer
     \<or> v = DeploymentRemoteHTTPS \<or> v = DeploymentEmbeddedOffline \<or> v = DeploymentComputerControl"

definition validControlMode :: "control_mode \<Rightarrow> bool" where
  "validControlMode v \<longleftrightarrow> v = ControlSemantic \<or> v = ControlAccessibility \<or> v = ControlComputerControl"

definition validDurabilityProfile :: "durability_profile \<Rightarrow> bool" where
  "validDurabilityProfile v \<longleftrightarrow> v = DurabilityAdvisory \<or> v = DurabilityIdempotent \<or> v = DurabilityTransactional"

definition validExecutionMode :: "execution_mode \<Rightarrow> bool" where
  "validExecutionMode v \<longleftrightarrow> v = ExecutionImmediate \<or> v = ExecutionQueued \<or> v = ExecutionLongRunning"

definition validRiskLevel :: "risk_level \<Rightarrow> bool" where
  "validRiskLevel v \<longleftrightarrow> v = RiskLow \<or> v = RiskModerate \<or> v = RiskHigh \<or> v = RiskCritical"

definition validCancellationMode :: "cancellation_mode \<Rightarrow> bool" where
  "validCancellationMode v \<longleftrightarrow>
     v = CancellationUnsupported \<or> v = CancellationCooperative \<or> v = CancellationPreemptive"

definition validActionRunStatus :: "action_run_status \<Rightarrow> bool" where
  "validActionRunStatus v \<longleftrightarrow> v = ActionQueued \<or> v = ActionRunning \<or> v = ActionSucceeded \<or> v = ActionFailed
     \<or> v = ActionCancelled \<or> v = ActionInterrupted \<or> v = ActionStale \<or> v = ActionOutcomeUnknown"

definition isTerminalActionRunStatus :: "action_run_status \<Rightarrow> bool" where
  "isTerminalActionRunStatus v \<longleftrightarrow> v = ActionSucceeded \<or> v = ActionFailed \<or> v = ActionCancelled
     \<or> v = ActionInterrupted \<or> v = ActionStale \<or> v = ActionOutcomeUnknown"

definition validOwnershipClass :: "ownership_class \<Rightarrow> bool" where
  "validOwnershipClass v \<longleftrightarrow> v = OwnershipUnknown \<or> v = OwnershipSystem \<or> v = OwnershipActor
     \<or> v = OwnershipController \<or> v = OwnershipPlayer \<or> v = OwnershipShared \<or> v = OwnershipUnowned"

definition validEffectOperation :: "effect_operation \<Rightarrow> bool" where
  "validEffectOperation v \<longleftrightarrow> v = OperationRead \<or> v = OperationCreate \<or> v = OperationUpdate
     \<or> v = OperationDelete \<or> v = OperationTransfer \<or> v = OperationConsume \<or> v = OperationExecute
     \<or> v = OperationCommunicate"

fun riskRank :: "risk_level \<Rightarrow> int" where
  "riskRank RiskLow = 0"
| "riskRank RiskModerate = 1"
| "riskRank RiskHigh = 2"
| "riskRank RiskCritical = 3"
| "riskRank (RiskOther _) = -1"

definition Epoch_Validate :: "epoch \<Rightarrow> string \<Rightarrow> validation_error option" where
  "Epoch_Validate e field =
     first_err [
       validateHostID (field @ ''.session_id'') (ep_SessionID e) False,
       validateHostID (field @ ''.world_id'') (ep_WorldID e) False,
       require (positive_json_safe (ep_Host e) \<and> positive_json_safe (ep_World e)
                \<and> positive_json_safe (ep_Timeline e))
         (invalid field ''host, world, and timeline generations must be positive JSON-safe integers'')]"

definition Timepoint_Validate :: "timepoint \<Rightarrow> string \<Rightarrow> validation_error option" where
  "Timepoint_Validate t field =
     first_err [
       require (validClockMode (tp_Clock t)) (invalid (field @ ''.clock'') ''is not supported''),
       require (0 \<le> tp_Value t \<and> tp_Value t \<le> int maxInteroperableInteger)
         (invalid (field @ ''.value'') ''must be a non-negative JSON-safe integer'')]"

definition Duration_Validate :: "duration \<Rightarrow> string \<Rightarrow> validation_error option" where
  "Duration_Validate d field =
     first_err [
       require (validClockMode (dr_Clock d)) (invalid (field @ ''.clock'') ''is not supported''),
       require (positive_json_safe (dr_Value d))
         (invalid (field @ ''.value'') ''must be a positive JSON-safe integer'')]"

definition HostRef_Validate :: "host_ref \<Rightarrow> string \<Rightarrow> validation_error option" where
  "HostRef_Validate r field =
     first_err [
       validateHostID (field @ ''.namespace'') (hr_Namespace r) True,
       validateHostID (field @ ''.type'') (hr_Type r) False,
       validateText (field @ ''.key'') (hr_Key r) 256 True,
       Epoch_Validate (hr_Epoch r) (field @ ''.epoch'')]"

definition CapabilityRef_Validate :: "capability_ref \<Rightarrow> string \<Rightarrow> validation_error option" where
  "CapabilityRef_Validate r field =
     first_err [
       validateHostID (field @ ''.id'') (cr_ID r) True,
       require (CHR ''.'' \<in> set (cr_ID r)) (invalid (field @ ''.id'') ''must be namespaced''),
       validateExactVersion (field @ ''.version'') (cr_Version r)]"

definition PlanStepRef_Validate :: "plan_step_ref \<Rightarrow> string \<Rightarrow> validation_error option" where
  "PlanStepRef_Validate r field =
     first_err [
       validateHostID (field @ ''.plan_id'') (ps_PlanID r) False,
       require (positive_json_safe (ps_PlanRevision r))
         (invalid (field @ ''.plan_revision'') ''must be a positive JSON-safe integer''),
       validateHostID (field @ ''.step_id'') (ps_StepID r) False]"

definition SchemaRef_Validate :: "schema_ref \<Rightarrow> string \<Rightarrow> validation_error option" where
  "SchemaRef_Validate r field =
     first_err [
       validateHostID (field @ ''.id'') (sr_ID r) True,
       validateExactVersion (field @ ''.version'') (sr_Version r),
       require (digest_pattern (sr_SHA256 r))
         (invalid (field @ ''.sha256'') ''must be a lowercase SHA-256 digest'')]"

definition ref_key :: "host_ref \<Rightarrow> string" where
  "ref_key r = nul_join [hr_Namespace r, hr_Type r, hr_Key r]"

definition validateRefs :: "string \<Rightarrow> host_ref list \<Rightarrow> epoch \<Rightarrow> validation_error option" where
  "validateRefs field refs e =
     first_err [
       require (length refs \<le> 32) (invalid field ''must contain at most 32 values''),
       loop_err (\<lambda>i seen r. first_err [
           HostRef_Validate r (indexed field i),
           require (hr_Epoch r = e) (invalid (indexed field i @ ''.epoch'') ''must equal action epoch''),
           require (ref_key r \<notin> ref_key ` set seen) (invalid field ''must not contain duplicates'')])
         [] refs]"

definition validateRefAtEpoch :: "string \<Rightarrow> host_ref \<Rightarrow> epoch \<Rightarrow> validation_error option" where
  "validateRefAtEpoch field r e =
     first_err [
       HostRef_Validate r field,
       require (hr_Epoch r = e) (invalid (field @ ''.epoch'') ''must equal the enclosing epoch'')]"

definition validate_optional_ref :: "string \<Rightarrow> host_ref option \<Rightarrow> epoch \<Rightarrow> validation_error option" where
  "validate_optional_ref field r e = (case r of None \<Rightarrow> None | Some x \<Rightarrow> validateRefAtEpoch field x e)"

definition maxEffectTags :: nat where
  "maxEffectTags = 32"

definition validateSortedTags :: "string \<Rightarrow> string list \<Rightarrow> validation_error option" where
  "validateSortedTags field tags =
     first_err [
       require (length tags \<le> maxEffectTags) (invalid field ''must contain at most 32 values''),
       loop_err (\<lambda>i pre tag. first_err [
           validateHostID (indexed field i) tag True,
           require (pre = [] \<or> last pre < tag) (invalid field ''must be sorted and contain no duplicates'')])
         [] tags]"


subsection \<open>Principals, durability and manifests\<close>

definition ValidatePrincipal :: "principal \<Rightarrow> validation_error option" where
  "ValidatePrincipal p =
     first_err [
       validateHostID ''principal.id'' (pr_ID p) False,
       require (length (pr_GrantedScopes p) \<le> 64)
         (invalid ''principal.granted_scopes'' ''must contain at most 64 values''),
       loop_err (\<lambda>i seen scope. first_err [
           validateHostID (indexed ''principal.granted_scopes'' i) scope True,
           require (scope \<notin> set seen) (invalid ''principal.granted_scopes'' ''must not contain duplicates'')])
         [] (pr_GrantedScopes p)]"

definition ValidateDurability :: "durability \<Rightarrow> validation_error option" where
  "ValidateDurability d =
     (if \<not> validDurabilityProfile (du_Profile d) then Some (invalid ''durability.profile'' ''is not supported'')
      else case du_Profile d of
        DurabilityAdvisory \<Rightarrow>
          require (\<not> (du_DurableBeforeNetwork d \<or> du_DurableOutbox d \<or> du_IdempotentApply d
                      \<or> du_AtomicApplyAndOutbox d))
            (invalid ''durability'' ''advisory profile must not claim stronger guarantees'')
      | DurabilityIdempotent \<Rightarrow>
          first_err [
            require (du_StableIdentity d \<and> du_DurableBeforeNetwork d \<and> du_DurableOutbox d \<and> du_IdempotentApply d)
              (invalid ''durability'' ''idempotent-action requires stable identity, durable pending work and outbox, and idempotent apply''),
            require (\<not> du_AtomicApplyAndOutbox d)
              (invalid ''durability.atomic_apply_and_outbox'' ''requires transactional-action profile'')]
      | DurabilityTransactional \<Rightarrow>
          require (du_StableIdentity d \<and> du_DurableBeforeNetwork d \<and> du_DurableOutbox d \<and> du_AtomicApplyAndOutbox d)
            (invalid ''durability'' ''transactional-action requires stable identity, durable pending work and outbox, and atomic apply/outbox'')
      | DurabilityOther _ \<Rightarrow> None)"

definition validateUniqueClockModes :: "clock_mode list \<Rightarrow> validation_error option" where
  "validateUniqueClockModes values =
     first_err [
       require (values \<noteq> [] \<and> length values \<le> 3) (invalid ''clock_modes'' ''must contain 1-3 values''),
       loop_err (\<lambda>i seen v. first_err [
           require (validClockMode v) (invalid (indexed ''clock_modes'' i) ''is not supported''),
           require (v \<notin> set seen) (invalid ''clock_modes'' ''must not contain duplicates'')])
         [] values]"

definition validateUniqueDecisionModes :: "decision_mode list \<Rightarrow> validation_error option" where
  "validateUniqueDecisionModes values =
     first_err [
       require (values \<noteq> [] \<and> length values \<le> 3) (invalid ''decision_modes'' ''must contain 1-3 values''),
       loop_err (\<lambda>i seen v. first_err [
           require (validDecisionMode v) (invalid (indexed ''decision_modes'' i) ''is not supported''),
           require (v \<notin> set seen) (invalid ''decision_modes'' ''must not contain duplicates'')])
         [] values]"

definition ValidateHostManifest :: "host_manifest \<Rightarrow> validation_error option" where
  "ValidateHostManifest m =
     first_err [
       require (hm_ContractVersion m = ContractVersion)
         (invalid ''contract_version'' (''must equal '' @ ContractVersion)),
       validate_ids [
         (''adapter_id'', hm_AdapterID m),
         (''engine_id'', hm_EngineID m),
         (''runtime'', hm_Runtime m),
         (''platform'', hm_Platform m)],
       validateExactVersion ''adapter_version'' (hm_AdapterVersion m),
       validateText ''engine_version'' (hm_EngineVersion m) 64 True,
       require (validAuthorityMode (hm_Authority m)) (invalid ''authority'' ''is not supported''),
       require (validDeploymentMode (hm_Deployment m)) (invalid ''deployment'' ''is not supported''),
       require (validControlMode (hm_Control m)) (invalid ''control'' ''is not supported''),
       require (\<not> (hm_Deployment m = DeploymentComputerControl \<and> hm_Control m \<noteq> ControlComputerControl))
         (invalid ''control'' ''must be computer-control for computer-control deployment''),
       require (\<not> (hm_Control m = ControlComputerControl \<and> hm_Deployment m \<noteq> DeploymentComputerControl))
         (invalid ''deployment'' ''must be computer-control for computer-control control mode''),
       validateUniqueClockModes (hm_ClockModes m),
       validateUniqueDecisionModes (hm_DecisionModes m),
       require (hm_MaxConcurrentActors m \<noteq> 0 \<and> unat (hm_MaxConcurrentActors m) \<le> 1000000)
         (invalid ''max_concurrent_actors'' ''must be between 1 and 1000000''),
       ValidateDurability (hm_Durability m),
       require (\<not> (hm_Authority m = AuthorityClientAdvisory \<and> du_Profile (hm_Durability m) \<noteq> DurabilityAdvisory))
         (invalid ''durability.profile'' ''client-advisory hosts cannot claim world mutation durability'')]"

subsection \<open>Action runs and outcomes\<close>

definition ValidateActionRun :: "action_run \<Rightarrow> validation_error option" where
  "ValidateActionRun run =
     first_err [
       validateHostID ''operation_id'' (ar_OperationID run) False,
       require (validActionRunStatus (ar_Status run)) (invalid ''status'' ''is not supported''),
       require (positive_json_safe (ar_ProgressSeq run))
         (invalid ''progress_seq'' ''must be a positive JSON-safe integer''),
       require (unat (ar_Progress run) \<le> 100) (invalid ''progress'' ''must be between 0 and 100''),
       require (\<not> (ar_Status run = ActionQueued \<and> ar_Progress run \<noteq> 0))
         (invalid ''progress'' ''queued action must have zero progress''),
       require (\<not> (ar_Status run = ActionSucceeded \<and> ar_Progress run \<noteq> 100))
         (invalid ''progress'' ''succeeded action must have 100 progress''),
       Timepoint_Validate (ar_UpdatedAt run) ''updated_at'',
       validateText ''message'' (ar_Message run) 500 False]"

fun CanTransitionActionRun :: "action_run_status \<Rightarrow> action_run_status \<Rightarrow> bool" where
  "CanTransitionActionRun ActionQueued to \<longleftrightarrow>
     to = ActionRunning \<or> to = ActionFailed \<or> to = ActionCancelled \<or> to = ActionStale \<or> to = ActionOutcomeUnknown"
| "CanTransitionActionRun ActionRunning to \<longleftrightarrow>
     to = ActionSucceeded \<or> to = ActionFailed \<or> to = ActionCancelled \<or> to = ActionInterrupted
     \<or> to = ActionStale \<or> to = ActionOutcomeUnknown"
| "CanTransitionActionRun ActionOutcomeUnknown to \<longleftrightarrow>
     to = ActionSucceeded \<or> to = ActionFailed \<or> to = ActionCancelled \<or> to = ActionInterrupted \<or> to = ActionStale"
| "CanTransitionActionRun _ to \<longleftrightarrow> False"

definition ValidateActionOutcome :: "action_outcome \<Rightarrow> validation_error option" where
  "ValidateActionOutcome out =
     first_err [
       validateHostID ''operation_id'' (ao_OperationID out) False,
       require (isTerminalActionRunStatus (ao_Status out)) (invalid ''status'' ''must be a terminal action status''),
       (if ao_Status out = ActionSucceeded
        then require (ao_Code out = []) (invalid ''code'' ''must be empty for succeeded outcome'')
        else validateHostID ''code'' (ao_Code out) True),
       validateText ''summary'' (ao_Summary out) 1000 True,
       Epoch_Validate (ao_Epoch out) ''epoch'',
       validateRefs ''evidence'' (ao_Evidence out) (ao_Epoch out),
       require (positive_json_safe (ao_WorldSeq out)) (invalid ''world_seq'' ''must be a positive JSON-safe integer''),
       Timepoint_Validate (ao_OccurredAt out) ''occurred_at'']"

subsection \<open>JSON documents\<close>

definition maxInstanceBytes :: nat where "maxInstanceBytes = 1048576"
definition maxFactValueBytes :: nat where "maxFactValueBytes = 4096"
definition maxEffectAttributeBytes :: nat where "maxEffectAttributeBytes = 16384"
definition maxEffectAttributes :: nat where "maxEffectAttributes = 64"

definition validateJSONObject :: "go_env \<Rightarrow> string \<Rightarrow> string \<Rightarrow> nat \<Rightarrow> validation_error option" where
  "validateJSONObject env field raw maximum =
     first_err [
       require (raw \<noteq> [] \<and> length raw \<le> maximum) (invalid field ''must be a bounded JSON object''),
       map_option (invalid field) (jsonwire_Validate env raw),
       (case json_decode env raw of
          Inl msg \<Rightarrow> Some (invalid field (''must be valid JSON: '' @ msg))
        | Inr v \<Rightarrow>
            first_err [
              map_option (invalid field) (json_trailing env raw),
              (case v of JObject _ \<Rightarrow> None | _ \<Rightarrow> Some (invalid field ''must be a JSON object''))])]"

definition canonicalizeJSONObject :: "go_env \<Rightarrow> string \<Rightarrow> string \<Rightarrow> nat \<Rightarrow> validation_error + string" where
  "canonicalizeJSONObject env field raw maximum =
     guard_err (validateJSONObject env field raw maximum)
       (case json_decode env raw of
          Inl msg \<Rightarrow> Inl (invalid field (''must be valid JSON: '' @ msg))
        | Inr v \<Rightarrow>
            (case json_marshal env v of
               Inl msg \<Rightarrow> Inl (invalid field (''cannot canonicalize: '' @ msg))
             | Inr canonical \<Rightarrow> Inr canonical))"

definition canonicalizeScalar :: "go_env \<Rightarrow> string \<Rightarrow> string \<Rightarrow> nat \<Rightarrow> validation_error + string" where
  "canonicalizeScalar env field raw maximum =
     guard_err (require (raw \<noteq> [] \<and> length raw \<le> maximum) (invalid field ''must be a bounded JSON scalar''))
     (guard_err (map_option (invalid field) (jsonwire_Validate env raw))
      (case json_decode env raw of
         Inl msg \<Rightarrow> Inl (invalid field (''must be valid JSON: '' @ msg))
       | Inr v \<Rightarrow>
           guard_err
             (case v of
                JBool _ \<Rightarrow> None
              | JNumber n \<Rightarrow>
                  first_err [
                    require (length n \<le> 64) (invalid field ''number representation is too long''),
                    require (float_interoperable env n) (invalid field ''number must be finite and interoperable'')]
              | JString t \<Rightarrow> validateText field t 1024 False
              | _ \<Rightarrow> Some (invalid field ''must be a string, number, or boolean''))
             (case json_marshal env v of
                Inl msg \<Rightarrow> Inl (invalid field (''cannot canonicalize: '' @ msg))
              | Inr canonical \<Rightarrow> Inr canonical)))"

fun canonicalize_members :: "go_env \<Rightarrow> string \<Rightarrow> (string \<times> string) list \<Rightarrow> validation_error + (string \<times> string) list" where
  "canonicalize_members env field [] = Inr []"
| "canonicalize_members env field ((name, item) # rest) =
     guard_err (validateHostID (field @ ''.'' @ name) name False)
       (ebind (canonicalizeScalar env (field @ ''.'' @ name) item maxFactValueBytes) (\<lambda>encoded.
         ebind (canonicalize_members env field rest) (\<lambda>members. Inr ((name, encoded) # members))))"

definition canonicalizeScalarObject :: "go_env \<Rightarrow> string \<Rightarrow> string \<Rightarrow> validation_error + string" where
  "canonicalizeScalarObject env field raw =
     guard_err (require (raw \<noteq> [] \<and> length raw \<le> maxEffectAttributeBytes)
                  (invalid field ''must be a bounded JSON object''))
     (guard_err (map_option (invalid field) (jsonwire_Validate env raw))
      (case json_decode_raw_object env raw of
         None \<Rightarrow> Inl (invalid field ''must be a JSON object'')
       | Some members \<Rightarrow>
           guard_err (require (length members \<le> maxEffectAttributes)
                        (invalid field ''must contain at most 64 properties''))
             (ebind (canonicalize_members env field members) (\<lambda>canonical.
                case json_marshal_raw_object env canonical of
                  Inl msg \<Rightarrow> Inl (invalid field (''cannot canonicalize: '' @ msg))
                | Inr encoded \<Rightarrow> Inr encoded))))"

subsection \<open>Observations\<close>

definition maxObservationBytes :: nat where "maxObservationBytes = 1048576"
definition maxObservationPayloadBytes :: nat where "maxObservationPayloadBytes = 262144"
definition maxObservationFacts :: nat where "maxObservationFacts = 256"
definition maxObservationResources :: nat where "maxObservationResources = 128"
definition maxObservationArtifacts :: nat where "maxObservationArtifacts = 64"
definition maxObservationArtifactBytes :: nat where "maxObservationArtifactBytes = 67108864"

definition media_head_char :: "char \<Rightarrow> bool" where
  "media_head_char c \<longleftrightarrow> lower_char c \<or> digit_char c"

definition media_char :: "char \<Rightarrow> bool" where
  "media_char c \<longleftrightarrow> lower_char c \<or> digit_char c \<or> c \<in> set ''!#$&^_.+-''"

text \<open>\<open>mediaTypePattern\<close>: type and subtype around the only slash.\<close>

definition media_type_pattern :: "string \<Rightarrow> bool" where
  "media_type_pattern s =
     (let (t, r) = span media_char s in
      case r of
        c # u \<Rightarrow> c = CHR ''/'' \<and> t \<noteq> [] \<and> media_head_char (hd t) \<and> u \<noteq> [] \<and> media_head_char (hd u)
                   \<and> list_all media_char u
      | [] \<Rightarrow> False)"

definition validateObservationFacts :: "go_env \<Rightarrow> observation_fact list \<Rightarrow> epoch \<Rightarrow> validation_error option" where
  "validateObservationFacts env facts e =
     first_err [
       require (length facts \<le> maxObservationFacts) (invalid ''facts'' ''must contain at most 256 values''),
       loop_err (\<lambda>i seen fact. let field = indexed ''facts'' i in first_err [
           validateHostID (field @ ''.fact_id'') (of_FactID fact) False,
           require (of_FactID fact \<notin> of_FactID ` set seen)
             (invalid ''facts'' ''must not contain duplicate fact_id values''),
           validateHostID (field @ ''.kind'') (of_Kind fact) True,
           validate_optional_ref (field @ ''.subject'') (of_Subject fact) e,
           validateSortedTags (field @ ''.tags'') (of_Tags fact),
           err_of (canonicalizeScalar env (field @ ''.value'') (of_Value fact) maxFactValueBytes)])
         [] facts]"

definition validateObservationResources ::
  "go_env \<Rightarrow> observation_resource list \<Rightarrow> epoch \<Rightarrow> validation_error option" where
  "validateObservationResources env resources e =
     first_err [
       require (length resources \<le> maxObservationResources)
         (invalid ''resources'' ''must contain at most 128 values''),
       loop_err (\<lambda>i seen r. let field = indexed ''resources'' i in first_err [
           validateRefAtEpoch (field @ ''.ref'') (or_Ref r) e,
           require (ref_key (or_Ref r) \<notin> (\<lambda>x. ref_key (or_Ref x)) ` set seen)
             (invalid ''resources'' ''must not contain duplicate refs''),
           validateHostID (field @ ''.kind'') (or_Kind r) True,
           validateSortedTags (field @ ''.tags'') (or_Tags r),
           require (validOwnershipClass (or_Ownership r)) (invalid (field @ ''.ownership'') ''is not supported''),
           validateHostID (field @ ''.scope'') (or_Scope r) True,
           require (unat (or_Quantity r) \<le> maxInteroperableInteger)
             (invalid (field @ ''.quantity'') ''must be a JSON-safe integer''),
           (if or_Unit r \<noteq> [] then validateHostID (field @ ''.unit'') (or_Unit r) False else None),
           err_of (canonicalizeScalarObject env (field @ ''.attributes'') (or_Attributes r))])
         [] resources]"

definition validateObservationArtifacts :: "observation_artifact list \<Rightarrow> validation_error option" where
  "validateObservationArtifacts artifacts =
     first_err [
       require (length artifacts \<le> maxObservationArtifacts)
         (invalid ''artifacts'' ''must contain at most 64 values''),
       loop_err (\<lambda>i seen a. let field = indexed ''artifacts'' i in first_err [
           validateHostID (field @ ''.artifact_id'') (oa_ArtifactID a) False,
           require (oa_ArtifactID a \<notin> oa_ArtifactID ` set seen)
             (invalid ''artifacts'' ''must not contain duplicate artifact_id values''),
           validateHostID (field @ ''.kind'') (oa_Kind a) True,
           require (media_type_pattern (oa_MediaType a))
             (invalid (field @ ''.media_type'') ''must be a lowercase media type without parameters''),
           require (oa_SizeBytes a \<noteq> 0 \<and> unat (oa_SizeBytes a) \<le> maxObservationArtifactBytes)
             (invalid (field @ ''.size_bytes'') ''must be between 1 and 67108864''),
           require (digest_pattern (oa_SHA256 a))
             (invalid (field @ ''.sha256'') ''must be a lowercase SHA-256 digest'')])
         [] artifacts]"

definition ValidateObservationEnvelope :: "go_env \<Rightarrow> observation_envelope \<Rightarrow> validation_error option" where
  "ValidateObservationEnvelope env ob =
     first_err [
       validate_ids [
         (''observation_id'', oe_ObservationID ob),
         (''host_id'', oe_HostID ob),
         (''world_id'', oe_WorldID ob),
         (''actor_id'', oe_ActorID ob)],
       Epoch_Validate (oe_Epoch ob) ''epoch'',
       require (oe_WorldID ob = ep_WorldID (oe_Epoch ob)) (invalid ''world_id'' ''must match epoch.world_id''),
       require (positive_json_safe (oe_Sequence ob)) (invalid ''sequence'' ''must be a positive JSON-safe integer''),
       Timepoint_Validate (oe_ObservedAt ob) ''observed_at'',
       SchemaRef_Validate (oe_Schema ob) ''schema_ref'',
       validateJSONObject env ''payload'' (oe_Payload ob) maxObservationPayloadBytes,
       validateObservationFacts env (oe_Facts ob) (oe_Epoch ob),
       validateObservationResources env (oe_Resources ob) (oe_Epoch ob),
       validateObservationArtifacts (oe_Artifacts ob),
       validateText ''continuation_token'' (oe_ContinuationToken ob) 512 False,
       (case marshal_observation env ob of
          Inl msg \<Rightarrow> Some (invalid ''observation'' (''cannot encode: '' @ msg))
        | Inr encoded \<Rightarrow>
            require (length encoded \<le> maxObservationBytes)
              (invalid ''observation'' ''must contain at most 1048576 bytes''))]"

definition ValidateObservationQuery :: "observation_query \<Rightarrow> validation_error option" where
  "ValidateObservationQuery q =
     first_err [
       validate_ids [
         (''query_id'', oq_QueryID q),
         (''host_id'', oq_HostID q),
         (''world_id'', oq_WorldID q),
         (''actor_id'', oq_ActorID q)],
       Epoch_Validate (oq_ExpectedEpoch q) ''expected_epoch'',
       require (oq_WorldID q = ep_WorldID (oq_ExpectedEpoch q))
         (invalid ''world_id'' ''must match expected_epoch.world_id''),
       require (unat (oq_AfterSequence q) \<le> maxInteroperableInteger)
         (invalid ''after_sequence'' ''must be a JSON-safe integer''),
       require (oq_Limit q \<noteq> 0 \<and> unat (oq_Limit q) \<le> 256) (invalid ''limit'' ''must be between 1 and 256''),
       require (length (oq_Kinds q) \<le> 32) (invalid ''kinds'' ''must contain at most 32 values''),
       loop_err (\<lambda>i pre kind. first_err [
           validateHostID (indexed ''kinds'' i) kind True,
           require (pre = [] \<or> last pre < kind) (invalid ''kinds'' ''must be sorted and contain no duplicates'')])
         [] (oq_Kinds q),
       validateText ''continuation_token'' (oq_ContinuationToken q) 512 False]"

subsection \<open>Controller requests, effects and Host bindings\<close>

definition ValidateActionRequest :: "go_env \<Rightarrow> action_request \<Rightarrow> validation_error option" where
  "ValidateActionRequest env r =
     first_err [
       validate_ids [
         (''request_id'', rq_RequestID r),
         (''controller_id'', rq_ControllerID r),
         (''actor_id'', rq_ActorID r),
         (''idempotency_key'', rq_IdempotencyKey r)],
       (if rq_TaskID r \<noteq> [] then validateHostID ''task_id'' (rq_TaskID r) False else None),
       (case rq_PlanStep r of
          None \<Rightarrow> None
        | Some step \<Rightarrow>
            first_err [
              require (rq_TaskID r \<noteq> []) (invalid ''plan_step_ref'' ''requires task_id''),
              PlanStepRef_Validate step ''plan_step_ref'']),
       CapabilityRef_Validate (rq_Capability r) ''capability'',
       require (digest_pattern (rq_SpecDigest r)) (invalid ''spec_digest'' ''must be a lowercase SHA-256 digest''),
       Epoch_Validate (rq_ExpectedEpoch r) ''expected_epoch'',
       err_of (canonicalizeJSONObject env ''arguments'' (rq_Arguments r) maxInstanceBytes),
       validateRefs ''target_refs'' (rq_Targets r) (rq_ExpectedEpoch r),
       require (positive_json_safe (rq_ObservationSeq r))
         (invalid ''observation_sequence'' ''must be a positive JSON-safe integer'')]"

text \<open>
  The digest covers every field of the request with canonical arguments. A failure of \<open>json.Marshal\<close> is not a
  \<open>ValidationError\<close> in the source; it is kept apart by the empty field.
\<close>

definition ActionRequestDigest :: "go_env \<Rightarrow> action_request \<Rightarrow> validation_error + string" where
  "ActionRequestDigest env r =
     guard_err (ValidateActionRequest env r)
       (ebind (canonicalizeJSONObject env ''arguments'' (rq_Arguments r) maxInstanceBytes) (\<lambda>arguments.
          case marshal_request env (r\<lparr>rq_Arguments := arguments\<rparr>) of
            Inl msg \<Rightarrow> Inl (ValidationError '''' (''encode action request digest: '' @ msg))
          | Inr encoded \<Rightarrow> Inr (sha256Hex env encoded)))"

definition ValidateEffect :: "go_env \<Rightarrow> effect \<Rightarrow> epoch \<Rightarrow> validation_error option" where
  "ValidateEffect env e ep =
     first_err [
       validateHostID ''effect_id'' (ef_EffectID e) False,
       validateHostID ''kind'' (ef_Kind e) True,
       require (validEffectOperation (ef_Operation e)) (invalid ''operation'' ''is not supported''),
       validate_optional_ref ''subject_ref'' (ef_Subject e) ep,
       validate_optional_ref ''target_ref'' (ef_Target e) ep,
       validateSortedTags ''tags'' (ef_Tags e),
       require (validOwnershipClass (ef_Ownership e)) (invalid ''ownership'' ''is not supported''),
       validateHostID ''scope'' (ef_Scope e) True,
       require (unat (ef_Quantity e) \<le> maxInteroperableInteger)
         (invalid ''quantity'' ''must be a JSON-safe integer''),
       (if ef_Unit e \<noteq> [] then validateHostID ''unit'' (ef_Unit e) False else None),
       require (validRiskLevel (ef_Risk e)) (invalid ''risk'' ''is not supported''),
       err_of (canonicalizeScalarObject env ''attributes'' (ef_Attributes e))]"

definition EffectPreviewDigest :: "go_env \<Rightarrow> effect list \<Rightarrow> validation_error + string" where
  "EffectPreviewDigest env effects =
     guard_err (require (effects \<noteq> [] \<and> length effects \<le> 64)
                  (invalid ''effect_preview'' ''must contain between 1 and 64 values''))
       (case marshal_effects env effects of
          Inl msg \<Rightarrow> Inl (ValidationError '''' (''encode effect preview digest: '' @ msg))
        | Inr encoded \<Rightarrow>
            guard_err (map_option (invalid ''effect_preview'') (jsonwire_Validate env encoded))
              (Inr (sha256Hex env encoded)))"

definition asRequest :: "bound_action \<Rightarrow> action_request" where
  "asRequest a = \<lparr>
     rq_RequestID = ba_RequestID a,
     rq_ControllerID = ba_ControllerID a,
     rq_ActorID = ba_ActorID a,
     rq_Capability = ba_Capability a,
     rq_SpecDigest = ba_SpecDigest a,
     rq_Arguments = ba_NormalizedArguments a,
     rq_Targets = ba_RequestedTargets a,
     rq_ExpectedEpoch = ba_ExpectedEpoch a,
     rq_ObservationSeq = ba_ObservationSeq a,
     rq_TaskID = ba_TaskID a,
     rq_PlanStep = ba_PlanStep a,
     rq_IdempotencyKey = ba_IdempotencyKey a\<rparr>"

definition validate_effect_preview :: "go_env \<Rightarrow> bound_action \<Rightarrow> validation_error option" where
  "validate_effect_preview env a =
     loop_err (\<lambda>i pre e. first_err [
         map_option (prefixValidation (indexed ''effect_preview'' i))
           (ValidateEffect env e (ba_ExpectedEpoch a)),
         require (pre = [] \<or> ef_EffectID (last pre) = [] \<or> ef_EffectID (last pre) < ef_EffectID e)
           (invalid ''effect_preview'' ''must be sorted by unique effect_id''),
         (case canonicalizeScalarObject env ''attributes'' (ef_Attributes e) of
            Inl err \<Rightarrow> Some (prefixValidation (indexed ''effect_preview'' i) err)
          | Inr canonical \<Rightarrow>
              require (canonical = ef_Attributes e)
                (invalid (indexed ''effect_preview'' i @ ''.attributes'') ''must be canonical JSON''))])
       [] (ba_Effects a)"

definition ValidateBoundAction :: "go_env \<Rightarrow> bound_action \<Rightarrow> validation_error option" where
  "ValidateBoundAction env a =
     first_err [
       validate_ids [
         (''binding_id'', ba_BindingID a),
         (''request_id'', ba_RequestID a),
         (''controller_id'', ba_ControllerID a),
         (''actor_id'', ba_ActorID a),
         (''idempotency_key'', ba_IdempotencyKey a)],
       (if ba_TaskID a \<noteq> [] then validateHostID ''task_id'' (ba_TaskID a) False else None),
       (case ba_PlanStep a of
          None \<Rightarrow> None
        | Some step \<Rightarrow>
            first_err [
              require (ba_TaskID a \<noteq> []) (invalid ''plan_step_ref'' ''requires task_id''),
              PlanStepRef_Validate step ''plan_step_ref'']),
       require (digest_pattern (ba_RequestDigest a)) (invalid ''request_digest'' ''must be a lowercase SHA-256 digest''),
       require (digest_pattern (ba_SpecDigest a)) (invalid ''spec_digest'' ''must be a lowercase SHA-256 digest''),
       require (digest_pattern (ba_EffectDigest a)) (invalid ''effect_digest'' ''must be a lowercase SHA-256 digest''),
       CapabilityRef_Validate (ba_Capability a) ''capability'',
       Epoch_Validate (ba_ExpectedEpoch a) ''expected_epoch'',
       (case canonicalizeJSONObject env ''normalized_arguments'' (ba_NormalizedArguments a) maxInstanceBytes of
          Inl e \<Rightarrow> Some e
        | Inr canonical \<Rightarrow>
            require (canonical = ba_NormalizedArguments a)
              (invalid ''normalized_arguments'' ''must be canonical JSON'')),
       validateRefs ''requested_targets'' (ba_RequestedTargets a) (ba_ExpectedEpoch a),
       validateRefs ''resolved_targets'' (ba_ResolvedTargets a) (ba_ExpectedEpoch a),
       require (positive_json_safe (ba_ObservationSeq a))
         (invalid ''observation_sequence'' ''must be a positive JSON-safe integer''),
       Timepoint_Validate (ba_BoundAt a) ''bound_at'',
       Timepoint_Validate (ba_ValidUntil a) ''valid_until'',
       require (tp_Clock (ba_BoundAt a) = tp_Clock (ba_ValidUntil a)
                \<and> tp_Value (ba_BoundAt a) < tp_Value (ba_ValidUntil a))
         (invalid ''valid_until'' ''must use the binding clock and be after bound_at''),
       require (ba_Effects a \<noteq> [] \<and> length (ba_Effects a) \<le> 64)
         (invalid ''effect_preview'' ''must contain between 1 and 64 values''),
       validate_effect_preview env a,
       (case ActionRequestDigest env (asRequest a) of
          Inl e \<Rightarrow> Some (if ve_Field e = [] then e else prefixValidation ''request'' e)
        | Inr digest \<Rightarrow>
            require (digest = ba_RequestDigest a) (invalid ''request_digest'' ''does not match bound request fields'')),
       (case EffectPreviewDigest env (ba_Effects a) of
          Inl e \<Rightarrow> Some e
        | Inr digest \<Rightarrow>
            require (digest = ba_EffectDigest a) (invalid ''effect_digest'' ''does not match effect_preview''))]"

subsection \<open>What an identifier is\<close>

abbreviation alnum_char :: "char \<Rightarrow> bool" where
  "alnum_char c \<equiv> lower_char c \<or> digit_char c"

definition id_segments :: "(char \<times> string) list \<Rightarrow> string" where
  "id_segments segs = concat (map (\<lambda>(p, v). p # v) segs)"

definition id_segment_ok :: "char \<times> string \<Rightarrow> bool" where
  "id_segment_ok seg \<longleftrightarrow> separator_char (fst seg) \<and> snd seg \<noteq> [] \<and> list_all alnum_char (snd seg)"

lemma id_tail_segments_sound:
  assumes "list_all alnum_char w" and "list_all id_segment_ok segs" and "w \<noteq> [] \<or> alnum"
  shows "id_tail alnum (w @ id_segments segs)"
  using assms
proof (induction segs arbitrary: w alnum)
  case Nil
  then show ?case by (auto simp: id_segments_def intro: id_tail_alnum)
next
  case (Cons seg segs)
  obtain p v where seg: "seg = (p, v)" by (cases seg)
  have "id_tail False (v @ id_segments segs)"
    using Cons.prems seg by (intro Cons.IH) (auto simp: id_segment_ok_def)
  then have "id_tail True (p # v @ id_segments segs)"
    using Cons.prems seg by (simp add: id_segment_ok_def)
  then have "id_tail True (id_segments (seg # segs))" by (simp add: id_segments_def seg)
  moreover have "id_tail alnum w" using Cons.prems by (auto intro: id_tail_alnum)
  ultimately show ?case by (rule id_tail_append [rotated])
qed

lemma id_tail_segments_complete:
  "id_tail alnum s \<Longrightarrow> \<exists>w segs. s = w @ id_segments segs \<and> list_all alnum_char w
     \<and> list_all id_segment_ok segs \<and> (w \<noteq> [] \<or> alnum)"
proof (induction alnum s rule: id_tail.induct)
  case (1 alnum)
  then show ?case by (intro exI [of _ "[]"]) (simp add: id_segments_def)
next
  case (2 alnum c cs)
  show ?case
  proof (cases "alnum_char c")
    case True
    then obtain w segs where "cs = w @ id_segments segs" "list_all alnum_char w" "list_all id_segment_ok segs"
      using 2 by auto
    with True show ?thesis by (intro exI [of _ "c # w"] exI [of _ segs]) auto
  next
    case False
    then have c: "separator_char c" "alnum" "id_tail False cs" using "2.prems" by (auto split: if_splits)
    then obtain w segs where "cs = w @ id_segments segs" "list_all alnum_char w" "list_all id_segment_ok segs"
      "w \<noteq> []"
      using 2 False by auto
    with c show ?thesis
      by (intro exI [of _ "[] :: string"] exI [of _ "(c, w) # segs"]) (simp_all add: id_segments_def id_segment_ok_def [of "(c, w)"])
  qed
qed

lemma id_pattern_iff:
  "id_pattern s \<longleftrightarrow> (\<exists>c w segs. s = c # w @ id_segments segs \<and> lower_char c \<and> list_all alnum_char w
     \<and> list_all id_segment_ok segs)"
proof (cases s)
  case Nil
  then show ?thesis by (simp add: id_pattern_def)
next
  case (Cons c cs)
  then show ?thesis
    using id_tail_segments_complete [of True cs] id_tail_segments_sound [where alnum = True]
    by (auto simp: id_pattern_def)
qed

text \<open>
  C31: an identifier is accepted exactly when it is at most 96 bytes long, is in the language of the regular
  expression \<^verbatim>\<open>[a-z][a-z0-9]*(?:[._-][a-z0-9]+)*\<close> (a lower-case letter, alphanumerics, then segments of one separator
  and a non-empty alphanumeric word), and contains a dot where a namespaced identifier is required.
\<close>

theorem validateHostID_accepts_iff:
  "validateHostID field value namespaced = None \<longleftrightarrow>
     (\<exists>c w segs. value = c # w @ id_segments segs \<and> lower_char c \<and> list_all alnum_char w
        \<and> list_all id_segment_ok segs)
     \<and> length value \<le> 96 \<and> (namespaced \<longrightarrow> CHR ''.'' \<in> set value)"
  unfolding validateHostID_def id_pattern_iff [symmetric] maxHostIdentifierBytes_def
  using id_pattern_nonempty [of "value"] by auto

theorem validateHostID_accepts_iff_witness:
  "validateHostID ''scope'' ''actor.read'' True = None \<and> CHR ''.'' \<in> set ''actor.read''"
proof -
  have "validateHostID ''scope'' ''actor.read'' True = None" by code_simp
  then show ?thesis using validateHostID_accepts_iff [of "''scope''" "''actor.read''" True] by blast
qed

lemma validateHostID_None [validator_simps]:
  "validateHostID field value namespaced = None \<longleftrightarrow>
     id_pattern value \<and> length value \<le> 96 \<and> (namespaced \<longrightarrow> CHR ''.'' \<in> set value)"
  unfolding validateHostID_def maxHostIdentifierBytes_def
  using id_pattern_nonempty [of "value"] by auto

subsection \<open>The life of an action run\<close>

fun run_rank :: "action_run_status \<Rightarrow> nat" where
  "run_rank ActionQueued = 0"
| "run_rank ActionRunning = 1"
| "run_rank ActionOutcomeUnknown = 2"
| "run_rank _ = 3"

fun run_chain :: "action_run_status list \<Rightarrow> bool" where
  "run_chain (s # t # rest) \<longleftrightarrow> CanTransitionActionRun s t \<and> run_chain (t # rest)"
| "run_chain _ \<longleftrightarrow> True"

lemma transition_rank: "CanTransitionActionRun s t \<Longrightarrow> run_rank s < run_rank t"
  by (cases s) auto

lemma run_chain_rank: "run_chain (s # ss) \<Longrightarrow> length ss + run_rank s \<le> run_rank (last (s # ss))"
proof (induction ss arbitrary: s)
  case Nil
  then show ?case by simp
next
  case (Cons t ss)
  then show ?case using transition_rank [of s t] by force
qed

lemma run_rank_le: "run_rank s \<le> 3"
  by (cases s) auto

lemma run_chain_distinct: "run_chain ss \<Longrightarrow> distinct ss \<and> sorted_wrt (\<lambda>s t. run_rank s < run_rank t) ss"
proof -
  have "run_chain ss \<Longrightarrow> sorted_wrt (\<lambda>s t. run_rank s < run_rank t) ss"
  proof (induction ss rule: run_chain.induct)
    case (1 s t rest)
    then show ?case using transition_rank [of s t] by fastforce
  qed auto
  moreover have "sorted_wrt (\<lambda>s t. run_rank s < run_rank t) ss \<Longrightarrow> distinct ss"
    by (induction ss) auto
  ultimately show "run_chain ss \<Longrightarrow> distinct ss \<and> sorted_wrt (\<lambda>s t. run_rank s < run_rank t) ss" by blast
qed

lemma run_chain_success:
  "run_chain (s # ss) \<Longrightarrow> ActionSucceeded \<in> set ss \<Longrightarrow>
     ActionRunning \<in> set (s # ss) \<or> ActionOutcomeUnknown \<in> set (s # ss)"
proof (induction ss arbitrary: s)
  case Nil
  then show ?case by simp
next
  case (Cons t ss)
  then show ?case by (cases s) auto
qed

lemma run_chain_final:
  "run_chain (s # ss) \<Longrightarrow>
     s \<in> {ActionSucceeded, ActionFailed, ActionCancelled, ActionInterrupted, ActionStale} \<Longrightarrow> ss = []"
  by (cases ss) auto

text \<open>
  C32: a sequence of statuses in which each follows the one before by \<open>CanTransitionActionRun\<close> has at most three
  transitions and never repeats a status; success is only reported after the action ran or its outcome was
  unknown; and nothing follows a definite terminal status.
\<close>

theorem action_run_lifecycle:
  assumes "run_chain (s # ss)"
  shows "length ss \<le> 3 \<and> distinct (s # ss)
    \<and> (ActionSucceeded \<in> set ss \<longrightarrow> ActionRunning \<in> set (s # ss) \<or> ActionOutcomeUnknown \<in> set (s # ss))
    \<and> (s \<in> {ActionSucceeded, ActionFailed, ActionCancelled, ActionInterrupted, ActionStale} \<longrightarrow> ss = [])"
proof -
  have "length ss \<le> 3" using run_chain_rank [OF assms] run_rank_le [of "last (s # ss)"] by linarith
  moreover have "distinct (s # ss)" using run_chain_distinct [OF assms] by blast
  ultimately show ?thesis using run_chain_success [OF assms] run_chain_final [OF assms] by blast
qed

theorem action_run_lifecycle_witness:
  "run_chain [ActionQueued, ActionRunning, ActionOutcomeUnknown, ActionSucceeded]
   \<and> distinct [ActionQueued, ActionRunning, ActionOutcomeUnknown, ActionSucceeded]"
  using action_run_lifecycle [of ActionQueued "[ActionRunning, ActionOutcomeUnknown, ActionSucceeded]"] by simp

subsection \<open>What a valid binding guarantees\<close>

lemma validate_ids_None [validator_simps]:
  "validate_ids fs = None \<longleftrightarrow> (\<forall>(f, v) \<in> set fs. id_pattern v \<and> length v \<le> 96)"
  by (induction fs rule: validate_ids.induct) (auto simp: validateHostID_None)

lemma Epoch_Validate_None [validator_simps]:
  "Epoch_Validate e field = None \<longleftrightarrow>
     id_pattern (ep_SessionID e) \<and> length (ep_SessionID e) \<le> 96
     \<and> id_pattern (ep_WorldID e) \<and> length (ep_WorldID e) \<le> 96
     \<and> positive_json_safe (ep_Host e) \<and> positive_json_safe (ep_World e) \<and> positive_json_safe (ep_Timeline e)"
  by (auto simp: Epoch_Validate_def validateHostID_None)

lemma Timepoint_Validate_None [validator_simps]:
  "Timepoint_Validate t field = None \<longleftrightarrow>
     validClockMode (tp_Clock t) \<and> 0 \<le> tp_Value t \<and> tp_Value t \<le> 9007199254740991"
  by (auto simp: Timepoint_Validate_def maxInteroperableInteger_def)

lemma ValidatePrincipal_None:
  "ValidatePrincipal p = None \<Longrightarrow> id_pattern (pr_ID p) \<and> length (pr_ID p) \<le> 96"
  by (auto simp: ValidatePrincipal_def validateHostID_None)

lemma effect_preview_effects:
  assumes "validate_effect_preview env a = None" and "e \<in> set (ba_Effects a)"
  shows "ValidateEffect env e (ba_ExpectedEpoch a) = None"
  using loop_err_all [OF assms(1) [unfolded validate_effect_preview_def] assms(2)] by (auto split: option.splits)

lemma ValidateEffect_quantity: "ValidateEffect env e ep = None \<Longrightarrow> unat (ef_Quantity e) \<le> 9007199254740991"
  by (simp add: ValidateEffect_def maxInteroperableInteger_def)

text \<open>The facts of a valid binding that the components above the Host contract rely on.\<close>

lemma ValidateBoundAction_facts:
  assumes "ValidateBoundAction env a = None"
  shows "id_pattern (ba_BindingID a)" "id_pattern (ba_ControllerID a)" "id_pattern (ba_ActorID a)"
    "length (ba_ControllerID a) \<le> 96" "length (ba_ActorID a) \<le> 96"
    "ba_TaskID a \<noteq> [] \<Longrightarrow> id_pattern (ba_TaskID a)"
    "digest_pattern (ba_RequestDigest a)" "digest_pattern (ba_EffectDigest a)"
    "Epoch_Validate (ba_ExpectedEpoch a) field = None"
    "Timepoint_Validate (ba_ValidUntil a) field = None"
    "tp_Value (ba_BoundAt a) < tp_Value (ba_ValidUntil a)"
    "ba_Effects a \<noteq> []" "length (ba_Effects a) \<le> 64"
    "validate_effect_preview env a = None"
    "EffectPreviewDigest env (ba_Effects a) = Inr (ba_EffectDigest a)"
    "ActionRequestDigest env (asRequest a) = Inr (ba_RequestDigest a)"
  using assms unfolding ValidateBoundAction_def
  by (auto simp: validator_simps split: sum.splits if_splits)

lemma sum_list_bound: "\<forall>x \<in> set xs. f x \<le> (b :: nat) \<Longrightarrow> sum_list (map f xs) \<le> length xs * b"
  by (induction xs) auto

lemma bound_action_quantity_total:
  assumes "ValidateBoundAction env a = None"
  shows "(\<Sum>e \<leftarrow> ba_Effects a. unat (ef_Quantity e)) < 2 ^ 64"
proof -
  have "\<forall>e \<in> set (ba_Effects a). unat (ef_Quantity e) \<le> 9007199254740991"
    using effect_preview_effects ValidateBoundAction_facts(14) [OF assms] ValidateEffect_quantity by blast
  then have "(\<Sum>e \<leftarrow> ba_Effects a. unat (ef_Quantity e)) \<le> length (ba_Effects a) * 9007199254740991"
    by (rule sum_list_bound)
  also have "\<dots> \<le> 64 * 9007199254740991"
    using ValidateBoundAction_facts(13) [OF assms] by (intro mult_right_mono) auto
  finally show ?thesis by simp
qed

end
