(* ===== verification/Policy_Config.thy ===== *)
theory Policy_Config
  imports Host_Validate "HOL-Library.Product_Lexorder"
begin

section \<open>Gameplay policy: configuration and matching (package \<open>policy\<close>, types.go, validate.go, defaults.go)\<close>

text \<open>
  A policy revision is a list of rules and budgets over Host-authored effects. \<open>SealConfig\<close> validates and
  normalises it; the safety kernel, the rules and the profile give a verdict for one effect. The verdicts are
  combined by the engine (theory \<open>Policy_Engine\<close>).
\<close>

datatype policy_error = PolicyError string | PolicyHostError string validation_error

abbreviation host_error :: "validation_error \<Rightarrow> policy_error" where
  "host_error e \<equiv> PolicyHostError '''' e"

datatype policy_result = Allow | Deny | RequireConfirmation | ResultOther string
datatype profile = ProfileGuarded | ProfileSurvival | ProfileOpen | ProfilePrivilegedCustom | ProfileOther string
datatype layer = LayerServer | LayerWorld | LayerOwner | LayerActor | LayerTask | LayerOther string

text \<open>The empty \<open>RiskLevel\<close> of a rule bound that is not set.\<close>

definition no_risk :: risk_level where
  "no_risk = RiskOther ''''"

record rule =
  rl_RuleID :: string
  rl_Layer :: layer
  rl_Priority :: int
  rl_Result :: policy_result
  rl_EffectKinds :: "string list"
  rl_Operations :: "effect_operation list"
  rl_Ownership :: "ownership_class list"
  rl_Scopes :: "string list"
  rl_TagsAll :: "string list"
  rl_TagsAny :: "string list"
  rl_RiskAtLeast :: risk_level
  rl_RiskAtMost :: risk_level
  rl_Reversible :: "bool option"
  rl_ReasonCode :: string
  rl_HumanSummary :: string

record budget =
  bg_BudgetID :: string
  bg_Layer :: layer
  bg_EffectKinds :: "string list"
  bg_Operations :: "effect_operation list"
  bg_TagsAny :: "string list"
  bg_MaxActions :: u32
  bg_MaxQuantity :: u64
  bg_Window :: duration

record confirmation_durations =
  cd_Event :: u64
  cd_Step :: u64
  cd_Realtime :: u64

record policy_config =
  pc_Revision :: u64
  pc_Profile :: profile
  pc_KnownEffectKinds :: "string list"
  pc_KnownScopes :: "string list"
  pc_Rules :: "rule list"
  pc_Budgets :: "budget list"
  pc_ConfirmationTTL :: confirmation_durations
  pc_ConfirmationScopes :: "string list"

record policy_context =
  cx_Now :: timepoint
  cx_CurrentEpoch :: epoch
  cx_Principal :: principal
  cx_ServerID :: string
  cx_OwnerID :: string
  cx_EmergencyStopped :: bool
  cx_ConfirmationID :: string

record confirmation_challenge =
  ch_ChallengeID :: string
  ch_ControllerID :: string
  ch_ActorID :: string
  ch_PrincipalID :: string
  ch_EffectDigest :: string
  ch_Epoch :: epoch
  ch_ExpiresAt :: timepoint
  ch_PolicyRevision :: u64
  ch_SingleUse :: bool

record effective_limit =
  el_BudgetID :: string
  el_UsageKey :: string
  el_MaxActions :: u64
  el_ActionsUsed :: u64
  el_ActionsRemaining :: u64
  el_MaxQuantity :: u64
  el_QuantityUsed :: u64
  el_QuantityRemaining :: u64

record decision =
  de_DecisionID :: string
  de_Result :: policy_result
  de_ControllerID :: string
  de_ActorID :: string
  de_PrincipalID :: string
  de_EffectDigest :: string
  de_PolicyRevision :: u64
  de_MatchedRuleIDs :: "string list"
  de_ReasonCode :: string
  de_HumanSummary :: string
  de_EffectiveLimits :: "effective_limit list"
  de_Confirmation :: "confirmation_challenge option"
  de_EvaluatedAt :: timepoint

definition maxJSONSafeInteger :: nat where
  "maxJSONSafeInteger = 9007199254740991"

subsection \<open>Ranks and enumerations\<close>

definition validProfile :: "profile \<Rightarrow> bool" where
  "validProfile v \<longleftrightarrow> v = ProfileGuarded \<or> v = ProfileSurvival \<or> v = ProfileOpen \<or> v = ProfilePrivilegedCustom"

fun profile_string :: "profile \<Rightarrow> string" where
  "profile_string ProfileGuarded = ''guarded''"
| "profile_string ProfileSurvival = ''survival''"
| "profile_string ProfileOpen = ''open''"
| "profile_string ProfilePrivilegedCustom = ''privileged-custom''"
| "profile_string (ProfileOther s) = s"

text \<open>\<open>%q\<close> of a string without characters to escape.\<close>

definition quoted :: "string \<Rightarrow> string" where
  "quoted s = CHR 0x22 # s @ [CHR 0x22]"

definition validLayer :: "layer \<Rightarrow> bool" where
  "validLayer v \<longleftrightarrow> v = LayerServer \<or> v = LayerWorld \<or> v = LayerOwner \<or> v = LayerActor \<or> v = LayerTask"

fun layerRank :: "layer \<Rightarrow> int" where
  "layerRank LayerServer = 0"
| "layerRank LayerWorld = 1"
| "layerRank LayerOwner = 2"
| "layerRank LayerActor = 3"
| "layerRank LayerTask = 4"
| "layerRank (LayerOther _) = 5"

definition validResult :: "policy_result \<Rightarrow> bool" where
  "validResult v \<longleftrightarrow> v = Allow \<or> v = Deny \<or> v = RequireConfirmation"

fun resultRank :: "policy_result \<Rightarrow> int" where
  "resultRank Allow = 0"
| "resultRank RequireConfirmation = 1"
| "resultRank Deny = 2"
| "resultRank (ResultOther _) = 3"

subsection \<open>Validation and normalisation\<close>

definition validateID :: "string \<Rightarrow> string \<Rightarrow> bool \<Rightarrow> policy_error option" where
  "validateID field value namespaced =
     (if length value = 0 \<or> length value > 96 \<or> \<not> id_pattern value
      then Some (PolicyError (field @ '' must be a lowercase safe identifier of at most 96 bytes''))
      else if namespaced \<and> CHR ''.'' \<notin> set value
      then Some (PolicyError (field @ '' must be namespaced''))
      else None)"

definition policy_validateText :: "string \<Rightarrow> string \<Rightarrow> nat \<Rightarrow> bool \<Rightarrow> policy_error option" where
  "policy_validateText field value maximum required =
     first_err [
       require (\<not> (required \<and> blank value)) (PolicyError (field @ '' is required'')),
       require (valid_utf8 value \<and> NUL \<notin> set value) (PolicyError (field @ '' must be valid UTF-8 without NUL'')),
       require (rune_count value \<le> maximum)
         (PolicyError (field @ '' must contain at most '' @ format_nat maximum @ '' characters''))]"

text \<open>
  The three normalisers sort their list in place, then check every value and that neighbours differ. The
  comparison of operations and ownership classes is that of their strings.
\<close>

definition normalize_checked ::
  "('a \<Rightarrow> 'k::linorder) \<Rightarrow> (nat \<Rightarrow> 'a \<Rightarrow> policy_error option) \<Rightarrow> string \<Rightarrow> 'a list \<Rightarrow> policy_error + 'a list" where
  "normalize_checked key check field values =
     (let sorted_values = sort_key key values in
      guard_err
        (loop_err (\<lambda>i pre v. first_err [
            check i v,
            require (pre = [] \<or> last pre \<noteq> v) (PolicyError (field @ '' must not contain duplicates''))])
          [] sorted_values)
        (Inr sorted_values))"

definition normalizeStrings :: "string \<Rightarrow> string list \<Rightarrow> bool \<Rightarrow> policy_error + string list" where
  "normalizeStrings field values namespaced =
     normalize_checked (\<lambda>v. v) (\<lambda>i v. validateID (indexed field i) v namespaced) field values"

definition normalizeOperations :: "string \<Rightarrow> effect_operation list \<Rightarrow> policy_error + effect_operation list" where
  "normalizeOperations field values =
     normalize_checked effect_operation_string
       (\<lambda>i v. require (validEffectOperation v) (PolicyError (indexed field i @ '' is not supported''))) field values"

definition normalizeOwnership :: "string \<Rightarrow> ownership_class list \<Rightarrow> policy_error + ownership_class list" where
  "normalizeOwnership field values =
     normalize_checked ownership_string
       (\<lambda>i v. require (validOwnershipClass v) (PolicyError (indexed field i @ '' is not supported''))) field values"

definition normalizeRule :: "rule \<Rightarrow> nat \<Rightarrow> policy_error + rule" where
  "normalizeRule r index =
     (let field = indexed ''rules'' index in
      guard_err (first_err [
          validateID (field @ ''.rule_id'') (rl_RuleID r) True,
          require (validLayer (rl_Layer r)) (PolicyError (field @ ''.layer is not supported'')),
          require (- 10000 \<le> rl_Priority r \<and> rl_Priority r \<le> 10000)
            (PolicyError (field @ ''.priority must be between -10000 and 10000'')),
          require (validResult (rl_Result r)) (PolicyError (field @ ''.result is not supported''))])
      (ebind (normalizeStrings (field @ ''.effect_kinds'') (rl_EffectKinds r) True) (\<lambda>kinds.
       ebind (normalizeOperations (field @ ''.operations'') (rl_Operations r)) (\<lambda>operations.
       ebind (normalizeOwnership (field @ ''.ownership'') (rl_Ownership r)) (\<lambda>ownership.
       ebind (normalizeStrings (field @ ''.scopes'') (rl_Scopes r) True) (\<lambda>scopes.
       ebind (normalizeStrings (field @ ''.tags_all'') (rl_TagsAll r) True) (\<lambda>tags_all.
       ebind (normalizeStrings (field @ ''.tags_any'') (rl_TagsAny r) True) (\<lambda>tags_any.
       guard_err (first_err [
          require (length kinds \<le> 64 \<and> length operations \<le> 8 \<and> length ownership \<le> 7 \<and> length scopes \<le> 64
                   \<and> length tags_all \<le> 32 \<and> length tags_any \<le> 32)
            (PolicyError (field @ '' contains too many match values'')),
          require (rl_RiskAtLeast r = no_risk \<or> validRiskLevel (rl_RiskAtLeast r))
            (PolicyError (field @ ''.risk_at_least is not supported'')),
          require (rl_RiskAtMost r = no_risk \<or> validRiskLevel (rl_RiskAtMost r))
            (PolicyError (field @ ''.risk_at_most is not supported'')),
          require (\<not> (rl_RiskAtLeast r \<noteq> no_risk \<and> rl_RiskAtMost r \<noteq> no_risk
                      \<and> riskRank (rl_RiskAtLeast r) > riskRank (rl_RiskAtMost r)))
            (PolicyError (field @ '' risk range is empty'')),
          validateID (field @ ''.reason_code'') (rl_ReasonCode r) True,
          policy_validateText (field @ ''.human_summary'') (rl_HumanSummary r) 300 True])
       (Inr (r\<lparr>rl_EffectKinds := kinds, rl_Operations := operations, rl_Ownership := ownership,
               rl_Scopes := scopes, rl_TagsAll := tags_all, rl_TagsAny := tags_any\<rparr>))))))))))"

definition normalizeBudget :: "budget \<Rightarrow> nat \<Rightarrow> policy_error + budget" where
  "normalizeBudget b index =
     (let field = indexed ''budgets'' index in
      guard_err (first_err [
          validateID (field @ ''.budget_id'') (bg_BudgetID b) True,
          require (validLayer (bg_Layer b)) (PolicyError (field @ ''.layer is not supported''))])
      (ebind (normalizeStrings (field @ ''.effect_kinds'') (bg_EffectKinds b) True) (\<lambda>kinds.
       ebind (normalizeOperations (field @ ''.operations'') (bg_Operations b)) (\<lambda>operations.
       ebind (normalizeStrings (field @ ''.tags_any'') (bg_TagsAny b) True) (\<lambda>tags_any.
       guard_err (first_err [
          require (length kinds \<le> 64 \<and> length operations \<le> 8 \<and> length tags_any \<le> 32)
            (PolicyError (field @ '' contains too many match values'')),
          require (\<not> (bg_MaxActions b = 0 \<and> bg_MaxQuantity b = 0))
            (PolicyError (field @ '' must set max_actions or max_quantity'')),
          require (unat (bg_MaxQuantity b) \<le> maxJSONSafeInteger)
            (PolicyError (field @ ''.max_quantity must be a JSON-safe integer'')),
          (if dr_Value (bg_Window b) = 0
           then require (dr_Clock (bg_Window b) = ClockOther '''')
                  (PolicyError (field @ ''.window.clock must be empty when no window is configured''))
           else map_option host_error (Duration_Validate (bg_Window b) (field @ ''.window'')))])
       (Inr (b\<lparr>bg_EffectKinds := kinds, bg_Operations := operations, bg_TagsAny := tags_any\<rparr>)))))))"

fun map_err :: "('a \<Rightarrow> nat \<Rightarrow> 'e + 'b) \<Rightarrow> nat \<Rightarrow> 'a list \<Rightarrow> 'e + 'b list" where
  "map_err f i [] = Inr []"
| "map_err f i (x # xs) = ebind (f x i) (\<lambda>y. ebind (map_err f (Suc i) xs) (\<lambda>ys. Inr (y # ys)))"

definition validateConfirmationDurations :: "confirmation_durations \<Rightarrow> policy_error option" where
  "validateConfirmationDurations v =
     first_err [
       require (unat (cd_Event v) \<le> maxJSONSafeInteger)
         (PolicyError ''confirmation_ttl.event must be a positive JSON-safe integer''),
       require (unat (cd_Step v) \<le> maxJSONSafeInteger)
         (PolicyError ''confirmation_ttl.step must be a positive JSON-safe integer''),
       require (unat (cd_Realtime v) \<le> maxJSONSafeInteger)
         (PolicyError ''confirmation_ttl.realtime must be a positive JSON-safe integer''),
       require (\<not> (cd_Event v = 0 \<and> cd_Step v = 0 \<and> cd_Realtime v = 0))
         (PolicyError ''confirmation_ttl must enable at least one Host clock'')]"

definition validateConfig :: "policy_config \<Rightarrow> policy_error option" where
  "validateConfig c =
     first_err [
       require (pc_Revision c \<noteq> 0 \<and> unat (pc_Revision c) \<le> maxJSONSafeInteger)
         (PolicyError ''revision must be a positive JSON-safe integer''),
       require (validProfile (pc_Profile c)) (PolicyError (''unsupported profile '' @ quoted (profile_string (pc_Profile c)))),
       require (length (pc_KnownEffectKinds c) \<le> 512)
         (PolicyError ''known_effect_kinds must contain at most 512 values''),
       require (length (pc_KnownScopes c) \<le> 512) (PolicyError ''known_scopes must contain at most 512 values''),
       require (length (pc_Rules c) \<le> 512) (PolicyError ''rules must contain at most 512 values''),
       require (length (pc_Budgets c) \<le> 128) (PolicyError ''budgets must contain at most 128 values''),
       validateConfirmationDurations (pc_ConfirmationTTL c),
       require (pc_ConfirmationScopes c \<noteq> [] \<and> length (pc_ConfirmationScopes c) \<le> 16)
         (PolicyError ''confirmation_scopes must contain between 1 and 16 values''),
       loop_err (\<lambda>i seen r. require (rl_RuleID r \<notin> rl_RuleID ` set seen)
           (PolicyError (''duplicate rule_id '' @ quoted (rl_RuleID r)))) [] (pc_Rules c),
       loop_err (\<lambda>i seen b. require (bg_BudgetID b \<notin> bg_BudgetID ` set seen)
           (PolicyError (''duplicate budget_id '' @ quoted (bg_BudgetID b)))) [] (pc_Budgets c)]"

text \<open>
  The comparison functions of \<open>SealConfig\<close> are lexicographic orders on these keys. Go's sort is not stable, but
  two values compare equal only when their identifiers are equal, and \<open>validateConfig\<close> then rejects the list.
\<close>

definition rule_order :: "rule \<Rightarrow> int \<times> int \<times> string" where
  "rule_order r = (layerRank (rl_Layer r), - rl_Priority r, rl_RuleID r)"

definition budget_order :: "budget \<Rightarrow> int \<times> string" where
  "budget_order b = (layerRank (bg_Layer b), bg_BudgetID b)"

definition SealConfig :: "policy_config \<Rightarrow> policy_error + policy_config" where
  "SealConfig c =
     ebind (normalizeStrings ''known_effect_kinds'' (pc_KnownEffectKinds c) True) (\<lambda>kinds.
     ebind (normalizeStrings ''known_scopes'' (pc_KnownScopes c) True) (\<lambda>scopes.
     ebind (normalizeStrings ''confirmation_scopes'' (pc_ConfirmationScopes c) True) (\<lambda>confirmers.
     ebind (map_err normalizeRule 0 (pc_Rules c)) (\<lambda>rules.
     ebind (map_err normalizeBudget 0 (pc_Budgets c)) (\<lambda>budgets.
       let sealed = c\<lparr>pc_KnownEffectKinds := kinds, pc_KnownScopes := scopes, pc_ConfirmationScopes := confirmers,
                      pc_Rules := sort_key rule_order rules, pc_Budgets := sort_key budget_order budgets\<rparr>
       in guard_err (validateConfig sealed) (Inr sealed))))))"

definition equalRule :: "rule \<Rightarrow> rule \<Rightarrow> bool" where
  "equalRule l r \<longleftrightarrow>
     rl_RuleID l = rl_RuleID r \<and> rl_Layer l = rl_Layer r \<and> rl_Priority l = rl_Priority r
     \<and> rl_Result l = rl_Result r \<and> rl_EffectKinds l = rl_EffectKinds r \<and> rl_Operations l = rl_Operations r
     \<and> rl_Ownership l = rl_Ownership r \<and> rl_Scopes l = rl_Scopes r \<and> rl_TagsAll l = rl_TagsAll r
     \<and> rl_TagsAny l = rl_TagsAny r \<and> rl_RiskAtLeast l = rl_RiskAtLeast r \<and> rl_RiskAtMost l = rl_RiskAtMost r
     \<and> rl_Reversible l = rl_Reversible r \<and> rl_ReasonCode l = rl_ReasonCode r
     \<and> rl_HumanSummary l = rl_HumanSummary r"

definition equalBudget :: "budget \<Rightarrow> budget \<Rightarrow> bool" where
  "equalBudget l r \<longleftrightarrow>
     bg_BudgetID l = bg_BudgetID r \<and> bg_Layer l = bg_Layer r \<and> bg_EffectKinds l = bg_EffectKinds r
     \<and> bg_Operations l = bg_Operations r \<and> bg_TagsAny l = bg_TagsAny r \<and> bg_MaxActions l = bg_MaxActions r
     \<and> bg_MaxQuantity l = bg_MaxQuantity r \<and> bg_Window l = bg_Window r"

definition Config_Validate :: "policy_config \<Rightarrow> policy_error option" where
  "Config_Validate c =
     (case SealConfig c of
        Inl e \<Rightarrow> Some e
      | Inr sealed \<Rightarrow>
          require (pc_KnownEffectKinds c = pc_KnownEffectKinds sealed \<and> pc_KnownScopes c = pc_KnownScopes sealed
                   \<and> pc_ConfirmationScopes c = pc_ConfirmationScopes sealed
                   \<and> list_all2 equalRule (pc_Rules c) (pc_Rules sealed)
                   \<and> list_all2 equalBudget (pc_Budgets c) (pc_Budgets sealed))
            (PolicyError ''policy config must be normalized with SealConfig''))"

subsection \<open>Decisions and challenges on the wire\<close>

definition validateConfirmationChallenge :: "confirmation_challenge \<Rightarrow> policy_error option" where
  "validateConfirmationChallenge ch =
     first_err [
       validateID ''confirmation.challenge_id'' (ch_ChallengeID ch) False,
       validateID ''confirmation.controller_id'' (ch_ControllerID ch) False,
       validateID ''confirmation.actor_id'' (ch_ActorID ch) False,
       validateID ''confirmation.principal_id'' (ch_PrincipalID ch) False,
       require (digest_pattern (ch_EffectDigest ch))
         (PolicyError ''confirmation.effect_digest must be a lowercase SHA-256 digest''),
       map_option host_error (Epoch_Validate (ch_Epoch ch) ''confirmation.epoch''),
       map_option host_error (Timepoint_Validate (ch_ExpiresAt ch) ''confirmation.expires_at''),
       require (ch_PolicyRevision ch \<noteq> 0 \<and> unat (ch_PolicyRevision ch) \<le> maxJSONSafeInteger)
         (PolicyError ''confirmation.policy_revision is invalid''),
       require (ch_SingleUse ch) (PolicyError ''confirmation challenge must be single-use'')]"

definition validate_limit :: "nat \<Rightarrow> effective_limit list \<Rightarrow> effective_limit \<Rightarrow> policy_error option" where
  "validate_limit index seen l =
     (let field = indexed ''effective_limits'' index in
      first_err [
        validateID (field @ ''.budget_id'') (el_BudgetID l) True,
        validateID (field @ ''.usage_key'') (el_UsageKey l) True,
        require (el_BudgetID l \<notin> el_BudgetID ` set seen)
          (PolicyError ''effective_limits must not contain duplicate budget_id values''),
        require (\<forall>counter \<in> set [el_MaxActions l, el_ActionsUsed l, el_ActionsRemaining l, el_MaxQuantity l,
                   el_QuantityUsed l, el_QuantityRemaining l]. unat counter \<le> maxJSONSafeInteger)
          (PolicyError (field @ '' counters must be JSON-safe integers'')),
        (if el_MaxActions l = 0
         then require (el_ActionsRemaining l = 0)
                (PolicyError (field @ '' unbounded action counter has remaining capacity''))
         else require (el_ActionsUsed l \<le> el_MaxActions l
                       \<and> el_ActionsRemaining l = el_MaxActions l - el_ActionsUsed l)
                (PolicyError (field @ '' action counters are inconsistent''))),
        (if el_MaxQuantity l = 0
         then require (el_QuantityRemaining l = 0)
                (PolicyError (field @ '' unbounded quantity counter has remaining capacity''))
         else require (el_QuantityUsed l \<le> el_MaxQuantity l
                       \<and> el_QuantityRemaining l = el_MaxQuantity l - el_QuantityUsed l)
                (PolicyError (field @ '' quantity counters are inconsistent'')))])"

definition ValidateDecision :: "decision \<Rightarrow> policy_error option" where
  "ValidateDecision d =
     first_err [
       validateID ''decision_id'' (de_DecisionID d) False,
       validateID ''controller_id'' (de_ControllerID d) False,
       validateID ''actor_id'' (de_ActorID d) False,
       validateID ''principal_id'' (de_PrincipalID d) False,
       require (validResult (de_Result d)) (PolicyError ''decision result is not supported''),
       require (digest_pattern (de_EffectDigest d))
         (PolicyError ''effect_digest must be a lowercase SHA-256 digest''),
       require (de_PolicyRevision d \<noteq> 0 \<and> unat (de_PolicyRevision d) \<le> maxJSONSafeInteger)
         (PolicyError ''policy_revision must be a positive JSON-safe integer''),
       require (de_MatchedRuleIDs d \<noteq> [] \<and> length (de_MatchedRuleIDs d) \<le> 1024)
         (PolicyError ''matched_rule_ids must contain between 1 and 1024 values''),
       loop_err (\<lambda>i seen r. first_err [
           validateID (indexed ''matched_rule_ids'' i) r True,
           require (r \<notin> set seen) (PolicyError ''matched_rule_ids must not contain duplicates'')])
         [] (de_MatchedRuleIDs d),
       validateID ''reason_code'' (de_ReasonCode d) True,
       policy_validateText ''human_summary'' (de_HumanSummary d) 500 True,
       map_option host_error (Timepoint_Validate (de_EvaluatedAt d) ''evaluated_at''),
       require (length (de_EffectiveLimits d) \<le> 128)
         (PolicyError ''effective_limits must contain at most 128 values''),
       loop_err validate_limit [] (de_EffectiveLimits d),
       require (de_Result d = Allow \<or> de_EffectiveLimits d = [])
         (PolicyError ''only allow decisions may contain effective_limits''),
       (if de_Result d = RequireConfirmation then
          (case de_Confirmation d of
             None \<Rightarrow> Some (PolicyError ''confirmation decision requires a challenge'')
           | Some ch \<Rightarrow>
               first_err [
                 validateConfirmationChallenge ch,
                 require (ch_ControllerID ch = de_ControllerID d \<and> ch_ActorID ch = de_ActorID d
                          \<and> ch_PrincipalID ch = de_PrincipalID d \<and> ch_EffectDigest ch = de_EffectDigest d
                          \<and> ch_PolicyRevision ch = de_PolicyRevision d)
                   (PolicyError ''confirmation challenge does not match decision'')])
        else require (de_Confirmation d = None)
               (PolicyError ''only require_confirmation decisions may contain a challenge''))]"

subsection \<open>The safety kernel, rules and profiles\<close>

record effect_decision =
  ed_result :: policy_result
  ed_ruleID :: string
  ed_reasonCode :: string
  ed_summary :: string

definition safetyKernelKinds :: "(string \<times> string) list" where
  "safetyKernelKinds = [
     (''system.arbitrary-code'', ''policy.arbitrary_code_denied''),
     (''system.file-access'', ''policy.file_access_denied''),
     (''system.native-call'', ''policy.native_call_denied''),
     (''authority.forge'', ''policy.authority_forgery_denied''),
     (''secret.exposure'', ''policy.secret_exposure_denied'')]"

definition safetyKernelTags :: "(string \<times> string) list" where
  "safetyKernelTags = [
     (''system.arbitrary-code'', ''policy.arbitrary_code_denied''),
     (''system.file-access'', ''policy.file_access_denied''),
     (''system.native-call'', ''policy.native_call_denied''),
     (''authority.forge'', ''policy.authority_forgery_denied''),
     (''secret.exposure'', ''policy.secret_exposure_denied'')]"

definition forbidden_effect :: "string \<Rightarrow> effect_decision" where
  "forbidden_effect reason = \<lparr>ed_result = Deny, ed_ruleID = ''kernel.forbidden-effect'', ed_reasonCode = reason,
     ed_summary = ''The effect is forbidden by the Rin safety kernel.''\<rparr>"

fun first_forbidden_tag :: "string list \<Rightarrow> string option" where
  "first_forbidden_tag [] = None"
| "first_forbidden_tag (tag # tags) =
     (case map_of safetyKernelTags tag of Some reason \<Rightarrow> Some reason | None \<Rightarrow> first_forbidden_tag tags)"

definition kernelDecision :: "policy_config \<Rightarrow> effect \<Rightarrow> effect_decision option" where
  "kernelDecision config e =
     (case map_of safetyKernelKinds (ef_Kind e) of
        Some reason \<Rightarrow> Some (forbidden_effect reason)
      | None \<Rightarrow>
     (case first_forbidden_tag (ef_Tags e) of
        Some reason \<Rightarrow> Some (forbidden_effect reason)
      | None \<Rightarrow>
     (if ef_Ownership e = OwnershipUnknown then
        Some \<lparr>ed_result = Deny, ed_ruleID = ''kernel.unknown-ownership'', ed_reasonCode = ''policy.unknown_ownership'',
          ed_summary = ''The Host could not establish ownership for this effect.''\<rparr>
      else if ef_Kind e \<notin> set (pc_KnownEffectKinds config) then
        Some \<lparr>ed_result = Deny, ed_ruleID = ''kernel.unknown-effect'', ed_reasonCode = ''policy.unknown_effect'',
          ed_summary = ''The effect kind is not registered in the active gameplay policy.''\<rparr>
      else if ef_Scope e \<notin> set (pc_KnownScopes config) then
        Some \<lparr>ed_result = Deny, ed_ruleID = ''kernel.unknown-scope'', ed_reasonCode = ''policy.unknown_scope'',
          ed_summary = ''The effect scope is not registered in the active gameplay policy.''\<rparr>
      else None)))"

definition profile_verdict :: "policy_result \<Rightarrow> string \<Rightarrow> string \<Rightarrow> string \<Rightarrow> effect_decision" where
  "profile_verdict result rule reason summary =
     \<lparr>ed_result = result, ed_ruleID = rule, ed_reasonCode = reason, ed_summary = summary\<rparr>"

fun profileDecision :: "profile \<Rightarrow> effect \<Rightarrow> effect_decision" where
  "profileDecision ProfileGuarded e =
     (if (ef_Operation e = OperationRead \<or> ef_Operation e = OperationCommunicate)
         \<and> riskRank (ef_Risk e) \<le> riskRank RiskModerate then
        profile_verdict Allow ''profile.guarded.safe-interaction'' ''policy.profile_allow''
          ''The guarded profile allows this bounded interaction.''
      else if riskRank (ef_Risk e) \<ge> riskRank RiskHigh then
        profile_verdict Deny ''profile.guarded.high-risk'' ''policy.profile_deny''
          ''The guarded profile denies high-risk effects by default.''
      else if ef_Reversible e \<and> (ef_Ownership e = OwnershipActor \<or> ef_Ownership e = OwnershipController
              \<or> ef_Ownership e = OwnershipUnowned) \<and> ef_Risk e = RiskLow then
        profile_verdict Allow ''profile.guarded.low-risk'' ''policy.profile_allow''
          ''The guarded profile allows this reversible low-risk effect.''
      else profile_verdict RequireConfirmation ''profile.guarded.confirm'' ''policy.profile_confirmation''
          ''The guarded profile requires confirmation for this effect.'')"
| "profileDecision ProfileSurvival e =
     (if ef_Risk e = RiskCritical then
        profile_verdict Deny ''profile.survival.critical-risk'' ''policy.profile_deny''
          ''The survival profile denies critical-risk effects by default.''
      else if ef_Risk e = RiskHigh \<or> ef_Ownership e = OwnershipPlayer \<or> ef_Ownership e = OwnershipShared
              \<or> ef_Ownership e = OwnershipSystem then
        profile_verdict RequireConfirmation ''profile.survival.confirm'' ''policy.profile_confirmation''
          ''The survival profile requires confirmation for protected or high-risk effects.''
      else profile_verdict Allow ''profile.survival.allow'' ''policy.profile_allow''
          ''The survival profile allows this registered gameplay effect.'')"
| "profileDecision (ProfileOther p) e =
     profile_verdict Deny ''kernel.invalid-profile'' ''policy.invalid_profile''
       ''The active gameplay profile is invalid.''"
| "profileDecision open e =
     (if ef_Risk e = RiskCritical then
        profile_verdict RequireConfirmation ''profile.open.critical-confirm'' ''policy.profile_confirmation''
          ''The open profile still requires confirmation for critical-risk effects.''
      else profile_verdict Allow ''profile.open.allow'' ''policy.profile_allow''
          ''The open profile allows this registered effect.'')"

definition ruleMatches :: "rule \<Rightarrow> effect \<Rightarrow> bound_action \<Rightarrow> policy_context \<Rightarrow> bool" where
  "ruleMatches r e a cx =
     (if rl_Layer r = LayerOwner \<and> cx_OwnerID cx = [] then False
      else if rl_Layer r = LayerTask \<and> ba_TaskID a = [] then False
      else if rl_EffectKinds r \<noteq> [] \<and> ef_Kind e \<notin> set (rl_EffectKinds r) then False
      else if rl_Operations r \<noteq> [] \<and> ef_Operation e \<notin> set (rl_Operations r) then False
      else if rl_Ownership r \<noteq> [] \<and> ef_Ownership e \<notin> set (rl_Ownership r) then False
      else if rl_Scopes r \<noteq> [] \<and> ef_Scope e \<notin> set (rl_Scopes r) then False
      else if rl_RiskAtLeast r \<noteq> no_risk \<and> riskRank (ef_Risk e) < riskRank (rl_RiskAtLeast r) then False
      else if rl_RiskAtMost r \<noteq> no_risk \<and> riskRank (ef_Risk e) > riskRank (rl_RiskAtMost r) then False
      else if (case rl_Reversible r of None \<Rightarrow> False | Some v \<Rightarrow> ef_Reversible e \<noteq> v) then False
      else if \<not> list_all (\<lambda>tag. tag \<in> set (ef_Tags e)) (rl_TagsAll r) then False
      else if rl_TagsAny r \<noteq> [] \<and> \<not> list_ex (\<lambda>tag. tag \<in> set (ef_Tags e)) (rl_TagsAny r) then False
      else True)"

definition budgetMatches :: "budget \<Rightarrow> effect \<Rightarrow> bound_action \<Rightarrow> policy_context \<Rightarrow> bool" where
  "budgetMatches b e a cx =
     (if bg_Layer b = LayerOwner \<and> cx_OwnerID cx = [] then False
      else if bg_Layer b = LayerTask \<and> ba_TaskID a = [] then False
      else if bg_EffectKinds b \<noteq> [] \<and> ef_Kind e \<notin> set (bg_EffectKinds b) then False
      else if bg_Operations b \<noteq> [] \<and> ef_Operation e \<notin> set (bg_Operations b) then False
      else if bg_TagsAny b = [] then True
      else list_ex (\<lambda>tag. tag \<in> set (ef_Tags e)) (bg_TagsAny b))"

subsection \<open>Normalisation\<close>

lemma loop_adjacent_iff:
  "loop_err (\<lambda>i pre v. first_err [check i v, require (pre = [] \<or> last pre \<noteq> v) e]) [] xs = None \<longleftrightarrow>
     (\<forall>i < length xs. check i (xs ! i) = None) \<and> distinct_adj xs"
proof -
  have last_take: "last (take i xs) = xs ! (i - 1)" if "0 < i" "i \<le> length xs" for i
    using that by (cases i) (simp_all add: take_Suc_conv_app_nth)
  have "(\<forall>i < length xs. take i xs = [] \<or> last (take i xs) \<noteq> xs ! i) \<longleftrightarrow> distinct_adj xs"
    unfolding distinct_adj_conv_nth
  proof (intro iffI allI impI)
    fix i assume *: "\<forall>i < length xs. take i xs = [] \<or> last (take i xs) \<noteq> xs ! i" and i: "Suc i < length xs"
    have "xs \<noteq> []" using i by auto
    then show "xs ! i \<noteq> xs ! Suc i" using * [rule_format, of "Suc i"] i last_take [of "Suc i"] by auto
  next
    fix i assume *: "\<forall>i. Suc i < length xs \<longrightarrow> xs ! i \<noteq> xs ! Suc i" and i: "i < length xs"
    show "take i xs = [] \<or> last (take i xs) \<noteq> xs ! i"
      using * [rule_format, of "i - 1"] i last_take [of i] by (cases i) auto
  qed
  then show ?thesis by (auto simp: loop_err_None_iff)
qed

lemma normalize_checked_Inr_iff:
  assumes "\<And>i v. check i v = None \<longleftrightarrow> ok v"
  shows "normalize_checked key check field values = Inr ws \<longleftrightarrow>
    ws = sort_key key values \<and> distinct_adj ws \<and> (\<forall>w \<in> set ws. ok w)"
  unfolding normalize_checked_def Let_def guard_err_Inr_iff loop_adjacent_iff assms
  by (metis in_set_conv_nth Inr_inject)

lemma validateID_None [validator_simps]:
  "validateID field v ns = None \<longleftrightarrow> id_pattern v \<and> length v \<le> 96 \<and> (ns \<longrightarrow> CHR ''.'' \<in> set v)"
  using id_pattern_nonempty [of v] by (auto simp: validateID_def)

lemma normalizeStrings_Inr_iff:
  "normalizeStrings field vs ns = Inr ws \<longleftrightarrow>
     ws = sort vs \<and> distinct_adj ws \<and> (\<forall>w \<in> set ws. validateID '''' w ns = None)"
  unfolding normalizeStrings_def
  by (rule normalize_checked_Inr_iff) (simp add: validateID_None)

lemma normalizeOperations_Inr_iff:
  "normalizeOperations field vs = Inr ws \<longleftrightarrow>
     ws = sort_key effect_operation_string vs \<and> distinct_adj ws \<and> (\<forall>w \<in> set ws. validEffectOperation w)"
  unfolding normalizeOperations_def by (rule normalize_checked_Inr_iff) simp

lemma normalizeOwnership_Inr_iff:
  "normalizeOwnership field vs = Inr ws \<longleftrightarrow>
     ws = sort_key ownership_string vs \<and> distinct_adj ws \<and> (\<forall>w \<in> set ws. validOwnershipClass w)"
  unfolding normalizeOwnership_def by (rule normalize_checked_Inr_iff) simp

lemma sort_key_idem: "sort_key f (sort_key f xs) = sort_key f xs"
  by (simp add: sort_key_id_if_sorted)

lemmas normalize_iffs = normalizeStrings_Inr_iff normalizeOperations_Inr_iff normalizeOwnership_Inr_iff

lemma policy_validateText_None [validator_simps]:
  "policy_validateText field v n req = None \<longleftrightarrow>
     \<not> (req \<and> blank v) \<and> valid_utf8 v \<and> NUL \<notin> set v \<and> rune_count v \<le> n"
  by (auto simp: policy_validateText_def)

text \<open>Whether a rule or a budget is accepted, and its normal form, do not depend on its position.\<close>

definition rule_ok :: "rule \<Rightarrow> bool" where
  "rule_ok r \<longleftrightarrow> validateID '''' (rl_RuleID r) True = None \<and> validLayer (rl_Layer r)
     \<and> - 10000 \<le> rl_Priority r \<and> rl_Priority r \<le> 10000 \<and> validResult (rl_Result r)
     \<and> distinct_adj (sort (rl_EffectKinds r)) \<and> (\<forall>w \<in> set (rl_EffectKinds r). validateID '''' w True = None)
     \<and> distinct_adj (sort_key effect_operation_string (rl_Operations r))
     \<and> (\<forall>w \<in> set (rl_Operations r). validEffectOperation w)
     \<and> distinct_adj (sort_key ownership_string (rl_Ownership r))
     \<and> (\<forall>w \<in> set (rl_Ownership r). validOwnershipClass w)
     \<and> distinct_adj (sort (rl_Scopes r)) \<and> (\<forall>w \<in> set (rl_Scopes r). validateID '''' w True = None)
     \<and> distinct_adj (sort (rl_TagsAll r)) \<and> (\<forall>w \<in> set (rl_TagsAll r). validateID '''' w True = None)
     \<and> distinct_adj (sort (rl_TagsAny r)) \<and> (\<forall>w \<in> set (rl_TagsAny r). validateID '''' w True = None)
     \<and> length (rl_EffectKinds r) \<le> 64 \<and> length (rl_Operations r) \<le> 8 \<and> length (rl_Ownership r) \<le> 7
     \<and> length (rl_Scopes r) \<le> 64 \<and> length (rl_TagsAll r) \<le> 32 \<and> length (rl_TagsAny r) \<le> 32
     \<and> (rl_RiskAtLeast r = no_risk \<or> validRiskLevel (rl_RiskAtLeast r))
     \<and> (rl_RiskAtMost r = no_risk \<or> validRiskLevel (rl_RiskAtMost r))
     \<and> \<not> (rl_RiskAtLeast r \<noteq> no_risk \<and> rl_RiskAtMost r \<noteq> no_risk
           \<and> riskRank (rl_RiskAtLeast r) > riskRank (rl_RiskAtMost r))
     \<and> validateID '''' (rl_ReasonCode r) True = None \<and> policy_validateText '''' (rl_HumanSummary r) 300 True = None"

definition rule_sorted :: "rule \<Rightarrow> rule" where
  "rule_sorted r = r\<lparr>rl_EffectKinds := sort (rl_EffectKinds r),
     rl_Operations := sort_key effect_operation_string (rl_Operations r),
     rl_Ownership := sort_key ownership_string (rl_Ownership r), rl_Scopes := sort (rl_Scopes r),
     rl_TagsAll := sort (rl_TagsAll r), rl_TagsAny := sort (rl_TagsAny r)\<rparr>"

lemma normalizeRule_Inr_iff: "normalizeRule r i = Inr r' \<longleftrightarrow> rule_ok r \<and> r' = rule_sorted r"
  unfolding normalizeRule_def Let_def rule_ok_def rule_sorted_def guard_err_Inr_iff ebind_Inr_iff normalize_iffs
    first_err.simps case_err_None require_None validateID_None policy_validateText_None
  by auto

lemma normalizeRule_index: "normalizeRule r i = Inr r' \<Longrightarrow> normalizeRule r j = Inr r'"
  by (simp add: normalizeRule_Inr_iff)

lemma rule_ok_sorted: "rule_ok r \<Longrightarrow> rule_ok (rule_sorted r)"
  unfolding rule_ok_def rule_sorted_def by (simp add: sort_key_idem)

lemma rule_sorted_idem: "rule_sorted (rule_sorted r) = rule_sorted r"
  unfolding rule_sorted_def by (simp add: sort_key_idem)

lemma normalizeRule_idem: "normalizeRule r i = Inr r' \<Longrightarrow> normalizeRule r' j = Inr r'"
  by (simp add: normalizeRule_Inr_iff rule_ok_sorted rule_sorted_idem)

lemma Duration_Validate_None [validator_simps]:
  "Duration_Validate d field = None \<longleftrightarrow> validClockMode (dr_Clock d) \<and> positive_json_safe (dr_Value d)"
  by (simp add: Duration_Validate_def)

lemma window_None:
  "(if c then require p e else map_option f (Duration_Validate d field)) = None \<longleftrightarrow>
     (if c then p else validClockMode (dr_Clock d) \<and> positive_json_safe (dr_Value d))"
  by (simp add: Duration_Validate_None)

definition budget_ok :: "budget \<Rightarrow> bool" where
  "budget_ok b \<longleftrightarrow> validateID '''' (bg_BudgetID b) True = None \<and> validLayer (bg_Layer b)
     \<and> distinct_adj (sort (bg_EffectKinds b)) \<and> (\<forall>w \<in> set (bg_EffectKinds b). validateID '''' w True = None)
     \<and> distinct_adj (sort_key effect_operation_string (bg_Operations b))
     \<and> (\<forall>w \<in> set (bg_Operations b). validEffectOperation w)
     \<and> distinct_adj (sort (bg_TagsAny b)) \<and> (\<forall>w \<in> set (bg_TagsAny b). validateID '''' w True = None)
     \<and> length (bg_EffectKinds b) \<le> 64 \<and> length (bg_Operations b) \<le> 8 \<and> length (bg_TagsAny b) \<le> 32
     \<and> \<not> (bg_MaxActions b = 0 \<and> bg_MaxQuantity b = 0) \<and> unat (bg_MaxQuantity b) \<le> maxJSONSafeInteger
     \<and> (if dr_Value (bg_Window b) = 0 then dr_Clock (bg_Window b) = ClockOther ''''
        else validClockMode (dr_Clock (bg_Window b)) \<and> positive_json_safe (dr_Value (bg_Window b)))"

definition budget_sorted :: "budget \<Rightarrow> budget" where
  "budget_sorted b = b\<lparr>bg_EffectKinds := sort (bg_EffectKinds b),
     bg_Operations := sort_key effect_operation_string (bg_Operations b), bg_TagsAny := sort (bg_TagsAny b)\<rparr>"

lemma normalizeBudget_Inr_iff: "normalizeBudget b i = Inr b' \<longleftrightarrow> budget_ok b \<and> b' = budget_sorted b"
  unfolding normalizeBudget_def Let_def budget_ok_def budget_sorted_def guard_err_Inr_iff ebind_Inr_iff normalize_iffs
    first_err.simps case_err_None require_None window_None validateID_None
  by auto

lemma normalizeBudget_index: "normalizeBudget b i = Inr b' \<Longrightarrow> normalizeBudget b j = Inr b'"
  by (simp add: normalizeBudget_Inr_iff)

lemma budget_ok_sorted: "budget_ok b \<Longrightarrow> budget_ok (budget_sorted b)"
  unfolding budget_ok_def budget_sorted_def by (simp add: sort_key_idem)

lemma budget_sorted_idem: "budget_sorted (budget_sorted b) = budget_sorted b"
  unfolding budget_sorted_def by (simp add: sort_key_idem)

lemma normalizeBudget_idem: "normalizeBudget b i = Inr b' \<Longrightarrow> normalizeBudget b' j = Inr b'"
  by (simp add: normalizeBudget_Inr_iff budget_ok_sorted budget_sorted_idem)

lemma normalizeBudget_ok: "normalizeBudget b i = Inr b' \<Longrightarrow> budget_ok b'"
  by (simp add: normalizeBudget_Inr_iff budget_ok_sorted)

lemma normalizeRule_ok: "normalizeRule r i = Inr r' \<Longrightarrow> rule_ok r'"
  by (simp add: normalizeRule_Inr_iff rule_ok_sorted)

lemma map_err_Inr_iff:
  assumes "\<And>x i y j. f x i = Inr y \<Longrightarrow> f x j = Inr y"
  shows "map_err f i xs = Inr ys \<longleftrightarrow> list_all2 (\<lambda>x y. f x 0 = Inr y) xs ys"
proof (induction xs arbitrary: i ys)
  case Nil
  then show ?case by auto
next
  case (Cons x xs)
  have "f x i = Inr y \<longleftrightarrow> f x 0 = Inr y" for y by (auto intro: assms)
  then show ?case by (simp add: ebind_Inr_iff Cons.IH list_all2_Cons1) blast
qed

lemma map_err_rules:
  "map_err normalizeRule i xs = Inr ys \<longleftrightarrow> list_all2 (\<lambda>x y. normalizeRule x 0 = Inr y) xs ys"
  by (rule map_err_Inr_iff) (rule normalizeRule_index)

lemma map_err_budgets:
  "map_err normalizeBudget i xs = Inr ys \<longleftrightarrow> list_all2 (\<lambda>x y. normalizeBudget x 0 = Inr y) xs ys"
  by (rule map_err_Inr_iff) (rule normalizeBudget_index)

lemma list_all2_fixed: "(\<forall>y \<in> set ys. f y 0 = Inr y) \<Longrightarrow> list_all2 (\<lambda>x y. f x 0 = Inr y) ys ys"
  by (auto simp: list_all2_conv_all_nth)

lemma list_all2_images: "list_all2 R xs ys \<Longrightarrow> y \<in> set ys \<Longrightarrow> \<exists>x \<in> set xs. R x y"
  by (induction rule: list_all2_induct) auto

text \<open>What a sealed configuration is.\<close>

definition sealed_from :: "policy_config \<Rightarrow> policy_config \<Rightarrow> rule list \<Rightarrow> budget list \<Rightarrow> bool" where
  "sealed_from c s rules budgets \<longleftrightarrow>
     normalizeStrings ''known_effect_kinds'' (pc_KnownEffectKinds c) True = Inr (pc_KnownEffectKinds s)
     \<and> normalizeStrings ''known_scopes'' (pc_KnownScopes c) True = Inr (pc_KnownScopes s)
     \<and> normalizeStrings ''confirmation_scopes'' (pc_ConfirmationScopes c) True = Inr (pc_ConfirmationScopes s)
     \<and> list_all2 (\<lambda>x y. normalizeRule x 0 = Inr y) (pc_Rules c) rules
     \<and> list_all2 (\<lambda>x y. normalizeBudget x 0 = Inr y) (pc_Budgets c) budgets
     \<and> pc_Rules s = sort_key rule_order rules \<and> pc_Budgets s = sort_key budget_order budgets
     \<and> pc_Revision s = pc_Revision c \<and> pc_Profile s = pc_Profile c \<and> pc_ConfirmationTTL s = pc_ConfirmationTTL c
     \<and> validateConfig s = None"

lemma SealConfig_Inr_iff: "SealConfig c = Inr s \<longleftrightarrow> (\<exists>rules budgets. sealed_from c s rules budgets)"
  unfolding SealConfig_def sealed_from_def Let_def ebind_Inr_iff guard_err_Inr_iff map_err_rules map_err_budgets
  by (cases c; cases s) (auto; blast)

lemma validateConfig_distinct:
  assumes "validateConfig s = None"
  shows "distinct (map rl_RuleID (pc_Rules s))" "distinct (map bg_BudgetID (pc_Budgets s))"
  using assms unfolding validateConfig_def
  by (auto intro: loop_err_distinct [where key = rl_RuleID] loop_err_distinct [where key = bg_BudgetID])

lemma SealConfig_facts:
  assumes "SealConfig c = Inr s"
  shows "distinct (map rl_RuleID (pc_Rules s))" "distinct (map bg_BudgetID (pc_Budgets s))"
    "\<forall>r \<in> set (pc_Rules s). normalizeRule r 0 = Inr r" "\<forall>b \<in> set (pc_Budgets s). normalizeBudget b 0 = Inr b"
    "validateConfig s = None"
    "sorted (map rule_order (pc_Rules s))" "sorted (map budget_order (pc_Budgets s))"
proof -
  obtain rules budgets where s: "sealed_from c s rules budgets" using assms SealConfig_Inr_iff by blast
  then show v: "validateConfig s = None" by (simp add: sealed_from_def)
  from validateConfig_distinct [OF v]
  show "distinct (map rl_RuleID (pc_Rules s))" "distinct (map bg_BudgetID (pc_Budgets s))" by auto
  show "\<forall>r \<in> set (pc_Rules s). normalizeRule r 0 = Inr r" "\<forall>b \<in> set (pc_Budgets s). normalizeBudget b 0 = Inr b"
    using s by (auto simp: sealed_from_def dest!: list_all2_images intro: normalizeRule_idem normalizeBudget_idem)
  show "sorted (map rule_order (pc_Rules s))" "sorted (map budget_order (pc_Budgets s))"
    using s by (auto simp: sealed_from_def)
qed

lemma normalizeStrings_idem: "normalizeStrings f vs ns = Inr ws \<Longrightarrow> normalizeStrings g ws ns = Inr ws"
  by (auto simp: normalizeStrings_Inr_iff sort_key_idem)

lemma SealConfig_sealed:
  assumes "SealConfig c = Inr s"
  shows "SealConfig s = Inr s"
proof -
  obtain rules budgets where s: "sealed_from c s rules budgets" using assms SealConfig_Inr_iff by blast
  note facts = SealConfig_facts [OF assms]
  have "sealed_from s s (pc_Rules s) (pc_Budgets s)"
    using s facts by (auto simp: sealed_from_def sort_key_id_if_sorted intro: normalizeStrings_idem list_all2_fixed)
  then show ?thesis using SealConfig_Inr_iff by blast
qed

text \<open>
  C29: sealing is a projection. The result of \<open>SealConfig\<close> seals to itself and passes \<open>Config.Validate\<close>, so a
  stored revision is accepted again unchanged.
\<close>

theorem SealConfig_idempotent:
  assumes "SealConfig c = Inr s"
  shows "SealConfig s = Inr s \<and> Config_Validate s = None"
  using SealConfig_sealed [OF assms]
  by (simp add: Config_Validate_def equalRule_def equalBudget_def list.rel_refl)

lemma list_all2_perm:
  assumes "list_all2 (\<lambda>x y. f x 0 = Inr y) xs ys" and "mset xs' = mset xs"
  shows "\<exists>ys'. list_all2 (\<lambda>x y. f x 0 = Inr y) xs' ys' \<and> mset ys' = mset ys"
proof -
  define g where "g x = projr (f x 0)" for x
  have ys: "ys = map g xs" using assms(1) by (auto simp: list_all2_conv_all_nth g_def intro: nth_equalityI)
  have "\<forall>x \<in> set xs. f x 0 = Inr (g x)"
    using assms(1) by (auto simp: list_all2_conv_all_nth g_def in_set_conv_nth)
  moreover have "set xs' = set xs" using assms(2) by (rule mset_eq_setD)
  ultimately have "list_all2 (\<lambda>x y. f x 0 = Inr y) xs' (map g xs')"
    by (auto simp: list_all2_conv_all_nth)
  moreover have "mset (map g xs') = mset ys" using assms(2) ys by simp
  ultimately show ?thesis by blast
qed

lemma sort_key_perm:
  assumes "mset ys' = mset ys" and "inj_on k (set ys)"
  shows "sort_key k ys' = sort_key k ys"
proof -
  have "inj_on k (set ys')" using assms mset_eq_setD by metis
  moreover have "mset ys' = mset (sort_key k ys)" using assms(1) by simp
  ultimately show ?thesis by (intro sort_key_inj_key_eq) auto
qed

text \<open>
  a policy revision has one normal form. Permuting the rules, the budgets, the known kinds and scopes or the
  confirmer scopes of a configuration that seals does not change the sealed revision, although the sort is not
  stable; the digest stored with a checkpoint therefore does not depend on the order in which a policy was written.
\<close>

theorem SealConfig_order_independent:
  assumes "SealConfig c = Inr s"
    and "mset rules = mset (pc_Rules c)" and "mset budgets = mset (pc_Budgets c)"
    and "mset kinds = mset (pc_KnownEffectKinds c)" and "mset scopes = mset (pc_KnownScopes c)"
    and "mset confirmers = mset (pc_ConfirmationScopes c)"
  shows "SealConfig (c\<lparr>pc_Rules := rules, pc_Budgets := budgets, pc_KnownEffectKinds := kinds,
                       pc_KnownScopes := scopes, pc_ConfirmationScopes := confirmers\<rparr>) = Inr s"
proof -
  obtain rs bs where s: "sealed_from c s rs bs" using assms(1) SealConfig_Inr_iff by blast
  obtain rs' where rs': "list_all2 (\<lambda>x y. normalizeRule x 0 = Inr y) rules rs'" "mset rs' = mset rs"
    using list_all2_perm [OF _ assms(2)] s by (auto simp: sealed_from_def)
  obtain bs' where bs': "list_all2 (\<lambda>x y. normalizeBudget x 0 = Inr y) budgets bs'" "mset bs' = mset bs"
    using list_all2_perm [OF _ assms(3)] s by (auto simp: sealed_from_def)
  have "inj_on rl_RuleID (set (pc_Rules s))" "inj_on bg_BudgetID (set (pc_Budgets s))"
    using SealConfig_facts(1,2) [OF assms(1)] by (auto simp: distinct_map)
  then have "inj_on rule_order (set rs)" "inj_on budget_order (set bs)"
    using s by (auto simp: sealed_from_def inj_on_def rule_order_def budget_order_def)
  then have "sort_key rule_order rs' = sort_key rule_order rs" "sort_key budget_order bs' = sort_key budget_order bs"
    using rs'(2) bs'(2) by (auto intro: sort_key_perm)
  moreover have "sort kinds = sort (pc_KnownEffectKinds c)" "sort scopes = sort (pc_KnownScopes c)"
    "sort confirmers = sort (pc_ConfirmationScopes c)"
    using assms(4-6) by (auto intro: sort_key_perm)
  ultimately have "sealed_from (c\<lparr>pc_Rules := rules, pc_Budgets := budgets, pc_KnownEffectKinds := kinds,
      pc_KnownScopes := scopes, pc_ConfirmationScopes := confirmers\<rparr>) s rs' bs'"
    using s rs'(1) bs'(1) by (simp add: sealed_from_def normalizeStrings_Inr_iff) metis
  then show ?thesis using SealConfig_Inr_iff by blast
qed


subsection \<open>A sample policy\<close>

text \<open>
  A guarded policy with two rules out of order, one budget and one confirmer scope, used to instantiate the
  theorems of the policy theories.
\<close>

definition sample_rule :: "string \<Rightarrow> layer \<Rightarrow> policy_result \<Rightarrow> string list \<Rightarrow> rule" where
  "sample_rule name l result kinds = \<lparr>rl_RuleID = name, rl_Layer = l, rl_Priority = 0, rl_Result = result,
     rl_EffectKinds = kinds, rl_Operations = [], rl_Ownership = [], rl_Scopes = [], rl_TagsAll = [], rl_TagsAny = [],
     rl_RiskAtLeast = no_risk, rl_RiskAtMost = no_risk, rl_Reversible = None, rl_ReasonCode = ''policy.rule'',
     rl_HumanSummary = ''rule''\<rparr>"

definition sample_budget :: budget where
  "sample_budget = \<lparr>bg_BudgetID = ''budget.gold'', bg_Layer = LayerActor, bg_EffectKinds = [''item.spend''],
     bg_Operations = [], bg_TagsAny = [], bg_MaxActions = 2, bg_MaxQuantity = 10,
     bg_Window = \<lparr>dr_Clock = ClockOther '''', dr_Value = 0\<rparr>\<rparr>"

definition sample_config :: policy_config where
  "sample_config = \<lparr>pc_Revision = 1, pc_Profile = ProfileGuarded,
     pc_KnownEffectKinds = [''item.spend'', ''item.gift''], pc_KnownScopes = [''world.local''],
     pc_Rules = [sample_rule ''rule.gift'' LayerTask RequireConfirmation [''item.gift''],
                 sample_rule ''rule.spend'' LayerServer Allow [''item.spend'']],
     pc_Budgets = [sample_budget],
     pc_ConfirmationTTL = \<lparr>cd_Event = 0, cd_Step = 5, cd_Realtime = 0\<rparr>,
     pc_ConfirmationScopes = [''policy.confirm'']\<rparr>"

definition sample_sealed :: policy_config where
  "sample_sealed = sample_config\<lparr>pc_KnownEffectKinds := [''item.gift'', ''item.spend''],
     pc_Rules := [sample_rule ''rule.spend'' LayerServer Allow [''item.spend''],
                  sample_rule ''rule.gift'' LayerTask RequireConfirmation [''item.gift'']]\<rparr>"

lemma seal_sample: "SealConfig sample_config = Inr sample_sealed"
  by code_simp

theorem SealConfig_idempotent_witness: "SealConfig sample_sealed = Inr sample_sealed"
  using SealConfig_idempotent [OF seal_sample] by blast

theorem SealConfig_order_independent_witness:
  "SealConfig (sample_config\<lparr>pc_Rules := rev (pc_Rules sample_config)\<rparr>) = Inr sample_sealed"
  using SealConfig_order_independent [OF seal_sample, of "rev (pc_Rules sample_config)" "pc_Budgets sample_config"
      "pc_KnownEffectKinds sample_config" "pc_KnownScopes sample_config" "pc_ConfirmationScopes sample_config"]
  by simp

end
