(* ===== verification/Policy_Engine.thy ===== *)
theory Policy_Engine
  imports Policy_Config
begin

section \<open>The policy engine (package \<open>policy\<close>, engine.go)\<close>

text \<open>
  The engine authorises one Host-bound effect preview at a time. Its state is the active revision, the
  confirmation challenges (with an index by binding key), the budget usage, the reservations made by allow
  decisions that are not finalised yet, and the cache of authorisations. Every operation runs under the engine's
  mutex, so it is one function from a state to a result and a new state. Random identifiers are arguments: the
  32 hexadecimal digits that \<open>newID\<close> draws, \<open>None\<close> when the random source fails. \<open>cloneDecision\<close> and the other
  defensive copies are identities on values.
\<close>

definition maxChallenges :: nat where "maxChallenges = 1024"
definition maxAuthorizations :: nat where "maxAuthorizations = 4096"

record budget_usage =
  us_actions :: u64
  us_quantity :: u64

record budget_delta =
  dl_key :: string
  dl_actions :: u64
  dl_quantity :: u64

record challenge_state =
  cs_challenge :: confirmation_challenge
  cs_approved :: bool
  cs_key :: string
  cs_clockScope :: string

record authorization_state =
  au_decision :: decision
  au_confirmationID :: string
  au_finalized :: bool

record engine =
  en_config :: policy_config
  en_configDigest :: string
  en_challenges :: "(string, challenge_state) gomap"
  en_challengeKeys :: "(string, string) gomap"
  en_usage :: "(string, budget_usage) gomap"
  en_reservations :: "(string, budget_delta list) gomap"
  en_authorizations :: "(string, authorization_state) gomap"
  en_decisionKeys :: "(string, string) gomap"

definition newID :: "string \<Rightarrow> string option \<Rightarrow> policy_error + string" where
  "newID kind random =
     (case random of
        None \<Rightarrow> Inl (PolicyError (''generate '' @ kind @ '' id''))
      | Some hex \<Rightarrow> Inr (kind @ ''.'' @ hex))"

text \<open>The zero value a Go map gives for a missing key.\<close>

definition usage_of :: "(string, budget_usage) gomap \<Rightarrow> string \<Rightarrow> budget_usage" where
  "usage_of usage k = (case map_of usage k of None \<Rightarrow> \<lparr>us_actions = 0, us_quantity = 0\<rparr> | Some u \<Rightarrow> u)"

subsection \<open>Construction and replacement of a revision\<close>

definition New :: "(policy_config \<Rightarrow> policy_error + string) \<Rightarrow> policy_config \<Rightarrow> policy_error + engine" where
  "New config_digest config =
     ebind (SealConfig config) (\<lambda>sealed.
     ebind (config_digest sealed) (\<lambda>digest.
       Inr \<lparr>en_config = sealed, en_configDigest = digest, en_challenges = [], en_challengeKeys = [],
            en_usage = [], en_reservations = [], en_authorizations = [], en_decisionKeys = []\<rparr>))"

definition Update :: "(policy_config \<Rightarrow> policy_error + string) \<Rightarrow> engine \<Rightarrow> policy_config \<Rightarrow> policy_error option \<times> engine" where
  "Update config_digest en config =
     (case SealConfig config of
        Inl e \<Rightarrow> (Some e, en)
      | Inr sealed \<Rightarrow>
          (case config_digest sealed of
             Inl e \<Rightarrow> (Some e, en)
           | Inr digest \<Rightarrow>
               if pc_Revision sealed \<le> pc_Revision (en_config en)
               then (Some (PolicyError ''policy revision must increase''), en)
               else (None, en\<lparr>en_config := sealed, en_configDigest := digest, en_challenges := [],
                              en_challengeKeys := [], en_authorizations := []\<rparr>)))"

subsection \<open>Keys\<close>

definition makeAuthorizationKey :: "bound_action \<Rightarrow> policy_context \<Rightarrow> u64 \<Rightarrow> string" where
  "makeAuthorizationKey a cx revision =
     nul_join [
       ba_BindingID a,
       ba_RequestDigest a,
       ba_EffectDigest a,
       pr_ID (cx_Principal cx),
       cx_ServerID cx,
       cx_OwnerID cx,
       ep_SessionID (ba_ExpectedEpoch a),
       format_u64 (ep_Host (ba_ExpectedEpoch a)),
       format_u64 (ep_World (ba_ExpectedEpoch a)),
       format_u64 (ep_Timeline (ba_ExpectedEpoch a)),
       format_u64 revision]"

definition makeChallengeKey :: "bound_action \<Rightarrow> policy_context \<Rightarrow> u64 \<Rightarrow> string" where
  "makeChallengeKey a cx revision = makeAuthorizationKey a cx revision"

definition challengeClockScope :: "bound_action \<Rightarrow> policy_context \<Rightarrow> string" where
  "challengeClockScope a cx =
     nul_join [cx_ServerID cx, ep_WorldID (ba_ExpectedEpoch a), clock_string (tp_Clock (cx_Now cx))]"

definition budget_scope :: "budget \<Rightarrow> bound_action \<Rightarrow> policy_context \<Rightarrow> string" where
  "budget_scope b a cx =
     (case bg_Layer b of
        LayerWorld \<Rightarrow> ep_WorldID (ba_ExpectedEpoch a)
      | LayerOwner \<Rightarrow> cx_OwnerID cx
      | LayerActor \<Rightarrow> ba_ActorID a
      | LayerTask \<Rightarrow> ba_TaskID a
      | _ \<Rightarrow> cx_ServerID cx)"

definition makeBudgetKey :: "go_env \<Rightarrow> budget \<Rightarrow> bound_action \<Rightarrow> policy_context \<Rightarrow> policy_error + string \<times> string" where
  "makeBudgetKey env b a cx =
     (if dr_Value (bg_Window b) > 0 \<and> dr_Clock (bg_Window b) \<noteq> tp_Clock (cx_Now cx)
      then Inl (PolicyError ''budget window clock does not match the Host clock'')
      else
        let bucket = (if dr_Value (bg_Window b) > 0
                      then format_u64 (word_of_int (tp_Value (cx_Now cx)) div dr_Value (bg_Window b))
                      else ''epoch'');
            key = nul_join [
              bg_BudgetID b,
              budget_scope b a cx,
              ep_SessionID (ba_ExpectedEpoch a),
              ep_WorldID (ba_ExpectedEpoch a),
              format_u64 (ep_Host (ba_ExpectedEpoch a)),
              format_u64 (ep_World (ba_ExpectedEpoch a)),
              format_u64 (ep_Timeline (ba_ExpectedEpoch a)),
              bucket]
        in Inr (key, bg_BudgetID b @ ''.'' @ take 16 (sha256Hex env key)))"

subsection \<open>Decisions\<close>

definition appendUnique :: "string list \<Rightarrow> string \<Rightarrow> string list" where
  "appendUnique values v = (if v \<in> set values then values else values @ [v])"

definition denyDecision :: "decision \<Rightarrow> string \<Rightarrow> string \<Rightarrow> string \<Rightarrow> decision" where
  "denyDecision base ruleID reason summary =
     base\<lparr>de_Result := Deny, de_MatchedRuleIDs := appendUnique (de_MatchedRuleIDs base) ruleID,
          de_ReasonCode := reason, de_HumanSummary := summary, de_Confirmation := None, de_EffectiveLimits := []\<rparr>"

record gameplay =
  gp_result :: policy_result
  gp_matched :: "string list"
  gp_reason :: string
  gp_summary :: string
  gp_selected :: bool

text \<open>
  The body shared by the three places of \<open>evaluateGameplay\<close> that record a matched rule: remember its identifier,
  and take its result, reason and summary if nothing was selected yet or its result is more severe.
\<close>

definition select_verdict :: "effect_decision \<Rightarrow> gameplay \<Rightarrow> gameplay" where
  "select_verdict v g =
     (let g' = g\<lparr>gp_matched := appendUnique (gp_matched g) (ed_ruleID v)\<rparr> in
      if \<not> gp_selected g \<or> resultRank (ed_result v) > resultRank (gp_result g)
      then g'\<lparr>gp_result := ed_result v, gp_reason := ed_reasonCode v, gp_summary := ed_summary v,
              gp_selected := True\<rparr>
      else g')"

definition rule_verdict :: "rule \<Rightarrow> effect_decision" where
  "rule_verdict r = \<lparr>ed_result = rl_Result r, ed_ruleID = rl_RuleID r, ed_reasonCode = rl_ReasonCode r,
     ed_summary = rl_HumanSummary r\<rparr>"

definition evaluate_effect :: "policy_config \<Rightarrow> bound_action \<Rightarrow> policy_context \<Rightarrow> effect \<Rightarrow> gameplay \<Rightarrow> gameplay" where
  "evaluate_effect config a cx e g =
     (case kernelDecision config e of
        Some verdict \<Rightarrow> select_verdict verdict g
      | None \<Rightarrow>
          let matching = filter (\<lambda>r. ruleMatches r e a cx) (pc_Rules config) in
          if matching = [] then select_verdict (profileDecision (pc_Profile config) e) g
          else fold (\<lambda>r. select_verdict (rule_verdict r)) matching g)"

definition evaluateGameplay :: "policy_config \<Rightarrow> bound_action \<Rightarrow> policy_context \<Rightarrow> gameplay" where
  "evaluateGameplay config a cx =
     fold (evaluate_effect config a cx) (ba_Effects a)
       \<lparr>gp_result = Allow, gp_matched = [], gp_reason = ''policy.allowed'',
        gp_summary = ''All Host-bound effects are allowed by the active gameplay policy.'', gp_selected = False\<rparr>"

subsection \<open>Confirmations\<close>

definition confirmationTTL :: "confirmation_durations \<Rightarrow> clock_mode \<Rightarrow> u64 \<times> bool" where
  "confirmationTTL d clock =
     (case clock of
        ClockEvent \<Rightarrow> (cd_Event d, cd_Event d \<noteq> 0)
      | ClockStep \<Rightarrow> (cd_Step d, cd_Step d \<noteq> 0)
      | ClockRealtime \<Rightarrow> (cd_Realtime d, cd_Realtime d \<noteq> 0)
      | ClockOther _ \<Rightarrow> (0, False))"

definition challenge_expiry :: "bound_action \<Rightarrow> policy_context \<Rightarrow> u64 \<Rightarrow> int" where
  "challenge_expiry a cx ttl =
     (if tp_Value (cx_Now cx) \<le> int maxJSONSafeInteger - uint ttl
         \<and> tp_Value (cx_Now cx) + uint ttl < tp_Value (ba_ValidUntil a)
      then tp_Value (cx_Now cx) + uint ttl
      else tp_Value (ba_ValidUntil a))"

text \<open>The state of a new challenge.\<close>

definition new_challenge :: "bound_action \<Rightarrow> policy_context \<Rightarrow> policy_config \<Rightarrow> u64 \<Rightarrow> string \<Rightarrow> challenge_state" where
  "new_challenge a cx config ttl cid = \<lparr>
     cs_challenge = \<lparr>
       ch_ChallengeID = cid,
       ch_ControllerID = ba_ControllerID a,
       ch_ActorID = ba_ActorID a,
       ch_PrincipalID = pr_ID (cx_Principal cx),
       ch_EffectDigest = ba_EffectDigest a,
       ch_Epoch = ba_ExpectedEpoch a,
       ch_ExpiresAt = \<lparr>tp_Clock = tp_Clock (cx_Now cx), tp_Value = challenge_expiry a cx ttl\<rparr>,
       ch_PolicyRevision = pc_Revision config,
       ch_SingleUse = True\<rparr>,
     cs_approved = False,
     cs_key = makeChallengeKey a cx (pc_Revision config),
     cs_clockScope = challengeClockScope a cx\<rparr>"

definition issueConfirmation ::
  "engine \<Rightarrow> bound_action \<Rightarrow> policy_context \<Rightarrow> policy_config \<Rightarrow> u64 \<Rightarrow> string option
     \<Rightarrow> (policy_error + confirmation_challenge) \<times> engine" where
  "issueConfirmation en a cx config ttl random =
     (let key = makeChallengeKey a cx (pc_Revision config)
      in case Option.bind (map_of (en_challengeKeys en) key) (map_of (en_challenges en)) of
        Some existing \<Rightarrow> (Inr (cs_challenge existing), en)
      | None \<Rightarrow>
          let en' = en\<lparr>en_challengeKeys := AList.delete key (en_challengeKeys en)\<rparr> in
          if length (en_challenges en') \<ge> maxChallenges
          then (Inl (PolicyError ''confirmation challenge capacity is exhausted''), en')
          else case newID ''confirmation'' random of
            Inl e \<Rightarrow> (Inl e, en')
          | Inr cid \<Rightarrow>
              let st = new_challenge a cx config ttl cid
              in (Inr (cs_challenge st),
                  en'\<lparr>en_challenges := AList.update cid st (en_challenges en'),
                      en_challengeKeys := AList.update key cid (en_challengeKeys en')\<rparr>))"

datatype consume_result = NotConfirmed | Confirmed | ConfirmationRejected decision

definition invalid_confirmation :: "bound_action \<Rightarrow> policy_context \<Rightarrow> policy_config \<Rightarrow> decision" where
  "invalid_confirmation a cx config = \<lparr>
     de_DecisionID = '''',
     de_Result = Deny,
     de_ControllerID = ba_ControllerID a,
     de_ActorID = ba_ActorID a,
     de_PrincipalID = pr_ID (cx_Principal cx),
     de_EffectDigest = ba_EffectDigest a,
     de_PolicyRevision = pc_Revision config,
     de_MatchedRuleIDs = [''kernel.invalid-confirmation''],
     de_ReasonCode = ''policy.invalid_confirmation'',
     de_HumanSummary = ''The confirmation is missing, unapproved, expired, consumed, or bound to another action.'',
     de_EffectiveLimits = [],
     de_Confirmation = None,
     de_EvaluatedAt = \<lparr>tp_Clock = ClockOther '''', tp_Value = 0\<rparr>\<rparr>"

definition challenge_matches :: "challenge_state \<Rightarrow> bound_action \<Rightarrow> policy_context \<Rightarrow> policy_config \<Rightarrow> bool" where
  "challenge_matches st a cx config \<longleftrightarrow>
     (let ch = cs_challenge st in
      cs_key st = makeChallengeKey a cx (pc_Revision config)
      \<and> ch_ControllerID ch = ba_ControllerID a \<and> ch_ActorID ch = ba_ActorID a
      \<and> ch_PrincipalID ch = pr_ID (cx_Principal cx) \<and> ch_EffectDigest ch = ba_EffectDigest a
      \<and> ch_Epoch ch = ba_ExpectedEpoch a \<and> ch_PolicyRevision ch = pc_Revision config
      \<and> tp_Clock (ch_ExpiresAt ch) = tp_Clock (cx_Now cx) \<and> tp_Value (cx_Now cx) < tp_Value (ch_ExpiresAt ch))"

definition consumeConfirmation ::
  "engine \<Rightarrow> bound_action \<Rightarrow> policy_context \<Rightarrow> policy_config \<Rightarrow> consume_result \<times> engine" where
  "consumeConfirmation en a cx config =
     (if cx_ConfirmationID cx = [] then (NotConfirmed, en)
      else case map_of (en_challenges en) (cx_ConfirmationID cx) of
        None \<Rightarrow> (ConfirmationRejected (invalid_confirmation a cx config), en)
      | Some st \<Rightarrow>
          if \<not> cs_approved st \<or> \<not> challenge_matches st a cx config
          then (ConfirmationRejected (invalid_confirmation a cx config), en)
          else (Confirmed, en\<lparr>
            en_challenges := AList.delete (ch_ChallengeID (cs_challenge st)) (en_challenges en),
            en_challengeKeys := AList.delete (cs_key st) (en_challengeKeys en)\<rparr>))"

definition challenge_expired :: "string \<Rightarrow> int \<Rightarrow> challenge_state \<Rightarrow> bool" where
  "challenge_expired scope now st \<longleftrightarrow>
     cs_clockScope st = scope \<and> now \<ge> tp_Value (ch_ExpiresAt (cs_challenge st))"

definition pruneChallenges :: "engine \<Rightarrow> bound_action \<Rightarrow> policy_context \<Rightarrow> engine" where
  "pruneChallenges en a cx =
     (let scope = challengeClockScope a cx;
          expired = (\<lambda>(i, st). challenge_expired scope (tp_Value (cx_Now cx)) st)
      in en\<lparr>en_challenges := filter (\<lambda>c. \<not> expired c) (en_challenges en),
            en_challengeKeys := fold AList.delete (map (\<lambda>(i, st). cs_key st) (filter expired (en_challenges en)))
                                  (en_challengeKeys en)\<rparr>)"

subsection \<open>Budgets\<close>

definition rollback_delta :: "budget_delta \<Rightarrow> (string, budget_usage) gomap \<Rightarrow> (string, budget_usage) gomap" where
  "rollback_delta d usage =
     (let current = usage_of usage (dl_key d) in
      if us_actions current < dl_actions d \<or> us_quantity current < dl_quantity d
      then AList.delete (dl_key d) usage
      else
        let next = \<lparr>us_actions = us_actions current - dl_actions d, us_quantity = us_quantity current - dl_quantity d\<rparr>
        in if us_actions next = 0 \<and> us_quantity next = 0 then AList.delete (dl_key d) usage
           else AList.update (dl_key d) next usage)"

definition rollbackDeltas :: "budget_delta list \<Rightarrow> (string, budget_usage) gomap \<Rightarrow> (string, budget_usage) gomap" where
  "rollbackDeltas deltas usage = fold rollback_delta (rev deltas) usage"

text \<open>The inner loop of \<open>reserveBudgets\<close>: \<open>None\<close> is the quantity overflow.\<close>

fun matched_quantity ::
  "budget \<Rightarrow> bound_action \<Rightarrow> policy_context \<Rightarrow> bool \<Rightarrow> u64 \<Rightarrow> effect list \<Rightarrow> (bool \<times> u64) option" where
  "matched_quantity b a cx matched quantity [] = Some (matched, quantity)"
| "matched_quantity b a cx matched quantity (e # es) =
     (if \<not> budgetMatches b e a cx then matched_quantity b a cx matched quantity es
      else if - 1 - quantity < ef_Quantity e then None
      else matched_quantity b a cx True (quantity + ef_Quantity e) es)"

datatype reserve_result =
    ReserveError policy_error
  | ReserveDenied decision
  | Reserved "effective_limit list" "budget_delta list"

definition budget_exceeded :: "budget \<Rightarrow> budget_usage \<Rightarrow> bool" where
  "budget_exceeded b next \<longleftrightarrow>
     bg_MaxActions b > 0 \<and> us_actions next > ucast (bg_MaxActions b)
     \<or> bg_MaxQuantity b > 0 \<and> us_quantity next > bg_MaxQuantity b"

definition make_limit :: "budget \<Rightarrow> string \<Rightarrow> budget_usage \<Rightarrow> effective_limit" where
  "make_limit b publicKey next = \<lparr>
     el_BudgetID = bg_BudgetID b,
     el_UsageKey = publicKey,
     el_MaxActions = ucast (bg_MaxActions b),
     el_ActionsUsed = us_actions next,
     el_ActionsRemaining = (if bg_MaxActions b > 0 then ucast (bg_MaxActions b) - us_actions next else 0),
     el_MaxQuantity = bg_MaxQuantity b,
     el_QuantityUsed = us_quantity next,
     el_QuantityRemaining = (if bg_MaxQuantity b > 0 then bg_MaxQuantity b - us_quantity next else 0)\<rparr>"

fun reserve_loop ::
  "go_env \<Rightarrow> bound_action \<Rightarrow> policy_context \<Rightarrow> decision \<Rightarrow> budget list
     \<Rightarrow> effective_limit list \<Rightarrow> budget_delta list \<Rightarrow> (string, budget_usage) gomap
     \<Rightarrow> reserve_result \<times> (string, budget_usage) gomap" where
  "reserve_loop env a cx base [] limits deltas usage = (Reserved limits deltas, usage)"
| "reserve_loop env a cx base (b # bs) limits deltas usage =
     (case matched_quantity b a cx False 0 (ba_Effects a) of
        None \<Rightarrow> (ReserveError (PolicyError ''effect quantity overflow''), usage)
      | Some (matched, quantity) \<Rightarrow>
          if \<not> matched then reserve_loop env a cx base bs limits deltas usage
          else case makeBudgetKey env b a cx of
            Inl e \<Rightarrow> (ReserveError e, rollbackDeltas deltas usage)
          | Inr (key, publicKey) \<Rightarrow>
              let current = usage_of usage key in
              if us_actions current = - 1 \<or> - 1 - us_quantity current < quantity
              then (ReserveError (PolicyError ''policy budget usage overflow''), rollbackDeltas deltas usage)
              else
                let next = \<lparr>us_actions = us_actions current + 1, us_quantity = us_quantity current + quantity\<rparr> in
                if budget_exceeded b next
                then (ReserveDenied (denyDecision base (bg_BudgetID b) ''policy.budget_exceeded''
                        ''The action would exceed an active gameplay budget.''), rollbackDeltas deltas usage)
                else reserve_loop env a cx base bs
                       (limits @ [make_limit b publicKey next])
                       (deltas @ [\<lparr>dl_key = key, dl_actions = 1, dl_quantity = quantity\<rparr>])
                       (AList.update key next usage))"

definition reserveBudgets ::
  "go_env \<Rightarrow> engine \<Rightarrow> bound_action \<Rightarrow> policy_context \<Rightarrow> policy_config \<Rightarrow> decision \<Rightarrow> reserve_result \<times> engine" where
  "reserveBudgets env en a cx config base =
     (let (r, usage) = reserve_loop env a cx base (pc_Budgets config) [] [] (en_usage en)
      in (r, en\<lparr>en_usage := usage\<rparr>))"

definition removeFinalizedAuthorizations :: "engine \<Rightarrow> engine" where
  "removeFinalizedAuthorizations en =
     en\<lparr>en_authorizations := filter (\<lambda>(k, st). \<not> au_finalized st) (en_authorizations en)\<rparr>"

subsection \<open>Contexts\<close>

definition validateContext :: "policy_context \<Rightarrow> policy_error option" where
  "validateContext cx =
     first_err [
       map_option host_error (Timepoint_Validate (cx_Now cx) ''now''),
       map_option host_error (Epoch_Validate (cx_CurrentEpoch cx) ''current_epoch''),
       map_option host_error (ValidatePrincipal (cx_Principal cx)),
       validateID ''server_id'' (cx_ServerID cx) False,
       (if cx_OwnerID cx \<noteq> [] then validateID ''owner_id'' (cx_OwnerID cx) False else None),
       (if cx_ConfirmationID cx \<noteq> [] then validateID ''confirmation_id'' (cx_ConfirmationID cx) False else None)]"

definition principalHasAnyScope :: "principal \<Rightarrow> string list \<Rightarrow> bool" where
  "principalHasAnyScope p scopes \<longleftrightarrow> list_ex (\<lambda>granted. granted \<in> set scopes) (pr_GrantedScopes p)"

subsection \<open>The operations of the engine\<close>

text \<open>
  \<open>Evaluate\<close> in its steps. \<open>base_decision\<close> is the decision before anything was evaluated; its result is the
  empty string. \<open>gate\<close> is the sequence of early returns of the safety kernel; \<open>authorize\<close> is the tail of
  the method, from the budget reservation on.
\<close>

definition base_decision :: "policy_config \<Rightarrow> bound_action \<Rightarrow> policy_context \<Rightarrow> string \<Rightarrow> decision" where
  "base_decision config a cx decisionID = \<lparr>
     de_DecisionID = decisionID,
     de_Result = ResultOther '''',
     de_ControllerID = ba_ControllerID a,
     de_ActorID = ba_ActorID a,
     de_PrincipalID = pr_ID (cx_Principal cx),
     de_EffectDigest = ba_EffectDigest a,
     de_PolicyRevision = pc_Revision config,
     de_MatchedRuleIDs = [],
     de_ReasonCode = '''',
     de_HumanSummary = '''',
     de_EffectiveLimits = [],
     de_Confirmation = None,
     de_EvaluatedAt = cx_Now cx\<rparr>"

definition gate :: "bound_action \<Rightarrow> policy_context \<Rightarrow> decision \<Rightarrow> decision option" where
  "gate a cx base =
     (if cx_EmergencyStopped cx
      then Some (denyDecision base ''kernel.emergency-stop'' ''policy.emergency_stop''
             ''The emergency stop is active for this Host.'')
      else if cx_CurrentEpoch cx \<noteq> ba_ExpectedEpoch a
      then Some (denyDecision base ''kernel.stale-epoch'' ''policy.stale_epoch''
             ''The action belongs to a stale Host epoch.'')
      else if tp_Clock (cx_Now cx) \<noteq> tp_Clock (ba_ValidUntil a) \<or> tp_Value (cx_Now cx) \<ge> tp_Value (ba_ValidUntil a)
      then Some (denyDecision base ''kernel.expired-binding'' ''policy.expired_binding''
             ''The Host binding is expired or uses a different clock.'')
      else None)"

definition authorize ::
  "go_env \<Rightarrow> engine \<Rightarrow> bound_action \<Rightarrow> policy_context \<Rightarrow> policy_config \<Rightarrow> string \<Rightarrow> decision
     \<Rightarrow> (policy_error + decision) \<times> engine" where
  "authorize env en a cx config authorizationKey base =
     (case reserveBudgets env en a cx config base of
        (ReserveError e, en1) \<Rightarrow> (Inl e, en1)
      | (ReserveDenied denied, en1) \<Rightarrow> (Inr denied, en1)
      | (Reserved limits deltas, en1) \<Rightarrow>
          let base1 = base\<lparr>de_EffectiveLimits := limits\<rparr>;
              en2 = (if length (en_authorizations en1) \<ge> maxAuthorizations
                     then removeFinalizedAuthorizations en1 else en1)
          in if length (en_authorizations en2) \<ge> maxAuthorizations
             then (Inr (denyDecision base1 ''kernel.authorization-capacity'' ''policy.authorization_capacity''
                     ''The policy authorization capacity is temporarily exhausted.''),
                   en2\<lparr>en_usage := rollbackDeltas deltas (en_usage en2)\<rparr>)
             else (Inr base1, en2\<lparr>
               en_authorizations := AList.update authorizationKey
                 \<lparr>au_decision = base1, au_confirmationID = cx_ConfirmationID cx, au_finalized = False\<rparr>
                 (en_authorizations en2),
               en_decisionKeys := AList.update (de_DecisionID base1) authorizationKey (en_decisionKeys en2),
               en_reservations := (if deltas \<noteq> []
                 then AList.update (de_DecisionID base1) deltas (en_reservations en2)
                 else en_reservations en2)\<rparr>))"

text \<open>
  \<open>decide\<close> is the part of \<open>Evaluate\<close> from the gameplay evaluation on, for a binding without an authorisation. The random
  identifier is that of a new challenge.
\<close>

definition decide ::
  "go_env \<Rightarrow> engine \<Rightarrow> bound_action \<Rightarrow> policy_context \<Rightarrow> policy_config \<Rightarrow> string \<Rightarrow> decision \<Rightarrow> string option
     \<Rightarrow> (policy_error + decision) \<times> engine" where
  "decide env en a cx config authorizationKey base0 challenge_random =
     (let g = evaluateGameplay config a cx;
          base = base0\<lparr>de_Result := gp_result g, de_MatchedRuleIDs := gp_matched g,
                       de_ReasonCode := gp_reason g, de_HumanSummary := gp_summary g\<rparr>
      in if gp_result g = Deny then (Inr base, en)
      else if gp_result g = RequireConfirmation
      then (case consumeConfirmation en a cx config of
          (ConfirmationRejected rejection, en1) \<Rightarrow>
            (Inr (rejection\<lparr>de_DecisionID := de_DecisionID base0, de_EvaluatedAt := cx_Now cx\<rparr>), en1)
        | (NotConfirmed, en1) \<Rightarrow>
            let (ttl, supported) = confirmationTTL (pc_ConfirmationTTL config) (tp_Clock (cx_Now cx)) in
            if \<not> supported
            then (Inr (denyDecision base ''kernel.confirmation-clock-disabled''
                    ''policy.confirmation_clock_disabled''
                    ''Gameplay confirmation is disabled for this Host clock.''), en1)
            else (case issueConfirmation en1 a cx config ttl challenge_random of
                (Inl e, en2) \<Rightarrow> (Inl e, en2)
              | (Inr challenge, en2) \<Rightarrow> (Inr (base\<lparr>de_Confirmation := Some challenge\<rparr>), en2))
        | (Confirmed, en1) \<Rightarrow>
            authorize env en1 a cx config authorizationKey
              (base\<lparr>de_Result := Allow,
                    de_MatchedRuleIDs := appendUnique (de_MatchedRuleIDs base) ''confirmation.consumed'',
                    de_ReasonCode := ''policy.confirmed'',
                    de_HumanSummary := ''The approved single-use confirmation matches this exact effect preview.''\<rparr>))
      else if cx_ConfirmationID cx \<noteq> []
      then (Inr (denyDecision base ''kernel.unexpected-confirmation'' ''policy.confirmation_not_required''
              ''A confirmation cannot be attached to an action that does not require one.''), en)
      else authorize env en a cx config authorizationKey base)"

text \<open>The two random identifiers of one call are its last arguments: of the decision, and of a new challenge.\<close>

definition Evaluate ::
  "go_env \<Rightarrow> engine \<Rightarrow> bound_action \<Rightarrow> policy_context \<Rightarrow> string option \<Rightarrow> string option
     \<Rightarrow> (policy_error + decision) \<times> engine" where
  "Evaluate env en0 a cx decision_random challenge_random =
     (case ValidateBoundAction env a of
        Some e \<Rightarrow> (Inl (PolicyHostError ''validate bound action: '' e), en0)
      | None \<Rightarrow> (case validateContext cx of
        Some e \<Rightarrow> (Inl e, en0)
      | None \<Rightarrow> (case newID ''decision'' decision_random of
        Inl e \<Rightarrow> (Inl e, en0)
      | Inr decisionID \<Rightarrow>
        let en = pruneChallenges en0 a cx;
            config = en_config en;
            base = base_decision config a cx decisionID
        in case gate a cx base of
          Some denied \<Rightarrow> (Inr denied, en)
        | None \<Rightarrow>
          let authorizationKey = makeAuthorizationKey a cx (pc_Revision config)
          in case map_of (en_authorizations en) authorizationKey of
            Some existing \<Rightarrow>
              if au_confirmationID existing = cx_ConfirmationID cx then (Inr (au_decision existing), en)
              else (Inr (denyDecision base ''kernel.invalid-confirmation'' ''policy.invalid_confirmation''
                      ''The confirmation does not match the existing authorization for this binding.''), en)
          | None \<Rightarrow> decide env en a cx config authorizationKey base challenge_random)))"

definition Approve ::
  "engine \<Rightarrow> string \<Rightarrow> principal \<Rightarrow> timepoint \<Rightarrow> (policy_error + confirmation_challenge) \<times> engine" where
  "Approve en challengeID approver now =
     (case first_err [
         validateID ''challenge_id'' challengeID False,
         map_option host_error (ValidatePrincipal approver),
         map_option host_error (Timepoint_Validate now ''now'')] of
        Some e \<Rightarrow> (Inl e, en)
      | None \<Rightarrow> (case map_of (en_challenges en) challengeID of
        None \<Rightarrow> (Inl (PolicyError ''confirmation challenge is missing or expired''), en)
      | Some st \<Rightarrow>
          let ch = cs_challenge st in
          if tp_Clock (ch_ExpiresAt ch) \<noteq> tp_Clock now
          then (Inl (PolicyError ''confirmation approval clock does not match the challenge''), en)
          else if tp_Value now \<ge> tp_Value (ch_ExpiresAt ch)
          then (Inl (PolicyError ''confirmation challenge is missing or expired''),
                en\<lparr>en_challenges := AList.delete challengeID (en_challenges en),
                   en_challengeKeys := AList.delete (cs_key st) (en_challengeKeys en)\<rparr>)
          else if ch_PolicyRevision ch \<noteq> pc_Revision (en_config en)
          then (Inl (PolicyError ''confirmation challenge belongs to an old policy revision''), en)
          else if \<not> principalHasAnyScope approver (pc_ConfirmationScopes (en_config en))
          then (Inl (PolicyError ''principal cannot approve gameplay confirmations''), en)
          else (Inr ch, en\<lparr>en_challenges :=
                  AList.update challengeID (st\<lparr>cs_approved := True\<rparr>) (en_challenges en)\<rparr>)))"

definition Finalize :: "engine \<Rightarrow> string \<Rightarrow> bool \<Rightarrow> bool \<times> engine" where
  "Finalize en decisionID committed =
     (case map_of (en_decisionKeys en) decisionID of
        None \<Rightarrow> (False, en)
      | Some key \<Rightarrow>
          let en1 = (case map_of (en_reservations en) decisionID of
                None \<Rightarrow> en
              | Some deltas \<Rightarrow>
                  en\<lparr>en_usage := (if committed then en_usage en else rollbackDeltas deltas (en_usage en)),
                     en_reservations := AList.delete decisionID (en_reservations en)\<rparr>);
              en2 = en1\<lparr>en_decisionKeys := AList.delete decisionID (en_decisionKeys en1)\<rparr>
          in (case map_of (en_authorizations en1) key of
                None \<Rightarrow> (True, en2)
              | Some st \<Rightarrow>
                  (True, en2\<lparr>en_authorizations :=
                     (if committed then AList.update key (st\<lparr>au_finalized := True\<rparr>) (en_authorizations en1)
                      else AList.delete key (en_authorizations en1))\<rparr>)))"

definition DiscardConfirmation :: "engine \<Rightarrow> confirmation_challenge \<Rightarrow> bool \<times> engine" where
  "DiscardConfirmation en challenge =
     (case validateConfirmationChallenge challenge of
        Some e \<Rightarrow> (False, en)
      | None \<Rightarrow> (case map_of (en_challenges en) (ch_ChallengeID challenge) of
        None \<Rightarrow> (False, en)
      | Some st \<Rightarrow>
          if cs_challenge st \<noteq> challenge then (False, en)
          else (True, en\<lparr>en_challenges := AList.delete (ch_ChallengeID challenge) (en_challenges en),
                         en_challengeKeys := AList.delete (cs_key st) (en_challengeKeys en)\<rparr>)))"

end
