(* ===== verification/Policy_Ledger.thy ===== *)
theory Policy_Ledger
  imports Policy_Engine
begin

section \<open>The budget ledger of the policy engine\<close>

text \<open>
  Budget usage is a map from budget keys to two machine counters. The locale \<open>ledger\<close> states what a client of the
  ledger relies on, over natural numbers: refunding a delta that is covered by the usage subtracts exactly that
  delta and touches nothing else. It is interpreted twice, for \<open>rollbackDeltas\<close> of engine.go, which checks
  for underflow, and for the loop of \<open>snapshotState\<close> in state.go, which subtracts without a check. The second part
  describes \<open>reserveBudgets\<close>: what it charges, that it charges all matching budgets or none, and that no counter wraps.
\<close>

datatype counter = Actions | Quantity

fun counter_of :: "budget_usage \<Rightarrow> counter \<Rightarrow> nat" where
  "counter_of u Actions = unat (us_actions u)"
| "counter_of u Quantity = unat (us_quantity u)"

fun delta_count :: "budget_delta \<Rightarrow> counter \<Rightarrow> nat" where
  "delta_count d Actions = unat (dl_actions d)"
| "delta_count d Quantity = unat (dl_quantity d)"

definition amount :: "(string, budget_usage) gomap \<Rightarrow> string \<Rightarrow> counter \<Rightarrow> nat" where
  "amount usage k c = counter_of (usage_of usage k) c"

text \<open>The map holds no bucket with two zero counters; then it is determined by its amounts.\<close>

definition usage_ok :: "(string, budget_usage) gomap \<Rightarrow> bool" where
  "usage_ok usage \<longleftrightarrow> map_ok usage \<and> list_all (\<lambda>(k, u). us_actions u \<noteq> 0 \<or> us_quantity u \<noteq> 0) usage"

definition total :: "('d \<Rightarrow> 'k) \<Rightarrow> ('d \<Rightarrow> counter \<Rightarrow> nat) \<Rightarrow> 'd list \<Rightarrow> 'k \<Rightarrow> counter \<Rightarrow> nat" where
  "total dkey dcount ds k c = (\<Sum>d \<leftarrow> ds. if dkey d = k then dcount d c else 0)"

lemma total_simps [simp]:
  "total dkey dcount [] k c = 0"
  "total dkey dcount (d # ds) k c = (if dkey d = k then dcount d c else 0) + total dkey dcount ds k c"
  "total dkey dcount (ds @ es) k c = total dkey dcount ds k c + total dkey dcount es k c"
  by (simp_all add: total_def)

lemma total_rev [simp]: "total dkey dcount (rev ds) k c = total dkey dcount ds k c"
  by (induction ds) auto

lemma total_mset: "mset ds = mset es \<Longrightarrow> total dkey dcount ds k c = total dkey dcount es k c"
  by (simp add: total_def flip: sum_mset_sum_list)

abbreviation delta_total :: "budget_delta list \<Rightarrow> string \<Rightarrow> counter \<Rightarrow> nat" where
  "delta_total \<equiv> total dl_key delta_count"

locale ledger =
  fixes amt :: "'u \<Rightarrow> 'k \<Rightarrow> counter \<Rightarrow> nat"
    and dkey :: "'d \<Rightarrow> 'k"
    and dcount :: "'d \<Rightarrow> counter \<Rightarrow> nat"
    and refund :: "'d \<Rightarrow> 'u \<Rightarrow> 'u"
    and invar :: "'u \<Rightarrow> bool"
    and same :: "'u \<Rightarrow> 'u \<Rightarrow> bool"
  assumes amt_refund: "(\<And>c. dcount d c \<le> amt u (dkey d) c) \<Longrightarrow>
      amt (refund d u) k c = amt u k c - (if k = dkey d then dcount d c else 0)"
    and invar_refund: "invar u \<Longrightarrow> invar (refund d u)"
    and amt_ext: "invar u \<Longrightarrow> invar v \<Longrightarrow> (\<And>k c. amt u k c = amt v k c) \<Longrightarrow> same u v"
begin

lemma invar_refund_all: "invar u \<Longrightarrow> invar (fold refund ds u)"
  by (induction ds arbitrary: u) (auto intro: invar_refund)

text \<open>Refunding covered deltas one after the other subtracts their total, so the order does not matter.\<close>

lemma amt_refund_all:
  assumes "\<And>k c. total dkey dcount ds k c \<le> amt u k c"
  shows "amt (fold refund ds u) k c = amt u k c - total dkey dcount ds k c"
  using assms
proof (induction ds arbitrary: u)
  case Nil
  then show ?case by simp
next
  case (Cons d ds)
  have "dcount d c \<le> amt u (dkey d) c" for c using Cons.prems [of "dkey d" c] by simp
  then have step: "amt (refund d u) k c = amt u k c - (if k = dkey d then dcount d c else 0)" for k c
    by (rule amt_refund)
  have "total dkey dcount ds k c \<le> amt (refund d u) k c" for k c
    using Cons.prems [of k c] by (auto simp: step)
  then show ?case using Cons.IH [of "refund d u"] by (simp add: step)
qed

lemma refund_all_order:
  assumes "mset ds = mset es" and "\<And>k c. total dkey dcount ds k c \<le> amt u k c" and "invar u"
  shows "same (fold refund ds u) (fold refund es u)"
  using assms(2) total_mset [OF assms(1), of dkey dcount]
  by (intro amt_ext invar_refund_all assms(3)) (simp add: amt_refund_all)

text \<open>A charge is anything that adds a total; refunding it gives back the usage before.\<close>

lemma refund_charge:
  assumes "\<And>k c. amt v k c = amt u k c + total dkey dcount ds k c" and "invar u" and "invar v"
  shows "same (fold refund (rev ds) v) u"
  by (intro amt_ext invar_refund_all assms) (simp add: amt_refund_all assms(1))

end

subsection \<open>The two refunds of the code\<close>

lemma usage_of_simps [simp]:
  "usage_of (AList.update k u m) k' = (if k' = k then u else usage_of m k')"
  "usage_of (AList.delete k m) k' = (if k' = k then \<lparr>us_actions = 0, us_quantity = 0\<rparr> else usage_of m k')"
  by (auto simp: usage_of_def map_simps)

lemma amount_update [simp]:
  "amount (AList.update k u m) k' c = (if k' = k then counter_of u c else amount m k' c)"
  by (simp add: amount_def)

lemma count_zero [simp]: "counter_of \<lparr>us_actions = 0, us_quantity = 0\<rparr> c = 0"
  by (cases c) auto

lemma amount_delete [simp]:
  "amount (AList.delete k m) k' c = (if k' = k then 0 else amount m k' c)"
  by (simp add: amount_def)

lemma count_sub:
  assumes "\<And>c. delta_count d c \<le> counter_of u c"
  shows "counter_of \<lparr>us_actions = us_actions u - dl_actions d, us_quantity = us_quantity u - dl_quantity d\<rparr> c
    = counter_of u c - delta_count d c"
  using assms [of Actions] assms [of Quantity] by (cases c) (auto simp: unat_minus_le word_le_nat_alt)

lemma usage_ok_iff:
  "usage_ok m \<longleftrightarrow> map_ok m \<and> (\<forall>k u. map_of m k = Some u \<longrightarrow> us_actions u \<noteq> 0 \<or> us_quantity u \<noteq> 0)"
proof (cases "map_ok m")
  case True
  then have "map_of m k = Some u \<longleftrightarrow> (k, u) \<in> set m" for k u by simp
  with True show ?thesis by (simp only: usage_ok_def list_all_iff) (auto split: prod.splits)
qed (simp add: usage_ok_def)

lemma usage_ok_update: "usage_ok m \<Longrightarrow> us_actions u \<noteq> 0 \<or> us_quantity u \<noteq> 0 \<Longrightarrow> usage_ok (AList.update k u m)"
  by (simp add: usage_ok_iff gm.invar_put gm.get_put)

lemma usage_ok_delete: "usage_ok m \<Longrightarrow> usage_ok (AList.delete k m)"
  by (simp add: usage_ok_iff gm.invar_del gm.get_del)

lemma usage_ok_ext:
  assumes "usage_ok m" "usage_ok n" "\<And>k c. amount m k c = amount n k c"
  shows "map_of m = map_of n"
proof
  fix k
  have eq: "usage_of m k = usage_of n k"
    using assms(3) [of k Actions] assms(3) [of k Quantity] by (simp add: amount_def word_unat_eq_iff)
  have nz: "us_actions u \<noteq> 0 \<or> us_quantity u \<noteq> 0" if "map_of l k = Some u" "usage_ok l" for l u
    using that by (simp add: usage_ok_iff)
  show "map_of m k = map_of n k"
    using eq nz assms(1,2) by (fastforce simp: usage_of_def split: option.splits)
qed

text \<open>The body of the loop in \<open>snapshotState\<close>, which subtracts with wrap-around.\<close>

definition snapshot_delta :: "budget_delta \<Rightarrow> (string, budget_usage) gomap \<Rightarrow> (string, budget_usage) gomap" where
  "snapshot_delta d usage =
     (let current = usage_of usage (dl_key d);
          next = \<lparr>us_actions = us_actions current - dl_actions d, us_quantity = us_quantity current - dl_quantity d\<rparr>
      in if us_actions next = 0 \<and> us_quantity next = 0 then AList.delete (dl_key d) usage
         else AList.update (dl_key d) next usage)"

definition same_usage :: "(string, budget_usage) gomap \<Rightarrow> (string, budget_usage) gomap \<Rightarrow> bool" where
  "same_usage u v \<longleftrightarrow> map_of u = map_of v"

lemma zero_usage: "us_actions u = 0 \<Longrightarrow> us_quantity u = 0 \<Longrightarrow> counter_of u c = 0"
  by (cases c) auto

lemma amount_snapshot_delta:
  assumes "\<And>c. delta_count d c \<le> amount u (dl_key d) c"
  shows "amount (snapshot_delta d u) k c = amount u k c - (if k = dl_key d then delta_count d c else 0)"
proof -
  define next' where "next' = \<lparr>us_actions = us_actions (usage_of u (dl_key d)) - dl_actions d,
    us_quantity = us_quantity (usage_of u (dl_key d)) - dl_quantity d\<rparr>"
  have "counter_of next' c = amount u (dl_key d) c - delta_count d c" for c
    unfolding next'_def amount_def using assms by (intro count_sub) (simp add: amount_def)
  moreover have "amount (snapshot_delta d u) k c = (if k = dl_key d then counter_of next' c else amount u k c)"
    using zero_usage [of next' c] unfolding snapshot_delta_def Let_def next'_def [symmetric] by auto
  ultimately show ?thesis by simp
qed

lemma rollback_is_snapshot:
  assumes "\<And>c. delta_count d c \<le> amount u (dl_key d) c"
  shows "rollback_delta d u = snapshot_delta d u"
  using assms [of Actions] assms [of Quantity]
  by (simp add: rollback_delta_def snapshot_delta_def Let_def amount_def word_less_nat_alt)

lemma usage_ok_snapshot_delta: "usage_ok u \<Longrightarrow> usage_ok (snapshot_delta d u)"
  by (auto simp: snapshot_delta_def Let_def intro!: usage_ok_update usage_ok_delete)

lemma usage_ok_rollback_delta: "usage_ok u \<Longrightarrow> usage_ok (rollback_delta d u)"
  by (auto simp: rollback_delta_def Let_def intro!: usage_ok_update usage_ok_delete)

interpretation rb: ledger amount dl_key delta_count rollback_delta usage_ok same_usage
proof unfold_locales
  show "amount (rollback_delta d u) k c = amount u k c - (if k = dl_key d then delta_count d c else 0)"
    if "\<And>c. delta_count d c \<le> amount u (dl_key d) c" for d u k c
    using rollback_is_snapshot [OF that] amount_snapshot_delta [OF that] by simp
qed (auto simp: same_usage_def intro: usage_ok_rollback_delta usage_ok_ext)

interpretation sn: ledger amount dl_key delta_count snapshot_delta usage_ok same_usage
proof unfold_locales
  show "amount (snapshot_delta d u) k c = amount u k c - (if k = dl_key d then delta_count d c else 0)"
    if "\<And>c. delta_count d c \<le> amount u (dl_key d) c" for d u k c
    using amount_snapshot_delta [OF that] .
qed (auto simp: same_usage_def intro: usage_ok_snapshot_delta usage_ok_ext)

subsection \<open>What \<open>reserveBudgets\<close> charges\<close>

definition matched_effects :: "budget \<Rightarrow> bound_action \<Rightarrow> policy_context \<Rightarrow> effect list" where
  "matched_effects b a cx = filter (\<lambda>e. budgetMatches b e a cx) (ba_Effects a)"

definition effect_total :: "effect list \<Rightarrow> nat" where
  "effect_total es = (\<Sum>e \<leftarrow> es. unat (ef_Quantity e))"

text \<open>The usage key of a budget (its identifier alone where the window has another clock and there is no key).\<close>

definition budget_key :: "go_env \<Rightarrow> bound_action \<Rightarrow> policy_context \<Rightarrow> budget \<Rightarrow> string" where
  "budget_key env a cx b = (case makeBudgetKey env b a cx of Inl _ \<Rightarrow> bg_BudgetID b | Inr (key, _) \<Rightarrow> key)"

text \<open>The specification: one action and the total of the matching quantities for every budget that matches.\<close>

definition charges :: "go_env \<Rightarrow> bound_action \<Rightarrow> policy_context \<Rightarrow> budget list \<Rightarrow> budget_delta list" where
  "charges env a cx bs =
     map (\<lambda>b. \<lparr>dl_key = budget_key env a cx b, dl_actions = 1,
               dl_quantity = word_of_nat (effect_total (matched_effects b a cx))\<rparr>)
       (filter (\<lambda>b. matched_effects b a cx \<noteq> []) bs)"

definition within_budget :: "(string, budget_usage) gomap \<Rightarrow> string \<Rightarrow> budget \<Rightarrow> bool" where
  "within_budget usage key b \<longleftrightarrow>
     (bg_MaxActions b \<noteq> 0 \<longrightarrow> amount usage key Actions \<le> unat (bg_MaxActions b))
     \<and> (bg_MaxQuantity b \<noteq> 0 \<longrightarrow> amount usage key Quantity \<le> unat (bg_MaxQuantity b))"

lemma effect_total_filter: "effect_total (filter P es) \<le> effect_total es"
  by (induction es) (auto simp: effect_total_def)

lemma matched_quantity_total:
  assumes "unat q + effect_total (filter (\<lambda>e. budgetMatches b e a cx) es) < 2 ^ 64"
  shows "matched_quantity b a cx m q es =
    Some (m \<or> filter (\<lambda>e. budgetMatches b e a cx) es \<noteq> [],
          q + word_of_nat (effect_total (filter (\<lambda>e. budgetMatches b e a cx) es)))"
  using assms
proof (induction es arbitrary: m q)
  case Nil
  then show ?case by (simp add: effect_total_def)
next
  case (Cons e es)
  show ?case
  proof (cases "budgetMatches b e a cx")
    case False
    then show ?thesis using Cons by simp
  next
    case True
    then have bound: "unat q + unat (ef_Quantity e) < 2 ^ 64" using Cons.prems by (simp add: effect_total_def)
    then have "\<not> - 1 - q < ef_Quantity e" by (simp add: max_minus_less_iff)
    moreover have "unat (q + ef_Quantity e) = unat q + unat (ef_Quantity e)"
      using bound by (simp add: unat_plus_no_wrap)
    ultimately show ?thesis using Cons.IH [of "q + ef_Quantity e" True] True Cons.prems
      by (simp add: effect_total_def algebra_simps)
  qed
qed

lemma matched_quantity_action:
  assumes "effect_total (ba_Effects a) < 2 ^ 64"
  shows "matched_quantity b a cx False 0 (ba_Effects a) =
    Some (matched_effects b a cx \<noteq> [], word_of_nat (effect_total (matched_effects b a cx)))"
proof -
  have "unat (0 :: u64) + effect_total (filter (\<lambda>e. budgetMatches b e a cx) (ba_Effects a)) < 2 ^ 64"
    using le_less_trans [OF effect_total_filter assms] by simp
  from matched_quantity_total [OF this] show ?thesis by (simp add: matched_effects_def)
qed

text \<open>One charge: behind the overflow checks both counters grow without wrapping.\<close>

lemma charge_counts:
  assumes "\<not> (us_actions u = - 1 \<or> - 1 - us_quantity u < q)"
  shows "unat (us_actions u + 1) = unat (us_actions u) + 1" "unat (us_quantity u + q) = unat (us_quantity u) + unat q"
proof -
  show "unat (us_actions u + 1) = unat (us_actions u) + 1"
    using assms by (metis add.commute eq_neg_iff_add_eq_0 Suc_eq_plus1 unatSuc)
  show "unat (us_quantity u + q) = unat (us_quantity u) + unat q"
    using assms by (intro unat_plus_no_wrap) (simp add: max_minus_less_iff)
qed

lemma unat_ucast_u32: "unat (ucast (x :: u32) :: u64) = unat x"
proof -
  have "unat x < 2 ^ 32" using unsigned_less [of x] by simp
  then have "unat x < 2 ^ 64" by simp
  then show ?thesis by (simp add: unsigned_ucast_eq take_bit_nat_eq_self)
qed

lemma not_exceeded_iff:
  "\<not> budget_exceeded b u \<longleftrightarrow>
     (bg_MaxActions b \<noteq> 0 \<longrightarrow> unat (us_actions u) \<le> unat (bg_MaxActions b))
     \<and> (bg_MaxQuantity b \<noteq> 0 \<longrightarrow> unat (us_quantity u) \<le> unat (bg_MaxQuantity b))"
  unfolding budget_exceeded_def by (auto simp: word_less_nat_alt unat_ucast_u32 word_neq_0_conv)

definition next_usage :: "budget_usage \<Rightarrow> u64 \<Rightarrow> budget_usage" where
  "next_usage u q = \<lparr>us_actions = us_actions u + 1, us_quantity = us_quantity u + q\<rparr>"

lemma amount_charge:
  assumes "\<not> (us_actions (usage_of usage (dl_key d)) = - 1 \<or> - 1 - us_quantity (usage_of usage (dl_key d)) < dl_quantity d)"
    and "dl_actions d = 1"
  shows "amount (AList.update (dl_key d) (next_usage (usage_of usage (dl_key d)) (dl_quantity d)) usage) k c
    = amount usage k c + delta_total [d] k c"
  using charge_counts [OF assms(1)] assms(2) by (cases c) (auto simp: next_usage_def amount_def)

lemma usage_ok_charge:
  assumes "usage_ok usage" and "us_actions (usage_of usage k) \<noteq> - 1"
  shows "usage_ok (AList.update k (next_usage (usage_of usage k) q) usage)"
proof -
  have "us_actions (usage_of usage k) + 1 \<noteq> 0" using assms(2) by (metis eq_neg_iff_add_eq_0)
  then show ?thesis using assms(1) by (simp add: usage_ok_update next_usage_def)
qed

text \<open>
  What the loop has done when it stops: all charges of the remaining budgets were added, each within its budget, or
  the charges made so far were all taken back.
\<close>

definition reserve_post ::
  "go_env \<Rightarrow> bound_action \<Rightarrow> policy_context \<Rightarrow> budget list \<Rightarrow> budget_delta list
     \<Rightarrow> (string, budget_usage) gomap \<Rightarrow> reserve_result \<Rightarrow> (string, budget_usage) gomap \<Rightarrow> bool" where
  "reserve_post env a cx bs deltas usage r usage' \<longleftrightarrow>
     usage_ok usage' \<and>
     (case r of
        Reserved limits ds \<Rightarrow> ds = deltas @ charges env a cx bs
          \<and> (\<forall>k c. amount usage' k c = amount usage k c + delta_total (charges env a cx bs) k c)
          \<and> (\<forall>b \<in> set bs. matched_effects b a cx \<noteq> [] \<longrightarrow> within_budget usage' (budget_key env a cx b) b)
      | _ \<Rightarrow> (\<forall>k c. amount usage' k c = amount usage k c - delta_total deltas k c))"

lemma charges_Cons:
  "charges env a cx (b # bs) =
     (if matched_effects b a cx = [] then charges env a cx bs
      else \<lparr>dl_key = budget_key env a cx b, dl_actions = 1,
            dl_quantity = word_of_nat (effect_total (matched_effects b a cx))\<rparr> # charges env a cx bs)"
  by (simp add: charges_def)

lemma delta_total_absent: "k \<notin> dl_key ` set ds \<Longrightarrow> delta_total ds k c = 0"
  by (induction ds) auto

text \<open>The loop body for a budget that matches and has a key, with the charge named.\<close>

definition charge_of :: "bound_action \<Rightarrow> policy_context \<Rightarrow> budget \<Rightarrow> string \<Rightarrow> budget_delta" where
  "charge_of a cx b key = \<lparr>dl_key = key, dl_actions = 1,
     dl_quantity = word_of_nat (effect_total (matched_effects b a cx))\<rparr>"

lemma reserve_loop_charge:
  assumes "effect_total (ba_Effects a) < 2 ^ 64" and "matched_effects b a cx \<noteq> []"
    and "makeBudgetKey env b a cx = Inr (key, pub)"
  shows "reserve_loop env a cx base (b # bs) limits deltas usage =
    (let d = charge_of a cx b key; cur = usage_of usage key; q = dl_quantity d in
     if us_actions cur = - 1 \<or> - 1 - us_quantity cur < q
     then (ReserveError (PolicyError ''policy budget usage overflow''), rollbackDeltas deltas usage)
     else if budget_exceeded b (next_usage cur q)
     then (ReserveDenied (denyDecision base (bg_BudgetID b) ''policy.budget_exceeded''
             ''The action would exceed an active gameplay budget.''), rollbackDeltas deltas usage)
     else reserve_loop env a cx base bs (limits @ [make_limit b pub (next_usage cur q)]) (deltas @ [d])
            (AList.update key (next_usage cur q) usage))"
  using matched_quantity_action [OF assms(1), of b cx] assms(2,3)
  by (simp add: charge_of_def next_usage_def Let_def)

lemma reserve_post_rolled:
  assumes "usage' = rollbackDeltas deltas usage" and "\<And>l ds. r \<noteq> Reserved l ds"
    and "usage_ok usage" and "\<And>k c. delta_total deltas k c \<le> amount usage k c"
  shows "reserve_post env a cx bs deltas usage r usage'"
  using assms rb.amt_refund_all [of "rev deltas" usage]
  by (auto simp: reserve_post_def rollbackDeltas_def rb.invar_refund_all split: reserve_result.splits)

lemma reserve_post_charged:
  assumes "reserve_post env a cx bs (deltas @ [d]) usage1 r usage'"
    and "d = charge_of a cx b key" and "matched_effects b a cx \<noteq> []" and "budget_key env a cx b = key"
    and "usage1 = AList.update key (next_usage cur (dl_quantity d)) usage"
    and "\<And>k c. amount usage1 k c = amount usage k c + delta_total [d] k c"
    and "\<not> budget_exceeded b (next_usage cur (dl_quantity d))" and "key \<notin> dl_key ` set (charges env a cx bs)"
    and "\<And>k c. delta_total deltas k c \<le> amount usage k c"
  shows "reserve_post env a cx (b # bs) deltas usage r usage'"
proof -
  have "within_budget usage' key b" if "r = Reserved l ds" for l ds
    using assms(1,5,7) that delta_total_absent [OF assms(8)]
    by (auto simp: reserve_post_def within_budget_def not_exceeded_iff next_usage_def)
  then show ?thesis using assms(1-4,6,9)
    by (auto simp: reserve_post_def charges_Cons charge_of_def split: reserve_result.splits)
qed

lemma reserve_loop_post:
  assumes "effect_total (ba_Effects a) < 2 ^ 64"
    and "reserve_loop env a cx base bs limits deltas usage = (r, usage')"
    and "usage_ok usage" and "\<And>k c. delta_total deltas k c \<le> amount usage k c"
    and "distinct (map dl_key (charges env a cx bs))"
  shows "reserve_post env a cx bs deltas usage r usage'"
  using assms(2-5)
proof (induction bs arbitrary: limits deltas usage)
  case Nil
  then show ?case by (auto simp: reserve_post_def charges_def)
next
  case (Cons b bs)
  note mq = matched_quantity_action [OF assms(1), of b cx]
  note rolled = reserve_post_rolled [OF _ _ Cons.prems(2,3)]
  consider "matched_effects b a cx = []" | e where "matched_effects b a cx \<noteq> []" "makeBudgetKey env b a cx = Inl e"
    | key pub where "matched_effects b a cx \<noteq> []" "makeBudgetKey env b a cx = Inr (key, pub)"
    by (cases "makeBudgetKey env b a cx") auto
  then show ?case
  proof cases
    case 1
    then show ?thesis using Cons.IH [of limits deltas usage] Cons.prems mq
      by (auto simp: reserve_post_def charges_Cons split: reserve_result.splits)
  next
    case 2
    then show ?thesis using Cons.prems(1) mq by (intro rolled) auto
  next
    case 3
    define cur where "cur = usage_of usage key"
    define d where "d = charge_of a cx b key"
    note eq = reserve_loop_charge [OF assms(1) 3, of base bs limits deltas usage, folded cur_def d_def]
    have key: "budget_key env a cx b = key" "dl_key d = key" "dl_actions d = 1"
      using 3 by (simp_all add: budget_key_def d_def charge_of_def)
    show ?thesis
    proof (cases "(us_actions cur = - 1 \<or> - 1 - us_quantity cur < dl_quantity d) \<or> budget_exceeded b (next_usage cur (dl_quantity d))")
      case True
      then show ?thesis using Cons.prems(1) eq by (intro rolled) (auto simp: Let_def split: if_splits)
    next
      case ok: False
      define usage1 where "usage1 = AList.update key (next_usage cur (dl_quantity d)) usage"
      have amt: "amount usage1 k c = amount usage k c + delta_total [d] k c" for k c
        using amount_charge [of usage d k c] ok key by (simp add: usage1_def cur_def)
      have uok: "usage_ok usage1"
        using usage_ok_charge [of usage key] Cons.prems(2) ok by (simp add: usage1_def cur_def)
      have dist: "key \<notin> dl_key ` set (charges env a cx bs)" "distinct (map dl_key (charges env a cx bs))"
        using Cons.prems(4) 3 by (auto simp: charges_Cons key)
      have "reserve_post env a cx bs (deltas @ [d]) usage1 r usage'"
        using Cons.IH [of _ "deltas @ [d]" usage1] Cons.prems(1,3) eq ok uok amt dist(2)
        by (simp add: Let_def usage1_def)
      from reserve_post_charged [OF this d_def 3(1) key(1) usage1_def amt _ dist(1) Cons.prems(3)] ok
      show ?thesis by simp
    qed
  qed
qed

subsection \<open>Budget keys\<close>

lemma budget_key_form: "budget_key env a cx b = bg_BudgetID b \<or> (\<exists>rest. budget_key env a cx b = bg_BudgetID b @ NUL # rest)"
  by (auto simp: budget_key_def makeBudgetKey_def Let_def)

lemma budget_key_inj:
  assumes "NUL \<notin> set (bg_BudgetID b)" "NUL \<notin> set (bg_BudgetID b')" "budget_key env a cx b = budget_key env a cx b'"
  shows "bg_BudgetID b = bg_BudgetID b'"
proof -
  have prefix: "takeWhile (\<lambda>c. c \<noteq> NUL) (budget_key env a cx b) = bg_BudgetID b" if "NUL \<notin> set (bg_BudgetID b)" for b
  proof -
    have "takeWhile (\<lambda>c. c \<noteq> NUL) (bg_BudgetID b @ xs) = bg_BudgetID b @ takeWhile (\<lambda>c. c \<noteq> NUL) xs" for xs
      using that by (intro takeWhile_append2) auto
    then show ?thesis using budget_key_form [of env a cx b] that by (auto simp: takeWhile_eq_all_conv)
  qed
  show ?thesis using prefix [of b] prefix [of b'] assms by simp
qed

lemma sealed_budget_ids:
  assumes "SealConfig c = Inr s" and "b \<in> set (pc_Budgets s)"
  shows "id_pattern (bg_BudgetID b)" "NUL \<notin> set (bg_BudgetID b)" "length (bg_BudgetID b) \<le> 96"
    "CHR ''.'' \<in> set (bg_BudgetID b)"
proof -
  have "budget_ok b" using SealConfig_facts(4) [OF assms(1)] assms(2) normalizeBudget_ok by blast
  then show "id_pattern (bg_BudgetID b)" "NUL \<notin> set (bg_BudgetID b)" "length (bg_BudgetID b) \<le> 96"
    "CHR ''.'' \<in> set (bg_BudgetID b)"
    by (auto simp: budget_ok_def validateID_def NUL_notin_id split: if_splits)
qed

lemma charges_distinct:
  assumes "SealConfig c = Inr s"
  shows "distinct (map dl_key (charges env a cx (pc_Budgets s)))"
proof -
  have "distinct (map (budget_key env a cx) bs)"
    if "distinct (map bg_BudgetID bs)" "\<forall>b \<in> set bs. NUL \<notin> set (bg_BudgetID b)" for bs
    using that by (induction bs) (auto dest: budget_key_inj)
  then have "distinct (map (budget_key env a cx) (pc_Budgets s))"
    using SealConfig_facts(2) [OF assms] sealed_budget_ids(2) [OF assms] by blast
  then show ?thesis by (auto simp: charges_def comp_def intro: distinct_map_filter)
qed

lemma effect_total_bound: "ValidateBoundAction env a = None \<Longrightarrow> effect_total (ba_Effects a) < 2 ^ 64"
  using bound_action_quantity_total by (simp add: effect_total_def)

text \<open>
  \<open>reserveBudgets\<close> on a valid binding and a sealed revision: it charges every matching budget within its limit, or
  leaves the usage as it was, on every path.
\<close>

lemma reserveBudgets_post:
  assumes "ValidateBoundAction env a = None" and "SealConfig c = Inr config" and "usage_ok (en_usage en)"
    and "reserveBudgets env en a cx config base = (r, en')"
  shows "reserve_post env a cx (pc_Budgets config) [] (en_usage en) r (en_usage en')"
    and "en' = en\<lparr>en_usage := en_usage en'\<rparr>"
proof -
  obtain u where u: "reserve_loop env a cx base (pc_Budgets config) [] [] (en_usage en) = (r, u)" "en' = en\<lparr>en_usage := u\<rparr>"
    using assms(4) by (auto simp: reserveBudgets_def split: prod.splits)
  show "reserve_post env a cx (pc_Budgets config) [] (en_usage en) r (en_usage en')"
    using reserve_loop_post [OF effect_total_bound [OF assms(1)] u(1) assms(3) _ charges_distinct [OF assms(2)]] u(2)
    by simp
  show "en' = en\<lparr>en_usage := en_usage en'\<rparr>" using u(2) by simp
qed

end
