(* ===== verification/Policy_Samples.thy ===== *)
theory Policy_Samples
  imports Policy_Engine
begin

section \<open>A concrete environment and concrete actions\<close>

text \<open>
  An environment that knows only the empty JSON object and a constant digest, two effects (a spending, which the
  sample policy allows within a budget, and a gift, which needs a confirmation), the bindings of one effect, a
  request context, and the engine with the sample policy. They instantiate the theorems of the policy theories.
\<close>

definition sample_digest :: string where
  "sample_digest = replicate 64 CHR ''a''"

definition sample_env :: go_env where
  "sample_env = \<lparr>
     jsonwire_Validate = (\<lambda>_. None),
     json_decode = (\<lambda>_. Inr (JObject [])),
     json_trailing = (\<lambda>_. None),
     json_decode_raw_object = (\<lambda>_. Some []),
     json_marshal = (\<lambda>_. Inr ''{}''),
     json_marshal_raw_object = (\<lambda>_. Inr ''{}''),
     marshal_request = (\<lambda>_. Inr ''{}''),
     marshal_effects = (\<lambda>_. Inr ''[]''),
     marshal_bound_action = (\<lambda>_. Inr ''{}''),
     marshal_capability_spec = (\<lambda>_. Inr ''{}''),
     marshal_observation = (\<lambda>_. Inr ''{}''),
     sha256Hex = (\<lambda>_. sample_digest),
     float_interoperable = (\<lambda>_. True),
     schema_compile = (\<lambda>_. None),
     schema_unmarshal = (\<lambda>_. Inr (JObject [])),
     schema_validate = (\<lambda>_ _. None)\<rparr>"

definition sample_epoch :: epoch where
  "sample_epoch = \<lparr>ep_SessionID = ''session'', ep_WorldID = ''world'', ep_Host = 1, ep_World = 1, ep_Timeline = 1\<rparr>"

definition sample_effect :: "string \<Rightarrow> u64 \<Rightarrow> effect" where
  "sample_effect kind quantity = \<lparr>ef_EffectID = ''effect'', ef_Kind = kind, ef_Operation = OperationConsume,
     ef_Subject = None, ef_Target = None, ef_Tags = [], ef_Ownership = OwnershipActor, ef_Scope = ''world.local'',
     ef_Quantity = quantity, ef_Unit = '''', ef_Reversible = False, ef_Risk = RiskLow, ef_Attributes = ''{}''\<rparr>"

definition sample_action :: "string \<Rightarrow> string \<Rightarrow> u64 \<Rightarrow> bound_action" where
  "sample_action binding kind quantity = \<lparr>ba_BindingID = binding, ba_RequestID = ''request'',
     ba_RequestDigest = sample_digest, ba_ControllerID = ''controller'', ba_ActorID = ''actor'',
     ba_Capability = CapabilityRef ''item.use'' ''1.0.0'', ba_SpecDigest = sample_digest,
     ba_NormalizedArguments = ''{}'', ba_RequestedTargets = [], ba_ResolvedTargets = [],
     ba_ExpectedEpoch = sample_epoch, ba_ObservationSeq = 1, ba_TaskID = '''', ba_PlanStep = None,
     ba_IdempotencyKey = ''key'', ba_Effects = [sample_effect kind quantity], ba_EffectDigest = sample_digest,
     ba_BoundAt = \<lparr>tp_Clock = ClockStep, tp_Value = 10\<rparr>, ba_ValidUntil = \<lparr>tp_Clock = ClockStep, tp_Value = 100\<rparr>\<rparr>"

definition sample_principal :: principal where
  "sample_principal = \<lparr>pr_ID = ''player'', pr_GrantedScopes = [''policy.confirm'']\<rparr>"

definition sample_context :: "string \<Rightarrow> policy_context" where
  "sample_context confirmation = \<lparr>cx_Now = \<lparr>tp_Clock = ClockStep, tp_Value = 20\<rparr>, cx_CurrentEpoch = sample_epoch,
     cx_Principal = sample_principal, cx_ServerID = ''server'', cx_OwnerID = '''', cx_EmergencyStopped = False,
     cx_ConfirmationID = confirmation\<rparr>"

definition sample_digest_of :: "policy_config \<Rightarrow> policy_error + string" where
  "sample_digest_of config = Inr sample_digest"

definition sample_engine :: engine where
  "sample_engine = \<lparr>en_config = sample_sealed, en_configDigest = sample_digest, en_challenges = [],
     en_challengeKeys = [], en_usage = [], en_reservations = [], en_authorizations = [], en_decisionKeys = []\<rparr>"

definition sample_hex :: string where
  "sample_hex = ''00112233445566778899aabbccddeeff''"

lemma sample_engine_New: "New sample_digest_of sample_config = Inr sample_engine"
  by (simp add: New_def seal_sample sample_digest_of_def sample_engine_def)

lemma sample_sealed: "SealConfig sample_sealed = Inr sample_sealed"
  by code_simp

lemma sample_action_valid: "ValidateBoundAction sample_env (sample_action ''binding'' ''item.spend'' 4) = None"
  by code_simp

lemma sample_context_valid: "validateContext (sample_context '''') = None"
  by code_simp

subsection \<open>A run of the sample engine\<close>

text \<open>
  A spending is allowed at once. A gift is first answered with a challenge; after its approval the same call with the
  challenge's identifier is allowed.
\<close>

abbreviation spend :: bound_action where
  "spend \<equiv> sample_action ''binding'' ''item.spend'' 4"

abbreviation gift :: bound_action where
  "gift \<equiv> sample_action ''binding.gift'' ''item.gift'' 1"

definition sample_challengeID :: string where
  "sample_challengeID = ''confirmation.'' @ sample_hex"

definition sample_spent :: engine where
  "sample_spent = snd (Evaluate sample_env sample_engine spend (sample_context '''') (Some sample_hex) None)"

definition sample_asked :: engine where
  "sample_asked = snd (Evaluate sample_env sample_engine gift (sample_context '''') (Some sample_hex) (Some sample_hex))"

definition sample_approved :: engine where
  "sample_approved = snd (Approve sample_asked sample_challengeID sample_principal (cx_Now (sample_context '''')))"

definition sample_given :: engine where
  "sample_given = snd (Evaluate sample_env sample_approved gift (sample_context sample_challengeID) (Some sample_hex) None)"

definition returns_result :: "(policy_error + decision) \<Rightarrow> policy_result \<Rightarrow> bool" where
  "returns_result r res = (case r of Inl _ \<Rightarrow> False | Inr d \<Rightarrow> de_Result d = res)"

lemma returns_resultE: "returns_result (fst p) res \<Longrightarrow> \<exists>d. p = (Inr d, snd p) \<and> de_Result d = res"
  by (cases p) (auto simp: returns_result_def split: sum.splits)

lemma sample_spend_allowed:
  "\<exists>d. Evaluate sample_env sample_engine spend (sample_context '''') (Some sample_hex) None = (Inr d, sample_spent)
     \<and> de_Result d = Allow"
  unfolding sample_spent_def by (rule returns_resultE) code_simp

text \<open>The engine after the spending as a value, so that later evaluations start from it.\<close>

lemma sample_spent_value [code]:
  "sample_spent = (let i = ''decision.'' @ sample_hex;
       usage = nul_join [''budget.gold'', ''actor'', ''session'', ''world'', ''1'', ''1'', ''1'', ''epoch''];
       key = nul_join [''binding'', sample_digest, sample_digest, ''player'', ''server'', '''', ''session'', ''1'', ''1'', ''1'', ''1''];
       allowed = \<lparr>de_DecisionID = i, de_Result = Allow, de_ControllerID = ''controller'', de_ActorID = ''actor'', de_PrincipalID = ''player'',
         de_EffectDigest = sample_digest, de_PolicyRevision = 1, de_MatchedRuleIDs = [''rule.spend''], de_ReasonCode = ''policy.rule'',
         de_HumanSummary = ''rule'', de_EffectiveLimits = [\<lparr>el_BudgetID = ''budget.gold'', el_UsageKey = ''budget.gold.'' @ replicate 16 CHR ''a'',
           el_MaxActions = 2, el_ActionsUsed = 1, el_ActionsRemaining = 1, el_MaxQuantity = 10, el_QuantityUsed = 4, el_QuantityRemaining = 6\<rparr>],
         de_Confirmation = None, de_EvaluatedAt = \<lparr>tp_Clock = ClockStep, tp_Value = 20\<rparr>\<rparr> in
     sample_engine\<lparr>en_usage := [(usage, \<lparr>us_actions = 1, us_quantity = 4\<rparr>)],
       en_reservations := [(i, [\<lparr>dl_key = usage, dl_actions = 1, dl_quantity = 4\<rparr>])],
       en_authorizations := [(key, \<lparr>au_decision = allowed, au_confirmationID = '''', au_finalized = False\<rparr>)],
       en_decisionKeys := [(i, key)]\<rparr>)"
  by code_simp

lemma sample_gift_asked:
  "\<exists>d. Evaluate sample_env sample_engine gift (sample_context '''') (Some sample_hex) (Some sample_hex)
      = (Inr d, sample_asked) \<and> de_Result d = RequireConfirmation"
  unfolding sample_asked_def by (rule returns_resultE) code_simp

lemma sample_gift_approved:
  "\<exists>ch. Approve sample_asked sample_challengeID sample_principal (cx_Now (sample_context '''')) = (Inr ch, sample_approved)"
proof -
  have "\<not> isl (fst (Approve sample_asked sample_challengeID sample_principal (cx_Now (sample_context ''''))))" by code_simp
  then show ?thesis unfolding sample_approved_def by (metis prod.collapse sum.collapse(2))
qed

lemma sample_gift_allowed:
  "\<exists>d. Evaluate sample_env sample_approved gift (sample_context sample_challengeID) (Some sample_hex) None
      = (Inr d, sample_given) \<and> de_Result d = Allow"
  unfolding sample_given_def by (rule returns_resultE) code_simp

end
