(* ===== verification/Policy_Verdict.thy ===== *)
theory Policy_Verdict
  imports Policy_Samples
begin

section \<open>How the verdicts on the effects of an action combine\<close>

text \<open>
  \<open>evaluateGameplay\<close> folds over the effects and the rules of a revision and keeps the first verdict of the greatest
  severity. The locale \<open>severity_fold\<close> proves this once for every accumulator that keeps a candidate and replaces it
  only by a strictly more severe one; it is interpreted on \<open>select_verdict\<close>. The specification is the list of all
  verdicts on the action, in the order of its effects and of the rules.
\<close>

locale severity_fold =
  fixes rank :: "'w \<Rightarrow> int"
    and view :: "'v \<Rightarrow> 'w"
    and step :: "'v \<Rightarrow> 's \<Rightarrow> 's"
    and chosen :: "'s \<Rightarrow> 'w option"
  assumes chosen_step: "chosen (step v s) =
      (case chosen s of None \<Rightarrow> Some (view v) | Some w \<Rightarrow> if rank (view v) > rank w then Some (view v) else Some w)"
begin

definition leads :: "'v list \<Rightarrow> 'w \<Rightarrow> bool" where
  "leads vs w \<longleftrightarrow> (\<exists>pre v post. vs = pre @ v # post \<and> w = view v
     \<and> (\<forall>u \<in> set pre. rank (view u) < rank w) \<and> (\<forall>u \<in> set post. rank (view u) \<le> rank w))"

lemma leads_intro:
  "\<forall>u \<in> set pre. rank (view u) < rank (view v) \<Longrightarrow> \<forall>u \<in> set post. rank (view u) \<le> rank (view v)
     \<Longrightarrow> leads (pre @ v # post) (view v)"
  unfolding leads_def by blast

lemma leads_snoc_keep:
  assumes "leads vs w" and "rank (view u) \<le> rank w"
  shows "leads (vs @ [u]) w"
proof -
  obtain pre v post where "vs = pre @ v # post" "w = view v"
    "\<forall>u \<in> set pre. rank (view u) < rank w" "\<forall>u \<in> set post. rank (view u) \<le> rank w"
    using assms(1) unfolding leads_def by blast
  then show ?thesis using leads_intro [of pre v "post @ [u]"] assms(2) by simp
qed

lemma leads_bound: "leads vs w \<Longrightarrow> u \<in> set vs \<Longrightarrow> rank (view u) \<le> rank w"
  unfolding leads_def by force

lemma leads_snoc_new:
  assumes "leads vs w" and "rank w < rank (view u)"
  shows "leads (vs @ [u]) (view u)"
proof -
  have "\<forall>x \<in> set vs. rank (view x) < rank (view u)" using leads_bound [OF assms(1)] assms(2) by fastforce
  then show ?thesis using leads_intro [of vs u "[]"] by simp
qed

lemma chosen_fold:
  assumes "chosen s = None" and "vs \<noteq> []"
  shows "\<exists>w. chosen (fold step vs s) = Some w \<and> leads vs w"
  using assms(2)
proof (induction vs rule: rev_nonempty_induct)
  case (single v)
  then show ?case using assms(1) leads_intro [of "[]" v "[]"] by (simp add: chosen_step)
next
  case (snoc v vs)
  then obtain w where "chosen (fold step vs s) = Some w" "leads vs w" by blast
  then show ?case by (auto simp: chosen_step intro: leads_snoc_keep leads_snoc_new)
qed

end

text \<open>What \<open>evaluateGameplay\<close> keeps of a verdict: its result, reason and summary.\<close>

definition gp_chosen :: "gameplay \<Rightarrow> (policy_result \<times> string \<times> string) option" where
  "gp_chosen g = (if gp_selected g then Some (gp_result g, gp_reason g, gp_summary g) else None)"

definition verdict_view :: "effect_decision \<Rightarrow> policy_result \<times> string \<times> string" where
  "verdict_view v = (ed_result v, ed_reasonCode v, ed_summary v)"

interpretation gp: severity_fold "\<lambda>w. resultRank (fst w)" verdict_view select_verdict gp_chosen
  by unfold_locales (simp add: gp_chosen_def verdict_view_def select_verdict_def Let_def)

subsection \<open>The verdicts on an action\<close>

text \<open>
  The kernel's verdict excludes all others; then every matching rule gives one; the profile decides where no rule
  matches.
\<close>

definition effect_verdicts :: "policy_config \<Rightarrow> bound_action \<Rightarrow> policy_context \<Rightarrow> effect \<Rightarrow> effect_decision list" where
  "effect_verdicts config a cx e =
     (case kernelDecision config e of
        Some v \<Rightarrow> [v]
      | None \<Rightarrow>
          (case [rule_verdict r. r \<leftarrow> pc_Rules config, ruleMatches r e a cx] of
             [] \<Rightarrow> [profileDecision (pc_Profile config) e]
           | vs \<Rightarrow> vs))"

definition action_verdicts :: "policy_config \<Rightarrow> bound_action \<Rightarrow> policy_context \<Rightarrow> effect_decision list" where
  "action_verdicts config a cx = concat (map (effect_verdicts config a cx) (ba_Effects a))"

lemma rules_filter: "[rule_verdict r. r \<leftarrow> rs, P r] = map rule_verdict (filter P rs)"
  by (induction rs) auto

lemma evaluate_effect_fold: "evaluate_effect config a cx e g = fold select_verdict (effect_verdicts config a cx e) g"
proof (cases "kernelDecision config e")
  case None
  show ?thesis
    by (cases "filter (\<lambda>r. ruleMatches r e a cx) (pc_Rules config)")
      (simp_all add: evaluate_effect_def effect_verdicts_def rules_filter None fold_map comp_def)
qed (simp add: evaluate_effect_def effect_verdicts_def)

definition gameplay_start :: gameplay where
  "gameplay_start = \<lparr>gp_result = Allow, gp_matched = [], gp_reason = ''policy.allowed'',
     gp_summary = ''All Host-bound effects are allowed by the active gameplay policy.'', gp_selected = False\<rparr>"

lemma evaluateGameplay_fold:
  "evaluateGameplay config a cx = fold select_verdict (action_verdicts config a cx) gameplay_start"
proof -
  have "fold (evaluate_effect config a cx) es g =
      fold select_verdict (concat (map (effect_verdicts config a cx) es)) g" for es g
    by (induction es arbitrary: g) (simp_all add: evaluate_effect_fold)
  then show ?thesis by (simp add: evaluateGameplay_def action_verdicts_def gameplay_start_def)
qed

lemma effect_verdicts_nonempty: "effect_verdicts config a cx e \<noteq> []"
  by (auto simp: effect_verdicts_def split: option.splits list.splits)

lemma action_verdicts_nonempty: "ba_Effects a \<noteq> [] \<Longrightarrow> action_verdicts config a cx \<noteq> []"
  using effect_verdicts_nonempty by (cases "ba_Effects a") (auto simp: action_verdicts_def)

lemma matched_fold: "gp_matched (fold select_verdict vs g) = fold (\<lambda>v ids. appendUnique ids (ed_ruleID v)) vs (gp_matched g)"
  by (induction vs arbitrary: g) (simp_all add: select_verdict_def Let_def)

lemma appendUnique_fold: "fold (\<lambda>v ids. appendUnique ids (f v)) vs ids = ids @ filter (\<lambda>x. x \<notin> set ids) (rev (remdups (rev (map f vs))))"
proof (induction vs rule: rev_induct)
  case (snoc v vs)
  then show ?case by (auto simp: appendUnique_def)
qed simp

lemma gameplay_chosen:
  assumes "ba_Effects a \<noteq> []"
  shows "gp_chosen (evaluateGameplay config a cx) =
      Some (gp_result (evaluateGameplay config a cx), gp_reason (evaluateGameplay config a cx),
            gp_summary (evaluateGameplay config a cx))"
    and "gp.leads (action_verdicts config a cx)
      (gp_result (evaluateGameplay config a cx), gp_reason (evaluateGameplay config a cx),
       gp_summary (evaluateGameplay config a cx))"
proof -
  have "\<exists>w. gp_chosen (evaluateGameplay config a cx) = Some w \<and> gp.leads (action_verdicts config a cx) w"
    unfolding evaluateGameplay_fold
    by (rule gp.chosen_fold) (simp_all add: gp_chosen_def gameplay_start_def action_verdicts_nonempty assms)
  then show "gp_chosen (evaluateGameplay config a cx) =
      Some (gp_result (evaluateGameplay config a cx), gp_reason (evaluateGameplay config a cx),
            gp_summary (evaluateGameplay config a cx))"
    and "gp.leads (action_verdicts config a cx)
      (gp_result (evaluateGameplay config a cx), gp_reason (evaluateGameplay config a cx),
       gp_summary (evaluateGameplay config a cx))"
    by (auto simp: gp_chosen_def split: if_splits)
qed

text \<open>
  C20: \<open>evaluateGameplay\<close> implements the most-severe-verdict rule. Its result, reason and summary are those of the
  first verdict on the action whose severity no earlier verdict reaches and no later one exceeds; the matched
  identifiers are those of all verdicts, each once, in order of first occurrence.
\<close>

theorem evaluateGameplay_most_severe:
  assumes "ba_Effects a \<noteq> []"
  shows "(\<exists>pre v post. action_verdicts config a cx = pre @ v # post
      \<and> gp_result (evaluateGameplay config a cx) = ed_result v
      \<and> gp_reason (evaluateGameplay config a cx) = ed_reasonCode v
      \<and> gp_summary (evaluateGameplay config a cx) = ed_summary v
      \<and> (\<forall>u \<in> set pre. resultRank (ed_result u) < resultRank (ed_result v))
      \<and> (\<forall>u \<in> set post. resultRank (ed_result u) \<le> resultRank (ed_result v)))
    \<and> gp_matched (evaluateGameplay config a cx) = rev (remdups (rev (map ed_ruleID (action_verdicts config a cx))))"
proof
  show "gp_matched (evaluateGameplay config a cx) = rev (remdups (rev (map ed_ruleID (action_verdicts config a cx))))"
    by (simp add: evaluateGameplay_fold matched_fold appendUnique_fold gameplay_start_def)
  obtain pre v post where "action_verdicts config a cx = pre @ v # post"
    "(gp_result (evaluateGameplay config a cx), gp_reason (evaluateGameplay config a cx),
       gp_summary (evaluateGameplay config a cx)) = verdict_view v"
    "\<forall>u \<in> set pre. resultRank (fst (verdict_view u)) < resultRank (gp_result (evaluateGameplay config a cx))"
    "\<forall>u \<in> set post. resultRank (fst (verdict_view u)) \<le> resultRank (gp_result (evaluateGameplay config a cx))"
    using gameplay_chosen(2) [OF assms, of config cx] unfolding gp.leads_def by auto
  then show "\<exists>pre v post. action_verdicts config a cx = pre @ v # post
      \<and> gp_result (evaluateGameplay config a cx) = ed_result v
      \<and> gp_reason (evaluateGameplay config a cx) = ed_reasonCode v
      \<and> gp_summary (evaluateGameplay config a cx) = ed_summary v
      \<and> (\<forall>u \<in> set pre. resultRank (ed_result u) < resultRank (ed_result v))
      \<and> (\<forall>u \<in> set post. resultRank (ed_result u) \<le> resultRank (ed_result v))"
    by (intro exI [of _ pre] exI [of _ v] exI [of _ post]) (simp add: verdict_view_def)
qed

subsection \<open>The safety kernel\<close>

lemma kernelDecision_Deny: "kernelDecision config e = Some v \<Longrightarrow> ed_result v = Deny"
  by (auto simp: kernelDecision_def forbidden_effect_def split: option.splits if_splits)

lemma profileDecision_valid: "validResult (ed_result (profileDecision p e))"
  by (cases p) (auto simp: profile_verdict_def validResult_def)

lemma sealed_rule_result:
  assumes "SealConfig c = Inr config" and "r \<in> set (pc_Rules config)"
  shows "validResult (rl_Result r)"
  using SealConfig_facts(3) [OF assms(1)] assms(2) normalizeRule_ok by (fastforce simp: rule_ok_def)

lemma effect_verdicts_valid:
  assumes "SealConfig c = Inr config" and "v \<in> set (effect_verdicts config a cx e)"
  shows "validResult (ed_result v)"
proof (cases "kernelDecision config e")
  case None
  show ?thesis
  proof (cases "filter (\<lambda>r. ruleMatches r e a cx) (pc_Rules config)")
    case Nil
    then show ?thesis using assms(2) None by (simp add: effect_verdicts_def rules_filter profileDecision_valid)
  next
    case (Cons r rs)
    then have "v \<in> rule_verdict ` set (filter (\<lambda>r. ruleMatches r e a cx) (pc_Rules config))"
      using assms(2) None by (simp add: effect_verdicts_def rules_filter)
    then show ?thesis using sealed_rule_result [OF assms(1)] by (auto simp: rule_verdict_def)
  qed
next
  case (Some k)
  then show ?thesis using assms(2) kernelDecision_Deny by (auto simp: effect_verdicts_def validResult_def)
qed

text \<open>The result over the verdicts: the first verdict of greatest severity, as a fact for the engine's proofs.\<close>

lemma gameplay_result_leads:
  assumes "ba_Effects a \<noteq> []"
  shows "\<exists>v \<in> set (action_verdicts config a cx). gp_result (evaluateGameplay config a cx) = ed_result v"
    and "v \<in> set (action_verdicts config a cx) \<Longrightarrow>
      resultRank (ed_result v) \<le> resultRank (gp_result (evaluateGameplay config a cx))"
  using gameplay_chosen(2) [OF assms, of config cx] gp.leads_bound [OF gameplay_chosen(2) [OF assms], of v config cx]
  by (auto simp: gp.leads_def verdict_view_def)

lemma gameplay_result_valid:
  assumes "SealConfig c = Inr config" and "ba_Effects a \<noteq> []"
  shows "validResult (gp_result (evaluateGameplay config a cx))"
  using gameplay_result_leads(1) [OF assms(2), of config cx] effect_verdicts_valid [OF assms(1)]
  by (auto simp: action_verdicts_def)

lemma deny_is_top: "validResult r \<Longrightarrow> resultRank Deny \<le> resultRank r \<Longrightarrow> r = Deny"
  by (auto simp: validResult_def)

lemma gameplay_Deny_iff:
  assumes "SealConfig c = Inr config" and "ba_Effects a \<noteq> []"
  shows "gp_result (evaluateGameplay config a cx) = Deny \<longleftrightarrow>
    (\<exists>v \<in> set (action_verdicts config a cx). ed_result v = Deny)"
  using gameplay_result_leads [OF assms(2), where config = config and cx = cx] gameplay_result_valid [OF assms, of cx]
  by (metis deny_is_top)

lemma gameplay_Allow_iff:
  assumes "SealConfig c = Inr config" and "ba_Effects a \<noteq> []"
  shows "gp_result (evaluateGameplay config a cx) = Allow \<longleftrightarrow>
    (\<forall>v \<in> set (action_verdicts config a cx). ed_result v = Allow)"
proof -
  have "resultRank r \<le> resultRank Allow \<Longrightarrow> r = Allow" if "validResult r" for r
    using that by (auto simp: validResult_def)
  moreover have "\<forall>v \<in> set (action_verdicts config a cx). validResult (ed_result v)"
    using effect_verdicts_valid [OF assms(1)] by (auto simp: action_verdicts_def)
  ultimately show ?thesis
    using gameplay_result_leads [OF assms(2), where config = config and cx = cx] by (metis (no_types, opaque_lifting))
qed

definition kernel_forbids :: "policy_config \<Rightarrow> effect \<Rightarrow> bool" where
  "kernel_forbids config e \<longleftrightarrow>
     ef_Kind e \<in> fst ` set safetyKernelKinds \<or> (\<exists>tag \<in> set (ef_Tags e). tag \<in> fst ` set safetyKernelTags)
     \<or> ef_Ownership e = OwnershipUnknown \<or> ef_Kind e \<notin> set (pc_KnownEffectKinds config)
     \<or> ef_Scope e \<notin> set (pc_KnownScopes config)"

lemma first_forbidden_tag_None: "first_forbidden_tag tags = None \<longleftrightarrow> (\<forall>tag \<in> set tags. tag \<notin> fst ` set safetyKernelTags)"
  by (induction tags) (auto simp: map_of_eq_None_iff split: option.splits)

lemma kernelDecision_None_iff: "kernelDecision config e = None \<longleftrightarrow> \<not> kernel_forbids config e"
proof -
  have "kernelDecision config e = None \<longleftrightarrow> map_of safetyKernelKinds (ef_Kind e) = None
      \<and> first_forbidden_tag (ef_Tags e) = None \<and> ef_Ownership e \<noteq> OwnershipUnknown
      \<and> ef_Kind e \<in> set (pc_KnownEffectKinds config) \<and> ef_Scope e \<in> set (pc_KnownScopes config)"
    unfolding kernelDecision_def by (auto split: option.splits)
  then show ?thesis by (auto simp: kernel_forbids_def first_forbidden_tag_None map_of_eq_None_iff)
qed

text \<open>
  C22: the safety kernel cannot be overridden. If one effect of an action is of a forbidden kind, carries a forbidden
  tag, has unknown ownership, or is of a kind or scope that the revision does not register, the action is denied,
  whatever the rules and the profile of the revision say, and a kernel rule is among the reported ones.
\<close>

theorem safety_kernel_not_overridable:
  assumes "SealConfig c = Inr config" and "e \<in> set (ba_Effects a)" and "kernel_forbids config e"
  shows "gp_result (evaluateGameplay config a cx) = Deny
    \<and> (\<exists>i \<in> set (gp_matched (evaluateGameplay config a cx)). take 7 i = ''kernel.'')"
proof -
  obtain v where v: "kernelDecision config e = Some v"
    using assms(3) kernelDecision_None_iff by (cases "kernelDecision config e") auto
  then have mem: "v \<in> set (action_verdicts config a cx)"
    using assms(2) by (auto simp: action_verdicts_def effect_verdicts_def intro!: bexI [of _ e])
  moreover have "ba_Effects a \<noteq> []" using assms(2) by auto
  ultimately have "gp_result (evaluateGameplay config a cx) = Deny"
    using gameplay_Deny_iff [OF assms(1)] kernelDecision_Deny [OF v] by blast
  moreover have "take 7 (ed_ruleID v) = ''kernel.''"
    using v by (auto simp: kernelDecision_def forbidden_effect_def split: option.splits if_splits)
  moreover have "ed_ruleID v \<in> set (gp_matched (evaluateGameplay config a cx))"
    using mem by (simp add: evaluateGameplay_fold matched_fold appendUnique_fold gameplay_start_def)
  ultimately show ?thesis by blast
qed

subsection \<open>Instances\<close>

theorem evaluateGameplay_most_severe_witness:
  "gp_matched (evaluateGameplay sample_sealed (sample_action ''binding'' ''item.gift'' 1) (sample_context ''''))
     = [''profile.guarded.confirm'']"
proof -
  have "map ed_ruleID (action_verdicts sample_sealed (sample_action ''binding'' ''item.gift'' 1) (sample_context ''''))
      = [''profile.guarded.confirm'']"
    by code_simp
  moreover have "ba_Effects (sample_action ''binding'' ''item.gift'' 1) \<noteq> []" by (simp add: sample_action_def)
  ultimately show ?thesis using evaluateGameplay_most_severe by simp
qed

theorem safety_kernel_not_overridable_witness:
  "gp_result (evaluateGameplay sample_sealed (sample_action ''binding'' ''secret.exposure'' 1) (sample_context '''')) = Deny"
proof -
  have "sample_effect ''secret.exposure'' 1 \<in> set (ba_Effects (sample_action ''binding'' ''secret.exposure'' 1))"
    by (simp add: sample_action_def)
  moreover have "kernel_forbids sample_sealed (sample_effect ''secret.exposure'' 1)" by code_simp
  ultimately show ?thesis using safety_kernel_not_overridable [OF sample_sealed] by blast
qed

end
