(* ===== verification/Policy_Invariant.thy ===== *)
theory Policy_Invariant
  imports Policy_Ledger Policy_Verdict
begin

section \<open>The invariant of the policy engine\<close>

text \<open>
  \<open>engine_ok\<close> ties the six maps of an engine together: the challenges and their index are inverse to each other and
  belong to the active revision; the outstanding reservations are covered by the usage; a live decision and its cached
  authorisation point to each other, and a decision without an authorisation has a key of an older revision (or of
  a restored checkpoint). Every operation keeps it; the identifiers that
  the random source draws are assumed not to be in use.
\<close>

text \<open>The last NUL-separated part of a key: of an authorisation key, the policy revision.\<close>

definition key_suffix :: "string \<Rightarrow> string" where
  "key_suffix key = rev (takeWhile (\<lambda>c. c \<noteq> NUL) (rev key))"

definition retired :: "u64 \<Rightarrow> string \<Rightarrow> bool" where
  "retired revision key \<longleftrightarrow> (\<forall>r. key_suffix key = format_u64 r \<longrightarrow> r < revision)"

definition outstanding :: "engine \<Rightarrow> budget_delta list" where
  "outstanding en = concat (map snd (en_reservations en))"

abbreviation revision :: "engine \<Rightarrow> u64" where
  "revision en \<equiv> pc_Revision (en_config en)"

definition config_ok :: "engine \<Rightarrow> bool" where
  "config_ok en \<longleftrightarrow> SealConfig (en_config en) = Inr (en_config en)"

definition challenges_ok :: "engine \<Rightarrow> bool" where
  "challenges_ok en \<longleftrightarrow>
     map_ok (en_challenges en) \<and> map_ok (en_challengeKeys en) \<and> length (en_challenges en) \<le> maxChallenges
     \<and> (\<forall>i st. map_of (en_challenges en) i = Some st \<longrightarrow>
          ch_ChallengeID (cs_challenge st) = i \<and> map_of (en_challengeKeys en) (cs_key st) = Some i
          \<and> ch_PolicyRevision (cs_challenge st) = revision en)
     \<and> (\<forall>k i. map_of (en_challengeKeys en) k = Some i \<longrightarrow>
          (\<exists>st. map_of (en_challenges en) i = Some st \<and> cs_key st = k))"

definition ledger_ok :: "engine \<Rightarrow> bool" where
  "ledger_ok en \<longleftrightarrow>
     usage_ok (en_usage en) \<and> map_ok (en_reservations en)
     \<and> (\<forall>k c. delta_total (outstanding en) k c \<le> amount (en_usage en) k c)
     \<and> dom (map_of (en_reservations en)) \<subseteq> dom (map_of (en_decisionKeys en))"

text \<open>What a live decision points to: its own unfinalised authorisation, or nothing under an older revision.\<close>

definition decision_link :: "u64 \<Rightarrow> authorization_state option \<Rightarrow> string \<Rightarrow> string \<Rightarrow> bool" where
  "decision_link r auth i key =
     (case auth of
        Some st \<Rightarrow> de_DecisionID (au_decision st) = i \<and> \<not> au_finalized st
      | None \<Rightarrow> retired r key)"

definition auth_ok :: "engine \<Rightarrow> bool" where
  "auth_ok en \<longleftrightarrow>
     map_ok (en_authorizations en) \<and> map_ok (en_decisionKeys en) \<and> length (en_authorizations en) \<le> maxAuthorizations
     \<and> (\<forall>key st. map_of (en_authorizations en) key = Some st \<longrightarrow>
          de_Result (au_decision st) = Allow \<and> de_PolicyRevision (au_decision st) = revision en
          \<and> key_suffix key = format_u64 (revision en)
          \<and> (\<not> au_finalized st \<longrightarrow> map_of (en_decisionKeys en) (de_DecisionID (au_decision st)) = Some key))
     \<and> (\<forall>i key. map_of (en_decisionKeys en) i = Some key \<longrightarrow>
          decision_link (revision en) (map_of (en_authorizations en) key) i key)"

definition engine_ok :: "engine \<Rightarrow> bool" where
  "engine_ok en \<longleftrightarrow> config_ok en \<and> challenges_ok en \<and> ledger_ok en \<and> auth_ok en"

definition fresh_decision :: "engine \<Rightarrow> string option \<Rightarrow> bool" where
  "fresh_decision en random = (case random of None \<Rightarrow> True | Some hex \<Rightarrow> map_of (en_decisionKeys en) (''decision.'' @ hex) = None)"

definition fresh_challenge :: "engine \<Rightarrow> string option \<Rightarrow> bool" where
  "fresh_challenge en random = (case random of None \<Rightarrow> True | Some hex \<Rightarrow> map_of (en_challenges en) (''confirmation.'' @ hex) = None)"

declare map_of_eq_Some_iff [simp del] Some_eq_map_of_iff [simp del]

subsection \<open>Keys\<close>

lemma key_suffix_append: "NUL \<notin> set t \<Longrightarrow> key_suffix (s @ NUL # t) = t"
proof -
  assume "NUL \<notin> set t"
  then have "takeWhile (\<lambda>c. c \<noteq> NUL) (rev t @ NUL # rev s) = rev t" by (subst takeWhile_append2) auto
  then show ?thesis by (simp add: key_suffix_def)
qed

lemma nul_join_snoc: "ss \<noteq> [] \<Longrightarrow> nul_join (ss @ [t]) = nul_join ss @ NUL # t"
proof (induction ss rule: nul_join.induct)
  case (3 s t' ss)
  then show ?case by (cases ss) auto
qed auto

lemma key_suffix_authorization [simp]: "key_suffix (makeAuthorizationKey a cx r) = format_u64 r"
proof -
  define parts where "parts = [ba_BindingID a, ba_RequestDigest a, ba_EffectDigest a,
      pr_ID (cx_Principal cx), cx_ServerID cx, cx_OwnerID cx, ep_SessionID (ba_ExpectedEpoch a),
      format_u64 (ep_Host (ba_ExpectedEpoch a)), format_u64 (ep_World (ba_ExpectedEpoch a)),
      format_u64 (ep_Timeline (ba_ExpectedEpoch a))]"
  then have "makeAuthorizationKey a cx r = nul_join (parts @ [format_u64 r])" "parts \<noteq> []"
    by (simp_all add: makeAuthorizationKey_def)
  then show ?thesis by (simp add: nul_join_snoc key_suffix_append)
qed

lemma retired_mono: "retired r key \<Longrightarrow> r < r' \<Longrightarrow> retired r' key"
  by (auto simp: retired_def)

lemma retired_old: "key_suffix key = format_u64 r \<Longrightarrow> r < r' \<Longrightarrow> retired r' key"
  by (auto simp: retired_def dest: format_u64_inj)

lemma not_retired_current: "key_suffix key = format_u64 r \<Longrightarrow> \<not> retired r key"
  by (auto simp: retired_def)

subsection \<open>Frames\<close>

lemma frame_challenges [simp]:
  "config_ok (en\<lparr>en_challenges := x, en_challengeKeys := y\<rparr>) = config_ok en"
  "ledger_ok (en\<lparr>en_challenges := x, en_challengeKeys := y\<rparr>) = ledger_ok en"
  "auth_ok (en\<lparr>en_challenges := x, en_challengeKeys := y\<rparr>) = auth_ok en"
  "config_ok (en\<lparr>en_challenges := x\<rparr>) = config_ok en"
  "ledger_ok (en\<lparr>en_challenges := x\<rparr>) = ledger_ok en"
  "auth_ok (en\<lparr>en_challenges := x\<rparr>) = auth_ok en"
  "config_ok (en\<lparr>en_challengeKeys := y\<rparr>) = config_ok en"
  "ledger_ok (en\<lparr>en_challengeKeys := y\<rparr>) = ledger_ok en"
  "auth_ok (en\<lparr>en_challengeKeys := y\<rparr>) = auth_ok en"
  by (simp_all add: config_ok_def ledger_ok_def auth_ok_def outstanding_def)

lemma frame_usage [simp]:
  "config_ok (en\<lparr>en_usage := u\<rparr>) = config_ok en"
  "challenges_ok (en\<lparr>en_usage := u\<rparr>) = challenges_ok en"
  "auth_ok (en\<lparr>en_usage := u\<rparr>) = auth_ok en"
  by (simp_all add: config_ok_def challenges_ok_def auth_ok_def)

lemma frame_reservations [simp]:
  "config_ok (en\<lparr>en_reservations := x\<rparr>) = config_ok en"
  "challenges_ok (en\<lparr>en_reservations := x\<rparr>) = challenges_ok en"
  "auth_ok (en\<lparr>en_reservations := x\<rparr>) = auth_ok en"
  by (simp_all add: config_ok_def challenges_ok_def auth_ok_def)

lemma frame_auth [simp]:
  "config_ok (en\<lparr>en_authorizations := x\<rparr>) = config_ok en"
  "challenges_ok (en\<lparr>en_authorizations := x\<rparr>) = challenges_ok en"
  "ledger_ok (en\<lparr>en_authorizations := x\<rparr>) = ledger_ok en"
  "config_ok (en\<lparr>en_decisionKeys := y\<rparr>) = config_ok en"
  "challenges_ok (en\<lparr>en_decisionKeys := y\<rparr>) = challenges_ok en"
  by (simp_all add: config_ok_def challenges_ok_def ledger_ok_def outstanding_def)

subsection \<open>Challenges\<close>

lemma challenges_ok_drop:
  assumes "challenges_ok en" and "map_of (en_challenges en) i = Some st"
  shows "challenges_ok (en\<lparr>en_challenges := AList.delete i (en_challenges en),
    en_challengeKeys := AList.delete (cs_key st) (en_challengeKeys en)\<rparr>)"
proof -
  have "length (AList.delete i (en_challenges en)) \<le> maxChallenges"
    using assms(1) gm.len_del_le [of "en_challenges en" i] by (simp add: challenges_ok_def)
  moreover have "cs_key st' \<noteq> cs_key st" if "map_of (en_challenges en) j = Some st'" "j \<noteq> i" for j st'
    using assms that unfolding challenges_ok_def by (metis option.inject)
  ultimately show ?thesis using assms unfolding challenges_ok_def
    by (simp add: gm.get_del gm.invar_del) (metis option.inject)
qed

lemma challenges_ok_prune:
  assumes "challenges_ok en"
  shows "challenges_ok (pruneChallenges en a cx)"
proof -
  define P where "P = (\<lambda>(i :: string, st). challenge_expired (challengeClockScope a cx) (tp_Value (cx_Now cx)) st)"
  define dead where "dead = map (\<lambda>(i, st). cs_key st) (filter P (en_challenges en))"
  have prune: "pruneChallenges en a cx = en\<lparr>en_challenges := filter (\<lambda>c. \<not> P c) (en_challenges en),
      en_challengeKeys := fold AList.delete dead (en_challengeKeys en)\<rparr>"
    by (simp add: pruneChallenges_def Let_def P_def dead_def)
  have ok: "map_ok (en_challenges en)" "map_ok (en_challengeKeys en)" using assms by (simp_all add: challenges_ok_def)
  have get: "map_of (filter (\<lambda>c. \<not> P c) (en_challenges en)) i = Some st \<longleftrightarrow>
      map_of (en_challenges en) i = Some st \<and> \<not> P (i, st)" for i st
    using ok(1) by (auto simp: map_of_filter split: option.splits)
  have dead: "k \<in> set dead \<longleftrightarrow> (\<exists>i st. map_of (en_challenges en) i = Some st \<and> P (i, st) \<and> cs_key st = k)" for k
    using ok(1) by (auto simp: dead_def image_iff map_of_eq_Some_iff)
  have live: "cs_key st \<notin> set dead" if "map_of (en_challenges en) i = Some st" "\<not> P (i, st)" for i st
    using assms that dead [of "cs_key st"] unfolding challenges_ok_def by (metis option.inject)
  have "length (filter (\<lambda>c. \<not> P c) (en_challenges en)) \<le> maxChallenges"
    using assms length_filter_le le_trans unfolding challenges_ok_def by blast
  moreover have "\<exists>st. map_of (en_challenges en) i = Some st \<and> \<not> P (i, st) \<and> cs_key st = k"
    if k: "map_of (en_challengeKeys en) k = Some i" "k \<notin> set dead" for k i
  proof -
    obtain st where "map_of (en_challenges en) i = Some st" "cs_key st = k"
      using assms k(1) unfolding challenges_ok_def by blast
    then show ?thesis using dead [of k] k(2) by blast
  qed
  ultimately show ?thesis using assms live unfolding prune challenges_ok_def
    by (simp add: get gm.get_fold_del gm.invar_fold_del map_ok_filter) blast
qed

lemma engine_ok_prune: "engine_ok en \<Longrightarrow> engine_ok (pruneChallenges en a cx)"
  using challenges_ok_prune [of en a cx] by (simp add: engine_ok_def pruneChallenges_def Let_def)

lemma challenges_ok_put:
  assumes "challenges_ok en" and "length (en_challenges en) < maxChallenges"
    and "map_of (en_challenges en) i = None" and "map_of (en_challengeKeys en) (cs_key st) = None"
    and "ch_ChallengeID (cs_challenge st) = i" and "ch_PolicyRevision (cs_challenge st) = revision en"
  shows "challenges_ok (en\<lparr>en_challenges := AList.update i st (en_challenges en),
    en_challengeKeys := AList.update (cs_key st) i (en_challengeKeys en)\<rparr>)"
proof -
  have ok: "map_ok (en_challenges en)" using assms(1) by (simp add: challenges_ok_def)
  have len: "length (AList.update i st (en_challenges en)) \<le> maxChallenges"
    by (rule gm.len_put_capacity [OF ok assms(2)])
  have new: "i' \<noteq> i \<and> cs_key st' \<noteq> cs_key st" if "map_of (en_challenges en) i' = Some st'" for i' st'
    using assms(1,3,4) that unfolding challenges_ok_def by (metis option.distinct(1))
  show ?thesis using assms(1,5,6) len new unfolding challenges_ok_def
    by (simp add: gm.get_put gm.invar_put) (metis new)
qed

lemma no_dangling_key:
  assumes "challenges_ok en" and "Option.bind (map_of (en_challengeKeys en) k) (map_of (en_challenges en)) = None"
  shows "map_of (en_challengeKeys en) k = None"
proof (rule ccontr)
  assume "map_of (en_challengeKeys en) k \<noteq> None"
  then obtain i where i: "map_of (en_challengeKeys en) k = Some i" by blast
  then obtain st where "map_of (en_challenges en) i = Some st" using assms(1) unfolding challenges_ok_def by blast
  then show False using assms(2) i by simp
qed

text \<open>What \<open>issueConfirmation\<close> does: it returns the pending challenge of the same key, fails, or adds a new one.\<close>

lemma issueConfirmation_cases:
  assumes "challenges_ok en" and "issueConfirmation en a cx config ttl random = (r, en')"
  obtains (existing) i st where "map_of (en_challenges en) i = Some st" "cs_key st = makeChallengeKey a cx (pc_Revision config)"
      "r = Inr (cs_challenge st)" "en' = en"
    | (failed) e where "r = Inl e" "map_of (en_challengeKeys en) (makeChallengeKey a cx (pc_Revision config)) = None"
        "en' = en\<lparr>en_challengeKeys := AList.delete (makeChallengeKey a cx (pc_Revision config)) (en_challengeKeys en)\<rparr>"
    | (issued) hex st where "random = Some hex" "length (en_challenges en) < maxChallenges"
        "st = new_challenge a cx config ttl (''confirmation.'' @ hex)" "r = Inr (cs_challenge st)"
        "map_of (en_challengeKeys en) (cs_key st) = None"
        "en' = en\<lparr>en_challenges := AList.update (''confirmation.'' @ hex) st (en_challenges en),
          en_challengeKeys := AList.update (cs_key st) (''confirmation.'' @ hex)
            (AList.delete (cs_key st) (en_challengeKeys en))\<rparr>"
proof (cases "Option.bind (map_of (en_challengeKeys en) (makeChallengeKey a cx (pc_Revision config))) (map_of (en_challenges en))")
  case (Some st)
  then obtain i where i: "map_of (en_challengeKeys en) (makeChallengeKey a cx (pc_Revision config)) = Some i"
    "map_of (en_challenges en) i = Some st"
    by (auto simp: Option.bind_eq_Some_conv)
  then have "cs_key st = makeChallengeKey a cx (pc_Revision config)"
    using assms(1) unfolding challenges_ok_def by (metis option.inject)
  then show thesis using existing [of i st] i assms(2) Some by (simp add: issueConfirmation_def Let_def)
next
  case None
  note absent = no_dangling_key [OF assms(1) None]
  have key: "cs_key (new_challenge a cx config ttl i) = makeChallengeKey a cx (pc_Revision config)" for i
    by (simp add: new_challenge_def)
  show thesis
  proof (cases random)
    case None
    then show thesis using failed absent assms(2) \<open>Option.bind _ _ = None\<close>
      by (auto simp: issueConfirmation_def Let_def newID_def split: if_splits)
  next
    case (Some hex)
    then show thesis using failed issued [of hex] absent assms(2) \<open>Option.bind _ _ = None\<close>
      by (auto simp: issueConfirmation_def Let_def newID_def key split: if_splits)
  qed
qed

lemma challenges_ok_keys_cong:
  assumes "challenges_ok en" and "map_ok ks" and "map_of ks = map_of (en_challengeKeys en)"
  shows "challenges_ok (en\<lparr>en_challengeKeys := ks\<rparr>)"
  using assms by (simp add: challenges_ok_def)

lemma challenges_ok_del_absent:
  assumes "challenges_ok en" and "map_of (en_challengeKeys en) k = None"
  shows "challenges_ok (en\<lparr>en_challengeKeys := AList.delete k (en_challengeKeys en)\<rparr>)"
proof (rule challenges_ok_keys_cong [OF assms(1)])
  show "map_ok (AList.delete k (en_challengeKeys en))" using assms(1) by (simp add: challenges_ok_def gm.invar_del)
  show "map_of (AList.delete k (en_challengeKeys en)) = map_of (en_challengeKeys en)"
    using assms(2) by (auto simp: gm.get_del)
qed

lemma engine_ok_issue:
  assumes "engine_ok en" and "issueConfirmation en a cx (en_config en) ttl random = (r, en')"
    and "fresh_challenge en random"
  shows "engine_ok en'"
proof -
  have ok: "challenges_ok en" using assms(1) by (simp add: engine_ok_def)
  from ok assms(2) have "challenges_ok en'"
  proof (cases rule: issueConfirmation_cases)
    case existing
    then show ?thesis using ok by simp
  next
    case failed
    then show ?thesis using challenges_ok_del_absent [OF ok] by simp
  next
    case (issued hex st)
    define en1 where "en1 = en\<lparr>en_challengeKeys := AList.delete (cs_key st) (en_challengeKeys en)\<rparr>"
    have "challenges_ok en1" using challenges_ok_del_absent [OF ok issued(5)] by (simp add: en1_def)
    from challenges_ok_put [OF this, of "''confirmation.'' @ hex" st] issued assms(3)
    show ?thesis by (simp add: en1_def gm.get_del fresh_challenge_def new_challenge_def)
  qed
  moreover from ok assms(2)
  have "config_ok en' = config_ok en \<and> ledger_ok en' = ledger_ok en \<and> auth_ok en' = auth_ok en"
    by (cases rule: issueConfirmation_cases) simp_all
  ultimately show ?thesis using assms(1) by (simp add: engine_ok_def)
qed

text \<open>A confirmation is consumed only if it is approved and matches; then it is gone.\<close>

lemma consumeConfirmation_cases:
  assumes "consumeConfirmation en a cx config = (r, en')"
  obtains (none) "cx_ConfirmationID cx = []" "r = NotConfirmed" "en' = en"
    | (rejected) "cx_ConfirmationID cx \<noteq> []" "r = ConfirmationRejected (invalid_confirmation a cx config)" "en' = en"
    | (confirmed) st where "cx_ConfirmationID cx \<noteq> []" "map_of (en_challenges en) (cx_ConfirmationID cx) = Some st"
        "cs_approved st" "challenge_matches st a cx config" "r = Confirmed"
        "en' = en\<lparr>en_challenges := AList.delete (ch_ChallengeID (cs_challenge st)) (en_challenges en),
                 en_challengeKeys := AList.delete (cs_key st) (en_challengeKeys en)\<rparr>"
  using assms by (auto simp: consumeConfirmation_def split: if_splits option.splits)

lemma challenge_id: "challenges_ok en \<Longrightarrow> map_of (en_challenges en) i = Some st \<Longrightarrow> ch_ChallengeID (cs_challenge st) = i"
  by (simp add: challenges_ok_def)

lemma engine_ok_drop:
  assumes "engine_ok en" and "map_of (en_challenges en) i = Some st"
  shows "engine_ok (en\<lparr>en_challenges := AList.delete i (en_challenges en),
    en_challengeKeys := AList.delete (cs_key st) (en_challengeKeys en)\<rparr>)"
  using assms challenges_ok_drop by (simp add: engine_ok_def)

lemma engine_ok_consume:
  assumes "engine_ok en" and "consumeConfirmation en a cx config = (r, en')"
  shows "engine_ok en'"
  using assms(2)
proof (cases rule: consumeConfirmation_cases)
  case (confirmed st)
  have "challenges_ok en" using assms(1) by (simp add: engine_ok_def)
  from challenge_id [OF this confirmed(2)] show ?thesis
    using engine_ok_drop [OF assms(1) confirmed(2)] confirmed(6) by simp
qed (use assms(1) in simp_all)

lemma engine_ok_Discard:
  assumes "engine_ok en"
  shows "engine_ok (snd (DiscardConfirmation en ch))"
  using engine_ok_drop [OF assms] assms
  by (auto simp: DiscardConfirmation_def split: option.splits)

lemma engine_ok_Approve:
  assumes "engine_ok en"
  shows "engine_ok (snd (Approve en i p now))"
proof -
  have "challenges_ok (en\<lparr>en_challenges := AList.update i (st\<lparr>cs_approved := True\<rparr>) (en_challenges en)\<rparr>)"
    if "map_of (en_challenges en) i = Some st" for st
  proof -
    have ok: "map_ok (en_challenges en)" "length (en_challenges en) \<le> maxChallenges"
      using assms by (simp_all add: engine_ok_def challenges_ok_def)
    have "length (AList.update i (st\<lparr>cs_approved := True\<rparr>) (en_challenges en)) \<le> maxChallenges"
      using ok that gm.len_put [OF ok(1), of i] by (simp add: domIff)
    then show ?thesis using assms that unfolding engine_ok_def challenges_ok_def
      by (simp add: gm.get_put gm.invar_put) (metis option.inject challenge_state.simps(3))
  qed
  then show ?thesis using assms engine_ok_drop [OF assms]
    by (auto simp: Approve_def Let_def engine_ok_def split: option.splits)
qed

subsection \<open>Reservations\<close>

abbreviation reserved_total :: "(string, budget_delta list) gomap \<Rightarrow> string \<Rightarrow> counter \<Rightarrow> nat" where
  "reserved_total res \<equiv> delta_total (concat (map snd res))"

lemma reserved_put:
  "map_of res i = None \<Longrightarrow> reserved_total (AList.update i ds res) k c = reserved_total res k c + delta_total ds k c"
  by (induction res) (auto split: if_splits)

lemma reserved_absent: "map_of res i = None \<Longrightarrow> AList.delete i res = res"
  by (simp add: AList.delete_id map_of_eq_None_iff)

lemma reserved_del:
  "map_ok res \<Longrightarrow> map_of res i = Some ds \<Longrightarrow>
     reserved_total res k c = delta_total ds k c + reserved_total (AList.delete i res) k c"
proof (induction res)
  case (Cons r res)
  obtain j es where r: "r = (j, es)" by (cases r)
  show ?case
  proof (cases "j = i")
    case True
    then have "map_of res i = None" using Cons.prems r by (simp add: map_of_eq_None_iff)
    then show ?thesis using Cons.prems r True reserved_absent [of res i] by simp
  next
    case False
    then show ?thesis using Cons r by simp
  qed
qed simp

lemma ledger_ok_usage:
  assumes "ledger_ok en" and "usage_ok u" and "\<And>k c. amount (en_usage en) k c \<le> amount u k c"
  shows "ledger_ok (en\<lparr>en_usage := u\<rparr>)"
proof -
  have "delta_total (outstanding en) k c \<le> amount u k c" for k c
    using assms(1,3) le_trans unfolding ledger_ok_def by blast
  then show ?thesis using assms(1,2) by (simp add: ledger_ok_def outstanding_def)
qed

lemma ledger_ok_reserve:
  assumes "ledger_ok en" and "usage_ok u" and "map_of (en_decisionKeys en) i = None"
    and "\<And>k c. amount u k c = amount (en_usage en) k c + delta_total ds k c"
  shows "ledger_ok (en\<lparr>en_usage := u, en_reservations := AList.update i ds (en_reservations en),
    en_decisionKeys := AList.update i key (en_decisionKeys en)\<rparr>)"
proof -
  have "map_of (en_reservations en) i = None" using assms(1,3) by (auto simp: ledger_ok_def)
  then show ?thesis using assms unfolding ledger_ok_def outstanding_def
    by (auto simp: reserved_put gm.invar_put gm.get_put)
qed

lemma ledger_ok_decision:
  assumes "ledger_ok en" and "map_of (en_decisionKeys en) i = None"
  shows "ledger_ok (en\<lparr>en_decisionKeys := AList.update i key (en_decisionKeys en)\<rparr>)"
  using assms unfolding ledger_ok_def outstanding_def by (auto simp: gm.get_put)

lemma rollback_amount:
  assumes "ledger_ok en" and "map_of (en_reservations en) i = Some ds"
  shows "amount (rollbackDeltas ds (en_usage en)) k c = amount (en_usage en) k c - delta_total ds k c"
    and "delta_total ds k c \<le> amount (en_usage en) k c"
    and "usage_ok (rollbackDeltas ds (en_usage en))"
proof -
  have le: "delta_total ds k c \<le> amount (en_usage en) k c" for k c
    using assms reserved_del [of "en_reservations en" i ds k c] unfolding ledger_ok_def outstanding_def
    by (metis add_leD1)
  then show "delta_total ds k c \<le> amount (en_usage en) k c" .
  show "amount (rollbackDeltas ds (en_usage en)) k c = amount (en_usage en) k c - delta_total ds k c"
    using rb.amt_refund_all [of "rev ds" "en_usage en" k c] le by (simp add: rollbackDeltas_def)
  show "usage_ok (rollbackDeltas ds (en_usage en))"
    using assms(1) by (simp add: rollbackDeltas_def rb.invar_refund_all ledger_ok_def)
qed

text \<open>\<open>Finalize\<close> on the ledger: the reservation leaves the list, with or without its usage.\<close>

definition settle :: "engine \<Rightarrow> string \<Rightarrow> bool \<Rightarrow> engine" where
  "settle en i committed =
     (case map_of (en_reservations en) i of
        None \<Rightarrow> en
      | Some ds \<Rightarrow>
          en\<lparr>en_usage := (if committed then en_usage en else rollbackDeltas ds (en_usage en)),
             en_reservations := AList.delete i (en_reservations en)\<rparr>)"

definition release :: "engine \<Rightarrow> string \<Rightarrow> string \<Rightarrow> bool \<Rightarrow> engine" where
  "release en i key committed = en\<lparr>
     en_decisionKeys := AList.delete i (en_decisionKeys en),
     en_authorizations :=
       (case map_of (en_authorizations en) key of
          None \<Rightarrow> en_authorizations en
        | Some st \<Rightarrow>
            if committed then AList.update key (st\<lparr>au_finalized := True\<rparr>) (en_authorizations en)
            else AList.delete key (en_authorizations en))\<rparr>"

lemma Finalize_release:
  "Finalize en i committed =
     (case map_of (en_decisionKeys en) i of
        None \<Rightarrow> (False, en)
      | Some key \<Rightarrow> (True, release (settle en i committed) i key committed))"
  by (auto simp: Finalize_def settle_def release_def Let_def split: option.splits)

lemma settle_frame [simp]:
  "en_config (settle en i committed) = en_config en"
  "en_configDigest (settle en i committed) = en_configDigest en"
  "en_challenges (settle en i committed) = en_challenges en"
  "en_challengeKeys (settle en i committed) = en_challengeKeys en"
  "en_authorizations (settle en i committed) = en_authorizations en"
  "en_decisionKeys (settle en i committed) = en_decisionKeys en"
  "map_of (en_reservations (settle en i committed)) = (map_of (en_reservations en))(i := None)"
  by (auto simp: settle_def gm.get_del split: option.splits)

lemma ledger_ok_settle:
  assumes "ledger_ok en"
  shows "ledger_ok (settle en i committed)"
proof (cases "map_of (en_reservations en) i")
  case None
  then show ?thesis using assms by (simp add: settle_def)
next
  case (Some ds)
  have del: "reserved_total (en_reservations en) k c =
      delta_total ds k c + reserved_total (AList.delete i (en_reservations en)) k c" for k c
    using reserved_del [of "en_reservations en" i ds k c] assms Some by (simp add: ledger_ok_def)
  have "reserved_total (AList.delete i (en_reservations en)) k c \<le> amount (en_usage (settle en i committed)) k c" for k c
  proof -
    have "reserved_total (en_reservations en) k c \<le> amount (en_usage en) k c"
      using assms by (simp add: ledger_ok_def outstanding_def)
    then show ?thesis using rollback_amount(1) [OF assms Some, of k c] del [of k c] Some
      by (simp add: settle_def) linarith
  qed
  then show ?thesis using assms Some rollback_amount(3) [OF assms Some]
    by (auto simp: settle_def ledger_ok_def outstanding_def gm.invar_del gm.get_del)
qed

subsection \<open>Authorisations\<close>

lemma auth_decision_link:
  "auth_ok en \<Longrightarrow> map_of (en_decisionKeys en) i = Some key \<Longrightarrow>
     decision_link (revision en) (map_of (en_authorizations en) key) i key"
  by (simp add: auth_ok_def)

lemma auth_link:
  "auth_ok en \<Longrightarrow> map_of (en_decisionKeys en) i = Some key \<Longrightarrow> map_of (en_authorizations en) key = Some st \<Longrightarrow>
     de_DecisionID (au_decision st) = i \<and> \<not> au_finalized st"
  "auth_ok en \<Longrightarrow> map_of (en_decisionKeys en) i = Some key \<Longrightarrow> map_of (en_authorizations en) key = None \<Longrightarrow>
     retired (revision en) key"
  using auth_decision_link [of en i key] by (simp_all add: decision_link_def)

lemma auth_live:
  "auth_ok en \<Longrightarrow> map_of (en_authorizations en) key = Some st \<Longrightarrow> \<not> au_finalized st \<Longrightarrow>
     map_of (en_decisionKeys en) (de_DecisionID (au_decision st)) = Some key"
  by (simp add: auth_ok_def)

lemma auth_ok_release:
  assumes "auth_ok en" and "map_of (en_decisionKeys en) i = Some key"
  shows "auth_ok (release en i key committed)"
proof -
  have own: "j = i" if "map_of (en_decisionKeys en) j = Some key" "map_of (en_authorizations en) key = Some st" for j st
    using auth_link(1) [OF assms(1) that] auth_link(1) [OF assms that(2)] by simp
  have len: "length (en_authorizations (release en i key committed)) \<le> maxAuthorizations"
    using assms(1) gm.len_put [of "en_authorizations en" key] gm.len_del_le [of "en_authorizations en" key]
    by (auto simp: auth_ok_def release_def domIff split: option.splits)
  show ?thesis
  proof (cases "map_of (en_authorizations en) key")
    case None
    then have "de_DecisionID (au_decision st) \<noteq> i"
      if "map_of (en_authorizations en) k = Some st" "\<not> au_finalized st" for k st
      using auth_live [OF assms(1) that] assms(2) that None by auto
    then show ?thesis using assms len None unfolding auth_ok_def
      by (simp add: release_def gm.get_del gm.invar_del)
  next
    case (Some st)
    have other: "de_DecisionID (au_decision st') \<noteq> i"
      if "map_of (en_authorizations en) k = Some st'" "\<not> au_finalized st'" "k \<noteq> key" for k st'
      using auth_live [OF assms(1) that(1,2)] assms(2) that(3) by auto
    have elsewhere: "k \<noteq> key" if "map_of (en_decisionKeys en) j = Some k" "j \<noteq> i" for j k
      using own [OF _ Some] that by auto
    have entries: "\<forall>k st'. map_of (en_authorizations (release en i key committed)) k = Some st' \<longrightarrow>
        de_Result (au_decision st') = Allow \<and> de_PolicyRevision (au_decision st') = revision en
        \<and> key_suffix k = format_u64 (revision en)
        \<and> (\<not> au_finalized st' \<longrightarrow>
             ((map_of (en_decisionKeys en))(i := None)) (de_DecisionID (au_decision st')) = Some k)"
      using assms Some other by (auto simp: auth_ok_def release_def gm.get_del gm.get_put split: if_splits)
    have links: "\<forall>j k. ((map_of (en_decisionKeys en))(i := None)) j = Some k \<longrightarrow>
        decision_link (revision en) (map_of (en_authorizations (release en i key committed)) k) j k"
      using Some elsewhere auth_decision_link [OF assms(1)]
      by (auto simp: release_def gm.get_del gm.get_put)
    show ?thesis using entries links len assms(1) Some unfolding auth_ok_def
      by (simp add: release_def gm.get_del gm.invar_del gm.invar_put)
  qed
qed

lemma engine_ok_Finalize:
  assumes "engine_ok en"
  shows "engine_ok (snd (Finalize en i committed))"
proof (cases "map_of (en_decisionKeys en) i")
  case None
  then show ?thesis using assms by (simp add: Finalize_release)
next
  case (Some key)
  define en1 where "en1 = settle en i committed"
  have s: "auth_ok en1" "ledger_ok en1" "config_ok en1" "challenges_ok en1"
    using assms ledger_ok_settle [of en i committed]
    by (simp_all add: engine_ok_def en1_def auth_ok_def config_ok_def challenges_ok_def)
  have key: "map_of (en_decisionKeys en1) i = Some key" "map_of (en_reservations en1) i = None"
    using Some by (simp_all add: en1_def)
  have "ledger_ok (release en1 i key committed)"
    using s(2) key(2) by (auto simp: ledger_ok_def release_def outstanding_def gm.get_del)
  then have "engine_ok (release en1 i key committed)"
    using auth_ok_release [OF s(1) key(1), of committed] s(3,4)
    by (simp add: engine_ok_def) (simp add: release_def)
  then show ?thesis using Some by (simp add: Finalize_release en1_def)
qed

lemma auth_ok_removeFinalized:
  assumes "auth_ok en"
  shows "auth_ok (removeFinalizedAuthorizations en)"
proof -
  have ok: "map_ok (en_authorizations en)" using assms by (simp add: auth_ok_def)
  have get: "map_of (filter (\<lambda>(k, st). \<not> au_finalized st) (en_authorizations en)) key = Some st \<longleftrightarrow>
      map_of (en_authorizations en) key = Some st \<and> \<not> au_finalized st" for key st
    using map_of_filter [OF ok] by (auto split: option.splits)
  have link: "decision_link (revision en) (map_of (filter (\<lambda>(k, st). \<not> au_finalized st) (en_authorizations en)) key) i key"
    if "map_of (en_decisionKeys en) i = Some key" for i key
    using auth_link [OF assms that] map_of_filter [OF ok, of "\<lambda>(k, st). \<not> au_finalized st" key]
    by (cases "map_of (en_authorizations en) key") (simp_all add: decision_link_def)
  have "length (filter (\<lambda>(k, st). \<not> au_finalized st) (en_authorizations en)) \<le> maxAuthorizations"
    using assms length_filter_le le_trans unfolding auth_ok_def by blast
  then show ?thesis using assms link unfolding auth_ok_def
    by (simp add: removeFinalizedAuthorizations_def get map_ok_filter) blast
qed

lemma auth_ok_put:
  assumes "auth_ok en" and "length (en_authorizations en) < maxAuthorizations"
    and "map_of (en_authorizations en) key = None" and "map_of (en_decisionKeys en) i = None"
    and "key_suffix key = format_u64 (revision en)"
    and "de_Result (au_decision st) = Allow" "de_PolicyRevision (au_decision st) = revision en"
    and "de_DecisionID (au_decision st) = i" "\<not> au_finalized st"
  shows "auth_ok (en\<lparr>en_authorizations := AList.update key st (en_authorizations en),
    en_decisionKeys := AList.update i key (en_decisionKeys en)\<rparr>)"
proof -
  have ok: "map_ok (en_authorizations en)" using assms(1) by (simp add: auth_ok_def)
  have len: "length (AList.update key st (en_authorizations en)) \<le> maxAuthorizations"
    by (rule gm.len_put_capacity [OF ok assms(2)])
  have fresh: "k \<noteq> key" if "map_of (en_decisionKeys en) j = Some k" for j k
    using auth_link(2) [OF assms(1) that] assms(3) not_retired_current [OF assms(5)] by auto
  have live: "de_DecisionID (au_decision st') \<noteq> i"
    if "map_of (en_authorizations en) k = Some st'" "\<not> au_finalized st'" for k st'
    using auth_live [OF assms(1) that] assms(4) by auto
  show ?thesis using assms len fresh live unfolding auth_ok_def
    by (simp add: gm.get_put gm.invar_put decision_link_def)
qed

subsection \<open>The tail of \<open>Evaluate\<close>\<close>

lemma reserve_loop_denied:
  "reserve_loop env a cx base bs limits deltas usage = (ReserveDenied d, usage') \<Longrightarrow> de_Result d = Deny"
  by (induction env a cx base bs limits deltas usage rule: reserve_loop.induct)
    (auto simp: Let_def denyDecision_def split: option.splits prod.splits if_splits sum.splits)

lemma reserveBudgets_denied: "reserveBudgets env en a cx config base = (ReserveDenied d, en') \<Longrightarrow> de_Result d = Deny"
  by (auto simp: reserveBudgets_def split: prod.splits dest: reserve_loop_denied)

lemma reserve_same_usage:
  assumes "reserve_post env a cx bs [] usage r usage'" and "\<And>l ds. r \<noteq> Reserved l ds" and "usage_ok usage"
  shows "same_usage usage' usage \<and> usage_ok usage' \<and> (\<forall>k c. amount usage' k c = amount usage k c)"
proof -
  have "usage_ok usage'" "\<forall>k c. amount usage' k c = amount usage k c"
    using assms(1,2) by (auto simp: reserve_post_def split: reserve_result.splits)
  then show ?thesis using usage_ok_ext [OF _ assms(3)] by (simp add: same_usage_def)
qed

text \<open>The end of \<open>authorize\<close>, after the reservation.\<close>

definition authorize_tail ::
  "policy_context \<Rightarrow> string \<Rightarrow> decision \<Rightarrow> budget_delta list \<Rightarrow> engine \<Rightarrow> (policy_error + decision) \<times> engine" where
  "authorize_tail cx key base ds en =
     (if length (en_authorizations en) \<ge> maxAuthorizations
      then (Inr (denyDecision base ''kernel.authorization-capacity'' ''policy.authorization_capacity''
              ''The policy authorization capacity is temporarily exhausted.''),
            en\<lparr>en_usage := rollbackDeltas ds (en_usage en)\<rparr>)
      else (Inr base, en\<lparr>
        en_authorizations := AList.update key
          \<lparr>au_decision = base, au_confirmationID = cx_ConfirmationID cx, au_finalized = False\<rparr> (en_authorizations en),
        en_decisionKeys := AList.update (de_DecisionID base) key (en_decisionKeys en),
        en_reservations := (if ds \<noteq> [] then AList.update (de_DecisionID base) ds (en_reservations en)
                            else en_reservations en)\<rparr>))"

definition make_room :: "engine \<Rightarrow> engine" where
  "make_room en = (if length (en_authorizations en) \<ge> maxAuthorizations then removeFinalizedAuthorizations en else en)"

lemma authorize_reserved:
  assumes "reserveBudgets env en a cx config base = (Reserved limits ds, en\<lparr>en_usage := u\<rparr>)"
  shows "authorize env en a cx config key base =
    authorize_tail cx key (base\<lparr>de_EffectiveLimits := limits\<rparr>) ds ((make_room en)\<lparr>en_usage := u\<rparr>)"
  using assms
  by (simp add: authorize_def authorize_tail_def Let_def make_room_def removeFinalizedAuthorizations_def cong: if_cong)

text \<open>
  \<open>authorize\<close> fails or denies with the usage as it was, possibly after forgetting finalised authorisations, or allows and
  records the decision, its key and the charges of all matching budgets.
\<close>

lemma authorize_cases:
  assumes "usage_ok (en_usage en)" and "SealConfig c = Inr config" and "ValidateBoundAction env a = None"
    and "authorize env en a cx config key base = (r, en')"
  obtains (refused) en2 u where "en2 \<in> {en, removeFinalizedAuthorizations en}" "en' = en2\<lparr>en_usage := u\<rparr>"
      "same_usage u (en_usage en)" "usage_ok u" "\<And>k c. amount u k c = amount (en_usage en) k c"
      "(\<exists>e. r = Inl e) \<or> (\<exists>d. r = Inr d \<and> de_Result d = Deny)"
    | (allowed) en2 u limits where "en2 \<in> {en, removeFinalizedAuthorizations en}"
        "length (en_authorizations en2) < maxAuthorizations"
        "r = Inr (base\<lparr>de_EffectiveLimits := limits\<rparr>)" "usage_ok u"
        "\<And>k c. amount u k c = amount (en_usage en) k c + delta_total (charges env a cx (pc_Budgets config)) k c"
        "\<And>b. b \<in> set (pc_Budgets config) \<Longrightarrow> matched_effects b a cx \<noteq> [] \<Longrightarrow> within_budget u (budget_key env a cx b) b"
        "en' = en2\<lparr>en_usage := u,
           en_authorizations := AList.update key
             \<lparr>au_decision = base\<lparr>de_EffectiveLimits := limits\<rparr>, au_confirmationID = cx_ConfirmationID cx,
              au_finalized = False\<rparr> (en_authorizations en2),
           en_decisionKeys := AList.update (de_DecisionID base) key (en_decisionKeys en2),
           en_reservations := (if charges env a cx (pc_Budgets config) \<noteq> []
             then AList.update (de_DecisionID base) (charges env a cx (pc_Budgets config)) (en_reservations en2)
             else en_reservations en2)\<rparr>"
proof -
  obtain rr en1 where rb: "reserveBudgets env en a cx config base = (rr, en1)" by fastforce
  define u where "u = en_usage en1"
  note post = reserveBudgets_post(1) [OF assms(3,2,1) rb, folded u_def]
  have en1: "en1 = en\<lparr>en_usage := u\<rparr>" using reserveBudgets_post(2) [OF assms(3,2,1) rb] by (simp add: u_def)
  show thesis
  proof (cases rr)
    case (ReserveError e)
    then show ?thesis
      using refused [of en u] reserve_same_usage [OF post _ assms(1)] assms(4) rb en1 by (auto simp: authorize_def)
  next
    case (ReserveDenied d)
    have "de_Result d = Deny" using rb unfolding ReserveDenied by (rule reserveBudgets_denied)
    then show ?thesis using refused [of en u] reserve_same_usage [OF post _ assms(1)] assms(4) rb en1 ReserveDenied
      by (auto simp: authorize_def)
  next
    case (Reserved limits ds)
    note eq = authorize_reserved [OF rb [unfolded Reserved en1]]
    define en2 where "en2 = make_room en"
    have en2: "en2 \<in> {en, removeFinalizedAuthorizations en}" "en_usage en2 = en_usage en"
      by (simp_all add: en2_def make_room_def removeFinalizedAuthorizations_def)
    have ds: "ds = charges env a cx (pc_Budgets config)" "usage_ok u"
      "\<And>k c. amount u k c = amount (en_usage en) k c + delta_total ds k c"
      "\<And>b. b \<in> set (pc_Budgets config) \<Longrightarrow> matched_effects b a cx \<noteq> [] \<Longrightarrow> within_budget u (budget_key env a cx b) b"
      using post Reserved by (auto simp: reserve_post_def)
    show ?thesis
    proof (cases "length (en_authorizations en2) \<ge> maxAuthorizations")
      case True
      define v where "v = rollbackDeltas ds u"
      have v: "usage_ok v" "amount v k c = amount (en_usage en) k c" for k c
        using ds(2,3) rb.amt_refund_all [of "rev ds" u] by (simp_all add: v_def rollbackDeltas_def rb.invar_refund_all)
      then have "same_usage v (en_usage en)" using usage_ok_ext [OF _ assms(1)] by (simp add: same_usage_def)
      then show ?thesis using refused [of en2 v] en2(1) v assms(4) eq [folded en2_def] True
        by (auto simp: authorize_tail_def v_def denyDecision_def)
    next
      case False
      then show ?thesis using allowed [OF en2(1) _ _ ds(2) _ ds(4), of limits] ds(1,3) assms(4) eq [folded en2_def]
        by (simp add: authorize_tail_def cong: if_cong)
    qed
  qed
qed

lemma removeFinalized_frame [simp]:
  "en_config (removeFinalizedAuthorizations en) = en_config en"
  "en_configDigest (removeFinalizedAuthorizations en) = en_configDigest en"
  "en_challenges (removeFinalizedAuthorizations en) = en_challenges en"
  "en_challengeKeys (removeFinalizedAuthorizations en) = en_challengeKeys en"
  "en_usage (removeFinalizedAuthorizations en) = en_usage en"
  "en_reservations (removeFinalizedAuthorizations en) = en_reservations en"
  "en_decisionKeys (removeFinalizedAuthorizations en) = en_decisionKeys en"
  by (simp_all add: removeFinalizedAuthorizations_def)

lemma removeFinalized_get:
  assumes "auth_ok en"
  shows "map_of (en_authorizations (removeFinalizedAuthorizations en)) key = Some st \<longleftrightarrow>
    map_of (en_authorizations en) key = Some st \<and> \<not> au_finalized st"
  using assms by (auto simp: removeFinalizedAuthorizations_def auth_ok_def map_of_filter split: option.splits)

lemma engine_ok_removeFinalized: "engine_ok en \<Longrightarrow> engine_ok (removeFinalizedAuthorizations en)"
  using auth_ok_removeFinalized [of en] by (simp add: engine_ok_def) (simp add: removeFinalizedAuthorizations_def)

lemma engine_ok_usage:
  assumes "engine_ok en" and "usage_ok u" and "\<And>k c. amount u k c = amount (en_usage en) k c"
  shows "engine_ok (en\<lparr>en_usage := u\<rparr>)"
  using assms ledger_ok_usage [of en u] by (simp add: engine_ok_def)

lemma engine_ok_allow:
  assumes "engine_ok en" and "length (en_authorizations en) < maxAuthorizations"
    and "map_of (en_authorizations en) key = None" and "map_of (en_decisionKeys en) i = None"
    and "key_suffix key = format_u64 (revision en)"
    and "de_Result (au_decision st) = Allow" "de_PolicyRevision (au_decision st) = revision en"
    and "de_DecisionID (au_decision st) = i" "\<not> au_finalized st"
    and "usage_ok u" and "\<And>k c. amount u k c = amount (en_usage en) k c + delta_total ds k c"
  shows "engine_ok (en\<lparr>en_usage := u, en_authorizations := AList.update key st (en_authorizations en),
    en_decisionKeys := AList.update i key (en_decisionKeys en),
    en_reservations := (if ds \<noteq> [] then AList.update i ds (en_reservations en) else en_reservations en)\<rparr>)"
proof -
  define res where "res = (if ds \<noteq> [] then AList.update i ds (en_reservations en) else en_reservations en)"
  have ok: "config_ok en" "challenges_ok en" "ledger_ok en" "auth_ok en" using assms(1) by (auto simp: engine_ok_def)
  have "auth_ok (en\<lparr>en_authorizations := AList.update key st (en_authorizations en),
      en_decisionKeys := AList.update i key (en_decisionKeys en)\<rparr>)"
    using auth_ok_put ok(4) assms by blast
  moreover have "ledger_ok (en\<lparr>en_usage := u, en_reservations := res,
      en_decisionKeys := AList.update i key (en_decisionKeys en)\<rparr>)"
  proof (cases "ds = []")
    case True
    then have "ledger_ok (en\<lparr>en_usage := u\<rparr>)" using ledger_ok_usage [OF ok(3) assms(10)] assms(11) by simp
    then show ?thesis using ledger_ok_decision [of "en\<lparr>en_usage := u\<rparr>" i key] assms(4) True by (simp add: res_def)
  next
    case False
    then show ?thesis using ledger_ok_reserve [OF ok(3) assms(10) assms(4) assms(11)] by (simp add: res_def)
  qed
  ultimately show ?thesis using ok(1,2) unfolding res_def [symmetric]
    by (simp add: engine_ok_def) (simp add: auth_ok_def ledger_ok_def outstanding_def config_ok_def challenges_ok_def)
qed

lemma engine_ok_authorize:
  assumes "engine_ok en" and "ValidateBoundAction env a = None"
    and "authorize env en a cx (en_config en) key base = (r, en')"
    and "map_of (en_authorizations en) key = None" and "map_of (en_decisionKeys en) (de_DecisionID base) = None"
    and "key_suffix key = format_u64 (revision en)" and "de_Result base = Allow" and "de_PolicyRevision base = revision en"
  shows "engine_ok en'"
proof -
  have sealed: "SealConfig (en_config en) = Inr (en_config en)" "usage_ok (en_usage en)"
    using assms(1) by (simp_all add: engine_ok_def config_ok_def ledger_ok_def)
  have room: "engine_ok en2 \<and> en_config en2 = en_config en \<and> en_decisionKeys en2 = en_decisionKeys en
      \<and> en_usage en2 = en_usage en \<and> map_of (en_authorizations en2) key = None"
    if "en2 \<in> {en, removeFinalizedAuthorizations en}" for en2
    using that assms(1,4) engine_ok_removeFinalized [OF assms(1)] removeFinalized_get [of en key]
    by (auto simp: engine_ok_def)
  from sealed(2,1) assms(2,3) show ?thesis
  proof (cases rule: authorize_cases)
    case (refused en2 u)
    then show ?thesis using engine_ok_usage [of en2 u] room [OF refused(1)] by simp
  next
    case (allowed en2 u limits)
    show ?thesis unfolding allowed(7)
      using room [OF allowed(1)] allowed(2,4,5) assms by (intro engine_ok_allow) simp_all
  qed
qed

subsection \<open>The outcomes of \<open>Evaluate\<close>\<close>

definition gates_open :: "bound_action \<Rightarrow> policy_context \<Rightarrow> bool" where
  "gates_open a cx \<longleftrightarrow> \<not> cx_EmergencyStopped cx \<and> cx_CurrentEpoch cx = ba_ExpectedEpoch a
     \<and> tp_Clock (cx_Now cx) = tp_Clock (ba_ValidUntil a) \<and> tp_Value (cx_Now cx) < tp_Value (ba_ValidUntil a)"

lemma gate_None_iff: "gate a cx base = None \<longleftrightarrow> gates_open a cx"
  by (auto simp: gate_def gates_open_def)

lemma gate_Deny: "gate a cx base = Some d \<Longrightarrow> de_Result d = Deny"
  by (auto simp: gate_def denyDecision_def split: if_splits)

definition valid_call :: "go_env \<Rightarrow> bound_action \<Rightarrow> policy_context \<Rightarrow> bool" where
  "valid_call env a cx \<longleftrightarrow> ValidateBoundAction env a = None \<and> validateContext cx = None"

text \<open>What was required for \<open>authorize\<close> to be reached, and from which state.\<close>

definition cleared :: "engine \<Rightarrow> bound_action \<Rightarrow> policy_context \<Rightarrow> engine \<Rightarrow> bool" where
  "cleared en a cx en1 \<longleftrightarrow>
     (gp_result (evaluateGameplay (en_config en) a cx) = Allow \<and> cx_ConfirmationID cx = [] \<and> en1 = en)
     \<or> (gp_result (evaluateGameplay (en_config en) a cx) = RequireConfirmation
        \<and> consumeConfirmation en a cx (en_config en) = (Confirmed, en1))"

lemma decide_cases:
  assumes "SealConfig c = Inr (en_config en)" and "ba_Effects a \<noteq> []"
    and "decide env en a cx (en_config en) key base0 cr = (r, en')"
  obtains (denied) d where "r = Inr d" "de_Result d = Deny" "en' = en"
    | (asked) base ttl rr where "gp_result (evaluateGameplay (en_config en) a cx) = RequireConfirmation"
        "cx_ConfirmationID cx = []" "de_Result base = RequireConfirmation"
        "issueConfirmation en a cx (en_config en) ttl cr = (rr, en')"
        "r = (case rr of Inl e \<Rightarrow> Inl e | Inr ch \<Rightarrow> Inr (base\<lparr>de_Confirmation := Some ch\<rparr>))"
    | (authorized) en1 base where "cleared en a cx en1" "authorize env en1 a cx (en_config en) key base = (r, en')"
        "de_Result base = Allow" "de_DecisionID base = de_DecisionID base0"
        "de_PolicyRevision base = de_PolicyRevision base0" "de_EffectDigest base = de_EffectDigest base0"
proof -
  define g where "g = evaluateGameplay (en_config en) a cx"
  define base where "base = base0\<lparr>de_Result := gp_result g, de_MatchedRuleIDs := gp_matched g,
    de_ReasonCode := gp_reason g, de_HumanSummary := gp_summary g\<rparr>"
  note eq = assms(3) [unfolded decide_def Let_def, folded g_def, folded base_def]
  obtain cr' en1 where cons: "consumeConfirmation en a cx (en_config en) = (cr', en1)" by fastforce
  consider "gp_result g = Deny" | "gp_result g = RequireConfirmation" | "gp_result g = Allow"
    using gameplay_result_valid [OF assms(1,2), of cx] by (auto simp: validResult_def g_def)
  then show thesis
  proof cases
    case 1
    then show thesis using eq by (intro denied) (auto simp: base_def)
  next
    case 2
    from cons show thesis
    proof (cases rule: consumeConfirmation_cases)
      case none
      obtain ttl ok where ttl: "confirmationTTL (pc_ConfirmationTTL (en_config en)) (tp_Clock (cx_Now cx)) = (ttl, ok)"
        by fastforce
      obtain rr en2 where rr: "issueConfirmation en a cx (en_config en) ttl cr = (rr, en2)" by fastforce
      show thesis
      proof (cases ok)
        case True
        then show thesis using eq 2 cons none ttl rr asked [OF _ none(1), of base ttl rr]
          by (auto simp: g_def base_def split: sum.splits)
      next
        case False
        then show thesis using eq 2 cons none ttl by (intro denied) (auto simp: denyDecision_def)
      qed
    next
      case rejected
      then show thesis using eq 2 cons by (intro denied) (auto simp: invalid_confirmation_def)
    next
      case confirmed
      define base1 where "base1 = base\<lparr>de_Result := Allow,
        de_MatchedRuleIDs := appendUnique (de_MatchedRuleIDs base) ''confirmation.consumed'',
        de_ReasonCode := ''policy.confirmed'',
        de_HumanSummary := ''The approved single-use confirmation matches this exact effect preview.''\<rparr>"
      have "authorize env en1 a cx (en_config en) key base1 = (r, en')"
        using eq 2 cons confirmed(5) by (simp add: base1_def)
      then show thesis using 2 cons confirmed(5)
        by (intro authorized [of en1 base1]) (simp_all add: cleared_def g_def base_def base1_def)
    qed
  next
    case 3
    show thesis
    proof (cases "cx_ConfirmationID cx = []")
      case True
      then show thesis using eq 3 by (intro authorized [of en base]) (auto simp: cleared_def g_def base_def)
    next
      case False
      then show thesis using eq 3 by (intro denied) (auto simp: denyDecision_def)
    qed
  qed
qed

lemma prune_frame [simp]:
  "en_config (pruneChallenges en a cx) = en_config en"
  "en_configDigest (pruneChallenges en a cx) = en_configDigest en"
  "en_usage (pruneChallenges en a cx) = en_usage en"
  "en_reservations (pruneChallenges en a cx) = en_reservations en"
  "en_authorizations (pruneChallenges en a cx) = en_authorizations en"
  "en_decisionKeys (pruneChallenges en a cx) = en_decisionKeys en"
  by (simp_all add: pruneChallenges_def Let_def)

lemma consume_frame:
  assumes "consumeConfirmation en a cx config = (r, en')"
  shows "en_config en' = en_config en \<and> en_usage en' = en_usage en \<and> en_reservations en' = en_reservations en
    \<and> en_authorizations en' = en_authorizations en \<and> en_decisionKeys en' = en_decisionKeys en"
  using assms by (cases rule: consumeConfirmation_cases) simp_all

lemma cleared_frame:
  assumes "cleared en a cx en1"
  shows "en_config en1 = en_config en \<and> en_usage en1 = en_usage en \<and> en_reservations en1 = en_reservations en
    \<and> en_authorizations en1 = en_authorizations en \<and> en_decisionKeys en1 = en_decisionKeys en"
  using assms consume_frame unfolding cleared_def by blast

lemma valid_call_effects: "valid_call env a cx \<Longrightarrow> ba_Effects a \<noteq> []"
  using ValidateBoundAction_facts(12) [of env a] by (simp add: valid_call_def)

text \<open>
  Every call of \<open>Evaluate\<close> ends in one of five ways. The state it works on is the one after pruning; the authorisation
  key is that of the active revision.
\<close>

lemma Evaluate_cases:
  assumes "config_ok en" and "Evaluate env en a cx dr cr = (r, en')"
  obtains (invalid) e where "r = Inl e" "en' = en"
    | (denied) d where "valid_call env a cx" "r = Inr d" "de_Result d = Deny" "en' = pruneChallenges en a cx"
    | (cached) st where "valid_call env a cx" "gates_open a cx"
        "map_of (en_authorizations en) (makeAuthorizationKey a cx (revision en)) = Some st"
        "au_confirmationID st = cx_ConfirmationID cx" "r = Inr (au_decision st)" "en' = pruneChallenges en a cx"
    | (asked) base ttl rr where "valid_call env a cx" "gates_open a cx"
        "map_of (en_authorizations en) (makeAuthorizationKey a cx (revision en)) = None"
        "gp_result (evaluateGameplay (en_config en) a cx) = RequireConfirmation"
        "cx_ConfirmationID cx = []" "de_Result base = RequireConfirmation"
        "issueConfirmation (pruneChallenges en a cx) a cx (en_config en) ttl cr = (rr, en')"
        "r = (case rr of Inl e \<Rightarrow> Inl e | Inr ch \<Rightarrow> Inr (base\<lparr>de_Confirmation := Some ch\<rparr>))"
    | (authorized) en1 base hex where "valid_call env a cx" "gates_open a cx" "dr = Some hex"
        "map_of (en_authorizations en) (makeAuthorizationKey a cx (revision en)) = None"
        "cleared (pruneChallenges en a cx) a cx en1"
        "authorize env en1 a cx (en_config en) (makeAuthorizationKey a cx (revision en)) base = (r, en')"
        "de_Result base = Allow" "de_DecisionID base = ''decision.'' @ hex" "de_PolicyRevision base = revision en"
        "de_EffectDigest base = ba_EffectDigest a"
proof (cases "valid_call env a cx \<and> dr \<noteq> None")
  case False
  then have "\<exists>e. r = Inl e \<and> en' = en" using assms(2)
    by (auto simp: valid_call_def Evaluate_def newID_def split: option.splits)
  then show thesis using invalid by blast
next
  case True
  then obtain hex where valid: "valid_call env a cx" "dr = Some hex" by blast
  define en1 where "en1 = pruneChallenges en a cx"
  define base where "base = base_decision (en_config en) a cx (''decision.'' @ hex)"
  define key where "key = makeAuthorizationKey a cx (revision en)"
  have eq: "Evaluate env en a cx dr cr =
      (case gate a cx base of
         Some d \<Rightarrow> (Inr d, en1)
       | None \<Rightarrow>
         (case map_of (en_authorizations en) key of
            Some st \<Rightarrow>
              if au_confirmationID st = cx_ConfirmationID cx then (Inr (au_decision st), en1)
              else (Inr (denyDecision base ''kernel.invalid-confirmation'' ''policy.invalid_confirmation''
                      ''The confirmation does not match the existing authorization for this binding.''), en1)
          | None \<Rightarrow> decide env en1 a cx (en_config en) key base cr))"
    using valid by (simp add: Evaluate_def valid_call_def newID_def Let_def en1_def base_def key_def cong: option.case_cong if_cong)
  have base: "de_DecisionID base = ''decision.'' @ hex" "de_PolicyRevision base = revision en"
    "de_EffectDigest base = ba_EffectDigest a"
    by (simp_all add: base_def base_decision_def)
  consider d where "gate a cx base = Some d" | st where "gates_open a cx" "map_of (en_authorizations en) key = Some st"
    | "gates_open a cx" "map_of (en_authorizations en) key = None"
    by (metis gate_None_iff option.exhaust)
  then show thesis
  proof cases
    case 1
    then show thesis using denied valid(1) assms(2) eq gate_Deny [OF 1] by (auto simp: en1_def)
  next
    case (2 st)
    then show thesis using denied cached valid(1) assms(2) eq gate_None_iff [of a cx base]
      by (cases "au_confirmationID st = cx_ConfirmationID cx") (auto simp: en1_def key_def denyDecision_def)
  next
    case 3
    have sealed: "SealConfig (en_config en) = Inr (en_config en1)" using assms(1) by (simp add: config_ok_def en1_def)
    have "decide env en1 a cx (en_config en1) key base cr = (r, en')"
      using assms(2) eq 3 gate_None_iff [of a cx base] by (simp add: en1_def)
    from sealed valid_call_effects [OF valid(1)] this show thesis
    proof (cases rule: decide_cases)
      case (denied d)
      then show thesis using that(2) valid(1) by (simp add: en1_def)
    next
      case (asked b ttl rr)
      then show thesis using that(4) [of b ttl rr] valid(1) 3 by (simp add: en1_def key_def)
    next
      case (authorized en2 b)
      then show thesis using that(5) [of hex en2 b] valid 3 base by (simp add: en1_def key_def)
    qed
  qed
qed

subsection \<open>Preservation\<close>

lemma engine_ok_cleared:
  assumes "engine_ok en" and "cleared en a cx en1"
  shows "engine_ok en1"
  using assms engine_ok_consume unfolding cleared_def by blast

lemma fresh_challenge_prune:
  assumes "engine_ok en" and "fresh_challenge en random"
  shows "fresh_challenge (pruneChallenges en a cx) random"
proof -
  have "map_ok (en_challenges en)" using assms(1) by (simp add: engine_ok_def challenges_ok_def)
  then show ?thesis using assms(2)
    by (auto simp: fresh_challenge_def pruneChallenges_def Let_def map_of_filter split: option.splits)
qed

lemma engine_ok_Evaluate:
  assumes "engine_ok en" and "fresh_decision en dr" and "fresh_challenge en cr"
    and "Evaluate env en a cx dr cr = (r, en')"
  shows "engine_ok en'"
proof -
  have config: "config_ok en" using assms(1) by (simp add: engine_ok_def)
  note pruned = engine_ok_prune [OF assms(1), of a cx]
  from config assms(4) show ?thesis
  proof (cases rule: Evaluate_cases)
    case (asked base ttl rr)
    then show ?thesis
      using engine_ok_issue [OF pruned] fresh_challenge_prune [OF assms(1,3)] by simp
  next
    case (authorized en1 base hex)
    note frame = cleared_frame [OF authorized(5)]
    have "map_of (en_decisionKeys en1) (de_DecisionID base) = None"
      using assms(2) authorized(3,8) frame by (simp add: fresh_decision_def)
    then show ?thesis
      using engine_ok_authorize [OF engine_ok_cleared [OF pruned authorized(5)], of env a cx] authorized frame
      by (simp add: valid_call_def)
  qed (use assms(1) pruned in simp_all)
qed

lemma engine_ok_New:
  assumes "New digest config = Inr en"
  shows "engine_ok en"
  using assms SealConfig_sealed
  by (auto simp: New_def ebind_Inr_iff engine_ok_def config_ok_def challenges_ok_def ledger_ok_def auth_ok_def usage_ok_def
      outstanding_def)

lemma engine_ok_Update:
  assumes "engine_ok en"
  shows "engine_ok (snd (Update digest en config))"
proof (cases "fst (Update digest en config) = None")
  case False
  then show ?thesis using assms by (auto simp: Update_def split: sum.splits if_splits)
next
  case True
  then obtain sealed d where s: "SealConfig config = Inr sealed" "digest sealed = Inr d"
    "pc_Revision sealed > revision en"
    by (auto simp: Update_def split: sum.splits if_splits)
  have eq: "snd (Update digest en config) = en\<lparr>en_config := sealed, en_configDigest := d, en_challenges := [],
      en_challengeKeys := [], en_authorizations := []\<rparr>"
    using s by (simp add: Update_def)
  have ok: "ledger_ok en" "auth_ok en" using assms by (simp_all add: engine_ok_def)
  have "retired (pc_Revision sealed) key" if "map_of (en_decisionKeys en) i = Some key" for i key
    using auth_link(2) [OF ok(2) that] retired_mono [OF _ s(3)] retired_old [OF _ s(3)] ok(2)
    by (cases "map_of (en_authorizations en) key") (auto simp: auth_ok_def)
  then show ?thesis using ok SealConfig_sealed [OF s(1)] unfolding eq
    by (auto simp: engine_ok_def config_ok_def challenges_ok_def ledger_ok_def auth_ok_def outstanding_def decision_link_def)
qed

end
