(* ===== verification/Policy_State.thy ===== *)
theory Policy_State
  imports Policy_Invariant
begin

section \<open>Policy checkpoints (package \<open>policy\<close>, state.go)\<close>

text \<open>
  A checkpoint carries the budget usage and the reservations of live decisions over a restart. \<open>snapshotState\<close> writes it,
  \<open>ValidateState\<close> checks one that was read back, \<open>RestoreState\<close> installs it into a fresh engine. The theory shows what a
  partial checkpoint contains, when a checkpoint of the engine is accepted again, that a restored engine keeps the
  invariant whatever the checkpoint, and that restoring is a round trip on the ledger. At the end, the engine as a
  transition system, restarts included.
\<close>

definition StateVersion :: string where "StateVersion = ''rin.policy.state/v1''"
definition maxCheckpointUsage :: nat where "maxCheckpointUsage = 8192"
definition maxCheckpointReservations :: nat where "maxCheckpointReservations = maxAuthorizations"
definition maxCheckpointDeltas :: nat where "maxCheckpointDeltas = 128"
definition maxCheckpointKeyBytes :: nat where "maxCheckpointKeyBytes = 1024"

record usage_checkpoint =
  uc_Key :: string
  uc_Actions :: u64
  uc_Quantity :: u64

record reservation_checkpoint =
  rc_DecisionID :: string
  rc_Deltas :: "usage_checkpoint list"

record policy_state =
  st_Version :: string
  st_PolicyRevision :: u64
  st_ConfigDigest :: string
  st_Usage :: "usage_checkpoint list"
  st_Reservations :: "reservation_checkpoint list"

subsection \<open>Writing a checkpoint\<close>

definition checkpoint_usage :: "string \<times> budget_usage \<Rightarrow> usage_checkpoint" where
  "checkpoint_usage e = \<lparr>uc_Key = fst e, uc_Actions = us_actions (snd e), uc_Quantity = us_quantity (snd e)\<rparr>"

definition checkpoint_delta :: "budget_delta \<Rightarrow> usage_checkpoint" where
  "checkpoint_delta d = \<lparr>uc_Key = dl_key d, uc_Actions = dl_actions d, uc_Quantity = dl_quantity d\<rparr>"

definition checkpoint_reservation :: "string \<times> budget_delta list \<Rightarrow> reservation_checkpoint" where
  "checkpoint_reservation e = \<lparr>rc_DecisionID = fst e, rc_Deltas = sort_key uc_Key (map checkpoint_delta (snd e))\<rparr>"

text \<open>
  \<open>included\<close> is \<open>None\<close> for a full checkpoint and the list of registered decisions otherwise. The loop over the map of
  reservations runs in the order of the list.
\<close>

definition keeps :: "string list option \<Rightarrow> string \<times> budget_delta list \<Rightarrow> bool" where
  "keeps included e = (case included of None \<Rightarrow> True | Some ids \<Rightarrow> fst e \<in> set ids)"

definition snapshot_usage :: "engine \<Rightarrow> string list option \<Rightarrow> (string, budget_usage) gomap" where
  "snapshot_usage en included =
     fold (\<lambda>e usage. if keeps included e then usage else fold snapshot_delta (snd e) usage)
       (en_reservations en) (en_usage en)"

definition snapshotState :: "engine \<Rightarrow> string list option \<Rightarrow> policy_state" where
  "snapshotState en included = \<lparr>
     st_Version = StateVersion,
     st_PolicyRevision = pc_Revision (en_config en),
     st_ConfigDigest = en_configDigest en,
     st_Usage = sort_key uc_Key (map checkpoint_usage (snapshot_usage en included)),
     st_Reservations =
       sort_key rc_DecisionID (map checkpoint_reservation (filter (keeps included) (en_reservations en)))\<rparr>"

definition SnapshotState :: "engine \<Rightarrow> policy_state" where
  "SnapshotState en = snapshotState en None"

definition SnapshotStateFor :: "engine \<Rightarrow> string list \<Rightarrow> policy_state" where
  "SnapshotStateFor en decisionIDs = snapshotState en (Some decisionIDs)"

subsection \<open>Reading a checkpoint\<close>

definition json_safe :: "u64 \<Rightarrow> bool" where
  "json_safe w \<longleftrightarrow> unat w \<le> maxJSONSafeInteger"

definition validateCheckpointUsage :: "string \<Rightarrow> usage_checkpoint \<Rightarrow> policy_error option" where
  "validateCheckpointUsage field v =
     first_err [
       require (uc_Key v \<noteq> [] \<and> length (uc_Key v) \<le> maxCheckpointKeyBytes \<and> valid_utf8 (uc_Key v))
         (PolicyError (field @ ''.key must be bounded UTF-8'')),
       require (json_safe (uc_Actions v) \<and> json_safe (uc_Quantity v))
         (PolicyError (field @ '' counters must be JSON-safe integers'')),
       require (\<not> (uc_Actions v = 0 \<and> uc_Quantity v = 0))
         (PolicyError (field @ '' must contain non-zero usage''))]"

definition checkpoint_map :: "usage_checkpoint list \<Rightarrow> (string, budget_usage) gomap" where
  "checkpoint_map us = fold (\<lambda>u. AList.update (uc_Key u) \<lparr>us_actions = uc_Actions u, us_quantity = uc_Quantity u\<rparr>) us []"

text \<open>The inner loop over the deltas of one reservation; it threads the running totals per usage key.\<close>

fun validate_deltas ::
  "(string, budget_usage) gomap \<Rightarrow> string \<Rightarrow> nat \<Rightarrow> string list \<Rightarrow> (string, budget_usage) gomap
     \<Rightarrow> usage_checkpoint list \<Rightarrow> policy_error + (string, budget_usage) gomap" where
  "validate_deltas usage field index keys reserved [] = Inr reserved"
| "validate_deltas usage field index keys reserved (delta # deltas) =
     (case validateCheckpointUsage (indexed (field @ ''.deltas'') index) delta of
        Some e \<Rightarrow> Inl e
      | None \<Rightarrow>
        if uc_Key delta \<in> set keys then Inl (PolicyError (field @ '' contains duplicate delta keys''))
        else case map_of usage (uc_Key delta) of
          None \<Rightarrow> Inl (PolicyError (field @ '' references a missing usage bucket''))
        | Some current \<Rightarrow>
            let total = usage_of reserved (uc_Key delta);
                limit = of_nat maxJSONSafeInteger :: u64 in
            if limit - us_actions total < uc_Actions delta \<or> limit - us_quantity total < uc_Quantity delta
            then Inl (PolicyError (field @ '' reservation total overflows''))
            else
              let next = \<lparr>us_actions = us_actions total + uc_Actions delta,
                          us_quantity = us_quantity total + uc_Quantity delta\<rparr> in
              if us_actions next > us_actions current \<or> us_quantity next > us_quantity current
              then Inl (PolicyError (field @ '' exceeds the corresponding usage bucket''))
              else validate_deltas usage field (Suc index) (uc_Key delta # keys)
                     (AList.update (uc_Key delta) next reserved) deltas)"

fun validate_reservations ::
  "(string, budget_usage) gomap \<Rightarrow> nat \<Rightarrow> string list \<Rightarrow> (string, budget_usage) gomap
     \<Rightarrow> reservation_checkpoint list \<Rightarrow> policy_error option" where
  "validate_reservations usage index decisions reserved [] = None"
| "validate_reservations usage index decisions reserved (r # rs) =
     (let field = indexed ''reservations'' index in
      case first_err [
          validateID (field @ ''.decision_id'') (rc_DecisionID r) False,
          require (rc_DecisionID r \<notin> set decisions)
            (PolicyError ''policy state contains duplicate reservation decisions''),
          require (rc_Deltas r \<noteq> [] \<and> length (rc_Deltas r) \<le> maxCheckpointDeltas)
            (PolicyError (field @ ''.deltas must contain between 1 and '' @ format_nat maxCheckpointDeltas @ '' values''))] of
        Some e \<Rightarrow> Some e
      | None \<Rightarrow>
          (case validate_deltas usage field 0 [] reserved (rc_Deltas r) of
             Inl e \<Rightarrow> Some e
           | Inr reserved' \<Rightarrow> validate_reservations usage (Suc index) (rc_DecisionID r # decisions) reserved' rs))"

definition ValidateState :: "policy_state \<Rightarrow> policy_error option" where
  "ValidateState s =
     first_err [
       require (st_Version s = StateVersion)
         (PolicyError (''unsupported policy state version '' @ quoted (st_Version s))),
       require (st_PolicyRevision s \<noteq> 0 \<and> json_safe (st_PolicyRevision s))
         (PolicyError ''policy state revision is invalid''),
       require (digest_pattern (st_ConfigDigest s))
         (PolicyError ''policy state config_digest must be a lowercase SHA-256 digest''),
       require (length (st_Usage s) \<le> maxCheckpointUsage)
         (PolicyError ''policy state contains too many usage buckets''),
       require (length (st_Reservations s) \<le> maxCheckpointReservations)
         (PolicyError ''policy state contains too many reservations''),
       loop_err (\<lambda>i seen u. first_err [
           validateCheckpointUsage (indexed ''usage'' i) u,
           require (uc_Key u \<notin> uc_Key ` set seen) (PolicyError ''policy state contains duplicate usage keys'')])
         [] (st_Usage s),
       validate_reservations (checkpoint_map (st_Usage s)) 0 [] [] (st_Reservations s)]"

definition restored_key :: "string \<Rightarrow> string" where
  "restored_key decisionID = ''restored'' @ NUL # decisionID"

definition restore_delta :: "usage_checkpoint \<Rightarrow> budget_delta" where
  "restore_delta u = \<lparr>dl_key = uc_Key u, dl_actions = uc_Actions u, dl_quantity = uc_Quantity u\<rparr>"

definition restore_reservation :: "reservation_checkpoint \<Rightarrow> engine \<Rightarrow> engine" where
  "restore_reservation r en = en\<lparr>
     en_reservations := AList.update (rc_DecisionID r) (map restore_delta (rc_Deltas r)) (en_reservations en),
     en_decisionKeys := AList.update (rc_DecisionID r) (restored_key (rc_DecisionID r)) (en_decisionKeys en)\<rparr>"

definition RestoreState :: "engine \<Rightarrow> policy_state \<Rightarrow> policy_error option \<times> engine" where
  "RestoreState en s =
     (case first_err [
         ValidateState s,
         require (st_PolicyRevision s = pc_Revision (en_config en))
           (PolicyError (''policy state revision '' @ format_u64 (st_PolicyRevision s) @
              '' does not match active revision '' @ format_u64 (pc_Revision (en_config en)))),
         require (st_ConfigDigest s = en_configDigest en)
           (PolicyError ''policy state config digest does not match the active policy''),
         require (en_usage en = [] \<and> en_reservations en = [] \<and> en_challenges en = [] \<and> en_authorizations en = []
                  \<and> en_decisionKeys en = [])
           (PolicyError ''policy state can only be restored into a fresh Engine'')] of
        Some e \<Rightarrow> (Some e, en)
      | None \<Rightarrow>
          (None, fold restore_reservation (st_Reservations s)
             (en\<lparr>en_usage := fold (\<lambda>u. AList.update (uc_Key u) \<lparr>us_actions = uc_Actions u, us_quantity = uc_Quantity u\<rparr>)
                                (st_Usage s) (en_usage en)\<rparr>)))"

subsection \<open>What a checkpoint contains\<close>

text \<open>The part of the ledger that no outstanding reservation covers.\<close>

definition committed_amount :: "engine \<Rightarrow> string \<Rightarrow> counter \<Rightarrow> nat" where
  "committed_amount en k c = amount (en_usage en) k c - delta_total (outstanding en) k c"

definition kept :: "string list option \<Rightarrow> engine \<Rightarrow> budget_delta list" where
  "kept included en = concat (map snd (filter (keeps included) (en_reservations en)))"

definition dropped :: "string list option \<Rightarrow> engine \<Rightarrow> budget_delta list" where
  "dropped included en = concat (map snd (filter (\<lambda>e. \<not> keeps included e) (en_reservations en)))"

lemma snapshot_usage_fold: "snapshot_usage en included = fold snapshot_delta (dropped included en) (en_usage en)"
proof -
  have "fold (\<lambda>e usage. if keeps included e then usage else fold snapshot_delta (snd e) usage) rs u =
      fold snapshot_delta (concat (map snd (filter (\<lambda>e. \<not> keeps included e) rs))) u" for rs u
    by (induction rs arbitrary: u) auto
  then show ?thesis by (simp add: snapshot_usage_def dropped_def)
qed

lemma kept_dropped: "delta_total (outstanding en) k c = delta_total (kept included en) k c + delta_total (dropped included en) k c"
proof -
  have "delta_total (concat (map snd rs)) k c = delta_total (concat (map snd (filter (keeps included) rs))) k c
      + delta_total (concat (map snd (filter (\<lambda>e. \<not> keeps included e) rs))) k c" for rs
  proof (induction rs)
    case (Cons r rs)
    then show ?case by (cases "keeps included r") simp_all
  qed simp
  then show ?thesis unfolding outstanding_def kept_def dropped_def .
qed

lemma amount_snapshot_usage:
  assumes "ledger_ok en"
  shows "amount (snapshot_usage en included) k c = committed_amount en k c + delta_total (kept included en) k c"
proof -
  have covered: "delta_total (outstanding en) k c \<le> amount (en_usage en) k c" for k c
    using assms by (simp add: ledger_ok_def)
  have "delta_total (dropped included en) k c \<le> amount (en_usage en) k c" for k c
    using covered [of k c] kept_dropped [of en k c included] by linarith
  from sn.amt_refund_all [OF this] show ?thesis using covered [of k c] kept_dropped [of en k c included]
    unfolding snapshot_usage_fold committed_amount_def by simp
qed

lemma snapshot_usage_ok: "ledger_ok en \<Longrightarrow> usage_ok (snapshot_usage en included)"
  unfolding snapshot_usage_fold by (rule sn.invar_refund_all) (simp add: ledger_ok_def)

lemma map_of_fold_update:
  "map_of (fold (\<lambda>u. AList.update (f u) (g u)) us m) = map_of m ++ map_of (rev (map (\<lambda>u. (f u, g u)) us))"
  by (induction us arbitrary: m) (auto simp: gm.get_put fun_eq_iff map_add_def split: option.splits)

lemma map_ok_fold_update: "map_ok m \<Longrightarrow> map_ok (fold (\<lambda>u. AList.update (f u) (g u)) us m)"
  by (induction us arbitrary: m) (auto intro: gm.invar_put)

definition checkpoint_pair :: "usage_checkpoint \<Rightarrow> string \<times> budget_usage" where
  "checkpoint_pair u = (uc_Key u, \<lparr>us_actions = uc_Actions u, us_quantity = uc_Quantity u\<rparr>)"

lemma checkpoint_pair_usage [simp]: "checkpoint_pair (checkpoint_usage e) = e"
  by (cases e) (simp add: checkpoint_pair_def checkpoint_usage_def)

lemma checkpoint_map_get:
  assumes "distinct (map uc_Key us)"
  shows "map_of (checkpoint_map us) = map_of (map checkpoint_pair us)"
proof -
  have "distinct (map fst (map checkpoint_pair us))"
    using assms by (simp add: checkpoint_pair_def comp_def)
  then have "map_of (rev (map checkpoint_pair us)) = map_of (map checkpoint_pair us)"
    by (subst map_of_inject_set) (simp_all add: rev_map [symmetric])
  moreover have "checkpoint_pair = (\<lambda>u. (uc_Key u, \<lparr>us_actions = uc_Actions u, us_quantity = uc_Quantity u\<rparr>))"
    by (auto simp: checkpoint_pair_def)
  ultimately show ?thesis by (simp add: checkpoint_map_def map_of_fold_update)
qed

lemma amount_cong: "map_of m = map_of n \<Longrightarrow> amount m = amount n"
  by (simp add: amount_def usage_of_def fun_eq_iff)

lemma checkpoint_of_usage:
  assumes "map_ok m"
  shows "map_of (checkpoint_map (sort_key uc_Key (map checkpoint_usage m))) = map_of m"
    and "distinct (map uc_Key (sort_key uc_Key (map checkpoint_usage m)))"
proof -
  let ?us = "sort_key uc_Key (map checkpoint_usage m)"
  have keys: "map uc_Key (map checkpoint_usage m) = map fst m" by (simp add: checkpoint_usage_def)
  have perm: "mset (map checkpoint_pair ?us) = mset m"
    by (simp add: multiset.map_comp comp_def)
  have "mset (map uc_Key ?us) = mset (map fst m)" using keys by (metis mset_map mset_sort)
  then show d: "distinct (map uc_Key ?us)" using assms by (metis mset_eq_imp_distinct_iff)
  have "distinct (map fst (map checkpoint_pair ?us))" using perm assms by (metis mset_eq_imp_distinct_iff mset_map)
  then show "map_of (checkpoint_map ?us) = map_of m"
    using assms mset_eq_setD [OF perm] map_of_inject_set checkpoint_map_get [OF d] by metis
qed

text \<open>
  a checkpoint for a list of registered decisions holds, for every budget and both counters, the committed amount plus
  the reservations of exactly those decisions: what other calls have reserved but not registered yet is taken out
  exactly, although the loop subtracts without an underflow check.
\<close>

theorem snapshot_contains_registered:
  assumes "engine_ok en"
  shows "amount (checkpoint_map (st_Usage (SnapshotStateFor en ids))) k c =
      committed_amount en k c + delta_total (kept (Some ids) en) k c"
proof -
  have "ledger_ok en" using assms by (simp add: engine_ok_def)
  note ok = snapshot_usage_ok [OF this, of "Some ids"]
  have "map_of (checkpoint_map (st_Usage (SnapshotStateFor en ids))) = map_of (snapshot_usage en (Some ids))"
    using checkpoint_of_usage(1) ok by (simp add: SnapshotStateFor_def snapshotState_def usage_ok_def)
  then show ?thesis using amount_snapshot_usage [OF \<open>ledger_ok en\<close>] amount_cong by metis
qed

subsection \<open>Which checkpoints are accepted\<close>

fun uc_count :: "usage_checkpoint \<Rightarrow> counter \<Rightarrow> nat" where
  "uc_count u Actions = unat (uc_Actions u)"
| "uc_count u Quantity = unat (uc_Quantity u)"

abbreviation uc_total :: "usage_checkpoint list \<Rightarrow> string \<Rightarrow> counter \<Rightarrow> nat" where
  "uc_total \<equiv> total uc_Key uc_count"

definition checkpoint_ok :: "usage_checkpoint \<Rightarrow> bool" where
  "checkpoint_ok u \<longleftrightarrow> uc_Key u \<noteq> [] \<and> length (uc_Key u) \<le> 1024 \<and> valid_utf8 (uc_Key u)
     \<and> json_safe (uc_Actions u) \<and> json_safe (uc_Quantity u) \<and> (uc_Actions u \<noteq> 0 \<or> uc_Quantity u \<noteq> 0)"

lemma validateCheckpointUsage_None [validator_simps]: "validateCheckpointUsage field u = None \<longleftrightarrow> checkpoint_ok u"
  by (auto simp: validateCheckpointUsage_def checkpoint_ok_def maxCheckpointKeyBytes_def)

text \<open>The specification of \<open>ValidateState\<close>: the running totals of its loops amount to one bound per budget and counter.\<close>

definition reservations_ok :: "usage_checkpoint list \<Rightarrow> reservation_checkpoint list \<Rightarrow> bool" where
  "reservations_ok us rs \<longleftrightarrow>
     distinct (map rc_DecisionID rs)
     \<and> (\<forall>r \<in> set rs. id_pattern (rc_DecisionID r) \<and> length (rc_DecisionID r) \<le> 96
          \<and> rc_Deltas r \<noteq> [] \<and> length (rc_Deltas r) \<le> 128 \<and> distinct (map uc_Key (rc_Deltas r))
          \<and> (\<forall>d \<in> set (rc_Deltas r). checkpoint_ok d \<and> uc_Key d \<in> uc_Key ` set us))
     \<and> (\<forall>k c. uc_total (concat (map rc_Deltas rs)) k c \<le> uc_total us k c)"

definition valid_state :: "policy_state \<Rightarrow> bool" where
  "valid_state s \<longleftrightarrow> st_Version s = StateVersion \<and> st_PolicyRevision s \<noteq> 0 \<and> json_safe (st_PolicyRevision s)
     \<and> digest_pattern (st_ConfigDigest s) \<and> length (st_Usage s) \<le> 8192 \<and> length (st_Reservations s) \<le> 4096
     \<and> distinct (map uc_Key (st_Usage s)) \<and> (\<forall>u \<in> set (st_Usage s). checkpoint_ok u)
     \<and> reservations_ok (st_Usage s) (st_Reservations s)"

lemma delta_fits:
  fixes t d cur :: u64
  assumes "unat t \<le> unat cur" and "json_safe cur"
  shows "(of_nat maxJSONSafeInteger - t < d \<or> t + d > cur) \<longleftrightarrow> \<not> unat t + unat d \<le> unat cur"
    and "unat t + unat d \<le> unat cur \<Longrightarrow> unat (t + d) = unat t + unat d"
proof -
  let ?M = "of_nat maxJSONSafeInteger :: u64"
  have M: "unat ?M = maxJSONSafeInteger" "maxJSONSafeInteger < 2 ^ 64"
    by (simp_all add: maxJSONSafeInteger_def)
  have "t \<le> ?M" using assms M(1) by (simp add: word_le_nat_alt json_safe_def)
  then have sub: "unat (?M - t) = maxJSONSafeInteger - unat t" using M(1) by (simp add: unat_minus_le)
  have plus: "unat (t + d) = unat t + unat d" if "unat t + unat d \<le> maxJSONSafeInteger"
    using that M(2) by (intro unat_plus_no_wrap) simp
  then show "unat t + unat d \<le> unat cur \<Longrightarrow> unat (t + d) = unat t + unat d"
    using assms(2) by (simp add: json_safe_def)
  show "(?M - t < d \<or> t + d > cur) \<longleftrightarrow> \<not> unat t + unat d \<le> unat cur"
  proof (cases "unat t + unat d \<le> maxJSONSafeInteger")
    case True
    then show ?thesis using plus [OF True] sub by (auto simp: word_less_nat_alt)
  next
    case False
    then show ?thesis using sub assms by (auto simp: word_less_nat_alt json_safe_def)
  qed
qed

definition deltas_fit :: "(string, budget_usage) gomap \<Rightarrow> string list \<Rightarrow> (string, budget_usage) gomap \<Rightarrow> usage_checkpoint list \<Rightarrow> bool" where
  "deltas_fit usage keys reserved ds \<longleftrightarrow>
     (\<forall>d \<in> set ds. checkpoint_ok d \<and> map_of usage (uc_Key d) \<noteq> None \<and> uc_Key d \<notin> set keys) \<and> distinct (map uc_Key ds)
     \<and> (\<forall>k c. amount reserved k c + uc_total ds k c \<le> amount usage k c)"

definition safe_usage :: "(string, budget_usage) gomap \<Rightarrow> bool" where
  "safe_usage usage \<longleftrightarrow> (\<forall>k u. map_of usage k = Some u \<longrightarrow> json_safe (us_actions u) \<and> json_safe (us_quantity u))"

definition add_checkpoint :: "usage_checkpoint \<Rightarrow> (string, budget_usage) gomap \<Rightarrow> (string, budget_usage) gomap" where
  "add_checkpoint d reserved = AList.update (uc_Key d)
     \<lparr>us_actions = us_actions (usage_of reserved (uc_Key d)) + uc_Actions d,
      us_quantity = us_quantity (usage_of reserved (uc_Key d)) + uc_Quantity d\<rparr> reserved"

lemma add_checkpoint_fits:
  assumes "safe_usage usage" and "\<And>k c. amount reserved k c \<le> amount usage k c"
    and "map_of usage (uc_Key d) = Some cur" and "total0 = usage_of reserved (uc_Key d)"
  shows "((of_nat maxJSONSafeInteger - us_actions total0 < uc_Actions d \<or> of_nat maxJSONSafeInteger - us_quantity total0 < uc_Quantity d)
       \<or> (us_actions total0 + uc_Actions d > us_actions cur \<or> us_quantity total0 + uc_Quantity d > us_quantity cur)) \<longleftrightarrow>
       \<not> (\<forall>k c. amount reserved k c + uc_total [d] k c \<le> amount usage k c)"
    and "(\<forall>k c. amount reserved k c + uc_total [d] k c \<le> amount usage k c) \<Longrightarrow>
       amount (add_checkpoint d reserved) k c = amount reserved k c + uc_total [d] k c"
proof -
  have cur: "amount usage (uc_Key d) c = counter_of cur c" for c
    using assms(3) by (simp add: amount_def usage_of_def)
  have le: "unat (us_actions total0) \<le> unat (us_actions cur)" "unat (us_quantity total0) \<le> unat (us_quantity cur)"
    using assms(2) [of "uc_Key d" Actions] assms(2) [of "uc_Key d" Quantity] assms(4) by (simp_all add: cur) (simp_all add: amount_def)
  have safe: "json_safe (us_actions cur)" "json_safe (us_quantity cur)"
    using assms(1,3) by (auto simp: safe_usage_def)
  note A = delta_fits [OF le(1) safe(1), of "uc_Actions d"] and Q = delta_fits [OF le(2) safe(2), of "uc_Quantity d"]
  have all: "(\<forall>k c. amount reserved k c + uc_total [d] k c \<le> amount usage k c) \<longleftrightarrow>
      unat (us_actions total0) + unat (uc_Actions d) \<le> unat (us_actions cur)
      \<and> unat (us_quantity total0) + unat (uc_Quantity d) \<le> unat (us_quantity cur)" (is "?L \<longleftrightarrow> ?R")
  proof
    assume L: ?L
    show ?R using L [rule_format, of "uc_Key d" Actions] L [rule_format, of "uc_Key d" Quantity] assms(4)
      by (simp add: cur) (simp add: amount_def)
  next
    assume R: ?R
    show ?L
    proof (intro allI)
      fix k c
      show "amount reserved k c + uc_total [d] k c \<le> amount usage k c"
        using R assms(2) [of k c] assms(4) cur [of c] by (cases c) (auto simp: amount_def)
    qed
  qed
  show "((of_nat maxJSONSafeInteger - us_actions total0 < uc_Actions d \<or> of_nat maxJSONSafeInteger - us_quantity total0 < uc_Quantity d)
       \<or> (us_actions total0 + uc_Actions d > us_actions cur \<or> us_quantity total0 + uc_Quantity d > us_quantity cur)) \<longleftrightarrow>
       \<not> (\<forall>k c. amount reserved k c + uc_total [d] k c \<le> amount usage k c)"
    using A(1) Q(1) all by blast
  show "amount (add_checkpoint d reserved) k c = amount reserved k c + uc_total [d] k c"
    if "\<forall>k c. amount reserved k c + uc_total [d] k c \<le> amount usage k c"
    using that all A(2) Q(2) assms(4) by (cases c) (auto simp: add_checkpoint_def amount_def)
qed

lemma validate_deltas_step:
  assumes "safe_usage usage" and "\<And>k c. amount reserved k c \<le> amount usage k c"
  shows "validate_deltas usage field i keys reserved (d # ds) = Inr res \<longleftrightarrow>
    checkpoint_ok d \<and> uc_Key d \<notin> set keys \<and> map_of usage (uc_Key d) \<noteq> None
    \<and> (\<forall>k c. amount reserved k c + uc_total [d] k c \<le> amount usage k c)
    \<and> validate_deltas usage field (Suc i) (uc_Key d # keys) (add_checkpoint d reserved) ds = Inr res"
proof (cases "map_of usage (uc_Key d)")
  case None
  then show ?thesis by (auto split: option.splits)
next
  case (Some cur)
  define t where "t = usage_of reserved (uc_Key d)"
  note fits = add_checkpoint_fits(1) [OF assms Some t_def]
  have "validate_deltas usage field i keys reserved (d # ds) = Inr res \<longleftrightarrow>
      checkpoint_ok d \<and> uc_Key d \<notin> set keys
      \<and> \<not> ((of_nat maxJSONSafeInteger - us_actions t < uc_Actions d \<or> of_nat maxJSONSafeInteger - us_quantity t < uc_Quantity d)
            \<or> (us_actions t + uc_Actions d > us_actions cur \<or> us_quantity t + uc_Quantity d > us_quantity cur))
      \<and> validate_deltas usage field (Suc i) (uc_Key d # keys) (add_checkpoint d reserved) ds = Inr res"
    using Some
    by (auto simp: Let_def t_def add_checkpoint_def validateCheckpointUsage_None [symmetric, of _ "indexed (field @ ''.deltas'') i"]
        split: option.splits if_splits)
  moreover have "map_of usage (uc_Key d) \<noteq> None" using Some by simp
  ultimately show ?thesis using fits by blast
qed

lemma validate_deltas_iff:
  assumes "safe_usage usage" and "\<And>k c. amount reserved k c \<le> amount usage k c"
  shows "(\<exists>res. validate_deltas usage field i keys reserved ds = Inr res) \<longleftrightarrow> deltas_fit usage keys reserved ds"
    and "validate_deltas usage field i keys reserved ds = Inr res \<Longrightarrow> amount res k c = amount reserved k c + uc_total ds k c"
  using assms(2)
proof (induction ds arbitrary: i keys reserved)
  case Nil
  {
    case 1
    then show ?case by (simp add: deltas_fit_def)
  next
    case 2
    then show ?case by simp
  }
next
  case (Cons d ds)
  note step = validate_deltas_step [OF assms(1)]
  {
    case 1
    note next_amt = add_checkpoint_fits(2) [OF assms(1) 1 _ refl]
    show ?case
    proof (cases "checkpoint_ok d \<and> uc_Key d \<notin> set keys \<and> map_of usage (uc_Key d) \<noteq> None
        \<and> (\<forall>k c. amount reserved k c + uc_total [d] k c \<le> amount usage k c)")
      case False
      moreover have "amount reserved k c + uc_total [d] k c \<le> amount usage k c"
        if "\<forall>k c. amount reserved k c + uc_total (d # ds) k c \<le> amount usage k c" for k c
        using that [rule_format, of k c] by simp
      ultimately show ?thesis using step [of reserved, OF 1] by (auto simp: deltas_fit_def simp del: total_simps)
    next
      case True
      then obtain cur where cur: "map_of usage (uc_Key d) = Some cur" by blast
      have amt: "amount (add_checkpoint d reserved) k c = amount reserved k c + uc_total [d] k c" for k c
        using next_amt [OF cur] True by blast
      have "amount (add_checkpoint d reserved) k c \<le> amount usage k c" for k c using True amt by simp
      from Cons.IH(1) [OF this, of "Suc i" "uc_Key d # keys"]
      have "(\<exists>res. validate_deltas usage field i keys reserved (d # ds) = Inr res) \<longleftrightarrow>
          deltas_fit usage (uc_Key d # keys) (add_checkpoint d reserved) ds"
        using step [of reserved, OF 1] True by blast
      also have "\<dots> \<longleftrightarrow> deltas_fit usage keys reserved (d # ds)"
        using True by (auto simp: deltas_fit_def amt add.assoc) (metis imageI)
      finally show ?thesis .
    qed
  next
    case 2
    have ok: "\<forall>k c. amount reserved k c + uc_total [d] k c \<le> amount usage k c" "map_of usage (uc_Key d) \<noteq> None"
      "validate_deltas usage field (Suc i) (uc_Key d # keys) (add_checkpoint d reserved) ds = Inr res"
      using step [of reserved, OF 2(2)] 2(1) by blast+
    then obtain cur where cur: "map_of usage (uc_Key d) = Some cur" by blast
    note amt = add_checkpoint_fits(2) [OF assms(1) 2(2) cur refl ok(1)]
    have "amount (add_checkpoint d reserved) k c \<le> amount usage k c" for k c using ok(1) amt by simp
    from Cons.IH(2) [OF ok(3) this] show ?case by (simp add: amt)
  }
qed

definition reservation_ok :: "(string, budget_usage) gomap \<Rightarrow> reservation_checkpoint \<Rightarrow> bool" where
  "reservation_ok usage r \<longleftrightarrow> id_pattern (rc_DecisionID r) \<and> length (rc_DecisionID r) \<le> 96
     \<and> rc_Deltas r \<noteq> [] \<and> length (rc_Deltas r) \<le> 128 \<and> distinct (map uc_Key (rc_Deltas r))
     \<and> (\<forall>d \<in> set (rc_Deltas r). checkpoint_ok d \<and> map_of usage (uc_Key d) \<noteq> None)"

lemma validate_reservations_iff:
  assumes "safe_usage usage" and "\<And>k c. amount reserved k c \<le> amount usage k c"
  shows "validate_reservations usage i decisions reserved rs = None \<longleftrightarrow>
    (\<forall>r \<in> set rs. reservation_ok usage r \<and> rc_DecisionID r \<notin> set decisions) \<and> distinct (map rc_DecisionID rs)
    \<and> (\<forall>k c. amount reserved k c + uc_total (concat (map rc_Deltas rs)) k c \<le> amount usage k c)"
  using assms(2)
proof (induction rs arbitrary: i decisions reserved)
  case Nil
  then show ?case by simp
next
  case (Cons r rs)
  define head where "head \<longleftrightarrow> id_pattern (rc_DecisionID r) \<and> length (rc_DecisionID r) \<le> 96
    \<and> rc_DecisionID r \<notin> set decisions \<and> rc_Deltas r \<noteq> [] \<and> length (rc_Deltas r) \<le> 128"
  define field where "field = indexed ''reservations'' i"
  have step: "validate_reservations usage i decisions reserved (r # rs) = None \<longleftrightarrow>
      head \<and> (\<exists>res. validate_deltas usage field 0 [] reserved (rc_Deltas r) = Inr res
        \<and> validate_reservations usage (Suc i) (rc_DecisionID r # decisions) res rs = None)"
    by (auto simp: Let_def head_def field_def validateID_None maxCheckpointDeltas_def split: sum.splits)
  note fit = validate_deltas_iff [OF assms(1) Cons.prems, of field 0 "[]" "rc_Deltas r"]
  show ?case
  proof (cases "deltas_fit usage [] reserved (rc_Deltas r)")
    case False
    have "\<not> (reservation_ok usage r \<and>
        (\<forall>k c. amount reserved k c + uc_total (concat (map rc_Deltas (r # rs))) k c \<le> amount usage k c))"
    proof
      assume a: "reservation_ok usage r \<and>
        (\<forall>k c. amount reserved k c + uc_total (concat (map rc_Deltas (r # rs))) k c \<le> amount usage k c)"
      have "amount reserved k c + uc_total (rc_Deltas r) k c \<le> amount usage k c" for k c
        using conjunct2 [OF a, rule_format, of k c] by simp
      then show False using False a by (auto simp: deltas_fit_def reservation_ok_def)
    qed
    then show ?thesis using step fit(1) False by auto
  next
    case True
    then obtain res where res: "validate_deltas usage field 0 [] reserved (rc_Deltas r) = Inr res" using fit(1) by blast
    note amt = fit(2) [OF res]
    have "amount res k c \<le> amount usage k c" for k c using True amt by (simp add: deltas_fit_def)
    note IH = Cons.IH [OF this, of "Suc i" "rc_DecisionID r # decisions"]
    have head: "head \<longleftrightarrow> reservation_ok usage r \<and> rc_DecisionID r \<notin> set decisions"
      using True by (auto simp: head_def reservation_ok_def deltas_fit_def)
    have sums: "amount res k c + uc_total (concat (map rc_Deltas rs)) k c =
        amount reserved k c + uc_total (concat (map rc_Deltas (r # rs))) k c" for k c
      by (simp add: amt add.assoc)
    have ids: "(\<forall>x \<in> set rs. reservation_ok usage x \<and> rc_DecisionID x \<notin> set (rc_DecisionID r # decisions)) \<and> distinct (map rc_DecisionID rs)
        \<and> rc_DecisionID r \<notin> set decisions \<longleftrightarrow>
        (\<forall>x \<in> set rs. reservation_ok usage x) \<and> (\<forall>x \<in> set (r # rs). rc_DecisionID x \<notin> set decisions)
        \<and> distinct (map rc_DecisionID (r # rs))"
      by auto (metis imageI)
    have "validate_reservations usage i decisions reserved (r # rs) = None \<longleftrightarrow>
        head \<and> validate_reservations usage (Suc i) (rc_DecisionID r # decisions) res rs = None"
      using step res by simp
    then show ?thesis using ids unfolding IH head sums by (simp only: list.set ball_simps) blast
  qed
qed

lemma uc_total_map:
  assumes "distinct (map uc_Key us)"
  shows "uc_total us k c = amount (checkpoint_map us) k c"
proof -
  have "uc_total us k c = counter_of (usage_of (map checkpoint_pair us) k) c"
    using assms
  proof (induction us)
    case Nil
    then show ?case by (simp add: usage_of_def)
  next
    case (Cons u us)
    have "uc_total us (uc_Key u) c = 0" if "uc_Key u \<notin> uc_Key ` set us"
      using that by (induction us) auto
    then show ?case using Cons by (cases c) (auto simp: usage_of_def checkpoint_pair_def)
  qed
  then show ?thesis using checkpoint_map_get [OF assms] by (simp add: amount_def usage_of_def)
qed

lemma checkpoint_map_facts:
  assumes "distinct (map uc_Key us)" and "\<forall>u \<in> set us. checkpoint_ok u"
  shows "safe_usage (checkpoint_map us)" "usage_ok (checkpoint_map us)"
    "map_of (checkpoint_map us) k \<noteq> None \<longleftrightarrow> k \<in> uc_Key ` set us"
proof -
  note get = checkpoint_map_get [OF assms(1)]
  have ok: "map_ok (checkpoint_map us)" by (simp add: checkpoint_map_def map_ok_fold_update)
  have mem: "\<exists>u \<in> set us. k = uc_Key u \<and> v = \<lparr>us_actions = uc_Actions u, us_quantity = uc_Quantity u\<rparr>"
    if "map_of (checkpoint_map us) k = Some v" for k v
    using that unfolding get by (auto simp: checkpoint_pair_def dest!: map_of_SomeD)
  show "safe_usage (checkpoint_map us)"
    using assms(2) by (fastforce simp: safe_usage_def checkpoint_ok_def dest!: mem)
  show "usage_ok (checkpoint_map us)"
    using assms(2) ok by (fastforce simp: usage_ok_iff checkpoint_ok_def dest!: mem)
  show "map_of (checkpoint_map us) k \<noteq> None \<longleftrightarrow> k \<in> uc_Key ` set us"
    unfolding get by (auto simp: map_of_eq_None_iff checkpoint_pair_def image_iff)
qed

lemma usage_loop_None:
  "loop_err (\<lambda>i seen u. first_err [validateCheckpointUsage (indexed ''usage'' i) u,
       require (uc_Key u \<notin> uc_Key ` set seen) e]) [] us = None \<longleftrightarrow>
     distinct (map uc_Key us) \<and> (\<forall>u \<in> set us. checkpoint_ok u)" (is "loop_err ?f [] us = None \<longleftrightarrow> ?R")
proof
  assume "loop_err ?f [] us = None"
  then show ?R
    using loop_err_distinct [of ?f us uc_Key] loop_err_all [of ?f "[]" us]
    by (auto simp: validateCheckpointUsage_None)
next
  assume R: ?R
  have "uc_Key (us ! i) \<notin> uc_Key ` set (take i us)" if "i < length us" for i
    using R that by (auto simp: distinct_conv_nth in_set_conv_nth)
  then show "loop_err ?f [] us = None" using R by (auto simp: loop_err_None_iff validateCheckpointUsage_None)
qed

lemma ValidateState_valid: "ValidateState s = None \<longleftrightarrow> valid_state s"
proof (cases "distinct (map uc_Key (st_Usage s)) \<and> (\<forall>u \<in> set (st_Usage s). checkpoint_ok u)")
  case True
  then have d: "distinct (map uc_Key (st_Usage s))" "\<forall>u \<in> set (st_Usage s). checkpoint_ok u" by auto
  note facts = checkpoint_map_facts [OF d]
  have "amount [] k c \<le> amount (checkpoint_map (st_Usage s)) k c" for k c by (simp add: amount_def usage_of_def)
  from validate_reservations_iff [OF facts(1) this, of 0 "[]" "st_Reservations s"]
  have "validate_reservations (checkpoint_map (st_Usage s)) 0 [] [] (st_Reservations s) = None \<longleftrightarrow>
      reservations_ok (st_Usage s) (st_Reservations s)"
    using facts(3) by (auto simp: reservations_ok_def reservation_ok_def uc_total_map [OF d(1)] amount_def usage_of_def)
  then show ?thesis using True
    by (simp add: ValidateState_def valid_state_def first_err_None_iff usage_loop_None maxCheckpointUsage_def
        maxCheckpointReservations_def maxAuthorizations_def del: first_err.simps)
qed (auto simp: ValidateState_def valid_state_def first_err_None_iff usage_loop_None simp del: first_err.simps)

text \<open>
  C37: \<open>ValidateState\<close> accepts exactly the well-formed checkpoints: right version, positive JSON-safe revision, a digest, at
  most 8192 distinct non-zero usage buckets with bounded UTF-8 keys, at most 4096 distinct valid decisions with 1 to 128
  deltas on distinct existing buckets, and, for every budget and counter, reservations that in total do not exceed
  the usage. The running totals of the code, kept in machine words behind an overflow check, never reject more.
\<close>

theorem ValidateState_accepts_iff: "ValidateState s = None \<longleftrightarrow> valid_state s"
  by (rule ValidateState_valid)

subsection \<open>Restoring\<close>

lemma update_fresh: "map_of m k = None \<Longrightarrow> AList.update k v m = m @ [(k, v)]"
  by (induction m) auto

definition restored_reservations :: "reservation_checkpoint list \<Rightarrow> (string, budget_delta list) gomap" where
  "restored_reservations rs = map (\<lambda>r. (rc_DecisionID r, map restore_delta (rc_Deltas r))) rs"

definition restored_decisions :: "reservation_checkpoint list \<Rightarrow> (string, string) gomap" where
  "restored_decisions rs = map (\<lambda>r. (rc_DecisionID r, restored_key (rc_DecisionID r))) rs"

lemma restore_fold:
  assumes "distinct (map rc_DecisionID rs)"
    and "\<forall>r \<in> set rs. map_of (en_reservations en) (rc_DecisionID r) = None \<and> map_of (en_decisionKeys en) (rc_DecisionID r) = None"
  shows "fold restore_reservation rs en = en\<lparr>en_reservations := en_reservations en @ restored_reservations rs,
    en_decisionKeys := en_decisionKeys en @ restored_decisions rs\<rparr>"
  using assms
proof (induction rs arbitrary: en)
  case Nil
  then show ?case by (simp add: restored_reservations_def restored_decisions_def)
next
  case (Cons r rs)
  have one: "restore_reservation r en = en\<lparr>
      en_reservations := en_reservations en @ [(rc_DecisionID r, map restore_delta (rc_Deltas r))],
      en_decisionKeys := en_decisionKeys en @ [(rc_DecisionID r, restored_key (rc_DecisionID r))]\<rparr>"
    using Cons.prems(2) by (simp add: restore_reservation_def update_fresh)
  have "\<forall>x \<in> set rs. map_of (en_reservations (restore_reservation r en)) (rc_DecisionID x) = None
      \<and> map_of (en_decisionKeys (restore_reservation r en)) (rc_DecisionID x) = None"
    using Cons.prems by (auto simp: restore_reservation_def gm.get_put image_iff)
  then show ?case using Cons.IH [of "restore_reservation r en"] Cons.prems(1)
    by (simp add: one restored_reservations_def restored_decisions_def)
qed

lemma restored_total:
  "delta_total (concat (map snd (restored_reservations rs))) k c = uc_total (concat (map rc_Deltas rs)) k c"
proof -
  have "delta_total (map restore_delta us) k c = uc_total us k c" for us
    by (induction us) (cases c; simp add: restore_delta_def)+
  then show ?thesis by (induction rs) (simp_all add: restored_reservations_def)
qed

lemma restored_key_retired:
  assumes "id_pattern i"
  shows "retired r (restored_key i)"
proof -
  have "key_suffix (restored_key i) = i"
    unfolding restored_key_def by (rule key_suffix_append) (use assms in simp)
  moreover have "i \<noteq> format_u64 w" for w
  proof
    assume i: "i = format_u64 w"
    obtain a rest where a: "i = a # rest" "lower_char a" using assms by (auto simp: id_pattern_iff)
    then have "48 \<le> (of_char a :: nat) \<and> (of_char a :: nat) \<le> 57"
      using i format_nat_digits [of a "unat w"] by (simp add: format_u64_def)
    then show False using a(2) by (simp add: lower_char_def)
  qed
  ultimately show ?thesis by (simp add: retired_def)
qed

lemma RestoreState_result:
  assumes "RestoreState en s = (None, en')" and "engine_ok en"
  shows "valid_state s"
    and "en' = en\<lparr>en_usage := checkpoint_map (st_Usage s), en_reservations := restored_reservations (st_Reservations s),
      en_decisionKeys := restored_decisions (st_Reservations s)\<rparr>"
    and "en_challenges en = []" "en_challengeKeys en = []" "en_authorizations en = []"
    and "st_PolicyRevision s = revision en"
proof -
  have ok: "valid_state s" "en_usage en = []" "en_reservations en = []" "en_challenges en = []"
    "en_authorizations en = []" "en_decisionKeys en = []" "st_PolicyRevision s = revision en"
    "en' = fold restore_reservation (st_Reservations s) (en\<lparr>en_usage := checkpoint_map (st_Usage s)\<rparr>)"
    using assms(1) by (auto simp: RestoreState_def checkpoint_map_def ValidateState_valid split: option.splits)
  show "valid_state s" "en_challenges en = []" "en_authorizations en = []" "st_PolicyRevision s = revision en"
    by (fact ok)+
  have "map_of (en_challengeKeys en) k = None" for k
    using assms(2) ok(4) by (intro no_dangling_key) (simp_all add: engine_ok_def Option.bind_eq_None_conv)
  then show "en_challengeKeys en = []" using map_of_eq_empty_iff by blast
  have "distinct (map rc_DecisionID (st_Reservations s))" using ok(1) by (simp add: valid_state_def reservations_ok_def)
  from restore_fold [OF this, of "en\<lparr>en_usage := checkpoint_map (st_Usage s)\<rparr>"]
  show "en' = en\<lparr>en_usage := checkpoint_map (st_Usage s), en_reservations := restored_reservations (st_Reservations s),
      en_decisionKeys := restored_decisions (st_Reservations s)\<rparr>"
    using ok by simp
qed

lemma engine_ok_Restore:
  assumes "RestoreState en s = (None, en')" and "engine_ok en"
  shows "engine_ok en'"
proof -
  note r = RestoreState_result [OF assms]
  have d: "distinct (map uc_Key (st_Usage s))" "\<forall>u \<in> set (st_Usage s). checkpoint_ok u"
    "distinct (map rc_DecisionID (st_Reservations s))" "\<forall>x \<in> set (st_Reservations s). id_pattern (rc_DecisionID x)"
    "\<And>k c. uc_total (concat (map rc_Deltas (st_Reservations s))) k c \<le> amount (checkpoint_map (st_Usage s)) k c"
    using r(1) uc_total_map by (auto simp: valid_state_def reservations_ok_def)
  have keys: "map fst (restored_reservations rs) = map rc_DecisionID rs"
    "map fst (restored_decisions rs) = map rc_DecisionID rs" for rs
    by (simp_all add: restored_reservations_def restored_decisions_def)
  have dom: "dom (map_of (restored_reservations rs)) = dom (map_of (restored_decisions rs))" for rs
    unfolding dom_map_of_conv_image_fst list.set_map [symmetric] keys ..
  have "ledger_ok en'"
    using checkpoint_map_facts(2) [OF d(1,2)] d(3,5) keys dom unfolding r(2)
    by (simp add: ledger_ok_def outstanding_def restored_total)
  moreover have "retired (revision en) key" if "map_of (restored_decisions (st_Reservations s)) i = Some key" for i key
    using that d(4) restored_key_retired by (auto simp: restored_decisions_def dest!: map_of_SomeD)
  then have "auth_ok en'"
    using d(3) keys r(5) unfolding r(2) by (simp add: auth_ok_def decision_link_def)
  ultimately show ?thesis using assms(2) r(3,4) unfolding r(2)
    by (simp add: engine_ok_def config_ok_def challenges_ok_def)
qed

text \<open>
   no checkpoint can break the engine. Whatever was read back, if \<open>RestoreState\<close> accepts it into a fresh engine, the
  restored engine keeps the whole invariant: its reservations are covered, its live decisions can be finalised, and
  none of them collides with a key of the active or a later revision.
\<close>

theorem RestoreState_keeps_invariant:
  assumes "engine_ok en" and "RestoreState en s = (r, en')"
  shows "engine_ok en' \<and> (r \<noteq> None \<longrightarrow> en' = en)"
proof (cases r)
  case None
  then show ?thesis using engine_ok_Restore assms by blast
next
  case (Some e)
  then show ?thesis using assms by (auto simp: RestoreState_def split: option.splits)
qed

lemma checkpoint_count: "uc_count (checkpoint_delta d) c = delta_count d c" "uc_Key (checkpoint_delta d) = dl_key d"
  by (cases c) (simp_all add: checkpoint_delta_def)

lemma checkpoint_total: "uc_total (map checkpoint_delta ds) k c = delta_total ds k c"
  by (induction ds) (simp_all add: checkpoint_count)

lemma uc_total_sort: "uc_total (sort_key f us) k c = uc_total us k c"
  by (rule total_mset) simp

lemma uc_total_reservations:
  "uc_total (concat (map rc_Deltas (map checkpoint_reservation rs))) k c = delta_total (concat (map snd rs)) k c"
  by (induction rs) (simp_all add: checkpoint_reservation_def uc_total_sort checkpoint_total)

lemma uc_total_concat_perm: "mset xs = mset ys \<Longrightarrow> uc_total (concat (map f xs)) k c = uc_total (concat (map f ys)) k c"
  by (rule total_mset) (simp add: mset_concat flip: sum_mset_sum_list)





definition restored_deltas :: "budget_delta list \<Rightarrow> budget_delta list" where
  "restored_deltas ds = map restore_delta (sort_key uc_Key (map checkpoint_delta ds))"

lemma restored_deltas_mset: "mset (restored_deltas ds) = mset ds"
proof -
  have "restore_delta (checkpoint_delta d) = d" for d by (cases d) (simp add: restore_delta_def checkpoint_delta_def)
  then show ?thesis by (simp add: restored_deltas_def multiset.map_comp comp_def)
qed

lemma restored_snapshot_get:
  assumes "map_ok l"
  shows "map_of (restored_reservations (sort_key rc_DecisionID (map checkpoint_reservation l))) = map_option restored_deltas \<circ> map_of l"
proof -
  let ?rs = "sort_key rc_DecisionID (map checkpoint_reservation l)"
  have "mset (restored_reservations ?rs) = mset (map (\<lambda>(i, ds). (i, restored_deltas ds)) l)"
    by (simp add: restored_reservations_def checkpoint_reservation_def restored_deltas_def multiset.map_comp comp_def
        case_prod_unfold)
  moreover have "map fst (map (\<lambda>(i, ds). (i, restored_deltas ds)) l) = map fst l" by (simp add: comp_def case_prod_unfold)
  then have d: "map_ok (map (\<lambda>(i, ds). (i, restored_deltas ds)) l)" using assms by (simp only:)
  moreover have "set (restored_reservations ?rs) = set (map (\<lambda>(i, ds). (i, restored_deltas ds)) l)"
    using \<open>mset (restored_reservations ?rs) = _\<close> by (rule mset_eq_setD)
  moreover have "mset (map fst (restored_reservations ?rs)) = mset (map fst (map (\<lambda>(i, ds). (i, restored_deltas ds)) l))"
    using \<open>mset (restored_reservations ?rs) = _\<close> by (simp only: mset_map)
  then have "map_ok (restored_reservations ?rs)" using d mset_eq_imp_distinct_iff by blast
  ultimately have "map_of (restored_reservations ?rs) = map_of (map (\<lambda>(i, ds). (i, restored_deltas ds)) l)"
    using d map_of_inject_set by blast
  then show ?thesis by (simp add: map_of_map)
qed

text \<open>
  C30: a restart is invisible on the ledger. If a checkpoint for the registered decisions is accepted and restored into a new
  engine with the same policy, the committed amounts of all budgets are those before the restart, and exactly the
  registered decisions keep their reservations, with the same deltas.
\<close>

theorem restore_round_trip:
  assumes "engine_ok en" and "New digest config = Inr en0"
    and "en_config en0 = en_config en" and "en_configDigest en0 = en_configDigest en"
    and "ValidateState (SnapshotStateFor en ids) = None"
    and "RestoreState en0 (SnapshotStateFor en ids) = (r, en1)"
  shows "r = None \<and> committed_amount en1 = committed_amount en
    \<and> (\<forall>i. rel_option (\<lambda>ds ds'. mset ds = mset ds')
          (map_of (en_reservations en1) i) (if i \<in> set ids then map_of (en_reservations en) i else None))"
proof -
  define s where "s = SnapshotStateFor en ids"
  have led: "ledger_ok en" "map_ok (en_reservations en)" using assms(1) by (auto simp: engine_ok_def ledger_ok_def)
  have new: "en_usage en0 = []" "en_reservations en0 = []" "en_challenges en0 = []" "en_authorizations en0 = []"
    "en_decisionKeys en0 = []"
    using assms(2) by (auto simp: New_def ebind_Inr_iff)
  have r: "r = None"
    using assms(3-6) new by (auto simp: RestoreState_def SnapshotStateFor_def snapshotState_def split: if_splits)
  note res = RestoreState_result(2) [OF assms(6) [unfolded r] engine_ok_New [OF assms(2)], folded s_def]
  have parts: "en_usage en1 = checkpoint_map (st_Usage s)" "en_reservations en1 = restored_reservations (st_Reservations s)"
    by (simp_all add: res)
  have rs: "st_Reservations s =
      sort_key rc_DecisionID (map checkpoint_reservation (filter (keeps (Some ids)) (en_reservations en)))"
    by (simp add: s_def SnapshotStateFor_def snapshotState_def)
  have kept: "uc_total (concat (map rc_Deltas (st_Reservations s))) k c = delta_total (kept (Some ids) en) k c" for k c
    using uc_total_concat_perm [of "st_Reservations s" "map checkpoint_reservation (filter (keeps (Some ids)) (en_reservations en))"]
      uc_total_reservations by (simp add: rs kept_def)
  have "amount (checkpoint_map (st_Usage s)) k c = committed_amount en k c + delta_total (kept (Some ids) en) k c" for k c
    using checkpoint_of_usage(1) [of "snapshot_usage en (Some ids)"] snapshot_usage_ok [OF led(1), of "Some ids"]
      amount_snapshot_usage [OF led(1), of "Some ids"] amount_cong
    unfolding s_def SnapshotStateFor_def snapshotState_def usage_ok_def by (metis policy_state.select_convs(4))
  then have "committed_amount en1 k c = committed_amount en k c" for k c
    by (simp add: committed_amount_def [of en1] outstanding_def parts restored_total kept)
  then have "committed_amount en1 = committed_amount en" by (simp add: fun_eq_iff)
  moreover have "map_of (en_reservations en1) i = map_option restored_deltas
      (if i \<in> set ids then map_of (en_reservations en) i else None)" for i
    using restored_snapshot_get [OF map_ok_filter [OF led(2)], of "keeps (Some ids)"] map_of_filter [OF led(2)]
    by (simp add: res rs keeps_def split: option.splits)
  ultimately show ?thesis
    by (auto simp: r restored_deltas_mset option_rel_Some1 option.rel_map intro!: option.rel_refl)
qed

subsection \<open>The engine as a transition system\<close>

lemma engine_ok_RestoreState: "engine_ok en \<Longrightarrow> engine_ok (snd (RestoreState en s))"
  using engine_ok_Restore [of en s "snd (RestoreState en s)"]
  by (cases "fst (RestoreState en s)") (auto simp: RestoreState_def split: option.splits)

text \<open>One call of an operation of the engine from outside.\<close>

inductive engine_step :: "go_env \<Rightarrow> engine \<Rightarrow> engine \<Rightarrow> bool" for env where
  step_Evaluate: "fresh_decision en dr \<Longrightarrow> fresh_challenge en cr \<Longrightarrow>
     engine_step env en (snd (Evaluate env en a cx dr cr))"
| step_Approve: "engine_step env en (snd (Approve en i p now))"
| step_Finalize: "engine_step env en (snd (Finalize en i committed))"
| step_Discard: "engine_step env en (snd (DiscardConfirmation en ch))"
| step_Update: "engine_step env en (snd (Update digest en config))"
| step_Restore: "engine_step env en (snd (RestoreState en s))"

inductive reachable :: "go_env \<Rightarrow> engine \<Rightarrow> bool" for env where
  reachable_New: "New digest config = Inr en \<Longrightarrow> reachable env en"
| reachable_step: "reachable env en \<Longrightarrow> engine_step env en en' \<Longrightarrow> reachable env en'"

lemma engine_ok_step: "engine_step env en en' \<Longrightarrow> engine_ok en \<Longrightarrow> engine_ok en'"
  by (induction rule: engine_step.induct)
    (auto intro: engine_ok_Approve engine_ok_Finalize engine_ok_Discard engine_ok_Update engine_ok_RestoreState
      engine_ok_Evaluate [OF _ _ _ prod.collapse [symmetric]])

lemma reachable_engine_ok: "reachable env en \<Longrightarrow> engine_ok en"
  by (induction rule: reachable.induct) (auto intro: engine_ok_New engine_ok_step)


inductive_cases engine_stepE: "engine_step env en en'"

subsection \<open>Instances\<close>

lemma sample_engine_ok: "engine_ok sample_engine"
  by (rule engine_ok_New [OF sample_engine_New])

lemma sample_fresh: "fresh_decision sample_engine random" "fresh_challenge sample_engine random"
  "map_of (en_authorizations sample_engine) k = None"
  by (simp_all add: fresh_decision_def fresh_challenge_def sample_engine_def split: option.splits)

lemma sample_spent_ok: "engine_ok sample_spent"
proof -
  obtain d where "Evaluate sample_env sample_engine spend (sample_context '''') (Some sample_hex) None = (Inr d, sample_spent)"
    using sample_spend_allowed by blast
  from engine_ok_Evaluate [OF sample_engine_ok sample_fresh(1,2) this] show ?thesis .
qed

theorem snapshot_contains_registered_witness:
  "amount (checkpoint_map (st_Usage (SnapshotStateFor sample_spent []))) (''budget.gold'') Actions
     = committed_amount sample_spent ''budget.gold'' Actions"
  using snapshot_contains_registered [OF sample_spent_ok, of "[]"]
  by (simp add: kept_def keeps_def)


theorem RestoreState_keeps_invariant_witness: "engine_ok (snd (RestoreState sample_engine (SnapshotState sample_spent)))"
  using RestoreState_keeps_invariant [OF sample_engine_ok surjective_pairing] by blast

theorem restore_round_trip_witness:
  "committed_amount (snd (RestoreState sample_engine (SnapshotStateFor sample_spent [''decision.'' @ sample_hex])))
     = committed_amount sample_spent"
proof -
  have "ValidateState (SnapshotStateFor sample_spent [''decision.'' @ sample_hex]) = None" by code_simp
  moreover have "en_config sample_engine = en_config sample_spent" "en_configDigest sample_engine = en_configDigest sample_spent"
    by code_simp+
  ultimately show ?thesis using restore_round_trip [OF sample_spent_ok sample_engine_New _ _ _ surjective_pairing] by blast
qed

end
