(* ===== verification/Policy_Safety.thy ===== *)
theory Policy_Safety
  imports Policy_State
begin

section \<open>What the policy engine guarantees\<close>

text \<open>
  The properties of the engine's operations on reachable engines: when an action is authorised, what an authorisation
  costs, that confirmations work once, and that the budget ledger is exact.
\<close>

subsection \<open>Authorisation\<close>

text \<open>
  C17: in every state that calls of \<open>Evaluate\<close>, \<open>Approve\<close>, \<open>Finalize\<close>, \<open>DiscardConfirmation\<close>, \<open>Update\<close> and \<open>RestoreState\<close> reach from a new
  engine, with random identifiers that are not in use, the invariant holds: at most 1024 challenges and 4096
  authorisations, challenges and their index inverse to each other, every outstanding reservation covered by the usage,
  and live decisions and authorisations pointing at each other.
\<close>

theorem engine_invariant:
  assumes "reachable env en"
  shows "engine_ok en \<and> length (en_challenges en) \<le> 1024 \<and> length (en_authorizations en) \<le> 4096"
  using reachable_engine_ok [OF assms]
  by (simp add: engine_ok_def challenges_ok_def auth_ok_def maxChallenges_def maxAuthorizations_def)

theorem engine_invariant_witness: "engine_ok sample_engine"
  using engine_invariant [OF reachable_New [OF sample_engine_New]] by simp

lemma engine_parts:
  assumes "engine_ok en"
  shows "config_ok en" "challenges_ok en" "ledger_ok en" "auth_ok en" "usage_ok (en_usage en)"
    "SealConfig (en_config en) = Inr (en_config en)"
  using assms by (simp_all add: engine_ok_def ledger_ok_def config_ok_def)

lemma gate_base:
  assumes "gate a cx base = Some d"
  shows "de_Result d = Deny" "cx_EmergencyStopped cx \<Longrightarrow> de_ReasonCode d = ''policy.emergency_stop''"
    "\<not> cx_EmergencyStopped cx \<Longrightarrow> cx_CurrentEpoch cx \<noteq> ba_ExpectedEpoch a \<Longrightarrow> de_ReasonCode d = ''policy.stale_epoch''"
  using assms by (auto simp: gate_def denyDecision_def split: if_splits)

text \<open>
  while the emergency stop is active, for a stale epoch, or after the binding expired (or on another clock), no
  call returns anything but a denial, an active emergency stop is the reported reason, and nothing but expired
  challenges changes.
\<close>

theorem closed_gates_deny:
  assumes "\<not> gates_open a cx" and "Evaluate env en a cx dr cr = (Inr d, en')"
  shows "de_Result d = Deny \<and> (cx_EmergencyStopped cx \<longrightarrow> de_ReasonCode d = ''policy.emergency_stop'')
    \<and> en' = pruneChallenges en a cx \<and> en_usage en' = en_usage en \<and> en_authorizations en' = en_authorizations en
    \<and> en_reservations en' = en_reservations en"
proof -
  define base where "base = base_decision (en_config en) a cx (projr (newID ''decision'' dr))"
  obtain g where g: "gate a cx base = Some g" using assms(1) gate_None_iff by (cases "gate a cx base") auto
  have "d = g \<and> en' = pruneChallenges en a cx"
    using assms(2) g by (auto simp: Evaluate_def Let_def base_def newID_def split: option.splits)
  then show ?thesis using gate_base(1,2) [OF g] by simp
qed

theorem closed_gates_deny_witness:
  "\<exists>d en'. Evaluate sample_env sample_engine (sample_action ''binding'' ''item.spend'' 4)
     ((sample_context '''')\<lparr>cx_EmergencyStopped := True\<rparr>) (Some sample_hex) None = (Inr d, en')
     \<and> de_ReasonCode d = ''policy.emergency_stop''"
proof -
  let ?a = "sample_action ''binding'' ''item.spend'' 4" and ?cx = "(sample_context '''')\<lparr>cx_EmergencyStopped := True\<rparr>"
  have "\<not> isl (fst (Evaluate sample_env sample_engine ?a ?cx (Some sample_hex) None))" by code_simp
  then obtain d en' where ev: "Evaluate sample_env sample_engine ?a ?cx (Some sample_hex) None = (Inr d, en')"
    by (metis prod.collapse sum.collapse(2))
  have "\<not> gates_open ?a ?cx" by (simp add: gates_open_def)
  from closed_gates_deny [OF this ev] show ?thesis using ev by simp
qed

lemma cleared_verdicts:
  assumes "config_ok en" and "ba_Effects a \<noteq> []" and "cleared en a cx en1"
  shows "(\<forall>v \<in> set (action_verdicts (en_config en) a cx). ed_result v \<noteq> Deny)
    \<and> (cx_ConfirmationID cx = [] \<longrightarrow> (\<forall>v \<in> set (action_verdicts (en_config en) a cx). ed_result v = Allow))"
proof -
  have sealed: "SealConfig (en_config en) = Inr (en_config en)" using assms(1) by (simp add: config_ok_def)
  show ?thesis
    using assms(3) gameplay_Deny_iff [OF sealed assms(2), of cx] gameplay_Allow_iff [OF sealed assms(2), of cx]
    unfolding cleared_def by (auto elim: consumeConfirmation_cases)
qed

text \<open>
  C1: an action is authorised only through all gates. If a call without a cached authorisation returns an allow
  decision, then the binding and the context are valid, no emergency stop, stale epoch or expiry applies, no verdict
  on any effect is a denial, and either every verdict allows, or the call presented an approved, unexpired challenge
  issued for this principal, effect digest, epoch and revision.
\<close>

theorem allow_requires:
  assumes "engine_ok en" and "Evaluate env en a cx dr cr = (Inr d, en')" and "de_Result d = Allow"
    and "map_of (en_authorizations en) (makeAuthorizationKey a cx (revision en)) = None"
  shows "ValidateBoundAction env a = None \<and> validateContext cx = None \<and> gates_open a cx
    \<and> (\<forall>v \<in> set (action_verdicts (en_config en) a cx). ed_result v \<noteq> Deny)
    \<and> ((\<forall>v \<in> set (action_verdicts (en_config en) a cx). ed_result v = Allow) \<and> cx_ConfirmationID cx = []
       \<or> (\<exists>st. map_of (en_challenges en) (cx_ConfirmationID cx) = Some st \<and> cs_approved st
            \<and> challenge_matches st a cx (en_config en)))"
proof -
  note ok = engine_parts [OF assms(1)]
  from ok(1) assms(2) show ?thesis
  proof (cases rule: Evaluate_cases)
    case (asked base ttl rr)
    then show ?thesis using assms(3) by (auto split: sum.splits)
  next
    case (authorized en1 base hex)
    define en0 where "en0 = pruneChallenges en a cx"
    have "config_ok en0" using ok(1) by (simp add: config_ok_def en0_def)
    note verdicts = cleared_verdicts [OF this valid_call_effects [OF authorized(1)] authorized(5) [folded en0_def]]
    have "\<exists>st. map_of (en_challenges en) (cx_ConfirmationID cx) = Some st \<and> cs_approved st
        \<and> challenge_matches st a cx (en_config en)" if "cx_ConfirmationID cx \<noteq> []"
    proof -
      have "consumeConfirmation en0 a cx (en_config en) = (Confirmed, en1)"
        using authorized(5) that by (auto simp: cleared_def en0_def)
      then obtain st where "map_of (en_challenges en0) (cx_ConfirmationID cx) = Some st" "cs_approved st"
        "challenge_matches st a cx (en_config en)"
        by (cases rule: consumeConfirmation_cases) auto
      moreover have "map_ok (en_challenges en)" using ok(2) by (simp add: challenges_ok_def)
      ultimately show ?thesis
        by (auto simp: en0_def pruneChallenges_def Let_def map_of_filter split: option.splits if_splits)
    qed
    then show ?thesis using authorized(1,2) verdicts by (auto simp: valid_call_def en0_def)
  qed (use assms(3,4) in auto)
qed

theorem allow_requires_witness:
  "ValidateBoundAction sample_env spend = None \<and> gates_open spend (sample_context '''')"
proof -
  obtain d where ev: "Evaluate sample_env sample_engine spend (sample_context '''') (Some sample_hex) None = (Inr d, sample_spent)"
    "de_Result d = Allow"
    using sample_spend_allowed by blast
  have "map_of (en_authorizations sample_engine) k = None" for k by (simp add: sample_engine_def)
  from allow_requires [OF sample_engine_ok ev this] show ?thesis by blast
qed

subsection \<open>Confirmations\<close>

lemma fresh_allow:
  assumes "engine_ok en" and "Evaluate env en a cx dr cr = (Inr d, en')" and "de_Result d = Allow"
    and "map_of (en_authorizations en) (makeAuthorizationKey a cx (revision en)) = None"
  obtains en1 base hex where "valid_call env a cx" "gates_open a cx" "dr = Some hex"
    "cleared (pruneChallenges en a cx) a cx en1"
    "authorize env en1 a cx (en_config en) (makeAuthorizationKey a cx (revision en)) base = (Inr d, en')"
    "de_Result base = Allow" "de_DecisionID base = ''decision.'' @ hex"
  using engine_parts(1) [OF assms(1)] assms(2)
proof (cases rule: Evaluate_cases)
  case (asked base ttl rr)
  then show ?thesis using assms(3) by (auto split: sum.splits)
next
  case (authorized en1 base hex)
  then show ?thesis using that by blast
qed (use assms(3,4) in auto)

lemma authorize_challenges:
  assumes "engine_ok en" and "ValidateBoundAction env a = None"
    and "authorize env en a cx (en_config en) key base = (r, en')"
  shows "en_challenges en' = en_challenges en"
  using engine_parts(5,6) [OF assms(1)] assms(2,3)
  by (cases rule: authorize_cases) auto

lemma used_confirmation_rejected:
  assumes "engine_ok en" and "map_of (en_challenges en) (cx_ConfirmationID cx) = None" and "cx_ConfirmationID cx \<noteq> []"
    and "map_of (en_authorizations en) (makeAuthorizationKey a cx (revision en)) = None"
    and "Evaluate env en a cx dr cr = (Inr d, en')"
  shows "de_Result d = Deny"
proof -
  have gone: "\<not> cleared (pruneChallenges en a cx) a cx en1" for en1
  proof
    assume "cleared (pruneChallenges en a cx) a cx en1"
    then have "consumeConfirmation (pruneChallenges en a cx) a cx (en_config en) = (Confirmed, en1)"
      using assms(3) by (simp add: cleared_def)
    then obtain st where "map_of (en_challenges (pruneChallenges en a cx)) (cx_ConfirmationID cx) = Some st"
      by (cases rule: consumeConfirmation_cases) auto
    moreover have "map_ok (en_challenges en)" using engine_parts(2) [OF assms(1)] by (simp add: challenges_ok_def)
    ultimately show False using assms(2)
      by (auto simp: pruneChallenges_def Let_def map_of_filter split: option.splits)
  qed
  from engine_parts(1) [OF assms(1)] assms(5) show ?thesis
    by (cases rule: Evaluate_cases) (use assms(3,4) gone in auto)
qed

text \<open>
  C21: a confirmation authorises one binding, once. When a call consumes a confirmation, the challenge is removed, and no
  later call that presents the same confirmation for another binding (one without an authorisation) returns anything
  but a denial.
\<close>

theorem confirmation_single_use:
  assumes "engine_ok en" and "fresh_decision en dr" and "fresh_challenge en cr"
    and "Evaluate env en a cx dr cr = (Inr d, en')" and "de_Result d = Allow"
    and "map_of (en_authorizations en) (makeAuthorizationKey a cx (revision en)) = None"
    and "cx_ConfirmationID cx \<noteq> []"
  shows "map_of (en_challenges en) (cx_ConfirmationID cx) \<noteq> None
    \<and> map_of (en_challenges en') (cx_ConfirmationID cx) = None
    \<and> (\<forall>env' a' cx' dr' cr' d' en''. cx_ConfirmationID cx' = cx_ConfirmationID cx
         \<longrightarrow> map_of (en_authorizations en') (makeAuthorizationKey a' cx' (revision en')) = None
         \<longrightarrow> Evaluate env' en' a' cx' dr' cr' = (Inr d', en'') \<longrightarrow> de_Result d' = Deny)"
proof -
  note ok = engine_parts [OF assms(1)]
  have ok': "engine_ok en'" by (rule engine_ok_Evaluate [OF assms(1-4)])
  obtain en1 base hex where f: "valid_call env a cx" "cleared (pruneChallenges en a cx) a cx en1"
    "authorize env en1 a cx (en_config en) (makeAuthorizationKey a cx (revision en)) base = (Inr d, en')"
    using fresh_allow [OF assms(1,4-6)] by metis
  note pruned = engine_ok_prune [OF assms(1), of a cx]
  have "consumeConfirmation (pruneChallenges en a cx) a cx (en_config en) = (Confirmed, en1)"
    using f(2) assms(7) by (simp add: cleared_def)
  then obtain st where st: "map_of (en_challenges (pruneChallenges en a cx)) (cx_ConfirmationID cx) = Some st"
    "en_challenges en1 = AList.delete (ch_ChallengeID (cs_challenge st)) (en_challenges (pruneChallenges en a cx))"
    by (cases rule: consumeConfirmation_cases) auto
  have "ch_ChallengeID (cs_challenge st) = cx_ConfirmationID cx"
    by (rule challenge_id [OF engine_parts(2) [OF pruned] st(1)])
  then have "map_of (en_challenges en1) (cx_ConfirmationID cx) = None" using st(2) by (simp add: gm.get_del)
  moreover have "en_challenges en' = en_challenges en1"
    using authorize_challenges [OF engine_ok_cleared [OF pruned f(2)]] f(1,3) cleared_frame [OF f(2)]
    by (simp add: valid_call_def) blast
  moreover have "map_of (en_challenges en) (cx_ConfirmationID cx) \<noteq> None"
    using st(1) ok(2) by (auto simp: challenges_ok_def pruneChallenges_def Let_def map_of_filter split: option.splits)
  ultimately show ?thesis using used_confirmation_rejected [OF ok'] assms(7) by metis
qed

lemma sample_asked_ok: "engine_ok sample_asked"
proof -
  obtain d where "Evaluate sample_env sample_engine gift (sample_context '''') (Some sample_hex) (Some sample_hex) = (Inr d, sample_asked)"
    using sample_gift_asked by blast
  from engine_ok_Evaluate [OF sample_engine_ok _ _ this] show ?thesis
    by (simp add: fresh_decision_def fresh_challenge_def sample_engine_def)
qed

lemma sample_approved_ok: "engine_ok sample_approved"
  unfolding sample_approved_def by (rule engine_ok_Approve [OF sample_asked_ok])

theorem confirmation_single_use_witness:
  "map_of (en_challenges sample_given) sample_challengeID = None"
proof -
  obtain d where ev: "Evaluate sample_env sample_approved gift (sample_context sample_challengeID) (Some sample_hex) None
      = (Inr d, sample_given)" "de_Result d = Allow"
    using sample_gift_allowed by blast
  have "map_of (en_decisionKeys sample_approved) (''decision.'' @ sample_hex) = None" by code_simp
  then have fresh: "fresh_decision sample_approved (Some sample_hex)" "fresh_challenge sample_approved None"
    by (simp_all add: fresh_decision_def fresh_challenge_def)
  have none: "map_of (en_authorizations sample_approved) (makeAuthorizationKey gift (sample_context sample_challengeID)
      (revision sample_approved)) = None" by code_simp
  have "cx_ConfirmationID (sample_context sample_challengeID) \<noteq> []" by code_simp
  from confirmation_single_use [OF sample_approved_ok fresh ev none this] show ?thesis
    by (simp add: sample_context_def)
qed

text \<open>
  C25: approval is exact and does not authorise anything by itself. \<open>Approve\<close> succeeds only on a pending challenge of the
  active revision, before its expiry on the same clock, for a principal holding one of the confirmer scopes; it changes
  nothing but the approved flag of that challenge.
\<close>

theorem Approve_exact:
  assumes "Approve en i p now = (Inr ch, en')"
  shows "\<exists>st. map_of (en_challenges en) i = Some st \<and> ch = cs_challenge st
    \<and> tp_Clock now = tp_Clock (ch_ExpiresAt ch) \<and> tp_Value now < tp_Value (ch_ExpiresAt ch)
    \<and> ch_PolicyRevision ch = revision en
    \<and> (\<exists>scope \<in> set (pr_GrantedScopes p). scope \<in> set (pc_ConfirmationScopes (en_config en)))
    \<and> en' = en\<lparr>en_challenges := AList.update i (st\<lparr>cs_approved := True\<rparr>) (en_challenges en)\<rparr>"
  using assms
  by (auto simp: Approve_def Let_def principalHasAnyScope_def list_ex_iff split: option.splits if_splits)

theorem Approve_exact_witness:
  "\<exists>st. map_of (en_challenges sample_asked) sample_challengeID = Some st \<and> ch_PolicyRevision (cs_challenge st) = revision sample_asked"
proof -
  obtain ch where "Approve sample_asked sample_challengeID sample_principal (cx_Now (sample_context '''')) = (Inr ch, sample_approved)"
    using sample_gift_approved by blast
  from Approve_exact [OF this] show ?thesis by blast
qed

subsection \<open>Budgets\<close>

lemma committed_plus:
  "ledger_ok en \<Longrightarrow> amount (en_usage en) k c = committed_amount en k c + delta_total (outstanding en) k c"
  by (simp add: committed_amount_def ledger_ok_def)

text \<open>What an allow decision does to the ledger, for a call without a cached authorisation.\<close>

lemma allow_effect:
  assumes "engine_ok en" and "Evaluate env en a cx dr cr = (Inr d, en')" and "de_Result d = Allow"
    and "map_of (en_authorizations en) (makeAuthorizationKey a cx (revision en)) = None"
  obtains hex where "dr = Some hex" "de_DecisionID d = ''decision.'' @ hex"
    "\<And>k c. amount (en_usage en') k c = amount (en_usage en) k c + delta_total (charges env a cx (pc_Budgets (en_config en))) k c"
    "\<And>b. b \<in> set (pc_Budgets (en_config en)) \<Longrightarrow> matched_effects b a cx \<noteq> [] \<Longrightarrow>
       within_budget (en_usage en') (budget_key env a cx b) b"
    "en_reservations en' = (if charges env a cx (pc_Budgets (en_config en)) \<noteq> []
       then AList.update (de_DecisionID d) (charges env a cx (pc_Budgets (en_config en))) (en_reservations en)
       else en_reservations en)"
    "en_decisionKeys en' = AList.update (de_DecisionID d) (makeAuthorizationKey a cx (revision en)) (en_decisionKeys en)"
    "map_of (en_authorizations en') (makeAuthorizationKey a cx (revision en))
       = Some \<lparr>au_decision = d, au_confirmationID = cx_ConfirmationID cx, au_finalized = False\<rparr>"
    "en_config en' = en_config en"
proof -
  obtain en1 base hex where f: "valid_call env a cx" "dr = Some hex" "cleared (pruneChallenges en a cx) a cx en1"
    "authorize env en1 a cx (en_config en) (makeAuthorizationKey a cx (revision en)) base = (Inr d, en')"
    "de_Result base = Allow" "de_DecisionID base = ''decision.'' @ hex"
    by (rule fresh_allow [OF assms]) blast
  note frame = cleared_frame [OF f(3)]
  have pre: "usage_ok (en_usage en1)" "SealConfig (en_config en) = Inr (en_config en)" "ValidateBoundAction env a = None"
    using engine_parts [OF assms(1)] frame f(1) by (simp_all add: valid_call_def)
  from pre f(4) show ?thesis
  proof (cases rule: authorize_cases)
    case (refused en2 u)
    then show ?thesis using assms(3) by auto
  next
    case (allowed en2 u limits)
    then have en2: "en_reservations en2 = en_reservations en" "en_decisionKeys en2 = en_decisionKeys en"
      "en_config en2 = en_config en" using frame by auto
    show ?thesis
      by (rule that [of hex]) (use allowed en2 frame f in \<open>simp_all add: gm.get_put cong: if_cong\<close>)
  qed
qed

text \<open>
  C5: an allow decision charges every matching budget and stays within it. For a call without a cached authorisation,
  each budget that matches an effect is charged one action and the total of the matching quantities (as natural
  numbers: nothing wraps), no other counter moves, and afterwards the usage is within the budget's limits.
\<close>

theorem allow_charges_within_budgets:
  assumes "engine_ok en" and "Evaluate env en a cx dr cr = (Inr d, en')" and "de_Result d = Allow"
    and "map_of (en_authorizations en) (makeAuthorizationKey a cx (revision en)) = None"
  shows "(\<forall>k c. amount (en_usage en') k c =
        amount (en_usage en) k c + delta_total (charges env a cx (pc_Budgets (en_config en))) k c)
    \<and> (\<forall>b \<in> set (pc_Budgets (en_config en)). matched_effects b a cx \<noteq> [] \<longrightarrow>
        within_budget (en_usage en') (budget_key env a cx b) b)"
  by (rule allow_effect [OF assms]) blast

theorem allow_charges_within_budgets_witness:
  "within_budget (en_usage sample_spent) (budget_key sample_env spend (sample_context '''') sample_budget) sample_budget
   \<and> matched_effects sample_budget spend (sample_context '''') \<noteq> []"
proof -
  obtain d where ev: "Evaluate sample_env sample_engine spend (sample_context '''') (Some sample_hex) None = (Inr d, sample_spent)"
    "de_Result d = Allow"
    using sample_spend_allowed by blast
  have "map_of (en_authorizations sample_engine) k = None" for k by (simp add: sample_engine_def)
  note all = allow_charges_within_budgets [OF sample_engine_ok ev this]
  have "matched_effects sample_budget spend (sample_context '''') \<noteq> []"
  proof -
    have "length (matched_effects sample_budget spend (sample_context '''')) = 1" by code_simp
    then show ?thesis by auto
  qed
  moreover have "sample_budget \<in> set (pc_Budgets (en_config sample_engine))"
    by (simp add: sample_engine_def sample_sealed_def sample_config_def)
  ultimately show ?thesis using all by blast
qed

lemma issue_frame:
  assumes "challenges_ok en" and "issueConfirmation en a cx config ttl random = (r, en')"
  shows "en_config en' = en_config en \<and> en_usage en' = en_usage en \<and> en_reservations en' = en_reservations en
    \<and> en_authorizations en' = en_authorizations en \<and> en_decisionKeys en' = en_decisionKeys en"
  using assms by (cases rule: issueConfirmation_cases) simp_all

lemma refused_ledger:
  assumes "engine_ok en" and "Evaluate env en a cx dr cr = (r, en')"
    and "\<forall>d. r = Inr d \<longrightarrow> de_Result d \<noteq> Allow"
  shows "map_of (en_usage en') = map_of (en_usage en) \<and> en_reservations en' = en_reservations en
    \<and> en_decisionKeys en' = en_decisionKeys en"
  using engine_parts(1) [OF assms(1)] assms(2)
proof (cases rule: Evaluate_cases)
  case (asked base ttl rr)
  then show ?thesis
    using issue_frame [OF engine_parts(2) [OF engine_ok_prune [OF assms(1)]], of a cx a cx] by fastforce
next
  case (authorized en1 base hex)
  note frame = cleared_frame [OF authorized(5)]
  have pre: "usage_ok (en_usage en1)" "SealConfig (en_config en) = Inr (en_config en)" "ValidateBoundAction env a = None"
    using engine_parts [OF assms(1)] frame authorized(1) by (simp_all add: valid_call_def)
  from pre authorized(6) show ?thesis
  proof (cases rule: authorize_cases)
    case (refused en2 u)
    then show ?thesis using frame by (auto simp: same_usage_def)
  next
    case (allowed en2 u limits)
    then show ?thesis using assms(3) authorized(7) by simp
  qed
qed simp_all

text \<open>
  a call that does not allow costs nothing. An error, a denial (also one by an exhausted budget or a full cache,
  after some budgets were already charged) and a request for confirmation leave the usage of every budget, the
  reservations and the live decisions as they were.
\<close>

theorem refused_evaluation_free:
  assumes "engine_ok en" and "Evaluate env en a cx dr cr = (r, en')"
    and "\<forall>d. r = Inr d \<longrightarrow> de_Result d \<noteq> Allow"
  shows "map_of (en_usage en') = map_of (en_usage en) \<and> en_reservations en' = en_reservations en
    \<and> en_decisionKeys en' = en_decisionKeys en"
  by (rule refused_ledger [OF assms])

theorem refused_evaluation_free_witness:
  "map_of (en_usage sample_asked) = map_of (en_usage sample_engine)"
proof -
  obtain d where ev: "Evaluate sample_env sample_engine gift (sample_context '''') (Some sample_hex) (Some sample_hex)
      = (Inr d, sample_asked)" "de_Result d = RequireConfirmation"
    using sample_gift_asked by blast
  from refused_evaluation_free [OF sample_engine_ok ev(1)] ev(2) show ?thesis by simp
qed

lemma fresh_reservation:
  "ledger_ok en \<Longrightarrow> map_of (en_decisionKeys en) i = None \<Longrightarrow> map_of (en_reservations en) i = None"
  by (auto simp: ledger_ok_def)

text \<open>
  C21: authorise and roll back is the identity on the ledger. After a fresh allow decision, \<open>Finalize\<close> with
  \<open>committed = false\<close> gives every budget its usage back, removes the reservation and the authorisation, and the same
  binding can be evaluated afresh.
\<close>

theorem allow_then_rollback:
  assumes "engine_ok en" and "fresh_decision en dr" and "fresh_challenge en cr"
    and "Evaluate env en a cx dr cr = (Inr d, en')" and "de_Result d = Allow"
    and "map_of (en_authorizations en) (makeAuthorizationKey a cx (revision en)) = None"
    and "Finalize en' (de_DecisionID d) False = (ok, en'')"
  shows "ok \<and> map_of (en_usage en'') = map_of (en_usage en)
    \<and> map_of (en_reservations en'') = map_of (en_reservations en)
    \<and> map_of (en_decisionKeys en'') = map_of (en_decisionKeys en)
    \<and> map_of (en_authorizations en'') (makeAuthorizationKey a cx (revision en)) = None"
proof -
  note parts = engine_parts [OF assms(1)]
  have ok': "engine_ok en'" by (rule engine_ok_Evaluate [OF assms(1-4)])
  define ds where "ds = charges env a cx (pc_Budgets (en_config en))"
  define key where "key = makeAuthorizationKey a cx (revision en)"
  obtain hex where e: "dr = Some hex" "de_DecisionID d = ''decision.'' @ hex"
    "\<And>k c. amount (en_usage en') k c = amount (en_usage en) k c + delta_total ds k c"
    "en_reservations en' = (if ds \<noteq> [] then AList.update (de_DecisionID d) ds (en_reservations en) else en_reservations en)"
    "en_decisionKeys en' = AList.update (de_DecisionID d) key (en_decisionKeys en)"
    "map_of (en_authorizations en') key
       = Some \<lparr>au_decision = d, au_confirmationID = cx_ConfirmationID cx, au_finalized = False\<rparr>"
    by (rule allow_effect [OF assms(1,4-6), folded ds_def key_def]) blast
  have fresh: "map_of (en_decisionKeys en) (de_DecisionID d) = None" using assms(2) e(1,2) by (simp add: fresh_decision_def)
  note nores = fresh_reservation [OF parts(3) fresh]
  have fin: "ok" "en'' = release (settle en' (de_DecisionID d) False) (de_DecisionID d) key False"
    using assms(7) e(5) by (simp_all add: Finalize_release gm.get_put)
  have ok'': "engine_ok en''" using engine_ok_Finalize [OF ok', of "de_DecisionID d" False] assms(7) by simp
  have "amount (en_usage en'') k c = amount (en_usage en) k c" for k c
  proof (cases "ds = []")
    case True
    then show ?thesis using e(3,4) nores fin(2) by (simp add: release_def settle_def)
  next
    case False
    then have "map_of (en_reservations en') (de_DecisionID d) = Some ds" using e(4) by (simp add: gm.get_put)
    then show ?thesis using rollback_amount(1) [OF engine_parts(3) [OF ok']] e(3) fin(2)
      by (simp add: release_def settle_def)
  qed
  then have "map_of (en_usage en'') = map_of (en_usage en)"
    using usage_ok_ext engine_parts(5) [OF ok''] parts(5) by blast
  moreover have "map_of (en_reservations en'') = map_of (en_reservations en)"
    using fin(2) e(4) nores by (auto simp: release_def gm.get_put)
  moreover have "map_of (en_decisionKeys en'') = map_of (en_decisionKeys en)"
    using fin(2) e(5) fresh by (auto simp: release_def gm.get_put gm.get_del)
  moreover have "map_of (en_authorizations en'') key = None"
    using fin(2) e(6) by (simp add: release_def gm.get_del)
  ultimately show ?thesis using fin(1) by (simp add: key_def)
qed

theorem allow_then_rollback_witness:
  "\<exists>d :: decision. de_Result d = Allow \<and> map_of (en_usage (snd (Finalize sample_spent (de_DecisionID d) False))) = Map.empty"
proof -
  obtain d where ev: "Evaluate sample_env sample_engine spend (sample_context '''') (Some sample_hex) None = (Inr d, sample_spent)"
    "de_Result d = Allow"
    using sample_spend_allowed by blast
  have "Finalize sample_spent (de_DecisionID d) False =
      (fst (Finalize sample_spent (de_DecisionID d) False), snd (Finalize sample_spent (de_DecisionID d) False))" by simp
  from allow_then_rollback [OF sample_engine_ok sample_fresh(1,2) ev sample_fresh(3) this] ev(2)
  have "map_of (en_usage (snd (Finalize sample_spent (de_DecisionID d) False))) = Map.empty"
    by (simp add: sample_engine_def)
  then show ?thesis using ev(2) by blast
qed

text \<open>
  The abstract ledger: the committed amounts and the outstanding reservations by decision. An authorisation adds a
  reservation; settling a decision removes it, and adds it to the committed amounts when the action was committed.
\<close>

type_synonym abstract_ledger = "(string \<Rightarrow> counter \<Rightarrow> nat) \<times> (string \<rightharpoonup> budget_delta list)"

definition abs_ledger :: "engine \<Rightarrow> abstract_ledger" where
  "abs_ledger en = (committed_amount en, map_of (en_reservations en))"

definition ledger_reserve :: "string \<Rightarrow> budget_delta list \<Rightarrow> abstract_ledger \<Rightarrow> abstract_ledger" where
  "ledger_reserve i ds l = (fst l, if ds = [] then snd l else (snd l)(i \<mapsto> ds))"

definition ledger_settle :: "string \<Rightarrow> bool \<Rightarrow> abstract_ledger \<Rightarrow> abstract_ledger" where
  "ledger_settle i committed l =
     (\<lambda>k c. fst l k c + (case snd l i of Some ds \<Rightarrow> if committed then delta_total ds k c else 0 | None \<Rightarrow> 0),
      (snd l)(i := None))"

lemma settle_abs:
  assumes "ledger_ok en"
  shows "abs_ledger (settle en i committed) = ledger_settle i committed (abs_ledger en)"
proof (cases "map_of (en_reservations en) i")
  case None
  then have "(map_of (en_reservations en))(i := None) = map_of (en_reservations en)" by auto
  then show ?thesis using None by (simp add: abs_ledger_def ledger_settle_def settle_def)
next
  case (Some ds)
  have del: "reserved_total (en_reservations en) k c =
      delta_total ds k c + reserved_total (AList.delete i (en_reservations en)) k c" for k c
    using reserved_del [of "en_reservations en" i ds k c] assms Some by (simp add: ledger_ok_def)
  have "committed_amount (settle en i committed) k c =
      committed_amount en k c + (if committed then delta_total ds k c else 0)" for k c
  proof -
    have "reserved_total (en_reservations en) k c \<le> amount (en_usage en) k c"
      using assms by (simp add: ledger_ok_def outstanding_def)
    then show ?thesis using rollback_amount(1) [OF assms Some, of k c] del [of k c] Some
      by (cases committed) (simp_all add: committed_amount_def outstanding_def settle_def)
  qed
  then show ?thesis using Some
    by (auto simp: abs_ledger_def ledger_settle_def fun_eq_iff)
qed

text \<open>
  C16: \<open>Finalize\<close> refines settling. On every engine that keeps the invariant, finalising a live decision moves its
  reservation into the committed amounts, or drops it, exactly, for all budgets and both counters, and touches no other
  decision; an unknown decision changes nothing.
\<close>

theorem Finalize_refines_settle:
  assumes "engine_ok en" and "Finalize en i committed = (ok, en')"
  shows "if ok then abs_ledger en' = ledger_settle i committed (abs_ledger en) else en' = en"
proof (cases "map_of (en_decisionKeys en) i")
  case None
  then show ?thesis using assms(2) by (simp add: Finalize_release)
next
  case (Some key)
  then have "ok" "en' = release (settle en i committed) i key committed"
    using assms(2) by (simp_all add: Finalize_release)
  moreover have "abs_ledger (release x i key committed) = abs_ledger x" for x
    by (simp add: abs_ledger_def release_def committed_amount_def outstanding_def fun_eq_iff)
  ultimately show ?thesis using settle_abs [OF engine_parts(3) [OF assms(1)]] by simp
qed

theorem Finalize_refines_settle_witness:
  "abs_ledger (snd (Finalize sample_spent (''decision.'' @ sample_hex) True)) =
     ledger_settle (''decision.'' @ sample_hex) True (abs_ledger sample_spent)"
proof -
  have "fst (Finalize sample_spent (''decision.'' @ sample_hex) True)" by code_simp
  then show ?thesis
    using Finalize_refines_settle [OF sample_spent_ok surjective_pairing, of "''decision.'' @ sample_hex" True] by simp
qed

text \<open>
  C9: \<open>Evaluate\<close> refines reserving. A fresh allow decision adds exactly the charges of the matching budgets as the
  reservation of its identifier and leaves the committed amounts alone; every other outcome is invisible on the ledger.
\<close>

theorem Evaluate_refines_reserve:
  assumes "engine_ok en" and "fresh_decision en dr"
    and "Evaluate env en a cx dr cr = (r, en')"
    and "map_of (en_authorizations en) (makeAuthorizationKey a cx (revision en)) = None"
  shows "(case r of
      Inr d \<Rightarrow> if de_Result d = Allow
        then abs_ledger en' = ledger_reserve (de_DecisionID d) (charges env a cx (pc_Budgets (en_config en))) (abs_ledger en)
        else abs_ledger en' = abs_ledger en
    | Inl e \<Rightarrow> abs_ledger en' = abs_ledger en)"
proof -
  have free: "abs_ledger en' = abs_ledger en" if "\<forall>d. r = Inr d \<longrightarrow> de_Result d \<noteq> Allow"
    using refused_ledger [OF assms(1,3) that]
    by (auto simp: abs_ledger_def committed_amount_def outstanding_def amount_def usage_of_def fun_eq_iff)
  show ?thesis
  proof (cases "\<exists>d. r = Inr d \<and> de_Result d = Allow")
    case False
    then show ?thesis using free by (auto split: sum.splits)
  next
    case True
    then obtain d where d: "r = Inr d" "de_Result d = Allow" by blast
    define ds where "ds = charges env a cx (pc_Budgets (en_config en))"
    obtain hex where e: "dr = Some hex" "de_DecisionID d = ''decision.'' @ hex"
      "\<And>k c. amount (en_usage en') k c = amount (en_usage en) k c + delta_total ds k c"
      "en_reservations en' = (if ds \<noteq> [] then AList.update (de_DecisionID d) ds (en_reservations en) else en_reservations en)"
      by (rule allow_effect [OF assms(1) assms(3) [unfolded d(1)] d(2) assms(4), folded ds_def]) blast
    have "map_of (en_decisionKeys en) (de_DecisionID d) = None" using assms(2) e(1,2) by (simp add: fresh_decision_def)
    from fresh_reservation [OF engine_parts(3) [OF assms(1)] this]
    have "delta_total (outstanding en') k c = delta_total (outstanding en) k c + delta_total ds k c" for k c
      using e(4) by (simp add: outstanding_def reserved_put)
    then have "committed_amount en' = committed_amount en"
      by (simp add: committed_amount_def e(3) fun_eq_iff)
    then show ?thesis using d e(4) by (simp add: abs_ledger_def ledger_reserve_def ds_def gm.get_put)
  qed
qed

theorem Evaluate_refines_reserve_witness:
  "\<exists>i. abs_ledger sample_spent =
     ledger_reserve i (charges sample_env spend (sample_context '''') (pc_Budgets sample_sealed)) (abs_ledger sample_engine)"
proof -
  obtain d where ev: "Evaluate sample_env sample_engine spend (sample_context '''') (Some sample_hex) None = (Inr d, sample_spent)"
    "de_Result d = Allow"
    using sample_spend_allowed by blast
  from Evaluate_refines_reserve [OF sample_engine_ok sample_fresh(1) ev(1) sample_fresh(3)] ev(2) show ?thesis
    by (auto simp: sample_engine_def)
qed

text \<open>
  C26: a decision is settled once. After \<open>Finalize\<close> reported success, a second call with the same identifier reports
  failure and changes nothing, whatever its flag.
\<close>

theorem Finalize_once:
  assumes "Finalize en i committed = (True, en')"
  shows "Finalize en' i committed' = (False, en')"
proof -
  obtain key where "en' = release (settle en i committed) i key committed"
    using assms by (auto simp: Finalize_release split: option.splits)
  then have "map_of (en_decisionKeys en') i = None" by (simp add: release_def gm.get_del)
  then show ?thesis by (simp add: Finalize_release)
qed

theorem Finalize_once_witness:
  "fst (Finalize (snd (Finalize sample_spent (''decision.'' @ sample_hex) True)) (''decision.'' @ sample_hex) False) = False"
proof -
  have "fst (Finalize sample_spent (''decision.'' @ sample_hex) True)" by code_simp
  then have "Finalize sample_spent (''decision.'' @ sample_hex) True =
      (True, snd (Finalize sample_spent (''decision.'' @ sample_hex) True))"
    by (metis prod.collapse)
  from Finalize_once [OF this] show ?thesis by simp
qed

text \<open>
  a repeated call is answered from the cache and never charged twice. After a fresh allow decision, a call for the
  same binding, principal, server, owner and revision with the same confirmation, while the gates are open, returns the
  same decision and changes neither usage nor reservations nor authorisations, whatever identifiers are drawn.
\<close>

theorem repeated_evaluation_cached:
  assumes "engine_ok en" and "Evaluate env en a cx dr cr = (Inr d, en')" and "de_Result d = Allow"
    and "map_of (en_authorizations en) (makeAuthorizationKey a cx (revision en)) = None"
    and "makeAuthorizationKey a' cx' (revision en) = makeAuthorizationKey a cx (revision en)"
    and "cx_ConfirmationID cx' = cx_ConfirmationID cx" and "gates_open a' cx'"
    and "ValidateBoundAction env a' = None" and "validateContext cx' = None"
    and "Evaluate env en' a' cx' (Some hex') cr' = (r, en'')"
  shows "r = Inr d \<and> en_usage en'' = en_usage en' \<and> en_reservations en'' = en_reservations en'
    \<and> en_authorizations en'' = en_authorizations en' \<and> en_decisionKeys en'' = en_decisionKeys en'"
proof -
  obtain hex where e: "map_of (en_authorizations en') (makeAuthorizationKey a cx (revision en))
       = Some \<lparr>au_decision = d, au_confirmationID = cx_ConfirmationID cx, au_finalized = False\<rparr>" "en_config en' = en_config en"
    by (rule allow_effect [OF assms(1-4)]) blast
  have "gate a' cx' base = None" for base using assms(7) gate_None_iff by blast
  then have "Evaluate env en' a' cx' (Some hex') cr' = (Inr d, pruneChallenges en' a' cx')"
    using assms(5,6,8,9) e by (simp add: Evaluate_def newID_def Let_def)
  then show ?thesis using assms(10) by simp
qed

theorem repeated_evaluation_cached_witness:
  "\<exists>d. de_Result d = Allow \<and> fst (Evaluate sample_env sample_spent spend (sample_context '''') (Some sample_digest) None) = Inr d"
proof -
  obtain d where ev: "Evaluate sample_env sample_engine spend (sample_context '''') (Some sample_hex) None = (Inr d, sample_spent)"
    "de_Result d = Allow"
    using sample_spend_allowed by blast
  have gates: "gates_open spend (sample_context '''')" by code_simp
  from repeated_evaluation_cached [OF sample_engine_ok ev sample_fresh(3) refl refl gates sample_action_valid
      sample_context_valid surjective_pairing] ev(2)
  show ?thesis by blast
qed

subsection \<open>Revisions and keys\<close>

text \<open>
  C27: a revision replaces the one before only if it is newer, and nothing pending survives it. A successful \<open>Update\<close> installs
  the sealed configuration with a greater revision number, drops every challenge and cached authorisation, and keeps the
  budget usage and the reservations of live decisions; a failing one changes nothing.
\<close>

theorem Update_installs_newer:
  "case Update digest en config of
     (None, en') \<Rightarrow> SealConfig config = Inr (en_config en') \<and> revision en < revision en'
       \<and> en_challenges en' = [] \<and> en_challengeKeys en' = [] \<and> en_authorizations en' = []
       \<and> en_usage en' = en_usage en \<and> en_reservations en' = en_reservations en \<and> en_decisionKeys en' = en_decisionKeys en
   | (Some e, en') \<Rightarrow> en' = en"
  by (auto simp: Update_def split: sum.splits)

lemma validateContext_None:
  assumes "validateContext cx = None"
  shows "id_pattern (cx_ServerID cx)" "cx_OwnerID cx \<noteq> [] \<Longrightarrow> id_pattern (cx_OwnerID cx)"
    "id_pattern (pr_ID (cx_Principal cx))" "length (pr_ID (cx_Principal cx)) \<le> 96"
    "Timepoint_Validate (cx_Now cx) ''now'' = None"
  using assms ValidatePrincipal_None [of "cx_Principal cx"]
  unfolding validateContext_def first_err.simps case_err_None validateID_None
  by (auto split: if_splits simp: validateID_None)

lemma key_parts_free:
  assumes "valid_call env a cx"
  shows "\<forall>s \<in> set [ba_BindingID a, ba_RequestDigest a, ba_EffectDigest a, pr_ID (cx_Principal cx), cx_ServerID cx, cx_OwnerID cx,
      ep_SessionID (ba_ExpectedEpoch a), format_u64 (ep_Host (ba_ExpectedEpoch a)),
      format_u64 (ep_World (ba_ExpectedEpoch a)), format_u64 (ep_Timeline (ba_ExpectedEpoch a)), format_u64 r]. NUL \<notin> set s"
proof -
  have v: "ValidateBoundAction env a = None" "validateContext cx = None" using assms by (auto simp: valid_call_def)
  note facts = ValidateBoundAction_facts [OF v(1)]
  have "NUL \<notin> set (cx_ServerID cx)" "NUL \<notin> set (cx_OwnerID cx)" "NUL \<notin> set (pr_ID (cx_Principal cx))"
    using validateContext_None [OF v(2)] by (cases "cx_OwnerID cx = []"; simp)+
  moreover have "NUL \<notin> set (ep_SessionID (ba_ExpectedEpoch a))"
    using facts(9) [of "''''"] by (simp add: Epoch_Validate_None NUL_notin_id)
  ultimately show ?thesis using facts(1,7,8) by (simp add: NUL_notin_id NUL_notin_digest)
qed

text \<open>
  two valid calls share an authorisation or a pending challenge only if they agree on the binding, the request and
  effect digests, the principal, the server, the owner, the session, the three epoch generations and the revision.
\<close>

theorem authorization_key_injective:
  assumes "ValidateBoundAction env a = None" and "validateContext cx = None"
    and "ValidateBoundAction env' a' = None" and "validateContext cx' = None"
    and "makeAuthorizationKey a cx r = makeAuthorizationKey a' cx' r'"
  shows "ba_BindingID a = ba_BindingID a' \<and> ba_RequestDigest a = ba_RequestDigest a' \<and> ba_EffectDigest a = ba_EffectDigest a'
    \<and> pr_ID (cx_Principal cx) = pr_ID (cx_Principal cx') \<and> cx_ServerID cx = cx_ServerID cx' \<and> cx_OwnerID cx = cx_OwnerID cx'
    \<and> ep_SessionID (ba_ExpectedEpoch a) = ep_SessionID (ba_ExpectedEpoch a')
    \<and> ep_Host (ba_ExpectedEpoch a) = ep_Host (ba_ExpectedEpoch a')
    \<and> ep_World (ba_ExpectedEpoch a) = ep_World (ba_ExpectedEpoch a')
    \<and> ep_Timeline (ba_ExpectedEpoch a) = ep_Timeline (ba_ExpectedEpoch a') \<and> r = r'"
proof -
  have v: "valid_call env a cx" "valid_call env' a' cx'" using assms by (simp_all add: valid_call_def)
  have "[ba_BindingID a, ba_RequestDigest a, ba_EffectDigest a, pr_ID (cx_Principal cx), cx_ServerID cx, cx_OwnerID cx,
      ep_SessionID (ba_ExpectedEpoch a), format_u64 (ep_Host (ba_ExpectedEpoch a)),
      format_u64 (ep_World (ba_ExpectedEpoch a)), format_u64 (ep_Timeline (ba_ExpectedEpoch a)), format_u64 r]
    = [ba_BindingID a', ba_RequestDigest a', ba_EffectDigest a', pr_ID (cx_Principal cx'), cx_ServerID cx', cx_OwnerID cx',
      ep_SessionID (ba_ExpectedEpoch a'), format_u64 (ep_Host (ba_ExpectedEpoch a')),
      format_u64 (ep_World (ba_ExpectedEpoch a')), format_u64 (ep_Timeline (ba_ExpectedEpoch a')), format_u64 r']"
    using assms(5) key_parts_free [OF v(1), of r] key_parts_free [OF v(2), of r']
    by (intro nul_join_inj) (simp_all add: makeAuthorizationKey_def)
  then show ?thesis by (auto dest: format_u64_inj)
qed

theorem authorization_key_injective_witness:
  "makeAuthorizationKey spend (sample_context '''') 1 \<noteq> makeAuthorizationKey spend (sample_context '''') 2"
  using authorization_key_injective [OF sample_action_valid sample_context_valid sample_action_valid sample_context_valid, of 1 2]
  by auto

end
