(* ===== verification/Host_Schema.thy ===== *)
theory Host_Schema
  imports Host_Validate
begin

section \<open>Schemas of the Host contract (package \<open>host\<close>, schema.go and schema_cache.go)\<close>

text \<open>
  Capability inputs, outputs and effect attributes are checked against self-contained JSON Schema documents. The
  compiler and validator are a third-party package; what is modelled is the code around it: which documents are
  accepted, that only canonical documents with the right digest are used, and the cache of compiled schemas, a map
  with first-in first-out eviction that is shown to be bounded and transparent.
\<close>

definition maxSchemaBytes :: nat where "maxSchemaBytes = 65536"

text \<open>A compiled schema is identified by its canonical document.\<close>

definition compileSchemaUncached :: "go_env \<Rightarrow> string \<Rightarrow> string + string" where
  "compileSchemaUncached env canonical =
     (case schema_unmarshal env canonical of
        Inl msg \<Rightarrow> Inl msg
      | Inr _ \<Rightarrow> (case schema_compile env canonical of Some msg \<Rightarrow> Inl msg | None \<Rightarrow> Inr canonical))"

definition json_field :: "json \<Rightarrow> string \<Rightarrow> json option" where
  "json_field v name = (case v of JObject members \<Rightarrow> map_of members name | _ \<Rightarrow> None)"

fun is_object :: "json \<Rightarrow> bool" where
  "is_object (JObject _) = True"
| "is_object _ = False"

definition prepareSchema :: "go_env \<Rightarrow> string \<Rightarrow> validation_error + string \<times> string" where
  "prepareSchema env document =
     guard_err (require (document \<noteq> [] \<and> length document \<le> maxSchemaBytes)
                  (invalid ''schema.document'' ''must contain 1-65536 bytes''))
     (guard_err (map_option (invalid ''schema.document'') (jsonwire_Validate env document))
     (case json_decode env document of
        Inl msg \<Rightarrow> Inl (invalid ''schema.document'' (''must be valid JSON: '' @ msg))
      | Inr value \<Rightarrow>
          guard_err (first_err [
              map_option (invalid ''schema.document'') (json_trailing env document),
              require (is_object value) (invalid ''schema.document'' ''root must be an object''),
              require (json_field value ''$schema'' = Some (JString SchemaDialect))
                (invalid ''schema.document.$schema'' (''must equal '' @ SchemaDialect)),
              require (json_field value ''type'' = Some (JString ''object''))
                (invalid ''schema.document.type'' ''must equal object''),
              require (json_field value ''additionalProperties'' = Some (JBool False))
                (invalid ''schema.document.additionalProperties'' ''must be present and equal false'')])
          (case json_marshal env value of
             Inl msg \<Rightarrow> Inl (invalid ''schema.document'' (''cannot canonicalize: '' @ msg))
           | Inr canonical \<Rightarrow>
               (case compileSchemaUncached env canonical of
                  Inl msg \<Rightarrow> Inl (invalid ''schema.document'' (''does not compile: '' @ msg))
                | Inr compiled \<Rightarrow> Inr (canonical, compiled)))))"

definition CanonicalizeSchema :: "go_env \<Rightarrow> string \<Rightarrow> validation_error + string" where
  "CanonicalizeSchema env document = ebind (prepareSchema env document) (\<lambda>(canonical, _). Inr canonical)"

definition NewSchema :: "go_env \<Rightarrow> string \<Rightarrow> validation_error + schema" where
  "NewSchema env document =
     ebind (prepareSchema env document) (\<lambda>(canonical, _).
       Inr \<lparr>sc_Dialect = SchemaDialect, sc_Document = canonical, sc_SHA256 = sha256Hex env canonical\<rparr>)"

definition Schema_compiled :: "go_env \<Rightarrow> schema \<Rightarrow> validation_error + string" where
  "Schema_compiled env s =
     guard_err (require (sc_Dialect s = SchemaDialect) (invalid ''schema.dialect'' (''must equal '' @ SchemaDialect)))
     (ebind (prepareSchema env (sc_Document s)) (\<lambda>(canonical, compiled).
        guard_err (first_err [
            require (sc_Document s = canonical)
              (invalid ''schema.document'' ''must be canonical; construct it with NewSchema''),
            require (sc_SHA256 s = sha256Hex env canonical)
              (invalid ''schema.sha256'' ''does not match canonical document'')])
          (Inr compiled)))"

definition Schema_Validate :: "go_env \<Rightarrow> schema \<Rightarrow> validation_error option" where
  "Schema_Validate env s = err_of (Schema_compiled env s)"

definition decodeJSON :: "go_env \<Rightarrow> string \<Rightarrow> string + json" where
  "decodeJSON env document =
     (if document = [] then Inl ''is required''
      else case jsonwire_Validate env document of
        Some msg \<Rightarrow> Inl msg
      | None \<Rightarrow> (case schema_unmarshal env document of Inl msg \<Rightarrow> Inl (''must be valid JSON: '' @ msg) | Inr v \<Rightarrow> Inr v))"

text \<open>Decode a document and validate it against a compiled schema; both failures carry the given field.\<close>

definition check_instance :: "go_env \<Rightarrow> string \<Rightarrow> string \<Rightarrow> string \<Rightarrow> validation_error option" where
  "check_instance env field document schema =
     (case decodeJSON env document of
        Inl msg \<Rightarrow> Some (invalid field msg)
      | Inr v \<Rightarrow> map_option (invalid field) (schema_validate env schema v))"

definition ValidateInstance :: "go_env \<Rightarrow> schema \<Rightarrow> string \<Rightarrow> validation_error option" where
  "ValidateInstance env s document =
     (case Schema_compiled env s of
        Inl e \<Rightarrow> Some e
      | Inr c \<Rightarrow>
          first_err [
            require (length document \<le> maxInstanceBytes) (invalid ''instance'' ''must contain at most 1048576 bytes''),
            check_instance env ''instance'' document c])"

definition ValidateObservationPayload :: "go_env \<Rightarrow> observation_envelope \<Rightarrow> schema \<Rightarrow> validation_error option" where
  "ValidateObservationPayload env obs s =
     first_err [
       ValidateObservationEnvelope env obs,
       map_option (prefixValidation ''payload_schema'') (Schema_Validate env s),
       require (sr_SHA256 (oe_Schema obs) = sc_SHA256 s)
         (invalid ''schema_ref.sha256'' ''does not match the supplied payload schema''),
       map_option (prefixValidation ''payload'') (ValidateInstance env s (oe_Payload obs))]"

subsection \<open>The cache of compiled schemas\<close>

definition maxCompiledSchemas :: nat where "maxCompiledSchemas = 128"

text \<open>The ring of keys is a list, as in the source; \<open>next\<close> is the slot to overwrite.\<close>

record 'c schema_cache =
  ca_capacity :: int
  ca_entries :: "(string, 'c) gomap"
  ca_keys :: "string list"
  ca_next :: nat

definition empty_cache :: "int \<Rightarrow> 'c schema_cache" where
  "empty_cache capacity = \<lparr>ca_capacity = capacity, ca_entries = [], ca_keys = [], ca_next = 0\<rparr>"

definition cache_compile ::
  "(string \<Rightarrow> 'e + 'c) \<Rightarrow> 'c schema_cache \<Rightarrow> string \<Rightarrow> ('e + 'c) \<times> 'c schema_cache" where
  "cache_compile uncached cache canonical =
     (case map_of (ca_entries cache) canonical of
        Some compiled \<Rightarrow> (Inr compiled, cache)
      | None \<Rightarrow>
          (case uncached canonical of
             Inl e \<Rightarrow> (Inl e, cache)
           | Inr compiled \<Rightarrow>
               if ca_capacity cache \<le> 0 then (Inr compiled, cache)
               else
                 let c1 = (if int (length (ca_keys cache)) < ca_capacity cache
                           then cache\<lparr>ca_keys := ca_keys cache @ [canonical]\<rparr>
                           else cache\<lparr>ca_entries := AList.delete (ca_keys cache ! ca_next cache) (ca_entries cache),
                                      ca_keys := (ca_keys cache)[ca_next cache := canonical],
                                      ca_next := Suc (ca_next cache) mod nat (ca_capacity cache)\<rparr>)
                 in (Inr compiled, c1\<lparr>ca_entries := AList.update canonical compiled (ca_entries c1)\<rparr>)))"

text \<open>
  The contract of a cache in front of a function: in a good state a request is answered as without the cache, and the
  state stays good. Then every sequence of requests is.
\<close>

fun cache_run :: "('s \<Rightarrow> 'k \<Rightarrow> 'r \<times> 's) \<Rightarrow> 's \<Rightarrow> 'k list \<Rightarrow> 'r list \<times> 's" where
  "cache_run step s [] = ([], s)"
| "cache_run step s (k # ks) = (let (r, s1) = step s k; (rs, s2) = cache_run step s1 ks in (r # rs, s2))"

locale transparent_cache =
  fixes step :: "'s \<Rightarrow> 'k \<Rightarrow> 'r \<times> 's"
    and direct :: "'k \<Rightarrow> 'r"
    and good :: "'s \<Rightarrow> bool"
  assumes answer: "good s \<Longrightarrow> fst (step s k) = direct k"
    and stays_good: "good s \<Longrightarrow> good (snd (step s k))"
begin

lemma run_direct: "good s \<Longrightarrow> fst (cache_run step s ks) = map direct ks \<and> good (snd (cache_run step s ks))"
proof (induction ks arbitrary: s)
  case Nil
  then show ?case by simp
next
  case (Cons k ks)
  then show ?case using answer [of s k] stays_good [of s k] by (auto simp: split_beta)
qed

end

text \<open>
  The invariant: the ring lists the keys of the map, each once, so that every index is in range; every entry is what
  an uncached compilation gives.
\<close>

definition cache_ok :: "(string \<Rightarrow> 'e + 'c) \<Rightarrow> 'c schema_cache \<Rightarrow> bool" where
  "cache_ok uncached cache \<longleftrightarrow>
     map_ok (ca_entries cache) \<and> distinct (ca_keys cache) \<and> set (ca_keys cache) = dom (map_of (ca_entries cache))
     \<and> int (length (ca_keys cache)) \<le> max 0 (ca_capacity cache)
     \<and> (ca_next cache < length (ca_keys cache) \<or> ca_next cache = 0)
     \<and> (int (length (ca_keys cache)) < ca_capacity cache \<longrightarrow> ca_next cache = 0)
     \<and> (\<forall>k v. map_of (ca_entries cache) k = Some v \<longrightarrow> uncached k = Inr v)"

lemma cache_hit: "cache_ok uncached cache \<Longrightarrow> map_of (ca_entries cache) k = Some v \<Longrightarrow> uncached k = Inr v"
  by (simp add: cache_ok_def)

lemma cache_answer:
  assumes "cache_ok uncached cache"
  shows "fst (cache_compile uncached cache k) = uncached k"
  using cache_hit [OF assms, of k]
  by (auto simp: cache_compile_def Let_def split: option.splits sum.splits)

lemma cache_ok_grow:
  assumes "cache_ok uncached cache" and "map_of (ca_entries cache) k = None" and "uncached k = Inr v"
    and "int (length (ca_keys cache)) < ca_capacity cache"
  shows "cache_ok uncached (cache\<lparr>ca_keys := ca_keys cache @ [k], ca_entries := AList.update k v (ca_entries cache)\<rparr>)"
proof -
  have "k \<notin> set (ca_keys cache)" using assms(1,2) by (auto simp: cache_ok_def)
  then show ?thesis using assms by (auto simp: cache_ok_def gm.get_put gm.invar_put)
qed

lemma cache_ok_evict:
  assumes "cache_ok uncached cache" and "map_of (ca_entries cache) k = None" and "uncached k = Inr v"
    and "0 < ca_capacity cache" and "\<not> int (length (ca_keys cache)) < ca_capacity cache"
  shows "cache_ok uncached (cache\<lparr>
    ca_keys := (ca_keys cache)[ca_next cache := k],
    ca_next := Suc (ca_next cache) mod nat (ca_capacity cache),
    ca_entries := AList.update k v (AList.delete (ca_keys cache ! ca_next cache) (ca_entries cache))\<rparr>)"
proof -
  define ks n where "ks = ca_keys cache" and "n = ca_next cache"
  have ok: "distinct ks" "set ks = dom (map_of (ca_entries cache))" "int (length ks) = ca_capacity cache"
    using assms(1,4,5) by (auto simp: cache_ok_def ks_def)
  have n: "n < length ks" using assms(1,4) ok(3) by (auto simp: cache_ok_def ks_def n_def)
  have fresh: "k \<notin> set ks" using ok(2) assms(2) by auto
  have "set (ks[n := k]) = insert k (set ks - {ks ! n})"
    using set_update_distinct [OF ok(1) n] by simp
  moreover have "dom (map_of (AList.update k v (AList.delete (ks ! n) (ca_entries cache)))) = insert k (set ks - {ks ! n})"
    using ok(2) by (auto simp: gm.get_put gm.get_del)
  moreover have "distinct (ks[n := k])" using ok(1) fresh by (simp add: distinct_list_update)
  moreover have "Suc n mod nat (ca_capacity cache) < length ks" using ok(3) assms(4) by (metis nat_int mod_less_divisor zero_less_nat_eq)
  moreover have "uncached k' = Inr v'"
    if "map_of (AList.update k v (AList.delete (ks ! n) (ca_entries cache))) k' = Some v'" for k' v'
    using that assms(1,3) by (auto simp: gm.get_put gm.get_del cache_ok_def split: if_splits)
  ultimately show ?thesis using assms(1,4) ok(3) unfolding ks_def [symmetric] n_def [symmetric]
    by (simp add: cache_ok_def gm.invar_put gm.invar_del ks_def n_def)
qed

lemma cache_ok_compile:
  assumes "cache_ok uncached cache"
  shows "cache_ok uncached (snd (cache_compile uncached cache k))"
  using assms cache_ok_grow [OF assms, of k] cache_ok_evict [OF assms, of k]
  by (auto simp: cache_compile_def Let_def split: option.splits sum.splits)

interpretation sc: transparent_cache "cache_compile uncached" uncached "cache_ok uncached"
  by unfold_locales (simp_all add: cache_answer cache_ok_compile)

text \<open>
  the schema cache is transparent and bounded. From an empty cache of any capacity, any sequence of requests gives
  exactly the results of uncached compilations, errors included; afterwards at most the capacity is stored, the ring
  lists every stored key once and its index is in range.
\<close>

theorem schema_cache_transparent:
  fixes uncached :: "string \<Rightarrow> 'e + 'c"
  shows "fst (cache_run (cache_compile uncached) (empty_cache capacity) documents) = map uncached documents
    \<and> int (length (ca_entries (snd (cache_run (cache_compile uncached) (empty_cache capacity) documents)))) \<le> max 0 capacity"
proof -
  have empty: "cache_ok uncached (empty_cache capacity)" by (simp add: cache_ok_def empty_cache_def)
  define c where "c = snd (cache_run (cache_compile uncached) (empty_cache capacity) documents)"
  have run: "fst (cache_run (cache_compile uncached) (empty_cache capacity) documents) = map uncached documents" "cache_ok uncached c"
    using sc.run_direct [OF empty] by (simp_all add: c_def)
  have cap: "ca_capacity (snd (cache_run (cache_compile uncached) s ds)) = ca_capacity s" for s :: "'c schema_cache" and ds
  proof (induction ds arbitrary: s)
    case (Cons d ds)
    have "ca_capacity (snd (cache_compile uncached s d)) = ca_capacity s"
      by (auto simp: cache_compile_def Let_def split: option.splits sum.splits)
    then show ?case using Cons by (simp add: split_beta)
  qed simp
  have "length (ca_entries c) = length (ca_keys c)"
    using run(2) length_map_ok [of "ca_entries c"] distinct_card [of "ca_keys c"] by (simp add: cache_ok_def)
  then show ?thesis using run cap [of "empty_cache capacity" documents]
    by (simp add: cache_ok_def empty_cache_def c_def)
qed

lemma prepareSchema_compiled: "prepareSchema env d = Inr (canonical, c) \<Longrightarrow> c = canonical"
  by (auto simp: prepareSchema_def compileSchemaUncached_def simp del: first_err.simps split: sum.splits option.splits)

lemma Schema_compiled_document:
  "Schema_compiled env s = Inr c \<longleftrightarrow> sc_Dialect s = SchemaDialect \<and> prepareSchema env (sc_Document s) = Inr (sc_Document s, c)
     \<and> sc_SHA256 s = sha256Hex env (sc_Document s)"
  by (auto simp: Schema_compiled_def ebind_Inr_iff)

text \<open>
   a schema value validates exactly when it is the one that \<open>NewSchema\<close> builds from its own document: dialect, canonical
  document and digest leave no freedom, so a schema cannot be presented under another schema's digest unless the
  hash collides.
\<close>

theorem Schema_Validate_iff: "Schema_Validate env s = None \<longleftrightarrow> NewSchema env (sc_Document s) = Inr s"
proof -
  have "Schema_Validate env s = None \<longleftrightarrow> (\<exists>c. sc_Dialect s = SchemaDialect
      \<and> prepareSchema env (sc_Document s) = Inr (sc_Document s, c) \<and> sc_SHA256 s = sha256Hex env (sc_Document s))"
    by (simp add: Schema_Validate_def err_of_None_iff Schema_compiled_document)
  also have "\<dots> \<longleftrightarrow> NewSchema env (sc_Document s) = Inr s"
    by (cases s) (auto simp: NewSchema_def ebind_Inr_iff)
  finally show ?thesis .
qed

end
