(* ===== verification/Host_Registry.thy ===== *)
theory Host_Registry
  imports Host_Schema
begin

section \<open>Capability specifications and the Host registry (package \<open>host\<close>, action_validate.go, registry.go, action_registry.go)\<close>

text \<open>
  The registry holds the sealed capability specifications of a Host and the bindings it issued. A controller's request
  is validated against the catalog and the current epoch and observation; the adapter's draft is sealed into a
  \<open>BoundAction\<close> whose fingerprint is remembered; immediately before execution the same action is authorised again. Each
  operation runs under the registry's lock; \<open>SealBinding\<close> takes it twice, first to validate and then to remember, and the
  second step is a function of its own so that what may happen in between can be stated.
\<close>

subsection \<open>Sealing a specification\<close>

definition validateCapabilitySpecFields :: "capability_spec \<Rightarrow> validation_error option" where
  "validateCapabilitySpecFields s =
     first_err [
       CapabilityRef_Validate (cs_Capability s) ''capability'',
       validateText ''description'' (cs_Description s) 500 True,
       require (cs_Kind s = CapabilityAtomic \<or> cs_Kind s = CapabilityMacro) (invalid ''kind'' ''is not supported''),
       require (\<not> (cs_Kind s = CapabilityAtomic \<and> cs_ProducesChildOperations s))
         (invalid ''produces_child_operations'' ''atomic capabilities cannot produce child operations''),
       require (validExecutionMode (cs_Execution s)) (invalid ''execution'' ''is not supported''),
       require (validCancellationMode (cs_Cancellation s)) (invalid ''cancellation'' ''is not supported''),
       require (\<not> (cs_Execution s = ExecutionImmediate \<and> cs_Cancellation s \<noteq> CancellationUnsupported))
         (invalid ''cancellation'' ''immediate capabilities cannot be cancelled''),
       require (validRiskLevel (cs_RiskFloor s)) (invalid ''risk_floor'' ''is not supported''),
       require (validDurabilityProfile (cs_RequiredDurability s)) (invalid ''required_durability'' ''is not supported''),
       Duration_Validate (cs_ExecutionBudget s) ''execution_budget'',
       require (cs_MaxInputBytes s \<noteq> 0 \<and> unat (cs_MaxInputBytes s) \<le> maxInstanceBytes)
         (invalid ''max_input_bytes'' ''must be between 1 and 1048576''),
       require (cs_MaxOutputBytes s \<noteq> 0 \<and> unat (cs_MaxOutputBytes s) \<le> maxInstanceBytes)
         (invalid ''max_output_bytes'' ''must be between 1 and 1048576''),
       require (cs_MaxEffects s \<noteq> 0 \<and> unat (cs_MaxEffects s) \<le> 64)
         (invalid ''max_effects'' ''must be between 1 and 64''),
       require (length (cs_RequiredScopes s) \<le> 32) (invalid ''required_scopes'' ''must contain at most 32 values''),
       loop_err (\<lambda>i _ scope. validateHostID (indexed ''required_scopes'' i) scope True) [] (cs_RequiredScopes s)]"

text \<open>The digest covers every field but the digest itself; of the schemas, their digests.\<close>

definition digest_only :: "schema \<Rightarrow> schema" where
  "digest_only s = \<lparr>sc_Dialect = '''', sc_Document = '''', sc_SHA256 = sc_SHA256 s\<rparr>"

definition capabilitySpecDigest :: "go_env \<Rightarrow> capability_spec \<Rightarrow> validation_error + string" where
  "capabilitySpecDigest env s =
     (case marshal_capability_spec env
         (s\<lparr>cs_Input := digest_only (cs_Input s), cs_Output := digest_only (cs_Output s),
            cs_EffectSchema := digest_only (cs_EffectSchema s), cs_Digest := ''''\<rparr>) of
        Inl msg \<Rightarrow> Inl (ValidationError '''' (''encode capability spec digest: '' @ msg))
      | Inr encoded \<Rightarrow> Inr (sha256Hex env encoded))"

record registered_spec =
  rs_spec :: capability_spec
  rs_input :: string
  rs_output :: string
  rs_effectSchema :: string

definition with_prefix :: "string \<Rightarrow> validation_error + 'a \<Rightarrow> validation_error + 'a" where
  "with_prefix p r = (case r of Inl e \<Rightarrow> Inl (prefixValidation p e) | Inr a \<Rightarrow> Inr a)"

definition prepareCapabilitySpec :: "go_env \<Rightarrow> capability_spec \<Rightarrow> validation_error + registered_spec" where
  "prepareCapabilitySpec env s =
     (let normalized = s\<lparr>cs_RequiredScopes := sort (cs_RequiredScopes s)\<rparr> in
      guard_err (require (length (remdups_adj (cs_RequiredScopes normalized)) = length (cs_RequiredScopes s))
                   (invalid ''required_scopes'' ''must not contain duplicates''))
      (ebind (with_prefix ''input'' (Schema_compiled env (cs_Input normalized))) (\<lambda>input.
       ebind (with_prefix ''output'' (Schema_compiled env (cs_Output normalized))) (\<lambda>output.
       ebind (with_prefix ''effect_schema'' (Schema_compiled env (cs_EffectSchema normalized))) (\<lambda>effects.
       guard_err (validateCapabilitySpecFields normalized)
       (ebind (capabilitySpecDigest env normalized) (\<lambda>digest.
        guard_err (require (cs_Digest s = [] \<or> cs_Digest s = digest) (invalid ''digest'' ''does not match capability spec''))
          (Inr \<lparr>rs_spec = normalized\<lparr>cs_Digest := digest\<rparr>, rs_input = input, rs_output = output,
                rs_effectSchema = effects\<rparr>))))))))"

definition SealCapabilitySpec :: "go_env \<Rightarrow> capability_spec \<Rightarrow> validation_error + capability_spec" where
  "SealCapabilitySpec env s = ebind (prepareCapabilitySpec env s) (\<lambda>r. Inr (rs_spec r))"

definition CapabilitySpec_Validate :: "go_env \<Rightarrow> capability_spec \<Rightarrow> validation_error option" where
  "CapabilitySpec_Validate env s =
     (case SealCapabilitySpec env s of
        Inl e \<Rightarrow> Some e
      | Inr sealed \<Rightarrow>
          first_err [
            require (cs_Digest s = cs_Digest sealed) (invalid ''digest'' ''is required and must match capability spec''),
            require (cs_RequiredScopes s = cs_RequiredScopes sealed) (invalid ''required_scopes'' ''must be sorted'')])"

subsection \<open>Normalising an effect preview\<close>

definition normalize_effect ::
  "go_env \<Rightarrow> epoch \<Rightarrow> risk_level \<Rightarrow> string \<Rightarrow> nat \<Rightarrow> effect \<Rightarrow> validation_error + effect" where
  "normalize_effect env ep riskFloor attributes index e =
     (let field = indexed ''effect_preview'' index; tags = sort (ef_Tags e) in
      guard_err (require (length (remdups_adj tags) = length (ef_Tags e)) (invalid (field @ ''.tags'') ''must not contain duplicates''))
      (ebind (with_prefix field (canonicalizeScalarObject env ''attributes'' (ef_Attributes e))) (\<lambda>canonical.
       let n = e\<lparr>ef_Tags := tags, ef_Attributes := canonical\<rparr> in
       guard_err (first_err [
           map_option (prefixValidation field) (ValidateEffect env n ep),
           require (\<not> riskRank (ef_Risk n) < riskRank riskFloor)
             (invalid (field @ ''.risk'') ''must not be below capability risk_floor''),
           check_instance env (field @ ''.attributes'') (ef_Attributes n) attributes])
         (Inr n))))"

fun normalize_all :: "(nat \<Rightarrow> 'a \<Rightarrow> 'e + 'a) \<Rightarrow> nat \<Rightarrow> 'a list \<Rightarrow> 'e + 'a list" where
  "normalize_all f i [] = Inr []"
| "normalize_all f i (x # xs) = ebind (f i x) (\<lambda>y. ebind (normalize_all f (Suc i) xs) (\<lambda>ys. Inr (y # ys)))"

definition normalizeEffects ::
  "go_env \<Rightarrow> effect list \<Rightarrow> epoch \<Rightarrow> u32 \<Rightarrow> risk_level \<Rightarrow> string \<Rightarrow> validation_error + effect list" where
  "normalizeEffects env effects ep maximum riskFloor attributes =
     guard_err (require (effects \<noteq> [] \<and> length effects \<le> unat maximum)
                  (invalid ''effect_preview'' (''must contain between 1 and '' @ format_nat (unat maximum) @ '' values'')))
     (ebind (normalize_all (normalize_effect env ep riskFloor attributes) 0 effects) (\<lambda>normalized.
      let sorted_effects = sort_key ef_EffectID normalized in
      guard_err (require (distinct_adj (map ef_EffectID sorted_effects))
                   (invalid ''effect_preview'' ''must not contain duplicate effect_id values''))
        (Inr sorted_effects)))"

subsection \<open>The registry\<close>

record registered_binding =
  rb_fingerprint :: string
  rb_capability :: capability_ref
  rb_epoch :: epoch
  rb_validUntil :: timepoint

definition maxActiveBindings :: nat where "maxActiveBindings = 4096"

record registry =
  rg_manifest :: host_manifest
  rg_revision :: u64
  rg_specs :: "(capability_ref, registered_spec) gomap"
  rg_bindings :: "(string, registered_binding) gomap"

record capability_snapshot =
  sn_Revision :: u64
  sn_Specs :: "capability_spec list"

definition NewRegistry :: "host_manifest \<Rightarrow> validation_error + registry" where
  "NewRegistry manifest =
     guard_err (ValidateHostManifest manifest)
       (Inr \<lparr>rg_manifest = manifest, rg_revision = 0, rg_specs = [], rg_bindings = []\<rparr>)"

fun durabilityRank :: "durability_profile \<Rightarrow> int" where
  "durabilityRank DurabilityAdvisory = 0"
| "durabilityRank DurabilityIdempotent = 1"
| "durabilityRank DurabilityTransactional = 2"
| "durabilityRank (DurabilityOther _) = - 1"

definition RegisterSpec :: "go_env \<Rightarrow> registry \<Rightarrow> capability_spec \<Rightarrow> (validation_error + capability_spec) \<times> registry" where
  "RegisterSpec env reg s =
     (case prepareCapabilitySpec env s of
        Inl e \<Rightarrow> (Inl e, reg)
      | Inr prepared \<Rightarrow>
          let sealed = rs_spec prepared in
          if durabilityRank (cs_RequiredDurability sealed) > durabilityRank (du_Profile (hm_Durability (rg_manifest reg)))
          then (Inl (invalid ''required_durability'' (''exceeds host durability ''
                  @ durability_profile_string (du_Profile (hm_Durability (rg_manifest reg))))), reg)
          else case map_of (rg_specs reg) (cs_Capability sealed) of
            Some current \<Rightarrow>
              if cs_Digest (rs_spec current) = cs_Digest sealed then (Inr (rs_spec current), reg)
              else (Inl (invalid ''capability'' ''exact version is already registered with a different capability spec''), reg)
          | None \<Rightarrow>
              (Inr sealed, reg\<lparr>rg_specs := AList.update (cs_Capability sealed) prepared (rg_specs reg),
                               rg_revision := rg_revision reg + 1\<rparr>))"

definition UnregisterSpec :: "registry \<Rightarrow> capability_ref \<Rightarrow> bool \<times> registry" where
  "UnregisterSpec reg ref =
     (case CapabilityRef_Validate ref ''capability'' of
        Some e \<Rightarrow> (False, reg)
      | None \<Rightarrow>
          (case map_of (rg_specs reg) ref of
             None \<Rightarrow> (False, reg)
           | Some _ \<Rightarrow>
               (True, reg\<lparr>rg_specs := AList.delete ref (rg_specs reg),
                          rg_bindings := filter (\<lambda>(i, b). rb_capability b \<noteq> ref) (rg_bindings reg),
                          rg_revision := rg_revision reg + 1\<rparr>)))"

definition ResolveSpec :: "registry \<Rightarrow> capability_ref \<Rightarrow> capability_spec option" where
  "ResolveSpec reg ref = map_option rs_spec (map_of (rg_specs reg) ref)"

definition SnapshotSpecs :: "registry \<Rightarrow> capability_snapshot" where
  "SnapshotSpecs reg = \<lparr>sn_Revision = rg_revision reg,
     sn_Specs = sort_key cs_Capability (map (\<lambda>(ref, r). rs_spec r) (rg_specs reg))\<rparr>"

definition MaxObservationGap :: u64 where "MaxObservationGap = 8"

definition withinObservationGap :: "u64 \<Rightarrow> u64 \<Rightarrow> bool" where
  "withinObservationGap current request \<longleftrightarrow> current \<ge> request \<and> current - request \<le> MaxObservationGap"

definition lookupSpecForExecution :: "registry \<Rightarrow> capability_ref \<Rightarrow> string \<Rightarrow> validation_error + registered_spec" where
  "lookupSpecForExecution reg ref digest =
     (case map_of (rg_specs reg) ref of
        None \<Rightarrow> Inl (invalid ''capability'' (cr_ID ref @ ''@'' @ cr_Version ref @ '' is not registered''))
      | Some registered \<Rightarrow>
          if cs_Digest (rs_spec registered) \<noteq> digest
          then Inl (invalid ''spec_digest'' ''does not match the active capability spec'')
          else Inr registered)"

definition validateRequest ::
  "go_env \<Rightarrow> registry \<Rightarrow> action_request \<Rightarrow> epoch \<Rightarrow> u64 \<Rightarrow> validation_error + registered_spec \<times> string" where
  "validateRequest env reg r currentEpoch currentSeq =
     guard_err (first_err [
         ValidateActionRequest env r,
         Epoch_Validate currentEpoch ''current_epoch'',
         require (positive_json_safe currentSeq)
           (invalid ''current_observation_sequence'' ''must be a positive JSON-safe integer''),
         require (rq_ExpectedEpoch r = currentEpoch)
           (invalid ''expected_epoch'' ''request belongs to a stale host epoch''),
         require (\<not> (rq_ObservationSeq r > currentSeq \<or> currentSeq - rq_ObservationSeq r > MaxObservationGap))
           (invalid ''observation_sequence'' ''request does not match the current host observation'')])
     (ebind (lookupSpecForExecution reg (rq_Capability r) (rq_SpecDigest r)) (\<lambda>registered.
      guard_err (require (length (rq_Arguments r) \<le> unat (cs_MaxInputBytes (rs_spec registered)))
                   (invalid ''arguments'' ''exceeds capability input limit''))
      (ebind (canonicalizeJSONObject env ''arguments'' (rq_Arguments r) (unat (cs_MaxInputBytes (rs_spec registered)))) (\<lambda>canonical.
       guard_err (check_instance env ''arguments'' canonical (rs_input registered))
         (Inr (registered, canonical))))))"

definition ValidateRequest :: "go_env \<Rightarrow> registry \<Rightarrow> action_request \<Rightarrow> epoch \<Rightarrow> u64 \<Rightarrow> validation_error option" where
  "ValidateRequest env reg r currentEpoch currentSeq = err_of (validateRequest env reg r currentEpoch currentSeq)"

subsection \<open>Bindings\<close>

definition bound_action_of ::
  "action_request \<Rightarrow> binding_draft \<Rightarrow> timepoint \<Rightarrow> string \<Rightarrow> effect list \<Rightarrow> string \<Rightarrow> string \<Rightarrow> bound_action" where
  "bound_action_of r draft now canonical effects requestDigest effectDigest = \<lparr>
     ba_BindingID = bd_BindingID draft,
     ba_RequestID = rq_RequestID r,
     ba_RequestDigest = requestDigest,
     ba_ControllerID = rq_ControllerID r,
     ba_ActorID = rq_ActorID r,
     ba_Capability = rq_Capability r,
     ba_SpecDigest = rq_SpecDigest r,
     ba_NormalizedArguments = canonical,
     ba_RequestedTargets = rq_Targets r,
     ba_ResolvedTargets = bd_ResolvedTargets draft,
     ba_ExpectedEpoch = rq_ExpectedEpoch r,
     ba_ObservationSeq = rq_ObservationSeq r,
     ba_TaskID = rq_TaskID r,
     ba_PlanStep = rq_PlanStep r,
     ba_IdempotencyKey = rq_IdempotencyKey r,
     ba_Effects = effects,
     ba_EffectDigest = effectDigest,
     ba_BoundAt = now,
     ba_ValidUntil = bd_ValidUntil draft\<rparr>"

text \<open>\<open>SealBinding\<close> up to the call of \<open>rememberBoundAction\<close>.\<close>

definition seal_action ::
  "go_env \<Rightarrow> registry \<Rightarrow> action_request \<Rightarrow> binding_draft \<Rightarrow> timepoint \<Rightarrow> epoch \<Rightarrow> u64 \<Rightarrow> validation_error + bound_action" where
  "seal_action env reg r draft now currentEpoch currentSeq =
     ebind (validateRequest env reg r currentEpoch currentSeq) (\<lambda>(registered, canonical).
     let spec = rs_spec registered; budget = uint (dr_Value (cs_ExecutionBudget spec)) in
     guard_err (first_err [
         validateHostID ''binding_id'' (bd_BindingID draft) False,
         Timepoint_Validate now ''now'',
         Timepoint_Validate (bd_ValidUntil draft) ''valid_until'',
         require (\<not> (rq_Targets r \<noteq> [] \<and> bd_ResolvedTargets draft = []))
           (invalid ''resolved_targets'' ''must resolve every targeted request to at least one HostRef''),
         require (tp_Clock now = tp_Clock (bd_ValidUntil draft) \<and> dr_Clock (cs_ExecutionBudget spec) = tp_Clock now)
           (invalid ''valid_until.clock'' ''must match the current host clock and capability execution budget''),
         require (\<not> tp_Value now > int maxInteroperableInteger - budget)
           (invalid ''now.value'' ''cannot add execution budget safely''),
         require (tp_Value now < tp_Value (bd_ValidUntil draft) \<and> tp_Value (bd_ValidUntil draft) \<le> tp_Value now + budget)
           (invalid ''valid_until'' ''must be after now and within the capability execution budget'')])
     (ebind (normalizeEffects env (bd_Effects draft) (rq_ExpectedEpoch r) (cs_MaxEffects spec) (cs_RiskFloor spec)
               (rs_effectSchema registered)) (\<lambda>effects.
      ebind (ActionRequestDigest env (r\<lparr>rq_Arguments := canonical\<rparr>)) (\<lambda>requestDigest.
      ebind (EffectPreviewDigest env effects) (\<lambda>effectDigest.
        let action = bound_action_of r draft now canonical effects requestDigest effectDigest in
        guard_err (ValidateBoundAction env action) (Inr action))))))"

definition boundActionFingerprint :: "go_env \<Rightarrow> bound_action \<Rightarrow> validation_error + string" where
  "boundActionFingerprint env a =
     (case marshal_bound_action env a of
        Inl msg \<Rightarrow> Inl (ValidationError '''' (''encode bound action fingerprint: '' @ msg))
      | Inr encoded \<Rightarrow> Inr (sha256Hex env encoded))"

definition binding_obsolete :: "bound_action \<Rightarrow> timepoint \<Rightarrow> registered_binding \<Rightarrow> bool" where
  "binding_obsolete a now b \<longleftrightarrow>
     (ep_SessionID (rb_epoch b) = ep_SessionID (ba_ExpectedEpoch a) \<and> ep_WorldID (rb_epoch b) = ep_WorldID (ba_ExpectedEpoch a)
      \<and> rb_epoch b \<noteq> ba_ExpectedEpoch a)
     \<or> (tp_Clock (rb_validUntil b) = tp_Clock now \<and> tp_Value (rb_validUntil b) \<le> tp_Value now)"

definition rememberBoundAction :: "go_env \<Rightarrow> registry \<Rightarrow> bound_action \<Rightarrow> timepoint \<Rightarrow> validation_error option \<times> registry" where
  "rememberBoundAction env reg a now =
     (case boundActionFingerprint env a of
        Inl e \<Rightarrow> (Some e, reg)
      | Inr fingerprint \<Rightarrow>
          if (case map_of (rg_specs reg) (ba_Capability a) of
                None \<Rightarrow> True | Some active \<Rightarrow> cs_Digest (rs_spec active) \<noteq> ba_SpecDigest a)
          then (Some (invalid ''capability'' ''was revoked or changed while the Host binding was created''), reg)
          else
            let reg1 = reg\<lparr>rg_bindings := filter (\<lambda>(i, b). \<not> binding_obsolete a now b) (rg_bindings reg)\<rparr> in
            case map_of (rg_bindings reg1) (ba_BindingID a) of
              Some current \<Rightarrow>
                if rb_fingerprint current = fingerprint then (None, reg1)
                else (Some (invalid ''binding_id'' ''is already bound to different action data''), reg1)
            | None \<Rightarrow>
                if length (rg_bindings reg1) \<ge> maxActiveBindings
                then (Some (invalid ''binding_id'' ''active Host binding limit reached''), reg1)
                else (None, reg1\<lparr>rg_bindings := AList.update (ba_BindingID a)
                       \<lparr>rb_fingerprint = fingerprint, rb_capability = ba_Capability a, rb_epoch = ba_ExpectedEpoch a,
                        rb_validUntil = ba_ValidUntil a\<rparr> (rg_bindings reg1)\<rparr>))"

definition SealBinding ::
  "go_env \<Rightarrow> registry \<Rightarrow> action_request \<Rightarrow> binding_draft \<Rightarrow> timepoint \<Rightarrow> epoch \<Rightarrow> u64
     \<Rightarrow> (validation_error + bound_action) \<times> registry" where
  "SealBinding env reg r draft now currentEpoch currentSeq =
     (case seal_action env reg r draft now currentEpoch currentSeq of
        Inl e \<Rightarrow> (Inl e, reg)
      | Inr action \<Rightarrow>
          (case rememberBoundAction env reg action now of
             (Some e, reg') \<Rightarrow> (Inl e, reg')
           | (None, reg') \<Rightarrow> (Inr action, reg')))"

definition verifyBoundAction :: "go_env \<Rightarrow> registry \<Rightarrow> bound_action \<Rightarrow> validation_error option" where
  "verifyBoundAction env reg a =
     (case boundActionFingerprint env a of
        Inl e \<Rightarrow> Some e
      | Inr fingerprint \<Rightarrow>
          (case map_of (rg_bindings reg) (ba_BindingID a) of
             None \<Rightarrow> Some (invalid ''binding_id'' ''was not issued by this Host registry'')
           | Some b \<Rightarrow>
               require (rb_fingerprint b = fingerprint) (invalid ''binding_id'' ''Host binding data was modified'')))"

definition authorizeSpecPrincipal :: "capability_spec \<Rightarrow> principal \<Rightarrow> validation_error option" where
  "authorizeSpecPrincipal s p =
     first_err [
       ValidatePrincipal p,
       loop_err (\<lambda>i _ required. require (required \<in> set (pr_GrantedScopes p))
           (invalid ''principal.granted_scopes'' (''principal '' @ CHR 0x22 # pr_ID p @ CHR 0x22 # '' is missing required scope ''
              @ CHR 0x22 # required @ [CHR 0x22]))) [] (cs_RequiredScopes s)]"

definition equalEffects :: "go_env \<Rightarrow> effect list \<Rightarrow> effect list \<Rightarrow> bool" where
  "equalEffects env l r =
     (case (marshal_effects env l, marshal_effects env r) of (Inr a, Inr b) \<Rightarrow> a = b | _ \<Rightarrow> False)"

definition AuthorizeBoundAction ::
  "go_env \<Rightarrow> registry \<Rightarrow> bound_action \<Rightarrow> timepoint \<Rightarrow> epoch \<Rightarrow> u64 \<Rightarrow> principal \<Rightarrow> validation_error option" where
  "AuthorizeBoundAction env reg a now currentEpoch currentSeq p =
     first_err [
       ValidateBoundAction env a,
       Timepoint_Validate now ''now'',
       require (tp_Clock now = tp_Clock (ba_ValidUntil a))
         (invalid ''valid_until.clock'' ''must match the current host clock''),
       require (\<not> tp_Value now \<ge> tp_Value (ba_ValidUntil a)) (invalid ''valid_until'' ''bound action has expired''),
       require (ba_ExpectedEpoch a = currentEpoch)
         (invalid ''expected_epoch'' ''bound action belongs to a stale host epoch''),
       require (withinObservationGap currentSeq (ba_ObservationSeq a))
         (invalid ''observation_sequence'' ''bound action does not match the current host observation''),
       verifyBoundAction env reg a,
       (case lookupSpecForExecution reg (ba_Capability a) (ba_SpecDigest a) of
          Inl e \<Rightarrow> Some e
        | Inr registered \<Rightarrow>
            first_err [
              require (length (ba_NormalizedArguments a) \<le> unat (cs_MaxInputBytes (rs_spec registered)))
                (invalid ''normalized_arguments'' ''exceeds capability input limit''),
              check_instance env ''normalized_arguments'' (ba_NormalizedArguments a) (rs_input registered),
              (case normalizeEffects env (ba_Effects a) (ba_ExpectedEpoch a) (cs_MaxEffects (rs_spec registered))
                      (cs_RiskFloor (rs_spec registered)) (rs_effectSchema registered) of
                 Inl e \<Rightarrow> Some e
               | Inr normalized \<Rightarrow>
                   require (equalEffects env (ba_Effects a) normalized)
                     (invalid ''effect_preview'' ''must be normalized by the Host binding path'')),
              authorizeSpecPrincipal (rs_spec registered) p])]"

definition ValidateSpecOutput :: "go_env \<Rightarrow> registry \<Rightarrow> capability_ref \<Rightarrow> string \<Rightarrow> string \<Rightarrow> validation_error option" where
  "ValidateSpecOutput env reg ref digest document =
     (case lookupSpecForExecution reg ref digest of
        Inl e \<Rightarrow> Some e
      | Inr registered \<Rightarrow>
          first_err [
            require (length document \<le> unat (cs_MaxOutputBytes (rs_spec registered)))
              (invalid ''output'' ''exceeds capability output limit''),
            check_instance env ''output'' document (rs_output registered)])"

subsection \<open>Sealed specifications\<close>

lemma with_prefix_Inr [simp]: "with_prefix p r = Inr a \<longleftrightarrow> r = Inr a"
  by (auto simp: with_prefix_def split: sum.splits)

lemma prepareCapabilitySpec_Inr:
  "prepareCapabilitySpec env s = Inr r \<longleftrightarrow>
     (let n = s\<lparr>cs_RequiredScopes := sort (cs_RequiredScopes s)\<rparr> in
      length (remdups_adj (cs_RequiredScopes n)) = length (cs_RequiredScopes s)
      \<and> Schema_compiled env (cs_Input s) = Inr (rs_input r) \<and> Schema_compiled env (cs_Output s) = Inr (rs_output r)
      \<and> Schema_compiled env (cs_EffectSchema s) = Inr (rs_effectSchema r)
      \<and> validateCapabilitySpecFields n = None
      \<and> (\<exists>d. capabilitySpecDigest env n = Inr d \<and> (cs_Digest s = [] \<or> cs_Digest s = d) \<and> rs_spec r = n\<lparr>cs_Digest := d\<rparr>))"
  by (cases r) (auto simp: prepareCapabilitySpec_def Let_def ebind_Inr_iff simp del: first_err.simps)

lemma capabilitySpecDigest_digest: "capabilitySpecDigest env (s\<lparr>cs_Digest := d\<rparr>) = capabilitySpecDigest env s"
  by (simp add: capabilitySpecDigest_def)

lemma validateCapabilitySpecFields_digest: "validateCapabilitySpecFields (s\<lparr>cs_Digest := d\<rparr>) = validateCapabilitySpecFields s"
  by (simp add: validateCapabilitySpecFields_def)

text \<open>Preparing a prepared specification gives it again.\<close>

lemma prepareCapabilitySpec_idem:
  assumes "prepareCapabilitySpec env s = Inr r"
  shows "prepareCapabilitySpec env (rs_spec r) = Inr r"
proof -
  define n where "n = s\<lparr>cs_RequiredScopes := sort (cs_RequiredScopes s)\<rparr>"
  obtain d where d: "capabilitySpecDigest env n = Inr d" "rs_spec r = n\<lparr>cs_Digest := d\<rparr>"
    using assms by (auto simp: prepareCapabilitySpec_Inr Let_def n_def)
  have "(n\<lparr>cs_Digest := d\<rparr>)\<lparr>cs_RequiredScopes := sort (cs_RequiredScopes (n\<lparr>cs_Digest := d\<rparr>))\<rparr> = n\<lparr>cs_Digest := d\<rparr>"
    by (cases s) (simp add: n_def sorted_sort_id)
  then show ?thesis using assms d
    by (simp add: prepareCapabilitySpec_Inr Let_def n_def [symmetric] capabilitySpecDigest_digest validateCapabilitySpecFields_digest)
      (simp add: n_def)
qed

lemma prepareCapabilitySpec_capability: "prepareCapabilitySpec env s = Inr r \<Longrightarrow> cs_Capability (rs_spec r) = cs_Capability s"
  by (auto simp: prepareCapabilitySpec_Inr Let_def)

text \<open>
  a capability specification validates exactly when sealing returns it unchanged. So a specification that was
  sealed validates, sealing twice is sealing once, and nothing else validates.
\<close>

theorem CapabilitySpec_Validate_iff: "CapabilitySpec_Validate env s = None \<longleftrightarrow> SealCapabilitySpec env s = Inr s"
proof (cases "SealCapabilitySpec env s")
  case (Inl e)
  then show ?thesis by (simp add: CapabilitySpec_Validate_def)
next
  case (Inr sealed)
  then have "sealed = s\<lparr>cs_RequiredScopes := cs_RequiredScopes sealed, cs_Digest := cs_Digest sealed\<rparr>"
    by (auto simp: SealCapabilitySpec_def ebind_Inr_iff prepareCapabilitySpec_Inr Let_def)
  then have "cs_Digest s = cs_Digest sealed \<and> cs_RequiredScopes s = cs_RequiredScopes sealed \<longleftrightarrow> sealed = s"
    by (metis capability_spec.surjective capability_spec.update_convs(11,17))
  with Inr show ?thesis by (simp add: CapabilitySpec_Validate_def)
qed

lemma SealCapabilitySpec_sealed:
  "SealCapabilitySpec env s = Inr t \<Longrightarrow> SealCapabilitySpec env t = Inr t"
  by (auto simp: SealCapabilitySpec_def ebind_Inr_iff dest: prepareCapabilitySpec_idem)

subsection \<open>Normalising twice\<close>

lemma case_prefix_None [simp]:
  "(case c of None \<Rightarrow> r | Some e \<Rightarrow> (Some \<circ> f) e) = None \<longleftrightarrow> c = None \<and> r = None"
  by (cases c) simp_all

lemma check_instance_field: "check_instance env f d s = None \<longleftrightarrow> check_instance env g d s = None"
  by (auto simp: check_instance_def split: sum.splits)

lemma normalize_effect_Inr:
  "normalize_effect env ep rf att i e = Inr n \<longleftrightarrow>
     length (remdups_adj (sort (ef_Tags e))) = length (ef_Tags e)
     \<and> canonicalizeScalarObject env ''attributes'' (ef_Attributes e) = Inr (ef_Attributes n)
     \<and> n = e\<lparr>ef_Tags := sort (ef_Tags e), ef_Attributes := ef_Attributes n\<rparr>
     \<and> ValidateEffect env n ep = None \<and> riskRank rf \<le> riskRank (ef_Risk n)
     \<and> check_instance env [] (ef_Attributes n) att = None"
  using check_instance_field [of env "indexed ''effect_preview'' i @ ''.attributes''" _ att "[]"]
  by (cases n, cases e) (auto simp: normalize_effect_def Let_def ebind_Inr_iff not_less case_prefix_None)



lemma normalizeEffects_Inr:
  "normalizeEffects env es ep m rf att = Inr ns \<longleftrightarrow>
     es \<noteq> [] \<and> length es \<le> unat m
     \<and> (\<exists>ys. normalize_all (normalize_effect env ep rf att) 0 es = Inr ys \<and> ns = sort_key ef_EffectID ys)
     \<and> distinct_adj (map ef_EffectID ns)"
  by (auto simp: normalizeEffects_def ebind_Inr_iff Let_def)

lemma normalize_all_length: "normalize_all f i xs = Inr ys \<Longrightarrow> length ys = length xs"
  by (induction f i xs arbitrary: ys rule: normalize_all.induct) (auto simp: ebind_Inr_iff)



subsection \<open>What a successful sealing establishes\<close>

lemma lookupSpec_Inr:
  "lookupSpecForExecution reg ref d = Inr r \<longleftrightarrow> map_of (rg_specs reg) ref = Some r \<and> cs_Digest (rs_spec r) = d"
  by (auto simp: lookupSpecForExecution_def split: option.splits)



lemma seal_action_facts:
  assumes "seal_action env reg r draft now ep seq = Inr a"
  obtains s effects canonical where
    "validateRequest env reg r ep seq = Inr (s, canonical)"
    "tp_Clock now = tp_Clock (bd_ValidUntil draft)" "dr_Clock (cs_ExecutionBudget (rs_spec s)) = tp_Clock now"
    "tp_Value now < tp_Value (bd_ValidUntil draft)"
    "tp_Value (bd_ValidUntil draft) \<le> tp_Value now + uint (dr_Value (cs_ExecutionBudget (rs_spec s)))"
    "rq_Targets r \<noteq> [] \<Longrightarrow> bd_ResolvedTargets draft \<noteq> []"
    "normalizeEffects env (bd_Effects draft) (rq_ExpectedEpoch r) (cs_MaxEffects (rs_spec s)) (cs_RiskFloor (rs_spec s))
       (rs_effectSchema s) = Inr effects"
    "ValidateBoundAction env a = None"
    "a = bound_action_of r draft now canonical effects (ba_RequestDigest a) (ba_EffectDigest a)"
proof -
  obtain s canonical effects d1 d2 where "validateRequest env reg r ep seq = Inr (s, canonical)"
    and effects: "normalizeEffects env (bd_Effects draft) (rq_ExpectedEpoch r) (cs_MaxEffects (rs_spec s)) (cs_RiskFloor (rs_spec s))
      (rs_effectSchema s) = Inr effects"
    and a: "a = bound_action_of r draft now canonical effects d1 d2" and "ValidateBoundAction env a = None"
    and "tp_Clock now = tp_Clock (bd_ValidUntil draft)" "dr_Clock (cs_ExecutionBudget (rs_spec s)) = tp_Clock now"
      "tp_Value now < tp_Value (bd_ValidUntil draft)" "rq_Targets r \<noteq> [] \<longrightarrow> bd_ResolvedTargets draft \<noteq> []"
      "tp_Value (bd_ValidUntil draft) \<le> tp_Value now + uint (dr_Value (cs_ExecutionBudget (rs_spec s)))"
    using assms by (auto simp: seal_action_def Let_def ebind_Inr_iff split: prod.splits)
  moreover have "a = bound_action_of r draft now canonical effects (ba_RequestDigest a) (ba_EffectDigest a)"
    by (simp add: a bound_action_of_def)
  ultimately show thesis by (intro that) auto
qed

lemma bound_action_of_fields:
  assumes "a = bound_action_of r draft now canonical effects d1 d2"
  shows "ba_BindingID a = bd_BindingID draft" "ba_Capability a = rq_Capability r" "ba_SpecDigest a = rq_SpecDigest r"
    "ba_NormalizedArguments a = canonical" "ba_ExpectedEpoch a = rq_ExpectedEpoch r" "ba_ObservationSeq a = rq_ObservationSeq r"
    "ba_Effects a = effects" "ba_BoundAt a = now" "ba_ValidUntil a = bd_ValidUntil draft"
    "ba_RequestedTargets a = rq_Targets r" "ba_ResolvedTargets a = bd_ResolvedTargets draft"
    "ba_ControllerID a = rq_ControllerID r" "ba_ActorID a = rq_ActorID r" "ba_RequestID a = rq_RequestID r"
  using assms by (simp_all add: bound_action_of_def)

subsection \<open>Authorisation\<close>

lemma verifyBoundAction_None:
  "verifyBoundAction env reg a = None \<longleftrightarrow>
     (\<exists>b. map_of (rg_bindings reg) (ba_BindingID a) = Some b \<and> boundActionFingerprint env a = Inr (rb_fingerprint b))"
  by (auto simp: verifyBoundAction_def split: sum.splits option.splits)

lemma authorizeSpecPrincipal_None:
  "authorizeSpecPrincipal s p = None \<longleftrightarrow> ValidatePrincipal p = None \<and> set (cs_RequiredScopes s) \<subseteq> set (pr_GrantedScopes p)"
  by (auto simp: authorizeSpecPrincipal_def loop_err_None_iff all_set_conv_all_nth subset_iff)
    (metis in_set_conv_nth)


lemma AuthorizeBoundAction_None:
  "AuthorizeBoundAction env reg a now ep seq p = None \<longleftrightarrow>
     ValidateBoundAction env a = None \<and> Timepoint_Validate now ''now'' = None
     \<and> tp_Clock now = tp_Clock (ba_ValidUntil a) \<and> tp_Value now < tp_Value (ba_ValidUntil a)
     \<and> ba_ExpectedEpoch a = ep \<and> withinObservationGap seq (ba_ObservationSeq a)
     \<and> verifyBoundAction env reg a = None
     \<and> (\<exists>s. map_of (rg_specs reg) (ba_Capability a) = Some s \<and> cs_Digest (rs_spec s) = ba_SpecDigest a
         \<and> length (ba_NormalizedArguments a) \<le> unat (cs_MaxInputBytes (rs_spec s))
         \<and> check_instance env ''normalized_arguments'' (ba_NormalizedArguments a) (rs_input s) = None
         \<and> (\<exists>es. normalizeEffects env (ba_Effects a) (ba_ExpectedEpoch a) (cs_MaxEffects (rs_spec s))
              (cs_RiskFloor (rs_spec s)) (rs_effectSchema s) = Inr es \<and> equalEffects env (ba_Effects a) es)
         \<and> ValidatePrincipal p = None \<and> set (cs_RequiredScopes (rs_spec s)) \<subseteq> set (pr_GrantedScopes p))"
proof (cases "lookupSpecForExecution reg (ba_Capability a) (ba_SpecDigest a)")
  case (Inl e)
  then have "\<nexists>s. map_of (rg_specs reg) (ba_Capability a) = Some s \<and> cs_Digest (rs_spec s) = ba_SpecDigest a"
    using lookupSpec_Inr by (metis Inl_Inr_False)
  with Inl show ?thesis by (auto simp: AuthorizeBoundAction_def)
next
  case (Inr s)
  show ?thesis
  proof (cases "normalizeEffects env (ba_Effects a) (ba_ExpectedEpoch a) (cs_MaxEffects (rs_spec s)) (cs_RiskFloor (rs_spec s))
      (rs_effectSchema s)")
    case (Inl e)
    with Inr show ?thesis using lookupSpec_Inr [of reg "ba_Capability a" "ba_SpecDigest a" s]
      by (auto simp: AuthorizeBoundAction_def)
  next
    case (Inr es)
    with \<open>lookupSpecForExecution _ _ _ = Inr s\<close> show ?thesis using lookupSpec_Inr [of reg "ba_Capability a" "ba_SpecDigest a" s]
      by (auto simp: AuthorizeBoundAction_def authorizeSpecPrincipal_None not_le)
  qed
qed


subsection \<open>The registry invariant\<close>

declare map_of_eq_Some_iff [simp del]

text \<open>
  Every registered specification is sealed, stored under its own capability and within the durability of the Host; the
  bindings are bounded and each belongs to a registered capability.
\<close>

definition registry_ok :: "go_env \<Rightarrow> registry \<Rightarrow> bool" where
  "registry_ok env reg \<longleftrightarrow>
     ValidateHostManifest (rg_manifest reg) = None
     \<and> map_ok (rg_specs reg) \<and> map_ok (rg_bindings reg) \<and> length (rg_bindings reg) \<le> maxActiveBindings
     \<and> (\<forall>ref r. map_of (rg_specs reg) ref = Some r \<longrightarrow>
          prepareCapabilitySpec env (rs_spec r) = Inr r \<and> cs_Capability (rs_spec r) = ref
          \<and> durabilityRank (cs_RequiredDurability (rs_spec r)) \<le> durabilityRank (du_Profile (hm_Durability (rg_manifest reg))))
     \<and> (\<forall>i b. map_of (rg_bindings reg) i = Some b \<longrightarrow> rb_capability b \<in> dom (map_of (rg_specs reg)))"

lemma registry_okD:
  assumes "registry_ok env reg"
  shows "map_ok (rg_specs reg)" "map_ok (rg_bindings reg)" "length (rg_bindings reg) \<le> maxActiveBindings"
    "map_of (rg_specs reg) ref = Some r \<Longrightarrow> prepareCapabilitySpec env (rs_spec r) = Inr r"
    "map_of (rg_specs reg) ref = Some r \<Longrightarrow> cs_Capability (rs_spec r) = ref"
    "map_of (rg_bindings reg) i = Some b \<Longrightarrow> rb_capability b \<in> dom (map_of (rg_specs reg))"
  using assms by (auto simp: registry_ok_def)

lemma registry_ok_New: "NewRegistry m = Inr reg \<Longrightarrow> registry_ok env reg"
  by (auto simp: NewRegistry_def registry_ok_def)

lemma registry_ok_RegisterSpec:
  assumes "registry_ok env reg"
  shows "registry_ok env (snd (RegisterSpec env reg s))"
proof (cases "prepareCapabilitySpec env s")
  case (Inl e)
  with assms show ?thesis by (simp add: RegisterSpec_def)
next
  case (Inr r)
  note idem = prepareCapabilitySpec_idem [OF Inr]
  show ?thesis using assms Inr idem
    by (auto simp: RegisterSpec_def Let_def registry_ok_def gm.get_put gm.invar_put not_less split: option.splits)
qed

lemma unregister_bindings:
  assumes "map_ok (rg_bindings reg)"
  shows "map_of (filter (\<lambda>(i, b). rb_capability b \<noteq> ref) (rg_bindings reg)) i = Some b \<longleftrightarrow>
     map_of (rg_bindings reg) i = Some b \<and> rb_capability b \<noteq> ref"
  using assms by (simp add: map_of_filter_Some)

lemma registry_ok_UnregisterSpec:
  assumes "registry_ok env reg"
  shows "registry_ok env (snd (UnregisterSpec reg ref))"
  using assms length_filter_le [of "\<lambda>(i, b). rb_capability b \<noteq> ref" "rg_bindings reg"]
  by (auto simp: UnregisterSpec_def registry_ok_def gm.get_del gm.invar_del map_ok_filter unregister_bindings
      simp del: length_filter_le split: option.splits intro: order_trans)

text \<open>The bindings that are left once the obsolete ones are removed.\<close>

abbreviation live_bindings :: "registry \<Rightarrow> bound_action \<Rightarrow> timepoint \<Rightarrow> (string, registered_binding) gomap" where
  "live_bindings reg a now \<equiv> filter (\<lambda>(i, b). \<not> binding_obsolete a now b) (rg_bindings reg)"

lemma live_bindings_Some:
  "map_ok (rg_bindings reg) \<Longrightarrow> map_of (live_bindings reg a now) i = Some b \<longleftrightarrow>
     map_of (rg_bindings reg) i = Some b \<and> \<not> binding_obsolete a now b"
  by (simp add: map_of_filter_Some)

abbreviation binding_record :: "string \<Rightarrow> bound_action \<Rightarrow> registered_binding" where
  "binding_record fp a \<equiv> \<lparr>rb_fingerprint = fp, rb_capability = ba_Capability a, rb_epoch = ba_ExpectedEpoch a,
     rb_validUntil = ba_ValidUntil a\<rparr>"

text \<open>The outcomes of remembering an action.\<close>

lemma rememberBoundAction_cases:
  assumes "rememberBoundAction env reg a now = (result, reg')"
  obtains (refused) e where "result = Some e" "reg' = reg"
  | (conflict) e where "result = Some e" "reg' = reg\<lparr>rg_bindings := live_bindings reg a now\<rparr>"
  | (again) s b where "result = None" "reg' = reg\<lparr>rg_bindings := live_bindings reg a now\<rparr>"
      "map_of (rg_specs reg) (ba_Capability a) = Some s" "cs_Digest (rs_spec s) = ba_SpecDigest a"
      "map_of (live_bindings reg a now) (ba_BindingID a) = Some b" "boundActionFingerprint env a = Inr (rb_fingerprint b)"
  | (added) s fp where "result = None" "boundActionFingerprint env a = Inr fp"
      "reg' = reg\<lparr>rg_bindings := AList.update (ba_BindingID a) (binding_record fp a) (live_bindings reg a now)\<rparr>"
      "map_of (rg_specs reg) (ba_Capability a) = Some s" "cs_Digest (rs_spec s) = ba_SpecDigest a"
      "map_of (live_bindings reg a now) (ba_BindingID a) = None" "length (live_bindings reg a now) < maxActiveBindings"
  using assms unfolding rememberBoundAction_def Let_def
  by (auto split: sum.splits option.splits if_splits)

lemma registry_ok_live:
  assumes "registry_ok env reg"
  shows "registry_ok env (reg\<lparr>rg_bindings := live_bindings reg a now\<rparr>)"
proof -
  have "length (live_bindings reg a now) \<le> maxActiveBindings"
    using registry_okD(3) [OF assms] length_filter_le order_trans by blast
  then show ?thesis using assms by (auto simp: registry_ok_def map_ok_filter live_bindings_Some)
qed

lemma registry_ok_remember:
  assumes "registry_ok env reg"
  shows "registry_ok env (snd (rememberBoundAction env reg a now))"
proof -
  obtain result reg' where r: "rememberBoundAction env reg a now = (result, reg')" by fastforce
  have live: "registry_ok env (reg\<lparr>rg_bindings := live_bindings reg a now\<rparr>)" by (rule registry_ok_live [OF assms])
  from r have "registry_ok env reg'"
  proof (cases rule: rememberBoundAction_cases)
    case (added s fp)
    have "length (AList.update (ba_BindingID a) (binding_record fp a) (live_bindings reg a now)) \<le> maxActiveBindings"
      using gm.len_put_capacity [OF _ added(7)] live by (simp add: registry_ok_def)
    then show ?thesis using live added by (auto simp: registry_ok_def gm.get_put gm.invar_put)
  qed (simp_all add: assms live)
  with r show ?thesis by simp
qed

subsection \<open>Runs of a registry\<close>

text \<open>
  A run with the list of the bindings issued so far, newest first. \<open>SealBinding\<close> validates against one state of the
  registry and remembers in a possibly later one: the step takes both, so any operations may have run in between.
\<close>

inductive registry_run :: "go_env \<Rightarrow> registry \<Rightarrow> bound_action list \<Rightarrow> bool" for env where
  run_New: "NewRegistry m = Inr reg \<Longrightarrow> registry_run env reg []"
| run_Register: "registry_run env reg h \<Longrightarrow> RegisterSpec env reg s = (result, reg') \<Longrightarrow> registry_run env reg' h"
| run_Unregister: "registry_run env reg h \<Longrightarrow> UnregisterSpec reg ref = (removed, reg') \<Longrightarrow> registry_run env reg' h"
| run_refused: "registry_run env reg h \<Longrightarrow> seal_action env reg0 r draft now ep seq = Inr a
    \<Longrightarrow> rememberBoundAction env reg a now = (Some e, reg') \<Longrightarrow> registry_run env reg' h"
| run_issued: "registry_run env reg h \<Longrightarrow> seal_action env reg0 r draft now ep seq = Inr a
    \<Longrightarrow> rememberBoundAction env reg a now = (None, reg') \<Longrightarrow> registry_run env reg' (a # h)"

lemma SealBinding_cases:
  assumes "SealBinding env reg r draft now ep seq = (result, reg')"
  obtains (rejected) e where "seal_action env reg r draft now ep seq = Inl e" "result = Inl e" "reg' = reg"
  | (refused) a e where "seal_action env reg r draft now ep seq = Inr a" "rememberBoundAction env reg a now = (Some e, reg')" "result = Inl e"
  | (issued) a where "seal_action env reg r draft now ep seq = Inr a" "rememberBoundAction env reg a now = (None, reg')" "result = Inr a"
  using assms by (auto simp: SealBinding_def split: sum.splits prod.splits option.splits)

lemma registry_run_SealBinding:
  assumes "registry_run env reg h" and "SealBinding env reg r draft now ep seq = (Inr a, reg')"
  shows "registry_run env reg' (a # h)"
  using assms(2) by (cases rule: SealBinding_cases) (auto intro: run_issued [OF assms(1)])

text \<open>Every remembered binding is the record of an issued action.\<close>

definition bindings_issued :: "go_env \<Rightarrow> registry \<Rightarrow> bound_action list \<Rightarrow> bool" where
  "bindings_issued env reg h \<longleftrightarrow>
     (\<forall>i b. map_of (rg_bindings reg) i = Some b \<longrightarrow>
        (\<exists>a \<in> set h. ba_BindingID a = i \<and> (\<exists>fp. boundActionFingerprint env a = Inr fp \<and> b = binding_record fp a)))"

lemma bindings_issued_mono:
  assumes "bindings_issued env reg h" and "\<And>i b. map_of (rg_bindings reg') i = Some b \<Longrightarrow> map_of (rg_bindings reg) i = Some b"
    and "set h \<subseteq> set h'"
  shows "bindings_issued env reg' h'"
  using assms unfolding bindings_issued_def by blast

lemma registry_run_invariant:
  assumes "registry_run env reg h"
  shows "registry_ok env reg \<and> bindings_issued env reg h"
  using assms
proof induction
  case (run_New m reg)
  then show ?case by (auto simp: registry_ok_New) (auto simp: NewRegistry_def bindings_issued_def)
next
  case (run_Register reg h s result reg')
  then have "rg_bindings reg' = rg_bindings reg"
    by (auto simp: RegisterSpec_def Let_def split: sum.splits option.splits if_splits)
  with run_Register show ?case using registry_ok_RegisterSpec [of env reg s] by (simp add: bindings_issued_def)
next
  case (run_Unregister reg h ref removed reg')
  then have "map_of (rg_bindings reg) i = Some b" if "map_of (rg_bindings reg') i = Some b" for i b
    using that registry_okD(2) unregister_bindings by (fastforce simp: UnregisterSpec_def split: option.splits)
  with run_Unregister show ?case
    using registry_ok_UnregisterSpec [of env reg ref] bindings_issued_mono [of env reg h reg' h] by simp
next
  case (run_refused reg h reg0 r draft now ep seq a e reg')
  then have "map_of (rg_bindings reg) i = Some b" if "map_of (rg_bindings reg') i = Some b" for i b
    using that registry_okD(2) live_bindings_Some by (auto elim!: rememberBoundAction_cases)
  with run_refused show ?case
    using registry_ok_remember [of env reg a now] bindings_issued_mono [of env reg h reg' h] by simp
next
  case (run_issued reg h reg0 r draft now ep seq a reg')
  have live: "bindings_issued env (reg\<lparr>rg_bindings := live_bindings reg a now\<rparr>) (a # h)"
    by (rule bindings_issued_mono [of env reg h]) (use run_issued.IH registry_okD(2) live_bindings_Some in auto)
  have "bindings_issued env reg' (a # h)"
    using run_issued.hyps(3)
  proof (cases rule: rememberBoundAction_cases)
    case (added s fp)
    then show ?thesis using live by (auto simp: bindings_issued_def gm.get_put)
  qed (use live in auto)
  with run_issued show ?case using registry_ok_remember [of env reg a now] by simp
qed

text \<open>
  C33: every registry reached by registrations, revocations and sealings, with any interleaving of the two halves of
  \<open>SealBinding\<close>, keeps its invariant: the maps have unique keys, at most 4096 bindings are active, every binding belongs to
  a registered capability, and every registered specification is sealed, stored under its own capability version and
  within the durability profile of the Host.
\<close>

theorem registry_invariant:
  assumes "registry_run env reg h"
  shows "registry_ok env reg"
  using registry_run_invariant [OF assms] by blast

text \<open>What an accepted effect preview respects.\<close>

lemma normalize_all_from: "normalize_all f i xs = Inr ys \<Longrightarrow> y \<in> set ys \<Longrightarrow> \<exists>j x. f j x = Inr y"
  by (induction f i xs arbitrary: ys rule: normalize_all.induct) (force simp: ebind_Inr_iff)+

lemma normalizeEffects_bounds:
  assumes "normalizeEffects env es ep m rf att = Inr ns"
  shows "length ns \<le> unat m" "n \<in> set ns \<Longrightarrow> riskRank rf \<le> riskRank (ef_Risk n)"
  using assms normalize_all_length normalize_all_from by (fastforce simp: normalizeEffects_Inr normalize_effect_Inr)+

definition spec_permits :: "capability_spec \<Rightarrow> bound_action \<Rightarrow> principal \<Rightarrow> bool" where
  "spec_permits s a p \<longleftrightarrow> cs_Digest s = ba_SpecDigest a \<and> length (ba_NormalizedArguments a) \<le> unat (cs_MaxInputBytes s)
     \<and> set (cs_RequiredScopes s) \<subseteq> set (pr_GrantedScopes p)"

text \<open>
  C23: what may be executed. If a registry authorises an action, then this registry issued exactly that action (a SHA-256
  collision on its encoding aside), and it is unexpired on the Host's clock, of the current epoch and at most eight
  observations old; its capability is registered now, with the digest the action names, and the principal holds all
  the scopes the capability requires. No field of an issued binding can be altered, and no binding can be made up.
\<close>

theorem authorized_was_issued:
  assumes "registry_run env reg issued"
    and "AuthorizeBoundAction env reg a now ep seq p = None"
    and "\<And>b. boundActionFingerprint env b = boundActionFingerprint env a \<Longrightarrow> b = a"
  shows "a \<in> set issued \<and> ba_ExpectedEpoch a = ep \<and> tp_Value now < tp_Value (ba_ValidUntil a)
    \<and> ba_ObservationSeq a \<le> seq \<and> unat seq \<le> unat (ba_ObservationSeq a) + 8
    \<and> (\<exists>s. ResolveSpec reg (ba_Capability a) = Some s \<and> spec_permits s a p)"
proof -
  have auth: "verifyBoundAction env reg a = None" "ba_ExpectedEpoch a = ep" "tp_Value now < tp_Value (ba_ValidUntil a)"
    "withinObservationGap seq (ba_ObservationSeq a)"
    "\<exists>s. ResolveSpec reg (ba_Capability a) = Some s \<and> spec_permits s a p"
    using assms(2) by (auto simp: AuthorizeBoundAction_None ResolveSpec_def spec_permits_def)
  obtain b where b: "map_of (rg_bindings reg) (ba_BindingID a) = Some b" "boundActionFingerprint env a = Inr (rb_fingerprint b)"
    using auth(1) by (auto simp: verifyBoundAction_None)
  obtain a0 where "a0 \<in> set issued" "boundActionFingerprint env a0 = Inr (rb_fingerprint b)"
    using registry_run_invariant [OF assms(1)] b(1) unfolding bindings_issued_def by fastforce
  then have "a \<in> set issued" using assms(3) [of a0] b(2) by simp
  moreover have "unat seq \<le> unat (ba_ObservationSeq a) + 8"
    using auth(4) unat_minus_le [of "ba_ObservationSeq a" seq]
    by (auto simp: withinObservationGap_def MaxObservationGap_def word_le_nat_alt)
  ultimately show ?thesis using auth by (simp add: withinObservationGap_def)
qed


text \<open>
  C35: revocation is final for the bindings it hits. When a capability version is unregistered, every action bound to it
  is rejected from then on, also after the very same specification has been registered again.
\<close>

theorem revocation_is_final:
  assumes "registry_ok env reg" and "UnregisterSpec reg ref = (True, reg')"
    and "map_of (rg_bindings reg) (ba_BindingID a) = Some b" and "rb_capability b = ref"
    and "RegisterSpec env reg' s = (result, reg'')"
  shows "AuthorizeBoundAction env reg' a now ep seq p \<noteq> None \<and> AuthorizeBoundAction env reg'' a now ep seq p \<noteq> None"
proof -
  have "map_of (rg_bindings reg') (ba_BindingID a) = None"
    using assms(2-4) map_of_filter [OF registry_okD(2) [OF assms(1)]]
    by (auto simp: UnregisterSpec_def split: option.splits)
  moreover have "rg_bindings reg'' = rg_bindings reg'"
    using assms(5) by (auto simp: RegisterSpec_def Let_def split: sum.splits option.splits if_splits)
  ultimately show ?thesis by (auto simp: AuthorizeBoundAction_None verifyBoundAction_None)
qed

text \<open>
  the published catalog is exactly the registered specifications, each once, in strictly increasing order of
  identifier and version, whatever the iteration order of the map; every entry validates.
\<close>

theorem SnapshotSpecs_catalog:
  assumes "registry_ok env reg"
  shows "sorted_wrt (<) (map cs_Capability (sn_Specs (SnapshotSpecs reg)))
    \<and> (ResolveSpec reg ref = Some s \<longleftrightarrow> s \<in> set (sn_Specs (SnapshotSpecs reg)) \<and> cs_Capability s = ref)
    \<and> list_all (\<lambda>s. CapabilitySpec_Validate env s = None) (sn_Specs (SnapshotSpecs reg))"
proof -
  define specs where "specs = map (\<lambda>(ref, r). rs_spec r) (rg_specs reg)"
  have in_specs: "(ref, r) \<in> set (rg_specs reg) \<longleftrightarrow> map_of (rg_specs reg) ref = Some r" for ref r
    using registry_okD(1) [OF assms] map_of_eq_Some_iff by fast
  have "map cs_Capability specs = map fst (rg_specs reg)"
    using registry_okD(5) [OF assms] in_specs by (auto simp: specs_def)
  then have "distinct (map cs_Capability (sort_key cs_Capability specs))"
    using registry_okD(1) [OF assms] by (metis distinct_map distinct_sort set_sort)
  moreover have sn: "sn_Specs (SnapshotSpecs reg) = sort_key cs_Capability specs" by (simp add: SnapshotSpecs_def specs_def)
  moreover have "ResolveSpec reg ref = Some s \<longleftrightarrow> s \<in> set specs \<and> cs_Capability s = ref"
    using registry_okD(5) [OF assms] in_specs by (force simp: ResolveSpec_def specs_def)
  moreover have "CapabilitySpec_Validate env s = None" if s: "s \<in> set specs" for s
  proof -
    obtain ref r where "map_of (rg_specs reg) ref = Some r" "s = rs_spec r" using s in_specs by (auto simp: specs_def)
    then have "prepareCapabilitySpec env s = Inr r" using registry_okD(4) [OF assms] by simp
    then have "SealCapabilitySpec env s = Inr s" using \<open>s = rs_spec r\<close> by (simp add: SealCapabilitySpec_def)
    moreover have "CapabilitySpec_Validate env s = None" if "SealCapabilitySpec env s = Inr s"
      using that by (simp add: CapabilitySpec_Validate_def)
    ultimately show ?thesis by blast
  qed
  ultimately show ?thesis by (simp add: strict_sorted_iff list_all_iff)
qed

lemma sealed_not_obsolete:
  assumes "seal_action env reg r draft now ep seq = Inr a"
  shows "\<not> binding_obsolete a now (binding_record fp a)"
proof -
  obtain s effects canonical where "tp_Clock now = tp_Clock (bd_ValidUntil draft)" "tp_Value now < tp_Value (bd_ValidUntil draft)"
    and a: "a = bound_action_of r draft now canonical effects (ba_RequestDigest a) (ba_EffectDigest a)"
    by (rule seal_action_facts [OF assms]) blast
  then show ?thesis using bound_action_of_fields(9) [OF a] by (simp add: binding_obsolete_def)
qed

lemma seal_action_specs:
  "rg_specs reg' = rg_specs reg \<Longrightarrow> seal_action env reg' r draft now ep seq = seal_action env reg r draft now ep seq"
  by (simp add: seal_action_def validateRequest_def lookupSpecForExecution_def)

lemma live_bindings_fixed: "list_all (\<lambda>(i, b). \<not> binding_obsolete a now b) m \<Longrightarrow> filter (\<lambda>(i, b). \<not> binding_obsolete a now b) m = m"
  by (simp add: filter_id_conv list_all_iff)

lemma list_all_update:
  "list_all P m \<Longrightarrow> P (k, v) \<Longrightarrow> list_all P (AList.update k v m)"
  by (induction m) auto

text \<open>
  sealing the same draft again is harmless and changes nothing: it returns the same action and the same registry.
  After the first sealing no binding is left that has expired or that belongs to an older epoch of the same world, and
  every other binding is kept.
\<close>

theorem SealBinding_idempotent:
  assumes "SealBinding env reg r draft now ep seq = (Inr a, reg')"
  shows "SealBinding env reg' r draft now ep seq = (Inr a, reg')
    \<and> list_all (\<lambda>(i, b). \<not> binding_obsolete a now b) (rg_bindings reg')
    \<and> {(i, b) \<in> set (rg_bindings reg). i \<noteq> ba_BindingID a \<and> \<not> binding_obsolete a now b} \<subseteq> set (rg_bindings reg')"
  using assms
proof (cases rule: SealBinding_cases)
  case (issued a0)
  then have a: "a0 = a" by simp
  have live: "list_all (\<lambda>(i, b). \<not> binding_obsolete a now b) (live_bindings reg a now)" by (auto simp: list_all_iff)
  have keep: "{(i, b) \<in> set m. i \<noteq> k} \<subseteq> set (AList.update k v m)" for k v and m :: "(string, registered_binding) gomap"
    by (induction m) auto
  have post: "rg_specs reg' = rg_specs reg \<and> list_all (\<lambda>(i, b). \<not> binding_obsolete a now b) (rg_bindings reg')
    \<and> {(i, b) \<in> set (rg_bindings reg). i \<noteq> ba_BindingID a \<and> \<not> binding_obsolete a now b} \<subseteq> set (rg_bindings reg')
    \<and> verifyBoundAction env reg' a = None
    \<and> (\<exists>s. map_of (rg_specs reg) (ba_Capability a) = Some s \<and> cs_Digest (rs_spec s) = ba_SpecDigest a)"
    using issued(2) unfolding a
  proof (cases rule: rememberBoundAction_cases)
    case (added s fp)
    then show ?thesis using list_all_update [OF live] sealed_not_obsolete [OF issued(1) [unfolded a]] keep [of "live_bindings reg a now"]
      by (fastforce simp: verifyBoundAction_None gm.get_put)
  qed (use live in \<open>auto simp: verifyBoundAction_None\<close>)
  then have "live_bindings reg' a now = rg_bindings reg'" using live_bindings_fixed by blast
  then have "rememberBoundAction env reg' a now = (None, reg')"
    using post by (auto simp: rememberBoundAction_def verifyBoundAction_None Let_def)
  then show ?thesis using post issued(1) a seal_action_specs [of reg' reg] by (simp add: SealBinding_def)
qed auto

subsection \<open>A sample registry\<close>

definition hex64 :: "char \<Rightarrow> string" where
  "hex64 c = replicate 64 c"

definition ref_use :: capability_ref where
  "ref_use = CapabilityRef ''item.use'' ''1.0.0''"

definition registry_epoch :: epoch where
  "registry_epoch = \<lparr>ep_SessionID = ''session'', ep_WorldID = ''world'', ep_Host = 1, ep_World = 1, ep_Timeline = 1\<rparr>"

definition registry_effect :: effect where
  "registry_effect = \<lparr>ef_EffectID = ''effect'', ef_Kind = ''item.spend'', ef_Operation = OperationConsume,
     ef_Subject = None, ef_Target = None, ef_Tags = [], ef_Ownership = OwnershipActor, ef_Scope = ''world.local'',
     ef_Quantity = 4, ef_Unit = '''', ef_Reversible = False, ef_Risk = RiskLow, ef_Attributes = ''{}''\<rparr>"

definition step_time :: "int \<Rightarrow> timepoint" where
  "step_time v = \<lparr>tp_Clock = ClockStep, tp_Value = v\<rparr>"

definition sample_bound :: bound_action where
  "sample_bound = \<lparr>ba_BindingID = ''binding'', ba_RequestID = ''request'', ba_RequestDigest = hex64 CHR ''a'',
     ba_ControllerID = ''controller'', ba_ActorID = ''actor'', ba_Capability = ref_use, ba_SpecDigest = hex64 CHR ''a'',
     ba_NormalizedArguments = ''{}'', ba_RequestedTargets = [], ba_ResolvedTargets = [],
     ba_ExpectedEpoch = registry_epoch, ba_ObservationSeq = 1, ba_TaskID = '''', ba_PlanStep = None,
     ba_IdempotencyKey = ''key'', ba_Effects = [registry_effect], ba_EffectDigest = hex64 CHR ''a'',
     ba_BoundAt = step_time 10, ba_ValidUntil = step_time 100\<rparr>"

text \<open>An environment whose documents are all the empty schema, and whose fingerprints tell the sample binding from others.\<close>

definition registry_env :: go_env where
  "registry_env = \<lparr>
     jsonwire_Validate = (\<lambda>_. None),
     json_decode = (\<lambda>_. Inr (JObject [(''$schema'', JString SchemaDialect), (''type'', JString ''object''),
       (''additionalProperties'', JBool False)])),
     json_trailing = (\<lambda>_. None),
     json_decode_raw_object = (\<lambda>_. Some []),
     json_marshal = (\<lambda>_. Inr ''{}''),
     json_marshal_raw_object = (\<lambda>_. Inr ''{}''),
     marshal_request = (\<lambda>_. Inr ''{}''),
     marshal_effects = (\<lambda>_. Inr ''[]''),
     marshal_bound_action = (\<lambda>a. Inr (if a = sample_bound then ''{}'' else ''other'')),
     marshal_capability_spec = (\<lambda>_. Inr ''{}''),
     marshal_observation = (\<lambda>_. Inr ''{}''),
     sha256Hex = (\<lambda>s. hex64 (if s = ''other'' then CHR ''b'' else CHR ''a'')),
     float_interoperable = (\<lambda>_. True),
     schema_compile = (\<lambda>_. None),
     schema_unmarshal = (\<lambda>_. Inr (JObject [])),
     schema_validate = (\<lambda>_ _. None)\<rparr>"

definition sample_schema :: schema where
  "sample_schema = \<lparr>sc_Dialect = SchemaDialect, sc_Document = ''{}'', sc_SHA256 = hex64 CHR ''a''\<rparr>"

definition sample_spec :: capability_spec where
  "sample_spec = \<lparr>cs_Capability = ref_use, cs_Description = ''Use an item'', cs_Input = sample_schema,
     cs_Output = sample_schema, cs_EffectSchema = sample_schema, cs_Kind = CapabilityAtomic,
     cs_Execution = ExecutionImmediate, cs_Cancellation = CancellationUnsupported, cs_RiskFloor = RiskLow,
     cs_RequiredDurability = DurabilityAdvisory, cs_RequiredScopes = [''item.use''],
     cs_ExecutionBudget = \<lparr>dr_Clock = ClockStep, dr_Value = 100\<rparr>, cs_MaxInputBytes = 1024, cs_MaxOutputBytes = 1024,
     cs_MaxEffects = 4, cs_ProducesChildOperations = False, cs_Digest = ''''\<rparr>"

definition sample_manifest :: host_manifest where
  "sample_manifest = \<lparr>hm_ContractVersion = ContractVersion, hm_AdapterID = ''adapter'', hm_AdapterVersion = ''1.0.0'',
     hm_EngineID = ''engine'', hm_EngineVersion = ''1.0.0'', hm_Runtime = ''runtime'', hm_Platform = ''linux'',
     hm_Headless = True, hm_Authority = AuthorityServer, hm_Deployment = DeploymentDedicatedServer,
     hm_Control = ControlSemantic, hm_ClockModes = [ClockStep], hm_DecisionModes = [DecisionSequential],
     hm_MaxConcurrentActors = 1,
     hm_Durability = \<lparr>du_Profile = DurabilityAdvisory, du_StableIdentity = False, du_DurableBeforeNetwork = False,
       du_DurableOutbox = False, du_IdempotentApply = False, du_AtomicApplyAndOutbox = False\<rparr>\<rparr>"

definition sample_request :: action_request where
  "sample_request = \<lparr>rq_RequestID = ''request'', rq_ControllerID = ''controller'', rq_ActorID = ''actor'',
     rq_Capability = ref_use, rq_SpecDigest = hex64 CHR ''a'', rq_Arguments = ''{}'', rq_Targets = [],
     rq_ExpectedEpoch = registry_epoch, rq_ObservationSeq = 1, rq_TaskID = '''', rq_PlanStep = None,
     rq_IdempotencyKey = ''key''\<rparr>"

definition sample_draft :: binding_draft where
  "sample_draft = \<lparr>bd_BindingID = ''binding'', bd_ResolvedTargets = [], bd_Effects = [registry_effect],
     bd_ValidUntil = step_time 100\<rparr>"

definition empty_registry :: registry where
  "empty_registry = \<lparr>rg_manifest = sample_manifest, rg_revision = 0, rg_specs = [], rg_bindings = []\<rparr>"

definition open_registry :: registry where
  "open_registry = snd (RegisterSpec registry_env empty_registry sample_spec)"

definition bound_registry :: registry where
  "bound_registry = snd (SealBinding registry_env open_registry sample_request sample_draft (step_time 10) registry_epoch 2)"

definition sample_actor :: principal where
  "sample_actor = \<lparr>pr_ID = ''player'', pr_GrantedScopes = [''item.use'']\<rparr>"

lemma empty_registry_New: "NewRegistry sample_manifest = Inr empty_registry"
  by code_simp

text \<open>The two registries as values, so that later evaluations start from them.\<close>

lemma open_registry_value [code]:
  "open_registry = empty_registry\<lparr>rg_revision := 1, rg_specs := [(ref_use,
     \<lparr>rs_spec = sample_spec\<lparr>cs_Digest := hex64 CHR ''a''\<rparr>, rs_input = ''{}'', rs_output = ''{}'', rs_effectSchema = ''{}''\<rparr>)]\<rparr>"
  by code_simp

lemma sealed_value:
  "SealBinding registry_env open_registry sample_request sample_draft (step_time 10) registry_epoch 2
     = (Inr sample_bound, open_registry\<lparr>rg_bindings := [(''binding'', binding_record (hex64 CHR ''a'') sample_bound)]\<rparr>)"
  by code_simp

lemma bound_registry_value [code]:
  "bound_registry = open_registry\<lparr>rg_bindings := [(''binding'', binding_record (hex64 CHR ''a'') sample_bound)]\<rparr>"
  by (simp add: bound_registry_def sealed_value)

lemma sample_seal:
  "SealBinding registry_env open_registry sample_request sample_draft (step_time 10) registry_epoch 2 = (Inr sample_bound, bound_registry)"
  by (simp add: sealed_value bound_registry_value)

lemma open_registry_run: "registry_run registry_env open_registry []"
  unfolding open_registry_def by (rule run_Register [OF run_New [OF empty_registry_New] prod.collapse [symmetric]])

lemma bound_registry_run: "registry_run registry_env bound_registry [sample_bound]"
  by (rule registry_run_SealBinding [OF open_registry_run sample_seal])

theorem registry_invariant_witness: "registry_ok registry_env bound_registry"
  by (rule registry_invariant [OF bound_registry_run])

lemma sample_fingerprint:
  "boundActionFingerprint registry_env b = boundActionFingerprint registry_env sample_bound \<Longrightarrow> b = sample_bound"
  by (auto simp: boundActionFingerprint_def registry_env_def hex64_def split: if_splits)

theorem authorized_was_issued_witness:
  "AuthorizeBoundAction registry_env bound_registry sample_bound (step_time 20) registry_epoch 9 sample_actor = None
   \<and> sample_bound \<in> set [sample_bound]"
proof -
  have auth: "AuthorizeBoundAction registry_env bound_registry sample_bound (step_time 20) registry_epoch 9 sample_actor = None"
    by code_simp
  show ?thesis using auth authorized_was_issued [OF bound_registry_run auth sample_fingerprint] by blast
qed


definition revoked_registry :: registry where
  "revoked_registry = snd (UnregisterSpec bound_registry ref_use)"

theorem revocation_is_final_witness:
  "AuthorizeBoundAction registry_env (snd (RegisterSpec registry_env revoked_registry sample_spec))
     sample_bound (step_time 20) registry_epoch 9 sample_actor \<noteq> None"
proof -
  have "fst (UnregisterSpec bound_registry ref_use)" by code_simp
  then have u: "UnregisterSpec bound_registry ref_use = (True, revoked_registry)" by (simp add: revoked_registry_def prod_eq_iff)
  have b: "map_of (rg_bindings bound_registry) (ba_BindingID sample_bound) = Some (binding_record (hex64 CHR ''a'') sample_bound)"
    by code_simp
  have "rb_capability (binding_record (hex64 CHR ''a'') sample_bound) = ref_use" by code_simp
  from revocation_is_final [OF conjunct1 [OF registry_run_invariant [OF bound_registry_run]] u b this prod.collapse [symmetric]]
  show ?thesis by blast
qed

theorem SnapshotSpecs_catalog_witness:
  "sorted_wrt (<) (map cs_Capability (sn_Specs (SnapshotSpecs open_registry))) \<and> sn_Specs (SnapshotSpecs open_registry) \<noteq> []"
proof -
  have "sn_Specs (SnapshotSpecs open_registry) \<noteq> []" by code_simp
  then show ?thesis using SnapshotSpecs_catalog [OF conjunct1 [OF registry_run_invariant [OF open_registry_run]]] by blast
qed

theorem SealBinding_idempotent_witness:
  "SealBinding registry_env bound_registry sample_request sample_draft (step_time 10) registry_epoch 2 = (Inr sample_bound, bound_registry)"
  using SealBinding_idempotent [OF sample_seal] by blast

text \<open>
  The input limit is checked on the request's bytes when sealing and on the canonical bytes when authorising. Go's encoder
  writes some characters as six-byte escapes, so the canonical form can be longer: a binding may be issued that is
  never authorised. Here the nine bytes of the request are within the limit and the fourteen canonical ones are not.
\<close>

definition escaped :: string where
  "escaped = CHR ''{'' # CHR 0x22 # CHR ''a'' # CHR 0x22 # CHR '':'' # CHR 0x22 # CHR 0x5C # ''u003c'' @ [CHR 0x22, CHR ''}'']"

definition escaping_env :: go_env where
  "escaping_env = registry_env\<lparr>json_marshal := (\<lambda>_. Inr escaped)\<rparr>"

definition narrow_spec :: capability_spec where
  "narrow_spec = (let s = sample_schema\<lparr>sc_Document := escaped\<rparr> in
     sample_spec\<lparr>cs_Input := s, cs_Output := s, cs_EffectSchema := s, cs_MaxInputBytes := 9\<rparr>)"

definition escaped_request :: action_request where
  "escaped_request = sample_request\<lparr>rq_Arguments := CHR ''{'' # CHR 0x22 # CHR ''a'' # CHR 0x22 # CHR '':'' # CHR 0x22 # ''<'' @ [CHR 0x22, CHR ''}'']\<rparr>"

theorem sealed_but_never_authorized:
  "case SealBinding escaping_env (snd (RegisterSpec escaping_env empty_registry narrow_spec)) escaped_request sample_draft
       (step_time 10) registry_epoch 2 of
     (Inr a, reg) \<Rightarrow> AuthorizeBoundAction escaping_env reg a (step_time 10) registry_epoch 2 sample_actor
       = Some (invalid ''normalized_arguments'' ''exceeds capability input limit'')
   | (Inl _, _) \<Rightarrow> False"
  by code_simp

end
