(* ===== verification/Control_Types.thy ===== *)
theory Control_Types
  imports Policy_State Host_Registry
begin

section \<open>The control plane: data and validators (package \<open>controlplane\<close>, types.go, errors.go, validate.go)\<close>

text \<open>
  The values the control plane keeps about Hosts, worlds, actors, controllers and operations, and the validators of what
  Hosts and controllers send. Unix milliseconds are \<^typ>\<open>int\<close>. An error is the sentinel it wraps and the text after it.
  Optional pointers are options; the copies the code makes of shared values are identities here.
\<close>

datatype control_error_kind =
    ErrInvalid | ErrNotFound | ErrForbidden | ErrLeaseConflict | ErrLeaseExpired | ErrStale | ErrUnavailable
  | ErrNotAccepted | ErrConflict | ErrCapacity | ErrPersistence | ErrClosed | ErrDataLocked | ErrPlain

datatype control_error = ControlError (ce_kind: control_error_kind) (ce_detail: string)

abbreviation fault :: "control_error_kind \<Rightarrow> control_error" where
  "fault kind \<equiv> ControlError kind ''''"

definition control_invalid :: "string \<Rightarrow> string \<Rightarrow> control_error" where
  "control_invalid field message = ControlError ErrInvalid (field @ '': '' @ message)"

definition error_text :: "validation_error \<Rightarrow> string" where
  "error_text e = (if ve_Field e = [] then ve_Message e else ve_Field e @ '': '' @ ve_Message e)"

fun policy_error_text :: "policy_error \<Rightarrow> string" where
  "policy_error_text (PolicyError s) = s"
| "policy_error_text (PolicyHostError prefix e) = prefix @ error_text e"

definition ControlContractVersion :: string where "ControlContractVersion = ''rin.control/v2''"
definition ScopeActorRead :: string where "ScopeActorRead = ''actor.read''"
definition ScopeActorControl :: string where "ScopeActorControl = ''actor.control''"
definition ScopeActorExecute :: string where "ScopeActorExecute = ''actor.execute''"
definition ScopeOperationCancel :: string where "ScopeOperationCancel = ''operation.cancel''"
definition ScopeHostAdmin :: string where "ScopeHostAdmin = ''host.admin''"

datatype control_kind = ControlAction | ControlKindOther string
datatype decision_source = DecisionInternal | DecisionExternal | DecisionSourceOther string
datatype persona_mode = PersonaCharacterBound | PersonaAgentAvatar | PersonaModeOther string
datatype operation_status =
    OperationQueued | OperationAwaitingConfirmation | OperationDelivered | OperationAccepted | OperationRunning
  | OperationSucceeded | OperationFailed | OperationCancelled | OperationInterrupted | OperationStale
  | OperationOutcomeUnknown | OperationRejected | OperationStatusOther string
datatype host_gateway_kind = HostGatewayBind | HostGatewaySnapshot | HostGatewayKindOther string

fun operation_status_string :: "operation_status \<Rightarrow> string" where
  "operation_status_string OperationQueued = ''queued''"
| "operation_status_string OperationAwaitingConfirmation = ''awaiting-confirmation''"
| "operation_status_string OperationDelivered = ''delivered''"
| "operation_status_string OperationAccepted = ''accepted''"
| "operation_status_string OperationRunning = ''running''"
| "operation_status_string OperationSucceeded = ''succeeded''"
| "operation_status_string OperationFailed = ''failed''"
| "operation_status_string OperationCancelled = ''cancelled''"
| "operation_status_string OperationInterrupted = ''interrupted''"
| "operation_status_string OperationStale = ''stale''"
| "operation_status_string OperationOutcomeUnknown = ''outcome-unknown''"
| "operation_status_string OperationRejected = ''rejected''"
| "operation_status_string (OperationStatusOther s) = s"

fun policy_result_string :: "policy_result \<Rightarrow> string" where
  "policy_result_string Allow = ''allow''"
| "policy_result_string Deny = ''deny''"
| "policy_result_string RequireConfirmation = ''require_confirmation''"
| "policy_result_string (ResultOther s) = s"

subsection \<open>Actors, controllers and Hosts\<close>

record decision_authority =
  da_Source :: decision_source
  da_ControllerPrincipalID :: string
  da_Revision :: u64
  da_PersonaMode :: persona_mode

datatype actor_control_target = ActorControlTarget (at_HostID: string) (at_WorldID: string) (at_ActorID: string)

record acquire_controller_input =
  ai_Target :: actor_control_target
  ai_ControllerID :: string
  ai_LeaseTTLMillis :: u32

record controller_lease =
  cl_LeaseID :: string
  cl_ControllerID :: string
  cl_PrincipalID :: string
  cl_HostID :: string
  cl_WorldID :: string
  cl_ActorID :: string
  cl_Source :: decision_source
  cl_PersonaMode :: persona_mode
  cl_AuthorityRevision :: u64
  cl_Epoch :: epoch
  cl_AcquiredAt :: int
  cl_ExpiresAt :: int

record actor_emergency_stop =
  es_Target :: actor_control_target
  es_Active :: bool
  es_Revision :: u64
  es_UpdatedBy :: string
  es_UpdatedAt :: int

record host_registration =
  hg_ContractVersion :: string
  hg_HostID :: string
  hg_InstanceID :: string
  hg_Manifest :: host_manifest
  hg_LeaseTTLMillis :: u32

record host_lease =
  hl_HostID :: string
  hl_InstanceID :: string
  hl_LeaseID :: string
  hl_ExpiresAt :: int

record host_actor_snapshot =
  hs_Epoch :: epoch
  hs_ObservationSequence :: u64

record actor_publication =
  ap_ActorID :: string
  ap_OwnerPrincipalID :: string
  ap_DisplayName :: string
  ap_ObservationSeq :: u64
  ap_Epoch :: epoch
  ap_Authority :: "decision_authority option"
  ap_State :: string
  ap_Observation :: "observation_envelope option"
  ap_Capabilities :: "capability_snapshot option"

record world_publication =
  wp_WorldID :: string
  wp_DisplayName :: string
  wp_Sequence :: u64
  wp_VisiblePrincipalIDs :: "string list"
  wp_Actors :: "actor_publication list"

record world_view =
  wv_HostID :: string
  wv_WorldID :: string
  wv_DisplayName :: string
  wv_Sequence :: u64
  wv_Online :: bool
  wv_LeaseExpiresAt :: int

record actor_view =
  av_HostID :: string
  av_AdapterID :: string
  av_WorldID :: string
  av_ActorID :: string
  av_OwnerPrincipalID :: string
  av_DisplayName :: string
  av_ObservationSeq :: u64
  av_Epoch :: epoch
  av_Authority :: decision_authority
  av_Controller :: "controller_lease option"
  av_EmergencyStopped :: bool
  av_EmergencyStopRevision :: u64
  av_State :: string
  av_Online :: bool
  av_LeaseExpiresAt :: int

record wait_actor_input =
  wa_HostID :: string
  wa_WorldID :: string
  wa_ActorID :: string
  wa_AfterObservationSeq :: u64
  wa_AfterAuthorityRevision :: u64
  wa_AfterControllerLeaseID :: string
  wa_AfterEmergencyStopRevision :: u64
  wa_WaitMillis :: u32

subsection \<open>Requests to a Host\<close>

record control_binding =
  cb_Epoch :: epoch
  cb_ObservationSeq :: u64
  cb_AuthorityRevision :: u64
  cb_ControllerLeaseID :: string

record host_control_request =
  hc_OperationID :: string
  hc_RequestID :: string
  hc_Principal :: principal
  hc_HostID :: string
  hc_WorldID :: string
  hc_ActorID :: string
  hc_Kind :: control_kind
  hc_Binding :: "control_binding option"
  hc_ActionRequest :: "action_request option"
  hc_BoundAction :: "bound_action option"
  hc_PolicyDecision :: "decision option"
  hc_ParentOperationID :: string
  hc_SubmittedAt :: int

record host_control_delivery =
  hd_Request :: host_control_request
  hd_DeliveryAttempt :: u32

record action_host_snapshot =
  ah_Now :: timepoint
  ah_Epoch :: epoch
  ah_ObservationSeq :: u64

record action_binding_result =
  br_Action :: bound_action
  br_Snapshot :: action_host_snapshot

record host_gateway_request =
  gr_GatewayRequestID :: string
  gr_Kind :: host_gateway_kind
  gr_Target :: actor_control_target
  gr_ActionRequest :: "action_request option"
  gr_SubmittedAt :: int

record host_gateway_delivery =
  gd_Request :: host_gateway_request
  gd_DeliveryAttempt :: u32

record host_gateway_result =
  gs_GatewayRequestID :: string
  gs_Binding :: "action_binding_result option"
  gs_Snapshot :: "action_host_snapshot option"
  gs_ErrorCode :: string
  gs_ErrorMessage :: string

record host_control_batch =
  hb_GatewayRequests :: "host_gateway_delivery list"
  hb_Requests :: "host_control_delivery list"
  hb_Cancellations :: "string list"

record host_acknowledgement =
  ha_OperationID :: string
  ha_Accepted :: bool
  ha_Code :: string
  ha_Message :: string

definition no_acknowledgement :: host_acknowledgement where
  "no_acknowledgement = \<lparr>ha_OperationID = '''', ha_Accepted = False, ha_Code = '''', ha_Message = ''''\<rparr>"

record submit_action_input =
  si_HostID :: string
  si_WorldID :: string
  si_Request :: action_request
  si_ParentOperationID :: string

subsection \<open>Validators\<close>

definition minLeaseTTLMillis :: nat where "minLeaseTTLMillis = 5000"
definition maxLeaseTTLMillis :: nat where "maxLeaseTTLMillis = 300000"
definition maxWorldsPerHost :: nat where "maxWorldsPerHost = 64"
definition maxActorsPerWorld :: nat where "maxActorsPerWorld = 4096"
definition maxVisiblePrincipals :: nat where "maxVisiblePrincipals = 4096"
definition maxCapabilitySpecs :: nat where "maxCapabilitySpecs = 512"
definition maxActorStateBytes :: nat where "maxActorStateBytes = 65536"
definition maxPublicationBytes :: nat where "maxPublicationBytes = 8388608"
definition maxOperationOutput :: nat where "maxOperationOutput = 65536"
definition minControllerLeaseTTLMillis :: nat where "minControllerLeaseTTLMillis = 5000"
definition maxControllerLeaseTTLMillis :: nat where "maxControllerLeaseTTLMillis = 300000"

definition control_validateID :: "string \<Rightarrow> string \<Rightarrow> control_error option" where
  "control_validateID field value =
     (case ValidatePrincipal \<lparr>pr_ID = value, pr_GrantedScopes = []\<rparr> of
        None \<Rightarrow> None
      | Some e \<Rightarrow> Some (control_invalid field (if ve_Field e = ''principal.id'' then ve_Message e else error_text e)))"

definition control_validateText :: "string \<Rightarrow> string \<Rightarrow> nat \<Rightarrow> bool \<Rightarrow> control_error option" where
  "control_validateText field value maximum required =
     require (valid_utf8 value \<and> length value \<le> maximum \<and> \<not> (required \<and> blank value))
       (control_invalid field (''must be valid UTF-8 text of at most '' @ format_nat maximum @ '' bytes''))"

definition control_validateJSONObject :: "go_env \<Rightarrow> string \<Rightarrow> string \<Rightarrow> nat \<Rightarrow> control_error option" where
  "control_validateJSONObject env field raw maximum =
     first_err [
       require (raw \<noteq> [] \<and> length raw \<le> maximum) (control_invalid field ''must be a bounded JSON object''),
       map_option (control_invalid field) (jsonwire_Validate env raw),
       (case json_decode env raw of
          Inl _ \<Rightarrow> Some (control_invalid field ''must be valid JSON'')
        | Inr v \<Rightarrow> require (is_object v) (control_invalid field ''must be a JSON object''))]"

definition validateOperationOutput :: "go_env \<Rightarrow> string \<Rightarrow> control_error option" where
  "validateOperationOutput env output =
     (if output = [] then None else control_validateJSONObject env ''output'' output maxOperationOutput)"

definition validateRegistration :: "host_registration \<Rightarrow> control_error option" where
  "validateRegistration v =
     first_err [
       require (hg_ContractVersion v = ControlContractVersion)
         (control_invalid ''contract_version'' (''must equal '' @ ControlContractVersion)),
       control_validateID ''host_id'' (hg_HostID v),
       control_validateID ''instance_id'' (hg_InstanceID v),
       map_option (\<lambda>e. control_invalid ''manifest'' (error_text e)) (ValidateHostManifest (hg_Manifest v)),
       require (minLeaseTTLMillis \<le> unat (hg_LeaseTTLMillis v) \<and> unat (hg_LeaseTTLMillis v) \<le> maxLeaseTTLMillis)
         (control_invalid ''lease_ttl_millis'' ''must be between 5000 and 300000'')]"

definition validateDecisionAuthority :: "string \<Rightarrow> decision_authority \<Rightarrow> control_error option" where
  "validateDecisionAuthority field v =
     first_err [
       require (positive_json_safe (da_Revision v))
         (control_invalid (field @ ''.revision'') ''must be a positive JSON-safe integer''),
       (case da_Source v of
          DecisionInternal \<Rightarrow>
            first_err [
              require (da_ControllerPrincipalID v = [])
                (control_invalid (field @ ''.controller_principal_id'') ''must be empty for internal authority''),
              require (da_PersonaMode v = PersonaCharacterBound)
                (control_invalid (field @ ''.persona_mode'') ''must be character-bound for internal authority'')]
        | DecisionExternal \<Rightarrow>
            first_err [
              control_validateID (field @ ''.controller_principal_id'') (da_ControllerPrincipalID v),
              require (da_PersonaMode v = PersonaCharacterBound \<or> da_PersonaMode v = PersonaAgentAvatar)
                (control_invalid (field @ ''.persona_mode'') ''must be character-bound or agent-avatar'')]
        | DecisionSourceOther _ \<Rightarrow> Some (control_invalid (field @ ''.source'') ''must be internal or external''))]"

definition validate_observation_of :: "go_env \<Rightarrow> string \<Rightarrow> string \<Rightarrow> string \<Rightarrow> actor_publication \<Rightarrow> control_error option" where
  "validate_observation_of env prefix hostID worldID v =
     (case ap_Observation v of
        None \<Rightarrow> None
      | Some obs \<Rightarrow>
          first_err [
            map_option (\<lambda>e. control_invalid (prefix @ ''.observation'') (error_text e)) (ValidateObservationEnvelope env obs),
            require (oe_HostID obs = hostID \<and> oe_WorldID obs = worldID \<and> oe_ActorID obs = ap_ActorID v
                     \<and> oe_Epoch obs = ap_Epoch v \<and> oe_Sequence obs = ap_ObservationSeq v)
              (control_invalid (prefix @ ''.observation'') ''must match the enclosing Host, world, Actor, Epoch, and sequence'')])"

definition capabilityRefLess :: "capability_ref \<Rightarrow> capability_ref \<Rightarrow> bool" where
  "capabilityRefLess l r \<longleftrightarrow> cr_ID l < cr_ID r \<or> cr_ID l = cr_ID r \<and> cr_Version l < cr_Version r"

definition validate_capabilities_of :: "go_env \<Rightarrow> string \<Rightarrow> actor_publication \<Rightarrow> control_error option" where
  "validate_capabilities_of env prefix v =
     (case ap_Capabilities v of
        None \<Rightarrow> None
      | Some snapshot \<Rightarrow>
          first_err [
            require (unat (sn_Revision snapshot) \<le> maxJSONSafeInteger)
              (control_invalid (prefix @ ''.capabilities.revision'') ''must be a JSON-safe integer''),
            require (length (sn_Specs snapshot) \<le> maxCapabilitySpecs)
              (control_invalid (prefix @ ''.capabilities.specs'') ''must contain at most 512 values''),
            loop_err (\<lambda>i previous spec. first_err [
                map_option (\<lambda>e. control_invalid (indexed (prefix @ ''.capabilities.specs'') i) (error_text e))
                  (CapabilitySpec_Validate env spec),
                require (previous = [] \<or> capabilityRefLess (cs_Capability (last previous)) (cs_Capability spec))
                  (control_invalid (prefix @ ''.capabilities.specs'')
                     ''must be sorted by capability ID and version without duplicates'')])
              [] (sn_Specs snapshot)])"

definition validateActor :: "go_env \<Rightarrow> actor_publication \<Rightarrow> string \<Rightarrow> string \<Rightarrow> nat \<Rightarrow> control_error option" where
  "validateActor env v hostID worldID index =
     (let prefix = indexed ''actors'' index in
      first_err [
        control_validateID (prefix @ ''.actor_id'') (ap_ActorID v),
        control_validateID (prefix @ ''.owner_principal_id'') (ap_OwnerPrincipalID v),
        control_validateText (prefix @ ''.display_name'') (ap_DisplayName v) 128 True,
        require (positive_json_safe (ap_ObservationSeq v))
          (control_invalid (prefix @ ''.observation_seq'') ''must be a positive JSON-safe integer''),
        map_option (\<lambda>e. control_invalid (prefix @ ''.epoch'') (error_text e)) (Epoch_Validate (ap_Epoch v) (prefix @ ''.epoch'')),
        require (ep_WorldID (ap_Epoch v) = worldID)
          (control_invalid (prefix @ ''.epoch.world_id'') ''must equal publication world_id''),
        (case ap_Authority v of
           None \<Rightarrow> Some (control_invalid (prefix @ ''.decision_authority'') ''is required'')
         | Some authority \<Rightarrow> validateDecisionAuthority (prefix @ ''.decision_authority'') authority),
        control_validateJSONObject env (prefix @ ''.state'') (ap_State v) maxActorStateBytes,
        validate_observation_of env prefix hostID worldID v,
        validate_capabilities_of env prefix v])"

text \<open>The encoded size of a publication comes from the JSON encoder, a parameter.\<close>

type_synonym publication_encoder = "world_publication \<Rightarrow> string + nat"

definition validatePublication ::
  "go_env \<Rightarrow> publication_encoder \<Rightarrow> world_publication \<Rightarrow> host_manifest \<Rightarrow> string \<Rightarrow> control_error option" where
  "validatePublication env encode v manifest hostID =
     (let maximumActors = min maxActorsPerWorld (unat (hm_MaxConcurrentActors manifest)) in
      first_err [
        control_validateID ''world_id'' (wp_WorldID v),
        control_validateText ''display_name'' (wp_DisplayName v) 128 True,
        require (positive_json_safe (wp_Sequence v)) (control_invalid ''sequence'' ''must be a positive JSON-safe integer''),
        require (length (wp_VisiblePrincipalIDs v) \<le> maxVisiblePrincipals)
          (control_invalid ''visible_principal_ids'' ''must contain at most 4096 values''),
        loop_err (\<lambda>i seen principalID. first_err [
            control_validateID (indexed ''visible_principal_ids'' i) principalID,
            require (principalID \<notin> set seen)
              (control_invalid ''visible_principal_ids'' ''must not contain duplicate values'')])
          [] (wp_VisiblePrincipalIDs v),
        require (length (wp_Actors v) \<le> maximumActors)
          (control_invalid ''actors'' (''must contain at most '' @ format_nat maximumActors @ '' values'')),
        loop_err (\<lambda>i seen actor. first_err [
            require (ap_ActorID actor \<notin> ap_ActorID ` set seen)
              (control_invalid ''actors'' ''must not contain duplicate actor_id values''),
            validateActor env actor hostID (wp_WorldID v) i])
          [] (wp_Actors v),
        (case encode v of
           Inl msg \<Rightarrow> Some (control_invalid ''publication'' (''cannot encode: '' @ msg))
         | Inr n \<Rightarrow> require (n \<le> maxPublicationBytes)
             (control_invalid ''publication'' ''must contain at most 8388608 bytes''))])"

definition hasScope :: "principal \<Rightarrow> string \<Rightarrow> bool" where
  "hasScope p scope \<longleftrightarrow> scope \<in> set (pr_GrantedScopes p)"

text \<open>
  \<open>effectiveAuthority\<close> dereferences a pointer that \<open>validateActor\<close> requires; the zero value stands for a nil pointer, which
  no stored publication has.
\<close>

definition effectiveAuthority :: "actor_publication \<Rightarrow> decision_authority" where
  "effectiveAuthority a = (case ap_Authority a of Some authority \<Rightarrow> authority
     | None \<Rightarrow> \<lparr>da_Source = DecisionSourceOther '''', da_ControllerPrincipalID = '''', da_Revision = 0,
                da_PersonaMode = PersonaModeOther ''''\<rparr>)"

definition authorityAllowsExternal :: "actor_publication \<Rightarrow> string \<Rightarrow> bool" where
  "authorityAllowsExternal a principalID \<longleftrightarrow>
     da_Source (effectiveAuthority a) = DecisionExternal \<and> da_ControllerPrincipalID (effectiveAuthority a) = principalID"

definition canAccessActor :: "principal \<Rightarrow> actor_publication \<Rightarrow> string \<Rightarrow> bool" where
  "canAccessActor p a requiredScope =
     (if hasScope p ScopeHostAdmin then True
      else if \<not> hasScope p requiredScope then False
      else if pr_ID p = ap_OwnerPrincipalID a then True
      else authorityAllowsExternal a (pr_ID p))"

definition publicationVisible :: "principal \<Rightarrow> world_publication \<Rightarrow> bool" where
  "publicationVisible p w \<longleftrightarrow>
     hasScope p ScopeHostAdmin
     \<or> (hasScope p ScopeActorRead \<and> pr_ID p \<in> set (wp_VisiblePrincipalIDs w))
     \<or> (\<exists>a \<in> set (wp_Actors w). canAccessActor p a ScopeActorRead)"

definition validateActorControlTarget :: "actor_control_target \<Rightarrow> control_error option" where
  "validateActorControlTarget t =
     first_err [
       control_validateID ''host_id'' (at_HostID t),
       control_validateID ''world_id'' (at_WorldID t),
       control_validateID ''actor_id'' (at_ActorID t)]"

definition validateControllerLeaseTTL :: "u32 \<Rightarrow> control_error option" where
  "validateControllerLeaseTTL v =
     require (minControllerLeaseTTLMillis \<le> unat v \<and> unat v \<le> maxControllerLeaseTTLMillis)
       (control_invalid ''lease_ttl_millis'' ''must be between 5000 and 300000'')"

definition validateAcquireControllerInput :: "acquire_controller_input \<Rightarrow> control_error option" where
  "validateAcquireControllerInput v =
     first_err [
       validateActorControlTarget (ai_Target v),
       control_validateID ''controller_id'' (ai_ControllerID v),
       validateControllerLeaseTTL (ai_LeaseTTLMillis v)]"

definition validateAcknowledgement :: "host_acknowledgement \<Rightarrow> control_error option" where
  "validateAcknowledgement v =
     first_err [
       control_validateID ''operation_id'' (ha_OperationID v),
       (if ha_Accepted v then require (ha_Code v = []) (control_invalid ''code'' ''must be empty when accepted'')
        else control_validateID ''code'' (ha_Code v)),
       control_validateText ''message'' (ha_Message v) 500 False]"

definition validateControlTarget :: "string \<Rightarrow> string \<Rightarrow> string \<Rightarrow> string \<Rightarrow> control_error option" where
  "validateControlTarget requestID hostID worldID actorID =
     first_err [
       control_validateID ''request_id'' requestID,
       control_validateID ''host_id'' hostID,
       control_validateID ''world_id'' worldID,
       control_validateID ''actor_id'' actorID]"

end
