(* ===== verification/Control_Operation.thy ===== *)
theory Control_Operation
  imports Control_Types
begin

section \<open>One operation of the control plane (package \<open>controlplane\<close>, operation.go, task_timeline.go)\<close>

text \<open>
  The state the service keeps about one submitted action, what is derived from it, and the bounded diagnostic timeline
  of an operation. The functions that change operations together with the service are in the next theories.
\<close>

definition maxOperationTimelineEvents :: nat where "maxOperationTimelineEvents = 64"
definition maxChildOperations :: nat where "maxChildOperations = 1024"

record operation_timeline_event =
  te_Sequence :: u64
  te_Kind :: string
  te_Status :: operation_status
  te_ReasonCode :: string
  te_Summary :: string
  te_At :: int
  te_Terminal :: bool
  te_ExecutionConfirmed :: bool
  te_ReconciliationPending :: bool
  te_DeliveryAttempts :: u32
  te_ProgressSequence :: u64
  te_Progress :: u32
  te_CancelRequested :: bool
  te_OutcomeCode :: string
  te_PolicyDisposition :: string
  te_PolicyReasonCode :: string
  te_PolicySummary :: string
  te_MatchedRuleIDs :: "string list"
  te_ConfirmationPending :: bool
  te_EffectCount :: u32

record operation_state =
  op_persistenceRevision :: u64
  op_request :: host_control_request
  op_status :: operation_status
  op_attempts :: u32
  op_cancel :: bool
  op_ack :: "host_acknowledgement option"
  op_run :: "action_run option"
  op_outcome :: "action_outcome option"
  op_outcomeDelivery :: "(string, bool) gomap"
  op_output :: string
  op_rejection :: host_acknowledgement
  op_idempotency :: string
  op_createdAt :: int
  op_updatedAt :: int
  op_children :: "string list"
  op_timeline :: "operation_timeline_event list"
  op_timelineTruncatedBefore :: u64

definition accepted_ack :: "operation_state \<Rightarrow> bool" where
  "accepted_ack op = (case op_ack op of None \<Rightarrow> False | Some ack \<Rightarrow> ha_Accepted ack)"

definition completeOperation :: "operation_state \<Rightarrow> bool" where
  "completeOperation op =
     (if op_status op = OperationOutcomeUnknown then True
      else if op_status op = OperationRejected then True
      else if op_status op = OperationStale \<and> \<not> accepted_ack op then True
      else if op_status op = OperationCancelled \<and> op_attempts op = 0 \<and> op_outcome op = None then True
      else op_outcome op \<noteq> None)"

definition reconciliationPending :: "operation_state \<Rightarrow> bool" where
  "reconciliationPending op \<longleftrightarrow> op_status op = OperationOutcomeUnknown \<and> op_outcome op = None"

definition settledOperation :: "operation_state \<Rightarrow> bool" where
  "settledOperation op \<longleftrightarrow> completeOperation op \<and> \<not> reconciliationPending op"

definition hasPendingOutcome :: "operation_state \<Rightarrow> bool" where
  "hasPendingOutcome op \<longleftrightarrow> (\<exists>(subscriber, delivered) \<in> set (op_outcomeDelivery op). \<not> delivered)"

definition terminalOperationStatus :: "operation_status \<Rightarrow> bool" where
  "terminalOperationStatus s \<longleftrightarrow>
     s \<in> {OperationSucceeded, OperationFailed, OperationCancelled, OperationInterrupted, OperationStale, OperationRejected}"

definition validOperationStatus :: "operation_status \<Rightarrow> bool" where
  "validOperationStatus s = (case s of OperationStatusOther _ \<Rightarrow> False | _ \<Rightarrow> True)"

definition validInitialRunStatus :: "action_run_status \<Rightarrow> bool" where
  "validInitialRunStatus s \<longleftrightarrow>
     s \<in> {ActionQueued, ActionRunning, ActionSucceeded, ActionFailed, ActionCancelled, ActionInterrupted, ActionStale,
          ActionOutcomeUnknown}"

text \<open>The code panics on a status it has not validated; the last clause stands for that.\<close>

fun operationStatusFromRun :: "action_run_status \<Rightarrow> operation_status" where
  "operationStatusFromRun ActionQueued = OperationAccepted"
| "operationStatusFromRun ActionRunning = OperationRunning"
| "operationStatusFromRun ActionSucceeded = OperationSucceeded"
| "operationStatusFromRun ActionFailed = OperationFailed"
| "operationStatusFromRun ActionCancelled = OperationCancelled"
| "operationStatusFromRun ActionInterrupted = OperationInterrupted"
| "operationStatusFromRun ActionStale = OperationStale"
| "operationStatusFromRun ActionOutcomeUnknown = OperationOutcomeUnknown"
| "operationStatusFromRun (ActionStatusOther s) = OperationStatusOther s"

fun deliveryPriority :: "operation_status \<Rightarrow> nat" where
  "deliveryPriority OperationQueued = 0"
| "deliveryPriority OperationDelivered = 1"
| "deliveryPriority OperationAccepted = 2"
| "deliveryPriority _ = 3"

definition controllerLeaseID :: "control_binding option \<Rightarrow> string" where
  "controllerLeaseID b = (case b of None \<Rightarrow> '''' | Some binding \<Rightarrow> cb_ControllerLeaseID binding)"

subsection \<open>The timeline\<close>

definition operationTimelineKind :: "operation_state \<Rightarrow> string" where
  "operationTimelineKind op =
     (if op_cancel op \<and> \<not> completeOperation op then ''operation.cancel-requested''
      else if op_run op \<noteq> None \<and> op_status op = OperationRunning then ''operation.progress''
      else ''operation.'' @ operation_status_string (op_status op))"

definition base_timeline_event :: "operation_state \<Rightarrow> operation_timeline_event" where
  "base_timeline_event op = \<lparr>
     te_Sequence = 0,
     te_Kind = operationTimelineKind op,
     te_Status = op_status op,
     te_ReasonCode = (case op_outcome op of
         Some o' \<Rightarrow> action_run_status_string (ao_Status o')
       | None \<Rightarrow> if ha_Code (op_rejection op) \<noteq> [] \<or> ha_Message (op_rejection op) \<noteq> [] then ha_Code (op_rejection op)
                  else operation_status_string (op_status op)),
     te_Summary = (case op_outcome op of
         Some o' \<Rightarrow> ao_Summary o'
       | None \<Rightarrow> if ha_Code (op_rejection op) \<noteq> [] \<or> ha_Message (op_rejection op) \<noteq> [] then ha_Message (op_rejection op)
                  else ''''),
     te_At = op_updatedAt op,
     te_Terminal = settledOperation op,
     te_ExecutionConfirmed = (op_status op = OperationSucceeded \<and> op_outcome op \<noteq> None),
     te_ReconciliationPending = reconciliationPending op,
     te_DeliveryAttempts = op_attempts op,
     te_ProgressSequence = (case op_run op of None \<Rightarrow> 0 | Some r \<Rightarrow> ar_ProgressSeq r),
     te_Progress = (case op_run op of None \<Rightarrow> 0 | Some r \<Rightarrow> ar_Progress r),
     te_CancelRequested = op_cancel op,
     te_OutcomeCode = (case op_outcome op of Some o' \<Rightarrow> action_run_status_string (ao_Status o') | None \<Rightarrow> ''''),
     te_PolicyDisposition = '''', te_PolicyReasonCode = '''', te_PolicySummary = '''', te_MatchedRuleIDs = [],
     te_ConfirmationPending = False, te_EffectCount = 0\<rparr>"

definition operationTimelineSnapshot :: "operation_state \<Rightarrow> operation_timeline_event" where
  "operationTimelineSnapshot op =
     (let item = base_timeline_event op in
      case hc_PolicyDecision (op_request op) of
        None \<Rightarrow> item
      | Some d \<Rightarrow> item\<lparr>
          te_PolicyDisposition := policy_result_string (de_Result d),
          te_PolicyReasonCode := de_ReasonCode d,
          te_PolicySummary := de_HumanSummary d,
          te_MatchedRuleIDs := de_MatchedRuleIDs d,
          te_ConfirmationPending := (de_Result d = RequireConfirmation \<and> op_status op = OperationAwaitingConfirmation),
          te_EffectCount := (case hc_BoundAction (op_request op) of None \<Rightarrow> 0 | Some a \<Rightarrow> word_of_nat (length (ba_Effects a))),
          te_Summary := (if te_Summary item = [] then de_HumanSummary d else te_Summary item)\<rparr>)"

text \<open>Equality of all fields but the sequence number.\<close>

definition operationTimelineEventsEqual :: "operation_timeline_event \<Rightarrow> operation_timeline_event \<Rightarrow> bool" where
  "operationTimelineEventsEqual l r \<longleftrightarrow> l\<lparr>te_Sequence := 0\<rparr> = r\<lparr>te_Sequence := 0\<rparr>"

text \<open>
  The part of \<open>recordOperationTimelineLocked\<close> that changes the operation, with the service's sequence counter. The
  change feed is appended to by the caller.
\<close>

definition has_task :: "operation_state \<Rightarrow> bool" where
  "has_task op = (case hc_ActionRequest (op_request op) of None \<Rightarrow> False | Some r \<Rightarrow> rq_TaskID r \<noteq> [])"

definition record_timeline :: "operation_state \<Rightarrow> u64 \<Rightarrow> operation_state \<times> u64" where
  "record_timeline op0 sequence =
     (let op = op0\<lparr>op_persistenceRevision := op_persistenceRevision op0 + 1\<rparr>;
          item = operationTimelineSnapshot op
      in if \<not> has_task op then (op, sequence)
         else if op_timeline op \<noteq> [] \<and> operationTimelineEventsEqual (last (op_timeline op)) item then (op, sequence)
         else
           let event = item\<lparr>te_Sequence := sequence + 1\<rparr>;
               op1 = (if length (op_timeline op) = maxOperationTimelineEvents
                      then op\<lparr>op_timelineTruncatedBefore := te_Sequence (hd (op_timeline op)),
                              op_timeline := tl (op_timeline op)\<rparr>
                      else op)
           in (op1\<lparr>op_timeline := op_timeline op1 @ [event]\<rparr>, sequence + 1))"

subsection \<open>The view of an operation\<close>

record operation_view =
  ov_OperationID :: string
  ov_RequestID :: string
  ov_HostID :: string
  ov_WorldID :: string
  ov_ActorID :: string
  ov_Kind :: control_kind
  ov_ControllerLeaseID :: string
  ov_ParentOperationID :: string
  ov_ChildOperationIDs :: "string list"
  ov_ActionRequest :: "action_request option"
  ov_BoundAction :: "bound_action option"
  ov_PolicyDecision :: "decision option"
  ov_Status :: operation_status
  ov_Cursor :: string
  ov_Terminal :: bool
  ov_ReconciliationPending :: bool
  ov_ExecutionConfirmed :: bool
  ov_CancelRequested :: bool
  ov_DeliveryAttempts :: u32
  ov_Run :: "action_run option"
  ov_Outcome :: "action_outcome option"
  ov_Output :: "json option"
  ov_RejectionCode :: string
  ov_RejectionMessage :: string
  ov_CreatedAt :: int
  ov_UpdatedAt :: int

definition format_bool :: "bool \<Rightarrow> string" where
  "format_bool b = (if b then ''true'' else ''false'')"

definition format_int :: "int \<Rightarrow> string" where
  "format_int i = (if i < 0 then ''-'' @ format_nat (nat (- i)) else format_nat (nat i))"

fun colon_join :: "string list \<Rightarrow> string" where
  "colon_join [] = []"
| "colon_join [s] = s"
| "colon_join (s # t # ss) = s @ CHR '':'' # colon_join (t # ss)"

definition operationCursor :: "operation_state \<Rightarrow> string" where
  "operationCursor op =
     colon_join [
       ''op2'',
       operation_status_string (op_status op),
       format_nat (unat (op_attempts op)),
       format_bool (op_cancel op),
       format_int (op_updatedAt op),
       (case op_run op of None \<Rightarrow> '''' | Some r \<Rightarrow> action_run_status_string (ar_Status r)),
       format_u64 (case op_run op of None \<Rightarrow> 0 | Some r \<Rightarrow> ar_ProgressSeq r),
       format_bool (op_outcome op \<noteq> None),
       format_nat (length (op_children op))]"

definition operationOutputView :: "go_env \<Rightarrow> string \<Rightarrow> json option" where
  "operationOutputView env output =
     (if output = [] then None
      else case json_decode env output of Inr (JObject members) \<Rightarrow> Some (JObject members) | _ \<Rightarrow> None)"

definition operationView :: "go_env \<Rightarrow> operation_state \<Rightarrow> operation_view" where
  "operationView env op = (let r = op_request op in \<lparr>
     ov_OperationID = hc_OperationID r,
     ov_RequestID = hc_RequestID r,
     ov_HostID = hc_HostID r,
     ov_WorldID = hc_WorldID r,
     ov_ActorID = hc_ActorID r,
     ov_Kind = hc_Kind r,
     ov_ControllerLeaseID = controllerLeaseID (hc_Binding r),
     ov_ParentOperationID = hc_ParentOperationID r,
     ov_ChildOperationIDs = op_children op,
     ov_ActionRequest = hc_ActionRequest r,
     ov_BoundAction = hc_BoundAction r,
     ov_PolicyDecision = hc_PolicyDecision r,
     ov_Status = op_status op,
     ov_Cursor = operationCursor op,
     ov_Terminal = settledOperation op,
     ov_ReconciliationPending = reconciliationPending op,
     ov_ExecutionConfirmed = (op_status op = OperationSucceeded \<and> op_outcome op \<noteq> None),
     ov_CancelRequested = op_cancel op,
     ov_DeliveryAttempts = op_attempts op,
     ov_Run = op_run op,
     ov_Outcome = op_outcome op,
     ov_Output = operationOutputView env (op_output op),
     ov_RejectionCode = ha_Code (op_rejection op),
     ov_RejectionMessage = ha_Message (op_rejection op),
     ov_CreatedAt = op_createdAt op,
     ov_UpdatedAt = op_updatedAt op\<rparr>)"

subsection \<open>Restoring an operation after a restart (operation_file.go)\<close>

text \<open>
  What is written to disk is the operation without its children, its rejection, its idempotency key and its revision
  counter; they are recomputed. \<open>validatePersistedOperationRelations\<close> and \<open>restoreOperation\<close> read it back.
\<close>

definition deny_rejection :: "string \<Rightarrow> decision \<Rightarrow> host_acknowledgement" where
  "deny_rejection operationID d =
     \<lparr>ha_OperationID = operationID, ha_Accepted = False, ha_Code = de_ReasonCode d, ha_Message = de_HumanSummary d\<rparr>"

definition no_execution :: "operation_state \<Rightarrow> bool" where
  "no_execution v \<longleftrightarrow> op_attempts v = 0 \<and> op_ack v = None \<and> op_run v = None \<and> op_outcome v = None \<and> op_output v = []"

definition validate_allowed_relations :: "operation_state \<Rightarrow> string option" where
  "validate_allowed_relations v =
     first_err [
       require (\<not> (op_ack v \<noteq> None \<and> op_attempts v = 0)) ''acknowledgement requires a delivery attempt'',
       (if op_ack v \<noteq> None \<and> \<not> accepted_ack v then
          require (op_status v = OperationRejected \<and> op_run v = None \<and> op_outcome v = None \<and> op_output v = [])
            ''rejected operation has inconsistent execution state''
        else first_err [
          require (\<not> accepted_ack v \<or> op_status v \<in> {OperationAccepted, OperationRunning, OperationSucceeded, OperationFailed,
              OperationCancelled, OperationInterrupted, OperationStale, OperationOutcomeUnknown})
            ''accepted operation has an invalid status'',
          require (\<not> ((op_run v \<noteq> None \<or> op_outcome v \<noteq> None) \<and> \<not> accepted_ack v))
            ''Host execution state requires an accepted acknowledgement'',
          require (\<not> (op_output v \<noteq> [] \<and> op_outcome v = None)) ''operation output requires a terminal outcome'',
          (case op_outcome v of
             None \<Rightarrow> None
           | Some o' \<Rightarrow>
               first_err [
                 require (op_status v = operationStatusFromRun (ao_Status o')) ''outcome does not match operation status'',
                 (case hc_Binding (op_request v) of
                    None \<Rightarrow> None
                  | Some b \<Rightarrow>
                      first_err [
                        require (ao_Epoch o' = cb_Epoch b) ''outcome epoch does not match request binding'',
                        require (\<not> ao_WorldSeq o' < cb_ObservationSeq b)
                          ''outcome world sequence predates request binding''])]),
          (case op_run v of
             None \<Rightarrow> None
           | Some r \<Rightarrow>
               (case op_outcome v of
                  None \<Rightarrow> require (op_status v = operationStatusFromRun (ar_Status r)) ''run does not match operation status''
                | Some o' \<Rightarrow> require (\<not> (terminalOperationStatus (operationStatusFromRun (ar_Status r)) \<and> ar_Status r \<noteq> ao_Status o'))
                    ''terminal run conflicts with outcome'')),
          (if op_ack v = None then
             first_err [
               require (\<not> (op_status v = OperationDelivered \<and> op_attempts v = 0)) ''delivered operation requires a delivery attempt'',
               require (op_status v \<in> {OperationQueued, OperationAwaitingConfirmation, OperationDelivered, OperationStale}
                        \<or> op_status v = OperationCancelled \<and> op_attempts v = 0)
                 ''unacknowledged operation has an invalid status'']
           else None)])]"

definition validatePersistedOperationRelations :: "operation_state \<Rightarrow> string option" where
  "validatePersistedOperationRelations v =
     (case hc_PolicyDecision (op_request v) of
        None \<Rightarrow> Some ''action operation is missing policy decision''
      | Some d \<Rightarrow>
          (case de_Result d of
             Deny \<Rightarrow> require (op_status v = OperationRejected \<and> no_execution v) ''denied action has execution state''
           | RequireConfirmation \<Rightarrow>
               require (op_status v \<in> {OperationAwaitingConfirmation, OperationCancelled, OperationStale} \<and> no_execution v)
                 ''unconfirmed action has execution state''
           | Allow \<Rightarrow>
               (if op_status v = OperationAwaitingConfirmation then Some ''allowed action cannot await confirmation''
                else validate_allowed_relations v)
           | ResultOther _ \<Rightarrow> Some ''unsupported action policy result''))"

text \<open>The status and the rejection of a restored operation.\<close>

definition denied_decision :: "operation_state \<Rightarrow> decision option" where
  "denied_decision v = (case hc_PolicyDecision (op_request v) of Some d \<Rightarrow> if de_Result d = Deny then Some d else None | None \<Rightarrow> None)"

definition restored_status :: "operation_state \<Rightarrow> operation_status \<times> host_acknowledgement" where
  "restored_status v =
     (if op_ack v \<noteq> None \<and> \<not> accepted_ack v then (OperationRejected, the (op_ack v))
      else if op_outcome v \<noteq> None then (operationStatusFromRun (ao_Status (the (op_outcome v))), no_acknowledgement)
      else if denied_decision v \<noteq> None
      then (OperationRejected, deny_rejection (hc_OperationID (op_request v)) (the (denied_decision v)))
      else if op_status v = OperationCancelled \<and> op_attempts v = 0 \<and> op_ack v = None then (OperationCancelled, no_acknowledgement)
      else if accepted_ack v then
        (if op_run v = None \<and> op_status v = OperationAccepted then (OperationAccepted, no_acknowledgement)
         else (OperationOutcomeUnknown, no_acknowledgement))
      else (OperationStale, no_acknowledgement))"

end
