(* ===== verification/Control_Service.thy ===== *)
theory Control_Service
  imports Control_Operation "HOL-Library.Product_Lexorder"
begin

section \<open>The control plane service: Hosts, controllers and emergency stops (service.go, controller.go)\<close>

text \<open>
  The in-memory service that \<open>New\<close> creates. Every exported method runs under the service's lock and is a function from the
  state to a result and the next state; \<open>now\<close> is the reading of the service's clock in that call, and random identifiers are
  arguments (\<open>None\<close> when the random source fails). A map of pointers to operations is a map of operations; the pointers
  are never shared outside the map. The channel that waiting callers listen on is closed and replaced by every
  notification: \<open>sv_generation\<close> changes whenever that happens (replacements within one call, which nobody can observe
  apart, may count once). The change feed keeps every appended change; the bounded ring behind it is
  the subject of theory \<open>Change_Feed\<close>. Persisting an in-memory service clears its dirty flags and fails only when closed.
\<close>

record host_state =
  ho_registration :: host_registration
  ho_lease :: host_lease
  ho_worlds :: "(string, world_publication) gomap"

record host_gateway_state =
  gw_request :: host_gateway_request
  gw_attempts :: u32

datatype scheduling_change = ActorChange actor_control_target | OperationChange string

record service =
  sv_hosts :: "(string, host_state) gomap"
  sv_controllers :: "(actor_control_target, controller_lease) gomap"
  sv_emergencyStops :: "(actor_control_target, actor_emergency_stop) gomap"
  sv_policyEngine :: "engine option"
  sv_outcomeSinks :: "string list"
  sv_actionFlights :: "(string, string) gomap"
  sv_confirming :: "string list"
  sv_hostGateway :: "(string, host_gateway_state) gomap"
  sv_maxOperations :: nat
  sv_operationTTL :: int
  sv_operations :: "(string, operation_state) gomap"
  sv_requests :: "(string, string) gomap"
  sv_changes :: "scheduling_change list"
  sv_generation :: nat
  sv_operationDirty :: bool
  sv_checkpointDirty :: bool
  sv_timelineSequence :: u64
  sv_closed :: bool

definition defaultMaxOperations :: int where "defaultMaxOperations = 1024"
definition hardMaxOperations :: int where "hardMaxOperations = 65536"
definition defaultOperationTTL :: int where "defaultOperationTTL = 1800000"

definition newService :: "int \<Rightarrow> int \<Rightarrow> engine option \<Rightarrow> string list \<Rightarrow> service" where
  "newService maxOperations operationTTL policyEngine sinks =
     (let m = (if maxOperations \<le> 0 then defaultMaxOperations else maxOperations);
          m' = (if m > hardMaxOperations then hardMaxOperations else m);
          ttl = (if operationTTL \<le> 0 then defaultOperationTTL else operationTTL)
      in \<lparr>sv_hosts = [], sv_controllers = [], sv_emergencyStops = [], sv_policyEngine = policyEngine,
          sv_outcomeSinks = sinks, sv_actionFlights = [], sv_confirming = [], sv_hostGateway = [],
          sv_maxOperations = nat m', sv_operationTTL = ttl, sv_operations = [], sv_requests = [], sv_changes = [],
          sv_generation = 0, sv_operationDirty = False, sv_checkpointDirty = False, sv_timelineSequence = 0,
          sv_closed = False\<rparr>)"

subsection \<open>Notifications, persistence and identifiers\<close>

definition notifyLocked :: "service \<Rightarrow> service" where
  "notifyLocked s = s\<lparr>sv_generation := Suc (sv_generation s)\<rparr>"

definition notifyActorChangedLocked :: "actor_control_target \<Rightarrow> service \<Rightarrow> service" where
  "notifyActorChangedLocked t s = notifyLocked (s\<lparr>sv_changes := sv_changes s @ [ActorChange t]\<rparr>)"

definition markOperationsDirtyLocked :: "service \<Rightarrow> service" where
  "markOperationsDirtyLocked s = notifyLocked (s\<lparr>sv_operationDirty := True\<rparr>)"

definition markOperationCheckpointDirtyLocked :: "service \<Rightarrow> service" where
  "markOperationCheckpointDirtyLocked s = notifyLocked (s\<lparr>sv_checkpointDirty := True\<rparr>)"

type_synonym 'a outcome = "(control_error + 'a) \<times> service"

definition persistOperationsLocked :: "service \<Rightarrow> control_error option \<times> service" where
  "persistOperationsLocked s =
     (if sv_closed s then (Some (fault ErrClosed), s)
      else if \<not> sv_operationDirty s then (None, s)
      else (None, s\<lparr>sv_operationDirty := False, sv_checkpointDirty := False\<rparr>))"

text \<open>\<open>if err := persist(); err != nil { return err }\<close> followed by the rest of the body.\<close>

definition persisted :: "service \<Rightarrow> (service \<Rightarrow> 'a outcome) \<Rightarrow> 'a outcome" where
  "persisted s body =
     (case persistOperationsLocked s of (Some e, s') \<Rightarrow> (Inl e, s') | (None, s') \<Rightarrow> body s')"

definition control_newID :: "string \<Rightarrow> string option \<Rightarrow> control_error + string" where
  "control_newID prefix random =
     (case random of
        None \<Rightarrow> Inl (ControlError ErrPlain ''create control plane identifier'')
      | Some hex \<Rightarrow> Inr (prefix @ ''.'' @ hex))"

subsection \<open>Changing operations\<close>

definition put_operation :: "string \<Rightarrow> operation_state \<Rightarrow> service \<Rightarrow> service" where
  "put_operation i op s = s\<lparr>sv_operations := AList.update i op (sv_operations s)\<rparr>"

definition discardOperationConfirmationLocked :: "operation_state \<Rightarrow> service \<Rightarrow> service" where
  "discardOperationConfirmationLocked op s =
     (case (sv_policyEngine s, hc_PolicyDecision (op_request op)) of
        (Some en, Some d) \<Rightarrow>
          if de_Result d \<noteq> RequireConfirmation then s
          else (case de_Confirmation d of
            None \<Rightarrow> s
          | Some challenge \<Rightarrow>
              if hc_OperationID (op_request op) \<in> set (sv_confirming s) then s
              else s\<lparr>sv_policyEngine := Some (snd (DiscardConfirmation en challenge))\<rparr>)
      | _ \<Rightarrow> s)"

definition finalizeOperationPolicyLocked :: "operation_state \<Rightarrow> bool \<Rightarrow> service \<Rightarrow> service" where
  "finalizeOperationPolicyLocked op committed s =
     (case (sv_policyEngine s, hc_PolicyDecision (op_request op)) of
        (Some en, Some d) \<Rightarrow>
          if de_Result d = Allow then s\<lparr>sv_policyEngine := Some (snd (Finalize en (de_DecisionID d) committed))\<rparr>
          else if \<not> committed then discardOperationConfirmationLocked op s
          else s
      | _ \<Rightarrow> s)"

definition recordOperationTimelineLocked :: "string \<Rightarrow> service \<Rightarrow> service" where
  "recordOperationTimelineLocked i s =
     (case map_of (sv_operations s) i of
        None \<Rightarrow> s
      | Some op \<Rightarrow>
          let (op', sequence) = record_timeline op (sv_timelineSequence s) in
          s\<lparr>sv_operations := AList.update i op' (sv_operations s), sv_timelineSequence := sequence,
            sv_changes := sv_changes s @ [OperationChange (hc_OperationID (op_request op))]\<rparr>)"

text \<open>Give an operation its new state, settle its policy decision if one is given, and record it.\<close>

definition conclude :: "string \<Rightarrow> operation_state \<Rightarrow> bool option \<Rightarrow> service \<Rightarrow> service" where
  "conclude i op committed s =
     (let s1 = put_operation i op s;
          s2 = (case committed of None \<Rightarrow> s1 | Some c \<Rightarrow> finalizeOperationPolicyLocked op c s1)
      in recordOperationTimelineLocked i s2)"

definition for_operations ::
  "(operation_state \<Rightarrow> (operation_state \<times> bool option) option) \<Rightarrow> service \<Rightarrow> service" where
  "for_operations step s =
     fold (\<lambda>(i, op) s. case step op of None \<Rightarrow> s | Some (op', committed) \<Rightarrow> conclude i op' committed s) (sv_operations s) s"

definition any_operation :: "(operation_state \<Rightarrow> (operation_state \<times> bool option) option) \<Rightarrow> service \<Rightarrow> bool" where
  "any_operation step s \<longleftrightarrow> (\<exists>(i, op) \<in> set (sv_operations s). step op \<noteq> None)"

text \<open>
  The loops over operations. Each body looks at one operation and may give it a new status and settle its policy
  decision, or ask for its cancellation; \<open>for_operations\<close> applies such a body to all operations.
\<close>

definition stale_or_cancel :: "int \<Rightarrow> bool \<Rightarrow> operation_status \<Rightarrow> operation_state \<Rightarrow> operation_state \<times> bool option" where
  "stale_or_cancel now undelivered status op =
     (if undelivered then (op\<lparr>op_status := status, op_updatedAt := now\<rparr>, Some False)
      else (op\<lparr>op_cancel := True, op_updatedAt := now\<rparr>, None))"

definition fence_authority_step ::
  "int \<Rightarrow> string \<Rightarrow> string \<Rightarrow> world_publication \<Rightarrow> operation_state \<Rightarrow> (operation_state \<times> bool option) option" where
  "fence_authority_step now hostID worldID publication op =
     (if hc_HostID (op_request op) \<noteq> hostID \<or> hc_WorldID (op_request op) \<noteq> worldID \<or> completeOperation op \<or> accepted_ack op
      then None
      else case hc_Binding (op_request op) of
        None \<Rightarrow> None
      | Some binding \<Rightarrow>
          if map_of (rev (map (\<lambda>a. (ap_ActorID a, da_Revision (effectiveAuthority a))) (wp_Actors publication)))
               (hc_ActorID (op_request op)) = Some (cb_AuthorityRevision binding)
          then None
          else Some (stale_or_cancel now (op_attempts op = 0) OperationStale op))"

definition fenceSupersededAuthorityLocked :: "int \<Rightarrow> string \<Rightarrow> string \<Rightarrow> world_publication \<Rightarrow> service \<Rightarrow> service" where
  "fenceSupersededAuthorityLocked now hostID worldID publication s =
     (let step = fence_authority_step now hostID worldID publication; s' = for_operations step s in
      if any_operation step s then markOperationsDirtyLocked s' else s')"

definition fence_controller_step :: "string \<Rightarrow> int \<Rightarrow> operation_state \<Rightarrow> (operation_state \<times> bool option) option" where
  "fence_controller_step leaseID now op =
     (case hc_Binding (op_request op) of
        None \<Rightarrow> None
      | Some binding \<Rightarrow>
          if cb_ControllerLeaseID binding \<noteq> leaseID \<or> completeOperation op then None
          else Some (stale_or_cancel now (op_attempts op = 0 \<and> op_ack op = None) OperationStale op))"

definition fenceControllerOperationsLocked :: "string \<Rightarrow> int \<Rightarrow> service \<Rightarrow> service" where
  "fenceControllerOperationsLocked leaseID now s = for_operations (fence_controller_step leaseID now) s"

definition cancel_actor_step :: "actor_control_target \<Rightarrow> int \<Rightarrow> operation_state \<Rightarrow> (operation_state \<times> bool option) option" where
  "cancel_actor_step key now op =
     (if hc_HostID (op_request op) \<noteq> at_HostID key \<or> hc_WorldID (op_request op) \<noteq> at_WorldID key
         \<or> hc_ActorID (op_request op) \<noteq> at_ActorID key \<or> completeOperation op
      then None
      else Some (stale_or_cancel now (op_attempts op = 0 \<and> op_ack op = None) OperationCancelled op))"

definition cancelActorOperationsLocked :: "actor_control_target \<Rightarrow> int \<Rightarrow> service \<Rightarrow> service" where
  "cancelActorOperationsLocked key now s = for_operations (cancel_actor_step key now) s"

definition lose_host :: "int \<Rightarrow> operation_state \<Rightarrow> operation_state \<times> bool option" where
  "lose_host now op =
     (if accepted_ack op then (op\<lparr>op_status := OperationOutcomeUnknown, op_updatedAt := now\<rparr>, Some True)
      else (op\<lparr>op_status := OperationStale, op_updatedAt := now\<rparr>, Some False))"

definition expire_host_step :: "string \<Rightarrow> int \<Rightarrow> operation_state \<Rightarrow> (operation_state \<times> bool option) option" where
  "expire_host_step hostID now op =
     (if hc_HostID (op_request op) \<noteq> hostID \<or> completeOperation op then None
      else if accepted_ack op \<and> op_status op = OperationOutcomeUnknown then None
      else if \<not> accepted_ack op \<and> op_status op = OperationStale then None
      else Some (lose_host now op))"

definition expireHostOperationsLocked :: "string \<Rightarrow> int \<Rightarrow> service \<Rightarrow> service" where
  "expireHostOperationsLocked hostID now s =
     (let step = expire_host_step hostID now; s' = for_operations step s in
      if any_operation step s then markOperationsDirtyLocked s' else s')"

subsection \<open>Host leases\<close>

definition lease_live :: "int \<Rightarrow> host_state \<Rightarrow> bool" where
  "lease_live now h \<longleftrightarrow> hl_ExpiresAt (ho_lease h) > now"

definition requireLeaseLocked :: "int \<Rightarrow> service \<Rightarrow> string \<Rightarrow> string \<Rightarrow> control_error + host_state" where
  "requireLeaseLocked now s hostID leaseID =
     (case map_of (sv_hosts s) hostID of
        None \<Rightarrow> Inl (fault ErrLeaseExpired)
      | Some h \<Rightarrow>
          if hl_LeaseID (ho_lease h) \<noteq> leaseID then Inl (fault ErrLeaseExpired)
          else if \<not> lease_live now h then Inl (fault ErrLeaseExpired)
          else Inr h)"

definition put_host :: "string \<Rightarrow> host_state \<Rightarrow> service \<Rightarrow> service" where
  "put_host i h s = s\<lparr>sv_hosts := AList.update i h (sv_hosts s)\<rparr>"

definition extend_lease :: "int \<Rightarrow> u32 \<Rightarrow> host_state \<Rightarrow> host_state" where
  "extend_lease now ttl h =
     h\<lparr>ho_registration := (ho_registration h)\<lparr>hg_LeaseTTLMillis := ttl\<rparr>,
       ho_lease := (ho_lease h)\<lparr>hl_ExpiresAt := now + uint ttl\<rparr>\<rparr>"

text \<open>The waiting callers of a gateway request get an error; here only the map matters.\<close>

definition failHostGatewayLocked :: "string \<Rightarrow> service \<Rightarrow> service" where
  "failHostGatewayLocked hostID s =
     s\<lparr>sv_hostGateway := filter (\<lambda>(i, g). at_HostID (gr_Target (gw_request g)) \<noteq> hostID) (sv_hostGateway s)\<rparr>"

definition install_host :: "int \<Rightarrow> host_registration \<Rightarrow> string option \<Rightarrow> service \<Rightarrow> host_lease outcome" where
  "install_host now request random s =
     (case control_newID ''lease'' random of
        Inl e \<Rightarrow> (Inl e, s)
      | Inr leaseID \<Rightarrow>
          let lease = \<lparr>hl_HostID = hg_HostID request, hl_InstanceID = hg_InstanceID request, hl_LeaseID = leaseID,
                       hl_ExpiresAt = now + uint (hg_LeaseTTLMillis request)\<rparr>
          in (Inr lease, put_host (hg_HostID request) \<lparr>ho_registration = request, ho_lease = lease, ho_worlds = []\<rparr> s))"

definition RegisterHost :: "int \<Rightarrow> service \<Rightarrow> host_registration \<Rightarrow> string option \<Rightarrow> host_lease outcome" where
  "RegisterHost now s request random =
     (case validateRegistration request of
        Some e \<Rightarrow> (Inl e, s)
      | None \<Rightarrow>
          persisted s (\<lambda>s.
            case map_of (sv_hosts s) (hg_HostID request) of
              None \<Rightarrow> install_host now request random s
            | Some h \<Rightarrow>
                if lease_live now h \<and> hg_InstanceID (ho_registration h) \<noteq> hg_InstanceID request
                then (Inl (ControlError ErrLeaseConflict (''host '' @ hg_HostID request @ '' is already live'')), s)
                else if lease_live now h then
                  (if hg_Manifest (ho_registration h) \<noteq> hg_Manifest request
                   then (Inl (ControlError ErrLeaseConflict ''live host manifest changed''), s)
                   else let h' = extend_lease now (hg_LeaseTTLMillis request) h
                        in (Inr (ho_lease h'), put_host (hg_HostID request) h' s))
                else
                  persisted (failHostGatewayLocked (hg_HostID request) (expireHostOperationsLocked (hg_HostID request) now s))
                    (install_host now request random)))"

definition RenewHost :: "int \<Rightarrow> service \<Rightarrow> string \<Rightarrow> string \<Rightarrow> host_lease outcome" where
  "RenewHost now s hostID leaseID =
     persisted s (\<lambda>s.
       case requireLeaseLocked now s hostID leaseID of
         Inl e \<Rightarrow> (Inl e, s)
       | Inr h \<Rightarrow>
           let h' = extend_lease now (hg_LeaseTTLMillis (ho_registration h)) h
           in (Inr (ho_lease h'), put_host hostID h' s))"

definition finish :: "'a \<Rightarrow> service \<Rightarrow> 'a outcome" where
  "finish v s = persisted s (\<lambda>s. (Inr v, s))"

definition UnregisterHost :: "int \<Rightarrow> service \<Rightarrow> string \<Rightarrow> string \<Rightarrow> unit outcome" where
  "UnregisterHost now s hostID leaseID =
     persisted s (\<lambda>s.
       case requireLeaseLocked now s hostID leaseID of
         Inl e \<Rightarrow> (Inl e, s)
       | Inr h \<Rightarrow>
           let s1 = put_host hostID (h\<lparr>ho_lease := (ho_lease h)\<lparr>hl_ExpiresAt := now\<rparr>\<rparr>) s;
               s2 = failHostGatewayLocked hostID (expireHostOperationsLocked hostID now s1)
           in finish () (notifyActorChangedLocked (ActorControlTarget hostID '''' '''') s2))"

subsection \<open>Controller leases\<close>

definition invalidateControllerLocked :: "actor_control_target \<Rightarrow> int \<Rightarrow> service \<Rightarrow> service" where
  "invalidateControllerLocked key now s =
     (case map_of (sv_controllers s) key of
        None \<Rightarrow> s
      | Some lease \<Rightarrow>
          markOperationsDirtyLocked (fenceControllerOperationsLocked (cl_LeaseID lease) now
            (s\<lparr>sv_controllers := AList.delete key (sv_controllers s)\<rparr>)))"

definition expireControllerLocked :: "actor_control_target \<Rightarrow> int \<Rightarrow> service \<Rightarrow> service" where
  "expireControllerLocked key now s =
     (case map_of (sv_controllers s) key of
        None \<Rightarrow> s
      | Some lease \<Rightarrow> if cl_ExpiresAt lease > now then s else invalidateControllerLocked key now s)"

definition expireControllersLocked :: "int \<Rightarrow> service \<Rightarrow> service" where
  "expireControllersLocked now s = fold (\<lambda>key. expireControllerLocked key now) (map fst (sv_controllers s)) s"

definition controllerMatchesActor :: "controller_lease \<Rightarrow> actor_publication \<Rightarrow> bool" where
  "controllerMatchesActor lease actor \<longleftrightarrow>
     (let authority = effectiveAuthority actor in
      cl_ActorID lease = ap_ActorID actor \<and> cl_Epoch lease = ap_Epoch actor
      \<and> cl_Source lease = da_Source authority \<and> cl_PersonaMode lease = da_PersonaMode authority
      \<and> cl_AuthorityRevision lease = da_Revision authority
      \<and> (da_Source authority \<noteq> DecisionExternal \<or> cl_PrincipalID lease = da_ControllerPrincipalID authority))"

definition reconcile_step :: "int \<Rightarrow> string \<Rightarrow> string \<Rightarrow> world_publication \<Rightarrow> actor_control_target \<times> controller_lease \<Rightarrow> service \<Rightarrow> service" where
  "reconcile_step now hostID worldID publication = (\<lambda>(key, lease) s.
     if at_HostID key \<noteq> hostID \<or> at_WorldID key \<noteq> worldID then s
     else case map_of (rev (map (\<lambda>a. (ap_ActorID a, a)) (wp_Actors publication))) (at_ActorID key) of
       None \<Rightarrow> invalidateControllerLocked key now s
     | Some actor \<Rightarrow> if controllerMatchesActor lease actor then s else invalidateControllerLocked key now s)"

definition reconcileControllersLocked :: "int \<Rightarrow> string \<Rightarrow> string \<Rightarrow> world_publication \<Rightarrow> service \<Rightarrow> service" where
  "reconcileControllersLocked now hostID worldID publication s =
     fold (reconcile_step now hostID worldID publication) (sv_controllers s) s"

definition store_world :: "int \<Rightarrow> string \<Rightarrow> world_publication \<Rightarrow> service \<Rightarrow> service" where
  "store_world now hostID publication s =
     (let s1 = fenceSupersededAuthorityLocked now hostID (wp_WorldID publication) publication s;
          s2 = reconcileControllersLocked now hostID (wp_WorldID publication) publication s1;
          s3 = (case map_of (sv_hosts s2) hostID of
                  None \<Rightarrow> s2
                | Some h \<Rightarrow> put_host hostID (h\<lparr>ho_worlds := AList.update (wp_WorldID publication) publication (ho_worlds h)\<rparr>) s2)
      in notifyActorChangedLocked (ActorControlTarget hostID (wp_WorldID publication) '''') s3)"

definition PublishWorld ::
  "go_env \<Rightarrow> publication_encoder \<Rightarrow> int \<Rightarrow> service \<Rightarrow> string \<Rightarrow> string \<Rightarrow> world_publication \<Rightarrow> unit outcome" where
  "PublishWorld env encode now s hostID leaseID publication =
     (case requireLeaseLocked now s hostID leaseID of
        Inl e \<Rightarrow> (Inl e, s)
      | Inr h \<Rightarrow>
          (case validatePublication env encode publication (hg_Manifest (ho_registration h)) hostID of
             Some e \<Rightarrow> (Inl e, s)
           | None \<Rightarrow>
               (case map_of (ho_worlds h) (wp_WorldID publication) of
                  Some existing \<Rightarrow>
                    if wp_Sequence publication < wp_Sequence existing
                    then (Inl (ControlError ErrStale ''publication sequence moved backwards''), s)
                    else if wp_Sequence publication = wp_Sequence existing then
                      (if existing = publication then (Inr (), s)
                       else (Inl (ControlError ErrStale ''publication changed without a new sequence''), s))
                    else (Inr (), store_world now hostID publication s)
                | None \<Rightarrow>
                    if length (ho_worlds h) \<ge> maxWorldsPerHost
                    then (Inl (control_invalid ''world_id'' ''host already contains 64 worlds''), s)
                    else (Inr (), store_world now hostID publication s))))"

subsection \<open>Access to actors\<close>

definition findWorldLocked :: "service \<Rightarrow> string \<Rightarrow> string \<Rightarrow> control_error + host_state \<times> world_publication" where
  "findWorldLocked s hostID worldID =
     (case map_of (sv_hosts s) hostID of
        None \<Rightarrow> Inl (fault ErrNotFound)
      | Some h \<Rightarrow>
          (case map_of (ho_worlds h) worldID of
             None \<Rightarrow> Inl (fault ErrNotFound)
           | Some w \<Rightarrow> Inr (h, w)))"

definition find_actor :: "principal \<Rightarrow> world_publication \<Rightarrow> string \<Rightarrow> string \<Rightarrow> control_error + actor_publication" where
  "find_actor p w actorID requiredScope =
     (case find (\<lambda>a. ap_ActorID a = actorID) (wp_Actors w) of
        None \<Rightarrow> Inl (fault ErrNotFound)
      | Some a \<Rightarrow> if canAccessActor p a requiredScope then Inr a else Inl (fault ErrForbidden))"

definition authorizeActorLocked ::
  "int \<Rightarrow> service \<Rightarrow> principal \<Rightarrow> actor_control_target \<Rightarrow> string \<Rightarrow> actor_publication outcome" where
  "authorizeActorLocked now s p t requiredScope =
     (case findWorldLocked s (at_HostID t) (at_WorldID t) of
        Inl e \<Rightarrow> (Inl e, s)
      | Inr (h, w) \<Rightarrow>
          if \<not> lease_live now h then (Inl (fault ErrUnavailable), expireHostOperationsLocked (at_HostID t) now s)
          else (find_actor p w (at_ActorID t) requiredScope, s))"

definition authorizeActorSnapshotLocked :: "service \<Rightarrow> principal \<Rightarrow> actor_control_target \<Rightarrow> string \<Rightarrow> control_error + actor_publication" where
  "authorizeActorSnapshotLocked s p t requiredScope =
     ebind (findWorldLocked s (at_HostID t) (at_WorldID t)) (\<lambda>(h, w). find_actor p w (at_ActorID t) requiredScope)"

definition invalid_principal :: "principal \<Rightarrow> control_error option" where
  "invalid_principal p = map_option (\<lambda>e. ControlError ErrInvalid (''principal: '' @ error_text e)) (ValidatePrincipal p)"

definition controllerPrincipalAllowed :: "principal \<Rightarrow> decision_authority \<Rightarrow> bool" where
  "controllerPrincipalAllowed p authority =
     (if da_Source authority = DecisionInternal then hasScope p ScopeHostAdmin
      else da_Source authority = DecisionExternal \<and> da_ControllerPrincipalID authority = pr_ID p)"

definition store_controller :: "actor_control_target \<Rightarrow> controller_lease \<Rightarrow> service \<Rightarrow> controller_lease outcome" where
  "store_controller t lease s =
     finish lease (notifyActorChangedLocked t (markOperationsDirtyLocked
       (s\<lparr>sv_controllers := AList.update t lease (sv_controllers s)\<rparr>)))"

definition new_controller_lease ::
  "int \<Rightarrow> principal \<Rightarrow> acquire_controller_input \<Rightarrow> actor_publication \<Rightarrow> string \<Rightarrow> controller_lease" where
  "new_controller_lease now p input actor leaseID = (let authority = effectiveAuthority actor in \<lparr>
     cl_LeaseID = leaseID, cl_ControllerID = ai_ControllerID input, cl_PrincipalID = pr_ID p,
     cl_HostID = at_HostID (ai_Target input), cl_WorldID = at_WorldID (ai_Target input), cl_ActorID = at_ActorID (ai_Target input),
     cl_Source = da_Source authority, cl_PersonaMode = da_PersonaMode authority, cl_AuthorityRevision = da_Revision authority,
     cl_Epoch = ap_Epoch actor, cl_AcquiredAt = now, cl_ExpiresAt = now + uint (ai_LeaseTTLMillis input)\<rparr>)"

definition same_controller :: "controller_lease \<Rightarrow> principal \<Rightarrow> acquire_controller_input \<Rightarrow> actor_publication \<Rightarrow> bool" where
  "same_controller current p input actor \<longleftrightarrow>
     (let authority = effectiveAuthority actor in
      cl_ControllerID current = ai_ControllerID input \<and> cl_PrincipalID current = pr_ID p
      \<and> cl_Source current = da_Source authority \<and> cl_PersonaMode current = da_PersonaMode authority
      \<and> cl_AuthorityRevision current = da_Revision authority \<and> cl_Epoch current = ap_Epoch actor)"

definition AcquireController ::
  "int \<Rightarrow> service \<Rightarrow> principal \<Rightarrow> acquire_controller_input \<Rightarrow> string option \<Rightarrow> controller_lease outcome" where
  "AcquireController now s p input random =
     (case first_err [validateAcquireControllerInput input, invalid_principal p] of
        Some e \<Rightarrow> (Inl e, s)
      | None \<Rightarrow>
          (case authorizeActorLocked now s p (ai_Target input) ScopeActorControl of
             (Inl e, s1) \<Rightarrow> (Inl e, s1)
           | (Inr actor, s1) \<Rightarrow>
               if \<not> controllerPrincipalAllowed p (effectiveAuthority actor) then (Inl (fault ErrForbidden), s1)
               else
                 let s2 = expireControllerLocked (ai_Target input) now s1 in
                 (case map_of (sv_controllers s2) (ai_Target input) of
                    Some current \<Rightarrow>
                      if \<not> same_controller current p input actor then (Inl (fault ErrLeaseConflict), s2)
                      else store_controller (ai_Target input) (current\<lparr>cl_ExpiresAt := now + uint (ai_LeaseTTLMillis input)\<rparr>) s2
                  | None \<Rightarrow>
                      (case control_newID ''controller-lease'' random of
                         Inl e \<Rightarrow> (Inl e, s2)
                       | Inr leaseID \<Rightarrow> store_controller (ai_Target input) (new_controller_lease now p input actor leaseID) s2))))"

definition may_use_lease :: "principal \<Rightarrow> controller_lease \<Rightarrow> bool" where
  "may_use_lease p lease \<longleftrightarrow> cl_PrincipalID lease = pr_ID p \<or> hasScope p ScopeHostAdmin"

definition RenewController ::
  "int \<Rightarrow> service \<Rightarrow> principal \<Rightarrow> actor_control_target \<Rightarrow> string \<Rightarrow> u32 \<Rightarrow> controller_lease outcome" where
  "RenewController now s p t leaseID ttl =
     (case first_err [validateActorControlTarget t, control_validateID ''lease_id'' leaseID, validateControllerLeaseTTL ttl,
                      invalid_principal p] of
        Some e \<Rightarrow> (Inl e, s)
      | None \<Rightarrow>
          let s1 = expireControllerLocked t now s in
          (case map_of (sv_controllers s1) t of
             None \<Rightarrow> (Inl (fault ErrLeaseExpired), s1)
           | Some lease \<Rightarrow>
               if cl_LeaseID lease \<noteq> leaseID then (Inl (fault ErrLeaseExpired), s1)
               else if \<not> may_use_lease p lease then (Inl (fault ErrForbidden), s1)
               else
                 (case authorizeActorLocked now s1 p t ScopeActorControl of
                    (Inl e, s2) \<Rightarrow> (Inl e, s2)
                  | (Inr actor, s2) \<Rightarrow>
                      if \<not> controllerMatchesActor lease actor
                      then (Inl (fault ErrLeaseExpired), invalidateControllerLocked t now s2)
                      else store_controller t (lease\<lparr>cl_ExpiresAt := now + uint ttl\<rparr>) s2)))"

definition ReleaseController :: "int \<Rightarrow> service \<Rightarrow> principal \<Rightarrow> actor_control_target \<Rightarrow> string \<Rightarrow> unit outcome" where
  "ReleaseController now s p t leaseID =
     (case first_err [validateActorControlTarget t, control_validateID ''lease_id'' leaseID, invalid_principal p] of
        Some e \<Rightarrow> (Inl e, s)
      | None \<Rightarrow>
          (case map_of (sv_controllers s) t of
             None \<Rightarrow> (Inl (fault ErrLeaseExpired), s)
           | Some lease \<Rightarrow>
               if cl_LeaseID lease \<noteq> leaseID then (Inl (fault ErrLeaseExpired), s)
               else if \<not> may_use_lease p lease then (Inl (fault ErrForbidden), s)
               else finish () (notifyActorChangedLocked t (invalidateControllerLocked t now s))))"

definition GetController :: "int \<Rightarrow> service \<Rightarrow> principal \<Rightarrow> actor_control_target \<Rightarrow> controller_lease outcome" where
  "GetController now s p t =
     (case first_err [validateActorControlTarget t, invalid_principal p] of
        Some e \<Rightarrow> (Inl e, s)
      | None \<Rightarrow>
          (case authorizeActorLocked now s p t ScopeActorRead of
             (Inl e, s1) \<Rightarrow> (Inl e, s1)
           | (Inr _, s1) \<Rightarrow>
               let s2 = expireControllerLocked t now s1 in
               (case map_of (sv_controllers s2) t of
                  None \<Rightarrow> (Inl (fault ErrNotFound), s2)
                | Some lease \<Rightarrow> finish lease s2)))"

definition no_stop :: "actor_control_target \<Rightarrow> actor_emergency_stop" where
  "no_stop t = \<lparr>es_Target = t, es_Active = False, es_Revision = 0, es_UpdatedBy = '''', es_UpdatedAt = 0\<rparr>"

definition stop_of :: "service \<Rightarrow> actor_control_target \<Rightarrow> actor_emergency_stop" where
  "stop_of s t = (case map_of (sv_emergencyStops s) t of None \<Rightarrow> no_stop t | Some stop \<Rightarrow> stop)"

definition SetActorEmergencyStop :: "int \<Rightarrow> service \<Rightarrow> principal \<Rightarrow> actor_control_target \<Rightarrow> bool \<Rightarrow> actor_emergency_stop outcome" where
  "SetActorEmergencyStop now s p t active =
     (case first_err [validateActorControlTarget t, invalid_principal p] of
        Some e \<Rightarrow> (Inl e, s)
      | None \<Rightarrow>
          (case authorizeActorSnapshotLocked s p t ScopeActorControl of
             Inl e \<Rightarrow> (Inl e, s)
           | Inr actor \<Rightarrow>
               if pr_ID p \<noteq> ap_OwnerPrincipalID actor \<and> \<not> hasScope p ScopeHostAdmin then (Inl (fault ErrForbidden), s)
               else
                 let current = stop_of s t in
                 if es_Active current = active \<and> es_Revision current \<noteq> 0 then (Inr current, s)
                 else
                   let stop = \<lparr>es_Target = t, es_Active = active, es_Revision = es_Revision current + 1,
                               es_UpdatedBy = pr_ID p, es_UpdatedAt = now\<rparr>;
                       s1 = s\<lparr>sv_emergencyStops := AList.update t stop (sv_emergencyStops s)\<rparr>;
                       s2 = (if active then cancelActorOperationsLocked t now s1 else s1)
                   in finish stop (notifyActorChangedLocked t (markOperationsDirtyLocked s2))))"

subsection \<open>Read models\<close>

definition actorViewLocked ::
  "int \<Rightarrow> service \<Rightarrow> string \<Rightarrow> string \<Rightarrow> string \<Rightarrow> host_lease \<Rightarrow> bool \<Rightarrow> actor_publication \<Rightarrow> actor_view" where
  "actorViewLocked now s hostID adapterID worldID lease online actor =
     (let key = ActorControlTarget hostID worldID (ap_ActorID actor); stop = stop_of s key in \<lparr>
        av_HostID = hostID, av_AdapterID = adapterID, av_WorldID = worldID, av_ActorID = ap_ActorID actor,
        av_OwnerPrincipalID = ap_OwnerPrincipalID actor, av_DisplayName = ap_DisplayName actor,
        av_ObservationSeq = ap_ObservationSeq actor, av_Epoch = ap_Epoch actor, av_Authority = effectiveAuthority actor,
        av_Controller = (case map_of (sv_controllers s) key of
            None \<Rightarrow> None
          | Some lease \<Rightarrow> if cl_ExpiresAt lease > now then Some lease else None),
        av_EmergencyStopped = es_Active stop, av_EmergencyStopRevision = es_Revision stop,
        av_State = ap_State actor, av_Online = online, av_LeaseExpiresAt = hl_ExpiresAt lease\<rparr>)"

definition host_actor_view :: "int \<Rightarrow> service \<Rightarrow> string \<Rightarrow> string \<Rightarrow> host_state \<Rightarrow> actor_publication \<Rightarrow> actor_view" where
  "host_actor_view now s hostID worldID h actor =
     actorViewLocked now s hostID (hm_AdapterID (hg_Manifest (ho_registration h))) worldID (ho_lease h) (lease_live now h) actor"

definition ListWorlds :: "int \<Rightarrow> service \<Rightarrow> principal \<Rightarrow> control_error + world_view list" where
  "ListWorlds now s p =
     guard_err (invalid_principal p)
       (Inr (sort_key (\<lambda>v. (wv_HostID v, wv_WorldID v))
          (concat (map (\<lambda>(hostID, h).
             map (\<lambda>(_, w). \<lparr>wv_HostID = hostID, wv_WorldID = wp_WorldID w, wv_DisplayName = wp_DisplayName w,
                 wv_Sequence = wp_Sequence w, wv_Online = lease_live now h, wv_LeaseExpiresAt = hl_ExpiresAt (ho_lease h)\<rparr>)
               (filter (\<lambda>(_, w). hasScope p ScopeHostAdmin \<or> publicationVisible p w) (ho_worlds h)))
           (sv_hosts s)))))"

definition ListActors :: "int \<Rightarrow> service \<Rightarrow> principal \<Rightarrow> string \<Rightarrow> string \<Rightarrow> control_error + actor_view list" where
  "ListActors now s p hostID worldID =
     guard_err (invalid_principal p)
       (ebind (findWorldLocked s hostID worldID) (\<lambda>(h, w).
          Inr (sort_key av_ActorID (map (host_actor_view now s hostID worldID h)
                 (filter (\<lambda>a. canAccessActor p a ScopeActorRead) (wp_Actors w))))))"

definition getActorLocked :: "int \<Rightarrow> service \<Rightarrow> principal \<Rightarrow> string \<Rightarrow> string \<Rightarrow> string \<Rightarrow> control_error + actor_view" where
  "getActorLocked now s p hostID worldID actorID =
     ebind (findWorldLocked s hostID worldID) (\<lambda>(h, w).
       ebind (find_actor p w actorID ScopeActorRead) (\<lambda>a. Inr (host_actor_view now s hostID worldID h a)))"

definition GetActor :: "int \<Rightarrow> service \<Rightarrow> principal \<Rightarrow> string \<Rightarrow> string \<Rightarrow> string \<Rightarrow> control_error + actor_view" where
  "GetActor now s p hostID worldID actorID =
     guard_err (invalid_principal p) (getActorLocked now s p hostID worldID actorID)"

definition actorCursorChanged :: "actor_view \<Rightarrow> wait_actor_input \<Rightarrow> bool" where
  "actorCursorChanged v input \<longleftrightarrow>
     av_ObservationSeq v \<noteq> wa_AfterObservationSeq input
     \<or> da_Revision (av_Authority v) \<noteq> wa_AfterAuthorityRevision input
     \<or> (case av_Controller v of None \<Rightarrow> '''' | Some lease \<Rightarrow> cl_LeaseID lease) \<noteq> wa_AfterControllerLeaseID input
     \<or> av_EmergencyStopRevision v \<noteq> wa_AfterEmergencyStopRevision input"

definition ValidateHostActorSnapshot ::
  "int \<Rightarrow> service \<Rightarrow> string \<Rightarrow> string \<Rightarrow> string \<Rightarrow> string \<Rightarrow> control_error + host_actor_snapshot" where
  "ValidateHostActorSnapshot now s hostID leaseID worldID actorID =
     guard_err (first_err [
         control_validateID ''host_id'' hostID, control_validateID ''lease_id'' leaseID,
         control_validateID ''world_id'' worldID, control_validateID ''actor_id'' actorID])
     (ebind (requireLeaseLocked now s hostID leaseID) (\<lambda>h.
        case map_of (ho_worlds h) worldID of
          None \<Rightarrow> Inl (fault ErrNotFound)
        | Some w \<Rightarrow>
            (case find (\<lambda>a. ap_ActorID a = actorID) (wp_Actors w) of
               None \<Rightarrow> Inl (fault ErrNotFound)
             | Some a \<Rightarrow> Inr \<lparr>hs_Epoch = ap_Epoch a, hs_ObservationSequence = ap_ObservationSeq a\<rparr>)))"

end
