(* ===== verification/Control_Delivery.thy ===== *)
theory Control_Delivery
  imports Control_Service
begin

section \<open>Delivery, reports and cancellation of operations (operation.go, outcome_delivery.go, remote_action_host.go)\<close>

text \<open>
  What a Host does with its operations: it polls for work, acknowledges, reports progress and the terminal outcome. What
  a controller does: look at, list and cancel operations. And the gateway requests by which the service asks a Host to
  bind an action or to give a snapshot.
\<close>

subsection \<open>Expiry and pruning\<close>

definition ttl_step :: "int \<Rightarrow> int \<Rightarrow> operation_state \<Rightarrow> (operation_state \<times> bool option) option" where
  "ttl_step now ttl op =
     (if completeOperation op \<or> op_updatedAt op > now - ttl then None else Some (lose_host now op))"

definition expireOperationByTTLLocked :: "string \<Rightarrow> operation_state \<Rightarrow> int \<Rightarrow> service \<Rightarrow> bool \<times> service" where
  "expireOperationByTTLLocked i op now s =
     (case ttl_step now (sv_operationTTL s) op of
        None \<Rightarrow> (False, s)
      | Some (op', committed) \<Rightarrow> (True, conclude i op' committed s))"

definition refreshOperationHostLocked :: "string \<Rightarrow> operation_state \<Rightarrow> int \<Rightarrow> service \<Rightarrow> service" where
  "refreshOperationHostLocked i op now s =
     (case expireOperationByTTLLocked i op now s of
        (True, s') \<Rightarrow> markOperationsDirtyLocked s'
      | (False, _) \<Rightarrow>
          (case map_of (sv_hosts s) (hc_HostID (op_request op)) of
             None \<Rightarrow> s
           | Some h \<Rightarrow> if lease_live now h then s else expireHostOperationsLocked (hc_HostID (op_request op)) now s))"

definition prunable :: "int \<Rightarrow> operation_state \<Rightarrow> bool" where
  "prunable cutoff op \<longleftrightarrow>
     completeOperation op \<and> op_status op \<noteq> OperationOutcomeUnknown \<and> \<not> hasPendingOutcome op \<and> \<not> op_updatedAt op > cutoff
     \<and> op_children op = []"

text \<open>One iteration of the second loop of \<open>pruneOperationsLocked\<close>: the operation is read from the map as it is then.\<close>

definition prune_step :: "int \<Rightarrow> int \<Rightarrow> string \<Rightarrow> service \<Rightarrow> service" where
  "prune_step now cutoff i s =
     (case map_of (sv_operations s) i of
        None \<Rightarrow> s
      | Some op \<Rightarrow>
          if \<not> prunable cutoff op then s
          else
            let s1 = s\<lparr>sv_operations := AList.delete i (sv_operations s),
                       sv_requests := AList.delete (op_idempotency op) (sv_requests s)\<rparr>
            in (case map_of (sv_operations s1) (hc_ParentOperationID (op_request op)) of
                  None \<Rightarrow> s1
                | Some parent \<Rightarrow>
                    put_operation (hc_ParentOperationID (op_request op))
                      (parent\<lparr>op_children := filter (\<lambda>c. c \<noteq> i) (op_children parent), op_updatedAt := now,
                              op_persistenceRevision := op_persistenceRevision parent + 1\<rparr>) s1))"

definition pruneOperationsLocked :: "int \<Rightarrow> service \<Rightarrow> service" where
  "pruneOperationsLocked now s =
     (let cutoff = now - sv_operationTTL s;
          step = ttl_step now (sv_operationTTL s);
          s1 = for_operations step s;
          s2 = fold (prune_step now cutoff) (map fst (sv_operations s1)) s1
      in if any_operation step s \<or> length (sv_operations s2) \<noteq> length (sv_operations s1)
         then markOperationsDirtyLocked s2 else s2)"

definition lookupOperationLocked :: "service \<Rightarrow> string \<Rightarrow> control_error + operation_state" where
  "lookupOperationLocked s i =
     (case map_of (sv_operations s) i of None \<Rightarrow> Inl (fault ErrNotFound) | Some op \<Rightarrow> Inr op)"

definition hostOperationLocked :: "service \<Rightarrow> string \<Rightarrow> string \<Rightarrow> control_error + operation_state" where
  "hostOperationLocked s hostID i =
     ebind (lookupOperationLocked s i) (\<lambda>op.
       if hc_HostID (op_request op) \<noteq> hostID then Inl (fault ErrForbidden) else Inr op)"

subsection \<open>Polling\<close>

definition maxHostPollItems :: nat where "maxHostPollItems = 64"
definition maxPendingHostGatewayRequests :: nat where "maxPendingHostGatewayRequests = 1024"

definition next_attempt :: "u32 \<Rightarrow> u32" where
  "next_attempt n = (if n < - 1 then n + 1 else n)"

definition collectHostGatewayWorkLocked :: "string \<Rightarrow> nat \<Rightarrow> service \<Rightarrow> host_gateway_delivery list \<times> service" where
  "collectHostGatewayWorkLocked hostID limit s =
     (let states = take limit (sort_key (\<lambda>(i, g). (gr_SubmittedAt (gw_request g), gr_GatewayRequestID (gw_request g)))
                     (filter (\<lambda>(i, g). at_HostID (gr_Target (gw_request g)) = hostID) (sv_hostGateway s)));
          attempted = map (\<lambda>(i, g). (i, g\<lparr>gw_attempts := next_attempt (gw_attempts g)\<rparr>)) states
      in (map (\<lambda>(i, g). \<lparr>gd_Request = gw_request g, gd_DeliveryAttempt = gw_attempts g\<rparr>) attempted,
          s\<lparr>sv_hostGateway := fold (\<lambda>(i, g). AList.update i g) attempted (sv_hostGateway s)\<rparr>))"

definition delivery_order :: "operation_state \<Rightarrow> nat \<times> int \<times> string" where
  "delivery_order op = (deliveryPriority (op_status op), op_createdAt op, hc_OperationID (op_request op))"

definition deliverable :: "operation_state \<Rightarrow> bool" where
  "deliverable op \<longleftrightarrow> \<not> op_cancel op \<and> op_status op \<in> {OperationQueued, OperationDelivered, OperationAccepted}"

definition delivered_now :: "int \<Rightarrow> operation_state \<Rightarrow> operation_state" where
  "delivered_now now op =
     op\<lparr>op_attempts := next_attempt (op_attempts op),
        op_status := (if op_ack op = None then OperationDelivered else op_status op), op_updatedAt := now\<rparr>"

text \<open>The loop that delivers: \<open>budget\<close> items may still be added to the batch.\<close>

fun deliver_loop :: "int \<Rightarrow> nat \<Rightarrow> (string \<times> operation_state) list \<Rightarrow> service \<Rightarrow> host_control_delivery list \<times> service" where
  "deliver_loop now budget [] s = ([], s)"
| "deliver_loop now budget ((i, op) # rest) s =
     (if budget = 0 then ([], s)
      else if \<not> deliverable op then deliver_loop now budget rest s
      else
        let op' = delivered_now now op;
            (deliveries, s') = deliver_loop now (budget - 1) rest (conclude i op' None s)
        in (\<lparr>hd_Request = op_request op', hd_DeliveryAttempt = op_attempts op'\<rparr> # deliveries, s'))"

definition collectHostWorkLocked :: "int \<Rightarrow> string \<Rightarrow> nat \<Rightarrow> service \<Rightarrow> host_control_batch \<times> service" where
  "collectHostWorkLocked now hostID limit s =
     (let operations = sort_key (\<lambda>(i, op). delivery_order op)
                         (filter (\<lambda>(i, op). hc_HostID (op_request op) = hostID) (sv_operations s));
          cancellations = take limit (map (\<lambda>(i, op). hc_OperationID (op_request op))
                            (filter (\<lambda>(i, op). op_cancel op \<and> \<not> completeOperation op) operations));
          (gateway, s1) = collectHostGatewayWorkLocked hostID (limit - length cancellations) s;
          (requests, s2) = deliver_loop now (limit - length cancellations - length gateway) operations s1
      in (\<lparr>hb_GatewayRequests = gateway, hb_Requests = requests, hb_Cancellations = cancellations\<rparr>,
          if requests \<noteq> [] then markOperationCheckpointDirtyLocked s2 else s2))"

lemma collectHostWork_parts:
  fixes s :: service and hostID :: string
  defines "ops \<equiv> sort_key (\<lambda>(i, op). delivery_order op) (filter (\<lambda>(i, op). hc_HostID (op_request op) = hostID) (sv_operations s))"
  obtains k m where "hb_Requests (fst (collectHostWorkLocked now hostID limit s)) = fst (deliver_loop now m ops (snd (collectHostGatewayWorkLocked hostID k s)))"
    and "snd (collectHostWorkLocked now hostID limit s) = (let s2 = snd (deliver_loop now m ops (snd (collectHostGatewayWorkLocked hostID k s)))
      in if hb_Requests (fst (collectHostWorkLocked now hostID limit s)) \<noteq> [] then markOperationCheckpointDirtyLocked s2 else s2)"
proof -
  define cs where "cs = take limit (map (\<lambda>(i, op). hc_OperationID (op_request op)) (filter (\<lambda>(i, op). op_cancel op \<and> \<not> completeOperation op) ops))"
  define k where "k = limit - length cs"
  obtain gateway s1 where g: "collectHostGatewayWorkLocked hostID k s = (gateway, s1)" by (rule prod.exhaust)
  obtain requests s2 where d: "deliver_loop now (k - length gateway) ops s1 = (requests, s2)" by (rule prod.exhaust)
  have "collectHostWorkLocked now hostID limit s = (\<lparr>hb_GatewayRequests = gateway, hb_Requests = requests, hb_Cancellations = cs\<rparr>,
      if requests \<noteq> [] then markOperationCheckpointDirtyLocked s2 else s2)"
    unfolding collectHostWorkLocked_def Let_def ops_def [symmetric] cs_def [symmetric] k_def [symmetric] g d prod.case ..
  then show thesis using that [of "k - length gateway" k] by (simp add: g d Let_def)
qed

text \<open>One pass of the loop of \<open>PollHost\<close>: a batch, or \<open>None\<close> when the caller has to wait for a change.\<close>

definition poll_host :: "int \<Rightarrow> service \<Rightarrow> string \<Rightarrow> string \<Rightarrow> int \<Rightarrow> host_control_batch option outcome" where
  "poll_host now s hostID leaseID limit =
     (if limit \<le> 0 \<or> limit > int maxHostPollItems then (Inl (control_invalid ''limit'' ''must be between 1 and 64''), s)
      else case requireLeaseLocked now s hostID leaseID of
        Inl e \<Rightarrow> (Inl e, s)
      | Inr h \<Rightarrow>
          persisted (pruneOperationsLocked now (expireControllersLocked now s)) (\<lambda>s1.
            let (batch, s2) = collectHostWorkLocked now hostID (nat limit) s1 in
            if hb_GatewayRequests batch \<noteq> [] \<or> hb_Requests batch \<noteq> [] \<or> hb_Cancellations batch \<noteq> []
            then finish (Some batch) s2
            else (Inr None, s2)))"

subsection \<open>Reports of a Host\<close>

definition AcknowledgeHost :: "int \<Rightarrow> service \<Rightarrow> string \<Rightarrow> string \<Rightarrow> host_acknowledgement \<Rightarrow> unit outcome" where
  "AcknowledgeHost now s hostID leaseID ack =
     (case validateAcknowledgement ack of
        Some e \<Rightarrow> (Inl e, s)
      | None \<Rightarrow>
          persisted s (\<lambda>s.
            case requireLeaseLocked now s hostID leaseID of
              Inl e \<Rightarrow> (Inl e, s)
            | Inr h \<Rightarrow>
                (case hostOperationLocked s hostID (ha_OperationID ack) of
                   Inl e \<Rightarrow> (Inl e, s)
                 | Inr op \<Rightarrow>
                     (case op_ack op of
                        Some old \<Rightarrow>
                          if old = ack then finish () s
                          else (Inl (ControlError ErrConflict ''acknowledgement changed''), s)
                      | None \<Rightarrow>
                          if op_status op \<noteq> OperationDelivered
                          then (Inl (ControlError ErrConflict ''operation was not delivered''), s)
                          else
                            let (op', committed) =
                                  (if ha_Accepted ack
                                   then (op\<lparr>op_ack := Some ack, op_updatedAt := now, op_status := OperationAccepted\<rparr>, None)
                                   else (op\<lparr>op_ack := Some ack, op_updatedAt := now, op_status := OperationRejected,
                                            op_rejection := ack\<rparr>, Some False))
                            in finish () (markOperationsDirtyLocked (conclude (ha_OperationID ack) op' committed s))))))"

definition run_conflict :: "action_run option \<Rightarrow> action_run \<Rightarrow> control_error option" where
  "run_conflict old run =
     (case old of
        None \<Rightarrow> require (validInitialRunStatus (ar_Status run))
          (ControlError ErrConflict (''initial action run status '' @ action_run_status_string (ar_Status run)))
      | Some r \<Rightarrow>
          first_err [
            require (\<not> ar_Progress run < ar_Progress r) (ControlError ErrStale ''action progress moved backwards''),
            require (tp_Clock (ar_UpdatedAt run) = tp_Clock (ar_UpdatedAt r)
                     \<and> \<not> tp_Value (ar_UpdatedAt run) < tp_Value (ar_UpdatedAt r))
              (ControlError ErrStale ''action timepoint moved backwards''),
            require (ar_Status run = ar_Status r \<or> CanTransitionActionRun (ar_Status r) (ar_Status run))
              (ControlError ErrConflict (''action run cannot transition from '' @ action_run_status_string (ar_Status r)
                 @ '' to '' @ action_run_status_string (ar_Status run)))])"

definition ReportHostRun :: "int \<Rightarrow> service \<Rightarrow> string \<Rightarrow> string \<Rightarrow> action_run \<Rightarrow> unit outcome" where
  "ReportHostRun now s hostID leaseID run =
     (case map_option (\<lambda>e. ControlError ErrInvalid (''run: '' @ error_text e)) (ValidateActionRun run) of
        Some e \<Rightarrow> (Inl e, s)
      | None \<Rightarrow>
          persisted s (\<lambda>s.
            case requireLeaseLocked now s hostID leaseID of
              Inl e \<Rightarrow> (Inl e, s)
            | Inr h \<Rightarrow>
                (case hostOperationLocked s hostID (ar_OperationID run) of
                   Inl e \<Rightarrow> (Inl e, s)
                 | Inr op \<Rightarrow>
                     if op_outcome op \<noteq> None then (Inl (ControlError ErrConflict ''terminal result is already recorded''), s)
                     else if \<not> accepted_ack op then (Inl (fault ErrNotAccepted), s)
                     else if (case op_run op of None \<Rightarrow> False | Some r \<Rightarrow> ar_ProgressSeq run < ar_ProgressSeq r)
                     then (Inl (ControlError ErrStale ''progress sequence moved backwards''), s)
                     else if (case op_run op of None \<Rightarrow> False | Some r \<Rightarrow> ar_ProgressSeq run = ar_ProgressSeq r) then
                       (if op_run op = Some run then finish () s
                        else (Inl (ControlError ErrStale ''progress changed without a new sequence''), s))
                     else
                       (case run_conflict (op_run op) run of
                          Some e \<Rightarrow> (Inl e, s)
                        | None \<Rightarrow>
                            finish () (markOperationCheckpointDirtyLocked (conclude (ar_OperationID run)
                              (op\<lparr>op_run := Some run, op_status := operationStatusFromRun (ar_Status run), op_updatedAt := now\<rparr>)
                              None s))))))"

text \<open>Register the outcome with every configured sink that does not know it yet.\<close>

definition queue_outcome :: "string list \<Rightarrow> operation_state \<Rightarrow> operation_state" where
  "queue_outcome sinks op =
     (if op_outcome op = None \<or> hc_ActionRequest (op_request op) = None then op
      else fold (\<lambda>i op. if map_of (op_outcomeDelivery op) i = None
                        then op\<lparr>op_outcomeDelivery := AList.update i False (op_outcomeDelivery op),
                                op_persistenceRevision := op_persistenceRevision op + 1\<rparr>
                        else op) sinks op)"

definition queueOutcomeDeliveryLocked :: "string \<Rightarrow> operation_state \<Rightarrow> service \<Rightarrow> service" where
  "queueOutcomeDeliveryLocked i op s =
     (let op' = queue_outcome (sv_outcomeSinks s) op in
      if op' = op then s else markOperationsDirtyLocked (put_operation i op' s))"

definition outcome_conflict :: "operation_state \<Rightarrow> action_outcome \<Rightarrow> control_error option" where
  "outcome_conflict op oc =
     first_err [
       require (accepted_ack op) (fault ErrNotAccepted),
       require (\<not> (terminalOperationStatus (op_status op) \<and> op_status op \<noteq> operationStatusFromRun (ao_Status oc)))
         (ControlError ErrConflict ''outcome conflicts with terminal run''),
       (case hc_Binding (op_request op) of
          None \<Rightarrow> None
        | Some b \<Rightarrow>
            first_err [
              require (ao_Epoch oc = cb_Epoch b) (ControlError ErrInvalid ''outcome epoch does not match request binding''),
              require (\<not> ao_WorldSeq oc < cb_ObservationSeq b)
                (ControlError ErrInvalid ''outcome world sequence predates request binding'')])]"

definition ReportHostResult :: "go_env \<Rightarrow> int \<Rightarrow> service \<Rightarrow> string \<Rightarrow> string \<Rightarrow> action_outcome \<Rightarrow> string \<Rightarrow> unit outcome" where
  "ReportHostResult env now s hostID leaseID oc output =
     (case first_err [map_option (\<lambda>e. ControlError ErrInvalid (''outcome: '' @ error_text e)) (ValidateActionOutcome oc),
                      validateOperationOutput env output] of
        Some e \<Rightarrow> (Inl e, s)
      | None \<Rightarrow>
          persisted s (\<lambda>s.
            case requireLeaseLocked now s hostID leaseID of
              Inl e \<Rightarrow> (Inl e, s)
            | Inr h \<Rightarrow>
                (case hostOperationLocked s hostID (ao_OperationID oc) of
                   Inl e \<Rightarrow> (Inl e, s)
                 | Inr op \<Rightarrow>
                     (case op_outcome op of
                        Some old \<Rightarrow>
                          if old = oc \<and> op_output op = output
                          then finish () (queueOutcomeDeliveryLocked (ao_OperationID oc) op s)
                          else (Inl (ControlError ErrConflict ''terminal result changed''), s)
                      | None \<Rightarrow>
                          (case outcome_conflict op oc of
                             Some e \<Rightarrow> (Inl e, s)
                           | None \<Rightarrow>
                               let op' = (queue_outcome (sv_outcomeSinks s) (op\<lparr>op_outcome := Some oc\<rparr>))\<lparr>
                                     op_output := output, op_status := operationStatusFromRun (ao_Status oc), op_updatedAt := now\<rparr>
                               in finish () (markOperationsDirtyLocked (conclude (ao_OperationID oc) op'
                                    (Some (ao_Status oc = ActionSucceeded)) s)))))))"

definition ReportHostOutcome :: "go_env \<Rightarrow> int \<Rightarrow> service \<Rightarrow> string \<Rightarrow> string \<Rightarrow> action_outcome \<Rightarrow> unit outcome" where
  "ReportHostOutcome env now s hostID leaseID oc = ReportHostResult env now s hostID leaseID oc ''''"

subsection \<open>Reading and cancelling operations\<close>

definition may_see :: "principal \<Rightarrow> operation_state \<Rightarrow> bool" where
  "may_see p op \<longleftrightarrow> hasScope p ScopeHostAdmin \<or> pr_ID p = pr_ID (hc_Principal (op_request op))"

text \<open>The operation after the refresh, as the pointer the code holds would show it.\<close>

definition refreshed :: "string \<Rightarrow> operation_state \<Rightarrow> service \<Rightarrow> operation_state" where
  "refreshed i op s = (case map_of (sv_operations s) i of None \<Rightarrow> op | Some op' \<Rightarrow> op')"

definition getOperationLocked :: "go_env \<Rightarrow> int \<Rightarrow> service \<Rightarrow> principal \<Rightarrow> string \<Rightarrow> operation_view outcome" where
  "getOperationLocked env now s p i =
     (case lookupOperationLocked s i of
        Inl e \<Rightarrow> (Inl e, s)
      | Inr op \<Rightarrow>
          persisted (refreshOperationHostLocked i op now s) (\<lambda>s1.
            if \<not> may_see p op then (Inl (fault ErrForbidden), s1)
            else (Inr (operationView env (refreshed i op s1)), s1)))"

definition GetOperation :: "go_env \<Rightarrow> int \<Rightarrow> service \<Rightarrow> principal \<Rightarrow> string \<Rightarrow> operation_view outcome" where
  "GetOperation env now s p i =
     (case first_err [invalid_principal p, control_validateID ''operation_id'' i] of
        Some e \<Rightarrow> (Inl e, s)
      | None \<Rightarrow> getOperationLocked env now s p i)"

record list_operations_input =
  lo_HostID :: string
  lo_WorldID :: string
  lo_ActorID :: string
  lo_TaskID :: string
  lo_Status :: operation_status
  lo_Limit :: u32

definition any_status :: operation_status where
  "any_status = OperationStatusOther ''''"

definition optional_id :: "string \<Rightarrow> string \<Rightarrow> control_error option" where
  "optional_id field v = (if v = [] then None else control_validateID field v)"

definition listed :: "list_operations_input \<Rightarrow> operation_state \<Rightarrow> bool" where
  "listed input op \<longleftrightarrow>
     (let r = op_request op in
      (lo_HostID input = [] \<or> hc_HostID r = lo_HostID input)
      \<and> (lo_WorldID input = [] \<or> hc_WorldID r = lo_WorldID input)
      \<and> (lo_ActorID input = [] \<or> hc_ActorID r = lo_ActorID input)
      \<and> (lo_TaskID input = [] \<or> (case hc_ActionRequest r of None \<Rightarrow> '''' | Some a \<Rightarrow> rq_TaskID a) = lo_TaskID input)
      \<and> (lo_Status input = any_status \<or> op_status op = lo_Status input))"

text \<open>
  The loop refreshes each visible operation before it looks at it; a refresh may expire other operations of the same
  Host, so the operations are read from the map as it is at that moment.
\<close>

definition list_step ::
  "go_env \<Rightarrow> int \<Rightarrow> principal \<Rightarrow> list_operations_input \<Rightarrow> string \<Rightarrow> operation_view list \<times> service \<Rightarrow> operation_view list \<times> service" where
  "list_step env now p input i = (\<lambda>(views, s).
     case map_of (sv_operations s) i of
       None \<Rightarrow> (views, s)
     | Some op \<Rightarrow>
         if \<not> may_see p op then (views, s)
         else
           let s1 = refreshOperationHostLocked i op now s; op1 = refreshed i op s1 in
           (if listed input op1 then views @ [operationView env op1] else views, s1))"

definition ListOperations :: "go_env \<Rightarrow> int \<Rightarrow> service \<Rightarrow> principal \<Rightarrow> list_operations_input \<Rightarrow> operation_view list outcome" where
  "ListOperations env now s p input =
     (let limit = (if lo_Limit input = 0 then 100 else unat (lo_Limit input)) in
      case first_err [
          invalid_principal p,
          optional_id ''host_id'' (lo_HostID input),
          optional_id ''world_id'' (lo_WorldID input),
          optional_id ''actor_id'' (lo_ActorID input),
          optional_id ''task_id'' (lo_TaskID input),
          require (lo_Status input = any_status \<or> validOperationStatus (lo_Status input))
            (control_invalid ''status'' ''is not a known operation status''),
          require (limit \<le> 500) (control_invalid ''limit'' ''must not exceed 500'')] of
        Some e \<Rightarrow> (Inl e, s)
      | None \<Rightarrow>
          let (views, s1) = fold (list_step env now p input) (map fst (sv_operations s)) ([], s) in
          persisted s1 (\<lambda>s2. (Inr (take limit (sort_key (\<lambda>v. (- ov_UpdatedAt v, ov_OperationID v)) views)), s2)))"

definition CancelOperation :: "go_env \<Rightarrow> int \<Rightarrow> service \<Rightarrow> principal \<Rightarrow> string \<Rightarrow> operation_view outcome" where
  "CancelOperation env now s p i =
     (case first_err [invalid_principal p, control_validateID ''operation_id'' i] of
        Some e \<Rightarrow> (Inl e, s)
      | None \<Rightarrow>
          (case lookupOperationLocked s i of
             Inl e \<Rightarrow> (Inl e, s)
           | Inr op0 \<Rightarrow>
               persisted (refreshOperationHostLocked i op0 now s) (\<lambda>s1.
                 let op = refreshed i op0 s1 in
                 if \<not> hasScope p ScopeHostAdmin
                    \<and> (pr_ID p \<noteq> pr_ID (hc_Principal (op_request op)) \<or> \<not> hasScope p ScopeOperationCancel)
                 then (Inl (fault ErrForbidden), s1)
                 else if completeOperation op then (Inr (operationView env op), s1)
                 else
                   let s2 = (if op_status op = OperationQueued \<or> op_status op = OperationAwaitingConfirmation
                             then markOperationsDirtyLocked (conclude i (op\<lparr>op_status := OperationCancelled, op_updatedAt := now\<rparr>) (Some False) s1)
                             else if \<not> op_cancel op
                             then markOperationsDirtyLocked (conclude i (op\<lparr>op_cancel := True, op_updatedAt := now\<rparr>) None s1)
                             else s1)
                   in persisted s2 (\<lambda>s3. (Inr (operationView env (refreshed i op s3)), s3)))))"

subsection \<open>Gateway requests\<close>

definition validateHostGatewayRequest :: "go_env \<Rightarrow> host_gateway_request \<Rightarrow> bool \<Rightarrow> control_error option" where
  "validateHostGatewayRequest env r transport =
     first_err [
       (if transport then
          first_err [
            control_validateID ''gateway_request_id'' (gr_GatewayRequestID r),
            require (\<not> (gr_SubmittedAt r \<le> 0 \<or> gr_SubmittedAt r > int maxJSONSafeInteger))
              (control_invalid ''submitted_at_unix_millis'' ''must be a positive JSON-safe integer'')]
        else require (gr_GatewayRequestID r = [] \<and> gr_SubmittedAt r = 0)
               (control_invalid ''gateway_request'' ''transport fields must be empty'')),
       validateActorControlTarget (gr_Target r),
       (case gr_Kind r of
          HostGatewayBind \<Rightarrow>
            (case gr_ActionRequest r of
               None \<Rightarrow> Some (control_invalid ''action_request'' ''is required for bind'')
             | Some a \<Rightarrow>
                 first_err [
                   map_option (\<lambda>e. control_invalid ''action_request'' (error_text e)) (ValidateActionRequest env a),
                   require (rq_ActorID a = at_ActorID (gr_Target r) \<and> ep_WorldID (rq_ExpectedEpoch a) = at_WorldID (gr_Target r))
                     (control_invalid ''action_request'' ''does not match target'')])
        | HostGatewaySnapshot \<Rightarrow>
            require (gr_ActionRequest r = None) (control_invalid ''action_request'' ''must be empty for snapshot'')
        | HostGatewayKindOther _ \<Rightarrow> Some (control_invalid ''kind'' ''must be bind or snapshot''))]"

definition validateActionHostSnapshot :: "action_host_snapshot \<Rightarrow> string option" where
  "validateActionHostSnapshot v =
     first_err [
       map_option error_text (Timepoint_Validate (ah_Now v) ''snapshot.now''),
       map_option error_text (Epoch_Validate (ah_Epoch v) ''snapshot.epoch''),
       require (positive_json_safe (ah_ObservationSeq v)) ''snapshot observation_sequence is invalid'']"

definition validateHostGatewayResult :: "go_env \<Rightarrow> host_gateway_result \<Rightarrow> host_gateway_kind \<Rightarrow> control_error option" where
  "validateHostGatewayResult env r kind =
     first_err [
       control_validateID ''gateway_request_id'' (gs_GatewayRequestID r),
       (if gs_ErrorCode r \<noteq> [] then
          first_err [
            require (gs_Binding r = None \<and> gs_Snapshot r = None)
              (control_invalid ''gateway_result'' ''error cannot include a successful result''),
            control_validateText ''error_message'' (gs_ErrorMessage r) 500 True,
            require (gs_ErrorCode r \<in> {''invalid'', ''stale'', ''unavailable'', ''forbidden'', ''conflict'', ''internal''})
              (control_invalid ''error_code'' ''is not supported'')]
        else first_err [
          require (gs_ErrorMessage r = []) (control_invalid ''error_message'' ''requires error_code''),
          (case kind of
             HostGatewayBind \<Rightarrow>
               (case (gs_Binding r, gs_Snapshot r) of
                  (Some b, None) \<Rightarrow>
                    first_err [
                      map_option (control_invalid ''binding.snapshot'') (validateActionHostSnapshot (br_Snapshot b)),
                      map_option (\<lambda>e. control_invalid ''binding.bound_action'' (error_text e)) (ValidateBoundAction env (br_Action b))]
                | _ \<Rightarrow> Some (control_invalid ''gateway_result'' ''bind requires only binding''))
           | HostGatewaySnapshot \<Rightarrow>
               (case (gs_Snapshot r, gs_Binding r) of
                  (Some v, None) \<Rightarrow> map_option (control_invalid ''snapshot'') (validateActionHostSnapshot v)
                | _ \<Rightarrow> Some (control_invalid ''gateway_result'' ''snapshot requires only snapshot''))
           | HostGatewayKindOther _ \<Rightarrow> Some (control_invalid ''kind'' ''is not supported''))])]"

fun gateway_error_kind :: "string \<Rightarrow> control_error_kind" where
  "gateway_error_kind code =
     (if code = ''invalid'' then ErrInvalid
      else if code = ''stale'' then ErrStale
      else if code = ''unavailable'' \<or> code = ''internal'' then ErrUnavailable
      else if code = ''forbidden'' then ErrForbidden
      else if code = ''conflict'' then ErrConflict
      else ErrUnavailable)"

definition hostGatewayError :: "string \<Rightarrow> string \<Rightarrow> control_error" where
  "hostGatewayError code message = ControlError (gateway_error_kind code) (''Host gateway '' @ code @ '': '' @ message)"

definition enqueueHostGateway :: "go_env \<Rightarrow> int \<Rightarrow> service \<Rightarrow> host_gateway_request \<Rightarrow> string option \<Rightarrow> string outcome" where
  "enqueueHostGateway env now s r random =
     (case validateHostGatewayRequest env r False of
        Some e \<Rightarrow> (Inl e, s)
      | None \<Rightarrow>
          if sv_closed s then (Inl (fault ErrClosed), s)
          else case findWorldLocked s (at_HostID (gr_Target r)) (at_WorldID (gr_Target r)) of
            Inl e \<Rightarrow> (Inl e, s)
          | Inr (h, w) \<Rightarrow>
              if \<not> lease_live now h then (Inl (fault ErrUnavailable), s)
              else if at_ActorID (gr_Target r) \<notin> set (map ap_ActorID (wp_Actors w)) then (Inl (fault ErrNotFound), s)
              else if length (sv_hostGateway s) \<ge> maxPendingHostGatewayRequests then (Inl (fault ErrCapacity), s)
              else case control_newID ''gateway'' random of
                Inl e \<Rightarrow> (Inl e, s)
              | Inr i \<Rightarrow>
                  (Inr i, notifyLocked (s\<lparr>sv_hostGateway := AList.update i
                     \<lparr>gw_request = r\<lparr>gr_GatewayRequestID := i, gr_SubmittedAt := now\<rparr>, gw_attempts = 0\<rparr> (sv_hostGateway s)\<rparr>)))"

text \<open>The answer goes to the caller that waits for this request; the second component is what that caller receives.\<close>

definition ReportHostGatewayResult ::
  "go_env \<Rightarrow> int \<Rightarrow> service \<Rightarrow> string \<Rightarrow> string \<Rightarrow> host_gateway_result \<Rightarrow> (control_error + host_gateway_result) outcome" where
  "ReportHostGatewayResult env now s hostID leaseID r =
     (case requireLeaseLocked now s hostID leaseID of
        Inl e \<Rightarrow> (Inl e, s)
      | Inr h \<Rightarrow>
          (case map_of (sv_hostGateway s) (gs_GatewayRequestID r) of
             None \<Rightarrow> (Inl (fault ErrNotFound), s)
           | Some g \<Rightarrow>
               if at_HostID (gr_Target (gw_request g)) \<noteq> hostID then (Inl (fault ErrForbidden), s)
               else case validateHostGatewayResult env r (gr_Kind (gw_request g)) of
                 Some e \<Rightarrow> (Inl e, s)
               | None \<Rightarrow>
                   (Inr (if gs_ErrorCode r \<noteq> [] then Inl (hostGatewayError (gs_ErrorCode r) (gs_ErrorMessage r)) else Inr r),
                    notifyLocked (s\<lparr>sv_hostGateway := AList.delete (gs_GatewayRequestID r) (sv_hostGateway s)\<rparr>))))"

definition cancelHostGateway :: "string \<Rightarrow> service \<Rightarrow> service" where
  "cancelHostGateway i s =
     (case map_of (sv_hostGateway s) i of
        None \<Rightarrow> s
      | Some _ \<Rightarrow> notifyLocked (s\<lparr>sv_hostGateway := AList.delete i (sv_hostGateway s)\<rparr>))"

end
