(* ===== verification/Control_Gateway.thy ===== *)
theory Control_Gateway
  imports Control_Delivery
begin

section \<open>The action gateway (action_gateway.go, action_lookup.go)\<close>

text \<open>
  \<open>SubmitAction\<close> and \<open>ConfirmAction\<close> release the service's lock while they wait for the Host and evaluate the policy. They
  are modelled by their critical sections: \<open>submit_begin\<close>, \<open>submit_evaluate\<close>, \<open>submit_commit\<close> and \<open>finishActionFlight\<close>;
  \<open>confirm_begin\<close>, \<open>confirm_evaluate\<close>, \<open>confirm_commit\<close> and \<open>finishConfirmation\<close>. Other calls may run between any two of
  them. What the Host answers and whether the caller's context is cancelled are arguments.
\<close>

definition clonePrincipalValue :: "principal \<Rightarrow> principal" where
  "clonePrincipalValue p = p\<lparr>pr_GrantedScopes := sort (pr_GrantedScopes p)\<rparr>"

fun comma_join :: "string list \<Rightarrow> string" where
  "comma_join [] = []"
| "comma_join [s] = s"
| "comma_join (s # t # ss) = s @ CHR '','' # comma_join (t # ss)"

definition actionSubmissionFingerprint :: "string \<Rightarrow> string \<Rightarrow> principal \<Rightarrow> string" where
  "actionSubmissionFingerprint requestDigest parentOperationID p =
     nul_join [requestDigest, parentOperationID, pr_ID p, comma_join (pr_GrantedScopes p)]"

definition actionRequestFingerprint :: "go_env \<Rightarrow> host_control_request \<Rightarrow> string" where
  "actionRequestFingerprint env r =
     (case hc_ActionRequest r of
        None \<Rightarrow> ''''
      | Some a \<Rightarrow>
          (case ActionRequestDigest env a of
             Inl _ \<Rightarrow> ''''
           | Inr digest \<Rightarrow> actionSubmissionFingerprint digest (hc_ParentOperationID r) (hc_Principal r)))"

definition actionOperationRequestKey :: "string \<Rightarrow> string \<Rightarrow> string" where
  "actionOperationRequestKey principalID idempotencyKey = nul_join [principalID, ''action'', idempotencyKey]"

definition operationIdempotencyKey :: "host_control_request \<Rightarrow> string" where
  "operationIdempotencyKey r =
     (case hc_ActionRequest r of
        None \<Rightarrow> ''''
      | Some a \<Rightarrow> actionOperationRequestKey (pr_ID (hc_Principal r)) (rq_IdempotencyKey a))"

definition recentObservationGap :: "u64 \<Rightarrow> u64 \<Rightarrow> bool" where
  "recentObservationGap ahead behind \<longleftrightarrow> ahead \<ge> behind \<and> ahead - behind \<le> MaxObservationGap"

definition submit_target :: "submit_action_input \<Rightarrow> actor_control_target" where
  "submit_target input = ActorControlTarget (si_HostID input) (si_WorldID input) (rq_ActorID (si_Request input))"

definition validateSubmitActionInput :: "go_env \<Rightarrow> submit_action_input \<Rightarrow> control_error option" where
  "validateSubmitActionInput env input =
     first_err [
       validateActorControlTarget (submit_target input),
       map_option (\<lambda>e. control_invalid ''action_request'' (error_text e)) (ValidateActionRequest env (si_Request input)),
       require (ep_WorldID (rq_ExpectedEpoch (si_Request input)) = si_WorldID input)
         (control_invalid ''action_request.expected_epoch.world_id'' ''must equal world_id''),
       (if si_ParentOperationID input \<noteq> [] then control_validateID ''parent_operation_id'' (si_ParentOperationID input) else None)]"

subsection \<open>The state a submission is checked against\<close>

record action_submission_snapshot =
  ss_actor :: actor_publication
  ss_controller :: controller_lease
  ss_emergencyStopped :: bool
  ss_emergencyRevision :: u64

definition actorPublishesChildProducingMacro :: "actor_publication \<Rightarrow> bound_action \<Rightarrow> bool" where
  "actorPublishesChildProducingMacro actor parent =
     (case ap_Capabilities actor of
        None \<Rightarrow> False
      | Some snapshot \<Rightarrow>
          (case find (\<lambda>spec. cs_Capability spec = ba_Capability parent \<and> cs_Digest spec = ba_SpecDigest parent) (sn_Specs snapshot) of
             None \<Rightarrow> False
           | Some spec \<Rightarrow> cs_Kind spec = CapabilityMacro \<and> cs_ProducesChildOperations spec))"

definition validateActionParentLocked ::
  "service \<Rightarrow> string \<Rightarrow> principal \<Rightarrow> string \<Rightarrow> string \<Rightarrow> actor_publication \<Rightarrow> string \<Rightarrow> string \<Rightarrow> control_error option" where
  "validateActionParentLocked s parentID p hostID worldID actor leaseID taskID =
     (if parentID = [] then None
      else case map_of (sv_operations s) parentID of
        None \<Rightarrow> Some (fault ErrNotFound)
      | Some parent \<Rightarrow>
          let r = op_request parent in
          first_err [
            require (hc_Kind r = ControlAction \<and> \<not> completeOperation parent \<and> pr_ID (hc_Principal r) = pr_ID p
                     \<and> hc_HostID r = hostID \<and> hc_WorldID r = worldID \<and> hc_ActorID r = ap_ActorID actor
                     \<and> leaseID = controllerLeaseID (hc_Binding r)) (fault ErrConflict),
            require (op_status parent = OperationAccepted \<or> op_status parent = OperationRunning) (fault ErrConflict),
            (case (hc_ActionRequest r, hc_BoundAction r) of
               (Some a, Some b) \<Rightarrow>
                 first_err [
                   require (taskID \<noteq> [] \<and> rq_TaskID a = taskID \<and> ba_TaskID b = taskID) (fault ErrConflict),
                   require (actorPublishesChildProducingMacro actor b) (fault ErrConflict)]
             | _ \<Rightarrow> Some (fault ErrConflict)),
            require (length (op_children parent) < maxChildOperations) (fault ErrCapacity)])"

definition prepareActionSubmissionLocked ::
  "int \<Rightarrow> service \<Rightarrow> principal \<Rightarrow> submit_action_input \<Rightarrow> action_submission_snapshot outcome" where
  "prepareActionSubmissionLocked now s p input =
     (case authorizeActorLocked now s p (submit_target input) ScopeActorExecute of
        (Inl e, s1) \<Rightarrow> (Inl e, s1)
      | (Inr actor, s1) \<Rightarrow>
          if ap_Epoch actor \<noteq> rq_ExpectedEpoch (si_Request input)
             \<or> \<not> recentObservationGap (ap_ObservationSeq actor) (rq_ObservationSeq (si_Request input))
          then (Inl (fault ErrStale), s1)
          else
            let key = submit_target input; s2 = expireControllerLocked key now s1 in
            (case map_of (sv_controllers s2) key of
               None \<Rightarrow> (Inl (fault ErrLeaseExpired), s2)
             | Some controller \<Rightarrow>
                 if cl_ControllerID controller \<noteq> rq_ControllerID (si_Request input) \<or> cl_PrincipalID controller \<noteq> pr_ID p
                    \<or> \<not> controllerMatchesActor controller actor
                 then (Inl (fault ErrForbidden), s2)
                 else case validateActionParentLocked s2 (si_ParentOperationID input) p (si_HostID input) (si_WorldID input) actor
                             (cl_LeaseID controller) (rq_TaskID (si_Request input)) of
                   Some e \<Rightarrow> (Inl e, s2)
                 | None \<Rightarrow>
                     (Inr \<lparr>ss_actor = actor, ss_controller = controller, ss_emergencyStopped = es_Active (stop_of s2 key),
                           ss_emergencyRevision = es_Revision (stop_of s2 key)\<rparr>, s2)))"

definition sameActionSubmissionSnapshot :: "action_submission_snapshot \<Rightarrow> action_submission_snapshot \<Rightarrow> bool" where
  "sameActionSubmissionSnapshot l r \<longleftrightarrow>
     ap_Epoch (ss_actor l) = ap_Epoch (ss_actor r)
     \<and> recentObservationGap (ap_ObservationSeq (ss_actor r)) (ap_ObservationSeq (ss_actor l))
     \<and> ap_OwnerPrincipalID (ss_actor l) = ap_OwnerPrincipalID (ss_actor r)
     \<and> ss_controller l = ss_controller r \<and> ss_emergencyStopped l = ss_emergencyStopped r
     \<and> ss_emergencyRevision l = ss_emergencyRevision r"

definition validateActionBindingResult ::
  "go_env \<Rightarrow> action_binding_result \<Rightarrow> action_request \<Rightarrow> string \<Rightarrow> actor_publication \<Rightarrow> string option" where
  "validateActionBindingResult env result request requestDigest actor =
     (let a = br_Action result; v = br_Snapshot result in
      first_err [
        validateActionHostSnapshot v,
        map_option error_text (ValidateBoundAction env a),
        require (ah_Epoch v = ap_Epoch actor \<and> recentObservationGap (ap_ObservationSeq actor) (ah_ObservationSeq v))
          ''Host snapshot does not match the published Actor'',
        require (ba_RequestDigest a = requestDigest \<and> ba_RequestID a = rq_RequestID request
                 \<and> ba_ControllerID a = rq_ControllerID request \<and> ba_ActorID a = rq_ActorID request
                 \<and> ba_Capability a = rq_Capability request \<and> ba_SpecDigest a = rq_SpecDigest request
                 \<and> ba_ExpectedEpoch a = rq_ExpectedEpoch request
                 \<and> recentObservationGap (ba_ObservationSeq a) (rq_ObservationSeq request)
                 \<and> ba_TaskID a = rq_TaskID request \<and> ba_IdempotencyKey a = rq_IdempotencyKey request
                 \<and> ba_RequestedTargets a = rq_Targets request) ''BoundAction does not match ActionRequest'',
        require (ba_BoundAt a = ah_Now v) ''BoundAction bound_at does not match Host snapshot''])"

text \<open>An operation already submitted under this key: \<open>None\<close> when there is none.\<close>

definition idempotentActionLocked :: "go_env \<Rightarrow> int \<Rightarrow> service \<Rightarrow> string \<Rightarrow> string \<Rightarrow> operation_view outcome option" where
  "idempotentActionLocked env now s key fingerprint =
     (case map_of (sv_requests s) key of
        None \<Rightarrow> None
      | Some i \<Rightarrow>
          let conflict = (Inl (ControlError ErrConflict ''idempotency_key was reused with different input''), s) in
          (case map_of (sv_operations s) i of
             None \<Rightarrow> Some conflict
           | Some op \<Rightarrow>
               if hc_Kind (op_request op) \<noteq> ControlAction \<or> actionRequestFingerprint env (op_request op) \<noteq> fingerprint
               then Some conflict
               else Some (persisted (refreshOperationHostLocked i op now s)
                      (\<lambda>s1. (Inr (operationView env (refreshed i op s1)), s1)))))"

subsection \<open>Storing an operation\<close>

definition prepareOperationLocked :: "int \<Rightarrow> service \<Rightarrow> string option \<Rightarrow> string outcome" where
  "prepareOperationLocked now s random =
     persisted (pruneOperationsLocked now s) (\<lambda>s1.
       if length (sv_operations s1) \<ge> sv_maxOperations s1 then (Inl (fault ErrCapacity), s1)
       else (control_newID ''operation'' random, s1))"

definition new_operation :: "string \<Rightarrow> host_control_request \<Rightarrow> operation_status \<Rightarrow> policy_result \<Rightarrow> operation_state" where
  "new_operation key r status result = \<lparr>
     op_persistenceRevision = 0, op_request = r, op_status = status, op_attempts = 0, op_cancel = False, op_ack = None,
     op_run = None, op_outcome = None, op_outcomeDelivery = [], op_output = '''',
     op_rejection = (case hc_PolicyDecision r of
         Some d \<Rightarrow> if result = Deny then deny_rejection (hc_OperationID r) d else no_acknowledgement
       | None \<Rightarrow> no_acknowledgement),
     op_idempotency = key, op_createdAt = hc_SubmittedAt r, op_updatedAt = hc_SubmittedAt r, op_children = [],
     op_timeline = [], op_timelineTruncatedBefore = 0\<rparr>"

fun initial_status :: "policy_result \<Rightarrow> operation_status option" where
  "initial_status Allow = Some OperationQueued"
| "initial_status RequireConfirmation = Some OperationAwaitingConfirmation"
| "initial_status Deny = Some OperationRejected"
| "initial_status (ResultOther _) = None"

definition adopt_child :: "string \<Rightarrow> int \<Rightarrow> operation_state \<Rightarrow> operation_state" where
  "adopt_child i at parent =
     parent\<lparr>op_children := op_children parent @ [i], op_updatedAt := at, op_persistenceRevision := op_persistenceRevision parent + 1\<rparr>"

definition insert_operation :: "go_env \<Rightarrow> string \<Rightarrow> operation_state \<Rightarrow> service \<Rightarrow> operation_view outcome" where
  "insert_operation env key op s =
     (let i = hc_OperationID (op_request op);
          s1 = recordOperationTimelineLocked i (put_operation i op (s\<lparr>sv_requests := AList.update key i (sv_requests s)\<rparr>))
      in persisted (markOperationsDirtyLocked s1) (\<lambda>s2. (Inr (operationView env (refreshed i op s2)), notifyLocked s2)))"

text \<open>
  A write that fails is rolled back by the code; here it can fail only on a closed service, which \<open>prepareOperationLocked\<close>
  has already refused.
\<close>

definition storeActionOperationLocked ::
  "go_env \<Rightarrow> service \<Rightarrow> string \<Rightarrow> host_control_request \<Rightarrow> policy_result \<Rightarrow> operation_view outcome" where
  "storeActionOperationLocked env s key r result =
     (case initial_status result of
        None \<Rightarrow> (Inl (fault ErrInvalid), s)
      | Some status \<Rightarrow>
          let op = new_operation key r status result in
          if hc_ParentOperationID r = [] then insert_operation env key op s
          else case map_of (sv_operations s) (hc_ParentOperationID r) of
            None \<Rightarrow> (Inl (fault ErrConflict), finalizeOperationPolicyLocked op False s)
          | Some parent \<Rightarrow>
              if length (op_children parent) \<ge> maxChildOperations
              then (Inl (fault ErrConflict), finalizeOperationPolicyLocked op False s)
              else insert_operation env key op
                     (put_operation (hc_ParentOperationID r) (adopt_child (hc_OperationID r) (hc_SubmittedAt r) parent) s))"

subsection \<open>Submitting an action\<close>

datatype submit_start =
    SubmitAnswered "control_error + operation_view"
  | SubmitWaits
  | SubmitStarted action_submission_snapshot

definition cancelled_context :: control_error where
  "cancelled_context = ControlError ErrPlain ''context cancelled''"

definition no_gateway :: control_error where
  "no_gateway = ControlError ErrUnavailable ''V2 action gateway is not configured''"

definition submit_begin ::
  "go_env \<Rightarrow> int \<Rightarrow> service \<Rightarrow> principal \<Rightarrow> submit_action_input \<Rightarrow> string \<Rightarrow> string \<Rightarrow> bool \<Rightarrow> submit_start \<times> service" where
  "submit_begin env now s p input key fingerprint cancelled =
     (if sv_closed s then (SubmitAnswered (Inl (fault ErrClosed)), s)
      else case idempotentActionLocked env now s key fingerprint of
        Some (answer, s1) \<Rightarrow> (SubmitAnswered answer, s1)
      | None \<Rightarrow>
          (case map_of (sv_actionFlights s) key of
             Some other \<Rightarrow>
               if other \<noteq> fingerprint
               then (SubmitAnswered (Inl (ControlError ErrConflict ''idempotency_key was reused with different input'')), s)
               else (SubmitWaits, s)
           | None \<Rightarrow>
               if cancelled then (SubmitAnswered (Inl cancelled_context), s)
               else case prepareActionSubmissionLocked now s p input of
                 (Inl e, s1) \<Rightarrow> (SubmitAnswered (Inl e), s1)
               | (Inr snapshot, s1) \<Rightarrow>
                   (SubmitStarted snapshot, s1\<lparr>sv_actionFlights := AList.update key fingerprint (sv_actionFlights s1)\<rparr>)))"

text \<open>Evaluating the Host's binding, outside of the service's lock: only the policy engine changes.\<close>

definition discard_decision :: "decision \<Rightarrow> service \<Rightarrow> service" where
  "discard_decision d s =
     (case sv_policyEngine s of None \<Rightarrow> s
      | Some en \<Rightarrow> s\<lparr>sv_policyEngine := Some (snd (Finalize en (de_DecisionID d) False))\<rparr>)"

definition evaluate_policy ::
  "go_env \<Rightarrow> service \<Rightarrow> bound_action \<Rightarrow> policy_context \<Rightarrow> string option \<Rightarrow> string option \<Rightarrow> decision outcome" where
  "evaluate_policy env s a cx decision_random challenge_random =
     (case sv_policyEngine s of
        None \<Rightarrow> (Inl no_gateway, s)
      | Some en \<Rightarrow>
          (case Evaluate env en a cx decision_random challenge_random of
             (Inl e, en') \<Rightarrow> (Inl (ControlError ErrPlain (policy_error_text e)), s\<lparr>sv_policyEngine := Some en'\<rparr>)
           | (Inr d, en') \<Rightarrow>
               let s1 = s\<lparr>sv_policyEngine := Some en'\<rparr> in
               (case ValidateDecision d of
                  Some e \<Rightarrow> (Inl (ControlError ErrInvalid (''policy decision: '' @ policy_error_text e)), discard_decision d s1)
                | None \<Rightarrow> (Inr d, s1))))"

definition submit_context :: "principal \<Rightarrow> submit_action_input \<Rightarrow> action_submission_snapshot \<Rightarrow> action_host_snapshot \<Rightarrow> policy_context" where
  "submit_context p input submission v = \<lparr>
     cx_Now = ah_Now v, cx_CurrentEpoch = ah_Epoch v, cx_Principal = clonePrincipalValue p, cx_ServerID = si_HostID input,
     cx_OwnerID = ap_OwnerPrincipalID (ss_actor submission), cx_EmergencyStopped = ss_emergencyStopped submission,
     cx_ConfirmationID = ''''\<rparr>"

definition submit_evaluate ::
  "go_env \<Rightarrow> service \<Rightarrow> principal \<Rightarrow> submit_action_input \<Rightarrow> string \<Rightarrow> action_submission_snapshot
     \<Rightarrow> control_error + action_binding_result \<Rightarrow> string option \<Rightarrow> string option \<Rightarrow> (action_binding_result \<times> decision) outcome" where
  "submit_evaluate env s p input requestDigest submission binding decision_random challenge_random =
     (case binding of
        Inl e \<Rightarrow> (Inl e, s)
      | Inr result \<Rightarrow>
          (case validateActionBindingResult env result (si_Request input) requestDigest (ss_actor submission) of
             Some msg \<Rightarrow> (Inl (ControlError ErrStale (''Host binding: '' @ msg)), s)
           | None \<Rightarrow>
               (case evaluate_policy env s (br_Action result) (submit_context p input submission (br_Snapshot result))
                       decision_random challenge_random of
                  (Inl e, s1) \<Rightarrow> (Inl e, s1)
                | (Inr d, s1) \<Rightarrow> (Inr (result, d), s1))))"

definition action_control_request ::
  "int \<Rightarrow> string \<Rightarrow> principal \<Rightarrow> submit_action_input \<Rightarrow> action_submission_snapshot \<Rightarrow> bound_action \<Rightarrow> decision \<Rightarrow> host_control_request" where
  "action_control_request now operationID p input current a d = \<lparr>
     hc_OperationID = operationID, hc_RequestID = rq_RequestID (si_Request input), hc_Principal = clonePrincipalValue p,
     hc_HostID = si_HostID input, hc_WorldID = si_WorldID input, hc_ActorID = rq_ActorID (si_Request input),
     hc_Kind = ControlAction,
     hc_Binding = Some \<lparr>cb_Epoch = ap_Epoch (ss_actor current), cb_ObservationSeq = rq_ObservationSeq (si_Request input),
        cb_AuthorityRevision = da_Revision (effectiveAuthority (ss_actor current)),
        cb_ControllerLeaseID = cl_LeaseID (ss_controller current)\<rparr>,
     hc_ActionRequest = Some (si_Request input), hc_BoundAction = Some a, hc_PolicyDecision = Some d,
     hc_ParentOperationID = si_ParentOperationID input, hc_SubmittedAt = now\<rparr>"

definition submit_commit ::
  "go_env \<Rightarrow> int \<Rightarrow> service \<Rightarrow> principal \<Rightarrow> submit_action_input \<Rightarrow> string \<Rightarrow> string \<Rightarrow> action_submission_snapshot
     \<Rightarrow> action_binding_result \<Rightarrow> decision \<Rightarrow> bool \<Rightarrow> string option \<Rightarrow> operation_view outcome" where
  "submit_commit env now s p input key fingerprint submission result d cancelled random =
     (if cancelled then (Inl cancelled_context, discard_decision d s)
      else case prepareActionSubmissionLocked now s p input of
        (Inl e, s1) \<Rightarrow> (Inl e, discard_decision d s1)
      | (Inr current, s1) \<Rightarrow>
          if \<not> sameActionSubmissionSnapshot submission current then (Inl (fault ErrStale), discard_decision d s1)
          else if ah_Epoch (br_Snapshot result) \<noteq> ap_Epoch (ss_actor current)
                  \<or> \<not> recentObservationGap (ap_ObservationSeq (ss_actor current)) (ah_ObservationSeq (br_Snapshot result))
          then (Inl (fault ErrStale), discard_decision d s1)
          else case idempotentActionLocked env now s1 key fingerprint of
            Some (answer, s2) \<Rightarrow> (answer, discard_decision d s2)
          | None \<Rightarrow>
              (case prepareOperationLocked now s1 random of
                 (Inl e, s2) \<Rightarrow> (Inl e, discard_decision d s2)
               | (Inr operationID, s2) \<Rightarrow>
                   storeActionOperationLocked env s2 key
                     (action_control_request now operationID p input current (br_Action result) d) (de_Result d)))"

definition finishActionFlight :: "string \<Rightarrow> service \<Rightarrow> service" where
  "finishActionFlight key s = s\<lparr>sv_actionFlights := AList.delete key (sv_actionFlights s)\<rparr>"

text \<open>The checks of \<open>SubmitAction\<close> before it takes the lock: the digest, the idempotency key and the fingerprint.\<close>

definition submit_checks ::
  "go_env \<Rightarrow> service \<Rightarrow> principal \<Rightarrow> submit_action_input \<Rightarrow> control_error + string \<times> string \<times> string" where
  "submit_checks env s p input =
     guard_err (first_err [
         validateSubmitActionInput env input,
         invalid_principal p,
         require (sv_policyEngine s \<noteq> None) no_gateway])
     (case ActionRequestDigest env (si_Request input) of
        Inl e \<Rightarrow> Inl (ControlError ErrInvalid (''action_request: '' @ error_text e))
      | Inr digest \<Rightarrow>
          Inr (digest, actionOperationRequestKey (pr_ID p) (rq_IdempotencyKey (si_Request input)),
               actionSubmissionFingerprint digest (si_ParentOperationID input) (clonePrincipalValue p)))"

text \<open>A submission during which nothing else happens.\<close>

definition SubmitAction ::
  "go_env \<Rightarrow> int \<Rightarrow> service \<Rightarrow> principal \<Rightarrow> submit_action_input \<Rightarrow> control_error + action_binding_result
     \<Rightarrow> string option \<Rightarrow> string option \<Rightarrow> string option \<Rightarrow> operation_view outcome option" where
  "SubmitAction env now s p0 input binding decision_random challenge_random random =
     (case submit_checks env s p0 input of
        Inl e \<Rightarrow> Some (Inl e, s)
      | Inr (digest, key, fingerprint) \<Rightarrow>
          let p = clonePrincipalValue p0 in
          (case submit_begin env now s p input key fingerprint False of
             (SubmitAnswered answer, s1) \<Rightarrow> Some (answer, s1)
           | (SubmitWaits, s1) \<Rightarrow> None
           | (SubmitStarted submission, s1) \<Rightarrow>
               (case submit_evaluate env s1 p input digest submission binding decision_random challenge_random of
                  (Inl e, s2) \<Rightarrow> Some (Inl e, finishActionFlight key s2)
                | (Inr (result, d), s2) \<Rightarrow>
                    (case submit_commit env now s2 p input key fingerprint submission result d False random of
                       (answer, s3) \<Rightarrow> Some (answer, finishActionFlight key s3)))))"

definition FindActionOperation ::
  "go_env \<Rightarrow> int \<Rightarrow> service \<Rightarrow> principal \<Rightarrow> submit_action_input \<Rightarrow> operation_view outcome" where
  "FindActionOperation env now s p0 input =
     (let p = clonePrincipalValue p0 in
      case first_err [
          invalid_principal p0,
          require (hasScope p ScopeActorExecute \<or> hasScope p ScopeHostAdmin) (fault ErrForbidden),
          validateSubmitActionInput env input] of
        Some e \<Rightarrow> (Inl e, s)
      | None \<Rightarrow>
          (case ActionRequestDigest env (si_Request input) of
             Inl e \<Rightarrow> (Inl (ControlError ErrPlain (error_text e)), s)
           | Inr digest \<Rightarrow>
               let key = actionOperationRequestKey (pr_ID p) (rq_IdempotencyKey (si_Request input)) in
               if sv_closed s then (Inl (fault ErrClosed), s)
               else case idempotentActionLocked env now s key (actionSubmissionFingerprint digest (si_ParentOperationID input) p) of
                 Some answer \<Rightarrow> answer
               | None \<Rightarrow>
                   (Inl (fault (if map_of (sv_actionFlights s) key \<noteq> None then ErrUnavailable else ErrNotFound)), s)))"

subsection \<open>Confirming an action\<close>

datatype confirm_start =
    ConfirmAnswered "control_error + operation_view"
  | ConfirmStarted submit_action_input principal string bound_action confirmation_challenge

definition pending_challenge :: "operation_state \<Rightarrow> (action_request \<times> bound_action \<times> confirmation_challenge) option" where
  "pending_challenge op =
     (if op_status op \<noteq> OperationAwaitingConfirmation then None
      else case (hc_ActionRequest (op_request op), hc_BoundAction (op_request op), hc_PolicyDecision (op_request op)) of
        (Some r, Some b, Some d) \<Rightarrow> map_option (\<lambda>ch. (r, b, ch)) (de_Confirmation d)
      | _ \<Rightarrow> None)"

text \<open>
  The operation becomes stale. \<open>committed\<close> is \<open>Some False\<close> where the code also settles the policy decision; the error is
  returned after the change has been persisted. The view that the code returns beside an error is not kept.
\<close>

definition stale_operation ::
  "int \<Rightarrow> string \<Rightarrow> operation_state \<Rightarrow> bool option \<Rightarrow> control_error \<Rightarrow> service \<Rightarrow> 'a outcome" where
  "stale_operation now i op committed e s =
     persisted (markOperationsDirtyLocked (conclude i (op\<lparr>op_status := OperationStale, op_updatedAt := now\<rparr>) committed s))
       (\<lambda>s1. (Inl e, s1))"

definition confirm_input :: "host_control_request \<Rightarrow> action_request \<Rightarrow> submit_action_input" where
  "confirm_input r a = \<lparr>si_HostID = hc_HostID r, si_WorldID = hc_WorldID r, si_Request = a,
     si_ParentOperationID = hc_ParentOperationID r\<rparr>"

definition same_lease :: "operation_state \<Rightarrow> action_submission_snapshot \<Rightarrow> bool" where
  "same_lease op current \<longleftrightarrow> cl_LeaseID (ss_controller current) = controllerLeaseID (hc_Binding (op_request op))"

definition confirm_prepare ::
  "int \<Rightarrow> string \<Rightarrow> operation_state \<Rightarrow> action_request \<Rightarrow> bound_action \<Rightarrow> confirmation_challenge \<Rightarrow> service
     \<Rightarrow> confirm_start \<times> service" where
  "confirm_prepare now i op a b challenge s =
     (let input = confirm_input (op_request op) a; original = clonePrincipalValue (hc_Principal (op_request op)) in
      case prepareActionSubmissionLocked now s original input of
        (Inl e, s1) \<Rightarrow> apfst ConfirmAnswered (stale_operation now i (refreshed i op s1) (Some False) e s1)
      | (Inr current, s1) \<Rightarrow>
          if ss_emergencyStopped current \<or> \<not> same_lease op current
          then apfst ConfirmAnswered (stale_operation now i (refreshed i op s1) (Some False) (fault ErrStale) s1)
          else (ConfirmStarted input original (ap_OwnerPrincipalID (ss_actor current)) b challenge,
                s1\<lparr>sv_confirming := i # sv_confirming s1\<rparr>))"

definition confirm_begin :: "go_env \<Rightarrow> int \<Rightarrow> service \<Rightarrow> principal \<Rightarrow> string \<Rightarrow> confirm_start \<times> service" where
  "confirm_begin env now s approver i =
     (case first_err [invalid_principal approver, control_validateID ''operation_id'' i,
                      require (sv_policyEngine s \<noteq> None) no_gateway] of
        Some e \<Rightarrow> (ConfirmAnswered (Inl e), s)
      | None \<Rightarrow>
          (case map_of (sv_operations s) i of
             None \<Rightarrow> (ConfirmAnswered (Inl (fault ErrNotFound)), s)
           | Some op \<Rightarrow>
               (case pending_challenge op of
                  None \<Rightarrow>
                    (ConfirmAnswered (if completeOperation op then Inr (operationView env op) else Inl (fault ErrConflict)), s)
                | Some (a, b, challenge) \<Rightarrow>
                    if i \<in> set (sv_confirming s) then (ConfirmAnswered (Inl (fault ErrConflict)), s)
                    else case authorizeActorLocked now s approver
                                (ActorControlTarget (hc_HostID (op_request op)) (hc_WorldID (op_request op)) (hc_ActorID (op_request op)))
                                ScopeActorControl of
                      (Inl e, s1) \<Rightarrow> (ConfirmAnswered (Inl e), s1)
                    | (Inr _, s1) \<Rightarrow> confirm_prepare now i (refreshed i op s1) a b challenge s1)))"

definition stalePendingConfirmation :: "go_env \<Rightarrow> int \<Rightarrow> string \<Rightarrow> service \<Rightarrow> operation_view outcome" where
  "stalePendingConfirmation env now i s =
     (case map_of (sv_operations s) i of
        None \<Rightarrow> (Inl (fault ErrNotFound), s)
      | Some op \<Rightarrow>
          if op_status op = OperationAwaitingConfirmation then stale_operation now i op None (fault ErrStale) s
          else (Inl (fault ErrStale), s))"

text \<open>
  After the Host's snapshot: the challenge is approved and the same bound action evaluated again, outside of the
  service's lock. \<open>Inl\<close> answers the caller, \<open>Inr\<close> is the new decision.
\<close>

definition approve_policy :: "service \<Rightarrow> string \<Rightarrow> principal \<Rightarrow> timepoint \<Rightarrow> confirmation_challenge outcome" where
  "approve_policy s challengeID approver now =
     (case sv_policyEngine s of
        None \<Rightarrow> (Inl no_gateway, s)
      | Some en \<Rightarrow>
          (case Approve en challengeID approver now of
             (Inl e, en') \<Rightarrow> (Inl (ControlError ErrPlain (policy_error_text e)), s\<lparr>sv_policyEngine := Some en'\<rparr>)
           | (Inr ch, en') \<Rightarrow> (Inr ch, s\<lparr>sv_policyEngine := Some en'\<rparr>)))"

definition confirm_context ::
  "principal \<Rightarrow> submit_action_input \<Rightarrow> string \<Rightarrow> confirmation_challenge \<Rightarrow> action_host_snapshot \<Rightarrow> policy_context" where
  "confirm_context original input ownerID challenge v = \<lparr>
     cx_Now = ah_Now v, cx_CurrentEpoch = ah_Epoch v, cx_Principal = original, cx_ServerID = si_HostID input,
     cx_OwnerID = ownerID, cx_EmergencyStopped = False, cx_ConfirmationID = ch_ChallengeID challenge\<rparr>"

definition confirm_evaluate ::
  "go_env \<Rightarrow> int \<Rightarrow> service \<Rightarrow> principal \<Rightarrow> string \<Rightarrow> submit_action_input \<Rightarrow> principal \<Rightarrow> string \<Rightarrow> bound_action
     \<Rightarrow> confirmation_challenge \<Rightarrow> control_error + action_host_snapshot \<Rightarrow> string option \<Rightarrow> string option
     \<Rightarrow> ((control_error + operation_view) + decision \<times> action_host_snapshot) \<times> service" where
  "confirm_evaluate env now s approver i input original ownerID b challenge answer decision_random challenge_random =
     (case answer of
        Inl e \<Rightarrow> (Inl (Inl e), s)
      | Inr v \<Rightarrow>
          (case validateActionHostSnapshot v of
             Some msg \<Rightarrow> (Inl (Inl (ControlError ErrInvalid (''Host snapshot: '' @ msg))), s)
           | None \<Rightarrow>
               if ah_Epoch v \<noteq> ba_ExpectedEpoch b \<or> ah_ObservationSeq v \<noteq> ba_ObservationSeq b
               then apfst Inl (stalePendingConfirmation env now i s)
               else case approve_policy s (ch_ChallengeID challenge) approver (ah_Now v) of
                 (Inl e, s1) \<Rightarrow> (Inl (Inl e), s1)
               | (Inr _, s1) \<Rightarrow>
                   (case evaluate_policy env s1 b (confirm_context original input ownerID challenge v)
                           decision_random challenge_random of
                      (Inl e, s2) \<Rightarrow> (Inl (Inl e), s2)
                    | (Inr d, s2) \<Rightarrow> (Inr (d, v), s2))))"

definition recordConfirmationDecision :: "go_env \<Rightarrow> int \<Rightarrow> service \<Rightarrow> string \<Rightarrow> decision \<Rightarrow> operation_view outcome" where
  "recordConfirmationDecision env now s i d =
     (case map_of (sv_operations s) i of
        None \<Rightarrow> (Inl (fault ErrNotFound), s)
      | Some op \<Rightarrow>
          if op_status op \<noteq> OperationAwaitingConfirmation then (Inr (operationView env op), s)
          else
            let op1 = op\<lparr>op_request := (op_request op)\<lparr>hc_PolicyDecision := Some d\<rparr>, op_updatedAt := now\<rparr>;
                record = (\<lambda>op2. persisted (markOperationsDirtyLocked (conclude i op2 None s))
                            (\<lambda>s1. (Inr (operationView env (refreshed i op2 s1)), s1)))
            in (case de_Result d of
                  Deny \<Rightarrow> record (op1\<lparr>op_status := OperationRejected, op_rejection := deny_rejection i d\<rparr>)
                | RequireConfirmation \<Rightarrow> record (op1\<lparr>op_status := OperationAwaitingConfirmation\<rparr>)
                | _ \<Rightarrow> (Inl (fault ErrConflict), put_operation i op1 s)))"

definition confirm_commit ::
  "go_env \<Rightarrow> int \<Rightarrow> service \<Rightarrow> string \<Rightarrow> submit_action_input \<Rightarrow> principal \<Rightarrow> decision \<Rightarrow> action_host_snapshot
     \<Rightarrow> operation_view outcome" where
  "confirm_commit env now s i input original d v =
     (if de_Result d \<noteq> Allow then recordConfirmationDecision env now s i d
      else case map_of (sv_operations s) i of
        None \<Rightarrow> (Inl (fault ErrNotFound), discard_decision d s)
      | Some op0 \<Rightarrow>
          if op_status op0 \<noteq> OperationAwaitingConfirmation then (Inr (operationView env op0), discard_decision d s)
          else case prepareActionSubmissionLocked now s original input of
            (Inl e, s1) \<Rightarrow> stale_operation now i (refreshed i op0 s1) None e (discard_decision d s1)
          | (Inr current, s1) \<Rightarrow>
              let op = refreshed i op0 s1 in
              if ss_emergencyStopped current \<or> ap_Epoch (ss_actor current) \<noteq> ah_Epoch v
                 \<or> ap_ObservationSeq (ss_actor current) \<noteq> ah_ObservationSeq v \<or> \<not> same_lease op current
              then stale_operation now i op None (fault ErrStale) (discard_decision d s1)
              else
                let op1 = op\<lparr>op_request := (op_request op)\<lparr>hc_PolicyDecision := Some d\<rparr>, op_status := OperationQueued,
                             op_updatedAt := now\<rparr>;
                    s2 = markOperationsDirtyLocked (conclude i op1 None s1)
                in (case persistOperationsLocked s2 of
                      (None, s3) \<Rightarrow> (Inr (operationView env (refreshed i op1 s3)), s3)
                    | (Some e, s3) \<Rightarrow> stale_operation now i (refreshed i op1 s3) None e (discard_decision d s3)))"

definition finishConfirmation :: "string \<Rightarrow> service \<Rightarrow> service" where
  "finishConfirmation i s =
     (let s1 = s\<lparr>sv_confirming := removeAll i (sv_confirming s)\<rparr> in
      case map_of (sv_operations s) i of
        None \<Rightarrow> s1
      | Some op \<Rightarrow>
          if op_status op \<noteq> OperationAwaitingConfirmation then discardOperationConfirmationLocked op s1 else s1)"

text \<open>A confirmation during which nothing else happens.\<close>

definition ConfirmAction ::
  "go_env \<Rightarrow> int \<Rightarrow> service \<Rightarrow> principal \<Rightarrow> string \<Rightarrow> control_error + action_host_snapshot
     \<Rightarrow> string option \<Rightarrow> string option \<Rightarrow> operation_view outcome" where
  "ConfirmAction env now s approver i answer decision_random challenge_random =
     (case confirm_begin env now s approver i of
        (ConfirmAnswered result, s1) \<Rightarrow> (result, s1)
      | (ConfirmStarted input original ownerID b challenge, s1) \<Rightarrow>
          (case confirm_evaluate env now s1 approver i input original ownerID b challenge answer decision_random challenge_random of
             (Inl result, s2) \<Rightarrow> (result, finishConfirmation i s2)
           | (Inr (d, v), s2) \<Rightarrow>
               (case confirm_commit env now s2 i input original d v of
                  (result, s3) \<Rightarrow> (result, finishConfirmation i s3))))"

subsection \<open>Outcome subscribers, change feed and shutdown (outcome_delivery.go, scheduling_changes.go, service.go)\<close>

text \<open>
  \<open>deliverOutcome\<close> reads the outcome, calls the subscriber without the lock and then records the acknowledgement. These are
  the critical sections around the call.
\<close>

definition pending_outcome_ids :: "string \<Rightarrow> service \<Rightarrow> string list" where
  "pending_outcome_ids subscriber s =
     sort (map fst (filter (\<lambda>(i, op). map_of (op_outcomeDelivery op) subscriber = Some False) (sv_operations s)))"

definition outcome_delivery_begin :: "service \<Rightarrow> string \<Rightarrow> string \<Rightarrow> operation_state option outcome" where
  "outcome_delivery_begin s subscriber i =
     (if sv_closed s then (Inr None, s)
      else case lookupOperationLocked s i of
        Inl e \<Rightarrow> (Inl e, s)
      | Inr op \<Rightarrow>
          if op_outcome op = None \<or> map_of (op_outcomeDelivery op) subscriber \<noteq> Some False then (Inr None, s)
          else persisted s (\<lambda>s1. (Inr (Some op), s1)))"

definition outcome_delivery_acknowledge :: "service \<Rightarrow> string \<Rightarrow> string \<Rightarrow> unit outcome" where
  "outcome_delivery_acknowledge s subscriber i =
     (case lookupOperationLocked s i of
        Inl e \<Rightarrow> (Inl e, s)
      | Inr op \<Rightarrow>
          let mark = (\<lambda>delivered op. op\<lparr>op_outcomeDelivery := AList.update subscriber delivered (op_outcomeDelivery op),
                                        op_persistenceRevision := op_persistenceRevision op + 1\<rparr>);
              s1 = markOperationsDirtyLocked (put_operation i (mark True op)
                     (s\<lparr>sv_changes := sv_changes s @ [OperationChange i]\<rparr>))
          in (case persistOperationsLocked s1 of
                (None, s2) \<Rightarrow> (Inr (), s2)
              | (Some e, s2) \<Rightarrow> (Inl e, markOperationsDirtyLocked (put_operation i (mark False (mark True op)) s2))))"

definition OutcomeProjectionPending :: "service \<Rightarrow> principal \<Rightarrow> string \<Rightarrow> string \<Rightarrow> control_error + bool" where
  "OutcomeProjectionPending s p i subscriber =
     guard_err (first_err [invalid_principal p, require (\<not> sv_closed s) (fault ErrClosed)])
       (ebind (lookupOperationLocked s i) (\<lambda>op.
          if pr_ID p \<noteq> pr_ID (hc_Principal (op_request op)) \<and> \<not> hasScope p ScopeHostAdmin then Inl (fault ErrForbidden)
          else Inr (map_of (op_outcomeDelivery op) subscriber = Some False)))"

text \<open>The first call of \<open>Close\<close>; later calls return its error again.\<close>

definition Close :: "service \<Rightarrow> service" where
  "Close s =
     (if sv_closed s then s
      else notifyLocked (s\<lparr>sv_operationDirty := False, sv_checkpointDirty := False, sv_closed := True, sv_hostGateway := []\<rparr>))"

end
