(* ===== verification/Go_Text.thy ===== *)
theory Go_Text
  imports Go_Prelude
begin

section \<open>Trimming, number bases and hexadecimal text\<close>

text \<open>
  More of Go's \<open>strings\<close>, \<open>strconv\<close> and \<open>encoding/hex\<close>: \<open>strings.TrimSpace\<close> on bytes, with every UTF-8 encoding of a white
  space character, \<open>strconv.FormatUint\<close> and \<open>strconv.ParseUint\<close> in a base up to 36 with their range check, and the check that
  \<open>hex.DecodeString\<close> makes.
\<close>

subsection \<open>White space\<close>

text \<open>The bytes of a white space character of two or three bytes.\<close>

definition space2 :: "nat \<Rightarrow> nat \<Rightarrow> bool" where
  "space2 a b \<longleftrightarrow> a = 194 \<and> (b = 133 \<or> b = 160)"

definition space3 :: "nat \<Rightarrow> nat \<Rightarrow> nat \<Rightarrow> bool" where
  "space3 a b c \<longleftrightarrow>
     a = 225 \<and> b = 154 \<and> c = 128
     \<or> a = 226 \<and> b = 128 \<and> (128 \<le> c \<and> c \<le> 138 \<or> c = 168 \<or> c = 169 \<or> c = 175)
     \<or> a = 226 \<and> b = 129 \<and> c = 159
     \<or> a = 227 \<and> b = 128 \<and> c = 128"

definition space1 :: "nat \<Rightarrow> bool" where
  "space1 a \<longleftrightarrow> a \<in> {9, 10, 11, 12, 13, 32}"

abbreviation byte :: "char \<Rightarrow> nat" where
  "byte \<equiv> of_char"

fun trim_left :: "string \<Rightarrow> string" where
  "trim_left [] = []"
| "trim_left [a] = (if space1 (byte a) then [] else [a])"
| "trim_left [a, b] =
     (if space1 (byte a) then trim_left [b] else if space2 (byte a) (byte b) then [] else [a, b])"
| "trim_left (a # b # c # ds) =
     (if space1 (byte a) then trim_left (b # c # ds)
      else if space2 (byte a) (byte b) then trim_left (c # ds)
      else if space3 (byte a) (byte b) (byte c) then trim_left ds
      else a # b # c # ds)"

text \<open>On the reversed string: the last byte comes first.\<close>

fun trim_reversed :: "string \<Rightarrow> string" where
  "trim_reversed [] = []"
| "trim_reversed [a] = (if space1 (byte a) then [] else [a])"
| "trim_reversed [b, a] =
     (if space1 (byte b) then trim_reversed [a] else if space2 (byte a) (byte b) then [] else [b, a])"
| "trim_reversed (c # b # a # ds) =
     (if space1 (byte c) then trim_reversed (b # a # ds)
      else if space2 (byte b) (byte c) then trim_reversed (a # ds)
      else if space3 (byte a) (byte b) (byte c) then trim_reversed ds
      else c # b # a # ds)"

definition TrimSpace :: "string \<Rightarrow> string" where
  "TrimSpace s = rev (trim_reversed (rev (trim_left s)))"

lemma trim_left_length: "length (trim_left s) \<le> length s"
  by (induction s rule: trim_left.induct) auto

lemma trim_left_idem [simp]: "trim_left (trim_left s) = trim_left s"
  by (induction s rule: trim_left.induct) auto

lemma trim_reversed_idem [simp]: "trim_reversed (trim_reversed s) = trim_reversed s"
  by (induction s rule: trim_reversed.induct) auto

lemma trim_reversed_suffix: "\<exists>ps. s = ps @ trim_reversed s"
proof (induction s rule: trim_reversed.induct)
  case (4 c b a ds)
  show ?case
  proof (cases "space1 (byte c) \<or> space2 (byte b) (byte c) \<or> space3 (byte a) (byte b) (byte c)")
    case True
    with 4 show ?thesis by (metis append_Cons append_Nil trim_reversed.simps(4))
  qed simp
qed auto

text \<open>Trimming the end of a string that starts with no white space leaves its start alone.\<close>

fun starts_space :: "string \<Rightarrow> bool" where
  "starts_space [] = False"
| "starts_space [a] = space1 (byte a)"
| "starts_space [a, b] = (space1 (byte a) \<or> space2 (byte a) (byte b))"
| "starts_space (a # b # c # ds) = (space1 (byte a) \<or> space2 (byte a) (byte b) \<or> space3 (byte a) (byte b) (byte c))"

lemma starts_space_append: "starts_space p \<Longrightarrow> starts_space (p @ q)"
  by (cases p rule: starts_space.cases; cases q rule: starts_space.cases) auto

lemma trim_left_shorter: "starts_space s \<Longrightarrow> length (trim_left s) < length s"
proof (cases s rule: starts_space.cases)
  case (4 a b c ds)
  then show "starts_space s \<Longrightarrow> length (trim_left s) < length s"
    using trim_left_length [of "b # c # ds"] trim_left_length [of "c # ds"] trim_left_length [of ds] by auto
qed auto

lemma trim_left_fixed: "trim_left s = s \<longleftrightarrow> \<not> starts_space s"
  using trim_left_shorter [of s] by (cases s rule: starts_space.cases) auto

lemma TrimSpace_idem [simp]: "TrimSpace (TrimSpace s) = TrimSpace s"
proof -
  obtain ps where "rev (trim_left s) = ps @ trim_reversed (rev (trim_left s))" using trim_reversed_suffix by blast
  then have "trim_left s = TrimSpace s @ rev ps" by (metis TrimSpace_def rev_append rev_rev_ident)
  moreover have "\<not> starts_space (trim_left s)" using trim_left_fixed [of "trim_left s"] by simp
  ultimately have "\<not> starts_space (TrimSpace s)" using starts_space_append [of "TrimSpace s" "rev ps"] by auto
  then have "trim_left (TrimSpace s) = TrimSpace s" by (simp add: trim_left_fixed)
  then show ?thesis by (simp add: TrimSpace_def [of "TrimSpace s"]) (simp add: TrimSpace_def)
qed

subsection \<open>Number bases\<close>

definition digit_of :: "nat \<Rightarrow> char" where
  "digit_of d = (if d < 10 then char_of (48 + d) else char_of (87 + d))"

text \<open>Upper case letters are accepted as digits too.\<close>

definition digit_value :: "char \<Rightarrow> nat option" where
  "digit_value c =
     (let b = byte c in
      if 48 \<le> b \<and> b \<le> 57 then Some (b - 48)
      else if 97 \<le> b \<and> b \<le> 122 then Some (b - 87)
      else if 65 \<le> b \<and> b \<le> 90 then Some (b - 55)
      else None)"

fun format_digits :: "nat \<Rightarrow> nat \<Rightarrow> string" where
  "format_digits base n =
     (if n < base \<or> base < 2 then [digit_of n]
      else format_digits base (n div base) @ [digit_of (n mod base)])"

declare format_digits.simps [simp del]

definition FormatUint :: "u64 \<Rightarrow> nat \<Rightarrow> string" where
  "FormatUint w base = format_digits base (unat w)"

fun parse_digits :: "nat \<Rightarrow> nat \<Rightarrow> string \<Rightarrow> nat option" where
  "parse_digits base acc [] = Some acc"
| "parse_digits base acc (c # cs) =
     (case digit_value c of
        None \<Rightarrow> None
      | Some d \<Rightarrow> if d < base then parse_digits base (acc * base + d) cs else None)"

text \<open>\<open>ParseUint(s, base, 64)\<close> for a base from 2 to 36; \<open>None\<close> is an error, also when the value does not fit.\<close>

definition ParseUint :: "string \<Rightarrow> nat \<Rightarrow> u64 option" where
  "ParseUint s base =
     (if s = [] then None
      else case parse_digits base 0 s of
        None \<Rightarrow> None
      | Some n \<Rightarrow> if n < 2 ^ 64 then Some (word_of_nat n) else None)"

lemma digit_value_digit: "d < 36 \<Longrightarrow> digit_value (digit_of d) = Some d"
  by (auto simp: digit_value_def digit_of_def Let_def of_char_of)

lemma parse_digits_append:
  "parse_digits base acc (xs @ ys) = (case parse_digits base acc xs of None \<Rightarrow> None | Some n \<Rightarrow> parse_digits base n ys)"
  by (induction xs arbitrary: acc) (auto split: option.split)

lemma format_digits_nonempty [simp]: "format_digits base n \<noteq> []"
  by (subst format_digits.simps) simp

lemma parse_format_digits:
  assumes "2 \<le> base" "base \<le> 36"
  shows "parse_digits base 0 (format_digits base n) = Some n"
  using assms
proof (induction base n rule: format_digits.induct)
  case (1 base n)
  show ?case
  proof (cases "n < base")
    case True
    with "1.prems" show ?thesis by (simp add: format_digits.simps digit_value_digit)
  next
    case False
    then have "\<not> (n < base \<or> base < 2)" using "1.prems" by simp
    from "1.IH" [OF this "1.prems"] False "1.prems" have "n mod base < base" "n mod base < 36"
      "parse_digits base 0 (format_digits base (n div base)) = Some (n div base)"
      by (auto intro: less_le_trans [OF mod_less_divisor])
    with False "1.prems" show ?thesis
      by (simp add: format_digits.simps [of base n] parse_digits_append digit_value_digit)
  qed
qed

lemma ParseUint_FormatUint: "2 \<le> base \<Longrightarrow> base \<le> 36 \<Longrightarrow> ParseUint (FormatUint w base) base = Some w"
  using unsigned_less [of w] by (simp add: ParseUint_def FormatUint_def parse_format_digits)

lemma format_digits_length: "n < 36 ^ k \<Longrightarrow> 0 < k \<Longrightarrow> length (format_digits 36 n) \<le> k"
proof (induction k arbitrary: n)
  case (Suc k)
  show ?case
  proof (cases "n < 36")
    case True
    then show ?thesis by (simp add: format_digits.simps)
  next
    case False
    then have "n div 36 < 36 ^ k" "0 < k" using Suc.prems by (cases k; simp add: less_mult_imp_div_less mult.commute)+
    with Suc.IH [of "n div 36"] False show ?thesis by (simp add: format_digits.simps [of 36 n])
  qed
qed simp

lemma FormatUint_length: "length (FormatUint w 36) \<le> 13"
proof -
  have "unat w < 2 ^ 64" using unsigned_less [of w] by simp
  also have "(2 :: nat) ^ 64 < 36 ^ 13" by simp
  finally show ?thesis unfolding FormatUint_def by (rule format_digits_length) simp
qed

subsection \<open>Hexadecimal text\<close>

definition hex_digit :: "char \<Rightarrow> bool" where
  "hex_digit c = (case digit_value c of None \<Rightarrow> False | Some d \<Rightarrow> d < 16)"

definition hex_decodes :: "string \<Rightarrow> bool" where
  "hex_decodes s \<longleftrightarrow> even (length s) \<and> list_all hex_digit s"

definition TrimPrefix :: "string \<Rightarrow> string \<Rightarrow> string" where
  "TrimPrefix s p = (if take (length p) s = p then drop (length p) s else s)"

end
