(* ===== verification/Task_Timeline.thy ===== *)
theory Task_Timeline
  imports Host_Validate Go_Text
begin

section \<open>The task timeline (package \<open>timeline\<close>, timeline.go)\<close>

text \<open>
  A read-only projection of what happened in a task: records with increasing sequence numbers, served in pages that a
  reader follows with an opaque cursor. An error is the text after the package's sentinel. Where the code ranges over a map
  literal of fields to validate, the model checks them in the order they are written; Go leaves the order open, which only
  decides the error text that is reported first.
\<close>

definition TimelineContractVersion :: string where "TimelineContractVersion = ''rin.task-timeline/v1''"
definition DefaultLimit :: u32 where "DefaultLimit = 64"
definition MaximumLimit :: u32 where "MaximumLimit = 256"
definition MaximumWaitMS :: u32 where "MaximumWaitMS = 25000"
definition maxJSONSafeUint :: nat where "maxJSONSafeUint = 9007199254740991"

record memory_context_ref =
  mc_MemoryID :: string
  mc_Domain :: string
  mc_Source :: string
  mc_Rank :: u32
  mc_Digest :: string

record skill_context_ref =
  sc_SkillID :: string
  sc_Version :: string
  sc_Digest :: string

record signal_context_ref =
  sg_SignalID :: string
  sg_Kind :: string
  sg_Cursor :: u64

record model_usage =
  mu_Model :: string
  mu_LatencyMillis :: "u64 option"
  mu_PromptTokens :: "u64 option"
  mu_CompletionTokens :: "u64 option"
  mu_TotalTokens :: "u64 option"
  mu_CacheHitTokens :: "u64 option"
  mu_CacheMissTokens :: "u64 option"
  mu_CacheWriteTokens :: "u64 option"

record policy_summary =
  py_Disposition :: string
  py_ReasonCode :: string
  py_HumanSummary :: string
  py_MatchedRuleIDs :: "string list"
  py_ConfirmationPending :: bool
  py_EffectCount :: u32

record operation_summary =
  os_OperationID :: string
  os_Status :: string
  os_Terminal :: bool
  os_ExecutionConfirmed :: bool
  os_ReconciliationPending :: bool
  os_OutcomeCode :: string
  os_DeliveryAttempts :: u32
  os_ProgressSequence :: u64
  os_Progress :: u32
  os_CancelRequested :: bool

record timeline_event =
  ev_EventID :: string
  ev_Cursor :: string
  ev_OccurredAt :: int
  ev_TaskID :: string
  ev_SessionID :: string
  ev_HostID :: string
  ev_WorldID :: string
  ev_ActorID :: string
  ev_ControllerID :: string
  ev_Step :: u32
  ev_PlanID :: string
  ev_PlanRevision :: u64
  ev_PlanStepID :: string
  ev_Signal :: "signal_context_ref option"
  ev_EventKind :: string
  ev_PublicSummary :: string
  ev_ReasonCode :: string
  ev_GoalDigest :: string
  ev_ObservationID :: string
  ev_ObservationSequence :: u64
  ev_Epoch :: "epoch option"
  ev_Capability :: "capability_ref option"
  ev_SkillRefs :: "skill_context_ref list"
  ev_MemoryContextRefs :: "memory_context_ref list"
  ev_Model :: "model_usage option"
  ev_Policy :: "policy_summary option"
  ev_Operation :: "operation_summary option"

record timeline_record =
  tr_Sequence :: u64
  tr_Event :: timeline_event

record timeline_snapshot =
  ts_TaskID :: string
  ts_Goal :: string
  ts_GoalDigest :: string
  ts_Status :: string
  ts_LatestSequence :: u64
  ts_TruncatedBefore :: u64
  ts_Records :: "timeline_record list"

record timeline_query =
  tq_TaskID :: string
  tq_AfterCursor :: string
  tq_Limit :: u32

record timeline_wait_input =
  tw_TaskID :: string
  tw_AfterCursor :: string
  tw_Limit :: u32
  tw_WaitMillis :: u32

record timeline_page =
  tg_ContractVersion :: string
  tg_TaskID :: string
  tg_Goal :: string
  tg_GoalDigest :: string
  tg_Status :: string
  tg_Events :: "timeline_event list"
  tg_NextCursor :: string
  tg_More :: bool
  tg_Truncated :: bool

record timeline_update =
  tu_Timeline :: timeline_page
  tu_Changed :: bool

subsection \<open>Cursors and queries\<close>

definition timeline_validateText :: "string \<Rightarrow> string \<Rightarrow> nat \<Rightarrow> bool \<Rightarrow> string option" where
  "timeline_validateText field value maximum required =
     first_err [
       require (\<not> (required \<and> value = [])) (field @ '' is required''),
       require (valid_utf8 value \<and> length value \<le> maximum)
         (field @ '' must be valid UTF-8 of at most '' @ format_nat maximum @ '' bytes'')]"

definition FormatCursor :: "u64 \<Rightarrow> string" where
  "FormatCursor sequence = ''tl1:'' @ FormatUint sequence 36"

definition ParseCursor :: "string \<Rightarrow> string + u64" where
  "ParseCursor cursor =
     (if cursor = [] then Inr 0
      else if length cursor > 64 \<or> take 4 cursor \<noteq> ''tl1:'' then Inl ''after_cursor is not a Rin timeline cursor''
      else case ParseUint (TrimPrefix cursor ''tl1:'') 36 of
        None \<Rightarrow> Inl ''after_cursor is invalid''
      | Some sequence \<Rightarrow> if cursor \<noteq> FormatCursor sequence then Inl ''after_cursor is invalid'' else Inr sequence)"

definition WaitInput_Query :: "timeline_wait_input \<Rightarrow> timeline_query" where
  "WaitInput_Query input = \<lparr>tq_TaskID = tw_TaskID input, tq_AfterCursor = tw_AfterCursor input, tq_Limit = tw_Limit input\<rparr>"

definition NormalizeQuery :: "timeline_query \<Rightarrow> string + timeline_query \<times> u64" where
  "NormalizeQuery query0 =
     (let query = query0\<lparr>tq_TaskID := TrimSpace (tq_TaskID query0)\<rparr> in
      guard_err (timeline_validateText ''task_id'' (tq_TaskID query) 128 True)
        (let query = (if tq_Limit query = 0 then query\<lparr>tq_Limit := DefaultLimit\<rparr> else query) in
         if tq_Limit query > MaximumLimit then Inl (''limit must not exceed '' @ format_nat (unat MaximumLimit))
         else ebind (ParseCursor (tq_AfterCursor query)) (\<lambda>after. Inr (query, after))))"

definition NormalizeWait :: "timeline_wait_input \<Rightarrow> string + timeline_wait_input \<times> u64" where
  "NormalizeWait input =
     ebind (NormalizeQuery (WaitInput_Query input)) (\<lambda>(query, after).
       if tw_WaitMillis input > MaximumWaitMS then Inl (''wait_millis must not exceed '' @ format_nat (unat MaximumWaitMS))
       else Inr (input\<lparr>tw_TaskID := tq_TaskID query, tw_AfterCursor := tq_AfterCursor query, tw_Limit := tq_Limit query\<rparr>, after))"

subsection \<open>Events\<close>

definition validDigest :: "string \<Rightarrow> bool" where
  "validDigest value \<longleftrightarrow> (let v = TrimPrefix value ''sha256:'' in length v = 64 \<and> hex_decodes v)"

definition json_safe_uint :: "u64 \<Rightarrow> bool" where
  "json_safe_uint w \<longleftrightarrow> unat w \<le> maxJSONSafeUint"

definition ValidateSignalContextRef :: "signal_context_ref \<Rightarrow> string option" where
  "ValidateSignalContextRef v =
     first_err [
       timeline_validateText ''signal_id'' (sg_SignalID v) 128 True,
       timeline_validateText ''signal.kind'' (sg_Kind v) 128 True,
       require (sg_Cursor v \<noteq> 0 \<and> json_safe_uint (sg_Cursor v)) ''signal cursor is invalid'']"

definition validate_skill_ref :: "nat \<Rightarrow> skill_context_ref list \<Rightarrow> skill_context_ref \<Rightarrow> string option" where
  "validate_skill_ref i seen r =
     first_err [
       timeline_validateText (indexed ''skill_refs'' i @ ''.skill_id'') (sc_SkillID r) 96 True,
       timeline_validateText (indexed ''skill_refs'' i @ ''.version'') (sc_Version r) 96 True,
       require (validDigest (sc_Digest r)) (indexed ''skill_refs'' i @ ''.digest is invalid''),
       require (sc_SkillID r @ NUL # sc_Version r \<notin> (\<lambda>s. sc_SkillID s @ NUL # sc_Version s) ` set seen)
         ''skill_refs contain a duplicate'']"

definition validate_memory_ref :: "nat \<Rightarrow> memory_context_ref list \<Rightarrow> memory_context_ref \<Rightarrow> string option" where
  "validate_memory_ref i seen r =
     first_err [
       timeline_validateText (indexed ''memory_context_refs'' i @ ''.memory_id'') (mc_MemoryID r) 128 True,
       timeline_validateText (indexed ''memory_context_refs'' i @ ''.domain'') (mc_Domain r) 128 True,
       timeline_validateText (indexed ''memory_context_refs'' i @ ''.source'') (mc_Source r) 128 True,
       require (mc_Rank r \<noteq> 0 \<and> mc_Rank r \<le> 64 \<and> validDigest (mc_Digest r)) (indexed ''memory_context_refs'' i @ '' is invalid''),
       require (mc_MemoryID r \<notin> mc_MemoryID ` set seen) ''memory_context_refs contain a duplicate'',
       require (mc_Rank r \<notin> mc_Rank ` set seen) ''memory context ranks contain a duplicate'']"

definition validateContextRefs :: "timeline_event \<Rightarrow> string option" where
  "validateContextRefs e =
     first_err [
       require (length (ev_SkillRefs e) \<le> 64 \<and> length (ev_MemoryContextRefs e) \<le> 64) ''context reference limit exceeded'',
       loop_err validate_skill_ref [] (ev_SkillRefs e),
       loop_err validate_memory_ref [] (ev_MemoryContextRefs e)]"

definition validateModelUsage :: "model_usage option \<Rightarrow> string option" where
  "validateModelUsage usage =
     (case usage of
        None \<Rightarrow> None
      | Some u \<Rightarrow>
          first_err [
            timeline_validateText ''model_usage.model'' (mu_Model u) 200 False,
            loop_err (\<lambda>j seen (field, value). case value of
                None \<Rightarrow> None
              | Some w \<Rightarrow> require (json_safe_uint w) (''model_usage.'' @ field @ '' is not JSON-safe'')) []
              [(''latency_ms'', mu_LatencyMillis u), (''prompt_tokens'', mu_PromptTokens u),
               (''completion_tokens'', mu_CompletionTokens u), (''total_tokens'', mu_TotalTokens u),
               (''cache_hit_tokens'', mu_CacheHitTokens u), (''cache_miss_tokens'', mu_CacheMissTokens u),
               (''cache_write_tokens'', mu_CacheWriteTokens u)]])"

definition validatePolicySummary :: "policy_summary option \<Rightarrow> string option" where
  "validatePolicySummary summary =
     (case summary of
        None \<Rightarrow> None
      | Some p \<Rightarrow>
          first_err [
            require (py_Disposition p \<in> {''allow'', ''deny'', ''require_confirmation''}) ''policy disposition is invalid'',
            timeline_validateText ''policy.reason_code'' (py_ReasonCode p) 128 False,
            timeline_validateText ''policy.human_summary'' (py_HumanSummary p) 500 False,
            require (length (py_MatchedRuleIDs p) \<le> 1024) ''policy matched rule limit exceeded'',
            loop_err (\<lambda>i seen ruleID. first_err [
                timeline_validateText (indexed ''policy.matched_rule_ids'' i) ruleID 96 True,
                require (ruleID \<notin> set seen) ''policy matched rules contain a duplicate'']) [] (py_MatchedRuleIDs p)])"

definition validateOperationSummary :: "operation_summary option \<Rightarrow> string option" where
  "validateOperationSummary summary =
     (case summary of
        None \<Rightarrow> None
      | Some p \<Rightarrow>
          first_err [
            timeline_validateText ''operation.operation_id'' (os_OperationID p) 128 True,
            timeline_validateText ''operation.status'' (os_Status p) 64 True,
            timeline_validateText ''operation.outcome_code'' (os_OutcomeCode p) 128 False,
            require (os_Progress p \<le> 100 \<and> json_safe_uint (os_ProgressSequence p)) ''operation progress is invalid'',
            require (\<not> (os_ExecutionConfirmed p \<and> (\<not> os_Terminal p \<or> os_Status p \<noteq> ''succeeded'')))
              ''confirmed execution must be terminal success'',
            require (\<not> (os_ReconciliationPending p \<and> os_Terminal p)) ''terminal operation cannot await reconciliation''])"

definition complete_event :: "timeline_snapshot \<Rightarrow> timeline_record \<Rightarrow> timeline_event" where
  "complete_event snapshot r =
     (let e = tr_Event r; e = (if ev_TaskID e = [] then e\<lparr>ev_TaskID := ts_TaskID snapshot\<rparr> else e);
          e = (if ev_EventID e = [] then e\<lparr>ev_EventID := ts_TaskID snapshot @ ''.event.'' @ format_u64 (tr_Sequence r)\<rparr> else e);
          e = e\<lparr>ev_Cursor := FormatCursor (tr_Sequence r)\<rparr>
      in if ev_GoalDigest e = [] then e\<lparr>ev_GoalDigest := ts_GoalDigest snapshot\<rparr> else e)"

definition validate_plan_reference :: "timeline_event \<Rightarrow> string option" where
  "validate_plan_reference e =
     (if ev_PlanID e = [] then require (ev_PlanRevision e = 0 \<and> ev_PlanStepID e = []) ''incomplete plan reference''
      else map_option (\<lambda>x. ve_Field x @ '': '' @ ve_Message x)
        (PlanStepRef_Validate \<lparr>ps_PlanID = ev_PlanID e, ps_PlanRevision = ev_PlanRevision e, ps_StepID = ev_PlanStepID e\<rparr> ''plan_step_ref''))"

definition validate_event_texts :: "timeline_event \<Rightarrow> string option" where
  "validate_event_texts e =
     first_err [
       loop_err (\<lambda>j seen (field, value). timeline_validateText field value 192 True) []
         [(''event_id'', ev_EventID e), (''task_id'', ev_TaskID e), (''event_kind'', ev_EventKind e)],
       loop_err (\<lambda>j seen (field, value). timeline_validateText field value 128 False) []
         [(''session_id'', ev_SessionID e), (''host_id'', ev_HostID e), (''world_id'', ev_WorldID e), (''actor_id'', ev_ActorID e),
          (''controller_id'', ev_ControllerID e), (''observation_id'', ev_ObservationID e)],
       require (0 \<le> ev_OccurredAt e \<and> ev_OccurredAt e \<le> int maxJSONSafeUint) ''event time is invalid'',
       timeline_validateText ''public_summary'' (ev_PublicSummary e) 500 False,
       timeline_validateText ''reason_code'' (ev_ReasonCode e) 128 False,
       timeline_validateText ''goal_digest'' (ev_GoalDigest e) 71 False,
       require (ev_GoalDigest e = [] \<or> validDigest (ev_GoalDigest e)) ''goal_digest is invalid'']"

definition sealEvent :: "timeline_snapshot \<Rightarrow> timeline_record \<Rightarrow> string + timeline_event" where
  "sealEvent snapshot r =
     (let e = complete_event snapshot r in
      guard_err (first_err [
          require (ev_TaskID e = ts_TaskID snapshot) ''event task_id does not match snapshot'',
          validate_event_texts e,
          require (\<not> (ev_ObservationID e \<noteq> [] \<and> ev_ObservationSequence e = 0)) ''observation_id requires a sequence'',
          require ((ev_ObservationSequence e = 0) = (ev_Epoch e = None)) ''observation sequence and epoch must appear together'',
          require (json_safe_uint (ev_ObservationSequence e)) ''observation sequence is not JSON-safe'',
          (case ev_Epoch e of
             None \<Rightarrow> None
           | Some epoch \<Rightarrow> map_option (\<lambda>x. ve_Field x @ '': '' @ ve_Message x) (Epoch_Validate epoch ''epoch'')),
          (case ev_Capability e of
             None \<Rightarrow> None
           | Some c \<Rightarrow> map_option (\<lambda>x. ve_Field x @ '': '' @ ve_Message x) (CapabilityRef_Validate c ''capability'')),
          validate_plan_reference e,
          (case ev_Signal e of None \<Rightarrow> None | Some s \<Rightarrow> ValidateSignalContextRef s),
          validateContextRefs e,
          validateModelUsage (ev_Model e),
          validatePolicySummary (ev_Policy e),
          validateOperationSummary (ev_Operation e)])
        (Inr e))"

subsection \<open>Pages\<close>

text \<open>The loop that fills a page: \<open>room\<close> events may still be added; the result is the events, the last sequence and whether more follow.\<close>

fun fill_page :: "timeline_snapshot \<Rightarrow> u64 \<Rightarrow> nat \<Rightarrow> u64 \<Rightarrow> timeline_record list \<Rightarrow> string + timeline_event list \<times> u64 \<times> bool" where
  "fill_page snapshot after room reached [] = Inr ([], reached, False)"
| "fill_page snapshot after room reached (r # rs) =
     (if tr_Sequence r = 0 \<or> tr_Sequence r \<le> after then fill_page snapshot after room reached rs
      else if room = 0 then Inr ([], reached, True)
      else ebind (sealEvent snapshot r) (\<lambda>e.
           ebind (fill_page snapshot after (room - 1) (tr_Sequence r) rs) (\<lambda>(es, final, more). Inr (e # es, final, more))))"

definition validate_sequences :: "timeline_snapshot \<Rightarrow> timeline_record list \<Rightarrow> string option" where
  "validate_sequences snapshot rs =
     loop_err (\<lambda>i seen r. first_err [
         require (\<not> (tr_Sequence r = 0 \<or> seen \<noteq> [] \<and> tr_Sequence r = tr_Sequence (last seen))) ''record sequence is invalid'',
         require (\<not> (ts_LatestSequence snapshot \<noteq> 0 \<and> ts_LatestSequence snapshot < tr_Sequence r)) ''record sequence exceeds snapshot''])
       [] rs"

definition BuildPage :: "timeline_snapshot \<Rightarrow> timeline_query \<Rightarrow> string + timeline_page" where
  "BuildPage snapshot query0 =
     ebind (NormalizeQuery query0) (\<lambda>(query, after).
       let records = sort_key tr_Sequence (ts_Records snapshot) in
       guard_err (first_err [
           require (ts_TaskID snapshot = tq_TaskID query) ''snapshot task_id does not match query'',
           timeline_validateText ''goal'' (ts_Goal snapshot) 2000 False,
           timeline_validateText ''status'' (ts_Status snapshot) 64 False,
           require (ts_GoalDigest snapshot = [] \<or> validDigest (ts_GoalDigest snapshot)) ''snapshot goal_digest is invalid'',
           require (ts_TruncatedBefore snapshot \<le> ts_LatestSequence snapshot) ''truncation cursor exceeds snapshot'',
           require (after \<le> ts_LatestSequence snapshot) ''after_cursor exceeds task timeline'',
           validate_sequences snapshot records])
       (ebind (fill_page snapshot after (unat (tq_Limit query)) after records) (\<lambda>(events, reached, more).
         Inr \<lparr>tg_ContractVersion = TimelineContractVersion, tg_TaskID = tq_TaskID query, tg_Goal = ts_Goal snapshot,
              tg_GoalDigest = ts_GoalDigest snapshot, tg_Status = ts_Status snapshot, tg_Events = events,
              tg_NextCursor = FormatCursor reached, tg_More = more,
              tg_Truncated = (ts_TruncatedBefore snapshot \<noteq> 0 \<and> after < ts_TruncatedBefore snapshot)\<rparr>)))"

subsection \<open>Cursors are read back\<close>

lemma FormatCursor_short: "length (FormatCursor w) \<le> 17"
  using FormatUint_length [of w] by (simp add: FormatCursor_def)

lemma ParseCursor_FormatCursor [simp]: "ParseCursor (FormatCursor w) = Inr w"
  using FormatCursor_short [of w] ParseUint_FormatUint [of 36 w]
  by (simp add: ParseCursor_def) (simp add: FormatCursor_def TrimPrefix_def)

lemma ParseCursor_exact: "ParseCursor c = Inr w \<longleftrightarrow> c = [] \<and> w = 0 \<or> c = FormatCursor w"
proof
  assume "ParseCursor c = Inr w"
  then show "c = [] \<and> w = 0 \<or> c = FormatCursor w"
    by (auto simp: ParseCursor_def split: if_splits option.splits)
next
  assume "c = [] \<and> w = 0 \<or> c = FormatCursor w"
  then show "ParseCursor c = Inr w" by (auto simp: ParseCursor_def [of "[]"])
qed

lemma FormatCursor_inj: "FormatCursor v = FormatCursor w \<longleftrightarrow> v = w"
  by (metis ParseCursor_FormatCursor Inr_inject)

subsection \<open>Following the cursor\<close>

abbreviation records_after :: "timeline_snapshot \<Rightarrow> u64 \<Rightarrow> timeline_record list" where
  "records_after snapshot after \<equiv> filter (\<lambda>r. after < tr_Sequence r) (sort_key tr_Sequence (ts_Records snapshot))"

lemma fill_page_result:
  assumes "fill_page snapshot after room reached rs = Inr (es, final, further)"
  shows "list_all2 (\<lambda>r e. sealEvent snapshot r = Inr e) (take room (filter (\<lambda>r. after < tr_Sequence r) rs)) es
    \<and> final = (if es = [] then reached else tr_Sequence (last (take room (filter (\<lambda>r. after < tr_Sequence r) rs))))
    \<and> further = (room < length (filter (\<lambda>r. after < tr_Sequence r) rs))"
  using assms
proof (induction snapshot after room reached rs arbitrary: es final further rule: fill_page.induct)
  case (2 snapshot after room reached r rs)
  have skip: "tr_Sequence r = 0 \<or> tr_Sequence r \<le> after \<longleftrightarrow> \<not> after < tr_Sequence r" by (metis not_less word_gt_0 word_not_simps(1))
  show ?case
  proof (cases "after < tr_Sequence r")
    case False
    then have "fill_page snapshot after room reached rs = Inr (es, final, further)" using "2.prems" skip by simp
    with "2.IH"(1) skip False show ?thesis by simp
  next
    case True
    show ?thesis
    proof (cases room)
      case 0
      with "2.prems" True skip show ?thesis by auto
    next
      case (Suc n)
      with "2.prems" True skip obtain e es' where e: "sealEvent snapshot r = Inr e" "es = e # es'"
        "fill_page snapshot after n (tr_Sequence r) rs = Inr (es', final, further)"
        by (auto simp: ebind_def split: sum.splits)
      have "list_all2 (\<lambda>r e. sealEvent snapshot r = Inr e) (take (room - 1) (filter (\<lambda>r. after < tr_Sequence r) rs)) es'
        \<and> final = (if es' = [] then tr_Sequence r else tr_Sequence (last (take (room - 1) (filter (\<lambda>r. after < tr_Sequence r) rs))))
        \<and> further = (room - 1 < length (filter (\<lambda>r. after < tr_Sequence r) rs))"
        by (rule "2.IH"(2)) (use e True skip Suc in auto)
      with e True Suc show ?thesis by (auto simp: list_all2_Nil2)
    qed
  qed
qed simp

lemma fill_page_succeeds:
  assumes "\<forall>r \<in> set rs. \<not> isl (sealEvent snapshot r)"
  shows "\<not> isl (fill_page snapshot after room reached rs)"
  using assms
proof (induction rs arbitrary: room reached)
  case (Cons r rs)
  then obtain e where "sealEvent snapshot r = Inr e" by (cases "sealEvent snapshot r") auto
  moreover have "\<not> isl (fill_page snapshot after (room - 1) (tr_Sequence r) rs)" using Cons by simp
  then obtain result where "fill_page snapshot after (room - 1) (tr_Sequence r) rs = Inr result"
    by (cases "fill_page snapshot after (room - 1) (tr_Sequence r) rs") auto
  ultimately show ?case using Cons by (simp add: ebind_def split: prod.split)
qed simp

lemma sorted_filter_above:
  fixes key :: "'a \<Rightarrow> 'b::linorder"
  assumes "sorted_wrt (\<lambda>x y. key x < key y) xs" "k < length xs"
  shows "filter (\<lambda>x. key (xs ! k) < key x) xs = drop (Suc k) xs"
proof -
  have "xs = take (Suc k) xs @ drop (Suc k) xs" by simp
  moreover have "filter (\<lambda>x. key (xs ! k) < key x) (take (Suc k) xs) = []"
    unfolding filter_empty_conv
  proof
    fix x assume "x \<in> set (take (Suc k) xs)"
    then obtain j where "j \<le> k" "x = xs ! j" by (auto simp: in_set_conv_nth less_Suc_eq_le)
    then show "\<not> key (xs ! k) < key x"
      using assms sorted_wrt_nth_less [OF assms(1), of j k] by (cases "j = k") auto
  qed
  moreover have "filter (\<lambda>x. key (xs ! k) < key x) (drop (Suc k) xs) = drop (Suc k) xs"
    unfolding filter_id_conv
  proof
    fix x assume "x \<in> set (drop (Suc k) xs)"
    then obtain j where "j < length xs - Suc k" "x = xs ! (Suc k + j)" by (auto simp: in_set_conv_nth)
    then show "key (xs ! k) < key x" using sorted_wrt_nth_less [OF assms(1), of k "Suc k + j"] by simp
  qed
  ultimately show ?thesis by (metis append_Nil filter_append)
qed

lemma strictly_sorted:
  assumes "validate_sequences snapshot (sort_key tr_Sequence rs) = None"
  shows "sorted_wrt (\<lambda>x y. tr_Sequence x < tr_Sequence y) (sort_key tr_Sequence rs)"
    and "r \<in> set rs \<Longrightarrow> ts_LatestSequence snapshot \<noteq> 0 \<Longrightarrow> tr_Sequence r \<le> ts_LatestSequence snapshot"
proof -
  let ?xs = "sort_key tr_Sequence rs"
  have step: "tr_Sequence (?xs ! i) < tr_Sequence (?xs ! Suc i)" if "Suc i < length ?xs" for i
  proof -
    have "tr_Sequence (?xs ! i) \<le> tr_Sequence (?xs ! Suc i)"
      using that sorted_nth_mono [of "map tr_Sequence ?xs" i "Suc i"] by simp
    moreover have "tr_Sequence (?xs ! Suc i) \<noteq> tr_Sequence (?xs ! i)"
    proof -
      have "last (take (Suc i) ?xs) = ?xs ! i" using that by (simp add: take_Suc_conv_app_nth)
      moreover have "take (Suc i) ?xs \<noteq> []" using that by (auto simp flip: length_0_conv)
      ultimately show ?thesis
        using assms that unfolding validate_sequences_def loop_err_None_iff by fastforce
    qed
    ultimately show ?thesis by simp
  qed
  have "transp (\<lambda>x y. tr_Sequence x < tr_Sequence y)" by (auto intro: transpI)
  then show "sorted_wrt (\<lambda>x y. tr_Sequence x < tr_Sequence y) ?xs"
    using step by (subst sorted_wrt_iff_nth_Suc_transp) simp_all
  assume "r \<in> set rs" and "ts_LatestSequence snapshot \<noteq> 0"
  have "r \<in> set ?xs" using \<open>r \<in> set rs\<close> by simp
  from loop_err_all [OF assms [unfolded validate_sequences_def] this]
  have "\<not> (ts_LatestSequence snapshot \<noteq> 0 \<and> ts_LatestSequence snapshot < tr_Sequence r)" by (auto simp: first_err_None_iff)
  with \<open>ts_LatestSequence snapshot \<noteq> 0\<close> show "tr_Sequence r \<le> ts_LatestSequence snapshot" by (simp add: not_less)
qed

text \<open>A reader that follows \<open>next_cursor\<close> while a page says that more follows; the first argument bounds the number of pages.\<close>

primrec read_timeline :: "nat \<Rightarrow> timeline_snapshot \<Rightarrow> timeline_query \<Rightarrow> (string + timeline_event list) option" where
  "read_timeline 0 snapshot query = None"
| "read_timeline (Suc pages) snapshot query =
     (case BuildPage snapshot query of
        Inl e \<Rightarrow> Some (Inl e)
      | Inr page \<Rightarrow>
          if tg_More page
          then map_option (map_sum id (\<lambda>es. tg_Events page @ es)) (read_timeline pages snapshot (query\<lparr>tq_AfterCursor := tg_NextCursor page\<rparr>))
          else Some (Inr (tg_Events page)))"

definition servable :: "timeline_snapshot \<Rightarrow> bool" where
  "servable snapshot \<longleftrightarrow>
     timeline_validateText ''goal'' (ts_Goal snapshot) 2000 False = None
     \<and> timeline_validateText ''status'' (ts_Status snapshot) 64 False = None
     \<and> (ts_GoalDigest snapshot = [] \<or> validDigest (ts_GoalDigest snapshot))
     \<and> ts_TruncatedBefore snapshot \<le> ts_LatestSequence snapshot
     \<and> validate_sequences snapshot (sort_key tr_Sequence (ts_Records snapshot)) = None
     \<and> (\<forall>r \<in> set (ts_Records snapshot). tr_Sequence r \<le> ts_LatestSequence snapshot)
     \<and> (\<forall>r \<in> set (ts_Records snapshot). \<not> isl (sealEvent snapshot r))"

lemma NormalizeQuery_limit: "NormalizeQuery query = Inr (query', after) \<Longrightarrow> tq_Limit query' \<noteq> 0"
  by (auto simp: NormalizeQuery_def Let_def guard_err_def ebind_def DefaultLimit_def split: option.splits sum.splits if_splits)

lemma NormalizeQuery_next:
  assumes "NormalizeQuery query = Inr (query', after)"
  shows "NormalizeQuery (query\<lparr>tq_AfterCursor := FormatCursor w\<rparr>) = Inr (query'\<lparr>tq_AfterCursor := FormatCursor w\<rparr>, w)"
  using assms by (auto simp: NormalizeQuery_def Let_def guard_err_def ebind_def split: option.splits sum.splits if_splits)

lemma BuildPage_servable:
  assumes "servable snapshot" "NormalizeQuery query = Inr (query', after)" "tq_TaskID query' = ts_TaskID snapshot"
    and "after \<le> ts_LatestSequence snapshot"
  obtains page where "BuildPage snapshot query = Inr page"
    "list_all2 (\<lambda>r e. sealEvent snapshot r = Inr e) (take (unat (tq_Limit query')) (records_after snapshot after)) (tg_Events page)"
    "tg_More page = (unat (tq_Limit query') < length (records_after snapshot after))"
    "tg_NextCursor page = FormatCursor (if tg_Events page = [] then after
       else tr_Sequence (last (take (unat (tq_Limit query')) (records_after snapshot after))))"
proof -
  let ?rs = "sort_key tr_Sequence (ts_Records snapshot)"
  have "\<not> isl (fill_page snapshot after (unat (tq_Limit query')) after ?rs)"
    using assms(1) by (intro fill_page_succeeds) (simp add: servable_def)
  then obtain es final further where fill: "fill_page snapshot after (unat (tq_Limit query')) after ?rs = Inr (es, final, further)"
    by (cases "fill_page snapshot after (unat (tq_Limit query')) after ?rs") auto
  let ?page = "\<lparr>tg_ContractVersion = TimelineContractVersion, tg_TaskID = tq_TaskID query', tg_Goal = ts_Goal snapshot,
              tg_GoalDigest = ts_GoalDigest snapshot, tg_Status = ts_Status snapshot, tg_Events = es,
              tg_NextCursor = FormatCursor final, tg_More = further,
              tg_Truncated = (ts_TruncatedBefore snapshot \<noteq> 0 \<and> after < ts_TruncatedBefore snapshot)\<rparr>"
  have "BuildPage snapshot query = Inr ?page"
    using assms fill by (simp add: BuildPage_def ebind_def guard_err_def servable_def Let_def)
  then show thesis by (rule that) (use fill_page_result [OF fill] in simp_all)
qed

lemma read_timeline_complete:
  assumes "servable snapshot" "NormalizeQuery query = Inr (query', after)" "tq_TaskID query' = ts_TaskID snapshot"
    and "after \<le> ts_LatestSequence snapshot" "length (records_after snapshot after) < pages"
  shows "\<exists>es. read_timeline pages snapshot query = Some (Inr es)
    \<and> list_all2 (\<lambda>r e. sealEvent snapshot r = Inr e) (records_after snapshot after) es"
  using assms(2-)
proof (induction pages arbitrary: query query' after)
  case (Suc pages)
  let ?n = "unat (tq_Limit query')" and ?xs = "records_after snapshot after"
  from BuildPage_servable [OF assms(1) Suc.prems(1-3)] obtain page where page: "BuildPage snapshot query = Inr page"
    "list_all2 (\<lambda>r e. sealEvent snapshot r = Inr e) (take ?n ?xs) (tg_Events page)" "tg_More page = (?n < length ?xs)"
    "tg_NextCursor page = FormatCursor (if tg_Events page = [] then after else tr_Sequence (last (take ?n ?xs)))"
    by blast
  show ?case
  proof (cases "?n < length ?xs")
    case False
    with page show ?thesis by simp
  next
    case True
    have "0 < ?n" using NormalizeQuery_limit [OF Suc.prems(1)] by (simp add: unat_gt_0)
    define k where "k = ?n - 1"
    have k: "?n = Suc k" "k < length ?xs" using \<open>0 < ?n\<close> True by (simp_all add: k_def)
    let ?w = "tr_Sequence (?xs ! k)"
    have "take ?n ?xs \<noteq> []" using k by auto
    then have "tg_Events page \<noteq> []" using page(2) by (metis list_all2_Nil2)
    moreover have "last (take ?n ?xs) = ?xs ! k" using k by (simp add: take_Suc_conv_app_nth)
    ultimately have cursor: "tg_NextCursor page = FormatCursor ?w" using page(4) by simp
    have member: "?xs ! k \<in> set ?xs" using k(2) by (rule nth_mem)
    have sorted: "sorted_wrt (\<lambda>x y. tr_Sequence x < tr_Sequence y) ?xs"
      using assms(1) strictly_sorted(1) [of snapshot "ts_Records snapshot"] by (simp add: servable_def sorted_wrt_filter)
    have "records_after snapshot ?w = filter (\<lambda>r. ?w < tr_Sequence r) ?xs"
      using member by (auto simp: filter_filter intro!: filter_cong)
    also have "\<dots> = drop ?n ?xs" using sorted_filter_above [OF sorted k(2)] k(1) by simp
    finally have rest: "records_after snapshot ?w = drop ?n ?xs" .
    have "?w \<le> ts_LatestSequence snapshot" using member assms(1) by (auto simp: servable_def)
    moreover have "length (records_after snapshot ?w) < pages" using rest Suc.prems(4) \<open>0 < ?n\<close> True by simp
    ultimately obtain es where es: "read_timeline pages snapshot (query\<lparr>tq_AfterCursor := FormatCursor ?w\<rparr>) = Some (Inr es)"
      "list_all2 (\<lambda>r e. sealEvent snapshot r = Inr e) (drop ?n ?xs) es"
      using Suc.IH [OF NormalizeQuery_next [OF Suc.prems(1)]] Suc.prems(2) rest by fastforce
    have "list_all2 (\<lambda>r e. sealEvent snapshot r = Inr e) (take ?n ?xs @ drop ?n ?xs) (tg_Events page @ es)"
      using page(2) es(2) by (rule list_all2_appendI)
    then show ?thesis using page(1, 3) cursor es(1) True by simp
  qed
qed simp

lemma sealEvent_cursor: "sealEvent snapshot r = Inr e \<Longrightarrow> ev_Cursor e = FormatCursor (tr_Sequence r)"
  by (auto simp: sealEvent_def complete_event_def Let_def guard_err_def simp del: first_err.simps split: option.splits)

text \<open>
  a cursor is read back exactly: the parser accepts the empty cursor, which stands for the start, and the texts that the
  service formats, each with its own sequence number and in no other spelling.
\<close>

theorem cursors_are_exact: "ParseCursor c = Inr w \<longleftrightarrow> c = [] \<and> w = 0 \<or> c = FormatCursor w"
  by (rule ParseCursor_exact)

text \<open>
  C1: a reader that starts at any cursor and follows \<open>next_cursor\<close> gets every later event of the timeline exactly once and
  in order, whatever the page size, and is done after at most one page per record and one more.
\<close>

theorem reader_gets_every_event:
  assumes "servable snapshot" "NormalizeQuery query = Inr (query', after)" "tq_TaskID query' = ts_TaskID snapshot"
    and "after \<le> ts_LatestSequence snapshot"
  shows "\<exists>es. read_timeline (Suc (length (ts_Records snapshot))) snapshot query = Some (Inr es)
    \<and> map ev_Cursor es = map (\<lambda>r. FormatCursor (tr_Sequence r)) (records_after snapshot after) \<and> distinct (map ev_Cursor es)"
proof -
  have "length (records_after snapshot after) < Suc (length (ts_Records snapshot))"
    using length_filter_le [of _ "sort_key tr_Sequence (ts_Records snapshot)"] by (simp add: less_Suc_eq_le)
  from read_timeline_complete [OF assms this] obtain es
    where es: "read_timeline (Suc (length (ts_Records snapshot))) snapshot query = Some (Inr es)"
      "list_all2 (\<lambda>r e. sealEvent snapshot r = Inr e) (records_after snapshot after) es" by blast
  have cursors: "map ev_Cursor es = map (\<lambda>r. FormatCursor (tr_Sequence r)) (records_after snapshot after)"
    using es(2) by (induction rule: list_all2_induct) (auto simp: sealEvent_cursor)
  have "sorted_wrt (\<lambda>x y. tr_Sequence x < tr_Sequence y) (records_after snapshot after)"
    using assms(1) strictly_sorted(1) [of snapshot "ts_Records snapshot"] by (simp add: servable_def sorted_wrt_filter)
  then have "sorted_wrt (<) (map tr_Sequence (records_after snapshot after))" by (simp add: sorted_wrt_map)
  then have "distinct (map tr_Sequence (records_after snapshot after))" using strict_sorted_iff by blast
  then have "distinct (map ev_Cursor es)" unfolding cursors distinct_map by (auto simp: inj_on_def FormatCursor_inj)
  with es(1) cursors show ?thesis by blast
qed

definition sample_event :: timeline_event where
  "sample_event = \<lparr>ev_EventID = ''event'', ev_Cursor = '''', ev_OccurredAt = 1000, ev_TaskID = '''', ev_SessionID = '''', ev_HostID = '''',
     ev_WorldID = '''', ev_ActorID = '''', ev_ControllerID = '''', ev_Step = 0, ev_PlanID = '''', ev_PlanRevision = 0, ev_PlanStepID = '''',
     ev_Signal = None, ev_EventKind = ''task.created'', ev_PublicSummary = '''', ev_ReasonCode = '''', ev_GoalDigest = '''',
     ev_ObservationID = '''', ev_ObservationSequence = 0, ev_Epoch = None, ev_Capability = None, ev_SkillRefs = [],
     ev_MemoryContextRefs = [], ev_Model = None, ev_Policy = None, ev_Operation = None\<rparr>"

definition sample_timeline :: timeline_snapshot where
  "sample_timeline = \<lparr>ts_TaskID = ''task'', ts_Goal = ''goal'', ts_GoalDigest = '''', ts_Status = ''active'', ts_LatestSequence = 40,
     ts_TruncatedBefore = 0,
     ts_Records = map (\<lambda>n. \<lparr>tr_Sequence = n, tr_Event = sample_event\<rparr>) [7, 3, 40]\<rparr>"

definition sample_query :: timeline_query where
  "sample_query = \<lparr>tq_TaskID = '' task '', tq_AfterCursor = ''tl1:3'', tq_Limit = 1\<rparr>"

lemma sample_event_sealed: "\<not> isl (sealEvent sample_timeline \<lparr>tr_Sequence = n, tr_Event = sample_event\<rparr>)"
proof -
  have texts: "valid_utf8 ''event''" "valid_utf8 ''task''" "valid_utf8 ''task.created''" "valid_utf8 []"
    by (rule valid_utf8_ascii, simp add: ascii_def)+
  show ?thesis
    by (simp add: sealEvent_def complete_event_def sample_timeline_def sample_event_def guard_err_def Let_def validate_event_texts_def
      timeline_validateText_def texts maxJSONSafeUint_def json_safe_uint_def validate_plan_reference_def validateContextRefs_def
      validateModelUsage_def validatePolicySummary_def validateOperationSummary_def)
qed

theorem reader_gets_every_event_witness:
  "\<exists>es. read_timeline 4 sample_timeline sample_query = Some (Inr es) \<and> map ev_Cursor es = [''tl1:7'', ''tl1:14'']"
proof -
  have servable: "servable sample_timeline"
  proof -
    have "timeline_validateText ''goal'' ''goal'' 2000 False = None" "timeline_validateText ''status'' ''active'' 64 False = None"
      "validate_sequences sample_timeline (sort_key tr_Sequence (ts_Records sample_timeline)) = None" by code_simp+
    moreover have "\<forall>r \<in> set (ts_Records sample_timeline). \<not> isl (sealEvent sample_timeline r)"
      using sample_event_sealed by (auto simp: sample_timeline_def)
    ultimately show ?thesis by (simp add: servable_def sample_timeline_def)
  qed
  have query: "NormalizeQuery sample_query = Inr (sample_query\<lparr>tq_TaskID := ''task''\<rparr>, 3)" by code_simp
  have rest: "map (\<lambda>r. FormatCursor (tr_Sequence r)) (records_after sample_timeline 3) = [''tl1:7'', ''tl1:14'']" by code_simp
  have "length (ts_Records sample_timeline) = 3" "ts_TaskID sample_timeline = ''task''" "(3 :: u64) \<le> ts_LatestSequence sample_timeline"
    by (simp_all add: sample_timeline_def)
  moreover from this have "Suc (length (ts_Records sample_timeline)) = 4" by simp
  ultimately show ?thesis using reader_gets_every_event [OF servable query] unfolding rest by auto
qed

end
