(* ===== verification/Control_Timeline.thy ===== *)
theory Control_Timeline
  imports Control_Gateway Task_Timeline
begin

section \<open>The timeline of a task's operations (package \<open>controlplane\<close>, task_timeline.go)\<close>

text \<open>
  What a principal sees of the operations of a task: their recorded events as pages of the timeline, of its own operations
  only unless it administers Hosts. The waiting variant polls the same function until something changes; one pass of its loop
  is modelled.
\<close>

definition projectOperationTimelineEvent :: "operation_state \<Rightarrow> action_request \<Rightarrow> operation_timeline_event \<Rightarrow> timeline_event" where
  "projectOperationTimelineEvent op request item =
     \<lparr>ev_EventID = hc_OperationID (op_request op) @ ''.event.'' @ FormatUint (te_Sequence item) 36,
      ev_Cursor = '''', ev_OccurredAt = te_At item, ev_TaskID = rq_TaskID request, ev_SessionID = '''',
      ev_HostID = hc_HostID (op_request op), ev_WorldID = hc_WorldID (op_request op), ev_ActorID = hc_ActorID (op_request op),
      ev_ControllerID = (case hc_BoundAction (op_request op) of None \<Rightarrow> '''' | Some a \<Rightarrow> ba_ControllerID a),
      ev_Step = 0,
      ev_PlanID = (case rq_PlanStep request of None \<Rightarrow> '''' | Some p \<Rightarrow> ps_PlanID p),
      ev_PlanRevision = (case rq_PlanStep request of None \<Rightarrow> 0 | Some p \<Rightarrow> ps_PlanRevision p),
      ev_PlanStepID = (case rq_PlanStep request of None \<Rightarrow> '''' | Some p \<Rightarrow> ps_StepID p),
      ev_Signal = None, ev_EventKind = te_Kind item, ev_PublicSummary = te_Summary item, ev_ReasonCode = te_ReasonCode item,
      ev_GoalDigest = '''', ev_ObservationID = '''', ev_ObservationSequence = rq_ObservationSeq request,
      ev_Epoch = map_option cb_Epoch (hc_Binding (op_request op)),
      ev_Capability = Some (rq_Capability request), ev_SkillRefs = [], ev_MemoryContextRefs = [], ev_Model = None,
      ev_Policy = (if te_PolicyDisposition item = [] then None
        else Some \<lparr>py_Disposition = te_PolicyDisposition item, py_ReasonCode = te_PolicyReasonCode item,
               py_HumanSummary = te_PolicySummary item, py_MatchedRuleIDs = te_MatchedRuleIDs item,
               py_ConfirmationPending = te_ConfirmationPending item, py_EffectCount = te_EffectCount item\<rparr>),
      ev_Operation = Some \<lparr>os_OperationID = hc_OperationID (op_request op), os_Status = operation_status_string (te_Status item),
        os_Terminal = te_Terminal item, os_ExecutionConfirmed = te_ExecutionConfirmed item,
        os_ReconciliationPending = te_ReconciliationPending item, os_OutcomeCode = te_OutcomeCode item,
        os_DeliveryAttempts = te_DeliveryAttempts item, os_ProgressSequence = te_ProgressSequence item,
        os_Progress = te_Progress item, os_CancelRequested = te_CancelRequested item\<rparr>\<rparr>"

definition visible_in_task :: "principal \<Rightarrow> string \<Rightarrow> operation_state \<Rightarrow> bool" where
  "visible_in_task p taskID op \<longleftrightarrow>
     (case hc_ActionRequest (op_request op) of
        None \<Rightarrow> False
      | Some r \<Rightarrow> rq_TaskID r = taskID \<and> (hasScope p ScopeHostAdmin \<or> pr_ID (hc_Principal (op_request op)) = pr_ID p))"

definition task_records :: "operation_state \<Rightarrow> timeline_record list" where
  "task_records op =
     (case hc_ActionRequest (op_request op) of
        None \<Rightarrow> []
      | Some r \<Rightarrow> map (\<lambda>item. \<lparr>tr_Sequence = te_Sequence item, tr_Event = projectOperationTimelineEvent op r item\<rparr>) (op_timeline op))"

text \<open>The greatest sequence number of the items, with the status recorded then.\<close>

fun latest_of :: "operation_timeline_event list \<Rightarrow> u64 \<times> string \<Rightarrow> u64 \<times> string" where
  "latest_of [] acc = acc"
| "latest_of (item # items) (latest, status) =
     latest_of items (if latest < te_Sequence item then (te_Sequence item, operation_status_string (te_Status item)) else (latest, status))"

definition task_snapshot :: "string \<Rightarrow> operation_state list \<Rightarrow> timeline_snapshot" where
  "task_snapshot taskID ops =
     (let (latest, status) = latest_of (concat (map op_timeline ops)) (0, '''') in
      \<lparr>ts_TaskID = taskID, ts_Goal = '''', ts_GoalDigest = '''', ts_Status = status, ts_LatestSequence = latest,
       ts_TruncatedBefore = fold (\<lambda>op t. if t < op_timelineTruncatedBefore op then op_timelineTruncatedBefore op else t) ops 0,
       ts_Records = concat (map task_records ops)\<rparr>)"

text \<open>
  The loop that refreshes every visible operation reads each from the map as it is then, as the pointers it holds would show.
\<close>

definition refresh_visible :: "int \<Rightarrow> string list \<Rightarrow> service \<Rightarrow> service" where
  "refresh_visible now ids s =
     fold (\<lambda>i s. case map_of (sv_operations s) i of None \<Rightarrow> s | Some op \<Rightarrow> refreshOperationHostLocked i op now s) ids s"

definition taskTimelineLocked :: "int \<Rightarrow> service \<Rightarrow> principal \<Rightarrow> timeline_query \<Rightarrow> timeline_page outcome" where
  "taskTimelineLocked now s p query =
     (let ids = map fst (filter (\<lambda>(i, op). visible_in_task p (tq_TaskID query) op) (sv_operations s)) in
      if ids = [] then (Inl (fault ErrNotFound), s)
      else persisted (refresh_visible now ids s) (\<lambda>s1.
        let ops = List.map_filter (\<lambda>i. map_of (sv_operations s1) i) ids in
        ((case BuildPage (task_snapshot (tq_TaskID query) ops) query of
            Inl e \<Rightarrow> Inl (ControlError ErrPlain e)
          | Inr page \<Rightarrow> Inr page), s1)))"

definition GetTaskTimeline :: "int \<Rightarrow> service \<Rightarrow> principal \<Rightarrow> timeline_query \<Rightarrow> timeline_page outcome" where
  "GetTaskTimeline now s p query0 =
     (case ValidatePrincipal p of
        Some e \<Rightarrow> (Inl (ControlError ErrInvalid (''principal: '' @ error_text e)), s)
      | None \<Rightarrow>
          (case NormalizeQuery query0 of
             Inl e \<Rightarrow> (Inl (ControlError ErrInvalid e), s)
           | Inr (query, after) \<Rightarrow>
               if sv_closed s then (Inl (fault ErrUnavailable), s) else taskTimelineLocked now s p query))"

text \<open>One pass of the loop of \<open>WaitTaskTimeline\<close>: an update, or \<open>None\<close> when the caller has to wait for a change.\<close>

definition wait_task_timeline :: "int \<Rightarrow> service \<Rightarrow> principal \<Rightarrow> timeline_wait_input \<Rightarrow> bool \<Rightarrow> timeline_update option outcome" where
  "wait_task_timeline now s p input0 timer =
     (case ValidatePrincipal p of
        Some e \<Rightarrow> (Inl (ControlError ErrInvalid (''principal: '' @ error_text e)), s)
      | None \<Rightarrow>
          (case NormalizeWait input0 of
             Inl e \<Rightarrow> (Inl (ControlError ErrInvalid e), s)
           | Inr (input, after) \<Rightarrow>
               if sv_closed s then (Inl (fault ErrUnavailable), s)
               else
                 (case taskTimelineLocked now s p (WaitInput_Query input) of
                    (Inl e, s1) \<Rightarrow> (Inl e, s1)
                  | (Inr page, s1) \<Rightarrow>
                      (case ParseCursor (tg_NextCursor page) of
                         Inl e \<Rightarrow> (Inl (ControlError ErrInvalid e), s1)
                       | Inr latest \<Rightarrow>
                           if after < latest \<or> tw_WaitMillis input = 0 \<or> timer
                           then (Inr (Some \<lparr>tu_Timeline = page, tu_Changed = (after < latest)\<rparr>), s1)
                           else (Inr None, s1)))))"

end
