(* ===== verification/Control_Step.thy ===== *)
theory Control_Step
  imports Control_Timeline
begin

section \<open>The life of an operation\<close>

text \<open>
  An abstract state machine of one operation, \<open>op_step\<close>, and the proof that every method of the service changes the
  operations only along it: \<open>advances s s'\<close> says that each operation present afterwards was present before and has made some
  steps of the machine (operations may also disappear, when they are pruned); \<open>evolves s s'\<close> allows in addition new
  operations in one of the initial states. Properties of operations are then proved once, about the machine; the locale
  \<open>operation_property\<close> carries them to the service.
\<close>

subsection \<open>The state machine\<close>

text \<open>Everything about an operation but its timeline, its revision, its children and the bookkeeping of outcome subscribers.\<close>

definition same_execution :: "operation_state \<Rightarrow> operation_state \<Rightarrow> bool" where
  "same_execution op op' \<longleftrightarrow>
     op_request op' = op_request op \<and> op_status op' = op_status op \<and> op_attempts op' = op_attempts op
     \<and> op_cancel op' = op_cancel op \<and> op_ack op' = op_ack op \<and> op_run op' = op_run op \<and> op_outcome op' = op_outcome op
     \<and> op_output op' = op_output op \<and> op_rejection op' = op_rejection op \<and> op_idempotency op' = op_idempotency op
     \<and> op_createdAt op' = op_createdAt op"

abbreviation with_decision :: "operation_state \<Rightarrow> decision \<Rightarrow> operation_state" where
  "with_decision op d \<equiv> op\<lparr>op_request := (op_request op)\<lparr>hc_PolicyDecision := Some d\<rparr>\<rparr>"

inductive op_step :: "operation_state \<Rightarrow> operation_state \<Rightarrow> bool" where
  bookkeeping: "same_execution op op' \<Longrightarrow> op_step op op'"
| cancel_requested: "\<lbrakk>\<not> completeOperation op; same_execution (op\<lparr>op_cancel := True\<rparr>) op'\<rbrakk> \<Longrightarrow> op_step op op'"
| withdrawn: "\<lbrakk>\<not> completeOperation op; op_attempts op = 0; \<not> accepted_ack op; status \<in> {OperationStale, OperationCancelled};
     same_execution (op\<lparr>op_status := status\<rparr>) op'\<rbrakk> \<Longrightarrow> op_step op op'"
| dropped: "\<lbrakk>op_status op \<in> {OperationQueued, OperationAwaitingConfirmation}; status \<in> {OperationStale, OperationCancelled};
     same_execution (op\<lparr>op_status := status\<rparr>) op'\<rbrakk> \<Longrightarrow> op_step op op'"
| lost_unaccepted: "\<lbrakk>\<not> completeOperation op; \<not> accepted_ack op; same_execution (op\<lparr>op_status := OperationStale\<rparr>) op'\<rbrakk>
     \<Longrightarrow> op_step op op'"
| lost_accepted: "\<lbrakk>\<not> completeOperation op; accepted_ack op; same_execution (op\<lparr>op_status := OperationOutcomeUnknown\<rparr>) op'\<rbrakk>
     \<Longrightarrow> op_step op op'"
| delivered: "\<lbrakk>deliverable op;
     same_execution (op\<lparr>op_attempts := next_attempt (op_attempts op),
                        op_status := (if op_ack op = None then OperationDelivered else op_status op)\<rparr>) op'\<rbrakk> \<Longrightarrow> op_step op op'"
| acknowledged: "\<lbrakk>op_status op = OperationDelivered; op_ack op = None; ha_Accepted ack;
     same_execution (op\<lparr>op_ack := Some ack, op_status := OperationAccepted\<rparr>) op'\<rbrakk> \<Longrightarrow> op_step op op'"
| refused: "\<lbrakk>op_status op = OperationDelivered; op_ack op = None; \<not> ha_Accepted ack;
     same_execution (op\<lparr>op_ack := Some ack, op_status := OperationRejected, op_rejection := ack\<rparr>) op'\<rbrakk> \<Longrightarrow> op_step op op'"
| progressed: "\<lbrakk>op_outcome op = None; accepted_ack op; ValidateActionRun run = None; run_conflict (op_run op) run = None;
     \<forall>old. op_run op = Some old \<longrightarrow> ar_ProgressSeq old < ar_ProgressSeq run;
     same_execution (op\<lparr>op_run := Some run, op_status := operationStatusFromRun (ar_Status run)\<rparr>) op'\<rbrakk> \<Longrightarrow> op_step op op'"
| finished: "\<lbrakk>op_outcome op = None; ValidateActionOutcome oc = None; outcome_conflict op oc = None;
     same_execution (op\<lparr>op_outcome := Some oc, op_output := output, op_status := operationStatusFromRun (ao_Status oc)\<rparr>) op'\<rbrakk>
     \<Longrightarrow> op_step op op'"
| approved: "\<lbrakk>op_status op = OperationAwaitingConfirmation; de_Result d = Allow;
     same_execution ((with_decision op d)\<lparr>op_status := OperationQueued\<rparr>) op'\<rbrakk> \<Longrightarrow> op_step op op'"
| denied: "\<lbrakk>op_status op = OperationAwaitingConfirmation; de_Result d = Deny;
     same_execution ((with_decision op d)\<lparr>op_status := OperationRejected,
                       op_rejection := deny_rejection (hc_OperationID (op_request op)) d\<rparr>) op'\<rbrakk> \<Longrightarrow> op_step op op'"
| asked_again: "\<lbrakk>op_status op = OperationAwaitingConfirmation; de_Result d = RequireConfirmation;
     same_execution (with_decision op d) op'\<rbrakk> \<Longrightarrow> op_step op op'"

lemma same_execution_refl [simp, intro]: "same_execution op op"
  by (simp add: same_execution_def)

lemma same_execution_trans [trans]: "same_execution a b \<Longrightarrow> same_execution b c \<Longrightarrow> same_execution a c"
  by (simp add: same_execution_def)

lemma op_step_then_same: "op_step op op1 \<Longrightarrow> same_execution op1 op' \<Longrightarrow> op_step op op'"
  by (induction rule: op_step.induct) (blast intro: op_step.intros same_execution_trans)+

lemma op_step_keeps_identity:
  assumes "op_step op op'"
  shows "hc_OperationID (op_request op') = hc_OperationID (op_request op)"
  using assms by (induction rule: op_step.induct) (simp_all add: same_execution_def)

text \<open>An operation that waits for a confirmation has not been offered to a Host.\<close>

definition awaits_idle :: "operation_state \<Rightarrow> bool" where
  "awaits_idle op \<longleftrightarrow> (op_status op = OperationAwaitingConfirmation \<longrightarrow> op_attempts op = 0 \<and> op_ack op = None)"

lemma run_status_not_waiting [simp]:
  "operationStatusFromRun s \<noteq> OperationAwaitingConfirmation" "operationStatusFromRun s \<noteq> OperationQueued"
  "operationStatusFromRun s \<noteq> OperationDelivered" "operationStatusFromRun s \<noteq> OperationRejected"
  by (cases s; simp)+

lemma op_step_keeps_idle:
  assumes "op_step op op'" "awaits_idle op"
  shows "awaits_idle op'"
  using assms by (induction rule: op_step.induct) (auto simp: same_execution_def awaits_idle_def deliverable_def split: if_splits)

definition well_placed :: "string \<Rightarrow> operation_state \<Rightarrow> bool" where
  "well_placed i op \<longleftrightarrow> hc_OperationID (op_request op) = i \<and> awaits_idle op"

lemma op_steps_keep_place:
  assumes "op_step\<^sup>*\<^sup>* op op'" "well_placed i op"
  shows "well_placed i op'"
  using assms by (induction rule: rtranclp_induct) (simp_all add: well_placed_def op_step_keeps_identity op_step_keeps_idle)

lemma record_timeline_same [simp]: "same_execution op (fst (record_timeline op n))"
  by (simp add: record_timeline_def same_execution_def Let_def)

text \<open>The bodies of the loops over operations are steps of the machine.\<close>

lemma stale_or_cancel_step:
  assumes "stale_or_cancel now undelivered status op = (op', c)" "\<not> completeOperation op" "status \<in> {OperationStale, OperationCancelled}"
    and "undelivered \<Longrightarrow> op_attempts op = 0 \<and> \<not> accepted_ack op"
  shows "op_step op op'"
proof (cases undelivered)
  case True
  then have "same_execution (op\<lparr>op_status := status\<rparr>) op'" using assms(1) by (auto simp: stale_or_cancel_def same_execution_def)
  then show ?thesis using assms True by (blast intro: op_step.withdrawn)
next
  case False
  then have "same_execution (op\<lparr>op_cancel := True\<rparr>) op'" using assms(1) by (auto simp: stale_or_cancel_def same_execution_def)
  then show ?thesis using assms(2) by (rule op_step.cancel_requested [rotated])
qed

lemma unacknowledged_not_accepted [simp]: "op_ack op = None \<Longrightarrow> \<not> accepted_ack op"
  by (simp add: accepted_ack_def)

lemma fence_authority_op_step: "fence_authority_step now h w p op = Some (op', c) \<Longrightarrow> op_step op op'"
  by (auto simp: fence_authority_step_def split: if_splits option.splits intro: stale_or_cancel_step)

lemma fence_controller_op_step: "fence_controller_step l now op = Some (op', c) \<Longrightarrow> op_step op op'"
  by (auto simp: fence_controller_step_def split: if_splits option.splits intro: stale_or_cancel_step)

lemma cancel_actor_op_step: "cancel_actor_step k now op = Some (op', c) \<Longrightarrow> op_step op op'"
  by (auto simp: cancel_actor_step_def split: if_splits option.splits intro: stale_or_cancel_step)

lemma lose_host_step:
  assumes "\<not> completeOperation op" "lose_host now op = (op', c)"
  shows "op_step op op'"
proof (cases "accepted_ack op")
  case True
  then have "same_execution (op\<lparr>op_status := OperationOutcomeUnknown\<rparr>) op'"
    using assms(2) by (auto simp: lose_host_def same_execution_def)
  then show ?thesis using assms(1) True by (blast intro: op_step.lost_accepted)
next
  case False
  then have "same_execution (op\<lparr>op_status := OperationStale\<rparr>) op'"
    using assms(2) by (auto simp: lose_host_def same_execution_def)
  then show ?thesis using assms(1) False by (blast intro: op_step.lost_unaccepted)
qed

lemma expire_host_op_step: "expire_host_step h now op = Some (op', c) \<Longrightarrow> op_step op op'"
  by (auto simp: expire_host_step_def split: if_splits intro: lose_host_step)

lemma ttl_op_step: "ttl_step now ttl op = Some (op', c) \<Longrightarrow> op_step op op'"
  by (auto simp: ttl_step_def split: if_splits intro: lose_host_step)

lemma delivered_now_step: "deliverable op \<Longrightarrow> op_step op (delivered_now now op)"
  by (rule op_step.delivered) (auto simp: delivered_now_def same_execution_def)

subsection \<open>Operations of the service\<close>

abbreviation operation_at :: "service \<Rightarrow> string \<Rightarrow> operation_state option" where
  "operation_at s i \<equiv> map_of (sv_operations s) i"

text \<open>Every operation is stored once, under its own identifier, and those that wait for a confirmation are idle.\<close>

definition keyed :: "service \<Rightarrow> bool" where
  "keyed s \<longleftrightarrow> map_ok (sv_operations s) \<and> (\<forall>i op. operation_at s i = Some op \<longrightarrow> well_placed i op)"

definition advances :: "service \<Rightarrow> service \<Rightarrow> bool" where
  "advances s s' \<longleftrightarrow> (keyed s \<longrightarrow> keyed s' \<and>
     (\<forall>i op'. operation_at s' i = Some op' \<longrightarrow> (\<exists>op. operation_at s i = Some op \<and> op_step\<^sup>*\<^sup>* op op')))"

named_theorems same_ops \<open>what leaves the operations of the service alone\<close>
named_theorems advancing \<open>what changes operations along the state machine only\<close>

lemma advances_same [advancing]: "sv_operations s' = sv_operations s \<Longrightarrow> advances s s'"
  by (auto simp: advances_def keyed_def)

lemma advances_refl [simp]: "advances s s"
  by (simp add: advances_same)

lemma advances_trans [trans]:
  assumes "advances a b" "advances b c"
  shows "advances a c"
  unfolding advances_def
proof (intro impI conjI allI)
  assume a: "keyed a"
  with assms(1) have b: "keyed b" by (simp add: advances_def)
  with assms(2) show "keyed c" by (simp add: advances_def)
  fix i op' assume "operation_at c i = Some op'"
  with b assms(2) obtain op1 where "operation_at b i = Some op1" "op_step\<^sup>*\<^sup>* op1 op'" by (auto simp: advances_def)
  moreover from this a assms(1) obtain op where "operation_at a i = Some op" "op_step\<^sup>*\<^sup>* op op1" by (auto simp: advances_def)
  ultimately show "\<exists>op. operation_at a i = Some op \<and> op_step\<^sup>*\<^sup>* op op'" by (meson rtranclp_trans)
qed

lemma advances_cong_left: "sv_operations s1 = sv_operations s \<Longrightarrow> advances s1 s' \<Longrightarrow> advances s s'"
  by (rule advances_trans [OF advances_same])

lemma advances_cong_right: "sv_operations s' = sv_operations s1 \<Longrightarrow> advances s s1 \<Longrightarrow> advances s s'"
  by (rule advances_trans [OF _ advances_same])

lemma sv_operations_finalize [simp, same_ops]:
  "sv_operations (finalizeOperationPolicyLocked op c s) = sv_operations s"
  "sv_operations (discardOperationConfirmationLocked op s) = sv_operations s"
  "sv_operations (discard_decision d s) = sv_operations s"
  "sv_operations (notifyLocked s) = sv_operations s"
  "sv_operations (notifyActorChangedLocked t s) = sv_operations s"
  "sv_operations (markOperationsDirtyLocked s) = sv_operations s"
  "sv_operations (markOperationCheckpointDirtyLocked s) = sv_operations s"
  "sv_operations (failHostGatewayLocked h s) = sv_operations s"
  "sv_operations (put_host i h' s) = sv_operations s"
  "sv_operations (snd (persistOperationsLocked s)) = sv_operations s"
  by (auto simp: finalizeOperationPolicyLocked_def discardOperationConfirmationLocked_def discard_decision_def notifyLocked_def
      notifyActorChangedLocked_def markOperationsDirtyLocked_def markOperationCheckpointDirtyLocked_def failHostGatewayLocked_def
      put_host_def persistOperationsLocked_def split: option.splits)

lemma sv_operations_put [simp]: "sv_operations (put_operation i op s) = AList.update i op (sv_operations s)"
  by (simp add: put_operation_def)

lemma operation_at_record:
  "operation_at (recordOperationTimelineLocked i s) j
     = (if j = i then map_option (\<lambda>op. fst (record_timeline op (sv_timelineSequence s))) (operation_at s i) else operation_at s j)"
  by (auto simp: recordOperationTimelineLocked_def update_conv' split: option.splits prod.splits)

lemma keys_record: "map fst (sv_operations (recordOperationTimelineLocked i s)) = map fst (sv_operations s)"
proof (cases "operation_at s i")
  case (Some op)
  then have "i \<in> fst ` set (sv_operations s)" by (metis domI dom_map_of_conv_image_fst)
  with Some show ?thesis
    by (auto simp: recordOperationTimelineLocked_def update_keys split: prod.splits)
qed (simp add: recordOperationTimelineLocked_def)

lemma operation_at_conclude:
  "\<exists>n. operation_at (conclude i op c s) = (operation_at s)(i \<mapsto> fst (record_timeline op n))"
  by (rule exI [where x = "sv_timelineSequence (case c of None \<Rightarrow> put_operation i op s
        | Some b \<Rightarrow> finalizeOperationPolicyLocked op b (put_operation i op s))"])
    (auto simp: conclude_def operation_at_record update_conv' fun_eq_iff Let_def split: option.splits)

lemma keys_conclude: "map fst (sv_operations (conclude i op c s)) = map fst (AList.update i op (sv_operations s))"
  by (simp add: conclude_def keys_record Let_def split: option.split)

lemma distinct_keys_conclude:
  "distinct (map fst (sv_operations s)) \<Longrightarrow> distinct (map fst (sv_operations (conclude i op c s)))"
  by (simp add: keys_conclude distinct_update)

lemma advances_conclude [advancing]:
  assumes "operation_at s i = Some op" "op_step\<^sup>*\<^sup>* op op'"
  shows "advances s (conclude i op' c s)"
  unfolding advances_def
proof (intro impI)
  assume keyed: "keyed s"
  obtain n where after: "operation_at (conclude i op' c s) = (operation_at s)(i \<mapsto> fst (record_timeline op' n))"
    using operation_at_conclude by blast
  have step: "op_step\<^sup>*\<^sup>* op (fst (record_timeline op' n))"
    using assms(2) op_step.bookkeeping [OF record_timeline_same] by (rule rtranclp.rtrancl_into_rtrancl)
  have "well_placed i (fst (record_timeline op' n))"
    using step keyed assms(1) by (auto simp: keyed_def intro: op_steps_keep_place)
  then have "keyed (conclude i op' c s)"
    using keyed assms(1) after distinct_keys_conclude by (auto simp: keyed_def split: if_splits)
  then show "keyed (conclude i op' c s) \<and> (\<forall>j op2. operation_at (conclude i op' c s) j = Some op2 \<longrightarrow>
      (\<exists>op1. operation_at s j = Some op1 \<and> op_step\<^sup>*\<^sup>* op1 op2))"
    using after assms(1) step by auto
qed

lemma advances_put_same [advancing]:
  assumes "operation_at s i = Some op" "same_execution op op'"
  shows "advances s (put_operation i op' s)"
proof -
  have step: "op_step\<^sup>*\<^sup>* op op'" using op_step.bookkeeping [OF assms(2)] by blast
  then have "well_placed i op \<Longrightarrow> well_placed i op'" by (rule op_steps_keep_place)
  with step assms(1) show ?thesis by (auto simp: advances_def keyed_def update_conv' distinct_update split: if_splits)
qed

text \<open>A loop over stored operations, each concluded at most once.\<close>

lemma advances_fold_conclude:
  assumes "map_ok xs" "\<forall>(i, op) \<in> set xs. operation_at s i = Some op"
    and "\<And>op op' c. step op = Some (op', c) \<Longrightarrow> op_step op op'"
  shows "advances s (fold (\<lambda>(i, op) s. case step op of None \<Rightarrow> s | Some (op', c) \<Rightarrow> conclude i op' c s) xs s)"
  using assms(1, 2)
proof (induction xs arbitrary: s)
  case (Cons x xs)
  obtain i op where x: "x = (i, op)" by (cases x)
  define s1 where "s1 = (case step op of None \<Rightarrow> s | Some (op', c) \<Rightarrow> conclude i op' c s)"
  have "operation_at s1 j = operation_at s j" if "j \<noteq> i" for j
  proof (cases "step op")
    case (Some r)
    obtain n where "operation_at (conclude i (fst r) (snd r) s) = (operation_at s)(i \<mapsto> fst (record_timeline (fst r) n))"
      using operation_at_conclude by blast
    with Some that show ?thesis by (simp add: s1_def split_beta)
  qed (simp add: s1_def)
  moreover have "j \<noteq> i" if "(j, op') \<in> set xs" for j op'
    using that Cons.prems(1) x by (auto intro: rev_image_eqI)
  ultimately have rest: "\<forall>(j, op') \<in> set xs. operation_at s1 j = Some op'"
    using Cons.prems(2) by (metis (no_types, lifting) case_prodD case_prodI2 list.set_intros(2))
  have here: "operation_at s i = Some op" using Cons.prems(2) x by simp
  have "advances s s1"
  proof (cases "step op")
    case (Some r)
    then show ?thesis using advances_conclude [OF here r_into_rtranclp] assms(3) by (cases r) (simp add: s1_def)
  qed (simp add: s1_def)
  moreover have "advances s1 (fold (\<lambda>(i, op) s. case step op of None \<Rightarrow> s | Some (op', c) \<Rightarrow> conclude i op' c s) xs s1)"
    using Cons.prems(1) rest x by (intro Cons.IH) simp_all
  ultimately show ?case using x by (simp add: s1_def advances_trans)
qed simp

lemma advances_for_operations [advancing]:
  assumes "\<And>op op' c. step op = Some (op', c) \<Longrightarrow> op_step op op'"
  shows "advances s (for_operations step s)"
proof (cases "keyed s")
  case True
  then have "map_ok (sv_operations s)" by (simp add: keyed_def)
  moreover from this have "\<forall>(i, op) \<in> set (sv_operations s). operation_at s i = Some op" by auto
  ultimately show ?thesis unfolding for_operations_def by (rule advances_fold_conclude) (rule assms)
qed (simp add: advances_def)

text \<open>What exactly such a loop does to one operation.\<close>

abbreviation loop_body ::
  "(operation_state \<Rightarrow> (operation_state \<times> bool option) option) \<Rightarrow> string \<times> operation_state \<Rightarrow> service \<Rightarrow> service" where
  "loop_body step \<equiv> (\<lambda>(i, op) s. case step op of None \<Rightarrow> s | Some (op', c) \<Rightarrow> conclude i op' c s)"

abbreviation stepped :: "(operation_state \<Rightarrow> (operation_state \<times> bool option) option) \<Rightarrow> operation_state \<Rightarrow> operation_state \<Rightarrow> bool" where
  "stepped step op op' \<equiv> (case step op of None \<Rightarrow> op' = op | Some (op1, c) \<Rightarrow> same_execution op1 op')"

lemma loop_body_other: "j \<noteq> fst x \<Longrightarrow> operation_at (loop_body step x s) j = operation_at s j"
proof (cases "step (snd x)")
  case (Some r)
  obtain n where "operation_at (conclude (fst x) (fst r) (snd r) s) = (operation_at s)(fst x \<mapsto> fst (record_timeline (fst r) n))"
    using operation_at_conclude by blast
  moreover assume "j \<noteq> fst x"
  ultimately show ?thesis using Some by (simp add: split_beta)
qed (simp add: split_beta)

lemma loop_body_here:
  assumes "operation_at s i = Some op"
  shows "\<exists>op'. operation_at (loop_body step (i, op) s) i = Some op' \<and> stepped step op op'"
proof (cases "step op")
  case (Some r)
  obtain n where "operation_at (conclude i (fst r) (snd r) s) = (operation_at s)(i \<mapsto> fst (record_timeline (fst r) n))"
    using operation_at_conclude by blast
  with Some show ?thesis by (simp add: split_beta)
qed (simp add: assms)

lemma fold_loop_other: "j \<notin> fst ` set xs \<Longrightarrow> operation_at (fold (loop_body step) xs s) j = operation_at s j"
  by (induction xs arbitrary: s) (simp_all add: loop_body_other del: split_paired_All)

lemma fold_loop_here:
  assumes "map_ok xs" "(i, op) \<in> set xs" "operation_at s i = Some op"
  shows "\<exists>op'. operation_at (fold (loop_body step) xs s) i = Some op' \<and> stepped step op op'"
  using assms
proof (induction xs arbitrary: s)
  case (Cons x xs)
  show ?case
  proof (cases "x = (i, op)")
    case True
    with Cons.prems(1) have "i \<notin> fst ` set xs" by simp
    then have "operation_at (fold (loop_body step) (x # xs) s) i = operation_at (loop_body step x s) i"
      by (simp add: fold_loop_other)
    with True show ?thesis using loop_body_here [OF Cons.prems(3), of step] by simp
  next
    case False
    with Cons.prems have tl: "map_ok xs" "(i, op) \<in> set xs" "i \<noteq> fst x" by (auto intro: rev_image_eqI)
    then have "operation_at (loop_body step x s) i = Some op" using Cons.prems(3) loop_body_other [of i x step s] by simp
    from Cons.IH [OF tl(1, 2) this] show ?thesis by simp
  qed
qed simp

lemma operation_at_for_operations:
  assumes "keyed s" "operation_at s i = Some op"
  shows "\<exists>op'. operation_at (for_operations step s) i = Some op' \<and> stepped step op op'"
proof -
  have "map_ok (sv_operations s)" using assms(1) by (simp add: keyed_def)
  moreover have "(i, op) \<in> set (sv_operations s)" using assms(2) by (rule map_of_SomeD)
  ultimately show ?thesis unfolding for_operations_def using assms(2) by (rule fold_loop_here)
qed

lemma operation_at_for_operations_iff:
  assumes "keyed s"
  shows "operation_at (for_operations step s) i = None \<longleftrightarrow> operation_at s i = None"
proof (cases "operation_at s i")
  case None
  then have "i \<notin> fst ` set (sv_operations s)" by (simp add: map_of_eq_None_iff)
  then show ?thesis unfolding for_operations_def by (simp add: fold_loop_other None)
next
  case (Some op)
  from operation_at_for_operations [OF assms Some, of step] obtain op' where "operation_at (for_operations step s) i = Some op'" by blast
  with Some show ?thesis by simp
qed

lemma advances_fold [advancing]:
  assumes "\<And>x s. x \<in> set xs \<Longrightarrow> advances s (f x s)"
  shows "advances s (fold f xs s)"
  using assms
proof (induction xs arbitrary: s)
  case (Cons x xs)
  have "advances s (f x s)" "advances (f x s) (fold f xs (f x s))" by (simp_all add: Cons.IH Cons.prems)
  then show ?case by (simp add: advances_trans)
qed simp

subsection \<open>The loops of the service\<close>

lemma advances_expireHost [advancing]: "advances s (expireHostOperationsLocked h now s)"
  unfolding expireHostOperationsLocked_def Let_def
  by (auto intro!: advances_cong_right [OF sv_operations_finalize(6)] advances_for_operations expire_host_op_step)

lemma advances_fenceAuthority [advancing]: "advances s (fenceSupersededAuthorityLocked now h w p s)"
  unfolding fenceSupersededAuthorityLocked_def Let_def
  by (auto intro!: advances_cong_right [OF sv_operations_finalize(6)] advances_for_operations fence_authority_op_step)

lemma advances_cancelActor [advancing]: "advances s (cancelActorOperationsLocked k now s)"
  unfolding cancelActorOperationsLocked_def by (rule advances_for_operations) (rule cancel_actor_op_step)

lemma advances_invalidate [advancing]: "advances s (invalidateControllerLocked k now s)"
proof -
  have "advances s (fenceControllerOperationsLocked l now (s\<lparr>sv_controllers := c\<rparr>))" for l c
    unfolding fenceControllerOperationsLocked_def
    by (rule advances_cong_left [OF _ advances_for_operations]) (simp, rule fence_controller_op_step)
  then show ?thesis
    by (auto simp: invalidateControllerLocked_def intro!: advances_cong_right [OF sv_operations_finalize(6)] split: option.split)
qed

lemma advances_expireController [advancing]: "advances s (expireControllerLocked k now s)"
  by (simp add: expireControllerLocked_def advances_invalidate split: option.split)

lemma advances_expireControllers [advancing]: "advances s (expireControllersLocked now s)"
  unfolding expireControllersLocked_def by (rule advances_fold) (rule advances_expireController)

lemma advances_reconcile [advancing]: "advances s (reconcileControllersLocked now h w p s)"
  unfolding reconcileControllersLocked_def
  by (rule advances_fold) (auto simp: reconcile_step_def advances_invalidate split: option.split)

lemma keyed_delete_advances: "advances s (s\<lparr>sv_operations := AList.delete i (sv_operations s)\<rparr>)"
  by (auto simp: advances_def keyed_def map_ok_delete map_of_delete split: if_splits)

lemma advances_prune_step: "advances s (prune_step now cutoff i s)"
proof -
  have del: "advances s (s\<lparr>sv_operations := AList.delete i (sv_operations s), sv_requests := r\<rparr>)" for r
    by (rule advances_cong_right [OF _ keyed_delete_advances [of s i]]) simp
  have adopt: "advances s1 (put_operation p (parent\<lparr>op_children := cs, op_updatedAt := now, op_persistenceRevision := n\<rparr>) s1)"
    if "operation_at s1 p = Some parent" for s1 p parent cs n
    using that by (rule advances_put_same) (simp add: same_execution_def)
  show ?thesis
    unfolding prune_step_def Let_def
    by (auto split: option.split intro!: del advances_trans [OF del adopt])
qed

lemma advances_prune [advancing]: "advances s (pruneOperationsLocked now s)"
proof -
  have "advances s (fold (prune_step now cutoff) xs (for_operations (ttl_step now ttl) s))" for cutoff xs ttl
    by (rule advances_trans [OF advances_for_operations advances_fold]) (rule ttl_op_step, assumption, rule advances_prune_step)
  then show ?thesis
    by (auto simp: pruneOperationsLocked_def Let_def intro!: advances_cong_right [OF sv_operations_finalize(6)])
qed

lemma advances_expireTTL:
  assumes "operation_at s i = Some op"
  shows "advances s (snd (expireOperationByTTLLocked i op now s))"
  using assms by (auto simp: expireOperationByTTLLocked_def split: option.split intro!: advances_conclude ttl_op_step)

lemma advances_refresh [advancing]:
  assumes "operation_at s i = Some op"
  shows "advances s (refreshOperationHostLocked i op now s)"
  using advances_expireTTL [OF assms, of now]
  by (auto simp: refreshOperationHostLocked_def advances_expireHost split: prod.split bool.split option.split
      intro!: advances_cong_right [OF sv_operations_finalize(6)])

end
