(* ===== verification/Control_Methods.thy ===== *)
theory Control_Methods
  imports Control_Step
begin

section \<open>Every method follows the life cycle of operations\<close>

text \<open>
  For each exported method of the service, and each critical section of the two methods that release the lock, the proof
  that it changes operations only along \<open>op_step\<close>.
\<close>

subsection \<open>Calls that persist first\<close>

lemma persistOperationsLocked_cases:
  obtains "sv_closed s" "persistOperationsLocked s = (Some (fault ErrClosed), s)"
  | s' where "\<not> sv_closed s" "persistOperationsLocked s = (None, s')"
      "s' = s \<or> s' = s\<lparr>sv_operationDirty := False, sv_checkpointDirty := False\<rparr>"
proof (cases "sv_closed s")
  case True
  with that(1) show ?thesis by (simp add: persistOperationsLocked_def)
next
  case False
  then have "persistOperationsLocked s = (None, s)
      \<or> persistOperationsLocked s = (None, s\<lparr>sv_operationDirty := False, sv_checkpointDirty := False\<rparr>)"
    by (simp add: persistOperationsLocked_def)
  with False that(2) show ?thesis by blast
qed

lemma persisted_cases:
  obtains "sv_closed s" "persisted s body = (Inl (fault ErrClosed), s)"
  | s' where "\<not> sv_closed s" "persisted s body = body s'"
      "s' = s \<or> s' = s\<lparr>sv_operationDirty := False, sv_checkpointDirty := False\<rparr>"
proof (rule persistOperationsLocked_cases [of s])
  assume "sv_closed s" "persistOperationsLocked s = (Some (fault ErrClosed), s)"
  with that(1) show thesis by (simp add: persisted_def)
next
  fix s' assume "\<not> sv_closed s" "persistOperationsLocked s = (None, s')"
    "s' = s \<or> s' = s\<lparr>sv_operationDirty := False, sv_checkpointDirty := False\<rparr>"
  from that(2) [OF this(1) _ this(3)] this(2) show thesis by (simp add: persisted_def)
qed

lemma advances_persisted [advancing]:
  assumes "\<And>s'. sv_operations s' = sv_operations s \<Longrightarrow> advances s' (snd (body s'))"
  shows "advances s (snd (persisted s body))"
proof (rule persisted_cases [of s body])
  fix s' assume "persisted s body = body s'" "s' = s \<or> s' = s\<lparr>sv_operationDirty := False, sv_checkpointDirty := False\<rparr>"
  then show ?thesis using assms [of s'] by (auto intro: advances_cong_left [of s'])
qed simp

lemma advances_finish [advancing]: "advances s (snd (finish v s))"
  unfolding finish_def by (rule advances_persisted) simp

lemma advances_after_persist:
  assumes "advances s0 s" "\<And>s'. sv_operations s' = sv_operations s \<Longrightarrow> advances s' (snd (body s'))"
  shows "advances s0 (snd (persisted s body))"
  using advances_trans [OF assms(1) advances_persisted [OF assms(2)]] .

lemma advances_then_finish: "advances s0 s \<Longrightarrow> advances s0 (snd (finish v s))"
  by (rule advances_trans [OF _ advances_finish])

text \<open>For goals about chains of updates: peel off the outermost update that leaves the operations alone.\<close>

lemmas advances_peel =
  advances_cong_right [OF sv_operations_finalize(1)] advances_cong_right [OF sv_operations_finalize(2)]
  advances_cong_right [OF sv_operations_finalize(3)] advances_cong_right [OF sv_operations_finalize(4)]
  advances_cong_right [OF sv_operations_finalize(5)] advances_cong_right [OF sv_operations_finalize(6)]
  advances_cong_right [OF sv_operations_finalize(7)] advances_cong_right [OF sv_operations_finalize(8)]
  advances_cong_right [OF sv_operations_finalize(9)]

subsection \<open>Hosts and controllers\<close>

lemma sv_operations_install [simp]: "sv_operations (snd (install_host now r random s)) = sv_operations s"
  by (simp add: install_host_def Let_def split: sum.split)

lemma advances_RegisterHost: "advances s (snd (RegisterHost now s r random))"
proof -
  have expire: "advances s' (snd (persisted (failHostGatewayLocked h (expireHostOperationsLocked h now s')) (install_host now r random)))"
    for s' h by (intro advances_after_persist advances_peel advances_expireHost) (simp add: advances_same)
  show ?thesis
    unfolding RegisterHost_def Let_def
    by (simp split: option.split, intro impI, rule advances_persisted) (auto split: option.split intro: expire advances_same)
qed

lemma advances_RenewHost: "advances s (snd (RenewHost now s h l))"
  unfolding RenewHost_def Let_def by (rule advances_persisted) (simp add: advances_same split: sum.split)

lemma advances_UnregisterHost: "advances s (snd (UnregisterHost now s h l))"
proof -
  have "advances s' (expireHostOperationsLocked h now (put_host h v s'))" for s' v
    by (rule advances_cong_left [OF _ advances_expireHost]) simp
  then show ?thesis
    unfolding UnregisterHost_def Let_def
    by (auto split: sum.split intro!: advances_persisted advances_then_finish advances_peel)
qed

lemma advances_store_world: "advances s (store_world now h p s)"
proof -
  have "advances s (reconcileControllersLocked now h w p (fenceSupersededAuthorityLocked now h w p s))" for w
    by (rule advances_trans [OF advances_fenceAuthority advances_reconcile])
  then show ?thesis
    unfolding store_world_def Let_def by (auto split: option.split intro!: advances_peel)
qed

lemma advances_PublishWorld: "advances s (snd (PublishWorld env encode now s h l p))"
  unfolding PublishWorld_def by (simp add: advances_store_world split: sum.split option.split)

lemma advances_authorize [advancing]: "advances s (snd (authorizeActorLocked now s p t scope))"
  unfolding authorizeActorLocked_def by (auto simp: advances_expireHost split: sum.split)

lemma advances_store_controller [advancing]: "advances s (snd (store_controller t l s))"
  unfolding store_controller_def by (intro advances_then_finish advances_peel) (simp add: advances_same)

lemma authorize_result_advances: "authorizeActorLocked now s p t scope = (r, s1) \<Longrightarrow> advances s s1"
  using advances_authorize [of s now p t scope] by simp

lemma advances_AcquireController: "advances s (snd (AcquireController now s p input random))"
proof -
  have main: "advances s1 (snd (store_controller (ai_Target input) l (expireControllerLocked (ai_Target input) now s1)))" for s1 l
    by (rule advances_trans [OF advances_expireController advances_store_controller])
  show ?thesis
    unfolding AcquireController_def Let_def
    by (auto split: option.split prod.split sum.split dest!: authorize_result_advances
        intro: advances_trans [OF _ main] advances_trans [OF _ advances_expireController])
qed

lemma advances_RenewController: "advances s (snd (RenewController now s p t l ttl))"
  unfolding RenewController_def Let_def
  by (auto split: option.split prod.split sum.split dest!: authorize_result_advances
      intro: advances_trans [OF advances_expireController] advances_expireController
        advances_trans [OF advances_trans [OF advances_expireController] advances_store_controller]
        advances_trans [OF advances_trans [OF advances_expireController] advances_invalidate])

lemma advances_ReleaseController: "advances s (snd (ReleaseController now s p t l))"
  unfolding ReleaseController_def
  by (auto split: option.split intro!: advances_then_finish advances_peel advances_invalidate)

lemma advances_GetController: "advances s (snd (GetController now s p t))"
  unfolding GetController_def Let_def
  by (auto split: option.split prod.split sum.split dest!: authorize_result_advances
      intro: advances_trans [OF _ advances_expireController]
        advances_then_finish advances_trans [OF _ advances_then_finish [OF advances_expireController]])

lemma advances_SetActorEmergencyStop: "advances s (snd (SetActorEmergencyStop now s p t active))"
proof -
  have "advances s (cancelActorOperationsLocked t now (s\<lparr>sv_emergencyStops := x\<rparr>))" for x
    by (rule advances_cong_left [OF _ advances_cancelActor]) simp
  then show ?thesis
    unfolding SetActorEmergencyStop_def Let_def
    by (auto split: option.split sum.split intro!: advances_then_finish advances_peel intro: advances_same)
qed

subsection \<open>Polling and reports\<close>

lemma sv_operations_collectGateway: "sv_operations (snd (collectHostGatewayWorkLocked h n s)) = sv_operations s"
  by (simp add: collectHostGatewayWorkLocked_def Let_def)

lemma advances_deliver_loop:
  assumes "map_ok xs" "\<forall>(i, op) \<in> set xs. operation_at s i = Some op"
  shows "advances s (snd (deliver_loop now n xs s))"
  using assms
proof (induction now n xs s rule: deliver_loop.induct)
  case (2 now n i op rest s)
  have rest: "map_ok rest" "\<forall>(j, op') \<in> set rest. operation_at s j = Some op'" and here: "operation_at s i = Some op"
    using "2.prems" by auto
  show ?case
  proof (cases "n = 0 \<or> \<not> deliverable op")
    case True
    then show ?thesis using 2(1) rest by (cases "n = 0") simp_all
  next
    case False
    let ?s1 = "conclude i (delivered_now now op) None s"
    obtain m where m: "operation_at ?s1 = (operation_at s)(i \<mapsto> fst (record_timeline (delivered_now now op) m))"
      using operation_at_conclude by blast
    have "j \<noteq> i" if "(j, op') \<in> set rest" for j op'
      using that "2.prems"(1) by (auto intro: rev_image_eqI)
    then have "\<forall>(j, op') \<in> set rest. operation_at ?s1 j = Some op'"
      using rest(2) unfolding m by fastforce
    then have "advances ?s1 (snd (deliver_loop now (n - 1) rest ?s1))"
      using False 2(2) rest(1) by blast
    moreover have "advances s ?s1"
      using here False by (intro advances_conclude r_into_rtranclp) (auto intro: delivered_now_step)
    ultimately show ?thesis using False by (simp add: split_beta Let_def) (rule advances_trans)
  qed
qed simp

lemma sort_key_map_ok: "map_ok xs \<Longrightarrow> map_ok (sort_key f xs)"
  by (metis distinct_map distinct_sort set_sort)

lemma advances_collect: "advances s (snd (collectHostWorkLocked now h n s))"
proof (cases "keyed s")
  case True
  let ?ops = "sort_key (\<lambda>(i, op). delivery_order op) (filter (\<lambda>(i, op). hc_HostID (op_request op) = h) (sv_operations s))"
  have ok: "map_ok ?ops" using True by (simp add: keyed_def sort_key_map_ok distinct_map_filter)
  have at: "\<forall>(i, op) \<in> set ?ops. operation_at s i = Some op" using True by (auto simp: keyed_def)
  have "advances s1 (snd (deliver_loop now m ?ops s1))" if "sv_operations s1 = sv_operations s" for s1 m
    using advances_deliver_loop [OF ok, of s1 now m] at that by simp
  then have main: "advances s (snd (deliver_loop now m ?ops s1))" if "sv_operations s1 = sv_operations s" for s1 m
    using that advances_cong_left by blast
  obtain k m where "snd (collectHostWorkLocked now h n s) = (let s2 = snd (deliver_loop now m ?ops (snd (collectHostGatewayWorkLocked h k s)))
      in if hb_Requests (fst (collectHostWorkLocked now h n s)) \<noteq> [] then markOperationCheckpointDirtyLocked s2 else s2)"
    using collectHostWork_parts by blast
  then show ?thesis by (auto simp: Let_def intro!: advances_peel main sv_operations_collectGateway)
qed (simp add: advances_def)

lemma advances_poll_host: "advances s (snd (poll_host now s h l limit))"
proof -
  have "advances s (pruneOperationsLocked now (expireControllersLocked now s))"
    by (rule advances_trans [OF advances_expireControllers advances_prune])
  then show ?thesis
    unfolding poll_host_def
    by (auto simp: split_beta Let_def advances_collect split: sum.split
        intro!: advances_after_persist advances_then_finish)
qed

lemma hostOperationLocked_at: "hostOperationLocked s h i = Inr op \<Longrightarrow> operation_at s i = Some op \<and> hc_HostID (op_request op) = h"
  by (auto simp: hostOperationLocked_def lookupOperationLocked_def ebind_def split: option.splits sum.splits if_splits)

lemma advances_AcknowledgeHost: "advances s (snd (AcknowledgeHost now s h l ack))"
proof -
  have main: "advances s' (conclude i (op\<lparr>op_ack := Some ack, op_updatedAt := now, op_status := OperationAccepted\<rparr>) c s')"
    if "operation_at s' i = Some op" "op_status op = OperationDelivered" "op_ack op = None" "ha_Accepted ack" for s' i op c
    using that by (intro advances_conclude r_into_rtranclp op_step.acknowledged) (auto simp: same_execution_def)
  have refuse: "advances s' (conclude i (op\<lparr>op_ack := Some ack, op_updatedAt := now, op_status := OperationRejected,
        op_rejection := ack\<rparr>) c s')"
    if "operation_at s' i = Some op" "op_status op = OperationDelivered" "op_ack op = None" "\<not> ha_Accepted ack" for s' i op c
    using that by (intro advances_conclude r_into_rtranclp op_step.refused) (auto simp: same_execution_def)
  show ?thesis
    unfolding AcknowledgeHost_def Let_def
    by (simp split: option.split, intro impI, rule advances_persisted)
      (auto split: option.split sum.split dest!: hostOperationLocked_at
        intro!: advances_finish advances_then_finish advances_peel main refuse)
qed

lemma advances_ReportHostRun: "advances s (snd (ReportHostRun now s h l run))"
proof -
  have main: "advances s' (conclude i (op\<lparr>op_run := Some run, op_status := operationStatusFromRun (ar_Status run),
        op_updatedAt := now\<rparr>) None s')"
    if "operation_at s' i = Some op" "op_outcome op = None" "accepted_ack op" "ValidateActionRun run = None"
      "run_conflict (op_run op) run = None"
      "\<not> (case op_run op of None \<Rightarrow> False | Some r \<Rightarrow> ar_ProgressSeq run < ar_ProgressSeq r)"
      "\<not> (case op_run op of None \<Rightarrow> False | Some r \<Rightarrow> ar_ProgressSeq run = ar_ProgressSeq r)" for s' i op
    using that by (intro advances_conclude r_into_rtranclp op_step.progressed) (auto simp: same_execution_def)
  show ?thesis
  proof (cases "ValidateActionRun run")
    case None
    show ?thesis
      unfolding ReportHostRun_def
      by (simp only: None option.map option.case, rule advances_persisted)
        (auto split: option.split sum.split if_split dest!: hostOperationLocked_at simp del: option.case_eq_if
          intro!: advances_finish advances_then_finish advances_peel main None)
  qed (simp add: ReportHostRun_def)
qed

lemma queue_outcome_same: "same_execution op (queue_outcome sinks op)"
proof -
  let ?f = "\<lambda>i op. if map_of (op_outcomeDelivery op) i = None
                   then op\<lparr>op_outcomeDelivery := AList.update i False (op_outcomeDelivery op),
                           op_persistenceRevision := op_persistenceRevision op + 1\<rparr> else op"
  have "same_execution op (fold ?f sinks op')" if "same_execution op op'" for op'
    using that by (induction sinks arbitrary: op') (auto simp: same_execution_def)
  then show ?thesis by (simp add: queue_outcome_def)
qed

lemma advances_queueOutcome:
  assumes "operation_at s i = Some op"
  shows "advances s (queueOutcomeDeliveryLocked i op s)"
  unfolding queueOutcomeDeliveryLocked_def Let_def
  by (auto intro!: advances_peel advances_put_same [OF assms] queue_outcome_same)

lemma advances_ReportHostResult: "advances s (snd (ReportHostResult env now s h l oc output))"
proof -
  have main: "advances s' (conclude i ((queue_outcome sinks (op\<lparr>op_outcome := Some oc\<rparr>))\<lparr>op_output := output,
        op_status := operationStatusFromRun (ao_Status oc), op_updatedAt := now\<rparr>) c s')"
    if "operation_at s' i = Some op" "op_outcome op = None" "ValidateActionOutcome oc = None" "outcome_conflict op oc = None"
    for s' i op c sinks
    using that queue_outcome_same [of "op\<lparr>op_outcome := Some oc\<rparr>" sinks]
    by (intro advances_conclude r_into_rtranclp op_step.finished) (auto simp: same_execution_def)
  show ?thesis
  proof (cases "ValidateActionOutcome oc = None \<and> validateOperationOutput env output = None")
    case True
    show ?thesis
      unfolding ReportHostResult_def Let_def
      by (simp add: True first_err_def del: snd_conv, rule advances_persisted)
        (auto split: option.split sum.split if_split dest!: hostOperationLocked_at
          intro!: advances_finish advances_then_finish advances_peel main advances_queueOutcome simp: True)
  next
    case False
    then obtain e where "first_err [map_option (\<lambda>e. ControlError ErrInvalid (''outcome: '' @ error_text e)) (ValidateActionOutcome oc),
        validateOperationOutput env output] = Some e"
      using first_err_None_iff by (metis (no_types, lifting) list.set_intros not_Some_eq option.map_disc_iff)
    then show ?thesis by (simp add: ReportHostResult_def)
  qed
qed

subsection \<open>Reading and cancelling\<close>

text \<open>Refreshing an operation, and fencing others, never removes an operation.\<close>

definition keeps :: "service \<Rightarrow> service \<Rightarrow> bool" where
  "keeps s s' \<longleftrightarrow> (\<forall>i. operation_at s i \<noteq> None \<longrightarrow> operation_at s' i \<noteq> None)"

lemma keeps_trans [trans]: "keeps a b \<Longrightarrow> keeps b c \<Longrightarrow> keeps a c"
  by (simp add: keeps_def)

lemma keeps_same: "sv_operations s' = sv_operations s \<Longrightarrow> keeps s s'"
  by (simp add: keeps_def)

lemma keeps_conclude: "keeps s (conclude i op c s)"
  using operation_at_conclude [of i op c s] by (auto simp: keeps_def)

lemma keeps_fold:
  assumes "\<And>x s. keeps s (f x s)"
  shows "keeps s (fold f xs s)"
proof (induction xs arbitrary: s)
  case (Cons x xs)
  show ?case using keeps_trans [OF assms Cons.IH] by simp
qed (simp add: keeps_same)

lemma keeps_for_operations: "keeps s (for_operations step s)"
  unfolding for_operations_def by (rule keeps_fold) (auto simp: keeps_same keeps_conclude split: option.split)

lemma keeps_expireHost: "keeps s (expireHostOperationsLocked h now s)"
  unfolding expireHostOperationsLocked_def Let_def
  by (auto intro: keeps_for_operations keeps_trans [OF keeps_for_operations keeps_same])

lemma keeps_refresh: "keeps s (refreshOperationHostLocked i op now s)"
  unfolding refreshOperationHostLocked_def expireOperationByTTLLocked_def
  by (auto split: option.split intro: keeps_expireHost keeps_same keeps_trans [OF keeps_conclude keeps_same])

lemma refreshed_at: "operation_at s i \<noteq> None \<Longrightarrow> operation_at s i = Some (refreshed i op s)"
  by (auto simp: refreshed_def)

lemma lookupOperationLocked_at [simp]: "lookupOperationLocked s i = Inr op \<longleftrightarrow> operation_at s i = Some op"
  by (auto simp: lookupOperationLocked_def split: option.splits)

lemma advances_GetOperation: "advances s (snd (GetOperation env now s p i))"
  unfolding GetOperation_def getOperationLocked_def
  by (auto split: option.split sum.split intro!: advances_after_persist advances_refresh)

lemma advances_list_step: "advances (snd a) (snd (list_step env now p input i a))"
  by (cases a) (auto simp: list_step_def Let_def split: option.split intro: advances_refresh)

lemma advances_ListOperations: "advances s (snd (ListOperations env now s p input))"
proof -
  have "advances (snd a) (snd (fold (list_step env now p input) xs a))" for xs a
  proof (induction xs arbitrary: a)
    case (Cons x xs)
    show ?case using advances_trans [OF advances_list_step Cons.IH] by simp
  qed simp
  from this [of "([], s)"] show ?thesis
    unfolding ListOperations_def Let_def
    by (auto simp: split_beta split: option.split intro!: advances_after_persist)
qed

lemma advances_CancelOperation: "advances s (snd (CancelOperation env now s p i))"
proof -
  define cancel_body where "cancel_body = (\<lambda>op0 s'. let op = refreshed i op0 s' in
      if \<not> hasScope p ScopeHostAdmin
         \<and> (pr_ID p \<noteq> pr_ID (hc_Principal (op_request op)) \<or> \<not> hasScope p ScopeOperationCancel)
      then (Inl (fault ErrForbidden), s')
      else if completeOperation op then (Inr (operationView env op), s')
      else
        let s2 = (if op_status op = OperationQueued \<or> op_status op = OperationAwaitingConfirmation
                  then markOperationsDirtyLocked (conclude i (op\<lparr>op_status := OperationCancelled, op_updatedAt := now\<rparr>) (Some False) s')
                  else if \<not> op_cancel op
                  then markOperationsDirtyLocked (conclude i (op\<lparr>op_cancel := True, op_updatedAt := now\<rparr>) None s')
                  else s')
        in persisted s2 (\<lambda>s3. (Inr (operationView env (refreshed i op s3)), s3)))"
  have main: "advances s' (snd (cancel_body op0 s'))" if "operation_at s' i \<noteq> None" for s' op0
  proof -
    let ?op = "refreshed i op0 s'"
    have at: "operation_at s' i = Some ?op" using that by (rule refreshed_at)
    have "advances s' (conclude i (?op\<lparr>op_status := OperationCancelled, op_updatedAt := now\<rparr>) c s')"
      if "op_status ?op = OperationQueued \<or> op_status ?op = OperationAwaitingConfirmation" for c
      using that by (intro advances_conclude [OF at] r_into_rtranclp op_step.dropped [where status = OperationCancelled]) (auto simp: same_execution_def)
    moreover have "advances s' (conclude i (?op\<lparr>op_cancel := True, op_updatedAt := now\<rparr>) c s')" if "\<not> completeOperation ?op" for c
      using that by (intro advances_conclude [OF at] r_into_rtranclp op_step.cancel_requested) (auto simp: same_execution_def)
    ultimately show ?thesis
      by (auto simp: cancel_body_def Let_def intro!: advances_after_persist advances_peel)
  qed
  have "operation_at s' i \<noteq> None" if "operation_at s i = Some op0" "sv_operations s' = sv_operations (refreshOperationHostLocked i op0 now s)"
    for s' op0 using keeps_refresh [of s i op0 now] that by (auto simp: keeps_def)
  then have main': "advances s (snd (persisted (refreshOperationHostLocked i op0 now s) (\<lambda>s1. cancel_body op0 s1)))"
    if "operation_at s i = Some op0" for op0
    using that by (intro advances_after_persist advances_refresh main) blast+
  have "CancelOperation env now s p i = (case first_err [invalid_principal p, control_validateID ''operation_id'' i] of
      Some e \<Rightarrow> (Inl e, s)
    | None \<Rightarrow> (case lookupOperationLocked s i of Inl e \<Rightarrow> (Inl e, s)
      | Inr op0 \<Rightarrow> persisted (refreshOperationHostLocked i op0 now s) (\<lambda>s1. cancel_body op0 s1)))"
    unfolding CancelOperation_def cancel_body_def by (rule refl)
  then show ?thesis using main' by (simp split: option.split sum.split)
qed

subsection \<open>Gateway requests, subscribers and shutdown\<close>

lemma sv_operations_gateway:
  "sv_operations (snd (enqueueHostGateway env now s r random)) = sv_operations s"
  "sv_operations (snd (ReportHostGatewayResult env now s h l g)) = sv_operations s"
  "sv_operations (cancelHostGateway i s) = sv_operations s"
  "sv_operations (Close s) = sv_operations s"
  "sv_operations (finishActionFlight k s) = sv_operations s"
  by (auto simp: enqueueHostGateway_def ReportHostGatewayResult_def cancelHostGateway_def Close_def finishActionFlight_def
      split: option.split sum.split)

lemma advances_outcome_begin: "advances s (snd (outcome_delivery_begin s sub i))"
  unfolding outcome_delivery_begin_def by (auto split: sum.split intro!: advances_persisted)

lemma advances_outcome_acknowledge: "advances s (snd (outcome_delivery_acknowledge s sub i))"
proof (cases "operation_at s i")
  case (Some op)
  define op1 where "op1 = op\<lparr>op_outcomeDelivery := AList.update sub True (op_outcomeDelivery op),
      op_persistenceRevision := op_persistenceRevision op + 1\<rparr>"
  define op2 where "op2 = op1\<lparr>op_outcomeDelivery := AList.update sub False (op_outcomeDelivery op1),
      op_persistenceRevision := op_persistenceRevision op1 + 1\<rparr>"
  define s1 where "s1 = markOperationsDirtyLocked (put_operation i op1 (s\<lparr>sv_changes := sv_changes s @ [OperationChange i]\<rparr>))"
  have same: "same_execution op op1" "same_execution op1 op2" by (simp_all add: op1_def op2_def same_execution_def)
  have first: "advances s s1"
    unfolding s1_def by (intro advances_peel(6) advances_cong_left [OF _ advances_put_same [OF _ same(1)]]) (simp_all add: Some)
  have "operation_at s2 i = Some op1" if "sv_operations s2 = sv_operations s1" for s2
    using that by (simp add: s1_def update_conv')
  then have second: "advances s (markOperationsDirtyLocked (put_operation i op2 s2))" if "sv_operations s2 = sv_operations s1" for s2
    using that by (intro advances_peel advances_trans [OF advances_cong_right [OF that first]] advances_put_same [OF _ same(2)]) auto
  have "advances s (snd (case persistOperationsLocked s1 of
      (None, s2) \<Rightarrow> (Inr (), s2) | (Some e, s2) \<Rightarrow> (Inl e, markOperationsDirtyLocked (put_operation i op2 s2))))"
    using second [OF sv_operations_finalize(10)] advances_cong_right [OF sv_operations_finalize(10) first]
    by (auto split: prod.split option.split)
  moreover have "outcome_delivery_acknowledge s sub i = (case persistOperationsLocked s1 of
      (None, s2) \<Rightarrow> (Inr (), s2) | (Some e, s2) \<Rightarrow> (Inl e, markOperationsDirtyLocked (put_operation i op2 s2)))"
    by (simp only: outcome_delivery_acknowledge_def lookupOperationLocked_def Some option.case sum.case Let_def s1_def op1_def op2_def)
  ultimately show ?thesis by simp
qed (simp add: outcome_delivery_acknowledge_def lookupOperationLocked_def)

subsection \<open>Timelines\<close>

lemma advances_refresh_visible: "advances s (refresh_visible now is s)"
  unfolding refresh_visible_def by (rule advances_fold) (auto split: option.split intro: advances_refresh)

lemma advances_taskTimeline: "advances s (snd (taskTimelineLocked now s p query))"
  unfolding taskTimelineLocked_def Let_def by (auto intro!: advances_after_persist advances_refresh_visible)

lemma advances_GetTaskTimeline: "advances s (snd (GetTaskTimeline now s p query))"
  unfolding GetTaskTimeline_def using advances_taskTimeline by (auto split: option.split sum.split)

lemma advances_wait_task_timeline: "advances s (snd (wait_task_timeline now s p input timer))"
  unfolding wait_task_timeline_def using advances_taskTimeline [of s now p]
  by (auto split: option.split sum.split prod.split) (metis snd_conv)+

end
