(* ===== verification/Control_Lifecycle.thy ===== *)
theory Control_Lifecycle
  imports Control_Methods
begin

section \<open>Submissions, confirmations and the reachable states of the service\<close>

text \<open>
  Submissions add operations in one of three initial states; confirmations move operations out of the waiting state.
  \<open>control_step\<close> is the transition relation of the service, one rule for each exported method and for each critical
  section of \<open>SubmitAction\<close> and \<open>ConfirmAction\<close>, so that any interleaving of calls is a sequence of steps.
\<close>

subsection \<open>Submissions\<close>

definition initial_operation :: "operation_state \<Rightarrow> bool" where
  "initial_operation op \<longleftrightarrow>
     (\<exists>key r d status. hc_PolicyDecision r = Some d \<and> initial_status (de_Result d) = Some status
        \<and> op = new_operation key r status (de_Result d))"

text \<open>The operation \<open>new\<close> may be added; all others were there before and have made steps.\<close>

abbreviation op_id :: "operation_state \<Rightarrow> string" where
  "op_id op \<equiv> hc_OperationID (op_request op)"

definition adds :: "operation_state \<Rightarrow> service \<Rightarrow> service \<Rightarrow> bool" where
  "adds new s s' \<longleftrightarrow> (keyed s \<longrightarrow> keyed s' \<and>
     (\<forall>i op'. operation_at s' i = Some op' \<longrightarrow>
        (\<exists>op. (operation_at s i = Some op \<or> i = op_id new \<and> op = new) \<and> op_step\<^sup>*\<^sup>* op op')))"

definition evolves :: "service \<Rightarrow> service \<Rightarrow> bool" where
  "evolves s s' \<longleftrightarrow> advances s s' \<or> (\<exists>new. initial_operation new \<and> operation_at s (op_id new) = None \<and> adds new s s')"

lemma advances_evolves: "advances s s' \<Longrightarrow> evolves s s'"
  by (simp add: evolves_def)

lemma advances_adds: "advances s s' \<Longrightarrow> adds new s s'"
  by (auto simp: advances_def adds_def)

lemma adds_after_advance:
  assumes "advances a b" "adds new b c"
  shows "adds new a c"
  unfolding adds_def
proof (intro impI conjI allI)
  assume a: "keyed a"
  with assms(1) have b: "keyed b" by (simp add: advances_def)
  with assms(2) show "keyed c" by (simp add: adds_def)
  fix i op' assume "operation_at c i = Some op'"
  with b assms(2) obtain op1 where op1: "operation_at b i = Some op1 \<or> i = op_id new \<and> op1 = new" "op_step\<^sup>*\<^sup>* op1 op'"
    by (auto simp: adds_def)
  from op1(1) show "\<exists>op. (operation_at a i = Some op \<or> i = op_id new \<and> op = new) \<and> op_step\<^sup>*\<^sup>* op op'"
  proof
    assume "operation_at b i = Some op1"
    with a assms(1) obtain op where "operation_at a i = Some op" "op_step\<^sup>*\<^sup>* op op1" by (auto simp: advances_def)
    with op1(2) show ?thesis by (meson rtranclp_trans)
  qed (use op1(2) in blast)
qed

lemma adds_then_same:
  assumes "adds new a b" "sv_operations c = sv_operations b"
  shows "adds new a c"
  using assms(1) unfolding adds_def keyed_def assms(2) .

lemma evolves_origin:
  assumes "evolves s s'" "keyed s" "operation_at s' i = Some op'"
  obtains op where "operation_at s i = Some op" "op_step\<^sup>*\<^sup>* op op'"
  | op where "operation_at s i = None" "initial_operation op" "op_step\<^sup>*\<^sup>* op op'"
  using assms that unfolding evolves_def advances_def adds_def by metis

lemma evolves_keyed: "evolves s s' \<Longrightarrow> keyed s \<Longrightarrow> keyed s'"
  by (auto simp: evolves_def advances_def adds_def)

lemma new_operation_idle: "initial_operation op \<Longrightarrow> awaits_idle op"
  by (auto simp: initial_operation_def new_operation_def awaits_idle_def)

lemma insert_operation_adds:
  assumes "initial_operation op"
  shows "adds op s (snd (insert_operation env key op s))"
proof -
  let ?i = "op_id op"
  let ?s0 = "put_operation ?i op (s\<lparr>sv_requests := AList.update key ?i (sv_requests s)\<rparr>)"
  let ?s1 = "recordOperationTimelineLocked ?i ?s0"
  let ?op' = "fst (record_timeline op (sv_timelineSequence ?s0))"
  have at: "operation_at ?s1 = (operation_at s)(?i \<mapsto> ?op')"
    by (auto simp: operation_at_record update_conv' fun_eq_iff)
  have step: "op_step\<^sup>*\<^sup>* op ?op'" using op_step.bookkeeping [OF record_timeline_same] by blast
  have "well_placed ?i ?op'"
    using op_steps_keep_place [OF step] new_operation_idle [OF assms] by (simp add: well_placed_def)
  then have "adds op s ?s1"
    using at step assms by (auto simp: adds_def keyed_def keys_record distinct_update split: if_splits)
  moreover have "sv_operations (snd (insert_operation env key op s)) = sv_operations ?s1"
    by (rule persisted_cases [of "markOperationsDirtyLocked ?s1"
          "\<lambda>s2. (Inr (operationView env (refreshed ?i op s2)), notifyLocked s2)"])
      (auto simp: insert_operation_def Let_def)
  ultimately show ?thesis by (rule adds_then_same)
qed

lemma storeAction_adds:
  assumes "hc_PolicyDecision r = Some d" "result = de_Result d" "initial_status result = Some status"
  shows "adds (new_operation key r status result) s (snd (storeActionOperationLocked env s key r result))"
proof -
  let ?op = "new_operation key r status result"
  have init: "initial_operation ?op" using assms by (auto simp: initial_operation_def)
  have "adds ?op s (snd (insert_operation env key ?op (put_operation p (adopt_child c t parent) s)))"
    if "operation_at s p = Some parent" for p c t parent
    by (rule adds_after_advance [OF advances_put_same [OF that] insert_operation_adds [OF init]])
      (simp add: adopt_child_def same_execution_def)
  then show ?thesis
    using assms(3) insert_operation_adds [OF init] by (auto simp: storeActionOperationLocked_def Let_def split: option.split
        intro!: advances_adds [OF advances_same])
qed

lemma storeAction_invalid: "initial_status result = None \<Longrightarrow> snd (storeActionOperationLocked env s key r result) = s"
  by (simp add: storeActionOperationLocked_def)

lemma advances_prepareSubmission [advancing]: "advances s (snd (prepareActionSubmissionLocked now s p input))"
  unfolding prepareActionSubmissionLocked_def Let_def
  by (auto split: option.split prod.split sum.split dest!: authorize_result_advances
      intro: advances_trans [OF _ advances_expireController])

lemma prepareSubmission_result_advances: "prepareActionSubmissionLocked now s p input = (r, s1) \<Longrightarrow> advances s s1"
  using advances_prepareSubmission [of s now p input] by simp

lemma idempotent_result_advances: "idempotentActionLocked env now s key f = Some (r, s1) \<Longrightarrow> advances s s1"
proof -
  have refresh: "advances s (snd (persisted (refreshOperationHostLocked i op now s)
      (\<lambda>s1. (Inr (operationView env (refreshed i op s1)), s1))))" if "operation_at s i = Some op" for i op
    by (rule advances_after_persist [OF advances_refresh [OF that]]) simp
  have main: "advances s s1" if "operation_at s i = Some op"
      "persisted (refreshOperationHostLocked i op now s) (\<lambda>s1. (Inr (operationView env (refreshed i op s1)), s1)) = (r, s1)"
    for i op using refresh [OF that(1)] unfolding that(2) by simp
  assume result: "idempotentActionLocked env now s key f = Some (r, s1)"
  then obtain i where i: "map_of (sv_requests s) key = Some i"
    by (cases "map_of (sv_requests s) key") (simp_all add: idempotentActionLocked_def)
  show "advances s s1"
  proof (cases "operation_at s i")
    case None
    with i result show ?thesis by (simp add: idempotentActionLocked_def Let_def)
  next
    case (Some op)
    have "s1 = s \<or> persisted (refreshOperationHostLocked i op now s) (\<lambda>s1. (Inr (operationView env (refreshed i op s1)), s1)) = (r, s1)"
      using result i Some unfolding idempotentActionLocked_def Let_def
      by (cases "hc_Kind (op_request op) \<noteq> ControlAction \<or> actionRequestFingerprint env (op_request op) \<noteq> f") simp_all
    then show ?thesis using main [OF Some] by (elim disjE) simp_all
  qed
qed

lemma prepareOperation_result_advances: "prepareOperationLocked now s random = (r, s1) \<Longrightarrow> advances s s1"
proof -
  have "advances s (snd (prepareOperationLocked now s random))"
    unfolding prepareOperationLocked_def by (rule advances_after_persist [OF advances_prune]) simp
  then show "prepareOperationLocked now s random = (r, s1) \<Longrightarrow> advances s s1" by simp
qed

lemma advances_submit_begin: "advances s (snd (submit_begin env now s p input key f cancelled))"
  unfolding submit_begin_def
  by (auto split: option.split prod.split sum.split dest!: prepareSubmission_result_advances idempotent_result_advances
      intro: advances_cong_right [rotated])

lemma sv_operations_evaluate_policy [simp]: "sv_operations (snd (evaluate_policy env s a cx r1 r2)) = sv_operations s"
  by (auto simp: evaluate_policy_def Let_def split: option.split prod.split sum.split)

lemma evaluate_policy_result: "evaluate_policy env s a cx r1 r2 = (r, s1) \<Longrightarrow> sv_operations s1 = sv_operations s"
  using sv_operations_evaluate_policy [of env s a cx r1 r2] by simp

lemma sv_operations_submit_evaluate:
  "sv_operations (snd (submit_evaluate env s p input digest sub binding r1 r2)) = sv_operations s"
  by (auto simp: submit_evaluate_def split: option.split prod.split sum.split dest!: evaluate_policy_result)

text \<open>The identifier that a submission would give to its operation.\<close>

definition fresh_operation_id :: "service \<Rightarrow> string option \<Rightarrow> bool" where
  "fresh_operation_id s random \<longleftrightarrow> (\<forall>hex. random = Some hex \<longrightarrow> operation_at s (''operation.'' @ hex) = None)"

lemma prepareOperation_id: "prepareOperationLocked now s random = (Inr i, s1) \<Longrightarrow> \<exists>hex. random = Some hex \<and> i = ''operation.'' @ hex"
  by (rule persisted_cases [of "pruneOperationsLocked now s" "\<lambda>s1. if length (sv_operations s1) \<ge> sv_maxOperations s1
      then (Inl (fault ErrCapacity), s1) else (control_newID ''operation'' random, s1)"])
    (auto simp: prepareOperationLocked_def control_newID_def split: if_splits option.splits)

lemma submit_commit_evolves:
  assumes "fresh_operation_id s random"
  shows "evolves s (snd (submit_commit env now s p input key f sub result d cancelled random))"
proof -
  have store: "evolves s (snd (storeActionOperationLocked env s2 key (action_control_request now i p input cur a d) (de_Result d)))"
    if "advances s s2" "prepareOperationLocked now s1 random = (Inr i, s2')" for s1 s2 s2' i cur a
  proof (cases "initial_status (de_Result d)")
    case (Some status)
    let ?r = "action_control_request now i p input cur a d"
    let ?new = "new_operation key ?r status (de_Result d)"
    have "adds ?new s (snd (storeActionOperationLocked env s2 key ?r (de_Result d)))"
      by (rule adds_after_advance [OF that(1) storeAction_adds]) (simp_all add: action_control_request_def Some)
    moreover have "hc_PolicyDecision ?r = Some d" by (simp add: action_control_request_def)
    then have "initial_operation ?new" using Some unfolding initial_operation_def by blast
    moreover have "op_id ?new = i" by (simp add: new_operation_def action_control_request_def)
    moreover have "operation_at s i = None" using prepareOperation_id [OF that(2)] assms by (auto simp: fresh_operation_id_def)
    ultimately show ?thesis unfolding evolves_def by metis
  qed (use that(1) in \<open>simp add: storeAction_invalid advances_evolves\<close>)
  have discard: "evolves s (discard_decision d s2)" if "advances s s2" for s2
    using that by (intro advances_evolves advances_peel)
  show ?thesis
    unfolding submit_commit_def
    by (auto split: option.split prod.split sum.split
        dest: prepareSubmission_result_advances idempotent_result_advances prepareOperation_result_advances
        intro!: discard store intro: advances_trans)
qed

subsection \<open>Confirmations\<close>

text \<open>While a confirmation is prepared, the operation it is about may only lapse.\<close>

definition lapsed :: "operation_state \<Rightarrow> operation_state \<Rightarrow> bool" where
  "lapsed op op' \<longleftrightarrow> same_execution op op' \<or> same_execution (op\<lparr>op_status := OperationStale\<rparr>) op'"

definition waiting :: "operation_state \<Rightarrow> bool" where
  "waiting op \<longleftrightarrow> op_status op = OperationAwaitingConfirmation \<and> op_attempts op = 0 \<and> op_ack op = None"

definition lapses :: "string \<Rightarrow> operation_state \<Rightarrow> service \<Rightarrow> bool" where
  "lapses i op s \<longleftrightarrow> keyed s \<and> (\<exists>op'. operation_at s i = Some op' \<and> lapsed op op')"

lemma lapsed_stale_or_cancel:
  assumes "waiting op" "lapsed op op'" "\<not> completeOperation op'"
  shows "lapsed op (fst (stale_or_cancel now (op_attempts op' = 0 \<and> op_ack op' = None) OperationStale op'))"
    "lapsed op (fst (lose_host now op'))"
  using assms by (auto simp: lapsed_def waiting_def stale_or_cancel_def lose_host_def same_execution_def)

lemma lapses_for_operations:
  assumes "lapses i op s" "\<And>op1 op2 c. step op1 = Some (op2, c) \<Longrightarrow> op_step op1 op2"
    and "\<And>op1 op2 c. lapsed op op1 \<Longrightarrow> step op1 = Some (op2, c) \<Longrightarrow> lapsed op op2"
  shows "lapses i op (for_operations step s)"
proof -
  obtain op1 where op1: "keyed s" "operation_at s i = Some op1" "lapsed op op1" using assms(1) by (auto simp: lapses_def)
  obtain op2 where op2: "operation_at (for_operations step s) i = Some op2" "stepped step op1 op2"
    using operation_at_for_operations [OF op1(1, 2)] by blast
  have "lapsed op op2"
    using op2(2) op1(3) assms(3) [OF op1(3)] by (cases "step op1") (auto simp: lapsed_def intro: same_execution_trans)
  moreover have "keyed (for_operations step s)"
    using advances_for_operations [of step s] assms(2) op1(1) unfolding advances_def by blast
  ultimately show ?thesis using op2(1) by (auto simp: lapses_def)
qed

lemma lapses_cong: "sv_operations s' = sv_operations s \<Longrightarrow> lapses i op s' \<longleftrightarrow> lapses i op s"
  unfolding lapses_def keyed_def by (simp only:)

lemmas lapses_dirty [simp] = lapses_cong [OF sv_operations_finalize(6)]

lemma lapses_expireHost:
  assumes "waiting op" "lapses i op s"
  shows "lapses i op (expireHostOperationsLocked h now s)"
proof -
  have "lapses i op (for_operations (expire_host_step h now) s)"
    by (rule lapses_for_operations [OF assms(2) expire_host_op_step])
      (auto simp: expire_host_step_def split: if_splits dest: lapsed_stale_or_cancel(2) [OF assms(1), where now = now])
  then show ?thesis by (simp add: expireHostOperationsLocked_def Let_def)
qed

lemma lapses_invalidate:
  assumes "waiting op" "lapses i op s"
  shows "lapses i op (invalidateControllerLocked k now s)"
proof (cases "map_of (sv_controllers s) k")
  case (Some lease)
  let ?s1 = "s\<lparr>sv_controllers := AList.delete k (sv_controllers s)\<rparr>"
  have "lapses i op ?s1" using assms(2) lapses_cong [of ?s1 s] by simp
  then have "lapses i op (for_operations (fence_controller_step (cl_LeaseID lease) now) ?s1)"
    by (rule lapses_for_operations [OF _ fence_controller_op_step])
      (auto simp: fence_controller_step_def split: if_splits option.splits
        dest: lapsed_stale_or_cancel(1) [OF assms(1), where now = now])
  then show ?thesis using Some by (simp add: invalidateControllerLocked_def fenceControllerOperationsLocked_def)
qed (simp add: invalidateControllerLocked_def assms(2))

lemma lapses_expireController: "waiting op \<Longrightarrow> lapses i op s \<Longrightarrow> lapses i op (expireControllerLocked k now s)"
  by (auto simp: expireControllerLocked_def split: option.split intro: lapses_invalidate)

lemma lapses_authorize: "waiting op \<Longrightarrow> lapses i op s \<Longrightarrow> lapses i op (snd (authorizeActorLocked now s p t scope))"
  by (auto simp: authorizeActorLocked_def split: sum.split intro: lapses_expireHost)

lemma lapses_prepareSubmission:
  assumes "waiting op" "lapses i op s"
  shows "lapses i op (snd (prepareActionSubmissionLocked now s p input))"
proof -
  have "lapses i op s1" if "authorizeActorLocked now s p t scope = (r, s1)" for t scope r s1
    using lapses_authorize [OF assms, of now p t scope] that by simp
  then show ?thesis
    unfolding prepareActionSubmissionLocked_def Let_def
    by (auto split: option.split prod.split sum.split intro!: lapses_expireController assms(1))
qed

text \<open>A preparation that succeeds has changed nothing.\<close>

lemma sv_controllers_conclude [simp]: "sv_controllers (conclude i op c s) = sv_controllers s"
  by (auto simp: conclude_def recordOperationTimelineLocked_def finalizeOperationPolicyLocked_def
      discardOperationConfirmationLocked_def put_operation_def Let_def split: option.split prod.split)

lemma sv_controllers_for_operations: "sv_controllers (for_operations step s) = sv_controllers s"
proof -
  have "sv_controllers (fold (loop_body step) xs s) = sv_controllers s" for xs s
    by (induction xs arbitrary: s) (auto split: option.split)
  then show ?thesis by (simp add: for_operations_def)
qed

lemma expireController_kept:
  "map_of (sv_controllers (expireControllerLocked k now s)) k = Some l \<Longrightarrow> expireControllerLocked k now s = s"
  using sv_controllers_for_operations
  by (auto simp: expireControllerLocked_def invalidateControllerLocked_def fenceControllerOperationsLocked_def
      markOperationsDirtyLocked_def notifyLocked_def map_of_delete split: option.splits if_splits)

lemma prepareSubmission_unchanged:
  assumes "prepareActionSubmissionLocked now s p input = (Inr snapshot, s1)"
  shows "s1 = s"
proof -
  have "s2 = s" if "authorizeActorLocked now s p t scope = (Inr a, s2)" for t scope a s2
    using that by (auto simp: authorizeActorLocked_def split: sum.splits if_splits)
  then show ?thesis
    using assms unfolding prepareActionSubmissionLocked_def Let_def
    by (auto split: option.splits prod.splits sum.splits if_splits dest: expireController_kept)
qed

lemma advances_keyedI: "(keyed s \<Longrightarrow> advances s s') \<Longrightarrow> advances s s'"
  by (auto simp: advances_def)

lemma advances_stale_operation:
  assumes "operation_at s i = Some op1" "lapsed op op1" "waiting op"
  shows "advances s (snd (stale_operation now i op1 c e s))"
proof -
  have "op_step op1 (op1\<lparr>op_status := OperationStale, op_updatedAt := now\<rparr>)"
  proof (cases "same_execution op op1")
    case True
    then show ?thesis using assms(3) by (intro op_step.dropped [where status = OperationStale]) (auto simp: waiting_def same_execution_def)
  next
    case False
    then show ?thesis using assms(2) by (intro op_step.bookkeeping) (auto simp: lapsed_def same_execution_def)
  qed
  then show ?thesis
    unfolding stale_operation_def
    by (intro advances_after_persist advances_peel advances_conclude [OF assms(1)] r_into_rtranclp) simp_all
qed

lemma waiting_lapses: "keyed s \<Longrightarrow> operation_at s i = Some op \<Longrightarrow> lapses i op s"
  by (auto simp: lapses_def lapsed_def)

lemma keyed_waiting: "keyed s \<Longrightarrow> operation_at s i = Some op \<Longrightarrow> op_status op = OperationAwaitingConfirmation \<Longrightarrow> waiting op"
  by (auto simp: keyed_def well_placed_def awaits_idle_def waiting_def)

lemma lapses_refreshed:
  assumes "lapses i op s"
  shows "operation_at s i = Some (refreshed i op0 s)" "lapsed op (refreshed i op0 s)"
  using assms by (auto simp: lapses_def refreshed_def)

text \<open>After a preparation, whatever its result, the operation can be made stale.\<close>

lemma advances_prepare_then_stale:
  assumes "keyed s" "operation_at s i = Some op" "waiting op" "prepareActionSubmissionLocked now s p input = (r, s1)"
    and "sv_operations s2 = sv_operations s1"
  shows "advances s (snd (stale_operation now i (refreshed i op s1) c e s2))"
proof -
  have lapses: "lapses i op s1"
    using lapses_prepareSubmission [OF assms(3) waiting_lapses [OF assms(1, 2)], of now p input] assms(4) by simp
  have "operation_at s2 i = Some (refreshed i op s1)" using lapses_refreshed(1) [OF lapses] assms(5) by simp
  then have "advances s2 (snd (stale_operation now i (refreshed i op s1) c e s2))"
    using lapses_refreshed(2) [OF lapses] assms(3) by (rule advances_stale_operation)
  then have "advances s1 (snd (stale_operation now i (refreshed i op s1) c e s2))"
    by (rule advances_cong_left [OF assms(5)])
  with prepareSubmission_result_advances [OF assms(4)] show ?thesis by (rule advances_trans)
qed

lemma advances_confirm_prepare:
  assumes "keyed s" "operation_at s i = Some op" "waiting op"
  shows "advances s (snd (confirm_prepare now i op a b ch s))"
proof -
  obtain r s1 where prep: "prepareActionSubmissionLocked now s (clonePrincipalValue (hc_Principal (op_request op)))
      (confirm_input (op_request op) a) = (r, s1)" by (cases "prepareActionSubmissionLocked now s
      (clonePrincipalValue (hc_Principal (op_request op))) (confirm_input (op_request op) a)")
  note stale = advances_prepare_then_stale [OF assms prep refl]
  show ?thesis
  proof (cases r)
    case (Inl e)
    then show ?thesis using stale by (simp add: confirm_prepare_def prep Let_def)
  next
    case (Inr current)
    have "advances s (s1\<lparr>sv_confirming := x\<rparr>)" for x
      using prepareSubmission_result_advances [OF prep] by (rule advances_cong_right [rotated]) simp
    then show ?thesis using Inr stale by (auto simp: confirm_prepare_def prep Let_def)
  qed
qed

lemma pending_challenge_waits: "pending_challenge op = Some x \<Longrightarrow> op_status op = OperationAwaitingConfirmation"
  by (auto simp: pending_challenge_def split: if_splits)

lemma advances_confirm_begin: "advances s (snd (confirm_begin env now s approver i))"
proof (rule advances_keyedI)
  assume keyed: "keyed s"
  show "advances s (snd (confirm_begin env now s approver i))"
  proof (cases "operation_at s i")
    case (Some op)
    show ?thesis
    proof (cases "pending_challenge op")
      case pending: (Some x)
      obtain a b ch where x: "x = (a, b, ch)" by (cases x)
      have waiting: "waiting op" using keyed_waiting [OF keyed Some] pending_challenge_waits [OF pending] by blast
      have prep: "advances s1 (snd (confirm_prepare now i (refreshed i op s1) a b ch s1))"
        if "authorizeActorLocked now s approver t scope = (Inr u, s1)" for t scope u s1
        using that advances_confirm_prepare [OF keyed Some waiting, of now a b ch] Some
        by (auto simp: authorizeActorLocked_def refreshed_def split: sum.splits if_splits)
      show ?thesis
        unfolding confirm_begin_def Some option.case pending x prod.case
        by (auto split: option.split prod.split sum.split dest: authorize_result_advances
            intro: advances_trans [OF authorize_result_advances prep])
    qed (simp add: confirm_begin_def Some split: option.split)
  qed (simp add: confirm_begin_def split: option.split)
qed

lemma advances_stalePending: "advances s (snd (stalePendingConfirmation env now i s))"
proof (rule advances_keyedI)
  assume keyed: "keyed s"
  show "advances s (snd (stalePendingConfirmation env now i s))"
  proof (cases "operation_at s i")
    case (Some op)
    have "lapsed op op" by (simp add: lapsed_def)
    then have "advances s (snd (stale_operation now i op None e s :: operation_view outcome))" if "op_status op = OperationAwaitingConfirmation" for e
      using keyed_waiting [OF keyed Some that] by (rule advances_stale_operation [OF Some])
    then show ?thesis by (simp add: stalePendingConfirmation_def Some)
  qed (simp add: stalePendingConfirmation_def)
qed

lemma sv_operations_approve_policy [simp]: "sv_operations (snd (approve_policy s c p t)) = sv_operations s"
  by (auto simp: approve_policy_def split: option.split prod.split sum.split)

lemma approve_policy_result: "approve_policy s c p t = (r, s1) \<Longrightarrow> sv_operations s1 = sv_operations s"
  using sv_operations_approve_policy [of s c p t] by simp

lemma advances_confirm_evaluate:
  "advances s (snd (confirm_evaluate env now s approver i input orig owner b ch answer r1 r2))"
  unfolding confirm_evaluate_def
  by (auto split: option.split prod.split sum.split intro!: advances_same advances_stalePending
      dest!: approve_policy_result evaluate_policy_result)

lemma advances_recordConfirmation:
  assumes "ValidateDecision d = None" "de_Result d \<noteq> Allow"
  shows "advances s (snd (recordConfirmationDecision env now s i d))"
proof (rule advances_keyedI)
  assume keyed: "keyed s"
  show "advances s (snd (recordConfirmationDecision env now s i d))"
  proof (cases "operation_at s i")
    case (Some op)
    then have i: "hc_OperationID (op_request op) = i" using keyed by (auto simp: keyed_def well_placed_def)
    let ?op1 = "op\<lparr>op_request := (op_request op)\<lparr>hc_PolicyDecision := Some d\<rparr>, op_updatedAt := now\<rparr>"
    show ?thesis
    proof (cases "op_status op = OperationAwaitingConfirmation")
      case waiting: True
      have "advances s (conclude i (?op1\<lparr>op_status := OperationRejected, op_rejection := deny_rejection i d\<rparr>) None s)"
        if "de_Result d = Deny"
        using that i waiting by (intro advances_conclude [OF Some] r_into_rtranclp op_step.denied) (auto simp: same_execution_def)
      moreover have "advances s (conclude i (?op1\<lparr>op_status := OperationAwaitingConfirmation\<rparr>) None s)"
        if "de_Result d = RequireConfirmation"
        using that waiting by (intro advances_conclude [OF Some] r_into_rtranclp op_step.asked_again) (auto simp: same_execution_def)
      moreover have "de_Result d = Deny \<or> de_Result d = RequireConfirmation"
        using assms by (cases "de_Result d") (simp_all add: ValidateDecision_def validResult_def)
      ultimately show ?thesis
        unfolding recordConfirmationDecision_def Let_def Some option.case
        by (elim disjE) (simp_all only: policy_result.case waiting simp_thms if_False,
            auto intro!: advances_after_persist advances_peel)
    qed (simp add: recordConfirmationDecision_def Some)
  qed (simp add: recordConfirmationDecision_def)
qed

lemma advances_confirm_queue:
  assumes "operation_at s i = Some op" "waiting op" "de_Result d = Allow"
  shows "advances s (snd (case persistOperationsLocked (markOperationsDirtyLocked (conclude i
      ((with_decision op d)\<lparr>op_status := OperationQueued, op_updatedAt := now\<rparr>) None s)) of
        (None, s3) \<Rightarrow> (Inr (operationView env (refreshed i op1 s3)), s3)
      | (Some e, s3) \<Rightarrow> stale_operation now i (refreshed i op1 s3) None e (discard_decision d s3)))"
proof -
  let ?op1 = "(with_decision op d)\<lparr>op_status := OperationQueued, op_updatedAt := now\<rparr>"
  let ?s1 = "conclude i ?op1 None s"
  have step: "op_step op ?op1"
    using assms(2, 3) by (intro op_step.approved) (auto simp: waiting_def same_execution_def)
  have first: "advances s (markOperationsDirtyLocked ?s1)"
    by (intro advances_peel advances_conclude [OF assms(1)] r_into_rtranclp step)
  obtain n where n: "operation_at ?s1 = (operation_at s)(i \<mapsto> fst (record_timeline ?op1 n))" using operation_at_conclude by blast
  have same: "same_execution ?op1 (fst (record_timeline ?op1 n))" by simp
  have stale: "advances s (snd (stale_operation now i (refreshed i op1 s3) None e (discard_decision d s3) :: operation_view outcome))"
    if s3: "sv_operations s3 = sv_operations ?s1" for s3 e
  proof -
    let ?op2 = "fst (record_timeline ?op1 n)"
    have op2: "operation_at s3 i = Some ?op2" "refreshed i op1 s3 = ?op2" using n s3 by (simp_all add: refreshed_def)
    have "op_step ?op2 (?op2\<lparr>op_status := OperationStale, op_updatedAt := now\<rparr>)"
      by (rule op_step.dropped [where status = OperationStale]) (use same in \<open>auto simp: same_execution_def\<close>)
    then have "advances (discard_decision d s3) (snd (stale_operation now i ?op2 None e (discard_decision d s3) :: operation_view outcome))"
      unfolding stale_operation_def using op2(1)
      by (intro advances_after_persist advances_peel advances_conclude r_into_rtranclp) simp_all
    then have "advances s3 (snd (stale_operation now i ?op2 None e (discard_decision d s3) :: operation_view outcome))"
      by (rule advances_cong_left [rotated]) simp
    moreover have "advances s s3" by (rule advances_cong_right [OF _ first]) (simp add: s3)
    ultimately show ?thesis unfolding op2(2) by (rule advances_trans [rotated])
  qed
  obtain r s3 where r: "persistOperationsLocked (markOperationsDirtyLocked ?s1) = (r, s3)" by fastforce
  then have s3: "sv_operations s3 = sv_operations ?s1"
    using sv_operations_finalize(10) [of "markOperationsDirtyLocked ?s1"] by simp
  then have "advances s s3" by (intro advances_cong_right [OF _ first]) simp
  then show ?thesis unfolding r using stale [OF s3] by (cases r) simp_all
qed

lemma advances_confirm_commit:
  assumes "ValidateDecision d = None"
  shows "advances s (snd (confirm_commit env now s i input orig d v))"
proof (rule advances_keyedI)
  assume keyed: "keyed s"
  show "advances s (snd (confirm_commit env now s i input orig d v))"
  proof (cases "de_Result d = Allow \<and> (\<exists>op. operation_at s i = Some op \<and> op_status op = OperationAwaitingConfirmation)")
    case False
    then show ?thesis
      using advances_recordConfirmation [OF assms]
      by (auto simp: confirm_commit_def split: option.split intro!: advances_same)
  next
    case True
    then obtain op where allow: "de_Result d = Allow" and op: "operation_at s i = Some op"
      and awaiting: "op_status op = OperationAwaitingConfirmation" by blast
    have waiting: "waiting op" using keyed_waiting [OF keyed op awaiting] .
    obtain r s1 where prep: "prepareActionSubmissionLocked now s orig input = (r, s1)" by fastforce
    have stale: "advances s (snd (stale_operation now i (refreshed i op s1) None e (discard_decision d s1) :: operation_view outcome))" for e
      by (rule advances_prepare_then_stale [OF keyed op waiting prep]) simp
    show ?thesis
    proof (cases r)
      case (Inl e)
      then show ?thesis using stale allow op awaiting by (simp add: confirm_commit_def prep)
    next
      case (Inr current)
      then have s1: "s1 = s" using prep prepareSubmission_unchanged by simp
      then have "refreshed i op s1 = op" using op by (simp add: refreshed_def)
      then show ?thesis
        using stale advances_confirm_queue [OF op waiting allow] allow op awaiting Inr s1
        by (simp add: confirm_commit_def prep Let_def)
    qed
  qed
qed

lemma sv_operations_finishConfirmation: "sv_operations (finishConfirmation i s) = sv_operations s"
  by (simp add: finishConfirmation_def Let_def split: option.split)

subsection \<open>Steps and reachable states of the service\<close>

text \<open>
  One rule per exported method that can change the service, and per critical section of those that release the lock. The
  arguments a caller, a Host, the clock and the random source supply are arbitrary, except that a random identifier is one
  that is not in use. What is committed is a decision that \<open>submit_evaluate\<close> or \<open>confirm_evaluate\<close> returned earlier, in
  some state \<open>s0\<close>; the service may have made any steps since.
\<close>

inductive control_step :: "go_env \<Rightarrow> publication_encoder \<Rightarrow> service \<Rightarrow> service \<Rightarrow> bool" for env encode where
  step_RegisterHost: "control_step env encode s (snd (RegisterHost now s registration random))"
| step_RenewHost: "control_step env encode s (snd (RenewHost now s hostID leaseID))"
| step_UnregisterHost: "control_step env encode s (snd (UnregisterHost now s hostID leaseID))"
| step_PublishWorld: "control_step env encode s (snd (PublishWorld env encode now s hostID leaseID publication))"
| step_AcquireController: "control_step env encode s (snd (AcquireController now s p acquire random))"
| step_RenewController: "control_step env encode s (snd (RenewController now s p t leaseID ttl))"
| step_ReleaseController: "control_step env encode s (snd (ReleaseController now s p t leaseID))"
| step_GetController: "control_step env encode s (snd (GetController now s p t))"
| step_SetActorEmergencyStop: "control_step env encode s (snd (SetActorEmergencyStop now s p t active))"
| step_PollHost: "control_step env encode s (snd (poll_host now s hostID leaseID limit))"
| step_AcknowledgeHost: "control_step env encode s (snd (AcknowledgeHost now s hostID leaseID ack))"
| step_ReportHostRun: "control_step env encode s (snd (ReportHostRun now s hostID leaseID run))"
| step_ReportHostResult: "control_step env encode s (snd (ReportHostResult env now s hostID leaseID oc output))"
| step_GetOperation: "control_step env encode s (snd (GetOperation env now s p i))"
| step_ListOperations: "control_step env encode s (snd (ListOperations env now s p query))"
| step_CancelOperation: "control_step env encode s (snd (CancelOperation env now s p i))"
| step_enqueueHostGateway: "control_step env encode s (snd (enqueueHostGateway env now s request random))"
| step_ReportHostGatewayResult: "control_step env encode s (snd (ReportHostGatewayResult env now s hostID leaseID result))"
| step_cancelHostGateway: "control_step env encode s (cancelHostGateway i s)"
| step_submit_begin: "control_step env encode s (snd (submit_begin env now s p input key fingerprint cancelled))"
| step_submit_evaluate:
    "control_step env encode s (snd (submit_evaluate env s p input digest submission binding random random'))"
| step_submit_commit:
    "\<lbrakk>submit_evaluate env s0 p input digest submission binding random1 random2 = (Inr (bound, d), s0'); fresh_operation_id s random\<rbrakk>
     \<Longrightarrow> control_step env encode s (snd (submit_commit env now s p input key fingerprint submission bound d cancelled random))"
| step_finishActionFlight: "control_step env encode s (finishActionFlight key s)"
| step_FindActionOperation: "control_step env encode s (snd (FindActionOperation env now s p input))"
| step_confirm_begin: "control_step env encode s (snd (confirm_begin env now s approver i))"
| step_confirm_evaluate: "control_step env encode s
    (snd (confirm_evaluate env now s approver i input original ownerID action challenge answer random random'))"
| step_confirm_commit:
    "confirm_evaluate env now' s0 approver i input original ownerID action challenge answer random1 random2 = (Inr (d, snapshot), s0')
     \<Longrightarrow> control_step env encode s (snd (confirm_commit env now s i input original d snapshot))"
| step_finishConfirmation: "control_step env encode s (finishConfirmation i s)"
| step_outcome_begin: "control_step env encode s (snd (outcome_delivery_begin s subscriber i))"
| step_outcome_acknowledge: "control_step env encode s (snd (outcome_delivery_acknowledge s subscriber i))"
| step_GetTaskTimeline: "control_step env encode s (snd (GetTaskTimeline now s p timeline))"
| step_wait_task_timeline: "control_step env encode s (snd (wait_task_timeline now s p wait timer))"
| step_Close: "control_step env encode s (Close s)"

inductive reachable_service :: "go_env \<Rightarrow> publication_encoder \<Rightarrow> service \<Rightarrow> bool" for env encode where
  created: "reachable_service env encode (newService maxOperations ttl engine sinks)"
| stepped: "reachable_service env encode s \<Longrightarrow> control_step env encode s s' \<Longrightarrow> reachable_service env encode s'"

lemma advances_FindActionOperation: "advances s (snd (FindActionOperation env now s p input))"
  unfolding FindActionOperation_def Let_def
  by (auto split: option.split sum.split prod.split dest: idempotent_result_advances)

lemmas methods_advance = advances_RegisterHost advances_RenewHost advances_UnregisterHost advances_PublishWorld
  advances_AcquireController advances_RenewController advances_ReleaseController advances_GetController
  advances_SetActorEmergencyStop advances_poll_host advances_AcknowledgeHost advances_ReportHostRun advances_ReportHostResult
  advances_GetOperation advances_ListOperations advances_CancelOperation
  advances_same [OF sv_operations_gateway(1)] advances_same [OF sv_operations_gateway(2)] advances_same [OF sv_operations_gateway(3)]
  advances_same [OF sv_operations_gateway(4)] advances_same [OF sv_operations_gateway(5)]
  advances_submit_begin advances_same [OF sv_operations_submit_evaluate] advances_FindActionOperation
  advances_confirm_begin advances_confirm_evaluate advances_confirm_commit advances_same [OF sv_operations_finishConfirmation]
  advances_outcome_begin advances_outcome_acknowledge advances_GetTaskTimeline advances_wait_task_timeline

lemma evaluate_policy_valid: "evaluate_policy env s a cx r1 r2 = (Inr d, s1) \<Longrightarrow> ValidateDecision d = None"
  by (auto simp: evaluate_policy_def Let_def split: option.splits prod.splits sum.splits)

lemma confirm_evaluate_valid:
  "confirm_evaluate env now s approver i input orig owner b ch answer r1 r2 = (Inr (d, v), s1) \<Longrightarrow> ValidateDecision d = None"
  by (auto simp: confirm_evaluate_def apfst_def map_prod_def split: option.splits prod.splits sum.splits if_splits
      dest: evaluate_policy_valid)

lemma control_step_evolves: "control_step env encode s s' \<Longrightarrow> evolves s s'"
  by (induction rule: control_step.induct) (blast intro: advances_evolves methods_advance submit_commit_evolves confirm_evaluate_valid)+

lemma newService_keyed: "keyed (newService m ttl en sinks)"
  by (simp add: newService_def keyed_def Let_def)

subsection \<open>Properties of operations\<close>

text \<open>The contract between a property of operations and the life cycle: the initial states have it and every step keeps it.\<close>

locale operation_property =
  fixes P :: "operation_state \<Rightarrow> bool"
  assumes initial: "initial_operation op \<Longrightarrow> P op"
    and step: "P op \<Longrightarrow> op_step op op' \<Longrightarrow> P op'"
begin

lemma steps: "op_step\<^sup>*\<^sup>* op op' \<Longrightarrow> P op \<Longrightarrow> P op'"
  by (induction rule: rtranclp_induct) (auto intro: step)

lemma evolves_keeps:
  assumes "evolves s s'" "keyed s" "\<And>i op. operation_at s i = Some op \<Longrightarrow> P op" "operation_at s' i = Some op'"
  shows "P op'"
  using assms(1, 2, 4) by (rule evolves_origin) (use assms(3) initial steps in blast)+

lemma reachable:
  assumes "reachable_service env encode s"
  shows "keyed s \<and> (\<forall>i op. operation_at s i = Some op \<longrightarrow> P op)"
  using assms
proof (induction rule: reachable_service.induct)
  case created
  show ?case by (simp add: newService_keyed) (simp add: newService_def Let_def)
next
  case (stepped s s')
  have "evolves s s'" using stepped.hyps(2) by (rule control_step_evolves)
  moreover from this have "keyed s'" using stepped.IH evolves_keyed by blast
  ultimately show ?case using stepped.IH evolves_keeps by blast
qed

end

text \<open>
  The second contract: a relation between an earlier and a later state of one operation, which every step respects. It
  holds between any two moments in the life of an operation.
\<close>

locale operation_history =
  fixes R :: "operation_state \<Rightarrow> operation_state \<Rightarrow> bool"
  assumes start: "R op op"
    and extend: "R op0 op \<Longrightarrow> op_step op op' \<Longrightarrow> R op0 op'"
begin

lemma steps: "op_step\<^sup>*\<^sup>* op op' \<Longrightarrow> R op op'"
  by (induction rule: rtranclp_induct) (auto intro: start extend)

lemma advance:
  assumes "advances s s'" "keyed s" "operation_at s' i = Some op'"
  obtains op where "operation_at s i = Some op" "R op op'"
  using assms that steps unfolding advances_def by blast

end

end
