(* ===== verification/Control_Frame.thy ===== *)
theory Control_Frame
  imports Control_Lifecycle
begin

section \<open>What the methods leave alone\<close>

text \<open>
  Only \<open>SetActorEmergencyStop\<close> changes the emergency stops, and nothing changes the limits and the subscribers the service
  was created with or removes its policy engine. From this: the number of operations never exceeds the configured maximum.
\<close>

definition frame :: "service \<Rightarrow> (actor_control_target, actor_emergency_stop) gomap \<times> nat \<times> int \<times> string list \<times> bool" where
  "frame s = (sv_emergencyStops s, sv_maxOperations s, sv_operationTTL s, sv_outcomeSinks s, sv_policyEngine s = None)"

lemma frame_updates [simp]:
  "frame (s\<lparr>sv_hosts := a\<rparr>) = frame s" "frame (s\<lparr>sv_controllers := b\<rparr>) = frame s"
  "frame (s\<lparr>sv_actionFlights := d\<rparr>) = frame s" "frame (s\<lparr>sv_confirming := e\<rparr>) = frame s" "frame (s\<lparr>sv_hostGateway := f\<rparr>) = frame s"
  "frame (s\<lparr>sv_operations := g\<rparr>) = frame s" "frame (s\<lparr>sv_requests := h\<rparr>) = frame s" "frame (s\<lparr>sv_changes := i\<rparr>) = frame s"
  "frame (s\<lparr>sv_generation := j\<rparr>) = frame s" "frame (s\<lparr>sv_operationDirty := k\<rparr>) = frame s" "frame (s\<lparr>sv_checkpointDirty := l\<rparr>) = frame s"
  "frame (s\<lparr>sv_timelineSequence := m\<rparr>) = frame s" "frame (s\<lparr>sv_closed := n\<rparr>) = frame s"
  by (simp_all add: frame_def)

lemma frame_engine [simp]: "sv_policyEngine s = Some en \<Longrightarrow> frame (s\<lparr>sv_policyEngine := Some en'\<rparr>) = frame s"
  by (simp add: frame_def)

lemma frame_helpers [simp]:
  "frame (notifyLocked s) = frame s" "frame (notifyActorChangedLocked t s) = frame s" "frame (markOperationsDirtyLocked s) = frame s"
  "frame (markOperationCheckpointDirtyLocked s) = frame s" "frame (put_operation i op s) = frame s"
  "frame (discardOperationConfirmationLocked op s) = frame s" "frame (discard_decision d s) = frame s"
  "frame (failHostGatewayLocked h s) = frame s" "frame (put_host h v s) = frame s" "frame (snd (persistOperationsLocked s)) = frame s"
  by (auto simp: notifyLocked_def notifyActorChangedLocked_def markOperationsDirtyLocked_def markOperationCheckpointDirtyLocked_def
      put_operation_def discardOperationConfirmationLocked_def discard_decision_def failHostGatewayLocked_def put_host_def
      persistOperationsLocked_def split: option.split)

lemma frame_finalize [simp]: "frame (finalizeOperationPolicyLocked op c s) = frame s"
  by (auto simp: finalizeOperationPolicyLocked_def split: option.split)

lemma frame_record [simp]: "frame (recordOperationTimelineLocked i s) = frame s"
  by (auto simp: recordOperationTimelineLocked_def split: option.split prod.split)

lemma frame_conclude [simp]: "frame (conclude i op c s) = frame s"
  by (simp add: conclude_def Let_def split: option.split)

lemma frame_fold: "(\<And>x s. frame (f x s) = frame s) \<Longrightarrow> frame (fold f xs s) = frame s"
  by (induction xs arbitrary: s) simp_all

lemma frame_for_operations [simp]: "frame (for_operations step s) = frame s"
  unfolding for_operations_def by (rule frame_fold) (auto split: option.split)

lemma frame_loops [simp]:
  "frame (expireHostOperationsLocked h now s) = frame s" "frame (fenceSupersededAuthorityLocked now h w p s) = frame s"
  "frame (fenceControllerOperationsLocked l now s) = frame s" "frame (cancelActorOperationsLocked k now s) = frame s"
  by (simp_all add: expireHostOperationsLocked_def fenceSupersededAuthorityLocked_def fenceControllerOperationsLocked_def
      cancelActorOperationsLocked_def Let_def)

lemma frame_invalidate [simp]: "frame (invalidateControllerLocked k now s) = frame s"
  by (simp add: invalidateControllerLocked_def split: option.split)

lemma frame_controllers [simp]:
  "frame (expireControllerLocked k now s) = frame s" "frame (expireControllersLocked now s) = frame s"
  "frame (reconcileControllersLocked now h w p s) = frame s"
proof -
  show expire: "frame (expireControllerLocked k now s) = frame s" for k s
    by (simp add: expireControllerLocked_def split: option.split)
  show "frame (expireControllersLocked now s) = frame s"
    unfolding expireControllersLocked_def by (rule frame_fold) (rule expire)
  show "frame (reconcileControllersLocked now h w p s) = frame s"
    unfolding reconcileControllersLocked_def by (rule frame_fold) (auto simp: reconcile_step_def split: option.split)
qed

lemma frame_prune [simp]: "frame (pruneOperationsLocked now s) = frame s"
proof -
  have "frame (prune_step now cutoff i s) = frame s" for cutoff i s
    by (simp add: prune_step_def Let_def split: option.split)
  then show ?thesis by (simp add: pruneOperationsLocked_def Let_def frame_fold)
qed

lemma frame_refresh [simp]: "frame (refreshOperationHostLocked i op now s) = frame s"
  by (auto simp: refreshOperationHostLocked_def expireOperationByTTLLocked_def split: option.split)

lemma frame_persisted: "(\<And>s'. frame (snd (body s')) = frame s') \<Longrightarrow> frame (snd (persisted s body)) = frame s"
  by (rule persisted_cases [of s body]) auto

lemma frame_after_persist:
  assumes "frame s = f" "\<And>s'. frame (snd (body s')) = frame s'"
  shows "frame (snd (persisted s body)) = f"
  using frame_persisted [OF assms(2), of s] assms(1) by simp

lemma frame_finish [simp]: "frame (snd (finish v s)) = frame s"
  unfolding finish_def by (rule frame_persisted) simp

lemma frame_authorize [simp]: "frame (snd (authorizeActorLocked now s p t scope)) = frame s"
  by (auto simp: authorizeActorLocked_def split: sum.split)

lemma frame_authorize_result: "authorizeActorLocked now s p t scope = (r, s1) \<Longrightarrow> frame s1 = frame s"
  using frame_authorize [of now s p t scope] by simp

lemma frame_install [simp]: "frame (snd (install_host now r random s)) = frame s"
  by (simp add: install_host_def Let_def split: sum.split)

lemma frame_store_controller [simp]: "frame (snd (store_controller t l s)) = frame s"
  by (simp add: store_controller_def)

lemma frame_hosts:
  "frame (snd (RegisterHost now s reg random)) = frame s" "frame (snd (RenewHost now s h l)) = frame s"
  "frame (snd (UnregisterHost now s h l)) = frame s" "frame (snd (PublishWorld env encode now s h l w)) = frame s"
proof -
  have inner: "frame (snd (persisted (failHostGatewayLocked h (expireHostOperationsLocked h now s)) (install_host now reg random))) = frame s"
    for s h by (subst frame_persisted) simp_all
  show "frame (snd (RegisterHost now s reg random)) = frame s"
    unfolding RegisterHost_def Let_def
    by (simp split: option.split, intro impI, rule frame_persisted) (simp add: inner split: option.split)
  show "frame (snd (RenewHost now s h l)) = frame s"
    unfolding RenewHost_def Let_def by (rule frame_persisted) (simp split: sum.split)
  show "frame (snd (UnregisterHost now s h l)) = frame s"
    unfolding UnregisterHost_def Let_def by (rule frame_persisted) (simp split: sum.split)
  show "frame (snd (PublishWorld env encode now s h l w)) = frame s"
    by (simp add: PublishWorld_def store_world_def Let_def split: sum.split option.split)
qed

lemma frame_controller_methods:
  "frame (snd (AcquireController now s p acquire random)) = frame s" "frame (snd (RenewController now s p t l ttl)) = frame s"
  "frame (snd (ReleaseController now s p t l)) = frame s" "frame (snd (GetController now s p t)) = frame s"
  by (auto simp: AcquireController_def RenewController_def ReleaseController_def GetController_def Let_def
      split: option.split prod.split sum.split dest: frame_authorize_result)

lemma frame_collect: "frame (snd (collectHostWorkLocked now h n s)) = frame s"
proof -
  have deliver: "frame (snd (deliver_loop now n xs s)) = frame s" for n xs s
    by (induction now n xs s rule: deliver_loop.induct) (simp_all add: split_beta Let_def)
  have gateway: "frame (snd (collectHostGatewayWorkLocked h k s)) = frame s" for k
    by (simp add: collectHostGatewayWorkLocked_def Let_def)
  obtain k m where "snd (collectHostWorkLocked now h n s) = (let s2 = snd (deliver_loop now m
      (sort_key (\<lambda>(i, op). delivery_order op) (filter (\<lambda>(i, op). hc_HostID (op_request op) = h) (sv_operations s)))
      (snd (collectHostGatewayWorkLocked h k s)))
      in if hb_Requests (fst (collectHostWorkLocked now h n s)) \<noteq> [] then markOperationCheckpointDirtyLocked s2 else s2)"
    using collectHostWork_parts by blast
  then show ?thesis by (simp add: Let_def deliver gateway)
qed

lemma frame_poll: "frame (snd (poll_host now s h l limit)) = frame s"
  unfolding poll_host_def
  by (auto simp: split_beta Let_def frame_collect split: sum.split intro!: frame_after_persist)

lemma frame_reports:
  "frame (snd (AcknowledgeHost now s h l ack)) = frame s" "frame (snd (ReportHostRun now s h l run)) = frame s"
  "frame (snd (ReportHostResult env now s h l oc out)) = frame s"
proof -
  have queue: "frame (queueOutcomeDeliveryLocked i op s) = frame s" for i op s
    by (simp add: queueOutcomeDeliveryLocked_def Let_def)
  show "frame (snd (AcknowledgeHost now s h l ack)) = frame s"
    unfolding AcknowledgeHost_def Let_def
    by (simp split: option.split, intro impI, rule frame_persisted) (auto split: sum.split option.split)
  show "frame (snd (ReportHostRun now s h l run)) = frame s"
    unfolding ReportHostRun_def
    by (simp split: option.split, intro impI, rule frame_persisted) (auto split: sum.split option.split)
  show "frame (snd (ReportHostResult env now s h l oc out)) = frame s"
    unfolding ReportHostResult_def Let_def
    by (simp split: option.split, intro impI, rule frame_persisted) (auto simp: queue split: sum.split option.split)
qed

lemma frame_operations:
  "frame (snd (GetOperation env now s p i)) = frame s" "frame (snd (ListOperations env now s p query)) = frame s"
  "frame (snd (CancelOperation env now s p i)) = frame s"
proof -
  show "frame (snd (GetOperation env now s p i)) = frame s"
    unfolding GetOperation_def getOperationLocked_def
    by (auto split: option.split sum.split intro!: frame_after_persist)
  have "frame (snd (fold (list_step env now p query) xs a)) = frame (snd a)" for xs a
    by (induction xs arbitrary: a) (auto simp: list_step_def Let_def split: option.split)
  then show "frame (snd (ListOperations env now s p query)) = frame s"
    unfolding ListOperations_def Let_def
    by (auto simp: split_beta split: option.split intro!: frame_after_persist)
  show "frame (snd (CancelOperation env now s p i)) = frame s"
    unfolding CancelOperation_def Let_def
    by (auto split: option.split sum.split intro!: frame_after_persist)
qed

lemma frame_prepare [simp]: "frame (snd (prepareActionSubmissionLocked now s p input)) = frame s"
  by (auto simp: prepareActionSubmissionLocked_def Let_def split: option.split prod.split sum.split dest: frame_authorize_result)

lemma frame_prepare_result: "prepareActionSubmissionLocked now s p input = (r, s1) \<Longrightarrow> frame s1 = frame s"
  using frame_prepare [of now s p input] by simp

lemma frame_idempotent_result: "idempotentActionLocked env now s key f = Some (r, s1) \<Longrightarrow> frame s1 = frame s"
proof -
  have "frame (snd (persisted (refreshOperationHostLocked i op now s) (\<lambda>s1. (Inr (operationView env (refreshed i op s1)), s1)))) = frame s"
    for i op by (subst frame_persisted) simp_all
  then have step: "persisted (refreshOperationHostLocked i op now s) (\<lambda>s1. (Inr (operationView env (refreshed i op s1)), s1)) = (r, s1)
      \<Longrightarrow> frame s1 = frame s" for i op r s1 by (metis snd_conv)
  show "idempotentActionLocked env now s key f = Some (r, s1) \<Longrightarrow> frame s1 = frame s"
    unfolding idempotentActionLocked_def Let_def
    by (cases "map_of (sv_requests s) key"; cases "operation_at s (the (map_of (sv_requests s) key))")
      (simp_all split: if_splits add: step)
qed

lemma frame_prepareOperation_result: "prepareOperationLocked now s random = (r, s1) \<Longrightarrow> frame s1 = frame s"
proof -
  have "frame (snd (prepareOperationLocked now s random)) = frame s"
    unfolding prepareOperationLocked_def by (rule frame_after_persist) simp_all
  then show "prepareOperationLocked now s random = (r, s1) \<Longrightarrow> frame s1 = frame s" by simp
qed

lemma frame_store [simp]: "frame (snd (storeActionOperationLocked env s key r result)) = frame s"
proof -
  have "frame (snd (insert_operation env key op s)) = frame s" for op s
    unfolding insert_operation_def Let_def by (rule frame_after_persist) simp_all
  then show ?thesis by (simp add: storeActionOperationLocked_def Let_def split: option.split)
qed

lemma frame_submit:
  "frame (snd (submit_begin env now s p input key f c)) = frame s"
  "frame (snd (submit_commit env now s p input key f sub result d c random)) = frame s"
  "frame (finishActionFlight key s) = frame s"
  by (auto simp: submit_begin_def submit_commit_def finishActionFlight_def split: option.split prod.split sum.split
      dest!: frame_prepare_result frame_idempotent_result frame_prepareOperation_result)

lemma frame_evaluate_result: "evaluate_policy env s a cx r1 r2 = (r, s1) \<Longrightarrow> frame s1 = frame s"
  by (auto simp: evaluate_policy_def Let_def split: option.splits prod.splits sum.splits)

lemma frame_submit_evaluate: "frame (snd (submit_evaluate env s p input digest sub binding r1 r2)) = frame s"
  by (auto simp: submit_evaluate_def split: option.split prod.split sum.split dest: frame_evaluate_result)

lemma frame_find: "frame (snd (FindActionOperation env now s p input)) = frame s"
  unfolding FindActionOperation_def Let_def by (auto split: option.split sum.split prod.split dest: frame_idempotent_result)

lemma frame_stale [simp]: "frame (snd (stale_operation now i op c e s)) = frame s"
  unfolding stale_operation_def by (rule frame_after_persist) simp_all

lemma frame_confirm_begin: "frame (snd (confirm_begin env now s p i)) = frame s"
proof -
  have "frame (snd (confirm_prepare now i op a b ch s)) = frame s" for op a b ch s
    by (auto simp: confirm_prepare_def Let_def split: prod.split sum.split dest: frame_prepare_result)
  then show ?thesis
    by (auto simp: confirm_begin_def split: option.split prod.split sum.split dest: frame_authorize_result)
qed

lemma frame_confirm_evaluate: "frame (snd (confirm_evaluate env now s p i input orig owner b ch answer r1 r2)) = frame s"
proof -
  have "frame s1 = frame s" if "approve_policy s c p t = (r, s1)" for s c p t r s1
    using that by (auto simp: approve_policy_def split: option.splits prod.splits sum.splits)
  then show ?thesis
    unfolding confirm_evaluate_def stalePendingConfirmation_def
    by (auto split: option.split prod.split sum.split dest!: frame_evaluate_result)
qed

lemma frame_confirm_commit: "frame (snd (confirm_commit env now s i input orig d v)) = frame s"
proof -
  have persist: "persistOperationsLocked s1 = (r, s2) \<Longrightarrow> frame s2 = frame s1" for s1 r s2
    using frame_helpers(10) [of s1] by simp
  have "frame (snd (recordConfirmationDecision env now s i d)) = frame s"
    by (auto simp: recordConfirmationDecision_def Let_def split: option.split policy_result.split intro!: frame_after_persist)
  then show ?thesis
    by (auto simp: confirm_commit_def Let_def split: option.split prod.split sum.split dest!: frame_prepare_result persist)
qed

lemma frame_finishConfirmation: "frame (finishConfirmation i s) = frame s"
  by (simp add: finishConfirmation_def Let_def split: option.split)

lemma frame_rest:
  "frame (snd (enqueueHostGateway env now s r random)) = frame s" "frame (snd (ReportHostGatewayResult env now s h l g)) = frame s"
  "frame (cancelHostGateway i s) = frame s" "frame (Close s) = frame s" "frame (snd (outcome_delivery_begin s sub i)) = frame s"
  "frame (snd (outcome_delivery_acknowledge s sub i)) = frame s"
proof -
  have persist: "persistOperationsLocked s1 = (r, s2) \<Longrightarrow> frame s2 = frame s1" for s1 r s2
    using frame_helpers(10) [of s1] by simp
  show "frame (snd (outcome_delivery_acknowledge s sub i)) = frame s"
    by (auto simp: outcome_delivery_acknowledge_def Let_def split: sum.split prod.split option.split dest!: persist)
qed (auto simp: enqueueHostGateway_def ReportHostGatewayResult_def cancelHostGateway_def Close_def outcome_delivery_begin_def
    split: option.split sum.split intro!: frame_after_persist)

lemma frame_timeline:
  "frame (snd (GetTaskTimeline now s p query)) = frame s" "frame (snd (wait_task_timeline now s p input timer)) = frame s"
proof -
  have "frame (refresh_visible now is s) = frame s" for "is"
    unfolding refresh_visible_def by (rule frame_fold) (simp split: option.split)
  then have page: "frame (snd (taskTimelineLocked now s p query)) = frame s" for query
    unfolding taskTimelineLocked_def Let_def by (auto intro!: frame_after_persist)
  then have result: "taskTimelineLocked now s p query = (r, s1) \<Longrightarrow> frame s1 = frame s" for query r s1 by (metis snd_conv)
  show "frame (snd (GetTaskTimeline now s p query)) = frame s"
    using page by (auto simp: GetTaskTimeline_def split: option.split sum.split)
  show "frame (snd (wait_task_timeline now s p input timer)) = frame s"
    by (auto simp: wait_task_timeline_def split: option.split sum.split prod.split dest: result)
qed

lemmas methods_frame = frame_hosts frame_timeline frame_controller_methods frame_poll frame_reports frame_operations frame_rest frame_submit
  frame_submit_evaluate frame_find frame_confirm_begin frame_confirm_evaluate frame_confirm_commit frame_finishConfirmation

text \<open>Apart from \<open>SetActorEmergencyStop\<close>, no step changes an emergency stop.\<close>

lemma control_step_stops:
  assumes "control_step env encode s s'"
  shows "(\<exists>now p t active. s' = snd (SetActorEmergencyStop now s p t active)) \<or> frame s' = frame s"
  using assms by (cases rule: control_step.cases) (simp only: methods_frame simp_thms | blast)+

text \<open>Apart from the commit of a submission, no step adds an operation.\<close>

lemma control_step_commits:
  assumes "control_step env encode s s'"
  shows "advances s s'
    \<or> (\<exists>s0 s0' p input digest submission binding random1 random2 bound d now key fingerprint cancelled random.
         submit_evaluate env s0 p input digest submission binding random1 random2 = (Inr (bound, d), s0')
         \<and> fresh_operation_id s random
         \<and> s' = snd (submit_commit env now s p input key fingerprint submission bound d cancelled random))"
  using assms by (cases rule: control_step.cases) (blast intro: methods_advance confirm_evaluate_valid)+

subsection \<open>The number of operations\<close>

lemma keyed_length: "keyed s \<Longrightarrow> length (sv_operations s) = card (dom (operation_at s))"
  by (simp add: keyed_def dom_map_of_conv_image_fst) (metis distinct_card length_map list.set_map)

lemma advances_length:
  assumes "advances s s'" "keyed s"
  shows "length (sv_operations s') \<le> length (sv_operations s)"
proof -
  have "keyed s'" "dom (operation_at s') \<subseteq> dom (operation_at s)" using assms by (auto simp: advances_def dom_def)
  then show ?thesis using assms(2) by (simp add: keyed_length card_mono finite_dom_map_of)
qed

lemma adds_length:
  assumes "adds new s s'" "keyed s"
  shows "length (sv_operations s') \<le> Suc (length (sv_operations s))"
proof -
  have "keyed s'" "dom (operation_at s') \<subseteq> insert (op_id new) (dom (operation_at s))" using assms by (auto simp: adds_def dom_def)
  then have "length (sv_operations s') \<le> card (insert (op_id new) (dom (operation_at s)))"
    by (simp add: keyed_length card_mono finite_dom_map_of)
  also have "\<dots> \<le> Suc (length (sv_operations s))" using assms(2) by (simp add: keyed_length card_insert_le_m1 finite_dom_map_of card_insert_if)
  finally show ?thesis .
qed

lemma prepareOperation_room:
  assumes "prepareOperationLocked now s random = (Inr i, s1)"
  shows "length (sv_operations s1) < sv_maxOperations s1"
  by (rule persisted_cases [of "pruneOperationsLocked now s" "\<lambda>s1. if length (sv_operations s1) \<ge> sv_maxOperations s1
      then (Inl (fault ErrCapacity), s1) else (control_newID ''operation'' random, s1)"])
    (use assms in \<open>auto simp: prepareOperationLocked_def split: if_splits\<close>)

definition within_capacity :: "service \<Rightarrow> bool" where
  "within_capacity s \<longleftrightarrow> length (sv_operations s) \<le> sv_maxOperations s"

lemma advances_capacity:
  assumes "advances s s'" "frame s' = frame s" "keyed s" "within_capacity s"
  shows "within_capacity s'"
  using advances_length [OF assms(1, 3)] assms(2, 4) by (simp add: within_capacity_def frame_def)

text \<open>A part of a method that only moves operations on.\<close>

definition quiet :: "service \<Rightarrow> service \<Rightarrow> bool" where
  "quiet s s' \<longleftrightarrow> advances s s' \<and> frame s' = frame s"

lemma quiet_trans: "quiet a b \<Longrightarrow> quiet b c \<Longrightarrow> quiet a c"
  using advances_trans by (auto simp: quiet_def)

lemma quiet_parts:
  "prepareActionSubmissionLocked now s p input = (r1, s1) \<Longrightarrow> quiet s s1"
  "idempotentActionLocked env now s key f = Some (r2, s1) \<Longrightarrow> quiet s s1"
  "prepareOperationLocked now s random = (r3, s1) \<Longrightarrow> quiet s s1"
  by (simp_all add: quiet_def prepareSubmission_result_advances idempotent_result_advances prepareOperation_result_advances
      frame_prepare_result frame_idempotent_result frame_prepareOperation_result)

lemma quiet_discard: "quiet s (discard_decision d s)"
  by (simp add: quiet_def advances_same)

lemma submit_commit_cases:
  obtains s2 where "quiet s s2" "snd (submit_commit env now s p input key f sub result d cancelled random) = discard_decision d s2"
  | cur s1 i s2 where "quiet s s2" "prepareActionSubmissionLocked now s p input = (Inr cur, s1)"
      "sameActionSubmissionSnapshot sub cur" "prepareOperationLocked now s1 random = (Inr i, s2)"
      "submit_commit env now s p input key f sub result d cancelled random
         = storeActionOperationLocked env s2 key (action_control_request now i p input cur (br_Action result) d) (de_Result d)"
proof -
  let ?commit = "submit_commit env now s p input key f sub result d cancelled random"
  obtain r s1 where prep: "prepareActionSubmissionLocked now s p input = (r, s1)" by fastforce
  have q1: "quiet s s1" using prep by (rule quiet_parts)
  have q0: "quiet s s" by (simp add: quiet_def)
  show thesis
  proof (cases "\<not> cancelled \<and> (\<exists>cur. r = Inr cur \<and> sameActionSubmissionSnapshot sub cur
      \<and> ah_Epoch (br_Snapshot result) = ap_Epoch (ss_actor cur)
      \<and> recentObservationGap (ap_ObservationSeq (ss_actor cur)) (ah_ObservationSeq (br_Snapshot result)))")
    case False
    then have "snd ?commit = discard_decision d (if cancelled then s else s1)"
      by (cases r) (auto simp: submit_commit_def prep)
    then show ?thesis using that(1) q0 q1 by (cases cancelled) simp_all
  next
    case True
    then obtain cur where cur: "\<not> cancelled" "r = Inr cur" "sameActionSubmissionSnapshot sub cur"
      "ah_Epoch (br_Snapshot result) = ap_Epoch (ss_actor cur)"
      "recentObservationGap (ap_ObservationSeq (ss_actor cur)) (ah_ObservationSeq (br_Snapshot result))" by blast
    show ?thesis
    proof (cases "idempotentActionLocked env now s1 key f")
      case (Some answer)
      obtain a s2 where "answer = (a, s2)" by (cases answer)
      then have "snd ?commit = discard_decision d s2" "quiet s s2"
        using Some cur prep quiet_trans [OF q1 quiet_parts(2)] by (simp_all add: submit_commit_def)
      then show ?thesis using that(1) by blast
    next
      case None
      obtain r2 s2 where op: "prepareOperationLocked now s1 random = (r2, s2)" by fastforce
      have q2: "quiet s s2" using quiet_trans [OF q1 quiet_parts(3) [OF op]] .
      show ?thesis
      proof (cases r2)
        case (Inl e)
        then have "snd ?commit = discard_decision d s2" using None op cur prep by (simp add: submit_commit_def)
        then show ?thesis using that(1) q2 by blast
      next
        case (Inr i)
        then show ?thesis using that(2) [OF q2] None op cur prep by (simp add: submit_commit_def)
      qed
    qed
  qed
qed

lemma submit_commit_capacity:
  assumes "keyed s" "within_capacity s"
  shows "within_capacity (snd (submit_commit env now s p input key f sub result d cancelled random))"
proof -
  have discard: "within_capacity (discard_decision d s2)" if "quiet s s2" for s2
    using quiet_trans [OF that quiet_discard [of s2 d]] assms by (auto simp: quiet_def intro: advances_capacity)
  have store: "within_capacity (snd (storeActionOperationLocked env s2 key (action_control_request now i p input cur a d) (de_Result d)))"
    if "quiet s s2" "prepareOperationLocked now s1 random = (Inr i, s2)" for s1 s2 i cur a
  proof -
    have "keyed s2" using that(1) assms(1) by (simp add: quiet_def advances_def)
    then have "length (sv_operations (snd (storeActionOperationLocked env s2 key (action_control_request now i p input cur a d) (de_Result d))))
        \<le> Suc (length (sv_operations s2))"
      by (cases "initial_status (de_Result d)")
        (simp add: storeAction_invalid, rule adds_length [OF storeAction_adds], simp_all add: action_control_request_def)
    then show ?thesis
      using prepareOperation_room [OF that(2)] frame_store [of env s2 key "action_control_request now i p input cur a d" "de_Result d"]
      by (simp add: within_capacity_def frame_def)
  qed
  show ?thesis
    by (rule submit_commit_cases [of s env now p input key f sub result d cancelled random])
      (use discard store in \<open>simp_all\<close>)
qed

lemma max_operations_stop: "sv_maxOperations (snd (SetActorEmergencyStop now s p t active)) = sv_maxOperations s"
proof -
  have "frame s1 = frame s2 \<Longrightarrow> sv_maxOperations s1 = sv_maxOperations s2" for s1 s2 by (simp add: frame_def)
  note [simp] = this [OF frame_finish] this [OF frame_helpers(2)] this [OF frame_helpers(3)] this [OF frame_loops(4)]
  show ?thesis by (simp add: SetActorEmergencyStop_def Let_def split: option.split sum.split)
qed

lemma control_step_max: "control_step env encode s s' \<Longrightarrow> sv_maxOperations s' = sv_maxOperations s"
  using control_step_stops [of env encode s s'] by (auto simp: max_operations_stop frame_def)

lemma control_step_capacity:
  assumes "control_step env encode s s'" "keyed s" "within_capacity s"
  shows "within_capacity s'"
  using control_step_commits [OF assms(1)]
proof
  assume "advances s s'"
  from advances_length [OF this assms(2)] show ?thesis using control_step_max [OF assms(1)] assms(3)
    by (simp add: within_capacity_def)
qed (use submit_commit_capacity [OF assms(2, 3)] in blast)

end
