(* ===== verification/Control_Samples.thy ===== *)
theory Control_Samples
  imports Control_Frame Policy_Samples
begin

section \<open>A concrete run of the control plane\<close>

text \<open>
  A Host registers and publishes one world with one actor; the owner takes control of it and submits an action that the
  sample policy allows; the Host polls, accepts and reports. The states of this run instantiate the theorems of the control
  plane.
\<close>

definition host_registration_1 :: host_registration where
  "host_registration_1 = \<lparr>hg_ContractVersion = ControlContractVersion, hg_HostID = ''server'', hg_InstanceID = ''instance'',
     hg_Manifest = sample_manifest, hg_LeaseTTLMillis = 60000\<rparr>"

definition owner :: principal where
  "owner = \<lparr>pr_ID = ''player'', pr_GrantedScopes = [''actor.control'', ''actor.execute'', ''actor.read'', ''operation.cancel'', ''policy.confirm'']\<rparr>"

definition actor_1 :: actor_publication where
  "actor_1 = \<lparr>ap_ActorID = ''actor'', ap_OwnerPrincipalID = ''player'', ap_DisplayName = ''Actor'', ap_ObservationSeq = 1,
     ap_Epoch = sample_epoch,
     ap_Authority = Some \<lparr>da_Source = DecisionExternal, da_ControllerPrincipalID = ''player'', da_Revision = 1,
       da_PersonaMode = PersonaAgentAvatar\<rparr>,
     ap_State = ''{}'', ap_Observation = None, ap_Capabilities = None\<rparr>"

definition world_1 :: world_publication where
  "world_1 = \<lparr>wp_WorldID = ''world'', wp_DisplayName = ''World'', wp_Sequence = 1, wp_VisiblePrincipalIDs = [],
     wp_Actors = [actor_1]\<rparr>"

definition encode_1 :: publication_encoder where
  "encode_1 w = Inr 100"

definition target_1 :: actor_control_target where
  "target_1 = ActorControlTarget ''server'' ''world'' ''actor''"

definition acquire_1 :: acquire_controller_input where
  "acquire_1 = \<lparr>ai_Target = target_1, ai_ControllerID = ''controller'', ai_LeaseTTLMillis = 60000\<rparr>"

definition request_1 :: action_request where
  "request_1 = \<lparr>rq_RequestID = ''request'', rq_ControllerID = ''controller'', rq_ActorID = ''actor'',
     rq_Capability = CapabilityRef ''item.use'' ''1.0.0'', rq_SpecDigest = sample_digest, rq_Arguments = ''{}'', rq_Targets = [],
     rq_ExpectedEpoch = sample_epoch, rq_ObservationSeq = 1, rq_TaskID = '''', rq_PlanStep = None, rq_IdempotencyKey = ''key''\<rparr>"

definition submit_1 :: submit_action_input where
  "submit_1 = \<lparr>si_HostID = ''server'', si_WorldID = ''world'', si_Request = request_1, si_ParentOperationID = ''''\<rparr>"

definition host_snapshot_1 :: action_host_snapshot where
  "host_snapshot_1 = \<lparr>ah_Now = \<lparr>tp_Clock = ClockStep, tp_Value = 10\<rparr>, ah_Epoch = sample_epoch, ah_ObservationSeq = 1\<rparr>"

definition bound_1 :: action_binding_result where
  "bound_1 = \<lparr>br_Action = spend, br_Snapshot = host_snapshot_1\<rparr>"

definition service_created :: service where
  "service_created = newService 0 0 (Some sample_engine) []"

definition host_1 :: host_state where
  "host_1 = \<lparr>ho_registration = host_registration_1,
     ho_lease = \<lparr>hl_HostID = ''server'', hl_InstanceID = ''instance'', hl_LeaseID = ''lease.1'', hl_ExpiresAt = 61000\<rparr>, ho_worlds = []\<rparr>"

definition service_registered :: service where
  "service_registered = service_created\<lparr>sv_hosts := [(''server'', host_1)]\<rparr>"

definition service_published :: service where
  "service_published = service_registered\<lparr>sv_hosts := [(''server'', host_1\<lparr>ho_worlds := [(''world'', world_1)]\<rparr>)],
     sv_changes := [ActorChange (ActorControlTarget ''server'' ''world'' '''')], sv_generation := 1\<rparr>"

definition controller_1 :: controller_lease where
  "controller_1 = \<lparr>cl_LeaseID = ''controller-lease.1'', cl_ControllerID = ''controller'', cl_PrincipalID = ''player'',
     cl_HostID = ''server'', cl_WorldID = ''world'', cl_ActorID = ''actor'', cl_Source = DecisionExternal,
     cl_PersonaMode = PersonaAgentAvatar, cl_AuthorityRevision = 1, cl_Epoch = sample_epoch, cl_AcquiredAt = 1000,
     cl_ExpiresAt = 61000\<rparr>"

definition service_controlled :: service where
  "service_controlled = service_published\<lparr>sv_controllers := [(target_1, controller_1)],
     sv_changes := [ActorChange (ActorControlTarget ''server'' ''world'' ''''), ActorChange target_1], sv_generation := 3\<rparr>"

definition snapshot_1 :: action_submission_snapshot where
  "snapshot_1 = \<lparr>ss_actor = actor_1, ss_controller = controller_1, ss_emergencyStopped = False, ss_emergencyRevision = 0\<rparr>"

definition service_begun :: service where
  "service_begun = service_controlled\<lparr>sv_actionFlights := [(''key'', ''f'')]\<rparr>"

definition decision_1 :: decision where
  "decision_1 = \<lparr>de_DecisionID = ''decision.'' @ sample_hex, de_Result = Allow, de_ControllerID = ''controller'',
     de_ActorID = ''actor'', de_PrincipalID = ''player'', de_EffectDigest = sample_digest, de_PolicyRevision = 1,
     de_MatchedRuleIDs = [''rule.spend''], de_ReasonCode = ''policy.rule'', de_HumanSummary = ''rule'',
     de_EffectiveLimits = [\<lparr>el_BudgetID = ''budget.gold'', el_UsageKey = ''budget.gold.'' @ replicate 16 CHR ''a'', el_MaxActions = 2,
       el_ActionsUsed = 1, el_ActionsRemaining = 1, el_MaxQuantity = 10, el_QuantityUsed = 4, el_QuantityRemaining = 6\<rparr>],
     de_Confirmation = None, de_EvaluatedAt = \<lparr>tp_Clock = ClockStep, tp_Value = 10\<rparr>\<rparr>"

definition engine_1 :: engine where
  "engine_1 = snd (Evaluate sample_env sample_engine spend (submit_context owner submit_1 snapshot_1 host_snapshot_1)
     (Some sample_hex) (Some sample_hex))"

definition service_evaluated :: service where
  "service_evaluated = service_begun\<lparr>sv_policyEngine := Some engine_1\<rparr>"

definition operation_1 :: operation_state where
  "operation_1 = \<lparr>op_persistenceRevision = 1,
     op_request = \<lparr>hc_OperationID = ''operation.1'', hc_RequestID = ''request'', hc_Principal = owner, hc_HostID = ''server'',
       hc_WorldID = ''world'', hc_ActorID = ''actor'', hc_Kind = ControlAction,
       hc_Binding = Some \<lparr>cb_Epoch = sample_epoch, cb_ObservationSeq = 1, cb_AuthorityRevision = 1,
         cb_ControllerLeaseID = ''controller-lease.1''\<rparr>,
       hc_ActionRequest = Some request_1, hc_BoundAction = Some spend, hc_PolicyDecision = Some decision_1,
       hc_ParentOperationID = '''', hc_SubmittedAt = 1000\<rparr>,
     op_status = OperationQueued, op_attempts = 0, op_cancel = False, op_ack = None, op_run = None, op_outcome = None,
     op_outcomeDelivery = [], op_output = '''', op_rejection = no_acknowledgement, op_idempotency = ''key'',
     op_createdAt = 1000, op_updatedAt = 1000, op_children = [], op_timeline = [], op_timelineTruncatedBefore = 0\<rparr>"

text \<open>The state in which the operation has changed \<open>n\<close> times since it was submitted.\<close>

definition service_with :: "nat \<Rightarrow> bool \<Rightarrow> operation_state \<Rightarrow> service" where
  "service_with n dirty op = service_evaluated\<lparr>sv_operations := [(''operation.1'', op\<lparr>op_persistenceRevision := word_of_nat (Suc n)\<rparr>)],
     sv_requests := [(''key'', ''operation.1'')],
     sv_changes := [ActorChange (ActorControlTarget ''server'' ''world'' ''''), ActorChange target_1]
       @ replicate (Suc n) (OperationChange ''operation.1''),
     sv_generation := 5 + n, sv_checkpointDirty := dirty\<rparr>"

definition service_submitted :: service where
  "service_submitted = service_with 0 False operation_1"

definition service_polled :: service where
  "service_polled = service_with 1 True (operation_1\<lparr>op_status := OperationDelivered, op_attempts := 1\<rparr>)"

definition accept_1 :: host_acknowledgement where
  "accept_1 = \<lparr>ha_OperationID = ''operation.1'', ha_Accepted = True, ha_Code = '''', ha_Message = ''''\<rparr>"

definition service_accepted :: service where
  "service_accepted = service_with 2 False (operation_1\<lparr>op_status := OperationAccepted, op_attempts := 1, op_ack := Some accept_1\<rparr>)"

definition run_1 :: action_run where
  "run_1 = \<lparr>ar_OperationID = ''operation.1'', ar_Status = ActionRunning, ar_ProgressSeq = 1, ar_Progress = 50,
     ar_UpdatedAt = \<lparr>tp_Clock = ClockStep, tp_Value = 11\<rparr>, ar_Message = ''''\<rparr>"

definition service_running :: service where
  "service_running = service_with 3 True
     (operation_1\<lparr>op_status := OperationRunning, op_attempts := 1, op_ack := Some accept_1, op_run := Some run_1\<rparr>)"

lemma registered_1: "snd (RegisterHost 1000 service_created host_registration_1 (Some ''1'')) = service_registered"
  by code_simp

lemma published_1:
  "snd (PublishWorld sample_env encode_1 1000 service_registered ''server'' ''lease.1'' world_1) = service_published"
  by code_simp

lemma controlled_1: "snd (AcquireController 1000 service_published owner acquire_1 (Some ''1'')) = service_controlled"
  by code_simp

lemma begun_1: "submit_begin sample_env 1000 service_controlled owner submit_1 ''key'' ''f'' False = (SubmitStarted snapshot_1, service_begun)"
  by code_simp

lemma evaluated_1:
  "submit_evaluate sample_env service_begun owner submit_1 sample_digest snapshot_1 (Inr bound_1) (Some sample_hex) (Some sample_hex)
     = (Inr (bound_1, decision_1), service_evaluated)"
proof -
  let ?cx = "submit_context owner submit_1 snapshot_1 host_snapshot_1"
  have "validateActionBindingResult sample_env bound_1 (si_Request submit_1) sample_digest (ss_actor snapshot_1) = None" by code_simp
  moreover have "fst (Evaluate sample_env sample_engine spend ?cx (Some sample_hex) (Some sample_hex)) = Inr decision_1" by code_simp
  then have "Evaluate sample_env sample_engine spend ?cx (Some sample_hex) (Some sample_hex) = (Inr decision_1, engine_1)"
    by (simp add: engine_1_def prod_eq_iff)
  moreover have "ValidateDecision decision_1 = None" by code_simp
  moreover have "sv_policyEngine service_begun = Some sample_engine"
    by (simp add: service_begun_def service_controlled_def service_published_def service_registered_def service_created_def
        newService_def Let_def)
  ultimately show ?thesis
    by (simp add: submit_evaluate_def evaluate_policy_def bound_1_def service_evaluated_def Let_def)
qed

text \<open>The engine's state does not matter for what follows.\<close>

declare engine_1_def [code del]

lemma submitted_1:
  "snd (submit_commit sample_env 1000 service_evaluated owner submit_1 ''key'' ''f'' snapshot_1 bound_1 decision_1 False (Some ''1''))
     = service_submitted"
  by code_simp

lemma polled_1: "snd (poll_host 1000 service_submitted ''server'' ''lease.1'' 8) = service_polled"
  by code_simp

lemma accepted_1: "snd (AcknowledgeHost 1000 service_polled ''server'' ''lease.1'' accept_1) = service_accepted"
  by code_simp

lemma running_1: "snd (ReportHostRun 1000 service_accepted ''server'' ''lease.1'' run_1) = service_running"
  by code_simp

subsection \<open>The states are reachable\<close>

abbreviation reached :: "service \<Rightarrow> bool" where
  "reached s \<equiv> reachable_service sample_env encode_1 s"

lemma reached_step: "reached s \<Longrightarrow> control_step sample_env encode_1 s s1 \<Longrightarrow> s1 = s' \<Longrightarrow> reached s'"
  by (blast intro: reachable_service.stepped)

lemma reached_created: "reached service_created"
  unfolding service_created_def by (rule reachable_service.created)

lemma reached_registered: "reached service_registered"
  using reached_created step_RegisterHost registered_1 by (rule reached_step)

lemma reached_published: "reached service_published"
  using reached_registered step_PublishWorld published_1 by (rule reached_step)

lemma reached_controlled: "reached service_controlled"
  using reached_published step_AcquireController controlled_1 by (rule reached_step)

lemma reached_begun: "reached service_begun"
  by (rule reached_step [OF reached_controlled step_submit_begin [of _ _ _ 1000 owner submit_1 "''key''" "''f''" False]]) (simp add: begun_1)

lemma reached_evaluated: "reached service_evaluated"
  by (rule reached_step [OF reached_begun step_submit_evaluate [of _ _ _ owner submit_1 sample_digest snapshot_1 "Inr bound_1"
        "Some sample_hex" "Some sample_hex"]]) (simp add: evaluated_1)

lemma reached_submitted: "reached service_submitted"
proof (rule reached_step [OF reached_evaluated step_submit_commit [OF evaluated_1] submitted_1])
  show "fresh_operation_id service_evaluated (Some ''1'')"
    by (simp add: fresh_operation_id_def service_evaluated_def service_begun_def service_controlled_def service_published_def
        service_registered_def service_created_def newService_def Let_def)
qed

lemma reached_polled: "reached service_polled"
  using reached_submitted step_PollHost polled_1 by (rule reached_step)

lemma reached_accepted: "reached service_accepted"
  using reached_polled step_AcknowledgeHost accepted_1 by (rule reached_step)

lemma reached_running: "reached service_running"
  using reached_accepted step_ReportHostRun running_1 by (rule reached_step)

lemma operation_at_service_with [simp]:
  "operation_at (service_with n dirty op) i = (if i = ''operation.1'' then Some (op\<lparr>op_persistenceRevision := word_of_nat (Suc n)\<rparr>) else None)"
  by (simp add: service_with_def)

lemmas sample_states = service_submitted_def service_polled_def service_accepted_def service_running_def

text \<open>The same run with an emergency stop after the delivery.\<close>

definition stop_1 :: actor_emergency_stop where
  "stop_1 = \<lparr>es_Target = target_1, es_Active = True, es_Revision = 1, es_UpdatedBy = ''player'', es_UpdatedAt = 1000\<rparr>"

definition service_stopped :: service where
  "service_stopped = (service_with 2 False (operation_1\<lparr>op_status := OperationDelivered, op_attempts := 1, op_cancel := True\<rparr>))\<lparr>
     sv_emergencyStops := [(target_1, stop_1)], sv_generation := 8,
     sv_changes := sv_changes (service_with 2 False operation_1) @ [ActorChange target_1]\<rparr>"

lemma stopped_1: "snd (SetActorEmergencyStop 1000 service_polled owner target_1 True) = service_stopped"
  by code_simp

lemma reached_stopped: "reached service_stopped"
  using reached_polled step_SetActorEmergencyStop stopped_1 by (rule reached_step)

end
