(* ===== verification/Control_Safety.thy ===== *)
theory Control_Safety
  imports Control_Samples
begin

section \<open>What holds of every operation\<close>

text \<open>
  The invariant of operations, derived from the life cycle: an operation's status, acknowledgement, run, outcome and policy
  decision fit together. From it: what a Host is offered, which operations are final, that recorded facts do not change,
  and what the checks made on a restored operation find.
\<close>

subsection \<open>The invariant\<close>

definition accepted_statuses :: "operation_status list" where
  "accepted_statuses = [OperationAccepted, OperationRunning, OperationSucceeded, OperationFailed, OperationCancelled,
     OperationInterrupted, OperationStale, OperationOutcomeUnknown]"

definition outcome_fits :: "operation_state \<Rightarrow> action_outcome \<Rightarrow> bool" where
  "outcome_fits op oc \<longleftrightarrow>
     op_status op = operationStatusFromRun (ao_Status oc) \<and> isTerminalActionRunStatus (ao_Status oc)
     \<and> (\<forall>b. hc_Binding (op_request op) = Some b \<longrightarrow> ao_Epoch oc = cb_Epoch b \<and> cb_ObservationSeq b \<le> ao_WorldSeq oc)"

definition allowed_consistent :: "operation_state \<Rightarrow> bool" where
  "allowed_consistent op \<longleftrightarrow>
     (op_ack op \<noteq> None \<longrightarrow> op_attempts op \<noteq> 0)
     \<and> (accepted_ack op \<longrightarrow> op_status op \<in> set accepted_statuses)
     \<and> (\<not> accepted_ack op \<longrightarrow> op_run op = None \<and> op_outcome op = None)
     \<and> (op_ack op \<noteq> None \<and> \<not> accepted_ack op \<longrightarrow> op_status op = OperationRejected)
     \<and> (op_ack op = None \<longrightarrow>
          op_status op = OperationQueued \<and> op_attempts op = 0 \<or> op_status op = OperationDelivered \<and> op_attempts op \<noteq> 0
          \<or> op_status op = OperationStale \<or> op_status op = OperationCancelled \<and> op_attempts op = 0)
     \<and> (op_outcome op = None \<longrightarrow> op_output op = [])
     \<and> (\<forall>oc. op_outcome op = Some oc \<longrightarrow> outcome_fits op oc)
     \<and> (\<forall>r. op_run op = Some r \<longrightarrow> validActionRunStatus (ar_Status r)
          \<and> (op_outcome op = None \<longrightarrow> op_status op \<in> {operationStatusFromRun (ar_Status r), OperationOutcomeUnknown}))"

definition consistent :: "operation_state \<Rightarrow> bool" where
  "consistent op \<longleftrightarrow>
     (case hc_PolicyDecision (op_request op) of
        None \<Rightarrow> False
      | Some d \<Rightarrow>
          (case de_Result d of
             Deny \<Rightarrow> op_status op = OperationRejected \<and> no_execution op
           | RequireConfirmation \<Rightarrow>
               op_status op \<in> {OperationAwaitingConfirmation, OperationCancelled, OperationStale} \<and> no_execution op
           | Allow \<Rightarrow> allowed_consistent op
           | ResultOther _ \<Rightarrow> False))"

lemma next_attempt_pos [simp]: "next_attempt n \<noteq> 0"
proof -
  have "n + 1 = 0 \<Longrightarrow> n = - 1" by (simp add: eq_neg_iff_add_eq_0)
  moreover have "(0 :: u32) < - 1" by (simp add: word_gt_0)
  ultimately show ?thesis by (auto simp: next_attempt_def)
qed

lemma incomplete_iff:
  "\<not> completeOperation op \<longleftrightarrow>
     op_outcome op = None \<and> op_status op \<noteq> OperationOutcomeUnknown \<and> op_status op \<noteq> OperationRejected
     \<and> (op_status op = OperationStale \<longrightarrow> accepted_ack op) \<and> (op_status op = OperationCancelled \<longrightarrow> op_attempts op \<noteq> 0)"
  by (cases "op_status op"; auto simp: completeOperation_def)

lemma terminal_run_status:
  "isTerminalActionRunStatus s \<Longrightarrow> operationStatusFromRun s \<in> {OperationSucceeded, OperationFailed, OperationCancelled,
     OperationInterrupted, OperationStale, OperationOutcomeUnknown}"
  by (cases s) (simp_all add: isTerminalActionRunStatus_def)

lemma valid_run_status: "validActionRunStatus s \<Longrightarrow> operationStatusFromRun s \<in> set accepted_statuses"
  by (cases s) (simp_all add: validActionRunStatus_def accepted_statuses_def isTerminalActionRunStatus_def)

lemma same_execution_accepted [simp]: "same_execution op op' \<Longrightarrow> accepted_ack op' = accepted_ack op"
  by (simp add: same_execution_def accepted_ack_def)

lemma same_execution_consistent:
  assumes "same_execution op op'"
  shows "consistent op' \<longleftrightarrow> consistent op"
  using assms unfolding consistent_def allowed_consistent_def outcome_fits_def no_execution_def accepted_ack_def same_execution_def
  by (simp split: option.split policy_result.split)

lemma consistent_result:
  assumes "consistent op"
  obtains d where "hc_PolicyDecision (op_request op) = Some d" "de_Result d = Deny" "op_status op = OperationRejected" "no_execution op"
  | d where "hc_PolicyDecision (op_request op) = Some d" "de_Result d = RequireConfirmation"
      "op_status op \<in> {OperationAwaitingConfirmation, OperationCancelled, OperationStale}" "no_execution op"
  | d where "hc_PolicyDecision (op_request op) = Some d" "de_Result d = Allow" "allowed_consistent op"
  using assms by (auto simp: consistent_def split: option.splits policy_result.splits)

lemma consistent_allowedI:
  "hc_PolicyDecision (op_request op) = Some d \<Longrightarrow> de_Result d = Allow \<Longrightarrow> allowed_consistent op \<Longrightarrow> consistent op"
  by (simp add: consistent_def)

lemma no_execution_not_accepted: "no_execution op \<Longrightarrow> \<not> accepted_ack op"
  by (simp add: no_execution_def)

text \<open>An operation that a Host may see has been allowed.\<close>

lemma consistent_allowed:
  assumes "consistent op" "op_status op \<in> {OperationQueued, OperationDelivered, OperationAccepted} \<or> accepted_ack op"
  obtains d where "hc_PolicyDecision (op_request op) = Some d" "de_Result d = Allow" "allowed_consistent op"
  using assms(1) by (rule consistent_result) (use assms(2) that in \<open>auto simp: no_execution_def\<close>)

lemma consistent_withdrawn:
  assumes "consistent op" "op_status op \<in> {OperationQueued, OperationAwaitingConfirmation} \<or> \<not> completeOperation op \<and> op_attempts op = 0"
    and "status \<in> {OperationStale, OperationCancelled}"
  shows "consistent (op\<lparr>op_status := status\<rparr>)"
  using assms(1)
proof (cases rule: consistent_result)
  case (3 d)
  have "op_attempts op = 0 \<and> op_ack op = None"
    using 3(3) assms(2) by (cases "op_ack op") (auto simp: allowed_consistent_def accepted_statuses_def)
  with 3 assms(3) show ?thesis
    by (intro consistent_allowedI) (auto simp: allowed_consistent_def accepted_ack_def)
qed (use assms(2, 3) in \<open>auto simp: consistent_def no_execution_def incomplete_iff\<close>)

lemma consistent_lost:
  assumes "consistent op" "\<not> completeOperation op"
  shows "consistent (op\<lparr>op_status := (if accepted_ack op then OperationOutcomeUnknown else OperationStale)\<rparr>)"
  using assms(1)
proof (cases rule: consistent_result)
  case (3 d)
  have "op_outcome op = None" "accepted_ack op \<or> op_ack op = None"
    using 3(3) assms(2) by (auto simp: allowed_consistent_def incomplete_iff)
  with 3 show ?thesis
    by (intro consistent_allowedI) (auto simp: allowed_consistent_def accepted_ack_def accepted_statuses_def)
qed (use assms(2) no_execution_not_accepted in \<open>auto simp: consistent_def no_execution_def incomplete_iff\<close>)

lemma consistent_delivered:
  assumes "consistent op" "deliverable op"
  shows "consistent (op\<lparr>op_attempts := next_attempt (op_attempts op),
    op_status := (if op_ack op = None then OperationDelivered else op_status op)\<rparr>)"
proof -
  obtain d where d: "hc_PolicyDecision (op_request op) = Some d" "de_Result d = Allow" "allowed_consistent op"
    using assms(1) by (rule consistent_allowed) (use assms(2) in \<open>auto simp: deliverable_def\<close>)
  have "op_outcome op = None"
    using d(3) assms(2) terminal_run_status by (fastforce simp: allowed_consistent_def outcome_fits_def deliverable_def)
  with d assms(2) show ?thesis
    by (intro consistent_allowedI) (auto simp: allowed_consistent_def deliverable_def accepted_ack_def split: if_splits)
qed

lemma consistent_acknowledged:
  assumes "consistent op" "op_status op = OperationDelivered" "op_ack op = None"
  shows "consistent (op\<lparr>op_ack := Some ack, op_status := (if ha_Accepted ack then OperationAccepted else OperationRejected)\<rparr>)"
proof -
  obtain d where d: "hc_PolicyDecision (op_request op) = Some d" "de_Result d = Allow" "allowed_consistent op"
    using assms(1) by (rule consistent_allowed) (use assms(2) in auto)
  with assms(2, 3) show ?thesis
    by (intro consistent_allowedI) (auto simp: allowed_consistent_def accepted_ack_def accepted_statuses_def)
qed

lemma consistent_progressed:
  assumes "consistent op" "op_outcome op = None" "accepted_ack op" "ValidateActionRun run = None"
  shows "consistent (op\<lparr>op_run := Some run, op_status := operationStatusFromRun (ar_Status run)\<rparr>)"
proof -
  obtain d where d: "hc_PolicyDecision (op_request op) = Some d" "de_Result d = Allow" "allowed_consistent op"
    using assms(1) by (rule consistent_allowed) (use assms(3) in auto)
  have valid: "validActionRunStatus (ar_Status run)" using assms(4) by (simp add: ValidateActionRun_def first_err_None_iff)
  show ?thesis
    using d assms(2, 3) valid valid_run_status [OF valid]
    by (intro consistent_allowedI) (auto simp: allowed_consistent_def accepted_ack_def split: option.splits)
qed

lemma consistent_finished:
  assumes "consistent op" "ValidateActionOutcome oc = None" "outcome_conflict op oc = None"
  shows "consistent (op\<lparr>op_outcome := Some oc, op_output := output, op_status := operationStatusFromRun (ao_Status oc)\<rparr>)"
proof -
  have accepted: "accepted_ack op"
    and binding: "\<And>b. hc_Binding (op_request op) = Some b \<Longrightarrow> ao_Epoch oc = cb_Epoch b \<and> cb_ObservationSeq b \<le> ao_WorldSeq oc"
    using assms(3) by (auto simp: outcome_conflict_def first_err_None_iff)
  have terminal: "isTerminalActionRunStatus (ao_Status oc)"
    using assms(2) by (simp add: ValidateActionOutcome_def first_err_None_iff)
  obtain d where d: "hc_PolicyDecision (op_request op) = Some d" "de_Result d = Allow" "allowed_consistent op"
    using assms(1) by (rule consistent_allowed) (use accepted in auto)
  show ?thesis
    using d accepted binding terminal terminal_run_status [OF terminal]
    by (intro consistent_allowedI)
      (auto simp: allowed_consistent_def outcome_fits_def accepted_ack_def accepted_statuses_def split: option.splits)
qed

lemma consistent_decided:
  assumes "consistent op" "op_status op = OperationAwaitingConfirmation"
  shows "de_Result d = Allow \<Longrightarrow> consistent ((with_decision op d)\<lparr>op_status := OperationQueued\<rparr>)"
    and "de_Result d = Deny \<Longrightarrow> consistent ((with_decision op d)\<lparr>op_status := OperationRejected, op_rejection := rej\<rparr>)"
    and "de_Result d = RequireConfirmation \<Longrightarrow> consistent (with_decision op d)"
proof -
  have idle: "no_execution op"
    using assms(1) by (rule consistent_result) (use assms(2) in \<open>auto simp: allowed_consistent_def accepted_statuses_def accepted_ack_def
        split: option.splits\<close>)
  then show "de_Result d = Allow \<Longrightarrow> consistent ((with_decision op d)\<lparr>op_status := OperationQueued\<rparr>)"
    by (intro consistent_allowedI) (auto simp: allowed_consistent_def no_execution_def accepted_ack_def)
  show "de_Result d = Deny \<Longrightarrow> consistent ((with_decision op d)\<lparr>op_status := OperationRejected, op_rejection := rej\<rparr>)"
    using idle by (simp add: consistent_def no_execution_def)
  show "de_Result d = RequireConfirmation \<Longrightarrow> consistent (with_decision op d)"
    using idle assms(2) by (simp add: consistent_def no_execution_def)
qed

lemma consistent_step:
  assumes "op_step op op'" "consistent op"
  shows "consistent op'"
  using assms
proof (induction rule: op_step.induct)
  case (cancel_requested op op')
  have "consistent (op\<lparr>op_cancel := True\<rparr>) = consistent op"
    unfolding consistent_def allowed_consistent_def outcome_fits_def no_execution_def accepted_ack_def
    by (simp split: option.split policy_result.split)
  with cancel_requested show ?case by (simp add: same_execution_consistent)
next
  case (lost_unaccepted op op')
  then show ?case using consistent_lost [of op] by (simp add: same_execution_consistent)
next
  case (lost_accepted op op')
  then show ?case using consistent_lost [of op] by (simp add: same_execution_consistent)
next
  case (acknowledged op ack op')
  then show ?case using consistent_acknowledged [of op ack] by (simp add: same_execution_consistent)
next
  case (refused op ack op')
  have "consistent (op\<lparr>op_ack := Some ack, op_status := OperationRejected, op_rejection := ack\<rparr>)
      = consistent (op\<lparr>op_ack := Some ack, op_status := OperationRejected\<rparr>)"
    unfolding consistent_def allowed_consistent_def outcome_fits_def no_execution_def accepted_ack_def
    by (simp split: option.split policy_result.split)
  with refused show ?case using consistent_acknowledged [of op ack] by (simp add: same_execution_consistent)
qed (simp_all add: same_execution_consistent consistent_withdrawn consistent_delivered consistent_progressed consistent_finished
    consistent_decided)

lemma consistent_initial: "initial_operation op \<Longrightarrow> consistent op"
  by (auto simp: initial_operation_def consistent_def allowed_consistent_def new_operation_def no_execution_def accepted_ack_def
      split: policy_result.split)

interpretation lifecycle: operation_property consistent
  by unfold_locales (rule consistent_initial, assumption, rule consistent_step)

lemma reachable_consistent:
  assumes "reachable_service env encode s" "operation_at s i = Some op"
  shows "consistent op" "hc_OperationID (op_request op) = i"
  using lifecycle.reachable [OF assms(1)] assms(2) by (auto simp: keyed_def well_placed_def)

lemma reachable_keyed: "reachable_service env encode s \<Longrightarrow> keyed s"
  using lifecycle.reachable by blast

subsection \<open>The checks made on a restored operation\<close>

text \<open>The one thing the checks demand of an operation that the life cycle does not give: that its last reported run fits.\<close>

definition run_fits :: "operation_state \<Rightarrow> bool" where
  "run_fits op \<longleftrightarrow>
     (case op_run op of
        None \<Rightarrow> True
      | Some r \<Rightarrow>
          (case op_outcome op of
             None \<Rightarrow> op_status op = operationStatusFromRun (ar_Status r)
           | Some oc \<Rightarrow> terminalOperationStatus (operationStatusFromRun (ar_Status r)) \<longrightarrow> ar_Status r = ao_Status oc))"

lemma consistent_accepted_by_restore:
  assumes "consistent op"
  shows "validatePersistedOperationRelations op = None \<longleftrightarrow> run_fits op"
  using assms
proof (cases rule: consistent_result)
  case (1 d)
  then show ?thesis by (simp add: validatePersistedOperationRelations_def run_fits_def no_execution_def)
next
  case (2 d)
  then show ?thesis by (auto simp: validatePersistedOperationRelations_def run_fits_def no_execution_def)
next
  case (3 d)
  have status: "op_status op \<noteq> OperationAwaitingConfirmation"
    using 3(3) by (cases "op_ack op") (auto simp: allowed_consistent_def accepted_statuses_def)
  have "validate_allowed_relations op = None \<longleftrightarrow> run_fits op"
  proof (cases "op_ack op")
    case None
    then show ?thesis using 3(3)
      by (auto simp: validate_allowed_relations_def run_fits_def allowed_consistent_def first_err_None_iff)
  next
    case (Some ack)
    show ?thesis
    proof (cases "accepted_ack op")
      case True
      then show ?thesis using 3(3) Some
        by (cases "op_outcome op"; cases "op_run op"; cases "hc_Binding (op_request op)")
          (auto simp: validate_allowed_relations_def run_fits_def allowed_consistent_def first_err_None_iff accepted_statuses_def
            outcome_fits_def)
    next
      case False
      then show ?thesis using 3(3) Some
        by (auto simp: validate_allowed_relations_def run_fits_def allowed_consistent_def first_err_None_iff)
    qed
  qed
  with 3 status show ?thesis by (simp add: validatePersistedOperationRelations_def)
qed

subsection \<open>What never changes again\<close>

text \<open>What is kept from an earlier state \<open>op0\<close> of an operation to a later one.\<close>

definition remembers :: "operation_state \<Rightarrow> operation_state \<Rightarrow> bool" where
  "remembers op0 op \<longleftrightarrow>
     (\<forall>ack. op_ack op0 = Some ack \<longrightarrow> op_ack op = Some ack)
     \<and> (\<forall>oc. op_outcome op0 = Some oc \<longrightarrow> op_outcome op = Some oc \<and> op_output op = op_output op0)
     \<and> (op_cancel op0 \<longrightarrow> op_cancel op)
     \<and> (\<forall>r0. op_run op0 = Some r0 \<longrightarrow> (\<exists>r. op_run op = Some r \<and> ar_ProgressSeq r0 \<le> ar_ProgressSeq r \<and> ar_Progress r0 \<le> ar_Progress r))
     \<and> op_attempts op0 \<le> op_attempts op
     \<and> hc_BoundAction (op_request op) = hc_BoundAction (op_request op0)
     \<and> hc_ActionRequest (op_request op) = hc_ActionRequest (op_request op0)
     \<and> hc_Binding (op_request op) = hc_Binding (op_request op0)
     \<and> hc_HostID (op_request op) = hc_HostID (op_request op0)
     \<and> hc_WorldID (op_request op) = hc_WorldID (op_request op0)
     \<and> hc_ActorID (op_request op) = hc_ActorID (op_request op0)
     \<and> hc_Principal (op_request op) = hc_Principal (op_request op0)
     \<and> hc_Kind (op_request op) = hc_Kind (op_request op0)
     \<and> hc_ParentOperationID (op_request op) = hc_ParentOperationID (op_request op0)
     \<and> op_idempotency op = op_idempotency op0 \<and> op_createdAt op = op_createdAt op0"

lemma next_attempt_mono: "n \<le> next_attempt n"
proof (cases "n < - 1")
  case True
  then have "1 + n \<noteq> 0" using next_attempt_pos [of n] by (simp add: next_attempt_def add.commute)
  then have "n \<le> 1 + n" by (simp add: word_le_nat_alt unatSuc)
  then show ?thesis using True by (simp add: next_attempt_def add.commute)
qed (simp add: next_attempt_def)

lemma remembers_refl: "remembers op op"
  by (simp add: remembers_def)

lemma remembers_trans: "remembers a b \<Longrightarrow> remembers b c \<Longrightarrow> remembers a c"
  unfolding remembers_def by (intro conjI) (fastforce intro: order_trans)+

lemma remembers_same: "same_execution op op' \<Longrightarrow> remembers op0 op \<Longrightarrow> remembers op0 op'"
  unfolding same_execution_def remembers_def by (elim conjE) (simp only: simp_thms)

lemma remembers_progress:
  assumes "run_conflict (op_run op) run = None" "\<forall>old. op_run op = Some old \<longrightarrow> ar_ProgressSeq old < ar_ProgressSeq run"
  shows "remembers op (op\<lparr>op_run := Some run, op_status := status\<rparr>)"
  using assms
  by (cases "op_run op") (auto simp: remembers_def run_conflict_def first_err_None_iff not_less intro: less_imp_le)

lemma remembers_step:
  assumes "op_step op op'"
  shows "remembers op op'"
  using assms
  by (induction rule: op_step.induct)
    (erule remembers_same, (rule remembers_progress, assumption, assumption | simp add: remembers_def next_attempt_mono))+

interpretation memory: operation_history remembers
  by unfold_locales (rule remembers_refl, blast intro: remembers_trans remembers_step)

lemma same_execution_settled: "same_execution op op' \<Longrightarrow> settledOperation op' = settledOperation op"
  by (simp add: settledOperation_def reconciliationPending_def completeOperation_def accepted_ack_def same_execution_def)

lemma settled_cases:
  assumes "settledOperation op"
  obtains oc where "op_outcome op = Some oc"
  | "op_outcome op = None" "op_status op = OperationRejected"
  | "op_outcome op = None" "op_status op = OperationStale" "\<not> accepted_ack op"
  | "op_outcome op = None" "op_status op = OperationCancelled" "op_attempts op = 0"
proof (cases "op_outcome op")
  case None
  have "completeOperation op" "op_status op \<noteq> OperationOutcomeUnknown"
    using assms None by (auto simp: settledOperation_def reconciliationPending_def)
  then consider "op_status op = OperationRejected" | "op_status op = OperationStale" "\<not> accepted_ack op"
    | "op_status op = OperationCancelled" "op_attempts op = 0"
    using None incomplete_iff [of op] by blast
  then show thesis using that(2-4) None by cases blast+
qed (rule that(1))

lemma outcome_status:
  assumes "allowed_consistent op" "op_outcome op = Some oc"
  shows "op_status op \<in> {OperationSucceeded, OperationFailed, OperationCancelled, OperationInterrupted, OperationStale,
    OperationOutcomeUnknown}"
  using assms terminal_run_status [of "ao_Status oc"] by (simp add: allowed_consistent_def outcome_fits_def)

lemma settled_not_open:
  assumes "consistent op" "settledOperation op"
  shows "op_status op \<notin> {OperationQueued, OperationAwaitingConfirmation, OperationDelivered, OperationAccepted}"
    and "op_outcome op = None \<Longrightarrow> \<not> accepted_ack op"
proof -
  have outcome: "allowed_consistent op" if "op_outcome op = Some oc" for oc
    using assms(1) by (rule consistent_result) (use that in \<open>simp_all add: no_execution_def\<close>)
  show "op_status op \<notin> {OperationQueued, OperationAwaitingConfirmation, OperationDelivered, OperationAccepted}"
    using assms(2) by (cases rule: settled_cases) (use outcome outcome_status [of op] in \<open>fastforce+\<close>)
  have allowed: "accepted_ack op \<Longrightarrow> allowed_consistent op"
    using assms(1) by (rule consistent_result) (simp_all add: no_execution_def)
  show "\<not> accepted_ack op" if none: "op_outcome op = None"
    using assms(2)
  proof (cases rule: settled_cases)
    case 2
    then show ?thesis using allowed by (auto simp: allowed_consistent_def accepted_statuses_def)
  next
    case 4
    then show ?thesis using allowed by (auto simp: allowed_consistent_def accepted_ack_def split: option.splits)
  qed (use none in simp_all)
qed

lemma settled_step:
  assumes "op_step op op'" "consistent op" "settledOperation op"
  shows "same_execution op op'"
proof -
  note closed = settled_not_open [OF assms(2, 3)]
  have complete: "completeOperation op" using assms(3) by (simp add: settledOperation_def)
  have "accepted_ack op" if "outcome_conflict op oc = None" for oc
    using that by (simp add: outcome_conflict_def first_err_None_iff)
  with assms(1) closed complete show ?thesis
    by (cases rule: op_step.cases) (auto simp: deliverable_def)
qed

definition frozen_once_settled :: "operation_state \<Rightarrow> operation_state \<Rightarrow> bool" where
  "frozen_once_settled op0 op \<longleftrightarrow> (consistent op0 \<and> settledOperation op0 \<longrightarrow> same_execution op0 op)"

interpretation settled: operation_history frozen_once_settled
proof unfold_locales
  show "frozen_once_settled op op" for op by (simp add: frozen_once_settled_def)
  show "frozen_once_settled op0 op'" if "frozen_once_settled op0 op" "op_step op op'" for op0 op op'
    using that settled_step [OF that(2)] same_execution_consistent [of op0 op] same_execution_settled [of op0 op]
    by (auto simp: frozen_once_settled_def intro: same_execution_trans)
qed

subsection \<open>Emergency stops\<close>

definition op_target :: "operation_state \<Rightarrow> actor_control_target" where
  "op_target op = ActorControlTarget (hc_HostID (op_request op)) (hc_WorldID (op_request op)) (hc_ActorID (op_request op))"

text \<open>Nothing more will be asked of the Host for this operation than what it has already accepted.\<close>

definition halted :: "operation_state \<Rightarrow> bool" where
  "halted op \<longleftrightarrow> op_cancel op \<or> settledOperation op \<or> accepted_ack op"

definition stays_halted :: "operation_state \<Rightarrow> operation_state \<Rightarrow> bool" where
  "stays_halted op0 op \<longleftrightarrow> op_target op = op_target op0 \<and> (consistent op0 \<longrightarrow> consistent op \<and> (halted op0 \<longrightarrow> halted op))"

lemma halted_step:
  assumes "op_step op op'" "consistent op" "halted op"
  shows "halted op'"
proof (cases "settledOperation op")
  case True
  then show ?thesis using settled_step [OF assms(1, 2) True] same_execution_settled by (simp add: halted_def)
next
  case False
  then have "op_cancel op \<or> accepted_ack op" using assms(3) by (simp add: halted_def)
  then show ?thesis using remembers_step [OF assms(1)]
    by (auto simp: halted_def remembers_def accepted_ack_def split: option.splits)
qed

interpretation halts: operation_history stays_halted
proof unfold_locales
  show "stays_halted op op" for op by (simp add: stays_halted_def)
  show "stays_halted op0 op'" if "stays_halted op0 op" "op_step op op'" for op0 op op'
    using that remembers_step [OF that(2)] consistent_step [OF that(2)] halted_step [OF that(2)]
    by (auto simp: stays_halted_def op_target_def remembers_def)
qed

definition all_consistent :: "service \<Rightarrow> bool" where
  "all_consistent s \<longleftrightarrow> keyed s \<and> (\<forall>i op. operation_at s i = Some op \<longrightarrow> consistent op)"

definition stops_hold :: "service \<Rightarrow> bool" where
  "stops_hold s \<longleftrightarrow> (\<forall>i op. operation_at s i = Some op \<longrightarrow> es_Active (stop_of s (op_target op)) \<longrightarrow> halted op)"

lemma stop_of_frame: "frame s' = frame s \<Longrightarrow> stop_of s' t = stop_of s t"
  by (simp add: frame_def stop_of_def)

lemma stops_hold_advances:
  assumes "advances s s'" "frame s' = frame s" "all_consistent s" "stops_hold s"
  shows "stops_hold s'"
  unfolding stops_hold_def
proof (intro allI impI)
  fix i op' assume op': "operation_at s' i = Some op'" and stop: "es_Active (stop_of s' (op_target op'))"
  have "keyed s" using assms(3) by (simp add: all_consistent_def)
  then obtain op where op: "operation_at s i = Some op" "stays_halted op op'" using halts.advance [OF assms(1) _ op'] by blast
  have "op_target op' = op_target op" using op(2) by (simp add: stays_halted_def)
  then have "es_Active (stop_of s (op_target op))" using stop stop_of_frame [OF assms(2)] by simp
  then have "halted op" using assms(4) op(1) unfolding stops_hold_def by blast
  then show "halted op'" using op assms(3) by (auto simp: stays_halted_def all_consistent_def)
qed

text \<open>What one operation of a stopped actor becomes.\<close>

lemma cancel_actor_halts:
  assumes "stepped (cancel_actor_step t now) op op'" "consistent op" "op_target op = t"
  shows "halted op'"
proof (cases "completeOperation op")
  case True
  then have "op' = op" using assms(1) by (simp add: cancel_actor_step_def)
  moreover have "accepted_ack op" if "op_status op = OperationOutcomeUnknown"
  proof -
    have "allowed_consistent op" using assms(2) by (rule consistent_result) (use that in simp_all)
    then show ?thesis using that by (cases "op_ack op") (auto simp: allowed_consistent_def)
  qed
  ultimately show ?thesis using True by (auto simp: halted_def settledOperation_def reconciliationPending_def)
next
  case False
  have out: "op_outcome op = None" using False incomplete_iff by blast
  have step: "cancel_actor_step t now op
      = Some (stale_or_cancel now (op_attempts op = 0 \<and> op_ack op = None) OperationCancelled op)"
    using False assms(3) by (auto simp: cancel_actor_step_def op_target_def)
  show ?thesis
  proof (cases "op_attempts op = 0 \<and> op_ack op = None")
    case True
    then have "same_execution (op\<lparr>op_status := OperationCancelled, op_updatedAt := now\<rparr>) op'"
      using assms(1) step by (simp add: stale_or_cancel_def)
    then show ?thesis using True out
      by (simp add: halted_def settledOperation_def reconciliationPending_def completeOperation_def same_execution_def)
  next
    case False
    then have "same_execution (op\<lparr>op_cancel := True, op_updatedAt := now\<rparr>) op'"
      using assms(1) step by (auto simp: stale_or_cancel_def)
    then show ?thesis by (simp add: halted_def same_execution_def)
  qed
qed

lemma cancelActor_halts:
  assumes "all_consistent s" "operation_at (cancelActorOperationsLocked t now s) i = Some op'" "op_target op' = t"
  shows "halted op'"
proof -
  have keyed: "keyed s" using assms(1) by (simp add: all_consistent_def)
  obtain op where op: "operation_at s i = Some op"
    using assms(2) operation_at_for_operations_iff [OF keyed, of "cancel_actor_step t now" i]
    unfolding cancelActorOperationsLocked_def by (cases "operation_at s i") simp_all
  obtain op1 where op1: "operation_at (cancelActorOperationsLocked t now s) i = Some op1" "stepped (cancel_actor_step t now) op op1"
    using operation_at_for_operations [OF keyed op] unfolding cancelActorOperationsLocked_def by blast
  then have "op1 = op'" using assms(2) by simp
  note step = op1(2) [unfolded this]
  have "op_target op = t"
  proof -
    obtain op2 where "operation_at s i = Some op2" "stays_halted op2 op'"
      using halts.advance [OF advances_cancelActor keyed assms(2)] by blast
    with op assms(3) show ?thesis by (simp add: stays_halted_def)
  qed
  moreover have "consistent op" using op assms(1) by (simp add: all_consistent_def)
  ultimately show ?thesis using cancel_actor_halts [OF step] by blast
qed

lemma SetActorEmergencyStop_cases:
  obtains "snd (SetActorEmergencyStop now s p t active) = s"
  | stop s1 where "es_Active stop = active" "sv_operations s1 = sv_operations s"
      "sv_operations (snd (SetActorEmergencyStop now s p t active))
         = sv_operations (if active then cancelActorOperationsLocked t now s1 else s1)"
      "sv_emergencyStops (snd (SetActorEmergencyStop now s p t active)) = AList.update t stop (sv_emergencyStops s)"
      "es_Target stop = t"
proof -
  define stop where "stop = \<lparr>es_Target = t, es_Active = active, es_Revision = es_Revision (stop_of s t) + 1,
      es_UpdatedBy = pr_ID p, es_UpdatedAt = now\<rparr>"
  define s1 where "s1 = s\<lparr>sv_emergencyStops := AList.update t stop (sv_emergencyStops s)\<rparr>"
  define s2 where "s2 = (if active then cancelActorOperationsLocked t now s1 else s1)"
  let ?s' = "snd (SetActorEmergencyStop now s p t active)"
  let ?done = "snd (finish stop (notifyActorChangedLocked t (markOperationsDirtyLocked s2)))"
  have "?s' = s \<or> ?s' = ?done"
    by (simp add: SetActorEmergencyStop_def Let_def stop_def s1_def s2_def split: option.split sum.split)
  moreover have "sv_operations ?done = sv_operations s2"
    unfolding finish_def by (rule persisted_cases [of "notifyActorChangedLocked t (markOperationsDirtyLocked s2)" "\<lambda>s. (Inr stop, s)"]) auto
  moreover have "sv_emergencyStops ?done = AList.update t stop (sv_emergencyStops s)"
  proof -
    have "frame ?done = frame s1" by (simp add: s2_def)
    then show ?thesis by (simp add: frame_def s1_def)
  qed
  moreover have "es_Active stop = active" "sv_operations s1 = sv_operations s" "es_Target stop = t" by (simp_all add: stop_def s1_def)
  ultimately show ?thesis using that(1) that(2) [of stop s1] unfolding s2_def by metis
qed

lemma all_consistent_cong:
  assumes "sv_operations s' = sv_operations s"
  shows "all_consistent s' \<longleftrightarrow> all_consistent s"
  unfolding all_consistent_def keyed_def assms ..

lemma stops_hold_set:
  assumes "all_consistent s" "stops_hold s"
  shows "stops_hold (snd (SetActorEmergencyStop now s p t active))"
proof (rule SetActorEmergencyStop_cases [of now s p t active])
  fix stop s1
  let ?s' = "snd (SetActorEmergencyStop now s p t active)"
  assume stop: "es_Active stop = active" and s1: "sv_operations s1 = sv_operations s"
    and ops: "sv_operations ?s' = sv_operations (if active then cancelActorOperationsLocked t now s1 else s1)"
    and stops: "sv_emergencyStops ?s' = AList.update t stop (sv_emergencyStops s)" and "es_Target stop = t"
  have c1: "all_consistent s1" using assms(1) all_consistent_cong [OF s1] by simp
  show ?thesis unfolding stops_hold_def
  proof (intro allI impI)
    fix i op' assume op': "operation_at ?s' i = Some op'" and active': "es_Active (stop_of ?s' (op_target op'))"
    show "halted op'"
    proof (cases "op_target op' = t")
      case True
      then have active using active' stops stop by (simp add: stop_of_def update_conv')
      then show ?thesis using cancelActor_halts [OF c1 _ True] op' ops by simp
    next
      case False
      have adv: "advances s ?s'" by (rule advances_SetActorEmergencyStop)
      obtain op where op: "operation_at s i = Some op" "stays_halted op op'"
        using halts.advance [OF adv _ op'] assms(1) unfolding all_consistent_def by blast
      have target: "op_target op' = op_target op" using op(2) by (simp add: stays_halted_def)
      have "es_Active (stop_of s (op_target op))" using active' stops False target by (simp add: stop_of_def update_conv')
      then have "halted op" using assms(2) op(1) unfolding stops_hold_def by blast
      then show ?thesis using op assms(1) by (auto simp: stays_halted_def all_consistent_def)
    qed
  qed
qed (use assms(2) in simp)

text \<open>A submission under an active stop is denied.\<close>

lemma stopped_evaluation_denies:
  assumes "Evaluate env en a cx dr cr = (Inr d, en')" "cx_EmergencyStopped cx"
  shows "de_Result d = Deny"
  using assms by (auto simp: Evaluate_def gate_def denyDecision_def Let_def split: option.splits sum.splits)

lemma stopped_submission_denied:
  assumes "submit_evaluate env s0 p input digest submission binding r1 r2 = (Inr (bound, d), s0')" "ss_emergencyStopped submission"
  shows "de_Result d = Deny"
  using assms
  by (auto simp: submit_evaluate_def evaluate_policy_def submit_context_def Let_def split: sum.splits option.splits prod.splits
      dest: stopped_evaluation_denies)

lemma prepareSubmission_stop:
  assumes "prepareActionSubmissionLocked now s p input = (Inr current, s1)"
  shows "ss_emergencyStopped current = es_Active (stop_of s (submit_target input))"
  using assms prepareSubmission_unchanged [OF assms]
  by (auto simp: prepareActionSubmissionLocked_def Let_def split: prod.splits sum.splits option.splits if_splits
      dest!: expireController_kept)

lemma all_consistent_advances: "advances s s' \<Longrightarrow> all_consistent s \<Longrightarrow> all_consistent s'"
  using lifecycle.evolves_keeps [OF advances_evolves] unfolding all_consistent_def by (metis advances_def)

lemma stops_hold_adds:
  assumes "adds new s s'" "frame s' = frame s" "all_consistent s" "stops_hold s" "initial_operation new"
    and denied: "es_Active (stop_of s (op_target new)) \<Longrightarrow> op_status new = OperationRejected"
  shows "stops_hold s'"
  unfolding stops_hold_def
proof (intro allI impI)
  fix i op' assume op': "operation_at s' i = Some op'" and stop: "es_Active (stop_of s' (op_target op'))"
  obtain op where op: "operation_at s i = Some op \<or> op = new" "op_step\<^sup>*\<^sup>* op op'"
    using assms(1, 3) op' unfolding adds_def all_consistent_def by metis
  have kept: "stays_halted op op'" using halts.steps [OF op(2)] .
  have active: "es_Active (stop_of s (op_target op))"
    using stop stop_of_frame [OF assms(2)] kept by (simp add: stays_halted_def)
  from op(1) have "consistent op \<and> halted op"
  proof
    assume "operation_at s i = Some op"
    then show ?thesis using assms(3, 4) active unfolding stops_hold_def all_consistent_def by blast
  next
    assume new: "op = new"
    then have "op_status op = OperationRejected" using denied active by simp
    then have "settledOperation op" by (simp add: settledOperation_def completeOperation_def reconciliationPending_def)
    then show ?thesis using consistent_initial [OF assms(5)] new by (simp add: halted_def)
  qed
  then show "halted op'" using kept by (simp add: stays_halted_def)
qed

lemma op_target_submitted:
  "op_target (new_operation key (action_control_request now i p input cur a d) status result) = submit_target input"
  by (simp add: op_target_def new_operation_def action_control_request_def submit_target_def)

lemma stops_hold_commit:
  assumes "all_consistent s" "stops_hold s"
    and evaluated: "submit_evaluate env s0 p input digest submission binding r1 r2 = (Inr (bound, d), s0')"
  shows "stops_hold (snd (submit_commit env now s p input key f submission bound d cancelled random))"
proof -
  have quiet: "stops_hold s2 \<and> all_consistent s2" if "quiet s s2" for s2
    using that assms(1, 2) stops_hold_advances all_consistent_advances unfolding quiet_def by blast
  have discard: "stops_hold (discard_decision d s2)" if "quiet s s2" for s2
    using quiet quiet_trans [OF that quiet_discard] by blast
  have store: "stops_hold (snd (storeActionOperationLocked env s2 key (action_control_request now i p input cur a d) (de_Result d)))"
    if q: "quiet s s2" and prep: "prepareActionSubmissionLocked now s p input = (Inr cur, s1)"
      and same: "sameActionSubmissionSnapshot submission cur" for s1 s2 i cur a
  proof (cases "initial_status (de_Result d)")
    case (Some status)
    let ?r = "action_control_request now i p input cur a d"
    let ?new = "new_operation key ?r status (de_Result d)"
    have decision: "hc_PolicyDecision ?r = Some d" by (simp add: action_control_request_def)
    show ?thesis
    proof (rule stops_hold_adds [of ?new s2])
      show "adds ?new s2 (snd (storeActionOperationLocked env s2 key ?r (de_Result d)))"
        by (rule storeAction_adds [OF decision refl Some])
      show "initial_operation ?new" using decision Some unfolding initial_operation_def by blast
      show "op_status ?new = OperationRejected" if "es_Active (stop_of s2 (op_target ?new))"
      proof -
        have "frame s2 = frame s" using q by (simp add: quiet_def)
        from stop_of_frame [OF this, of "submit_target input"] that
        have "es_Active (stop_of s (submit_target input))" by (simp add: op_target_submitted)
        then have "ss_emergencyStopped submission"
          using prepareSubmission_stop [OF prep] same by (simp add: sameActionSubmissionSnapshot_def)
        from stopped_submission_denied [OF evaluated this] Some show ?thesis by (simp add: new_operation_def)
      qed
    qed (use quiet [OF q] in simp_all)
  qed (use quiet [OF q] in \<open>simp add: storeAction_invalid\<close>)
  show ?thesis
    by (rule submit_commit_cases [of s env now p input key f submission bound d cancelled random])
      (use discard store in \<open>simp_all\<close>)
qed

lemma reachable_all_consistent: "reachable_service env encode s \<Longrightarrow> all_consistent s"
  using lifecycle.reachable unfolding all_consistent_def by blast

lemma reachable_stops_hold:
  assumes "reachable_service env encode s"
  shows "stops_hold s"
  using assms
proof (induction rule: reachable_service.induct)
  case created
  show ?case by (simp add: stops_hold_def newService_def Let_def)
next
  case (stepped s s')
  note consistent = reachable_all_consistent [OF stepped.hyps(1)]
  show ?case
    using control_step_stops [OF stepped.hyps(2)]
  proof
    assume "\<exists>now p t active. s' = snd (SetActorEmergencyStop now s p t active)"
    then show ?thesis using stops_hold_set [OF consistent stepped.IH] by blast
  next
    assume frame: "frame s' = frame s"
    show ?thesis using control_step_commits [OF stepped.hyps(2)]
    proof
      assume "advances s s'"
      then show ?thesis using frame consistent stepped.IH by (rule stops_hold_advances)
    qed (use stops_hold_commit [OF consistent stepped.IH] in blast)
  qed
qed

subsection \<open>Deliveries\<close>

lemma conclude_other: "j \<noteq> i \<Longrightarrow> operation_at (conclude i op c s) j = operation_at s j"
  using operation_at_conclude [of i op c s] by auto

lemma conclude_here: "\<exists>op'. operation_at (conclude i op c s) i = Some op' \<and> same_execution op op'"
  using operation_at_conclude [of i op c s] by auto

lemma deliver_loop_other: "j \<notin> fst ` set xs \<Longrightarrow> operation_at (snd (deliver_loop now n xs s)) j = operation_at s j"
  by (induction now n xs s rule: deliver_loop.induct) (auto simp: split_beta Let_def conclude_other)

lemma deliver_loop_length: "length (fst (deliver_loop now n xs s)) \<le> n"
  by (induction now n xs s rule: deliver_loop.induct) (auto simp: split_beta Let_def)

text \<open>What a delivery says about the operation it comes from, and about that operation in the state after the poll.\<close>

definition delivery_of :: "int \<Rightarrow> service \<Rightarrow> host_control_delivery \<Rightarrow> string \<Rightarrow> operation_state \<Rightarrow> bool" where
  "delivery_of now s' dl i op \<longleftrightarrow>
     deliverable op \<and> hd_Request dl = op_request op \<and> hd_DeliveryAttempt dl = next_attempt (op_attempts op)
     \<and> (\<exists>op'. operation_at s' i = Some op' \<and> same_execution (delivered_now now op) op')"

lemma deliver_loop_result:
  assumes "map_ok xs" "\<forall>(i, op) \<in> set xs. operation_at s i = Some op" "dl \<in> set (fst (deliver_loop now n xs s))"
  shows "\<exists>(i, op) \<in> set xs. delivery_of now (snd (deliver_loop now n xs s)) dl i op"
  using assms
proof (induction now n xs s rule: deliver_loop.induct)
  case (2 now n i op rest s)
  have ok: "map_ok rest" "i \<notin> fst ` set rest" using "2.prems"(1) by auto
  have at: "operation_at s i = Some op" "\<forall>(j, op') \<in> set rest. operation_at s j = Some op'" using "2.prems"(2) by auto
  show ?case
  proof (cases "n = 0 \<or> \<not> deliverable op")
    case True
    then have "n \<noteq> 0 \<and> \<not> deliverable op" using "2.prems"(3) by (cases "n = 0") simp_all
    then have "\<exists>(i, op) \<in> set rest. delivery_of now (snd (deliver_loop now n rest s)) dl i op"
      using 2(1) ok(1) at(2) "2.prems"(3) by auto
    with \<open>n \<noteq> 0 \<and> \<not> deliverable op\<close> show ?thesis by auto
  next
    case False
    let ?s1 = "conclude i (delivered_now now op) None s"
    let ?rest = "deliver_loop now (n - 1) rest ?s1"
    have result: "deliver_loop now n ((i, op) # rest) s
        = (\<lparr>hd_Request = op_request (delivered_now now op), hd_DeliveryAttempt = op_attempts (delivered_now now op)\<rparr> # fst ?rest, snd ?rest)"
      using False by (simp add: split_beta Let_def)
    from "2.prems"(3) consider
        "dl = \<lparr>hd_Request = op_request (delivered_now now op), hd_DeliveryAttempt = op_attempts (delivered_now now op)\<rparr>"
      | "dl \<in> set (fst ?rest)" unfolding result by auto
    then show ?thesis
    proof cases
      case 1
      have "operation_at (snd ?rest) i = operation_at ?s1 i" using ok(2) by (rule deliver_loop_other)
      then have "delivery_of now (snd ?rest) dl i op"
        using 1 False conclude_here [of i "delivered_now now op" None s] by (auto simp: delivery_of_def delivered_now_def)
      then show ?thesis unfolding result by auto
    next
      case 2
      have "\<forall>(j, op') \<in> set rest. operation_at ?s1 j = Some op'"
      proof (clarify)
        fix j op' assume rest: "(j, op') \<in> set rest"
        then have "j \<noteq> i" using ok(2) by (metis fst_conv image_eqI)
        then show "operation_at ?s1 j = Some op'" using at(2) rest conclude_other [of j i] by auto
      qed
      then have "\<exists>(i, op) \<in> set rest. delivery_of now (snd ?rest) dl i op"
        using "2.IH"(2) False ok(1) 2 by blast
      then show ?thesis unfolding result by auto
    qed
  qed
qed simp

lemma collect_result:
  assumes "keyed s" "dl \<in> set (hb_Requests (fst (collectHostWorkLocked now h n s)))"
  shows "\<exists>i op. operation_at s i = Some op \<and> hc_HostID (op_request op) = h
    \<and> delivery_of now (snd (collectHostWorkLocked now h n s)) dl i op"
proof -
  let ?ops = "sort_key (\<lambda>(i, op). delivery_order op) (filter (\<lambda>(i, op). hc_HostID (op_request op) = h) (sv_operations s))"
  obtain m s1 where m: "hb_Requests (fst (collectHostWorkLocked now h n s)) = fst (deliver_loop now m ?ops s1)"
      "sv_operations (snd (collectHostWorkLocked now h n s)) = sv_operations (snd (deliver_loop now m ?ops s1))"
      "sv_operations s1 = sv_operations s"
  proof (rule collectHostWork_parts [of now h n s])
    fix k m
    let ?s1 = "snd (collectHostGatewayWorkLocked h k s)"
    assume "hb_Requests (fst (collectHostWorkLocked now h n s)) = fst (deliver_loop now m ?ops ?s1)"
      and "snd (collectHostWorkLocked now h n s) = (let s2 = snd (deliver_loop now m ?ops ?s1)
        in if hb_Requests (fst (collectHostWorkLocked now h n s)) \<noteq> [] then markOperationCheckpointDirtyLocked s2 else s2)"
    then show thesis using that [of m ?s1] sv_operations_collectGateway by (simp add: Let_def)
  qed
  have ok: "map_ok ?ops" using assms(1) by (simp add: keyed_def sort_key_map_ok distinct_map_filter)
  have at: "\<forall>(i, op) \<in> set ?ops. operation_at s i = Some op \<and> hc_HostID (op_request op) = h"
    using assms(1) by (auto simp: keyed_def)
  then have "\<forall>(i, op) \<in> set ?ops. operation_at s1 i = Some op" unfolding m(3) by auto
  from deliver_loop_result [OF ok this assms(2) [unfolded m(1)]] at
  show ?thesis unfolding delivery_of_def m(2) by blast
qed

lemma collect_length:
  assumes "fst (collectHostWorkLocked now h n s) = batch"
  shows "length (hb_GatewayRequests batch) + length (hb_Requests batch) + length (hb_Cancellations batch) \<le> n"
proof -
  let ?ops = "sort_key (\<lambda>(i, op). delivery_order op) (filter (\<lambda>(i, op). hc_HostID (op_request op) = h) (sv_operations s))"
  define c where "c = take n (map (\<lambda>(i, op). hc_OperationID (op_request op))
      (filter (\<lambda>(i, op). op_cancel op \<and> \<not> completeOperation op) ?ops))"
  define g where "g = collectHostGatewayWorkLocked h (n - length c) s"
  have batch: "batch = \<lparr>hb_GatewayRequests = fst g,
      hb_Requests = fst (deliver_loop now (n - length c - length (fst g)) ?ops (snd g)), hb_Cancellations = c\<rparr>"
    using assms by (simp add: collectHostWorkLocked_def Let_def split_beta c_def g_def)
  have "length c \<le> n" by (simp add: c_def)
  moreover have "length (fst g) \<le> n - length c" by (simp add: g_def collectHostGatewayWorkLocked_def Let_def)
  moreover have "length (fst (deliver_loop now (n - length c - length (fst g)) ?ops (snd g))) \<le> n - length c - length (fst g)"
    by (rule deliver_loop_length)
  ultimately show ?thesis unfolding batch by simp
qed

end
