(* ===== verification/Control_Properties.thy ===== *)
theory Control_Properties
  imports Control_Safety
begin

section \<open>What the control plane guarantees\<close>

text \<open>
  The properties of the service in all states that its methods reach, in any order, from a new service; and findings
  about the checks made at a restart.
\<close>

subsection \<open>Operations\<close>



text \<open>
  once an operation has an acknowledgement it keeps it; once it has an outcome it keeps the outcome and its output; a
  requested cancellation stays requested; progress never moves back; delivery attempts never decrease; and the request, the
  bound action, the binding and the owner never change, whatever method runs.
\<close>

theorem recorded_facts_are_kept:
  assumes "reachable_service env encode s" "control_step env encode s s'"
    and "operation_at s i = Some op" "operation_at s' i = Some op'"
  shows "remembers op op'"
proof -
  have "evolves s s'" "keyed s" using assms(1, 2) control_step_evolves reachable_keyed by blast+
  then show ?thesis using assms(4)
  proof (rule evolves_origin)
    fix op0 assume "operation_at s i = Some op0" "op_step\<^sup>*\<^sup>* op0 op'"
    then show ?thesis using assms(3) memory.steps by simp
  qed (use assms(3) in simp)
qed

theorem recorded_facts_are_kept_witness:
  "\<exists>op op'. operation_at service_accepted ''operation.1'' = Some op \<and> operation_at service_running ''operation.1'' = Some op'
     \<and> op_ack op = Some accept_1 \<and> op_ack op' = Some accept_1"
proof -
  have step: "control_step sample_env encode_1 service_accepted service_running"
    using step_ReportHostRun [of sample_env encode_1 service_accepted 1000 "''server''" "''lease.1''" run_1] running_1 by simp
  obtain op op' where ops: "operation_at service_accepted ''operation.1'' = Some op" "operation_at service_running ''operation.1'' = Some op'"
    by (simp add: sample_states)
  have "remembers op op'" using recorded_facts_are_kept [OF reached_accepted step ops] .
  then show ?thesis using ops by (auto simp: remembers_def sample_states)
qed

text \<open>
  C4: an operation that the service reports as terminal never changes again, whatever method runs: its status, its
  acknowledgement, run, outcome, output and decision are final.
\<close>

theorem terminal_operations_are_final:
  assumes "reachable_service env encode s" "control_step env encode s s'"
    and "operation_at s i = Some op" "operation_at s' i = Some op'" "settledOperation op"
  shows "same_execution op op'"
proof -
  have "evolves s s'" "keyed s" using assms(1, 2) control_step_evolves reachable_keyed by blast+
  then show ?thesis using assms(4)
  proof (rule evolves_origin)
    fix op0 assume "operation_at s i = Some op0" "op_step\<^sup>*\<^sup>* op0 op'"
    then have "frozen_once_settled op op'" using assms(3) settled.steps by simp
    then show ?thesis using reachable_consistent(1) [OF assms(1, 3)] assms(5) by (simp add: frozen_once_settled_def)
  qed (use assms(3) in simp)
qed

theorem terminal_operations_are_final_witness:
  "\<exists>op op'. operation_at (snd (CancelOperation sample_env 1000 service_submitted owner ''operation.1'')) ''operation.1'' = Some op
     \<and> operation_at (Close (snd (CancelOperation sample_env 1000 service_submitted owner ''operation.1''))) ''operation.1'' = Some op'
     \<and> op_status op = OperationCancelled \<and> same_execution op op'"
proof -
  let ?s = "snd (CancelOperation sample_env 1000 service_submitted owner ''operation.1'')"
  have "case operation_at ?s ''operation.1'' of None \<Rightarrow> False
      | Some op \<Rightarrow> op_status op = OperationCancelled \<and> op_attempts op = 0 \<and> op_outcome op = None" by code_simp
  then obtain op where op: "operation_at ?s ''operation.1'' = Some op" "op_status op = OperationCancelled" "op_attempts op = 0"
      "op_outcome op = None"
    by (auto split: option.splits)
  have reached: "reached ?s" by (rule reached_step [OF reached_submitted step_CancelOperation refl])
  have close: "operation_at (Close ?s) ''operation.1'' = Some op" using op(1) by (simp add: sv_operations_gateway)
  have "settledOperation op" using op by (simp add: settledOperation_def completeOperation_def reconciliationPending_def)
  from terminal_operations_are_final [OF reached step_Close op(1) close this] op close show ?thesis by blast
qed

subsection \<open>Deliveries\<close>

lemma poll_host_batch:
  assumes "poll_host now s h l limit = (Inr (Some batch), s')"
  obtains s1 s2 where "quiet s s1" "0 < limit" "limit \<le> 64" "collectHostWorkLocked now h (nat limit) s1 = (batch, s2)"
    "sv_operations s' = sv_operations s2" "frame s2 = frame s1"
proof -
  define s0 where "s0 = pruneOperationsLocked now (expireControllersLocked now s)"
  have q: "quiet s s0"
    unfolding s0_def quiet_def using advances_trans [OF advances_expireControllers advances_prune] by simp
  have limit: "0 < limit" "limit \<le> 64" using assms by (auto simp: poll_host_def maxHostPollItems_def split: if_splits)
  obtain h' where lease: "requireLeaseLocked now s h l = Inr h'" using assms by (auto simp: poll_host_def split: if_splits sum.splits)
  let ?body = "\<lambda>s1. let (batch, s2) = collectHostWorkLocked now h (nat limit) s1 in
      if hb_GatewayRequests batch \<noteq> [] \<or> hb_Requests batch \<noteq> [] \<or> hb_Cancellations batch \<noteq> [] then finish (Some batch) s2 else (Inr None, s2)"
  have run: "persisted s0 ?body = (Inr (Some batch), s')"
    using assms lease limit by (simp add: poll_host_def maxHostPollItems_def s0_def)
  show thesis
  proof (rule persisted_cases [of s0 ?body])
    assume "persisted s0 ?body = (Inl (fault ErrClosed), s0)"
    with run show thesis by simp
  next
    fix s1 assume body: "persisted s0 ?body = ?body s1"
      and s1: "s1 = s0 \<or> s1 = s0\<lparr>sv_operationDirty := False, sv_checkpointDirty := False\<rparr>"
    obtain b s2 where collect: "collectHostWorkLocked now h (nat limit) s1 = (b, s2)" by fastforce
    have "finish (Some b) s2 = (Inr (Some batch), s')"
      using run unfolding body collect by (simp add: Let_def split: if_splits)
    then have "b = batch \<and> sv_operations s' = sv_operations s2"
      unfolding finish_def by (rule_tac persisted_cases [of s2 "\<lambda>s. (Inr (Some b), s)"]) auto
    moreover have "quiet s s1" using s1 q by (auto simp: quiet_def intro: advances_cong_right [rotated])
    moreover have "frame s2 = frame s1" using frame_collect [of now h "nat limit" s1] collect by simp
    ultimately show thesis using that [of s1 s2] limit collect by simp
  qed
qed

text \<open>
  C2: what a Host is given when it polls is at most as much as it asked for (never more than 64 items) and only requests of
  operations of this Host that the policy allowed, that nobody asked to cancel, and that are queued, delivered or accepted
  but not further; each is counted as a delivery attempt.
\<close>

theorem deliveries_are_allowed:
  assumes "reachable_service env encode s" "poll_host now s h l limit = (Inr (Some batch), s')"
  shows "int (length (hb_GatewayRequests batch) + length (hb_Requests batch) + length (hb_Cancellations batch)) \<le> min limit 64
    \<and> (\<forall>dl \<in> set (hb_Requests batch). hc_HostID (hd_Request dl) = h
         \<and> (\<exists>d. hc_PolicyDecision (hd_Request dl) = Some d \<and> de_Result d = Allow)
         \<and> (\<exists>op'. operation_at s' (hc_OperationID (hd_Request dl)) = Some op' \<and> op_request op' = hd_Request dl
              \<and> \<not> op_cancel op' \<and> op_status op' \<in> {OperationDelivered, OperationAccepted} \<and> op_attempts op' = hd_DeliveryAttempt dl))"
proof -
  obtain s1 s2 where q: "quiet s s1" and limit: "0 < limit" "limit \<le> 64" and collect: "collectHostWorkLocked now h (nat limit) s1 = (batch, s2)"
    and ops: "sv_operations s' = sv_operations s2"
    using assms(2) by (rule poll_host_batch)
  have c1: "all_consistent s1"
    using q reachable_all_consistent [OF assms(1)] all_consistent_advances unfolding quiet_def by blast
  have "length (hb_GatewayRequests batch) + length (hb_Requests batch) + length (hb_Cancellations batch) \<le> nat limit"
    using collect_length [of now h "nat limit" s1 batch] collect by simp
  moreover have "hc_HostID (hd_Request dl) = h
      \<and> (\<exists>d. hc_PolicyDecision (hd_Request dl) = Some d \<and> de_Result d = Allow)
      \<and> (\<exists>op'. operation_at s' (hc_OperationID (hd_Request dl)) = Some op' \<and> op_request op' = hd_Request dl
           \<and> \<not> op_cancel op' \<and> op_status op' \<in> {OperationDelivered, OperationAccepted} \<and> op_attempts op' = hd_DeliveryAttempt dl)"
    if dl: "dl \<in> set (hb_Requests batch)" for dl
  proof -
    obtain i op where op: "operation_at s1 i = Some op" "hc_HostID (op_request op) = h" "delivery_of now s2 dl i op"
      using collect_result [of s1 dl now h "nat limit"] collect dl c1 unfolding all_consistent_def by auto
    then obtain op' where op': "operation_at s' i = Some op'" "same_execution (delivered_now now op) op'"
      unfolding delivery_of_def ops by blast
    have deliverable: "deliverable op" and request: "hd_Request dl = op_request op" using op(3) by (simp_all add: delivery_of_def)
    have "consistent op" "well_placed i op" using c1 op(1) by (auto simp: all_consistent_def keyed_def)
    then obtain d where d: "hc_PolicyDecision (op_request op) = Some d" "de_Result d = Allow" "allowed_consistent op"
      using consistent_allowed [of op] deliverable unfolding deliverable_def by blast
    have "op_status (delivered_now now op) \<in> {OperationDelivered, OperationAccepted}"
      using deliverable d(3) by (cases "op_ack op") (auto simp: delivered_now_def deliverable_def allowed_consistent_def accepted_statuses_def)
    then show ?thesis
      using op op' d request deliverable \<open>well_placed i op\<close>
      by (auto simp: same_execution_def delivered_now_def well_placed_def delivery_of_def deliverable_def)
  qed
  ultimately show ?thesis using limit by auto
qed

theorem deliveries_are_allowed_witness:
  "\<exists>batch s' dl d. poll_host 1000 service_submitted ''server'' ''lease.1'' 8 = (Inr (Some batch), s') \<and> dl \<in> set (hb_Requests batch)
     \<and> hc_PolicyDecision (hd_Request dl) = Some d \<and> de_Result d = Allow"
proof -
  have "case fst (poll_host 1000 service_submitted ''server'' ''lease.1'' 8) of Inr (Some batch) \<Rightarrow> hb_Requests batch \<noteq> [] | _ \<Rightarrow> False"
    by code_simp
  then obtain batch s' where poll: "poll_host 1000 service_submitted ''server'' ''lease.1'' 8 = (Inr (Some batch), s')"
      and some: "hb_Requests batch \<noteq> []"
    by (cases "poll_host 1000 service_submitted ''server'' ''lease.1'' 8") (auto split: sum.splits option.splits)
  then obtain dl where dl: "dl \<in> set (hb_Requests batch)" by (meson last_in_set)
  from deliveries_are_allowed [OF reached_submitted poll] dl poll show ?thesis by blast
qed

subsection \<open>Emergency stops\<close>

text \<open>
  C3: while the emergency stop of an actor is active, every operation of that actor is terminal, asked to be cancelled, or was
  accepted by the Host before; and what the Host is given for that actor is never anything but an operation that it has
  accepted before. New submissions and confirmations cannot change that.
\<close>

theorem stopped_actors_get_nothing_new:
  assumes "reachable_service env encode s" "es_Active (stop_of s t)"
  shows "(\<forall>i op. operation_at s i = Some op \<and> op_target op = t \<longrightarrow> settledOperation op \<or> op_cancel op \<or> accepted_ack op)
    \<and> (\<forall>now h l limit batch s' dl. poll_host now s h l limit = (Inr (Some batch), s') \<and> dl \<in> set (hb_Requests batch)
         \<and> ActorControlTarget (hc_HostID (hd_Request dl)) (hc_WorldID (hd_Request dl)) (hc_ActorID (hd_Request dl)) = t
         \<longrightarrow> (\<exists>op'. operation_at s' (hc_OperationID (hd_Request dl)) = Some op' \<and> accepted_ack op'))"
proof (intro conjI allI impI)
  have holds: "stops_hold s" using assms(1) by (rule reachable_stops_hold)
  fix i op assume "operation_at s i = Some op \<and> op_target op = t"
  then show "settledOperation op \<or> op_cancel op \<or> accepted_ack op"
    using holds assms(2) unfolding stops_hold_def halted_def by blast
next
  fix now h l limit batch s' dl
  assume *: "poll_host now s h l limit = (Inr (Some batch), s') \<and> dl \<in> set (hb_Requests batch)
      \<and> ActorControlTarget (hc_HostID (hd_Request dl)) (hc_WorldID (hd_Request dl)) (hc_ActorID (hd_Request dl)) = t"
  obtain s1 s2 where q: "quiet s s1" and collect: "collectHostWorkLocked now h (nat limit) s1 = (batch, s2)"
    and ops: "sv_operations s' = sv_operations s2"
    using * poll_host_batch [of now s h l limit batch s'] by metis
  have c: "all_consistent s" "all_consistent s1"
    using q reachable_all_consistent [OF assms(1)] all_consistent_advances unfolding quiet_def by blast+
  have holds: "stops_hold s1"
    using q stops_hold_advances [OF _ _ c(1) reachable_stops_hold [OF assms(1)]] unfolding quiet_def by blast
  obtain i op where op: "operation_at s1 i = Some op" "delivery_of now s2 dl i op"
    using collect_result [of s1 dl now h "nat limit"] collect * c(2) unfolding all_consistent_def by auto
  have request: "hd_Request dl = op_request op" and deliverable: "deliverable op"
    and after: "\<exists>op'. operation_at s' i = Some op' \<and> same_execution (delivered_now now op) op'"
    using op(2) unfolding delivery_of_def ops by blast+
  have "consistent op" "hc_OperationID (op_request op) = i"
    using c(2) op(1) by (auto simp: all_consistent_def keyed_def well_placed_def)
  moreover have "stop_of s1 t = stop_of s t" using q stop_of_frame unfolding quiet_def by blast
  then have "halted op" using holds op(1) assms(2) * request unfolding stops_hold_def op_target_def by metis
  moreover have "\<not> settledOperation op" using settled_not_open(1) [OF \<open>consistent op\<close>] deliverable unfolding deliverable_def by blast
  ultimately have "accepted_ack op" "hc_OperationID (op_request op) = i" using deliverable by (auto simp: halted_def deliverable_def)
  then show "\<exists>op'. operation_at s' (hc_OperationID (hd_Request dl)) = Some op' \<and> accepted_ack op'"
    using after request by (auto simp: delivered_now_def accepted_ack_def same_execution_def)
qed

theorem stopped_actors_get_nothing_new_witness:
  "es_Active (stop_of service_stopped target_1)
     \<and> (\<exists>op. operation_at service_stopped ''operation.1'' = Some op \<and> op_target op = target_1
          \<and> (settledOperation op \<or> op_cancel op \<or> accepted_ack op))"
proof -
  have stop: "es_Active (stop_of service_stopped target_1)"
    by (simp add: service_stopped_def stop_of_def stop_1_def)
  obtain op where op: "operation_at service_stopped ''operation.1'' = Some op" "op_target op = target_1"
    by (simp add: service_stopped_def operation_1_def op_target_def target_1_def service_with_def)
  from stopped_actors_get_nothing_new [OF reached_stopped stop] op stop show ?thesis by blast
qed

subsection \<open>Bounds\<close>

text \<open>
  the service never holds more operations than the configured maximum, which is itself at most 65536.
\<close>

theorem operations_within_capacity:
  assumes "reachable_service env encode s"
  shows "length (sv_operations s) \<le> sv_maxOperations s \<and> sv_maxOperations s \<le> 65536"
  using assms
proof (induction rule: reachable_service.induct)
  case created
  then show ?case by (simp add: newService_def hardMaxOperations_def defaultMaxOperations_def nat_le_iff Let_def)
next
  case (stepped s s')
  have "within_capacity s'"
    using control_step_capacity [OF stepped.hyps(2) reachable_keyed [OF stepped.hyps(1)]] stepped.IH
    by (simp add: within_capacity_def)
  then show ?case using control_step_max [OF stepped.hyps(2)] stepped.IH by (simp add: within_capacity_def)
qed

theorem operations_within_capacity_witness: "length (sv_operations service_running) \<le> 65536"
  using operations_within_capacity [OF reached_running] by simp

subsection \<open>Leases\<close>



subsection \<open>Submitting twice\<close>

lemma settle_keeps [simp]:
  "sv_requests (finalizeOperationPolicyLocked op c s) = sv_requests s" "sv_closed (finalizeOperationPolicyLocked op c s) = sv_closed s"
  by (simp_all add: finalizeOperationPolicyLocked_def discardOperationConfirmationLocked_def split: option.split)

lemma record_keeps [simp]:
  "sv_requests (recordOperationTimelineLocked i s) = sv_requests s" "sv_closed (recordOperationTimelineLocked i s) = sv_closed s"
  by (simp_all add: recordOperationTimelineLocked_def split_beta Let_def split: option.split)

lemma conclude_keeps [simp]: "sv_requests (conclude i op c s) = sv_requests s" "sv_closed (conclude i op c s) = sv_closed s"
  by (simp_all add: conclude_def put_operation_def Let_def split: option.split)

lemma fold_same: "(\<And>x s. F (g x s) = F s) \<Longrightarrow> F (fold g xs s) = F s"
  by (induction xs arbitrary: s) simp_all

lemma for_operations_keeps [simp]:
  "sv_requests (for_operations step s) = sv_requests s" "sv_closed (for_operations step s) = sv_closed s"
  unfolding for_operations_def by (rule fold_same, simp split: prod.split option.split)+

lemma refresh_keeps [simp]:
  "sv_requests (refreshOperationHostLocked i op now s) = sv_requests s" "sv_closed (refreshOperationHostLocked i op now s) = sv_closed s"
  by (auto simp: refreshOperationHostLocked_def expireOperationByTTLLocked_def expireHostOperationsLocked_def
      markOperationsDirtyLocked_def notifyLocked_def Let_def split: option.split)

lemma persisted_open:
  assumes "\<not> sv_closed s"
  obtains s' where "persisted s body = body s'" "sv_operations s' = sv_operations s" "sv_requests s' = sv_requests s"
    "sv_closed s' = sv_closed s"
  by (rule persisted_cases [of s body]) (use assms that in auto)

lemma operationView_id [simp]: "ov_OperationID (operationView env op) = hc_OperationID (op_request op)"
  by (simp add: operationView_def Let_def)

text \<open>The operation stored under an idempotency key answers a submission with the same fingerprint.\<close>

definition answers :: "go_env \<Rightarrow> service \<Rightarrow> string \<Rightarrow> string \<Rightarrow> string \<Rightarrow> bool" where
  "answers env s key fingerprint i \<longleftrightarrow>
     \<not> sv_closed s \<and> map_of (sv_requests s) key = Some i
     \<and> (\<exists>op. operation_at s i = Some op \<and> hc_Kind (op_request op) = ControlAction
          \<and> actionRequestFingerprint env (op_request op) = fingerprint)"

lemma idempotent_hit:
  assumes "keyed s" "answers env s key f i"
  shows "\<exists>view s1. idempotentActionLocked env now s key f = Some (Inr view, s1) \<and> ov_OperationID view = i
    \<and> advances s s1 \<and> sv_requests s1 = sv_requests s \<and> sv_closed s1 = sv_closed s \<and> keeps s s1"
proof -
  obtain op where op: "operation_at s i = Some op" "hc_Kind (op_request op) = ControlAction"
      "actionRequestFingerprint env (op_request op) = f" and key: "map_of (sv_requests s) key = Some i" and closed: "\<not> sv_closed s"
    using assms(2) by (auto simp: answers_def)
  let ?r = "refreshOperationHostLocked i op now s"
  have "\<not> sv_closed ?r" using closed by simp
  then obtain s1 where s1: "persisted ?r (\<lambda>s1. (Inr (operationView env (refreshed i op s1)), s1)) = (Inr (operationView env (refreshed i op s1)), s1)"
      "sv_operations s1 = sv_operations ?r" "sv_requests s1 = sv_requests ?r" "sv_closed s1 = sv_closed ?r"
    by (rule persisted_open [where body = "\<lambda>s1. (Inr (operationView env (refreshed i op s1)), s1)"])
  have adv: "advances s s1" using advances_cong_right [OF s1(2) advances_refresh [OF op(1)]] .
  have "keeps ?r s1" using s1(2) by (rule keeps_same)
  then have keeps: "keeps s s1" by (rule keeps_trans [OF keeps_refresh])
  then have "operation_at s1 i = Some (refreshed i op s1)" using op(1) refreshed_at by (simp add: keeps_def)
  moreover have "keyed s1" using adv assms(1) unfolding advances_def by blast
  ultimately have "hc_OperationID (op_request (refreshed i op s1)) = i" unfolding keyed_def well_placed_def by blast
  moreover have "idempotentActionLocked env now s key f = Some (Inr (operationView env (refreshed i op s1)), s1)"
    using key op s1(1) by (simp add: idempotentActionLocked_def Let_def)
  ultimately show ?thesis using adv keeps s1(3, 4) by simp
qed

lemma fingerprint_kept:
  "remembers op op' \<Longrightarrow> actionRequestFingerprint env (op_request op') = actionRequestFingerprint env (op_request op)
     \<and> hc_Kind (op_request op') = hc_Kind (op_request op)"
  unfolding remembers_def actionRequestFingerprint_def by (elim conjE) (simp only:)

lemma answers_kept:
  assumes "keyed s" "answers env s key f i" "advances s s'" "keeps s s'" "sv_requests s' = sv_requests s" "sv_closed s' = sv_closed s"
  shows "answers env s' key f i"
proof -
  obtain op where op: "operation_at s i = Some op" "hc_Kind (op_request op) = ControlAction"
      "actionRequestFingerprint env (op_request op) = f"
    using assms(2) by (auto simp: answers_def)
  obtain op' where op': "operation_at s' i = Some op'" using assms(4) op(1) by (auto simp: keeps_def)
  obtain op0 where "operation_at s i = Some op0" "remembers op0 op'" by (rule memory.advance [OF assms(3, 1) op'])
  with op fingerprint_kept have "hc_Kind (op_request op') = ControlAction" "actionRequestFingerprint env (op_request op') = f" by auto
  then show ?thesis using assms(2, 5, 6) op' by (simp add: answers_def)
qed

lemma idempotent_answers:
  assumes "idempotentActionLocked env now s key f = Some (Inr view, s1)" "keyed s"
  shows "answers env s1 key f (ov_OperationID view) \<and> keyed s1"
proof -
  obtain i op where i: "map_of (sv_requests s) key = Some i" "operation_at s i = Some op" "hc_Kind (op_request op) = ControlAction"
      "actionRequestFingerprint env (op_request op) = f"
    and run: "persisted (refreshOperationHostLocked i op now s) (\<lambda>s1. (Inr (operationView env (refreshed i op s1)), s1)) = (Inr view, s1)"
    using assms(1) by (auto simp: idempotentActionLocked_def Let_def split: option.splits if_splits)
  have "\<not> sv_closed s"
    using run by (rule_tac persisted_cases [of "refreshOperationHostLocked i op now s" "\<lambda>s1. (Inr (operationView env (refreshed i op s1)), s1)"]) auto
  then have hit: "answers env s key f i" using i by (simp add: answers_def)
  from idempotent_hit [OF assms(2) this, of now] assms(1) have "ov_OperationID view = i" "advances s s1" "sv_requests s1 = sv_requests s"
      "sv_closed s1 = sv_closed s" "keeps s s1" by auto
  with answers_kept [OF assms(2) hit] assms(2) show ?thesis by (simp add: advances_def)
qed

lemma insert_answers:
  assumes "insert_operation env key op s = (Inr view, s')" "hc_Kind (op_request op) = ControlAction"
    and "actionRequestFingerprint env (op_request op) = f"
  shows "answers env s' key f (op_id op) \<and> ov_OperationID view = op_id op"
proof -
  let ?i = "op_id op"
  let ?s0 = "put_operation ?i op (s\<lparr>sv_requests := AList.update key ?i (sv_requests s)\<rparr>)"
  let ?s1 = "markOperationsDirtyLocked (recordOperationTimelineLocked ?i ?s0)"
  let ?body = "\<lambda>s2. (Inr (operationView env (refreshed ?i op s2)), notifyLocked s2)"
  have run: "persisted ?s1 ?body = (Inr view, s')" using assms(1) by (simp add: insert_operation_def Let_def)
  define op' where "op' = fst (record_timeline op (sv_timelineSequence ?s0))"
  have same: "op_request op' = op_request op" using record_timeline_same [of op] by (simp add: op'_def same_execution_def)
  have at: "operation_at ?s1 ?i = Some op'" 
    by (simp add: operation_at_record op'_def update_conv')
  have key: "map_of (sv_requests ?s1) key = Some ?i"
    by (simp add: markOperationsDirtyLocked_def notifyLocked_def recordOperationTimelineLocked_def put_operation_def Let_def split_beta
        update_conv' split: option.split)
  show ?thesis
  proof (rule persisted_cases [of ?s1 ?body])
    assume "persisted ?s1 ?body = (Inl (fault ErrClosed), ?s1)"
    with run show ?thesis by simp
  next
    fix s2 assume s2: "\<not> sv_closed ?s1" "persisted ?s1 ?body = ?body s2"
      "s2 = ?s1 \<or> s2 = ?s1\<lparr>sv_operationDirty := False, sv_checkpointDirty := False\<rparr>"
    then have "sv_operations s2 = sv_operations ?s1" "sv_requests s2 = sv_requests ?s1" "\<not> sv_closed s2" by auto
    with run s2(2) at key same assms(2, 3) show ?thesis
      by (auto simp: answers_def refreshed_def notifyLocked_def)
  qed
qed

end
