(* ===== verification/Change_Feed.thy ===== *)
theory Change_Feed
  imports Control_Gateway
begin

section \<open>The bounded change feed (internal/changefeed/feed.go, controlplane/scheduling_changes.go)\<close>

text \<open>
  A ring of \<open>Capacity\<close> entries and a revision counter of 64 bits. The service's state keeps every appended change as a list;
  here the ring is shown to answer the way the list would, or to say that the cursor has expired. The contract between the
  feed and its readers is a locale; what a reader that polls with the returned cursor sees is derived from it once.
\<close>

definition Capacity :: nat where "Capacity = 512"

record 'a feed =
  fd_revision :: u64
  fd_entries :: "'a list"

definition zeroFeed :: "'a \<Rightarrow> 'a feed" where
  "zeroFeed zero = \<lparr>fd_revision = 0, fd_entries = replicate Capacity zero\<rparr>"

definition Append :: "'a \<Rightarrow> 'a feed \<Rightarrow> 'a feed" where
  "Append value feed =
     feed\<lparr>fd_entries := (fd_entries feed)[unat (fd_revision feed) mod Capacity := value],
          fd_revision := fd_revision feed + 1\<rparr>"

definition Since :: "'a feed \<Rightarrow> u64 \<Rightarrow> 'a list \<times> u64 \<times> bool" where
  "Since feed after =
     (let latest = fd_revision feed in
      if after > latest \<or> latest - after > of_nat Capacity then ([], latest, True)
      else if after = latest then ([], latest, False)
      else (map (\<lambda>cursor. fd_entries feed ! (cursor mod Capacity)) [unat after..<unat latest], latest, False))"

text \<open>What a reader sees: the values after its cursor, the next cursor, and whether it has to start over.\<close>

definition log_since :: "nat \<Rightarrow> 'a list \<Rightarrow> nat \<Rightarrow> 'a list \<times> bool" where
  "log_since capacity log cursor =
     (if cursor \<le> length log \<and> length log - cursor \<le> capacity then (drop cursor log, False) else ([], True))"

locale change_log =
  fixes capacity :: nat
    and fresh :: 'f
    and append :: "'v \<Rightarrow> 'f \<Rightarrow> 'f"
    and since :: "'f \<Rightarrow> u64 \<Rightarrow> 'v list \<times> u64 \<times> bool"
  assumes since_log: "length log < 2 ^ 64 \<Longrightarrow>
    since (fold append log fresh) cursor
      = (fst (log_since capacity log (unat cursor)), of_nat (length log), snd (log_since capacity log (unat cursor)))"
begin

lemma fresh_reader_from_zero:
  assumes "length log \<le> capacity" "length log < 2 ^ 64"
  shows "since (fold append log fresh) 0 = (log, of_nat (length log), False)"
  using assms by (simp add: since_log log_since_def)

lemma reader_sees_exactly_the_new_changes:
  assumes "length (old @ new) < 2 ^ 64" "length new \<le> capacity"
    and "since (fold append old fresh) c0 = (seen, c1, o1)"
  shows "since (fold append (old @ new) fresh) c1 = (new, of_nat (length (old @ new)), False)"
proof -
  have old: "length old < 2 ^ 64" using assms(1) by simp
  have "c1 = of_nat (length old)" using assms(3) since_log [OF old, of c0] by simp
  then have "unat c1 = length old" using old by (simp add: unat_of_nat take_bit_nat_eq_self)
  then show ?thesis using since_log [OF assms(1), of c1] assms(2) by (simp add: log_since_def)
qed

lemma slow_reader_is_told:
  assumes "length (old @ new) < 2 ^ 64" "length new > capacity"
    and "since (fold append old fresh) c0 = (seen, c1, o1)"
  shows "since (fold append (old @ new) fresh) c1 = ([], of_nat (length (old @ new)), True)"
proof -
  have old: "length old < 2 ^ 64" using assms(1) by simp
  have "c1 = of_nat (length old)" using assms(3) since_log [OF old, of c0] by simp
  then have "unat c1 = length old" using old by (simp add: unat_of_nat take_bit_nat_eq_self)
  then show ?thesis using since_log [OF assms(1), of c1] assms(2) by (simp add: log_since_def)
qed

end

subsection \<open>The ring implements the log\<close>

text \<open>After appending \<open>log\<close>, slot \<open>k mod Capacity\<close> holds entry \<open>k\<close> of the log for each of the last \<open>Capacity\<close> entries.\<close>

definition ring_holds :: "'a list \<Rightarrow> 'a feed \<Rightarrow> bool" where
  "ring_holds log feed \<longleftrightarrow>
     length (fd_entries feed) = Capacity \<and> fd_revision feed = of_nat (length log)
     \<and> (\<forall>k<length log. length log - k \<le> Capacity \<longrightarrow> fd_entries feed ! (k mod Capacity) = log ! k)"

lemma Capacity_pos [simp]: "0 < Capacity"
  by (simp add: Capacity_def)

lemma mod_distinct_window:
  fixes k n :: nat
  assumes "k < n" "n - k < m"
  shows "k mod m \<noteq> n mod m"
proof
  assume "k mod m = n mod m"
  then have "m dvd n - k" using assms(1) by (metis mod_eq_dvd_iff_nat less_imp_le)
  with assms show False by (simp add: nat_dvd_not_less)
qed

lemma ring_holds_zero: "ring_holds [] (zeroFeed z)"
  by (simp add: ring_holds_def zeroFeed_def)

lemma ring_holds_Append:
  assumes "ring_holds log feed" "length log < 2 ^ 64"
  shows "ring_holds (log @ [v]) (Append v feed)"
proof -
  have pos: "unat (fd_revision feed) = length log"
    using assms by (simp add: ring_holds_def unat_of_nat take_bit_nat_eq_self)
  have entry: "fd_entries (Append v feed) ! (k mod Capacity) = (log @ [v]) ! k"
    if "k < Suc (length log)" "Suc (length log) - k \<le> Capacity" for k
  proof (cases "k = length log")
    case True
    then show ?thesis using assms(1) pos by (simp add: Append_def ring_holds_def)
  next
    case False
    with that have k: "k < length log" "length log - k < Capacity" by simp_all
    with assms(1) pos show ?thesis
      using mod_distinct_window [OF k] by (simp add: Append_def ring_holds_def nth_append)
  qed
  then show ?thesis using assms(1) by (simp add: ring_holds_def Append_def)
qed

lemma ring_holds_fold:
  assumes "length log < 2 ^ 64"
  shows "ring_holds log (fold Append log (zeroFeed z))"
  using assms
proof (induction log rule: rev_induct)
  case Nil
  show ?case by (simp add: ring_holds_zero)
next
  case (snoc v log)
  then show ?case by (simp add: ring_holds_Append)
qed

lemma Since_ring:
  assumes ring: "ring_holds log feed" and size: "length log < 2 ^ 64"
  shows "Since feed cursor = (fst (log_since Capacity log (unat cursor)), of_nat (length log),
           snd (log_since Capacity log (unat cursor)))"
proof -
  let ?n = "length log" and ?c = "unat cursor"
  have rev: "fd_revision feed = of_nat ?n" and n: "unat (of_nat ?n :: u64) = ?n"
    using ring size by (simp_all add: ring_holds_def unat_of_nat take_bit_nat_eq_self)
  have less: "fd_revision feed < cursor \<longleftrightarrow> ?n < ?c"
    by (simp add: rev word_less_nat_alt n)
  have gap: "fd_revision feed - cursor > of_nat Capacity \<longleftrightarrow> ?n - ?c > Capacity" if "?c \<le> ?n"
    using that by (simp add: rev word_less_nat_alt unat_sub word_le_nat_alt n Capacity_def)
  have same: "cursor = fd_revision feed \<longleftrightarrow> ?c = ?n"
    by (simp add: rev word_unat_eq_iff n)
  have window: "map (\<lambda>k. fd_entries feed ! (k mod Capacity)) [?c..<?n] = drop ?c log"
    if "?c \<le> ?n" "?n - ?c \<le> Capacity"
  proof (rule nth_equalityI)
    show "length (map (\<lambda>k. fd_entries feed ! (k mod Capacity)) [?c..<?n]) = length (drop ?c log)" by simp
  next
    fix i assume "i < length (map (\<lambda>k. fd_entries feed ! (k mod Capacity)) [?c..<?n])"
    then show "map (\<lambda>k. fd_entries feed ! (k mod Capacity)) [?c..<?n] ! i = drop ?c log ! i"
      using ring that by (simp add: ring_holds_def)
  qed
  show ?thesis
  proof (cases "?c \<le> ?n \<and> ?n - ?c \<le> Capacity")
    case True
    then show ?thesis using less gap same window by (auto simp: Since_def log_since_def rev n Let_def)
  next
    case False
    then show ?thesis using less gap by (auto simp: Since_def log_since_def rev Let_def)
  qed
qed

interpretation ring: change_log Capacity "zeroFeed z" Append Since for z
  by unfold_locales (rule Since_ring [OF ring_holds_fold])

subsection \<open>The feed of the service\<close>

record scheduling_change_page =
  scp_Revision :: u64
  scp_All :: bool
  scp_Changes :: "scheduling_change list"

text \<open>The feed after every change the service has made since it was created, and the page a reader gets.\<close>

definition service_feed :: "service \<Rightarrow> scheduling_change feed" where
  "service_feed s = fold Append (sv_changes s) (zeroFeed (OperationChange ''''))"

definition SchedulingChanges :: "service \<Rightarrow> u64 \<Rightarrow> scheduling_change_page" where
  "SchedulingChanges s after =
     (case Since (service_feed s) after of
        (values, next, overflow) \<Rightarrow> \<lparr>scp_Revision = next, scp_All = overflow, scp_Changes = values\<rparr>)"

text \<open>
  C26: the bounded ring behind the change feed answers exactly as the complete log would: a reader gets all changes after
  its cursor, in order, or is told that its cursor has expired (more than 512 changes old, or from another process).
\<close>

theorem feed_refines_log:
  fixes log :: "'a list" and cursor :: u64
  assumes "length log < 2 ^ 64"
  shows "Since (fold Append log (zeroFeed z)) cursor
           = (if unat cursor \<le> length log \<and> length log - unat cursor \<le> 512
              then (drop (unat cursor) log, of_nat (length log), False)
              else ([], of_nat (length log), True))"
  using ring.since_log [OF assms, of z cursor] by (simp add: log_since_def Capacity_def)

theorem feed_refines_log_witness:
  "Since (fold Append [10, 20, 30 :: nat] (zeroFeed 0)) 1 = ([20, 30], 3, False)"
  using feed_refines_log [of "[10, 20, 30 :: nat]" 0 1] by simp

text \<open>
  a reader of the service's scheduling changes that polls with the revision it was given before sees exactly the
  changes made in between, nothing twice and nothing lost, or an overflow when there were more than 512 of them.
\<close>

theorem reader_never_misses_a_change:
  assumes "sv_changes s' = sv_changes s @ new" "length (sv_changes s') < 2 ^ 64"
  shows "SchedulingChanges s' (scp_Revision (SchedulingChanges s c))
           = (if length new \<le> 512
              then \<lparr>scp_Revision = of_nat (length (sv_changes s')), scp_All = False, scp_Changes = new\<rparr>
              else \<lparr>scp_Revision = of_nat (length (sv_changes s')), scp_All = True, scp_Changes = []\<rparr>)"
proof -
  obtain seen c1 o1 where first: "Since (service_feed s) c = (seen, c1, o1)" by (cases "Since (service_feed s) c")
  have size: "length (sv_changes s @ new) < 2 ^ 64" using assms by simp
  show ?thesis
    using ring.reader_sees_exactly_the_new_changes [OF size _ first [unfolded service_feed_def]]
      ring.slow_reader_is_told [OF size _ first [unfolded service_feed_def]] first
    by (cases "length new \<le> 512") (simp_all add: SchedulingChanges_def service_feed_def assms(1) Capacity_def)
qed

theorem reader_never_misses_a_change_witness:
  "scp_Changes (SchedulingChanges (notifyActorChangedLocked (ActorControlTarget ''h'' ''w'' ''a'') (newService 0 0 None []))
     (scp_Revision (SchedulingChanges (newService 0 0 None []) 0))) = [ActorChange (ActorControlTarget ''h'' ''w'' ''a'')]"
  using reader_never_misses_a_change [of
      "notifyActorChangedLocked (ActorControlTarget ''h'' ''w'' ''a'') (newService 0 0 None [])" "newService 0 0 None []"
      "[ActorChange (ActorControlTarget ''h'' ''w'' ''a'')]" 0]
  by (simp add: notifyActorChangedLocked_def notifyLocked_def newService_def Let_def)

end
