(* ===== verification/Control_Restore.thy ===== *)
theory Control_Restore
  imports Control_Gateway
begin

section \<open>Storing and restoring operations (package \<open>controlplane\<close>, operation_file.go)\<close>

text \<open>
  What a persistent service writes when it is flushed and what the next process accepts and rebuilds from it. The bytes of
  the file (JSON, SQLite) are not modelled: \<open>persistedOperationsLocked\<close> gives the value that is encoded and
  \<open>restoreOperations\<close> takes the value that was decoded. A map is iterated in the order of its association list; the
  errors of \<open>restoreOperation\<close> are their texts.
\<close>

definition operationFileVersion :: string where "operationFileVersion = ''rin.control.operations/v6''"
definition maxOutcomeSubscribers :: nat where "maxOutcomeSubscribers = 64"

record persisted_operation =
  po_Request :: host_control_request
  po_Status :: operation_status
  po_Attempts :: u32
  po_Cancel :: bool
  po_Ack :: "host_acknowledgement option"
  po_Run :: "action_run option"
  po_Outcome :: "action_outcome option"
  po_OutcomeDelivery :: "(string, bool) gomap"
  po_Output :: string
  po_CreatedAt :: int
  po_UpdatedAt :: int
  po_Timeline :: "operation_timeline_event list"
  po_TimelineTruncatedBefore :: u64

record persisted_operations =
  ps_Version :: string
  ps_TimelineSequence :: u64
  ps_Operations :: "persisted_operation list"
  ps_Controllers :: "controller_lease list"
  ps_EmergencyStops :: "actor_emergency_stop list"
  ps_PolicyState :: "policy_state option"

subsection \<open>Writing\<close>

definition persistedOperationValue :: "operation_state \<Rightarrow> persisted_operation" where
  "persistedOperationValue op =
     \<lparr>po_Request = op_request op, po_Status = op_status op, po_Attempts = op_attempts op, po_Cancel = op_cancel op,
      po_Ack = op_ack op, po_Run = op_run op, po_Outcome = op_outcome op, po_OutcomeDelivery = op_outcomeDelivery op,
      po_Output = op_output op, po_CreatedAt = op_createdAt op, po_UpdatedAt = op_updatedAt op,
      po_Timeline = op_timeline op, po_TimelineTruncatedBefore = op_timelineTruncatedBefore op\<rparr>"

definition allowed_decision :: "host_control_request \<Rightarrow> decision option" where
  "allowed_decision r =
     (case hc_PolicyDecision r of Some d \<Rightarrow> if de_Result d = Allow then Some d else None | None \<Rightarrow> None)"

definition persistedOperationMetadataLocked :: "service \<Rightarrow> persisted_operations" where
  "persistedOperationMetadataLocked s =
     \<lparr>ps_Version = operationFileVersion,
      ps_TimelineSequence = sv_timelineSequence s,
      ps_Operations = [],
      ps_Controllers = sort_key (\<lambda>l. (cl_HostID l, cl_WorldID l, cl_ActorID l)) (map snd (sv_controllers s)),
      ps_EmergencyStops =
        sort_key (\<lambda>e. (at_HostID (es_Target e), at_WorldID (es_Target e), at_ActorID (es_Target e)))
          (map snd (sv_emergencyStops s)),
      ps_PolicyState =
        map_option (\<lambda>en. SnapshotStateFor en
          (map de_DecisionID (List.map_filter (\<lambda>(i, op). allowed_decision (op_request op)) (sv_operations s))))
          (sv_policyEngine s)\<rparr>"

definition persistedOperationsLocked :: "service \<Rightarrow> persisted_operations" where
  "persistedOperationsLocked s =
     (persistedOperationMetadataLocked s)\<lparr>ps_Operations :=
        map persistedOperationValue
          (sort_key (\<lambda>op. (op_createdAt op, hc_OperationID (op_request op))) (map snd (sv_operations s)))\<rparr>"

text \<open>What \<open>writeOperationsLocked\<close> hands to the file: expired controllers are dropped first.\<close>

definition writeOperationsLocked :: "int \<Rightarrow> service \<Rightarrow> persisted_operations \<times> service" where
  "writeOperationsLocked now s =
     (let s1 = expireControllersLocked now s
      in (persistedOperationsLocked s1, s1\<lparr>sv_operationDirty := False, sv_checkpointDirty := False\<rparr>))"

subsection \<open>Validating what was read\<close>

fun error_kind_text :: "control_error_kind \<Rightarrow> string" where
  "error_kind_text ErrInvalid = ''invalid control plane value''"
| "error_kind_text ErrNotFound = ''control plane value not found''"
| "error_kind_text ErrForbidden = ''control plane access forbidden''"
| "error_kind_text ErrLeaseConflict = ''control plane lease conflict''"
| "error_kind_text ErrLeaseExpired = ''control plane lease expired''"
| "error_kind_text ErrStale = ''stale control plane value''"
| "error_kind_text ErrUnavailable = ''control plane host unavailable''"
| "error_kind_text ErrNotAccepted = ''control plane operation not accepted''"
| "error_kind_text ErrConflict = ''control plane value conflict''"
| "error_kind_text ErrCapacity = ''control plane capacity exceeded''"
| "error_kind_text ErrPersistence = ''control plane persistence failed''"
| "error_kind_text ErrClosed = ''control plane is closed''"
| "error_kind_text ErrDataLocked = ''control plane data directory is already locked''"
| "error_kind_text ErrPlain = ''''"

definition control_error_text :: "control_error \<Rightarrow> string" where
  "control_error_text e =
     (if ce_kind e = ErrPlain then ce_detail e
      else if ce_detail e = [] then error_kind_text (ce_kind e)
      else error_kind_text (ce_kind e) @ '': '' @ ce_detail e)"

abbreviation as_text :: "control_error option \<Rightarrow> string option" where
  "as_text \<equiv> map_option control_error_text"

definition validate_binding_of :: "host_control_request \<Rightarrow> string option" where
  "validate_binding_of r =
     (case hc_Binding r of
        None \<Rightarrow> Some ''request binding is required''
      | Some b \<Rightarrow>
          first_err [
            map_option (\<lambda>e. ''binding.epoch: '' @ error_text e) (Epoch_Validate (cb_Epoch b) ''binding.epoch''),
            require (ep_WorldID (cb_Epoch b) = hc_WorldID r) ''binding epoch does not match request world'',
            require (positive_json_safe (cb_ObservationSeq b)) ''invalid binding observation_seq'',
            require (cb_AuthorityRevision b \<noteq> 0) ''binding authority_revision is required'',
            require (json_safe (cb_AuthorityRevision b)) ''invalid binding authority_revision'',
            (if cb_ControllerLeaseID b \<noteq> []
             then as_text (control_validateID ''binding.controller_lease_id'' (cb_ControllerLeaseID b)) else None)])"

definition stored_action_matches :: "host_control_request \<Rightarrow> control_binding \<Rightarrow> action_request \<Rightarrow> bound_action \<Rightarrow> string \<Rightarrow> bool" where
  "stored_action_matches r b a bound digest \<longleftrightarrow>
     rq_RequestID a = hc_RequestID r \<and> rq_ActorID a = hc_ActorID r \<and> rq_ExpectedEpoch a = cb_Epoch b
     \<and> rq_ObservationSeq a = cb_ObservationSeq b
     \<and> ba_RequestDigest bound = digest \<and> ba_RequestID bound = rq_RequestID a \<and> ba_ControllerID bound = rq_ControllerID a
     \<and> ba_ActorID bound = rq_ActorID a \<and> ba_Capability bound = rq_Capability a \<and> ba_SpecDigest bound = rq_SpecDigest a
     \<and> ba_ExpectedEpoch bound = rq_ExpectedEpoch a \<and> ba_ObservationSeq bound = rq_ObservationSeq a
     \<and> ba_TaskID bound = rq_TaskID a \<and> ba_IdempotencyKey bound = rq_IdempotencyKey a
     \<and> ba_RequestedTargets bound = rq_Targets a"

definition validateStoredActionRequest :: "go_env \<Rightarrow> host_control_request \<Rightarrow> string option" where
  "validateStoredActionRequest env r =
     (if controllerLeaseID (hc_Binding r) = [] then Some ''action request requires a controller-bound binding''
      else case (hc_Binding r, hc_ActionRequest r, hc_BoundAction r, hc_PolicyDecision r) of
        (Some b, Some a, Some bound, Some d) \<Rightarrow>
          first_err [
            map_option (\<lambda>e. ''action_request: '' @ error_text e) (ValidateActionRequest env a),
            map_option (\<lambda>e. ''bound_action: '' @ error_text e) (ValidateBoundAction env bound),
            map_option (\<lambda>e. ''policy_decision: '' @ policy_error_text e) (ValidateDecision d),
            (case ActionRequestDigest env a of
               Inl e \<Rightarrow> Some (error_text e)
             | Inr digest \<Rightarrow>
                 require (stored_action_matches r b a bound digest) ''action request, binding, and control target do not match''),
            require (de_ControllerID d = ba_ControllerID bound \<and> de_ActorID d = ba_ActorID bound
                     \<and> de_PrincipalID d = pr_ID (hc_Principal r) \<and> de_EffectDigest d = ba_EffectDigest bound)
              ''policy decision does not match bound action'',
            (if hc_ParentOperationID r \<noteq> [] then
               first_err [
                 as_text (control_validateID ''parent_operation_id'' (hc_ParentOperationID r)),
                 require (hc_ParentOperationID r \<noteq> hc_OperationID r) ''operation cannot be its own parent'']
             else None),
            require (hasScope (hc_Principal r) ScopeHostAdmin \<or> hasScope (hc_Principal r) ScopeActorExecute)
              ''principal is missing actor.execute'']
      | _ \<Rightarrow> Some ''action request requires intent, binding, and policy decision'')"

definition validateStoredRequest :: "go_env \<Rightarrow> host_control_request \<Rightarrow> string option" where
  "validateStoredRequest env r =
     first_err [
       as_text (validateControlTarget (hc_RequestID r) (hc_HostID r) (hc_WorldID r) (hc_ActorID r)),
       as_text (control_validateID ''operation_id'' (hc_OperationID r)),
       map_option (\<lambda>e. ''principal: '' @ error_text e) (ValidatePrincipal (hc_Principal r)),
       require (0 \<le> hc_SubmittedAt r \<and> hc_SubmittedAt r \<le> int maxJSONSafeInteger) ''invalid submitted_at_unix_millis'',
       validate_binding_of r,
       require (hc_Kind r = ControlAction) ''unsupported control kind'',
       validateStoredActionRequest env r]"

subsection \<open>Timelines, leases and stops\<close>

definition validate_matched_rules :: "string \<Rightarrow> string list \<Rightarrow> string option" where
  "validate_matched_rules field rules =
     first_err [
       require (length rules \<le> 1024) (field @ '' has too many matched rules''),
       loop_err (\<lambda>j seen ruleID. first_err [
           as_text (control_validateID (field @ ''.matched_rule_ids['' @ format_nat j @ '']'') ruleID),
           require (ruleID \<notin> set seen) (field @ '' has duplicate matched rules'')]) [] rules]"

definition validate_timeline_event :: "string \<Rightarrow> u64 \<Rightarrow> operation_timeline_event \<Rightarrow> string option" where
  "validate_timeline_event field previous v =
     first_err [
       require (positive_json_safe (te_Sequence v) \<and> previous < te_Sequence v) (field @ '' sequence must increase''),
       require (validOperationStatus (te_Status v)) (field @ '' has an unsupported status''),
       as_text (control_validateText (field @ ''.kind'') (te_Kind v) 128 True),
       as_text (control_validateText (field @ ''.reason_code'') (te_ReasonCode v) 128 False),
       as_text (control_validateText (field @ ''.summary'') (te_Summary v) 500 False),
       as_text (control_validateText (field @ ''.outcome_code'') (te_OutcomeCode v) 128 False),
       as_text (control_validateText (field @ ''.policy_reason_code'') (te_PolicyReasonCode v) 128 False),
       as_text (control_validateText (field @ ''.policy_summary'') (te_PolicySummary v) 500 False),
       require (0 \<le> te_At v \<and> te_At v \<le> int maxJSONSafeInteger) (field @ '' has invalid event time''),
       require (te_Progress v \<le> 100 \<and> json_safe (te_ProgressSequence v)) (field @ '' progress must not exceed 100''),
       require (\<not> (te_ExecutionConfirmed v \<and> (\<not> te_Terminal v \<or> te_Status v \<noteq> OperationSucceeded)))
         (field @ '' has contradictory execution confirmation''),
       require (\<not> (te_ReconciliationPending v \<and> (te_Terminal v \<or> te_Status v \<noteq> OperationOutcomeUnknown)))
         (field @ '' has contradictory reconciliation state''),
       require (te_OutcomeCode v = [] \<or> te_OutcomeCode v = operation_status_string (te_Status v))
         (field @ '' outcome code does not match status''),
       validate_matched_rules field (te_MatchedRuleIDs v),
       require (te_PolicyDisposition v \<in> {'''', policy_result_string Allow, policy_result_string Deny,
                                           policy_result_string RequireConfirmation})
         (field @ '' has unsupported policy disposition''),
       require (\<not> (te_ConfirmationPending v \<and> (te_PolicyDisposition v \<noteq> policy_result_string RequireConfirmation
                                              \<or> te_Status v \<noteq> OperationAwaitingConfirmation)))
         (field @ '' has contradictory confirmation state'')]"

definition previous_sequence :: "operation_timeline_event list \<Rightarrow> u64" where
  "previous_sequence seen = (if seen = [] then 0 else te_Sequence (last seen))"

definition validateOperationTimeline :: "operation_timeline_event list \<Rightarrow> u64 \<Rightarrow> string option" where
  "validateOperationTimeline values truncatedBefore =
     first_err [
       require (length values \<le> maxOperationTimelineEvents) ''operation timeline exceeds its event limit'',
       require (\<not> (values = [] \<and> truncatedBefore \<noteq> 0)) ''empty operation timeline has a truncation cursor'',
       loop_err (\<lambda>j seen v. validate_timeline_event (''timeline['' @ format_nat j @ '']'') (previous_sequence seen) v) [] values,
       require (\<not> (values \<noteq> [] \<and> te_Sequence (hd values) \<le> truncatedBefore))
         ''operation timeline truncation cursor is invalid'']"

definition validateOperationTimelineSequences :: "(string, operation_state) gomap \<Rightarrow> u64 \<Rightarrow> string option" where
  "validateOperationTimelineSequences operations checkpoint =
     loop_err (\<lambda>j seen sequence. first_err [
         require (sequence \<le> checkpoint) ''operation timeline sequence exceeds checkpoint'',
         require (sequence \<notin> set seen) ''operation timeline sequence is duplicated''])
       [] (concat (map (\<lambda>(i, op). map te_Sequence (op_timeline op)) operations))"

definition validatePersistedControllerLease :: "controller_lease \<Rightarrow> string option" where
  "validatePersistedControllerLease v =
     first_err [
       as_text (control_validateID ''lease_id'' (cl_LeaseID v)),
       as_text (control_validateID ''controller_id'' (cl_ControllerID v)),
       as_text (control_validateID ''principal_id'' (cl_PrincipalID v)),
       as_text (validateActorControlTarget (ActorControlTarget (cl_HostID v) (cl_WorldID v) (cl_ActorID v))),
       require (cl_Source v = DecisionInternal \<or> cl_Source v = DecisionExternal) ''unsupported controller source'',
       require (cl_PersonaMode v = PersonaCharacterBound \<or> cl_PersonaMode v = PersonaAgentAvatar)
         ''unsupported controller persona mode'',
       require (\<not> (cl_Source v = DecisionInternal \<and> cl_PersonaMode v \<noteq> PersonaCharacterBound))
         ''internal controller must be character-bound'',
       require (positive_json_safe (cl_AuthorityRevision v)) ''invalid controller authority revision'',
       map_option error_text (Epoch_Validate (cl_Epoch v) ''epoch''),
       require (ep_WorldID (cl_Epoch v) = cl_WorldID v) ''controller epoch does not match world_id'',
       require (0 \<le> cl_AcquiredAt v \<and> cl_AcquiredAt v < cl_ExpiresAt v \<and> cl_ExpiresAt v \<le> int maxJSONSafeInteger)
         ''invalid controller lease timestamps'']"

definition validatePersistedEmergencyStop :: "actor_emergency_stop \<Rightarrow> string option" where
  "validatePersistedEmergencyStop v =
     first_err [
       as_text (validateActorControlTarget (es_Target v)),
       require (positive_json_safe (es_Revision v)) ''invalid emergency stop revision'',
       as_text (control_validateID ''updated_by_principal_id'' (es_UpdatedBy v)),
       require (0 \<le> es_UpdatedAt v \<and> es_UpdatedAt v \<le> int maxJSONSafeInteger) ''invalid emergency stop timestamp'']"

subsection \<open>One operation\<close>

text \<open>
  The operation that the stored fields give; its status and rejection are set by \<open>restored_status\<close>. The relations between
  the stored fields are checked on it, they do not read the fields that are not stored.
\<close>

definition stored_operation :: "persisted_operation \<Rightarrow> operation_state" where
  "stored_operation v =
     \<lparr>op_persistenceRevision = 0, op_request = po_Request v, op_status = po_Status v, op_attempts = po_Attempts v,
      op_cancel = po_Cancel v, op_ack = po_Ack v, op_run = po_Run v, op_outcome = po_Outcome v,
      op_outcomeDelivery = po_OutcomeDelivery v, op_output = po_Output v, op_rejection = no_acknowledgement,
      op_idempotency = operationIdempotencyKey (po_Request v), op_createdAt = po_CreatedAt v, op_updatedAt = po_UpdatedAt v,
      op_children = [], op_timeline = po_Timeline v, op_timelineTruncatedBefore = po_TimelineTruncatedBefore v\<rparr>"

definition validate_evidence :: "persisted_operation \<Rightarrow> string option" where
  "validate_evidence v =
     (let i = hc_OperationID (po_Request v) in
      first_err [
        (case po_Ack v of
           None \<Rightarrow> None
         | Some ack \<Rightarrow> first_err [
             map_option (\<lambda>e. ''ack: '' @ control_error_text e) (validateAcknowledgement ack),
             require (ha_OperationID ack = i) ''ack operation_id does not match request'']),
        (case po_Run v of
           None \<Rightarrow> None
         | Some run \<Rightarrow> first_err [
             map_option (\<lambda>e. ''run: '' @ error_text e) (ValidateActionRun run),
             require (ar_OperationID run = i) ''run operation_id does not match request'']),
        (case po_Outcome v of
           None \<Rightarrow> None
         | Some o' \<Rightarrow> first_err [
             map_option (\<lambda>e. ''outcome: '' @ error_text e) (ValidateActionOutcome o'),
             require (ao_OperationID o' = i) ''outcome operation_id does not match request''])])"

definition restoreOperation :: "go_env \<Rightarrow> persisted_operation \<Rightarrow> string + operation_state" where
  "restoreOperation env v =
     (let op = stored_operation v in
      guard_err (first_err [
          validateStoredRequest env (po_Request v),
          require (validOperationStatus (po_Status v)) ''unsupported operation status'',
          require (0 \<le> po_CreatedAt v \<and> po_CreatedAt v \<le> po_UpdatedAt v \<and> po_UpdatedAt v \<le> int maxJSONSafeInteger)
            ''invalid operation timestamps'',
          validate_evidence v,
          require (length (po_OutcomeDelivery v) \<le> maxOutcomeSubscribers
                   \<and> (po_OutcomeDelivery v = [] \<or> po_Outcome v \<noteq> None \<and> hc_ActionRequest (po_Request v) \<noteq> None))
            ''invalid outcome delivery state'',
          loop_err (\<lambda>j seen (subscriber, delivered). as_text (control_validateID ''outcome subscriber'' subscriber)) []
            (po_OutcomeDelivery v),
          as_text (validateOperationOutput env (po_Output v)),
          validatePersistedOperationRelations op,
          validateOperationTimeline (po_Timeline v) (po_TimelineTruncatedBefore v)])
        (Inr (op\<lparr>op_status := fst (restored_status op), op_rejection := snd (restored_status op)\<rparr>)))"

subsection \<open>The parent relation\<close>

text \<open>
  \<open>parent_walk\<close> is the inner loop of \<open>validateOperationParentGraph\<close>: it follows parents until it reaches an operation
  known to be complete, the end of the chain, or an operation of the chain itself (\<open>None\<close>).
\<close>

function parent_walk :: "(string, operation_state) gomap \<Rightarrow> string list \<Rightarrow> string list \<Rightarrow> string \<Rightarrow> string list option" where
  "parent_walk operations complete chain current =
     (if current = [] \<or> current \<in> set complete then Some chain
      else if current \<in> set chain then None
      else case map_of operations current of
        None \<Rightarrow> Some (current # chain)
      | Some op \<Rightarrow> parent_walk operations complete (current # chain) (hc_ParentOperationID (op_request op)))"
  by pat_completeness auto
termination
proof (relation "measure (\<lambda>(operations, complete, chain, current). card (dom (map_of operations) - set chain))", goal_cases)
  case (2 operations complete chain current op)
  then have "dom (map_of operations) - set (current # chain) \<subset> dom (map_of operations) - set chain"
    by (auto simp: dom_def)
  then show ?case
    by (simp add: finite_dom_map_of psubset_card_mono)
qed simp

fun parent_graph_loop :: "(string, operation_state) gomap \<Rightarrow> string list \<Rightarrow> string list \<Rightarrow> string option" where
  "parent_graph_loop operations complete [] = None"
| "parent_graph_loop operations complete (i # is) =
     (case parent_walk operations complete [] i of
        None \<Rightarrow> Some ''operation parent relation contains a cycle''
      | Some chain \<Rightarrow> parent_graph_loop operations (chain @ complete) is)"

definition validateOperationParentGraph :: "(string, operation_state) gomap \<Rightarrow> string option" where
  "validateOperationParentGraph operations = parent_graph_loop operations [] (map fst operations)"

subsection \<open>The whole store\<close>

definition persistence_error :: "string \<Rightarrow> control_error" where
  "persistence_error detail = ControlError ErrPersistence detail"

definition operationPolicyReservationPending :: "operation_status \<Rightarrow> bool" where
  "operationPolicyReservationPending status \<longleftrightarrow>
     status \<in> {OperationQueued, OperationDelivered, OperationAccepted, OperationRunning}"

fun restore_loop :: "go_env \<Rightarrow> nat \<Rightarrow> persisted_operation list \<Rightarrow> service \<Rightarrow> control_error + service" where
  "restore_loop env index [] s = Inr s"
| "restore_loop env index (v # vs) s =
     (case restoreOperation env v of
        Inl e \<Rightarrow> Inl (persistence_error (''operations['' @ format_nat index @ '']: '' @ e))
      | Inr op \<Rightarrow>
          let i = hc_OperationID (op_request op); op' = queue_outcome (sv_outcomeSinks s) op in
          if map_of (sv_operations s) i \<noteq> None then Inl (persistence_error (''duplicate operation_id '' @ quoted i))
          else if map_of (sv_requests s) (op_idempotency op) \<noteq> None
          then Inl (persistence_error ''duplicate principal request_id'')
          else if length (op_outcomeDelivery op') > maxOutcomeSubscribers
          then Inl (persistence_error (''operations['' @ format_nat index @ ''] exceeds outcome subscriber limit after configuration change''))
          else
            let s1 = put_operation i op' (queueOutcomeDeliveryLocked i op s) in
            restore_loop env (Suc index) vs (s1\<lparr>sv_requests := AList.update (op_idempotency op) i (sv_requests s1)\<rparr>))"

definition validate_reserved_decisions :: "persisted_operations \<Rightarrow> control_error option" where
  "validate_reserved_decisions state =
     (case ps_PolicyState state of
        None \<Rightarrow> None
      | Some policy \<Rightarrow>
          let allowed = List.map_filter (\<lambda>v. map_option (\<lambda>d. (po_Status v, d)) (allowed_decision (po_Request v))) (ps_Operations state);
              actionDecisionIDs = map (\<lambda>(status, d). de_DecisionID d) allowed;
              required = map (\<lambda>(status, d). de_DecisionID d)
                (filter (\<lambda>(status, d). de_EffectiveLimits d \<noteq> [] \<and> operationPolicyReservationPending status) allowed);
              reserved = map rc_DecisionID (st_Reservations policy)
          in first_err [
            loop_err (\<lambda>j seen i. require (i \<in> set actionDecisionIDs)
               (persistence_error (''policy reservation '' @ quoted i @ '' has no matching V2 action''))) [] reserved,
            loop_err (\<lambda>j seen i. require (i \<in> set reserved)
               (persistence_error (''active V2 action decision '' @ quoted i @ '' is missing its policy reservation''))) [] required])"

definition parent_matches :: "operation_state \<Rightarrow> operation_state \<Rightarrow> bool" where
  "parent_matches parent op \<longleftrightarrow>
     hc_HostID (op_request parent) = hc_HostID (op_request op) \<and> hc_WorldID (op_request parent) = hc_WorldID (op_request op)
     \<and> hc_ActorID (op_request parent) = hc_ActorID (op_request op)
     \<and> pr_ID (hc_Principal (op_request parent)) = pr_ID (hc_Principal (op_request op))
     \<and> controllerLeaseID (hc_Binding (op_request parent)) = controllerLeaseID (hc_Binding (op_request op))"

text \<open>The loop that rebuilds the children of every operation.\<close>

fun adopt_loop :: "string list \<Rightarrow> service \<Rightarrow> control_error + service" where
  "adopt_loop [] s = Inr s"
| "adopt_loop (i # is) s =
     (case map_of (sv_operations s) i of
        None \<Rightarrow> adopt_loop is s
      | Some op \<Rightarrow>
          let parentID = hc_ParentOperationID (op_request op) in
          if parentID = [] then adopt_loop is s
          else case map_of (sv_operations s) parentID of
            None \<Rightarrow> Inl (persistence_error ''invalid parent operation relation'')
          | Some parent \<Rightarrow>
              if \<not> parent_matches parent op then Inl (persistence_error ''invalid parent operation relation'')
              else if length (op_children parent) \<ge> maxChildOperations
              then Inl (persistence_error ''parent has too many child operations'')
              else adopt_loop is (put_operation parentID
                     (parent\<lparr>op_children := op_children parent @ [hc_OperationID (op_request op)]\<rparr>) s))"

definition created_at :: "service \<Rightarrow> string \<Rightarrow> int" where
  "created_at s i = (case map_of (sv_operations s) i of None \<Rightarrow> 0 | Some op \<Rightarrow> op_createdAt op)"

definition sort_children :: "service \<Rightarrow> service" where
  "sort_children s =
     s\<lparr>sv_operations := map (\<lambda>(i, op). (i, op\<lparr>op_children := sort_key (\<lambda>c. (created_at s c, c)) (op_children op)\<rparr>))
                          (sv_operations s)\<rparr>"

definition lease_target :: "controller_lease \<Rightarrow> actor_control_target" where
  "lease_target l = ActorControlTarget (cl_HostID l) (cl_WorldID l) (cl_ActorID l)"

fun restore_controllers :: "int \<Rightarrow> nat \<Rightarrow> string list \<Rightarrow> controller_lease list \<Rightarrow> service \<Rightarrow> control_error + service" where
  "restore_controllers now index leaseIDs [] s = Inr s"
| "restore_controllers now index leaseIDs (l # ls) s =
     (case validatePersistedControllerLease l of
        Some e \<Rightarrow> Inl (persistence_error (''controller_leases['' @ format_nat index @ '']: '' @ e))
      | None \<Rightarrow>
          if map_of (sv_controllers s) (lease_target l) \<noteq> None then Inl (persistence_error ''duplicate controller actor'')
          else if cl_LeaseID l \<in> set leaseIDs then Inl (persistence_error ''duplicate controller lease_id'')
          else restore_controllers now (Suc index) (cl_LeaseID l # leaseIDs) ls
                 (if now < cl_ExpiresAt l then s\<lparr>sv_controllers := AList.update (lease_target l) l (sv_controllers s)\<rparr> else s))"

fun restore_stops :: "nat \<Rightarrow> actor_emergency_stop list \<Rightarrow> service \<Rightarrow> control_error + service" where
  "restore_stops index [] s = Inr s"
| "restore_stops index (e # es) s =
     (case validatePersistedEmergencyStop e of
        Some x \<Rightarrow> Inl (persistence_error (''emergency_stops['' @ format_nat index @ '']: '' @ x))
      | None \<Rightarrow>
          if map_of (sv_emergencyStops s) (es_Target e) \<noteq> None then Inl (persistence_error ''duplicate emergency stop actor'')
          else restore_stops (Suc index) es
                 (s\<lparr>sv_emergencyStops := AList.update (es_Target e) e (sv_emergencyStops s)\<rparr>))"

text \<open>A checkpoint of an older policy revision is rebased onto the active one.\<close>

definition restorePolicyState :: "engine \<Rightarrow> policy_state \<Rightarrow> policy_error + engine \<times> bool" where
  "restorePolicyState en state =
     (let active = SnapshotStateFor en [];
          older = st_PolicyRevision state < st_PolicyRevision active;
          rebased = (if older then state\<lparr>st_PolicyRevision := st_PolicyRevision active, st_ConfigDigest := st_ConfigDigest active\<rparr>
                     else state)
      in case RestoreState en rebased of (Some e, en') \<Rightarrow> Inl e | (None, en') \<Rightarrow> Inr (en', older))"

definition restore_policy :: "policy_state option \<Rightarrow> service \<Rightarrow> control_error + service" where
  "restore_policy state s =
     (case (state, sv_policyEngine s) of
        (Some policy, Some en) \<Rightarrow>
          (case restorePolicyState en policy of
             Inl e \<Rightarrow> Inl (persistence_error (''restore policy state: '' @ policy_error_text e))
           | Inr (en', migrated) \<Rightarrow>
               Inr (s\<lparr>sv_policyEngine := Some en', sv_checkpointDirty := sv_checkpointDirty s \<or> migrated\<rparr>))
      | _ \<Rightarrow> Inr s)"

definition settlement :: "operation_state \<Rightarrow> bool option" where
  "settlement op =
     (if allowed_decision (op_request op) = None then None
      else if op_status op \<in> {OperationSucceeded, OperationOutcomeUnknown} then Some True
      else if op_status op \<in> {OperationFailed, OperationCancelled, OperationInterrupted, OperationStale, OperationRejected}
      then Some False else None)"

definition settle_restored :: "service \<Rightarrow> service" where
  "settle_restored s =
     fold (\<lambda>(i, op) s. case settlement op of None \<Rightarrow> s | Some committed \<Rightarrow> finalizeOperationPolicyLocked op committed s)
       (sv_operations s) s"

definition touch_restored :: "int \<Rightarrow> persisted_operation list \<Rightarrow> string \<Rightarrow> service \<Rightarrow> service" where
  "touch_restored now values i s =
     (case map_of (sv_operations s) i of
        None \<Rightarrow> s
      | Some op \<Rightarrow>
          recordOperationTimelineLocked i
            (if map_of (map (\<lambda>v. (hc_OperationID (po_Request v), po_Status v)) values) i = Some (op_status op) then s
             else put_operation i (op\<lparr>op_updatedAt := now\<rparr>) s))"

definition restore_finish :: "int \<Rightarrow> persisted_operation list \<Rightarrow> service \<Rightarrow> service" where
  "restore_finish now values s =
     (if values = [] then s
      else let s1 = settle_restored s in
           (fold (touch_restored now values) (map fst (sv_operations s1)) s1)\<lparr>sv_operationDirty := True\<rparr>)"

definition validate_store :: "service \<Rightarrow> persisted_operations \<Rightarrow> control_error option" where
  "validate_store s state =
     first_err [
       require (unat (ps_TimelineSequence state) < maxJSONSafeInteger) (persistence_error ''operation timeline sequence is invalid''),
       require (length (ps_Operations state) \<le> sv_maxOperations s)
         (persistence_error (''state contains '' @ format_nat (length (ps_Operations state)) @
            '' operations above configured limit '' @ format_nat (sv_maxOperations s))),
       (case ps_PolicyState state of
          None \<Rightarrow> None
        | Some policy \<Rightarrow>
            first_err [
              require (sv_policyEngine s \<noteq> None) (persistence_error ''policy state requires a configured Policy Engine''),
              map_option (\<lambda>e. persistence_error (''validate policy state: '' @ policy_error_text e)) (ValidateState policy)])]"

definition restoreOperations :: "go_env \<Rightarrow> int \<Rightarrow> service \<Rightarrow> persisted_operations \<Rightarrow> control_error + service" where
  "restoreOperations env now s state =
     guard_err (validate_store s state)
       (ebind (restore_loop env 0 (ps_Operations state) (s\<lparr>sv_timelineSequence := ps_TimelineSequence state\<rparr>)) (\<lambda>s1.
        guard_err (map_option persistence_error (validateOperationTimelineSequences (sv_operations s1) (sv_timelineSequence s1)))
       (guard_err (require (ps_Operations state = [] \<or> sv_policyEngine s1 \<noteq> None \<and> ps_PolicyState state \<noteq> None)
          (persistence_error ''V2 actions require persisted policy state''))
       (guard_err (validate_reserved_decisions state)
       (ebind (adopt_loop (map fst (sv_operations s1)) s1) (\<lambda>s2.
        guard_err (map_option persistence_error (validateOperationParentGraph (sv_operations s2)))
       (ebind (restore_controllers now 0 [] (ps_Controllers state) (sort_children s2)) (\<lambda>s3.
        ebind (restore_stops 0 (ps_EmergencyStops state) s3) (\<lambda>s4.
        ebind (restore_policy (ps_PolicyState state) s4) (\<lambda>s5.
        Inr (restore_finish now (ps_Operations state) s5)))))))))))"

end
