(* ===== verification/Control_Recovery.thy ===== *)
theory Control_Recovery
  imports Control_Safety Control_Restore
begin

section \<open>What a restart keeps and what it refuses\<close>

text \<open>
  The phases of \<open>restoreOperations\<close> change the operations they rebuild only in their bookkeeping (\<open>mirrors\<close>), so that what
  holds of every accepted stored operation holds of the restored service.
\<close>

subsection \<open>The parent relation\<close>

definition parent_edges :: "(string, operation_state) gomap \<Rightarrow> (string \<times> string) set" where
  "parent_edges ops =
     {(i, j). i \<noteq> [] \<and> j \<noteq> [] \<and> (\<exists>op. map_of ops i = Some op \<and> hc_ParentOperationID (op_request op) = j)}"

abbreviation grounded :: "(string, operation_state) gomap \<Rightarrow> string set" where
  "grounded ops \<equiv> Wellfounded.acc ((parent_edges ops)\<inverse>)"

lemma groundedI: "(\<And>j. (i, j) \<in> parent_edges ops \<Longrightarrow> j \<in> grounded ops) \<Longrightarrow> i \<in> grounded ops"
  by (rule accI) simp

lemma grounded_end: "i = [] \<or> map_of ops i = None \<Longrightarrow> i \<in> grounded ops"
  by (rule groundedI) (auto simp: parent_edges_def)

lemma grounded_next:
  "map_of ops i = Some op \<Longrightarrow> hc_ParentOperationID (op_request op) \<in> grounded ops \<Longrightarrow> i \<in> grounded ops"
  by (rule groundedI) (auto simp: parent_edges_def)

declare parent_walk.simps [simp del]

lemma parent_walk_cases:
  assumes "current \<noteq> []" "current \<notin> set complete"
  shows "parent_walk ops complete chain current =
    (if current \<in> set chain then None
     else case map_of ops current of None \<Rightarrow> Some (current # chain)
       | Some op \<Rightarrow> parent_walk ops complete (current # chain) (hc_ParentOperationID (op_request op)))"
  using assms by (simp add: parent_walk.simps [of ops complete chain current])

lemma parent_walk_stop: "current = [] \<or> current \<in> set complete \<Longrightarrow> parent_walk ops complete chain current = Some chain"
  by (simp add: parent_walk.simps)

lemma parent_walk_grounded:
  assumes "parent_walk ops complete chain current = Some chain'" "set complete \<subseteq> grounded ops"
  shows "current \<in> grounded ops \<and> set chain' \<subseteq> set chain \<union> grounded ops \<and> (current = [] \<or> current \<in> set complete \<union> set chain')
    \<and> set chain \<subseteq> set chain'"
  using assms
proof (induction ops complete chain current rule: parent_walk.induct)
  case (1 ops complete chain current)
  show ?case
  proof (cases "current = [] \<or> current \<in> set complete")
    case True
    then have "current \<in> grounded ops" using "1.prems"(2) grounded_end by blast
    with True "1.prems"(1) show ?thesis by (auto simp: parent_walk_stop)
  next
    case False
    then have start: "current \<noteq> []" "current \<notin> set complete" by simp_all
    with "1.prems"(1) have fresh: "current \<notin> set chain" by (auto simp: parent_walk_cases split: if_splits)
    show ?thesis
    proof (cases "map_of ops current")
      case None
      with start fresh "1.prems"(1) grounded_end [of current ops] show ?thesis by (auto simp: parent_walk_cases)
    next
      case (Some op)
      let ?next = "hc_ParentOperationID (op_request op)"
      have walk: "parent_walk ops complete (current # chain) ?next = Some chain'"
        using "1.prems"(1) start fresh Some by (simp add: parent_walk_cases)
      from "1.IH" [OF False fresh Some this "1.prems"(2)]
      have rest: "?next \<in> grounded ops" "set chain' \<subseteq> set (current # chain) \<union> grounded ops" "set (current # chain) \<subseteq> set chain'"
        by auto
      with grounded_next [OF Some rest(1)] show ?thesis by auto
    qed
  qed
qed

lemma parent_walk_cycle:
  assumes "parent_walk ops complete chain current = None" "current \<noteq> [] \<Longrightarrow> \<forall>c \<in> set chain. (c, current) \<in> (parent_edges ops)\<^sup>+"
  shows "\<not> acyclic (parent_edges ops)"
  using assms
proof (induction ops complete chain current rule: parent_walk.induct)
  case (1 ops complete chain current)
  then have start: "\<not> (current = [] \<or> current \<in> set complete)" by (auto simp: parent_walk_stop)
  show ?case
  proof (cases "current \<in> set chain")
    case True
    with "1.prems"(2) start show ?thesis by (auto simp: acyclic_def)
  next
    case False
    with start "1.prems"(1) obtain op where op: "map_of ops current = Some op"
      by (cases "map_of ops current") (auto simp: parent_walk_cases)
    let ?next = "hc_ParentOperationID (op_request op)"
    have walk: "parent_walk ops complete (current # chain) ?next = None"
      using "1.prems"(1) start False op by (simp add: parent_walk_cases)
    have "\<forall>c \<in> set (current # chain). (c, ?next) \<in> (parent_edges ops)\<^sup>+" if "?next \<noteq> []"
    proof -
      have "(current, ?next) \<in> parent_edges ops" using that op start by (auto simp: parent_edges_def)
      with "1.prems"(2) start show ?thesis by (auto intro: trancl_into_trancl)
    qed
    then show ?thesis using "1.IH" [OF start False op walk] by blast
  qed
qed

lemma parent_graph_loop_grounded:
  assumes "parent_graph_loop ops complete is = None" "set complete \<subseteq> grounded ops"
  shows "set is \<subseteq> grounded ops"
  using assms
proof (induction ops complete "is" rule: parent_graph_loop.induct)
  case (2 ops complete i "is")
  then obtain chain where walk: "parent_walk ops complete [] i = Some chain" by (auto split: option.splits)
  from parent_walk_grounded [OF this "2.prems"(2)] have "i \<in> grounded ops" "set chain \<subseteq> grounded ops" by auto
  with 2 walk show ?case by simp
qed simp

lemma parent_graph_loop_cycle:
  "parent_graph_loop ops complete is = Some e \<Longrightarrow> \<not> acyclic (parent_edges ops)"
  by (induction ops complete "is" rule: parent_graph_loop.induct) (auto split: option.splits dest: parent_walk_cycle)

lemma parent_graph_acyclic: "validateOperationParentGraph ops = None \<longleftrightarrow> acyclic (parent_edges ops)"
proof
  assume "validateOperationParentGraph ops = None"
  then have ids: "fst ` set ops \<subseteq> grounded ops"
    unfolding validateOperationParentGraph_def using parent_graph_loop_grounded [of ops "[]" "map fst ops"] by simp
  have "i \<in> grounded ops" for i
  proof (cases "map_of ops i")
    case None
    then show ?thesis by (simp add: grounded_end)
  next
    case (Some op)
    then show ?thesis using ids by (metis domI dom_map_of_conv_image_fst subsetD)
  qed
  then have "wf ((parent_edges ops)\<inverse>)" by (simp add: wf_iff_acc)
  then show "acyclic (parent_edges ops)" by (metis acyclic_converse wf_acyclic)
next
  assume "acyclic (parent_edges ops)"
  then show "validateOperationParentGraph ops = None"
    unfolding validateOperationParentGraph_def using parent_graph_loop_cycle by (metis not_None_eq)
qed

subsection \<open>The phases of a restore\<close>

definition mirrors :: "service \<Rightarrow> service \<Rightarrow> bool" where
  "mirrors s s' \<longleftrightarrow> map fst (sv_operations s') = map fst (sv_operations s)
     \<and> (\<forall>i. rel_option same_execution (operation_at s i) (operation_at s' i))"

lemma rel_option_same_trans:
  "rel_option same_execution a b \<Longrightarrow> rel_option same_execution b c \<Longrightarrow> rel_option same_execution a c"
  by (cases a; cases b; cases c) (auto intro: same_execution_trans)

lemma mirrors_same: "sv_operations s' = sv_operations s \<Longrightarrow> mirrors s s'"
  by (simp add: mirrors_def option.rel_refl)

lemma mirrors_trans: "mirrors a b \<Longrightarrow> mirrors b c \<Longrightarrow> mirrors a c"
  unfolding mirrors_def using rel_option_same_trans by metis

lemma mirrors_put:
  assumes "operation_at s i = Some op" "same_execution op op'"
  shows "mirrors s (put_operation i op' s)"
proof -
  have "i \<in> fst ` set (sv_operations s)" using assms(1) by (metis domI dom_map_of_conv_image_fst)
  with assms show ?thesis by (auto simp: mirrors_def update_conv' update_keys option.rel_refl)
qed

lemma mirrors_record: "mirrors s (recordOperationTimelineLocked i s)"
  by (auto simp: mirrors_def keys_record operation_at_record option.rel_refl option.rel_map option.rel_refl_strong)

lemma mirrors_fold: "(\<And>x s. mirrors s (f x s)) \<Longrightarrow> mirrors s (fold f xs s)"
  by (induction xs arbitrary: s) (auto intro: mirrors_same mirrors_trans)

lemma mirrors_adopt: "adopt_loop is s = Inr s' \<Longrightarrow> mirrors s s'"
proof (induction "is" s rule: adopt_loop.induct)
  case (2 i "is" s)
  have put: "operation_at s k = Some parent \<Longrightarrow> mirrors s (put_operation k (parent\<lparr>op_children := cs\<rparr>) s)" for k parent cs
    by (erule mirrors_put) (simp add: same_execution_def)
  show ?case
  proof (cases "operation_at s i")
    case None
    with 2 show ?thesis by simp
  next
    case (Some op)
    show ?thesis
    proof (cases "hc_ParentOperationID (op_request op) = []")
      case True
      with 2 Some show ?thesis by (simp add: Let_def)
    next
      case False
      then obtain parent where parent: "operation_at s (hc_ParentOperationID (op_request op)) = Some parent" "parent_matches parent op"
        "\<not> maxChildOperations \<le> length (op_children parent)"
        using "2.prems" Some by (auto simp: Let_def split: option.splits if_splits)
      let ?s1 = "put_operation (hc_ParentOperationID (op_request op)) (parent\<lparr>op_children := op_children parent @ [op_id op]\<rparr>) s"
      have "adopt_loop is ?s1 = Inr s'" using "2.prems" Some False parent by (simp add: Let_def)
      then have "mirrors ?s1 s'" using "2.IH"(3) [OF Some refl False parent(1)] parent(2, 3) by simp
      then show ?thesis by (rule mirrors_trans [OF put [OF parent(1)]])
    qed
  qed
qed (simp add: mirrors_same)

lemma map_of_map_snd: "map_of (map (\<lambda>(i, x). (i, f x)) xs) i = map_option f (map_of xs i)"
  by (induction xs) auto

lemma mirrors_sort_children: "mirrors s (sort_children s)"
proof -
  have "map fst (sv_operations (sort_children s)) = map fst (sv_operations s)" by (auto simp: sort_children_def)
  moreover have "operation_at (sort_children s) i =
      map_option (\<lambda>op. op\<lparr>op_children := sort_key (\<lambda>c. (created_at s c, c)) (op_children op)\<rparr>) (operation_at s i)" for i
    by (simp add: sort_children_def map_of_map_snd)
  ultimately show ?thesis
    by (auto simp: mirrors_def option.rel_map same_execution_def intro!: option.rel_refl_strong)
qed

lemma controllers_keep_operations:
  "restore_controllers now n ids ls s = Inr s' \<Longrightarrow> sv_operations s' = sv_operations s \<and> sv_emergencyStops s' = sv_emergencyStops s"
  by (induction now n ids ls s rule: restore_controllers.induct) (auto split: option.splits if_splits)

lemma stops_keep_operations: "restore_stops n es s = Inr s' \<Longrightarrow> sv_operations s' = sv_operations s"
  by (induction n es s rule: restore_stops.induct) (auto split: option.splits if_splits)

lemma policy_keeps_operations:
  "restore_policy p s = Inr s' \<Longrightarrow> sv_operations s' = sv_operations s \<and> sv_emergencyStops s' = sv_emergencyStops s"
  by (auto simp: restore_policy_def split: option.splits sum.splits)

lemma settle_keeps_operations: "sv_operations (settle_restored s) = sv_operations s"
proof -
  have "sv_operations (fold (\<lambda>(i, op) s. case settlement op of None \<Rightarrow> s | Some committed \<Rightarrow> finalizeOperationPolicyLocked op committed s)
      xs s) = sv_operations s" for xs s
    by (induction xs arbitrary: s) (auto split: option.split)
  then show ?thesis by (simp add: settle_restored_def)
qed

lemma mirrors_touch: "mirrors s (touch_restored now values i s)"
proof (cases "operation_at s i")
  case (Some op)
  have "mirrors s (put_operation i (op\<lparr>op_updatedAt := now\<rparr>) s)"
    using Some by (rule mirrors_put) (simp add: same_execution_def)
  with Some show ?thesis
    by (auto simp: touch_restored_def intro: mirrors_trans mirrors_record)
qed (simp add: touch_restored_def mirrors_same)

lemma mirrors_finish: "mirrors s (restore_finish now values s)"
proof -
  have "mirrors s (fold (touch_restored now values) is (settle_restored s))" for "is"
    by (rule mirrors_trans [OF mirrors_same [OF settle_keeps_operations] mirrors_fold]) (rule mirrors_touch)
  from mirrors_trans [OF this mirrors_same] show ?thesis
    by (simp add: restore_finish_def Let_def mirrors_same)
qed

text \<open>The loop over the stored operations appends them, each under its identifier.\<close>

abbreviation restored_entry :: "string list \<Rightarrow> operation_state \<Rightarrow> string \<times> operation_state" where
  "restored_entry sinks op \<equiv> (op_id op, queue_outcome sinks op)"

lemma restore_loop_result:
  assumes "restore_loop env n vs s = Inr s'"
  shows "\<exists>ops. list_all2 (\<lambda>v op. restoreOperation env v = Inr op) vs ops
    \<and> sv_operations s' = sv_operations s @ map (restored_entry (sv_outcomeSinks s)) ops
    \<and> (map_ok (sv_operations s) \<longrightarrow> map_ok (sv_operations s'))
    \<and> sv_emergencyStops s' = sv_emergencyStops s \<and> sv_maxOperations s' = sv_maxOperations s"
  using assms
proof (induction env n vs s rule: restore_loop.induct)
  case (2 env n v vs s)
  obtain op where op: "restoreOperation env v = Inr op" using "2.prems" by (auto split: sum.splits)
  let ?op = "queue_outcome (sv_outcomeSinks s) op"
  let ?s1 = "put_operation (op_id op) ?op (queueOutcomeDeliveryLocked (op_id op) op s)"
  let ?s2 = "?s1\<lparr>sv_requests := AList.update (op_idempotency op) (op_id op) (sv_requests ?s1)\<rparr>"
  have fresh: "operation_at s (op_id op) = None" and rest: "restore_loop env (Suc n) vs ?s2 = Inr s'"
    and checks: "map_of (sv_requests s) (op_idempotency op) = None" "\<not> length (op_outcomeDelivery ?op) > maxOutcomeSubscribers"
    using "2.prems" op by (auto simp: Let_def split: if_splits)
  have twice: "AList.update i x (AList.update i x m) = AList.update i x m" for i :: string and x :: operation_state and m
    by (induction m) auto
  have ops: "sv_operations ?s2 = sv_operations s @ [restored_entry (sv_outcomeSinks s) op]"
    using fresh by (simp add: queueOutcomeDeliveryLocked_def Let_def twice update_fresh [symmetric])
  have same: "sv_outcomeSinks ?s2 = sv_outcomeSinks s" "sv_emergencyStops ?s2 = sv_emergencyStops s" "sv_maxOperations ?s2 = sv_maxOperations s"
    by (simp_all add: queueOutcomeDeliveryLocked_def Let_def put_operation_def markOperationsDirtyLocked_def notifyLocked_def)
  have "op_id op \<notin> fst ` set (sv_operations s)" using fresh by (simp add: map_of_eq_None_iff)
  then have ok: "map_ok (sv_operations s) \<Longrightarrow> map_ok (sv_operations ?s2)" by (simp add: ops)
  from "2.IH" [OF op refl refl _ _ _ refl rest] fresh checks obtain ops'
    where "list_all2 (\<lambda>v op. restoreOperation env v = Inr op) vs ops'"
      "sv_operations s' = sv_operations ?s2 @ map (restored_entry (sv_outcomeSinks ?s2)) ops'"
      "map_ok (sv_operations ?s2) \<longrightarrow> map_ok (sv_operations s')"
      "sv_emergencyStops s' = sv_emergencyStops ?s2" "sv_maxOperations s' = sv_maxOperations ?s2"
    by blast
  then show ?case
    using op ok by (intro exI [of _ "op # ops'"]) (simp only: ops same list_all2_Cons, simp)
qed auto

declare queue_outcome_same [simp]

lemma restoreOperations_operations:
  assumes "restoreOperations env now s0 state = Inr s" "sv_operations s0 = []"
  obtains ops where "list_all2 (\<lambda>v op. restoreOperation env v = Inr op) (ps_Operations state) ops"
    "map fst (sv_operations s) = map op_id ops" "distinct (map op_id ops)"
    "\<And>op. op \<in> set ops \<Longrightarrow> \<exists>op'. operation_at s (op_id op) = Some op' \<and> same_execution op op'"
    "length (ps_Operations state) \<le> sv_maxOperations s0" "acyclic (parent_edges (sv_operations s))"
proof -
  let ?s0 = "s0\<lparr>sv_timelineSequence := ps_TimelineSequence state\<rparr>"
  from assms(1) obtain s1 s2 s3 s4 s5 where size: "length (ps_Operations state) \<le> sv_maxOperations s0"
    and s1: "restore_loop env 0 (ps_Operations state) ?s0 = Inr s1"
    and s2: "adopt_loop (map fst (sv_operations s1)) s1 = Inr s2" and graph: "validateOperationParentGraph (sv_operations s2) = None"
    and s3: "restore_controllers now 0 [] (ps_Controllers state) (sort_children s2) = Inr s3"
    and s4: "restore_stops 0 (ps_EmergencyStops state) s3 = Inr s4" and s5: "restore_policy (ps_PolicyState state) s4 = Inr s5"
    and s: "s = restore_finish now (ps_Operations state) s5"
    unfolding restoreOperations_def guard_err_def ebind_def
    by (auto simp: validate_store_def first_err_None_iff split: option.splits sum.splits)
  have later: "mirrors s2 s"
    unfolding s using mirrors_trans [OF mirrors_sort_children [of s2] mirrors_same]
      controllers_keep_operations [OF s3] stops_keep_operations [OF s4] policy_keeps_operations [OF s5]
    by (metis mirrors_finish mirrors_trans)
  with mirrors_adopt [OF s2] have all: "mirrors s1 s" by (rule mirrors_trans)
  from restore_loop_result [OF s1] assms(2) obtain ops
    where ops: "list_all2 (\<lambda>v op. restoreOperation env v = Inr op) (ps_Operations state) ops"
      "sv_operations s1 = map (restored_entry (sv_outcomeSinks s0)) ops" "map_ok (sv_operations s1)" by auto
  have keys: "map fst (sv_operations s1) = map op_id ops" by (simp add: ops(2))
  have found: "\<exists>op'. operation_at s (op_id op) = Some op' \<and> same_execution op op'" if "op \<in> set ops" for op
  proof -
    have "operation_at s1 (op_id op) = Some (queue_outcome (sv_outcomeSinks s0) op)"
      using that ops(2, 3) by (intro map_of_is_SomeI) auto
    with all obtain op' where "operation_at s (op_id op) = Some op'" "same_execution (queue_outcome (sv_outcomeSinks s0) op) op'"
      unfolding mirrors_def by (metis option_rel_Some1)
    then show ?thesis using same_execution_trans [OF queue_outcome_same] by blast
  qed
  have same_parent: "rel_option same_execution (operation_at s2 i) (operation_at s i)" for i using later by (simp add: mirrors_def)
  have "parent_edges (sv_operations s) = parent_edges (sv_operations s2)"
  proof -
    have "(\<exists>op. operation_at s i = Some op \<and> hc_ParentOperationID (op_request op) = j)
        \<longleftrightarrow> (\<exists>op. operation_at s2 i = Some op \<and> hc_ParentOperationID (op_request op) = j)" for i j
      using same_parent [of i] by (cases "operation_at s2 i"; cases "operation_at s i") (auto simp: same_execution_def)
    then show ?thesis by (simp add: parent_edges_def)
  qed
  then have "acyclic (parent_edges (sv_operations s))" using graph by (simp add: parent_graph_acyclic)
  moreover have "map fst (sv_operations s) = map op_id ops" using all keys by (simp add: mirrors_def)
  moreover have "distinct (map op_id ops)" using ops(3) keys by simp
  ultimately show thesis using that [OF ops(1) _ _ found size] by simp
qed

lemma list_all2_member:
  assumes "list_all2 P xs ys"
  shows "x \<in> set xs \<Longrightarrow> \<exists>y \<in> set ys. P x y" and "y \<in> set ys \<Longrightarrow> \<exists>x \<in> set xs. P x y"
  using assms by (induction rule: list_all2_induct) auto

lemma restored_operation:
  assumes "restoreOperations env now s0 state = Inr s" "sv_operations s0 = []" "operation_at s i = Some op"
  obtains v op0 where "v \<in> set (ps_Operations state)" "restoreOperation env v = Inr op0" "op_id op0 = i" "same_execution op0 op"
proof -
  from assms(1, 2) obtain ops where ops: "list_all2 (\<lambda>v op. restoreOperation env v = Inr op) (ps_Operations state) ops"
    "map fst (sv_operations s) = map op_id ops"
    "\<And>op. op \<in> set ops \<Longrightarrow> \<exists>op'. operation_at s (op_id op) = Some op' \<and> same_execution op op'"
    by (rule restoreOperations_operations) blast
  have "i \<in> fst ` set (sv_operations s)" using assms(3) by (metis domI dom_map_of_conv_image_fst)
  then have "i \<in> set (map op_id ops)" using ops(2) by (metis set_map)
  then obtain op0 where op0: "op0 \<in> set ops" "op_id op0 = i" by auto
  then obtain v where "v \<in> set (ps_Operations state)" "restoreOperation env v = Inr op0"
    using list_all2_member(2) [OF ops(1)] by blast
  moreover have "same_execution op0 op" using ops(3) [OF op0(1)] op0(2) assms(3) by simp
  ultimately show thesis using that op0(2) by blast
qed

lemma restored_value:
  assumes "restoreOperations env now s0 state = Inr s" "sv_operations s0 = []" "v \<in> set (ps_Operations state)"
  obtains op0 op where "restoreOperation env v = Inr op0" "operation_at s (op_id op0) = Some op" "same_execution op0 op"
proof -
  from assms(1, 2) obtain ops where ops: "list_all2 (\<lambda>v op. restoreOperation env v = Inr op) (ps_Operations state) ops"
    "\<And>op. op \<in> set ops \<Longrightarrow> \<exists>op'. operation_at s (op_id op) = Some op' \<and> same_execution op op'"
    by (rule restoreOperations_operations) blast
  obtain op0 where "op0 \<in> set ops" "restoreOperation env v = Inr op0"
    using list_all2_member(1) [OF ops(1) assms(3)] by blast
  with ops(2) that show thesis by blast
qed

subsection \<open>What an accepted stored operation looks like\<close>

lemma restoreOperation_valid:
  assumes "restoreOperation env v = Inr op"
  shows "validatePersistedOperationRelations (stored_operation v) = None"
    and "op = (stored_operation v)\<lparr>op_status := fst (restored_status (stored_operation v)),
           op_rejection := snd (restored_status (stored_operation v))\<rparr>"
    and "\<And>r. po_Run v = Some r \<Longrightarrow> ValidateActionRun r = None" "\<And>oc. po_Outcome v = Some oc \<Longrightarrow> ValidateActionOutcome oc = None"
  using assms unfolding restoreOperation_def Let_def
  by (auto simp: guard_err_def validate_evidence_def Let_def simp del: first_err.simps split: option.splits)
    (auto simp: validate_evidence_def Let_def split: option.splits)

lemma stored_fields [simp]:
  "op_request (stored_operation v) = po_Request v" "op_status (stored_operation v) = po_Status v"
  "op_attempts (stored_operation v) = po_Attempts v" "op_ack (stored_operation v) = po_Ack v" "op_run (stored_operation v) = po_Run v"
  "op_outcome (stored_operation v) = po_Outcome v" "op_output (stored_operation v) = po_Output v" "op_cancel (stored_operation v) = po_Cancel v"
  by (simp_all add: stored_operation_def)

lemma valid_run: "ValidateActionRun r = None \<Longrightarrow> validActionRunStatus (ar_Status r)"
  by (simp add: ValidateActionRun_def)

lemma valid_outcome: "ValidateActionOutcome oc = None \<Longrightarrow> isTerminalActionRunStatus (ao_Status oc)"
  by (simp add: ValidateActionOutcome_def)

lemma restored_consistent:
  assumes "validatePersistedOperationRelations op = None"
    and "\<And>r. op_run op = Some r \<Longrightarrow> validActionRunStatus (ar_Status r)"
    and "\<And>oc. op_outcome op = Some oc \<Longrightarrow> isTerminalActionRunStatus (ao_Status oc)"
  shows "consistent (op\<lparr>op_status := fst (restored_status op), op_rejection := x\<rparr>)"
proof -
  obtain d where d: "hc_PolicyDecision (op_request op) = Some d"
    using assms(1) by (auto simp: validatePersistedOperationRelations_def split: option.splits)
  show ?thesis
  proof (cases "de_Result d")
    case Allow
    then have rel: "validate_allowed_relations op = None" and denied: "denied_decision op = None"
      using assms(1) d by (auto simp: validatePersistedOperationRelations_def denied_decision_def split: if_splits)
    have "allowed_consistent (op\<lparr>op_status := fst (restored_status op), op_rejection := x\<rparr>)"
    proof (cases "op_ack op")
      case None
      then show ?thesis using rel denied
        by (auto simp: validate_allowed_relations_def allowed_consistent_def restored_status_def accepted_ack_def)
    next
      case (Some ack)
      show ?thesis
      proof (cases "accepted_ack op")
        case False
        with rel Some show ?thesis by (auto simp: validate_allowed_relations_def allowed_consistent_def restored_status_def accepted_ack_def)
      next
        case True
        with rel Some denied assms(2, 3) show ?thesis
          by (cases "op_outcome op"; cases "hc_Binding (op_request op)")
            (auto simp: validate_allowed_relations_def allowed_consistent_def restored_status_def accepted_ack_def accepted_statuses_def
              outcome_fits_def not_less)
      qed
    qed
    with d Allow show ?thesis by (simp add: consistent_def)
  qed (use assms(1) d in \<open>auto simp: validatePersistedOperationRelations_def consistent_def restored_status_def denied_decision_def
    no_execution_def accepted_ack_def\<close>)
qed

lemma restored_status_idle:
  assumes "op_outcome op = None"
  shows "fst (restored_status op) \<notin> {OperationQueued, OperationAwaitingConfirmation, OperationDelivered, OperationRunning}
    \<and> (fst (restored_status op) = OperationAccepted \<longrightarrow> accepted_ack op)"
  using assms by (auto simp: restored_status_def split: if_splits)

lemma stored_run_matches:
  assumes "validatePersistedOperationRelations op = None" "op_run op = Some r" "op_outcome op = None"
  shows "op_status op = operationStatusFromRun (ar_Status r) \<and> accepted_ack op"
proof -
  obtain d where d: "hc_PolicyDecision (op_request op) = Some d"
    using assms(1) by (auto simp: validatePersistedOperationRelations_def split: option.splits)
  then have "validate_allowed_relations op = None"
    using assms by (cases "de_Result d") (auto simp: validatePersistedOperationRelations_def no_execution_def split: if_splits)
  with assms(2, 3) show ?thesis by (auto simp: validate_allowed_relations_def split: if_splits)
qed


subsection \<open>What is written\<close>

lemma complete_kept:
  assumes "keyed s" "operation_at s i = Some op" "completeOperation op"
  shows "operation_at (expireControllersLocked now s) i = Some op"
proof -
  have fence: "operation_at (fenceControllerOperationsLocked l now s) i = Some op" if "keyed s" "operation_at s i = Some op" for l and s :: service
    using operation_at_for_operations [OF that, of "fence_controller_step l now"] assms(3)
    by (auto simp: fenceControllerOperationsLocked_def fence_controller_step_def split: option.splits if_splits)
  have one: "operation_at (expireControllerLocked k now s) i = Some op \<and> keyed (expireControllerLocked k now s)"
    if "keyed s" "operation_at s i = Some op" for k and s :: service
  proof -
    have "keyed (s\<lparr>sv_controllers := c\<rparr>)" "operation_at (s\<lparr>sv_controllers := c\<rparr>) i = Some op" for c
      using that by (simp_all add: keyed_def)
    from fence [OF this] show ?thesis
      using that advances_expireController [of s k now]
      by (auto simp: expireControllerLocked_def invalidateControllerLocked_def advances_def split: option.splits)
  qed
  have "operation_at (fold (\<lambda>key. expireControllerLocked key now) ks s) i = Some op" for ks
    using assms(1, 2) by (induction ks arbitrary: s) (simp_all add: one)
  then show ?thesis by (simp add: expireControllersLocked_def)
qed

lemma written_value:
  assumes "operation_at (expireControllersLocked now s) i = Some op"
  shows "persistedOperationValue op \<in> set (ps_Operations (fst (writeOperationsLocked now s)))"
  using map_of_SomeD [OF assms] by (auto simp: writeOperationsLocked_def persistedOperationsLocked_def Let_def intro: rev_image_eqI)


lemma stored_value [simp]:
  "stored_operation (persistedOperationValue op) =
     op\<lparr>op_persistenceRevision := 0, op_rejection := no_acknowledgement, op_idempotency := operationIdempotencyKey (op_request op),
       op_children := []\<rparr>"
  by (simp add: stored_operation_def persistedOperationValue_def)

lemma restored_status_cong [simp]:
  "restored_status (op\<lparr>op_persistenceRevision := n, op_rejection := r, op_idempotency := k, op_children := c\<rparr>) = restored_status op"
  by (simp add: restored_status_def denied_decision_def accepted_ack_def)


subsection \<open>Emergency stops\<close>









subsection \<open>Restarts\<close>

lemma new_service_empty [simp]: "sv_operations (newService m ttl en sinks) = []" "sv_emergencyStops (newService m ttl en sinks) = []"
  by (simp_all add: newService_def Let_def)

text \<open>
  C6: whatever a store contains, a service that accepts it is sound: every operation is stored under its own identifier and
  satisfies the invariant of operations, none waits for delivery, for a confirmation or for the end of a run, only work that a
  Host has accepted can be delivered again, no operation is its own ancestor and there are at most as many operations as the
  configuration allows.
\<close>

theorem restored_service_is_sound:
  assumes "restoreOperations env now (newService m ttl en sinks) state = Inr s"
  shows "(\<forall>i op. operation_at s i = Some op \<longrightarrow>
      hc_OperationID (op_request op) = i \<and> consistent op
      \<and> op_status op \<notin> {OperationQueued, OperationDelivered, OperationAwaitingConfirmation, OperationRunning}
      \<and> (deliverable op \<longrightarrow> accepted_ack op))
    \<and> acyclic (parent_edges (sv_operations s)) \<and> length (sv_operations s) \<le> sv_maxOperations (newService m ttl en sinks)"
proof (intro conjI allI impI)
  fix i op assume op: "operation_at s i = Some op"
  from restored_operation [OF assms new_service_empty(1) op] obtain v op0
    where v: "restoreOperation env v = Inr op0" "op_id op0 = i" and same: "same_execution op0 op" by blast
  show "hc_OperationID (op_request op) = i" using same v(2) by (simp add: same_execution_def)
  note valid = restoreOperation_valid [OF v(1)]
  have "consistent op0"
    unfolding valid(2) using valid(1, 3, 4) valid_run valid_outcome by (intro restored_consistent) simp_all
  then show consistent: "consistent op" using same_execution_consistent [OF same] by simp
  have status: "op_status op = fst (restored_status (stored_operation v))" "op_outcome op = po_Outcome v" "op_ack op = po_Ack v"
    using same unfolding valid(2) by (simp_all add: same_execution_def)
  have idle: "op_status op \<notin> {OperationQueued, OperationDelivered, OperationAwaitingConfirmation, OperationRunning}
      \<and> (op_status op = OperationAccepted \<longrightarrow> accepted_ack op)"
  proof (cases "po_Outcome v")
    case None
    then show ?thesis using restored_status_idle [of "stored_operation v"] status by (auto simp: accepted_ack_def)
  next
    case (Some oc)
    then have "outcome_fits op oc"
      using status(2) consistent
      by (simp add: consistent_def no_execution_def allowed_consistent_def split: option.splits policy_result.splits)
    then show ?thesis using terminal_run_status [of "ao_Status oc"] by (auto simp: outcome_fits_def)
  qed
  then show "op_status op \<notin> {OperationQueued, OperationDelivered, OperationAwaitingConfirmation, OperationRunning}" by simp
  assume "deliverable op"
  with idle show "accepted_ack op" by (auto simp: deliverable_def)
next
  from assms new_service_empty(1) obtain ops
    where ops: "list_all2 (\<lambda>v op. restoreOperation env v = Inr op) (ps_Operations state) ops" "map fst (sv_operations s) = map op_id ops"
      "length (ps_Operations state) \<le> sv_maxOperations (newService m ttl en sinks)" "acyclic (parent_edges (sv_operations s))"
    by (rule restoreOperations_operations) blast
  then show "acyclic (parent_edges (sv_operations s))" "length (sv_operations s) \<le> sv_maxOperations (newService m ttl en sinks)"
    by (metis length_map list_all2_lengthD)+
qed

definition stored_1 :: persisted_operations where
  "stored_1 = \<lparr>ps_Version = operationFileVersion, ps_TimelineSequence = 0,
     ps_Operations = [persistedOperationValue (operation_1\<lparr>op_status := OperationStale\<rparr>)], ps_Controllers = [],
     ps_EmergencyStops = [], ps_PolicyState = Some (SnapshotStateFor sample_engine [])\<rparr>"

lemma stored_request_1: "validateStoredRequest sample_env (op_request operation_1) = None"
  by code_simp

lemma stored_policy_1:
  "ValidateState (SnapshotStateFor sample_engine []) = None" "st_Reservations (SnapshotStateFor sample_engine []) = []"
  "fst (RestoreState sample_engine (SnapshotStateFor sample_engine [])) = None"
  by code_simp+

lemma restored_operation_1:
  obtains op where "restoreOperation sample_env (persistedOperationValue (operation_1\<lparr>op_status := OperationStale\<rparr>)) = Inr op"
    "op_id op = ''operation.1''" "hc_ParentOperationID (op_request op) = []" "op_timeline op = []" "op_outcome op = None"
    "op_outcomeDelivery op = []"
proof -
  let ?v = "persistedOperationValue (operation_1\<lparr>op_status := OperationStale\<rparr>)"
  have "\<not> isl (restoreOperation sample_env ?v)"
    using stored_request_1
    by (simp add: restoreOperation_def persistedOperationValue_def Let_def guard_err_def operation_1_def validate_evidence_def
      validateOperationOutput_def validatePersistedOperationRelations_def stored_operation_def decision_1_def
      validate_allowed_relations_def accepted_ack_def validateOperationTimeline_def validOperationStatus_def maxJSONSafeInteger_def)
  then obtain op where op: "restoreOperation sample_env ?v = Inr op" by (cases "restoreOperation sample_env ?v") auto
  from restoreOperation_valid(2) [OF op] show thesis using that [OF op] by (simp add: operation_1_def)
qed

lemma stored_1_restored: "\<exists>s. restoreOperations sample_env 2000 service_created stored_1 = Inr s"
proof -
  obtain op where op: "restoreOperation sample_env (persistedOperationValue (operation_1\<lparr>op_status := OperationStale\<rparr>)) = Inr op"
    "op_id op = ''operation.1''" "hc_ParentOperationID (op_request op) = []" "op_timeline op = []" "op_outcome op = None"
    "op_outcomeDelivery op = []"
    by (rule restored_operation_1)
  obtain en where en: "RestoreState sample_engine (SnapshotStateFor sample_engine []) = (None, en)"
    using stored_policy_1(3) by (cases "RestoreState sample_engine (SnapshotStateFor sample_engine [])") simp
  have graph: "validateOperationParentGraph [(''operation.1'', op)] = None"
    using op(3) by (simp add: validateOperationParentGraph_def parent_walk.simps)
  have "queue_outcome [] op = op" using op(5) by (simp add: queue_outcome_def)
  then have "\<not> isl (restoreOperations sample_env 2000 service_created stored_1)"
    using stored_policy_1(1, 2) op en graph
    by (simp add: stored_1_def restoreOperations_def validate_store_def guard_err_def ebind_def maxJSONSafeInteger_def service_created_def
      newService_def Let_def defaultMaxOperations_def hardMaxOperations_def put_operation_def queueOutcomeDeliveryLocked_def
      validateOperationTimelineSequences_def validate_reserved_decisions_def restore_policy_def restorePolicyState_def
      sort_children_def maxOutcomeSubscribers_def allowed_decision_def persistedOperationValue_def operation_1_def decision_1_def
      map_filter_def operationPolicyReservationPending_def split: option.splits)
  then show ?thesis by (cases "restoreOperations sample_env 2000 service_created stored_1") auto
qed

theorem restored_service_is_sound_witness:
  "\<exists>s. restoreOperations sample_env 2000 service_created stored_1 = Inr s \<and> acyclic (parent_edges (sv_operations s))
     \<and> length (sv_operations s) \<le> 1024
     \<and> (\<forall>op. operation_at s ''operation.1'' = Some op \<longrightarrow> consistent op \<and> op_status op \<noteq> OperationQueued)"
proof -
  obtain s where s: "restoreOperations sample_env 2000 service_created stored_1 = Inr s" using stored_1_restored by blast
  have "sv_maxOperations service_created = 1024" by (simp add: service_created_def newService_def Let_def defaultMaxOperations_def hardMaxOperations_def)
  with restored_service_is_sound [OF s [unfolded service_created_def]] s show ?thesis by (auto simp: service_created_def)
qed







subsection \<open>A run that is lost\<close>

lemma lost_run_refused:
  assumes "op_run op = Some r" "op_outcome op = None" "op_status op = OperationOutcomeUnknown"
    and "operationStatusFromRun (ar_Status r) \<noteq> OperationOutcomeUnknown"
  shows "restoreOperation env (persistedOperationValue op) \<noteq> Inr op'"
proof
  assume "restoreOperation env (persistedOperationValue op) = Inr op'"
  from restoreOperation_valid(1) [OF this] have "op_status op = operationStatusFromRun (ar_Status r)"
    using stored_run_matches [of "stored_operation (persistedOperationValue op)" r] assms(1, 2) by simp
  with assms(3, 4) show False by simp
qed

lemma lost_run_blocks:
  assumes "keyed s" "operation_at s i = Some op"
    and "op_run op = Some r" "op_outcome op = None" "op_status op = OperationOutcomeUnknown"
    and "operationStatusFromRun (ar_Status r) \<noteq> OperationOutcomeUnknown"
  shows "isl (restoreOperations env now' (newService m ttl en sinks) (fst (writeOperationsLocked now s)))"
proof (rule ccontr)
  let ?r = "restoreOperations env now' (newService m ttl en sinks) (fst (writeOperationsLocked now s))"
  assume "\<not> isl ?r"
  then obtain s' where s': "?r = Inr s'" by (cases ?r) auto
  have "operation_at (expireControllersLocked now s) i = Some op"
    using complete_kept [OF assms(1, 2)] assms(5) by (simp add: completeOperation_def)
  from restored_value [OF s' new_service_empty(1) written_value [OF this]] lost_run_refused [OF assms(3-6)]
  show False by blast
qed

text \<open>
  C8: a store that the code writes and then refuses. When the Host of a running operation loses its lease, the operation
  becomes outcome-unknown but keeps the last run that was reported; the checks at the next start demand that run and status
  agree, so that the whole store is refused, whatever the configuration.
\<close>

theorem lost_run_blocks_restart:
  assumes "reachable_service env encode s" "operation_at s i = Some op"
    and "op_run op = Some r" "op_outcome op = None" "op_status op = OperationOutcomeUnknown"
    and "operationStatusFromRun (ar_Status r) \<noteq> OperationOutcomeUnknown"
  shows "isl (restoreOperations env' now' (newService m ttl en sinks) (fst (writeOperationsLocked now s)))"
  using reachable_keyed [OF assms(1)] assms(2-) by (rule lost_run_blocks)

theorem lost_run_blocks_restart_witness:
  "reached (snd (UnregisterHost 1000 service_running ''server'' ''lease.1''))
     \<and> isl (restoreOperations sample_env 2000 service_created
         (fst (writeOperationsLocked 1000 (snd (UnregisterHost 1000 service_running ''server'' ''lease.1'')))))"
proof -
  let ?s = "snd (UnregisterHost 1000 service_running ''server'' ''lease.1'')"
  have reached: "reached ?s" by (rule reachable_service.stepped [OF reached_running step_UnregisterHost])
  have "case operation_at ?s ''operation.1'' of None \<Rightarrow> False
      | Some op \<Rightarrow> op_run op = Some run_1 \<and> op_outcome op = None \<and> op_status op = OperationOutcomeUnknown" by code_simp
  then obtain op where op: "operation_at ?s ''operation.1'' = Some op" "op_run op = Some run_1" "op_outcome op = None"
      "op_status op = OperationOutcomeUnknown"
    by (auto split: option.splits)
  have "operationStatusFromRun (ar_Status run_1) \<noteq> OperationOutcomeUnknown" by (simp add: run_1_def)
  from lost_run_blocks_restart [OF reached op this] reached show ?thesis by (simp add: service_created_def)
qed

text \<open>
  The same without a lost lease: a store with a running operation can be opened once. Opening it makes the operation
  outcome-unknown, and the store written afterwards is refused.
\<close>

lemma restored_keyed:
  assumes "restoreOperations env now (newService m ttl en sinks) state = Inr s"
  shows "keyed s"
proof -
  from assms new_service_empty(1) obtain ops where "map fst (sv_operations s) = map op_id ops" "distinct (map op_id ops)"
    by (rule restoreOperations_operations) blast
  then have "map_ok (sv_operations s)" by simp
  moreover have "well_placed i op" if op: "operation_at s i = Some op" for i op
  proof -
    from restored_operation [OF assms new_service_empty(1) op] obtain v op0
      where v: "restoreOperation env v = Inr op0" "op_id op0 = i" "same_execution op0 op" by blast
    have "op_status op \<noteq> OperationAwaitingConfirmation"
    proof (cases "po_Outcome v")
      case None
      with restored_status_idle [of "stored_operation v"] v(3) show ?thesis
        unfolding restoreOperation_valid(2) [OF v(1)] by (auto simp: same_execution_def)
    next
      case (Some oc)
      then show ?thesis using v(3) restoreOperation_valid(1) [OF v(1)] unfolding restoreOperation_valid(2) [OF v(1)]
        by (auto simp: same_execution_def restored_status_def)
    qed
    then show ?thesis using v(2, 3) by (simp add: well_placed_def awaits_idle_def same_execution_def)
  qed
  ultimately show ?thesis by (simp add: keyed_def)
qed

theorem running_store_opens_once:
  assumes "restoreOperations env now (newService m ttl en sinks) state = Inr s" "v \<in> set (ps_Operations state)"
    and "po_Run v = Some r" "po_Outcome v = None" "operationStatusFromRun (ar_Status r) \<noteq> OperationOutcomeUnknown"
  shows "isl (restoreOperations env' now'' (newService m' ttl' en' sinks') (fst (writeOperationsLocked now' s)))"
proof -
  from restored_value [OF assms(1) new_service_empty(1) assms(2)] obtain op0 op
    where op: "restoreOperation env v = Inr op0" "operation_at s (op_id op0) = Some op" "same_execution op0 op" by blast
  note valid = restoreOperation_valid [OF op(1)]
  have "accepted_ack (stored_operation v)" using stored_run_matches [OF valid(1)] assms(3, 4) by simp
  moreover have "denied_decision (stored_operation v) = None"
    using valid(1) assms(3) by (auto simp: validatePersistedOperationRelations_def denied_decision_def no_execution_def split: option.splits)
  ultimately have "fst (restored_status (stored_operation v)) = OperationOutcomeUnknown"
    using assms(3, 4) by (auto simp: restored_status_def accepted_ack_def split: option.splits)
  then have "op_run op = Some r" "op_outcome op = None" "op_status op = OperationOutcomeUnknown"
    using op(3) assms(3, 4) unfolding valid(2) by (simp_all add: same_execution_def)
  from lost_run_blocks [OF restored_keyed [OF assms(1)] op(2) this assms(5)] show ?thesis .
qed

end
