(* ===== verification/Task_Plan.thy ===== *)
theory Task_Plan
  imports Host_Validate Go_Text
begin

section \<open>Plans of a task\<close>

text \<open>
  The plans of \<open>src/taskstate/plan.go\<close>: a goal with a list of steps, each with conditions that have to be proven by evidence of
  a Host before the step counts as done, a bounded number of attempts for each step and of revisions for the whole plan. The
  functions here are pure; the store that keeps plans is \<open>Task_Store\<close>. The first part are the data types and operations, the
  second what an accepted plan looks like and what evidence and failures make of it.
\<close>

subsection \<open>Data\<close>

datatype task_error_kind =
    TaskInvalid | TaskNotFound | TaskConflict | TaskCapacity | TaskClosed | TaskPersist | TaskForbidden | TaskPlain

datatype task_error = TaskError (tk_kind: task_error_kind) (tk_text: string)

datatype planning_mode = PlanningDisabled | PlanningAuto | PlanningRequired | PlanningModeOther string
datatype controller_source = ControllerInternal | ControllerExternal | ControllerSourceOther string
datatype plan_status =
    PlanPlanned | PlanActive | PlanBlocked | PlanPaused | PlanCompleted | PlanFailed | PlanCancelled | PlanStatusOther string
datatype step_status =
    StepPending | StepActive | StepBlocked | StepCompleted | StepFailed | StepSkipped | StepStatusOther string
datatype evidence_kind = EvidenceOperationOutcome | EvidenceObservationFact | EvidenceKindOther string
datatype replan_reason =
    ReplanGoalChanged | ReplanRequiredCapabilityMissing | ReplanFailureThresholdReached | ReplanEpochInvalidated
  | ReplanManualAuthorized | ReplanReasonOther string

definition PlanSchemaVersion :: string where "PlanSchemaVersion = ''rin.task-plan/v1''"
definition maxSteps :: nat where "maxSteps = 16"
definition maxConditions :: nat where "maxConditions = 16"
definition maxStepConditions :: nat where "maxStepConditions = 8"
definition maxEvidence :: nat where "maxEvidence = 64"
definition maxWireInteger :: nat where "maxWireInteger = 9007199254740991"

record plan_condition =
  cn_ConditionID :: string
  cn_Kind :: evidence_kind
  cn_Summary :: string
  cn_Capability :: "capability_ref option"
  cn_FactID :: string
  cn_FactValueJSON :: string

record plan_evidence =
  pv_EvidenceID :: string
  pv_ConditionID :: string
  pv_Kind :: evidence_kind
  pv_OperationID :: string
  pv_Epoch :: epoch
  pv_ObservationSequence :: u64
  pv_Digest :: string
  pv_RecordedAt :: int

record plan_step =
  sp_StepID :: string
  sp_Title :: string
  sp_Objective :: string
  sp_Status :: step_status
  sp_SuccessConditions :: "plan_condition list"
  sp_CapabilityHints :: "capability_ref list"
  sp_Attempt :: u32
  sp_MaxAttempts :: u32
  sp_BlockedReason :: string
  sp_Evidence :: "plan_evidence list"

record step_draft =
  sd_StepID :: string
  sd_Title :: string
  sd_Objective :: string
  sd_SuccessConditions :: "plan_condition list"
  sd_CapabilityHints :: "capability_ref list"
  sd_MaxAttempts :: u32

record plan_state =
  pl_SchemaVersion :: string
  pl_PlanID :: string
  pl_TaskID :: string
  pl_SessionID :: string
  pl_HostID :: string
  pl_WorldID :: string
  pl_ActorID :: string
  pl_ControllerID :: string
  pl_ControllerSource :: controller_source
  pl_Goal :: string
  pl_GoalDigest :: string
  pl_PlanningMode :: planning_mode
  pl_Status :: plan_status
  pl_Phase :: string
  pl_CurrentStepID :: string
  pl_Steps :: "plan_step list"
  pl_SuccessConditions :: "plan_condition list"
  pl_Evidence :: "plan_evidence list"
  pl_Revision :: u64
  pl_ReplanCount :: u32
  pl_MaxReplans :: u32
  pl_ConsecutiveFailures :: u32
  pl_LastFailureFamily :: string
  pl_LastOperationID :: string
  pl_LastOutcomeCode :: string
  pl_BasedOnEpoch :: epoch
  pl_BasedOnObservationSequence :: u64
  pl_CreatedAt :: int
  pl_UpdatedAt :: int

record plan_draft =
  df_PlanID :: string
  df_TaskID :: string
  df_SessionID :: string
  df_HostID :: string
  df_WorldID :: string
  df_ActorID :: string
  df_ControllerID :: string
  df_ControllerSource :: controller_source
  df_Goal :: string
  df_PlanningMode :: planning_mode
  df_Phase :: string
  df_Steps :: "step_draft list"
  df_SuccessConditions :: "plan_condition list"
  df_MaxReplans :: u32
  df_BasedOnEpoch :: epoch
  df_BasedOnObservationSequence :: u64

record replan_policy =
  rp_FailureThreshold :: u32
  rp_MaxReplans :: u32

record replan_input =
  ri_Reason :: replan_reason
  ri_ConsecutiveFailures :: u32
  ri_ReplanCount :: u32
  ri_PlayerAuthorized :: bool
  ri_HasAuthoritativeProof :: bool

subsection \<open>Checks\<close>

fun task_kind_text :: "task_error_kind \<Rightarrow> string" where
  "task_kind_text TaskInvalid = ''invalid task plan''"
| "task_kind_text TaskNotFound = ''task plan not found''"
| "task_kind_text TaskConflict = ''task plan revision conflict''"
| "task_kind_text TaskCapacity = ''task plan capacity exceeded''"
| "task_kind_text TaskClosed = ''task plan store is closed''"
| "task_kind_text TaskPersist = ''task plan persistence failed''"
| "task_kind_text TaskForbidden = ''task plan operation is forbidden''"
| "task_kind_text TaskPlain = ''''"

text \<open>A wrapped error prints its kind first; an error of another package prints alone.\<close>

definition task_error_string :: "task_error \<Rightarrow> string" where
  "task_error_string e =
     (if tk_kind e = TaskPlain then tk_text e
      else task_kind_text (tk_kind e) @ (if tk_text e = [] then [] else '': '' @ tk_text e))"

definition task_invalid :: "string \<Rightarrow> string \<Rightarrow> task_error" where
  "task_invalid field message = TaskError TaskInvalid (field @ '' '' @ message)"

definition validation_text :: "validation_error \<Rightarrow> string" where
  "validation_text e = (if ve_Field e = [] then ve_Message e else ve_Field e @ '': '' @ ve_Message e)"

definition task_validateText :: "string \<Rightarrow> string \<Rightarrow> nat \<Rightarrow> bool \<Rightarrow> task_error option" where
  "task_validateText field value maximum required =
     require (valid_utf8 value \<and> NUL \<notin> set value \<and> length value \<le> maximum \<and> \<not> (required \<and> TrimSpace value = []))
       (task_invalid field ''is invalid or exceeds its bound'')"

definition digestText :: "go_env \<Rightarrow> string \<Rightarrow> string" where
  "digestText env value = sha256Hex env (TrimSpace value)"

definition validateScalarJSON :: "go_env \<Rightarrow> string \<Rightarrow> bool" where
  "validateScalarJSON env value \<longleftrightarrow>
     value \<noteq> [] \<and> length value \<le> 1024 \<and> valid_utf8 value
     \<and> (case json_decode env value of
          Inl _ \<Rightarrow> False
        | Inr decoded \<Rightarrow> json_trailing env value = None
            \<and> (case decoded of JNull \<Rightarrow> True | JBool _ \<Rightarrow> True | JString _ \<Rightarrow> True | JNumber _ \<Rightarrow> True | _ \<Rightarrow> False))"

definition validPlanningMode :: "planning_mode \<Rightarrow> bool" where
  "validPlanningMode m \<longleftrightarrow> m \<in> {PlanningDisabled, PlanningAuto, PlanningRequired}"

definition validControllerSource :: "controller_source \<Rightarrow> bool" where
  "validControllerSource m \<longleftrightarrow> m \<in> {ControllerInternal, ControllerExternal}"

definition validPlanStatus :: "plan_status \<Rightarrow> bool" where
  "validPlanStatus m \<longleftrightarrow> m \<in> {PlanPlanned, PlanActive, PlanBlocked, PlanPaused, PlanCompleted, PlanFailed, PlanCancelled}"

definition validStepStatus :: "step_status \<Rightarrow> bool" where
  "validStepStatus m \<longleftrightarrow> m \<in> {StepPending, StepActive, StepBlocked, StepCompleted, StepFailed, StepSkipped}"

definition validEvidenceKind :: "evidence_kind \<Rightarrow> bool" where
  "validEvidenceKind m \<longleftrightarrow> m \<in> {EvidenceOperationOutcome, EvidenceObservationFact}"

text \<open>
  The map of condition identifiers is shared by the conditions of the plan and of all its steps; \<open>all\<close> are the identifiers
  already in it. The switch over the kind has no case for an unsupported kind, which was refused before.
\<close>

definition condition_selector :: "go_env \<Rightarrow> plan_condition \<Rightarrow> task_error option" where
  "condition_selector env c =
     (case cn_Kind c of
        EvidenceOperationOutcome \<Rightarrow>
          (case cn_Capability c of
             None \<Rightarrow> Some (task_invalid ''condition'' ''operation outcomes require one capability selector'')
           | Some ref \<Rightarrow>
               if cn_FactID c \<noteq> [] \<or> cn_FactValueJSON c \<noteq> []
               then Some (task_invalid ''condition'' ''operation outcomes require one capability selector'')
               else map_option (\<lambda>e. TaskError TaskPlain (validation_text e)) (CapabilityRef_Validate ref ''condition.capability''))
      | EvidenceObservationFact \<Rightarrow>
          require (cn_Capability c = None \<and> task_validateText ''condition.fact_id'' (cn_FactID c) 128 True = None
              \<and> validateScalarJSON env (cn_FactValueJSON c))
            (task_invalid ''condition'' ''observation facts require one fact_id and scalar value selector'')
      | _ \<Rightarrow> None)"

definition validateConditions :: "go_env \<Rightarrow> string list \<Rightarrow> plan_condition list \<Rightarrow> task_error option" where
  "validateConditions env all cs =
     loop_err (\<lambda>i seen c. first_err [
         task_validateText ''condition_id'' (cn_ConditionID c) 128 True,
         require (validEvidenceKind (cn_Kind c)) (task_invalid ''condition.kind'' ''is unsupported''),
         task_validateText ''condition.summary'' (cn_Summary c) 500 True,
         condition_selector env c,
         require (cn_ConditionID c \<notin> set all \<and> cn_ConditionID c \<notin> cn_ConditionID ` set seen)
           (task_invalid ''conditions'' ''contain duplicate IDs'')]) [] cs"

definition validateEvidence :: "plan_evidence \<Rightarrow> plan_state \<Rightarrow> task_error option" where
  "validateEvidence v p =
     first_err [
       task_validateText ''evidence_id'' (pv_EvidenceID v) 256 True,
       task_validateText ''condition_id'' (pv_ConditionID v) 256 True,
       task_validateText ''digest'' (pv_Digest v) 256 True,
       require (length (pv_Digest v) = 64) (task_invalid ''digest'' ''must be SHA-256''),
       require (validEvidenceKind (pv_Kind v) \<and> pv_ObservationSequence v \<noteq> 0
           \<and> unat (pv_ObservationSequence v) \<le> maxWireInteger \<and> 0 \<le> pv_RecordedAt v)
         (task_invalid ''evidence'' ''contains invalid values''),
       map_option (\<lambda>e. TaskError TaskInvalid (validation_text e)) (Epoch_Validate (pv_Epoch v) ''evidence.epoch''),
       require (pv_Epoch v = pl_BasedOnEpoch p \<and> pl_BasedOnObservationSequence p \<le> pv_ObservationSequence v)
         (task_invalid ''evidence'' ''is stale for this plan''),
       (if pv_Kind v = EvidenceOperationOutcome then task_validateText ''operation_id'' (pv_OperationID v) 256 True
        else require (pv_OperationID v = []) (task_invalid ''operation_id'' ''is only valid for operation outcome evidence''))]"

definition validateStep :: "go_env \<Rightarrow> string list \<Rightarrow> plan_step \<Rightarrow> task_error option" where
  "validateStep env all st =
     first_err [
       task_validateText ''step_id'' (sp_StepID st) 128 True,
       task_validateText ''title'' (sp_Title st) 200 True,
       task_validateText ''objective'' (sp_Objective st) 1000 True,
       require (validStepStatus (sp_Status st) \<and> sp_MaxAttempts st \<noteq> 0 \<and> sp_MaxAttempts st \<le> 32
           \<and> sp_Attempt st \<le> sp_MaxAttempts st \<and> sp_SuccessConditions st \<noteq> []
           \<and> length (sp_SuccessConditions st) \<le> maxStepConditions
           \<and> length (sp_CapabilityHints st) \<le> 32 \<and> length (sp_Evidence st) \<le> maxEvidence)
         (task_invalid ''step'' ''status, bounds, or attempts are invalid''),
       task_validateText ''blocked_reason'' (sp_BlockedReason st) 500 False,
       validateConditions env all (sp_SuccessConditions st),
       loop_err (\<lambda>i seen ref. first_err [
           map_option (\<lambda>e. TaskError TaskPlain (validation_text e)) (CapabilityRef_Validate ref (indexed ''capability_hints'' i)),
           require (ref \<notin> set seen) (task_invalid ''capability_hints'' ''contain duplicates'')]) [] (sp_CapabilityHints st),
       loop_err (\<lambda>i seen c. case cn_Capability c of
           None \<Rightarrow> None
         | Some ref \<Rightarrow> require (ref \<in> set (sp_CapabilityHints st))
             (task_invalid ''condition.capability'' ''must also appear in capability_hints'')) [] (sp_SuccessConditions st)]"

definition conditionInList :: "plan_condition list \<Rightarrow> string \<Rightarrow> evidence_kind \<Rightarrow> bool" where
  "conditionInList cs i kind \<longleftrightarrow> list_ex (\<lambda>c. cn_ConditionID c = i \<and> cn_Kind c = kind) cs"

definition conditionsSatisfied :: "plan_condition list \<Rightarrow> plan_evidence list \<Rightarrow> bool" where
  "conditionsSatisfied cs vs \<longleftrightarrow>
     list_all (\<lambda>c. list_ex (\<lambda>v. pv_ConditionID v = cn_ConditionID c \<and> pv_Kind v = cn_Kind c) vs) cs"

definition currentStepIndex :: "plan_state \<Rightarrow> nat option" where
  "currentStepIndex p = find (\<lambda>i. sp_StepID (pl_Steps p ! i) = pl_CurrentStepID p) [0..<length (pl_Steps p)]"

definition allStepsTerminalSuccess :: "plan_step list \<Rightarrow> bool" where
  "allStepsTerminalSuccess sts \<longleftrightarrow> list_all (\<lambda>st. sp_Status st \<in> {StepCompleted, StepSkipped}) sts"

definition findEvidence :: "plan_evidence list \<Rightarrow> string \<Rightarrow> bool" where
  "findEvidence vs i \<longleftrightarrow> list_ex (\<lambda>v. pv_EvidenceID v = i) vs"

definition evidenceInSteps :: "plan_step list \<Rightarrow> string \<Rightarrow> bool" where
  "evidenceInSteps sts i \<longleftrightarrow> list_ex (\<lambda>st. findEvidence (sp_Evidence st) i) sts"

definition wrap_step :: "nat \<Rightarrow> string \<Rightarrow> task_error" where
  "wrap_step i text = TaskError TaskInvalid (indexed ''steps'' i @ '': '' @ text)"

definition condition_ids :: "plan_state \<Rightarrow> plan_step list \<Rightarrow> string list" where
  "condition_ids p sts = map cn_ConditionID (pl_SuccessConditions p @ concat (map sp_SuccessConditions sts))"

definition active_steps :: "plan_step list \<Rightarrow> nat" where
  "active_steps sts = length (filter (\<lambda>st. sp_Status st = StepActive) sts)"

definition validate_plan_steps :: "go_env \<Rightarrow> plan_state \<Rightarrow> task_error option" where
  "validate_plan_steps env p =
     loop_err (\<lambda>i seen st. first_err [
         map_option (\<lambda>e. wrap_step i (validation_text e))
           (PlanStepRef_Validate \<lparr>ps_PlanID = pl_PlanID p, ps_PlanRevision = pl_Revision p, ps_StepID = sp_StepID st\<rparr> ''plan_step_ref''),
         map_option (\<lambda>e. wrap_step i (task_error_string e)) (validateStep env (condition_ids p seen) st),
         require (sp_StepID st \<notin> sp_StepID ` set seen) (task_invalid ''steps'' ''contain duplicate step IDs''),
         require (\<not> (sp_Status st = StepActive \<and> pl_CurrentStepID p \<noteq> sp_StepID st))
           (task_invalid ''current_step_id'' ''does not match active step'')]) [] (pl_Steps p)"

definition terminalPlanStatus :: "plan_status \<Rightarrow> bool" where
  "terminalPlanStatus m \<longleftrightarrow> m \<in> {PlanCompleted, PlanFailed, PlanCancelled}"

definition validate_plan_status :: "plan_state \<Rightarrow> task_error option" where
  "validate_plan_status p =
     (let active = active_steps (pl_Steps p) in
      if terminalPlanStatus (pl_Status p) then
        require (active = 0 \<and> pl_CurrentStepID p = []) (task_invalid ''status'' ''terminal plan cannot retain an active step'')
      else if pl_Status p = PlanActive \<and> active \<noteq> 1 then
        require (active = 0 \<and> allStepsTerminalSuccess (pl_Steps p) \<and> \<not> conditionsSatisfied (pl_SuccessConditions p) (pl_Evidence p))
          (task_invalid ''steps'' ''active plan must have one active step or await final evidence'')
      else None)"

definition ValidatePlan :: "go_env \<Rightarrow> plan_state \<Rightarrow> task_error option" where
  "ValidatePlan env p =
     first_err [
       require (pl_SchemaVersion p = PlanSchemaVersion) (task_invalid ''schema_version'' ''is unsupported''),
       loop_err (\<lambda>j seen (field, value). task_validateText field value 256 True) []
         [(''plan_id'', pl_PlanID p), (''task_id'', pl_TaskID p), (''session_id'', pl_SessionID p), (''host_id'', pl_HostID p),
          (''world_id'', pl_WorldID p), (''actor_id'', pl_ActorID p), (''controller_id'', pl_ControllerID p)],
       task_validateText ''goal'' (pl_Goal p) 2000 True,
       require (pl_GoalDigest p = digestText env (pl_Goal p)) (task_invalid ''goal_digest'' ''does not match goal''),
       require (validPlanningMode (pl_PlanningMode p) \<and> validControllerSource (pl_ControllerSource p) \<and> validPlanStatus (pl_Status p))
         (task_invalid ''enum'' ''contains an unsupported value''),
       require (pl_Steps p \<noteq> [] \<and> length (pl_Steps p) \<le> maxSteps) (task_invalid ''steps'' ''must contain between 1 and 16 steps''),
       require (length (pl_SuccessConditions p) \<le> maxConditions \<and> length (pl_Evidence p) \<le> maxEvidence)
         (task_invalid ''conditions'' ''exceed their bounds''),
       require (pl_Revision p \<noteq> 0 \<and> unat (pl_Revision p) \<le> maxWireInteger \<and> pl_MaxReplans p \<le> 32
           \<and> pl_ReplanCount p \<le> pl_MaxReplans p \<and> pl_BasedOnObservationSequence p \<noteq> 0
           \<and> unat (pl_BasedOnObservationSequence p) \<le> maxWireInteger \<and> 0 \<le> pl_CreatedAt p \<and> pl_CreatedAt p \<le> pl_UpdatedAt p)
         (task_invalid ''revision'' ''or plan counters are invalid''),
       map_option (\<lambda>e. TaskError TaskInvalid (validation_text e)) (Epoch_Validate (pl_BasedOnEpoch p) ''based_on_epoch''),
       validateConditions env [] (pl_SuccessConditions p),
       validate_plan_steps env p,
       validate_plan_status p,
       loop_err (\<lambda>i seen v. validateEvidence v p) [] (pl_Evidence p)]"

definition ValidateCompletionConditions :: "go_env \<Rightarrow> plan_condition list \<Rightarrow> task_error option" where
  "ValidateCompletionConditions env cs =
     first_err [
       require (cs \<noteq> [] \<and> length cs \<le> 16) (task_invalid ''conditions'' ''require 1 to 16 entries''),
       validateConditions env [] cs]"

subsection \<open>Operations\<close>

definition draftSteps :: "step_draft list \<Rightarrow> plan_step list" where
  "draftSteps ds =
     map (\<lambda>d. \<lparr>sp_StepID = sd_StepID d, sp_Title = sd_Title d, sp_Objective = sd_Objective d, sp_Status = StepStatusOther '''',
            sp_SuccessConditions = sd_SuccessConditions d, sp_CapabilityHints = sd_CapabilityHints d, sp_Attempt = 0,
            sp_MaxAttempts = sd_MaxAttempts d, sp_BlockedReason = '''', sp_Evidence = []\<rparr>) ds"

definition fresh_step :: "plan_step \<Rightarrow> plan_step" where
  "fresh_step st =
     st\<lparr>sp_Status := StepPending, sp_Attempt := 0, sp_BlockedReason := '''', sp_Evidence := [],
        sp_MaxAttempts := (if sp_MaxAttempts st = 0 then 3 else sp_MaxAttempts st)\<rparr>"

text \<open>The first step of a new plan is the current one, and names the phase unless the draft does.\<close>

definition start_first :: "plan_state \<Rightarrow> plan_state" where
  "start_first p =
     (case pl_Steps p of
        [] \<Rightarrow> p
      | st # sts \<Rightarrow>
          p\<lparr>pl_Steps := st\<lparr>sp_Status := StepActive\<rparr> # sts, pl_CurrentStepID := sp_StepID st,
            pl_Phase := (if pl_Phase p = [] then sp_Title st else pl_Phase p)\<rparr>)"

definition drafted_plan :: "go_env \<Rightarrow> plan_draft \<Rightarrow> int \<Rightarrow> plan_state" where
  "drafted_plan env d now =
     start_first
       \<lparr>pl_SchemaVersion = PlanSchemaVersion, pl_PlanID = df_PlanID d, pl_TaskID = df_TaskID d, pl_SessionID = df_SessionID d,
        pl_HostID = df_HostID d, pl_WorldID = df_WorldID d, pl_ActorID = df_ActorID d, pl_ControllerID = df_ControllerID d,
        pl_ControllerSource = df_ControllerSource d, pl_Goal = TrimSpace (df_Goal d),
        pl_GoalDigest = digestText env (TrimSpace (df_Goal d)), pl_PlanningMode = df_PlanningMode d, pl_Status = PlanActive,
        pl_Phase = TrimSpace (df_Phase d), pl_CurrentStepID = '''', pl_Steps = map fresh_step (draftSteps (df_Steps d)),
        pl_SuccessConditions = df_SuccessConditions d, pl_Evidence = [], pl_Revision = 1, pl_ReplanCount = 0,
        pl_MaxReplans = (if df_MaxReplans d = 0 then 3 else df_MaxReplans d), pl_ConsecutiveFailures = 0,
        pl_LastFailureFamily = '''', pl_LastOperationID = '''', pl_LastOutcomeCode = '''', pl_BasedOnEpoch = df_BasedOnEpoch d,
        pl_BasedOnObservationSequence = df_BasedOnObservationSequence d, pl_CreatedAt = now, pl_UpdatedAt = now\<rparr>"

definition NewPlan :: "go_env \<Rightarrow> plan_draft \<Rightarrow> int \<Rightarrow> task_error + plan_state" where
  "NewPlan env d now =
     (if now < 0 then Inl (task_invalid ''created_at'' ''must not be negative'')
      else guard_err (ValidatePlan env (drafted_plan env d now)) (Inr (drafted_plan env d now)))"

text \<open>
  Where a piece of evidence goes: to the current step when one of its conditions asks for it, else to the plan.
\<close>

definition place_evidence :: "plan_state \<Rightarrow> plan_evidence \<Rightarrow> task_error + plan_state" where
  "place_evidence p v =
     (let to_plan = (if conditionInList (pl_SuccessConditions p) (pv_ConditionID v) (pv_Kind v)
                     then Inr (p\<lparr>pl_Evidence := pl_Evidence p @ [v]\<rparr>)
                     else Inl (TaskError TaskInvalid ''evidence does not match a current condition'')) in
      case currentStepIndex p of
        None \<Rightarrow> to_plan
      | Some i \<Rightarrow>
          let st = pl_Steps p ! i in
          if conditionInList (sp_SuccessConditions st) (pv_ConditionID v) (pv_Kind v)
          then Inr (p\<lparr>pl_Steps := (pl_Steps p)[i := st\<lparr>sp_Evidence := sp_Evidence st @ [v]\<rparr>]\<rparr>)
          else to_plan)"

definition activate_next :: "nat \<Rightarrow> plan_state \<Rightarrow> plan_state" where
  "activate_next i p =
     (case find (\<lambda>j. sp_Status (pl_Steps p ! j) = StepPending) [Suc i..<length (pl_Steps p)] of
        None \<Rightarrow> p
      | Some j \<Rightarrow>
          let st = pl_Steps p ! j in
          p\<lparr>pl_Steps := (pl_Steps p)[j := st\<lparr>sp_Status := StepActive\<rparr>], pl_CurrentStepID := sp_StepID st,
            pl_Phase := sp_Title st, pl_Status := PlanActive\<rparr>)"

definition complete_step :: "nat \<Rightarrow> plan_state \<Rightarrow> plan_state" where
  "complete_step i p =
     activate_next i
       (p\<lparr>pl_Steps := (pl_Steps p)[i := (pl_Steps p ! i)\<lparr>sp_Status := StepCompleted, sp_BlockedReason := ''''\<rparr>],
          pl_ConsecutiveFailures := 0, pl_LastFailureFamily := '''', pl_CurrentStepID := ''''\<rparr>)"

text \<open>The step that was current before the evidence came is completed when all its conditions are proven.\<close>

definition advance_step :: "nat option \<Rightarrow> plan_state \<Rightarrow> plan_state \<times> bool" where
  "advance_step current p =
     (case current of
        None \<Rightarrow> (p, False)
      | Some i \<Rightarrow>
          if conditionsSatisfied (sp_SuccessConditions (pl_Steps p ! i)) (sp_Evidence (pl_Steps p ! i))
          then (complete_step i p, True) else (p, False))"

definition finish_plan :: "plan_state \<Rightarrow> plan_state" where
  "finish_plan p =
     (if pl_CurrentStepID p = [] \<and> allStepsTerminalSuccess (pl_Steps p) \<and> conditionsSatisfied (pl_SuccessConditions p) (pl_Evidence p)
      then p\<lparr>pl_Status := PlanCompleted\<rparr> else p)"

definition bump_revision :: "int \<Rightarrow> plan_state \<Rightarrow> plan_state" where
  "bump_revision now p = p\<lparr>pl_Revision := pl_Revision p + 1, pl_UpdatedAt := now\<rparr>"

definition ApplyEvidence :: "go_env \<Rightarrow> plan_state \<Rightarrow> plan_evidence \<Rightarrow> int \<Rightarrow> task_error + plan_state \<times> bool" where
  "ApplyEvidence env p v now =
     guard_err (first_err [
         ValidatePlan env p,
         require (pl_Status p = PlanActive \<or> pl_Status p = PlanBlocked) (TaskError TaskConflict ''plan is not active''),
         validateEvidence v p])
       (if findEvidence (pl_Evidence p) (pv_EvidenceID v) \<or> evidenceInSteps (pl_Steps p) (pv_EvidenceID v) then Inr (p, False)
        else ebind (place_evidence p v) (\<lambda>p1.
          let (p2, advanced) = advance_step (currentStepIndex p) p1; next = bump_revision now (finish_plan p2) in
          guard_err (ValidatePlan env next) (Inr (next, advanced))))"

definition record_failure :: "string \<Rightarrow> string \<Rightarrow> string \<Rightarrow> nat \<Rightarrow> plan_state \<Rightarrow> plan_state" where
  "record_failure operationID family code i p =
     (let st = (pl_Steps p ! i)\<lparr>sp_Attempt := sp_Attempt (pl_Steps p ! i) + 1\<rparr>;
          p = p\<lparr>pl_Steps := (pl_Steps p)[i := st], pl_LastOperationID := operationID, pl_LastOutcomeCode := code,
                pl_ConsecutiveFailures := (if pl_LastFailureFamily p = family then pl_ConsecutiveFailures p + 1 else 1),
                pl_LastFailureFamily := family\<rparr>
      in if sp_MaxAttempts st \<le> sp_Attempt st
         then p\<lparr>pl_Steps := (pl_Steps p)[i := st\<lparr>sp_Status := StepBlocked, sp_BlockedReason := code\<rparr>], pl_Status := PlanBlocked\<rparr>
         else p)"

definition ApplyFailure :: "go_env \<Rightarrow> plan_state \<Rightarrow> string \<Rightarrow> string \<Rightarrow> string \<Rightarrow> int \<Rightarrow> task_error + plan_state" where
  "ApplyFailure env p operationID family code now =
     guard_err (first_err [
         ValidatePlan env p,
         task_validateText ''operation_id'' operationID 256 True,
         task_validateText ''failure_family'' family 128 True,
         task_validateText ''outcome_code'' code 128 False])
       (case currentStepIndex p of
          None \<Rightarrow> Inl (TaskError TaskConflict ''plan has no active step'')
        | Some i \<Rightarrow>
            if pl_Status p \<noteq> PlanActive then Inl (TaskError TaskConflict ''plan has no active step'')
            else let next = bump_revision now (record_failure operationID family code i p) in
              guard_err (ValidatePlan env next) (Inr next))"

definition ShouldReplan :: "replan_policy \<Rightarrow> replan_input \<Rightarrow> bool" where
  "ShouldReplan pol input =
     (let threshold = (if rp_FailureThreshold pol = 0 then 3 else rp_FailureThreshold pol);
          maximum = (if rp_MaxReplans pol = 0 then 3 else rp_MaxReplans pol)
      in ri_ReplanCount input < maximum
         \<and> (case ri_Reason input of
              ReplanGoalChanged \<Rightarrow> ri_PlayerAuthorized input
            | ReplanManualAuthorized \<Rightarrow> ri_PlayerAuthorized input
            | ReplanFailureThresholdReached \<Rightarrow> ri_HasAuthoritativeProof input \<and> threshold \<le> ri_ConsecutiveFailures input
            | ReplanRequiredCapabilityMissing \<Rightarrow> ri_HasAuthoritativeProof input
            | ReplanEpochInvalidated \<Rightarrow> ri_HasAuthoritativeProof input
            | _ \<Rightarrow> False))"

definition proves :: "capability_ref \<Rightarrow> plan_condition \<Rightarrow> bool" where
  "proves capability c \<longleftrightarrow> cn_Kind c = EvidenceOperationOutcome \<and> cn_Capability c = Some capability"

definition OperationConditionIDs :: "plan_state \<Rightarrow> capability_ref \<Rightarrow> string list" where
  "OperationConditionIDs p capability =
     (case currentStepIndex p of
        None \<Rightarrow> []
      | Some i \<Rightarrow> map cn_ConditionID (filter (proves capability) (sp_SuccessConditions (pl_Steps p ! i) @ pl_SuccessConditions p)))"

text \<open>\<open>json.Compact\<close> is a parameter: the compacted text, or \<open>None\<close> where it fails.\<close>

definition ObservationConditionMatches :: "(string \<Rightarrow> string option) \<Rightarrow> plan_condition \<Rightarrow> observation_fact \<Rightarrow> bool" where
  "ObservationConditionMatches compact c observed \<longleftrightarrow>
     cn_Kind c = EvidenceObservationFact \<and> cn_FactID c = of_FactID observed
     \<and> (case compact (cn_FactValueJSON c) of
          None \<Rightarrow> False
        | Some expected \<Rightarrow> compact (of_Value observed) = Some expected)"

subsection \<open>What an accepted plan looks like\<close>

lemma task_validateText_nonempty: "task_validateText field value maximum True = None \<Longrightarrow> value \<noteq> []"
  by (auto simp: task_validateText_def TrimSpace_def)

lemma validate_plan_steps_facts:
  assumes "validate_plan_steps env p = None"
  shows "distinct (map sp_StepID (pl_Steps p))" "[] \<notin> sp_StepID ` set (pl_Steps p)"
    "st \<in> set (pl_Steps p) \<Longrightarrow> sp_Attempt st \<le> sp_MaxAttempts st \<and> sp_MaxAttempts st \<noteq> 0 \<and> sp_MaxAttempts st \<le> 32
       \<and> sp_SuccessConditions st \<noteq> []"
    "st \<in> set (pl_Steps p) \<Longrightarrow> sp_Status st = StepActive \<Longrightarrow> pl_CurrentStepID p = sp_StepID st"
proof -
  note run = assms [unfolded validate_plan_steps_def]
  have step: "\<exists>all. validateStep env all st = None" "sp_Status st = StepActive \<Longrightarrow> pl_CurrentStepID p = sp_StepID st"
    if "st \<in> set (pl_Steps p)" for st
    using loop_err_all [OF run that] by (auto simp: first_err_None_iff simp del: first_err.simps)
  show "distinct (map sp_StepID (pl_Steps p))" using run by (rule loop_err_distinct) (simp add: first_err_None_iff del: first_err.simps)
  show "[] \<notin> sp_StepID ` set (pl_Steps p)"
    using step(1) by (fastforce simp: validateStep_def first_err_None_iff simp del: first_err.simps dest: task_validateText_nonempty)
  show "st \<in> set (pl_Steps p) \<Longrightarrow> sp_Attempt st \<le> sp_MaxAttempts st \<and> sp_MaxAttempts st \<noteq> 0 \<and> sp_MaxAttempts st \<le> 32
       \<and> sp_SuccessConditions st \<noteq> []"
    using step(1) by (fastforce simp: validateStep_def first_err_None_iff simp del: first_err.simps)
  show "st \<in> set (pl_Steps p) \<Longrightarrow> sp_Status st = StepActive \<Longrightarrow> pl_CurrentStepID p = sp_StepID st" using step(2) .
qed

lemma ValidatePlan_facts:
  assumes "ValidatePlan env p = None"
  shows "validate_plan_steps env p = None" "validate_plan_status p = None" "pl_Steps p \<noteq> []"
    "pl_Revision p \<noteq> 0" "pl_ReplanCount p \<le> pl_MaxReplans p" "pl_MaxReplans p \<le> 32"
    "pl_PlanID p \<noteq> []"
  using assms by (auto simp: ValidatePlan_def first_err_None_iff simp del: first_err.simps dest: task_validateText_nonempty)

lemma currentStepIndex_at:
  assumes "distinct (map sp_StepID (pl_Steps p))" "pl_Steps p = done @ st # rest" "pl_CurrentStepID p = sp_StepID st"
  shows "currentStepIndex p = Some (length done)"
proof -
  have other: "sp_StepID (pl_Steps p ! i) \<noteq> sp_StepID st" if "i < length done" for i
  proof -
    have "sp_StepID (done ! i) \<in> sp_StepID ` set done" using that by simp
    moreover have "sp_StepID st \<notin> sp_StepID ` set done" using assms(1) by (simp add: assms(2))
    moreover have "pl_Steps p ! i = done ! i" using that by (simp add: assms(2) nth_append)
    ultimately show ?thesis by metis
  qed
  have "length done < length (pl_Steps p)" "pl_Steps p ! length done = st" by (simp_all add: assms(2))
  then show ?thesis using other unfolding currentStepIndex_def find_Some_iff assms(3) by (intro exI [of _ "length done"]) simp
qed

lemma currentStepIndex_none:
  assumes "[] \<notin> sp_StepID ` set (pl_Steps p)" "pl_CurrentStepID p = []"
  shows "currentStepIndex p = None"
  using assms by (auto simp: currentStepIndex_def find_None_iff) (metis image_eqI nth_mem)

lemma currentStepIndex_Some:
  "currentStepIndex p = Some i \<Longrightarrow> i < length (pl_Steps p) \<and> sp_StepID (pl_Steps p ! i) = pl_CurrentStepID p"
  by (auto simp: currentStepIndex_def find_Some_iff)

subsection \<open>Progress\<close>

text \<open>
  The steps of an open plan: those before the current one are completed, those after it pending; without a current step all are
  completed. A completed step has evidence for each of its conditions, and every piece of evidence fits the epoch and the
  observation the plan is based on.
\<close>

definition steps_done :: "plan_step list \<Rightarrow> bool" where
  "steps_done sts \<longleftrightarrow> (\<forall>st \<in> set sts. sp_Status st = StepCompleted)"

definition progress :: "plan_state \<Rightarrow> bool" where
  "progress p \<longleftrightarrow>
     steps_done (pl_Steps p) \<and> pl_CurrentStepID p = []
     \<or> (\<exists>done st rest. pl_Steps p = done @ st # rest \<and> steps_done done \<and> sp_Status st \<in> {StepActive, StepBlocked}
          \<and> pl_CurrentStepID p = sp_StepID st \<and> (\<forall>t \<in> set rest. sp_Status t = StepPending))"

definition step_proven :: "plan_step \<Rightarrow> bool" where
  "step_proven st \<longleftrightarrow> conditionsSatisfied (sp_SuccessConditions st) (sp_Evidence st)"

definition proven :: "plan_state \<Rightarrow> bool" where
  "proven p \<longleftrightarrow>
     (\<forall>st \<in> set (pl_Steps p). (sp_Status st = StepCompleted \<longrightarrow> step_proven st) \<and> (\<forall>v \<in> set (sp_Evidence st). validateEvidence v p = None))
     \<and> (\<forall>v \<in> set (pl_Evidence p). validateEvidence v p = None)"

definition plan_ok :: "plan_state \<Rightarrow> bool" where
  "plan_ok p \<longleftrightarrow>
     proven p
     \<and> (case pl_Status p of
          PlanCompleted \<Rightarrow> steps_done (pl_Steps p) \<and> conditionsSatisfied (pl_SuccessConditions p) (pl_Evidence p)
        | PlanCancelled \<Rightarrow> (\<forall>st \<in> set (pl_Steps p). sp_Status st \<in> {StepCompleted, StepSkipped})
        | PlanActive \<Rightarrow> progress p
        | PlanBlocked \<Rightarrow> progress p
        | PlanPaused \<Rightarrow> progress p
        | _ \<Rightarrow> False)"

definition same_basis :: "plan_state \<Rightarrow> plan_state \<Rightarrow> bool" where
  "same_basis p q \<longleftrightarrow> pl_BasedOnEpoch p = pl_BasedOnEpoch q \<and> pl_BasedOnObservationSequence p = pl_BasedOnObservationSequence q"

lemma validateEvidence_basis: "same_basis p q \<Longrightarrow> validateEvidence v p = validateEvidence v q"
  by (simp add: validateEvidence_def same_basis_def)

lemma proven_cong:
  "same_basis p q \<Longrightarrow> pl_Steps p = pl_Steps q \<Longrightarrow> pl_Evidence p = pl_Evidence q \<Longrightarrow> proven p = proven q"
  using validateEvidence_basis [of p q] by (simp add: proven_def)

lemma conditionsSatisfied_append: "conditionsSatisfied cs vs \<Longrightarrow> conditionsSatisfied cs (vs @ ws)"
  by (auto simp: conditionsSatisfied_def list_all_iff list_ex_iff)

lemma proven_step:
  assumes "proven p" "i < length (pl_Steps p)"
    and "sp_Status st = StepCompleted \<Longrightarrow> step_proven st" "\<forall>v \<in> set (sp_Evidence st). validateEvidence v p = None"
    and "pl_Steps q = (pl_Steps p)[i := st]" "pl_Evidence q = pl_Evidence p" "same_basis q p"
  shows "proven q"
  using assms validateEvidence_basis [OF assms(7)] set_update_subset_insert [of "pl_Steps p" i st]
  unfolding proven_def by (auto dest!: subsetD)

lemma new_plan_ok:
  assumes "NewPlan env d now = Inr p"
  shows "plan_ok p \<and> ValidatePlan env p = None \<and> pl_Status p = PlanActive"
proof -
  have p: "p = drafted_plan env d now" "ValidatePlan env p = None" using assms by (auto simp: NewPlan_def split: if_splits)
  then have "df_Steps d \<noteq> []" using ValidatePlan_facts(3) [OF p(2)] by (auto simp: drafted_plan_def start_first_def draftSteps_def)
  then obtain s ss where "df_Steps d = s # ss" by (cases "df_Steps d") auto
  then have "plan_ok p"
    unfolding p plan_ok_def proven_def progress_def drafted_plan_def start_first_def draftSteps_def fresh_step_def steps_done_def
    by (auto intro!: exI [of _ "[]"])
  then show ?thesis using p by (simp add: drafted_plan_def start_first_def draftSteps_def split: list.split)
qed

lemma progress_same:
  assumes "progress p" "pl_CurrentStepID q = pl_CurrentStepID p"
    and "list_all2 (\<lambda>s t. sp_StepID t = sp_StepID s \<and> sp_Status t = sp_Status s) (pl_Steps p) (pl_Steps q)"
  shows "progress q"
proof -
  let ?same = "\<lambda>s t. sp_StepID t = sp_StepID s \<and> sp_Status t = sp_Status s"
  have keep: "(\<forall>t \<in> set bs. P (sp_Status t))" if "list_all2 ?same as bs" "\<forall>t \<in> set as. P (sp_Status t)" for as bs P
    using that by (induction rule: list_all2_induct) auto
  consider "steps_done (pl_Steps p)" "pl_CurrentStepID p = []"
    | ds s rs where "pl_Steps p = ds @ s # rs" "steps_done ds" "sp_Status s \<in> {StepActive, StepBlocked}"
        "pl_CurrentStepID p = sp_StepID s" "\<forall>t \<in> set rs. sp_Status t = StepPending"
    using assms(1) unfolding progress_def by blast
  then show ?thesis
  proof cases
    case 1
    then show ?thesis using keep [OF assms(3), of "\<lambda>x. x = StepCompleted"] assms(2) by (simp add: progress_def steps_done_def)
  next
    case 2
    from assms(3)[unfolded 2(1)] obtain ds' t rs' where q: "pl_Steps q = ds' @ t # rs'" "list_all2 ?same ds ds'" "?same s t" "list_all2 ?same rs rs'"
      by (auto simp: list_all2_append1 list_all2_Cons1)
    have "steps_done ds'" using keep [OF q(2), of "\<lambda>x. x = StepCompleted"] 2(2) by (simp add: steps_done_def)
    moreover have "\<forall>t \<in> set rs'. sp_Status t = StepPending" using keep [OF q(4), of "\<lambda>x. x = StepPending"] 2(5) by simp
    ultimately show ?thesis using q(1, 3) 2(3, 4) assms(2) unfolding progress_def
      by (intro disjI2 exI [of _ ds'] exI [of _ t] exI [of _ rs']) auto
  qed
qed

lemma place_evidence_ok:
  assumes "place_evidence p v = Inr p1" "progress p" "proven p" "validateEvidence v p = None"
  shows "progress p1" "proven p1" "same_basis p1 p" "pl_Status p1 = pl_Status p" "pl_CurrentStepID p1 = pl_CurrentStepID p"
    "map sp_StepID (pl_Steps p1) = map sp_StepID (pl_Steps p)" "pl_Revision p1 = pl_Revision p"
proof -
  let ?plan = "p\<lparr>pl_Evidence := pl_Evidence p @ [v]\<rparr>"
  let ?step = "\<lambda>i. (pl_Steps p ! i)\<lparr>sp_Evidence := sp_Evidence (pl_Steps p ! i) @ [v]\<rparr>"
  have "p1 = ?plan \<or> (\<exists>i. currentStepIndex p = Some i \<and> p1 = p\<lparr>pl_Steps := (pl_Steps p)[i := ?step i]\<rparr>)"
    using assms(1) by (auto simp: place_evidence_def Let_def split: option.splits if_splits)
  then have "progress p1 \<and> proven p1 \<and> map sp_StepID (pl_Steps p1) = map sp_StepID (pl_Steps p) \<and> same_basis p1 p
    \<and> pl_Status p1 = pl_Status p \<and> pl_CurrentStepID p1 = pl_CurrentStepID p \<and> pl_Revision p1 = pl_Revision p"
  proof (elim disjE exE conjE)
    assume p1: "p1 = ?plan"
    have "proven p1" using assms(3, 4) validateEvidence_basis [of p1 p] unfolding proven_def p1 by (auto simp: same_basis_def)
    then show ?thesis using assms(2) p1 by (simp add: progress_def same_basis_def)
  next
    fix i assume i: "currentStepIndex p = Some i" and p1: "p1 = p\<lparr>pl_Steps := (pl_Steps p)[i := ?step i]\<rparr>"
    then have len: "i < length (pl_Steps p)" by (simp add: currentStepIndex_Some)
    have "list_all2 (\<lambda>s t. sp_StepID t = sp_StepID s \<and> sp_Status t = sp_Status s) (pl_Steps p) (pl_Steps p1)"
      using len by (auto simp: p1 list_all2_conv_all_nth nth_list_update)
    then have "progress p1" using assms(2) by (rule progress_same [rotated 2]) (simp add: p1)
    moreover have "proven p1"
    proof (rule proven_step [OF assms(3) len])
      have old: "(sp_Status (pl_Steps p ! i) = StepCompleted \<longrightarrow> step_proven (pl_Steps p ! i)) \<and> (\<forall>v \<in> set (sp_Evidence (pl_Steps p ! i)). validateEvidence v p = None)"
        using assms(3) nth_mem [OF len] unfolding proven_def by blast
      then show "sp_Status (?step i) = StepCompleted \<Longrightarrow> step_proven (?step i)" by (simp add: step_proven_def conditionsSatisfied_append)
      show "\<forall>v \<in> set (sp_Evidence (?step i)). validateEvidence v p = None" using old assms(4) by simp
    qed (simp_all add: p1 same_basis_def)
    moreover have "map sp_StepID (pl_Steps p1) = map sp_StepID (pl_Steps p)"
      using len by (simp add: p1 map_update) (metis list_update_id map_update nth_map length_map)
    ultimately show ?thesis by (simp add: p1 same_basis_def)
  qed
  then show "progress p1" "proven p1" "same_basis p1 p" "pl_Status p1 = pl_Status p" "pl_CurrentStepID p1 = pl_CurrentStepID p"
    "map sp_StepID (pl_Steps p1) = map sp_StepID (pl_Steps p)" "pl_Revision p1 = pl_Revision p" by simp_all
qed

lemma complete_step_split:
  assumes "pl_Steps p = ds @ st # rest" "\<forall>t \<in> set rest. sp_Status t = StepPending"
  shows "complete_step (length ds) p =
    (let st' = st\<lparr>sp_Status := StepCompleted, sp_BlockedReason := ''''\<rparr>;
         p' = p\<lparr>pl_ConsecutiveFailures := 0, pl_LastFailureFamily := ''''\<rparr>
     in case rest of
       [] \<Rightarrow> p'\<lparr>pl_CurrentStepID := '''', pl_Steps := ds @ [st']\<rparr>
     | t # ts \<Rightarrow> p'\<lparr>pl_Steps := ds @ st' # t\<lparr>sp_Status := StepActive\<rparr> # ts, pl_CurrentStepID := sp_StepID t, pl_Phase := sp_Title t,
                   pl_Status := PlanActive\<rparr>)"
proof (cases rest)
  case Nil
  then show ?thesis by (simp add: complete_step_def activate_next_def assms(1) Let_def)
next
  case (Cons t ts)
  let ?steps = "ds @ st\<lparr>sp_Status := StepCompleted, sp_BlockedReason := ''''\<rparr> # t # ts"
  have "[Suc (length ds)..<length ?steps] = Suc (length ds) # [Suc (Suc (length ds))..<length ?steps]" by (rule upt_conv_Cons) simp
  then have "find (\<lambda>j. sp_Status (?steps ! j) = StepPending) [Suc (length ds)..<length ?steps] = Some (Suc (length ds))"
    using assms(2) Cons by (simp add: nth_append)
  then show ?thesis by (simp add: complete_step_def activate_next_def assms(1) Cons Let_def nth_append list_update_append)
qed

lemma currentStepIndex_cong:
  assumes "map sp_StepID (pl_Steps p) = map sp_StepID (pl_Steps q)" "pl_CurrentStepID p = pl_CurrentStepID q"
  shows "currentStepIndex p = currentStepIndex q"
proof -
  have "length (pl_Steps p) = length (pl_Steps q)" using assms(1) by (rule map_eq_imp_length_eq)
  moreover from this have "\<forall>i < length (pl_Steps p). sp_StepID (pl_Steps p ! i) = sp_StepID (pl_Steps q ! i)" using assms(1) by (metis nth_map)
  ultimately show ?thesis unfolding currentStepIndex_def assms(2) by (intro find_cong) auto
qed

lemma progress_cases:
  assumes "progress p" "distinct (map sp_StepID (pl_Steps p))" "[] \<notin> sp_StepID ` set (pl_Steps p)"
  obtains (finished) "steps_done (pl_Steps p)" "pl_CurrentStepID p = []" "currentStepIndex p = None"
    | (current) ds st rest where "pl_Steps p = ds @ st # rest" "steps_done ds" "sp_Status st \<in> {StepActive, StepBlocked}"
        "pl_CurrentStepID p = sp_StepID st" "\<forall>t \<in> set rest. sp_Status t = StepPending" "currentStepIndex p = Some (length ds)"
proof -
  consider "steps_done (pl_Steps p)" "pl_CurrentStepID p = []"
    | ds st rest where "pl_Steps p = ds @ st # rest" "steps_done ds" "sp_Status st \<in> {StepActive, StepBlocked}"
        "pl_CurrentStepID p = sp_StepID st" "\<forall>t \<in> set rest. sp_Status t = StepPending"
    using assms(1) unfolding progress_def by blast
  then show thesis
  proof cases
    case 1
    with currentStepIndex_none [OF assms(3)] show thesis by (intro finished)
  next
    case 2
    with currentStepIndex_at [OF assms(2)] show thesis by (intro current)
  qed
qed

lemma steps_done_append [simp]: "steps_done (as @ bs) \<longleftrightarrow> steps_done as \<and> steps_done bs"
  and steps_done_simps [simp]: "steps_done []" "steps_done (st # as) \<longleftrightarrow> sp_Status st = StepCompleted \<and> steps_done as"
  by (auto simp: steps_done_def)

lemma proven_split:
  assumes "proven p" "pl_Steps p = ds @ st # rest" "step_proven st"
    and "pl_Steps q = ds @ st\<lparr>sp_Status := StepCompleted, sp_BlockedReason := ''''\<rparr> # rest'"
    and "rest' = rest \<or> (\<exists>t ts. rest = t # ts \<and> rest' = t\<lparr>sp_Status := StepActive\<rparr> # ts)" "pl_Evidence q = pl_Evidence p" "same_basis q p"
  shows "proven q"
  using assms validateEvidence_basis [OF assms(7)] by (auto simp: proven_def step_proven_def ball_Un)

lemma advance_step_ok:
  assumes "advance_step (currentStepIndex p) p = (q, adv)" "progress p" "proven p"
    and ids: "distinct (map sp_StepID (pl_Steps p))" "[] \<notin> sp_StepID ` set (pl_Steps p)"
  shows "progress q \<and> proven q \<and> same_basis q p \<and> pl_Revision q = pl_Revision p \<and> pl_Status q \<in> {pl_Status p, PlanActive}
    \<and> map sp_StepID (pl_Steps q) = map sp_StepID (pl_Steps p)"
  using assms(2) ids
proof (cases rule: progress_cases)
  case finished
  then show ?thesis using assms(1-3) by (auto simp: advance_step_def same_basis_def)
next
  case (current ds st rest)
  show ?thesis
  proof (cases "step_proven st")
    case False
    then show ?thesis using assms(1-3) current by (auto simp: advance_step_def same_basis_def step_proven_def)
  next
    case True
    then have q: "q = complete_step (length ds) p" using assms(1) current by (simp add: advance_step_def step_proven_def)
    let ?st = "st\<lparr>sp_Status := StepCompleted, sp_BlockedReason := ''''\<rparr>"
    note q' = q [unfolded complete_step_split [OF current(1, 5)] Let_def]
    show ?thesis
    proof (cases rest)
      case Nil
      then have "proven q" using q' current by (intro proven_split [OF assms(3) current(1) True, of q "[]"]) (simp_all add: same_basis_def)
      then show ?thesis using q' Nil current by (simp add: progress_def same_basis_def)
    next
      case (Cons t ts)
      let ?t = "t\<lparr>sp_Status := StepActive\<rparr>"
      have "proven q" using q' Cons current by (intro proven_split [OF assms(3) current(1) True, of q "?t # ts"]) (simp_all add: same_basis_def)
      moreover have "progress q"
        unfolding progress_def using q' Cons current by (intro disjI2 exI [of _ "ds @ [?st]"] exI [of _ ?t] exI [of _ ts]) simp
      ultimately show ?thesis using q' Cons current by (simp add: same_basis_def)
    qed
  qed
qed

lemma finish_plan_ok:
  assumes "progress p" "proven p" "[] \<notin> sp_StepID ` set (pl_Steps p)" "pl_Status p \<in> {PlanActive, PlanBlocked}"
  shows "plan_ok (finish_plan p)" "same_basis (finish_plan p) p" "pl_Revision (finish_plan p) = pl_Revision p"
proof -
  have "steps_done (pl_Steps p)" if "pl_CurrentStepID p = []" using assms(1, 3) that unfolding progress_def by force
  moreover have "proven (p\<lparr>pl_Status := PlanCompleted\<rparr>) = proven p" by (rule proven_cong) (simp_all add: same_basis_def)
  ultimately show "plan_ok (finish_plan p)" using assms(1, 2, 4) unfolding finish_plan_def plan_ok_def by auto
qed (simp_all add: finish_plan_def same_basis_def)

lemma bump_ok: "plan_ok (bump_revision now p) = plan_ok p"
proof -
  have "proven (bump_revision now p) = proven p" by (rule proven_cong) (simp_all add: bump_revision_def same_basis_def)
  moreover have "progress (bump_revision now p) = progress p" by (simp add: progress_def bump_revision_def)
  ultimately show ?thesis by (simp add: plan_ok_def) (simp add: bump_revision_def split: plan_status.split)
qed

text \<open>
  What accepted evidence does: a known identifier changes nothing; new evidence makes a new revision, of a plan that is still
  well-formed.
\<close>

lemma ApplyEvidence_cases:
  assumes "ApplyEvidence env p v now = Inr (q, adv)"
  obtains (known) "q = p" "\<not> adv" "findEvidence (pl_Evidence p) (pv_EvidenceID v) \<or> evidenceInSteps (pl_Steps p) (pv_EvidenceID v)"
      "ValidatePlan env p = None"
  | (new) p1 p2 where "place_evidence p v = Inr p1" "advance_step (currentStepIndex p) p1 = (p2, adv)"
      "q = bump_revision now (finish_plan p2)" "ValidatePlan env q = None" "ValidatePlan env p = None" "validateEvidence v p = None"
      "pl_Status p \<in> {PlanActive, PlanBlocked}" "\<not> findEvidence (pl_Evidence p) (pv_EvidenceID v)"
      "\<not> evidenceInSteps (pl_Steps p) (pv_EvidenceID v)"
proof (cases "findEvidence (pl_Evidence p) (pv_EvidenceID v) \<or> evidenceInSteps (pl_Steps p) (pv_EvidenceID v)")
  case True
  then show thesis using known assms by (auto simp: ApplyEvidence_def)
next
  case False
  then obtain p1 where p1: "place_evidence p v = Inr p1" "ValidatePlan env p = None" "validateEvidence v p = None"
      "pl_Status p \<in> {PlanActive, PlanBlocked}"
    using assms by (auto simp: ApplyEvidence_def ebind_Inr_iff)
  obtain p2 b where p2: "advance_step (currentStepIndex p) p1 = (p2, b)" by (cases "advance_step (currentStepIndex p) p1")
  with p1 False assms have "b = adv" "q = bump_revision now (finish_plan p2)" "ValidatePlan env q = None"
    by (auto simp: ApplyEvidence_def Let_def)
  then show thesis using new p1 p2 False by blast
qed

lemma ValidatePlan_ids:
  assumes "ValidatePlan env p = None"
  shows "distinct (map sp_StepID (pl_Steps p))" "[] \<notin> sp_StepID ` set (pl_Steps p)"
  using validate_plan_steps_facts(1, 2) [OF ValidatePlan_facts(1) [OF assms]] by blast+

lemma ApplyEvidence_ok:
  assumes "ApplyEvidence env p v now = Inr (q, adv)" "plan_ok p"
  shows "plan_ok q \<and> ValidatePlan env q = None"
  using assms(1)
proof (cases rule: ApplyEvidence_cases)
  case known
  then show ?thesis using assms(2) by simp
next
  case (new p1 p2)
  have p: "progress p" "proven p" using assms(2) new(7) by (auto simp: plan_ok_def)
  note placed = place_evidence_ok [OF new(1) p new(6)]
  have "currentStepIndex p = currentStepIndex p1" using placed by (intro currentStepIndex_cong) simp_all
  moreover have "distinct (map sp_StepID (pl_Steps p1))" "[] \<notin> sp_StepID ` set (pl_Steps p1)"
    using ValidatePlan_ids [OF new(5)] placed(6) by (simp, metis set_map)
  ultimately have adv: "progress p2" "proven p2" "pl_Status p2 \<in> {pl_Status p1, PlanActive}" "map sp_StepID (pl_Steps p2) = map sp_StepID (pl_Steps p1)"
    using advance_step_ok [of p1 p2 adv] new(2) placed by simp_all
  then have "[] \<notin> sp_StepID ` set (pl_Steps p2)" using \<open>[] \<notin> sp_StepID ` set (pl_Steps p1)\<close> by (metis set_map)
  with adv have "plan_ok (finish_plan p2)" using new(7) placed(4) by (intro finish_plan_ok(1)) auto
  then show ?thesis using new(3, 4) by (simp add: bump_ok)
qed

lemma record_failure_ok:
  assumes "progress p" "proven p" "pl_Status p = PlanActive" "currentStepIndex p = Some i"
    and ids: "distinct (map sp_StepID (pl_Steps p))" "[] \<notin> sp_StepID ` set (pl_Steps p)"
  shows "plan_ok (record_failure operationID family code i p)"
  using assms(1) ids
proof (cases rule: progress_cases)
  case finished
  then show ?thesis using assms(4) by simp
next
  case (current ds st rest)
  let ?q = "record_failure operationID family code i p"
  have i: "i = length ds" using assms(4) current(6) by simp
  define st1 where "st1 = st\<lparr>sp_Attempt := sp_Attempt st + 1\<rparr>"
  define st' where "st' = (if sp_MaxAttempts st1 \<le> sp_Attempt st1 then st1\<lparr>sp_Status := StepBlocked, sp_BlockedReason := code\<rparr> else st1)"
  have st': "pl_Steps ?q = ds @ st' # rest" "sp_Status st' \<in> {StepActive, StepBlocked}" "sp_StepID st' = sp_StepID st"
      "sp_Evidence st' = sp_Evidence st"
    using current(3) by (auto simp: record_failure_def Let_def i current(1) list_update_append nth_append st'_def st1_def)
  have frame: "pl_CurrentStepID ?q = pl_CurrentStepID p" "pl_Evidence ?q = pl_Evidence p" "same_basis ?q p" "pl_Status ?q \<in> {PlanActive, PlanBlocked}"
    using assms(3) by (simp_all add: record_failure_def Let_def same_basis_def)
  have "progress ?q" unfolding progress_def using st' current frame by (intro disjI2 exI [of _ ds] exI [of _ st'] exI [of _ rest]) simp
  moreover have "proven ?q" using assms(2) validateEvidence_basis [OF frame(3)] st' frame unfolding proven_def current(1)
    by (auto simp: ball_Un)
  ultimately show ?thesis using frame(4) by (auto simp: plan_ok_def)
qed

lemma ApplyFailure_cases:
  assumes "ApplyFailure env p operationID family code now = Inr q"
  obtains i where "currentStepIndex p = Some i" "pl_Status p = PlanActive" "q = bump_revision now (record_failure operationID family code i p)"
    "ValidatePlan env p = None" "ValidatePlan env q = None"
  using assms by (auto simp: ApplyFailure_def Let_def split: option.splits if_splits)

lemma ApplyFailure_ok:
  assumes "ApplyFailure env p operationID family code now = Inr q" "plan_ok p"
  shows "plan_ok q \<and> ValidatePlan env q = None"
  using assms(1)
proof (cases rule: ApplyFailure_cases)
  case (1 i)
  then have "plan_ok (record_failure operationID family code i p)"
    using assms(2) ValidatePlan_ids [OF 1(4)] by (intro record_failure_ok) (simp_all add: plan_ok_def)
  then show ?thesis using 1 by (simp add: bump_ok)
qed

end
