(* ===== verification/Task_Store.thy ===== *)
theory Task_Store
  imports Task_Plan
begin

section \<open>The store of plans\<close>

text \<open>
  The store of \<open>src/taskstate/store.go\<close>: three tables, of plans, of their events and of the operations linked to them. A
  table is a list of rows in the order of insertion; the columns of a plan other than its JSON text repeat fields of the plan,
  and the JSON text decodes to the plan it was made from. Every method is one transaction under the lock of the store, so that a
  method that fails leaves the tables as they were. The SQL statements are the queries below: unique indices refuse an insertion,
  \<open>INSERT OR IGNORE\<close> keeps the row that is there, \<open>AUTOINCREMENT\<close> counts the events. Failures of the disk, cancelled contexts
  and the channels of waiting readers are left out.
\<close>

subsection \<open>Tables\<close>

record plan_event =
  pn_Sequence :: nat
  pn_PlanID :: string
  pn_Revision :: u64
  pn_Kind :: string
  pn_Summary :: string
  pn_Evidence :: "plan_evidence option"
  pn_OperationID :: string
  pn_OccurredAt :: int

record operation_link =
  lk_OperationID :: string
  lk_PlanID :: string
  lk_PlanRevision :: u64
  lk_StepID :: string
  lk_ConditionIDs :: "string list"

record operation_row =
  ow_Link :: operation_link
  ow_Terminal :: bool
  ow_OutcomeDigest :: string

record plan_store =
  tb_plans :: "plan_state list"
  tb_events :: "plan_event list"
  tb_operations :: "operation_row list"
  tb_sequence :: nat
  tb_maxPlans :: u32
  tb_maxEvents :: u32
  tb_closed :: bool

record event_page =
  pg_Events :: "plan_event list"
  pg_NextCursor :: nat
  pg_More :: bool

record revise_input =
  rv_PlanID :: string
  rv_ExpectedRevision :: u64
  rv_Reason :: replan_reason
  rv_Summary :: string
  rv_Draft :: plan_draft

record status_input =
  sx_PlanID :: string
  sx_ExpectedRevision :: u64
  sx_Status :: plan_status
  sx_Summary :: string

record operation_result =
  rz_OperationID :: string
  rz_ExecutionConfirmed :: bool
  rz_Outcome :: action_outcome

type_synonym 'a store_result = "(task_error + 'a) \<times> plan_store"

definition task_fault :: "task_error_kind \<Rightarrow> task_error" where
  "task_fault k = TaskError k ''''"

definition defaultMaxPlans :: u32 where "defaultMaxPlans = 1024"
definition defaultMaxEvents :: u32 where "defaultMaxEvents = 4096"

text \<open>The limits a store is opened with; opening the database file is left out.\<close>

definition OpenStore :: "u32 \<Rightarrow> u32 \<Rightarrow> task_error + plan_store" where
  "OpenStore maxPlans maxEvents =
     (let maxPlans = (if maxPlans = 0 then defaultMaxPlans else maxPlans);
          maxEvents = (if maxEvents = 0 then defaultMaxEvents else maxEvents)
      in if maxPlans > 100000 \<or> maxEvents > 100000 then Inl (task_fault TaskCapacity)
         else Inr \<lparr>tb_plans = [], tb_events = [], tb_operations = [], tb_sequence = 0, tb_maxPlans = maxPlans, tb_maxEvents = maxEvents,
                   tb_closed = False\<rparr>)"

subsection \<open>Statements\<close>

definition open_status :: "plan_status \<Rightarrow> bool" where
  "open_status m \<longleftrightarrow> m \<in> {PlanPlanned, PlanActive, PlanBlocked, PlanPaused}"

definition open_plans :: "plan_store \<Rightarrow> plan_state list" where
  "open_plans s = filter (\<lambda>p. open_status (pl_Status p)) (tb_plans s)"

text \<open>The unique index over session and actor of open plans.\<close>

definition same_seat :: "plan_state \<Rightarrow> plan_state \<Rightarrow> bool" where
  "same_seat p q \<longleftrightarrow>
     open_status (pl_Status p) \<and> open_status (pl_Status q) \<and> pl_SessionID p = pl_SessionID q \<and> pl_ActorID p = pl_ActorID q"

definition insertPlan :: "plan_state \<Rightarrow> plan_store \<Rightarrow> task_error + plan_store" where
  "insertPlan p s =
     (if list_ex (\<lambda>q. pl_PlanID q = pl_PlanID p \<or> pl_TaskID q = pl_TaskID p \<or> same_seat q p) (tb_plans s)
      then Inl (TaskError TaskPlain ''UNIQUE constraint failed'')
      else Inr (s\<lparr>tb_plans := tb_plans s @ [p]\<rparr>))"

definition classifyStoreError :: "task_error \<Rightarrow> task_error" where
  "classifyStoreError e = (if e = TaskError TaskPlain ''UNIQUE constraint failed'' then task_fault TaskConflict else e)"

definition replacePlan :: "u64 \<Rightarrow> plan_state \<Rightarrow> plan_store \<Rightarrow> task_error + plan_store" where
  "replacePlan expected p s =
     (let hit = (\<lambda>q. pl_PlanID q = pl_PlanID p \<and> pl_Revision q = expected) in
      if \<not> list_ex hit (tb_plans s) then Inl (task_fault TaskConflict)
      else if list_ex (\<lambda>q. pl_PlanID q \<noteq> pl_PlanID p \<and> same_seat q p) (tb_plans s) then Inl (TaskError TaskPlain ''UNIQUE constraint failed'')
      else Inr (s\<lparr>tb_plans := map (\<lambda>q. if hit q then p else q) (tb_plans s)\<rparr>))"

definition decodeStoredPlan :: "go_env \<Rightarrow> plan_state \<Rightarrow> task_error + plan_state" where
  "decodeStoredPlan env p =
     (case ValidatePlan env p of
        Some e \<Rightarrow> Inl (TaskError TaskPersist (''stored plan: '' @ task_error_string e))
      | None \<Rightarrow> Inr p)"

definition plan_at :: "plan_store \<Rightarrow> string \<Rightarrow> plan_state option" where
  "plan_at s i = find (\<lambda>p. pl_PlanID p = i) (tb_plans s)"

definition loadPlan :: "go_env \<Rightarrow> plan_store \<Rightarrow> string \<Rightarrow> task_error + plan_state" where
  "loadPlan env s i = (case plan_at s i of None \<Rightarrow> Inl (task_fault TaskNotFound) | Some p \<Rightarrow> decodeStoredPlan env p)"

definition insertEvent ::
  "plan_state \<Rightarrow> string \<Rightarrow> string \<Rightarrow> plan_evidence option \<Rightarrow> string \<Rightarrow> int \<Rightarrow> plan_store \<Rightarrow> task_error + plan_store" where
  "insertEvent p kind summary evidence operationID now s =
     (if length (filter (\<lambda>e. pn_PlanID e = pl_PlanID p) (tb_events s)) \<ge> unat (tb_maxEvents s) then Inl (task_fault TaskCapacity)
      else Inr (s\<lparr>tb_sequence := Suc (tb_sequence s),
                 tb_events := tb_events s @ [\<lparr>pn_Sequence = Suc (tb_sequence s), pn_PlanID = pl_PlanID p, pn_Revision = pl_Revision p,
                   pn_Kind = kind, pn_Summary = summary, pn_Evidence = evidence, pn_OperationID = operationID, pn_OccurredAt = now\<rparr>]\<rparr>))"

definition operation_row_at :: "plan_store \<Rightarrow> string \<Rightarrow> operation_row option" where
  "operation_row_at s i = find (\<lambda>r. lk_OperationID (ow_Link r) = i) (tb_operations s)"

definition unfinished :: "plan_store \<Rightarrow> string \<Rightarrow> operation_row list" where
  "unfinished s i = filter (\<lambda>r. lk_PlanID (ow_Link r) = i \<and> \<not> ow_Terminal r) (tb_operations s)"

text \<open>A method: nothing on a closed store, and a transaction that is undone by an error.\<close>

definition transaction :: "plan_store \<Rightarrow> (task_error + 'a \<times> plan_store) \<Rightarrow> 'a store_result" where
  "transaction s body =
     (if tb_closed s then (Inl (task_fault TaskClosed), s)
      else case body of Inl e \<Rightarrow> (Inl e, s) | Inr (a, s') \<Rightarrow> (Inr a, s'))"

subsection \<open>Methods\<close>

definition Store_Create :: "go_env \<Rightarrow> int \<Rightarrow> plan_store \<Rightarrow> plan_draft \<Rightarrow> plan_state store_result" where
  "Store_Create env now s d =
     (case NewPlan env d now of
        Inl e \<Rightarrow> (Inl e, s)
      | Inr p \<Rightarrow>
          transaction s
            (if length (open_plans s) \<ge> unat (tb_maxPlans s) then Inl (task_fault TaskCapacity)
             else case insertPlan p s of
               Inl e \<Rightarrow> Inl (classifyStoreError e)
             | Inr s1 \<Rightarrow> ebind (insertEvent p ''plan.created'' ''Plan created.'' None '''' now s1) (\<lambda>s2. Inr (p, s2))))"

definition Store_Get :: "go_env \<Rightarrow> plan_store \<Rightarrow> string \<Rightarrow> task_error + plan_state" where
  "Store_Get env s i =
     guard_err (task_validateText ''plan_id'' i 256 True)
       (if tb_closed s then Inl (task_fault TaskClosed) else loadPlan env s i)"

definition Store_GetForTask :: "go_env \<Rightarrow> plan_store \<Rightarrow> string \<Rightarrow> task_error + plan_state" where
  "Store_GetForTask env s i =
     guard_err (task_validateText ''task_id'' i 256 True)
       (if tb_closed s then Inl (task_fault TaskClosed)
        else case find (\<lambda>p. pl_TaskID p = i) (tb_plans s) of
          Some p \<Rightarrow> decodeStoredPlan env p
        | None \<Rightarrow> loadPlan env s i)"

definition recent_first :: "plan_state list \<Rightarrow> plan_state list" where
  "recent_first ps = sort_key (\<lambda>p. - pl_UpdatedAt p) (sort_key pl_PlanID ps)"

fun decode_all :: "go_env \<Rightarrow> plan_state list \<Rightarrow> task_error + plan_state list" where
  "decode_all env [] = Inr []"
| "decode_all env (p # ps) = ebind (decodeStoredPlan env p) (\<lambda>q. ebind (decode_all env ps) (\<lambda>qs. Inr (q # qs)))"

definition Store_List :: "go_env \<Rightarrow> plan_store \<Rightarrow> task_error + plan_state list" where
  "Store_List env s =
     (if tb_closed s then Inl (task_fault TaskClosed)
      else let archived = take (unat (tb_maxPlans s)) (recent_first (filter (\<lambda>p. terminalPlanStatus (pl_Status p)) (tb_plans s)));
               listed = filter (\<lambda>p. open_status (pl_Status p) \<or> pl_PlanID p \<in> pl_PlanID ` set archived) (tb_plans s)
           in decode_all env (recent_first listed))"

fun replan_reason_string :: "replan_reason \<Rightarrow> string" where
  "replan_reason_string ReplanGoalChanged = ''goal-changed''"
| "replan_reason_string ReplanRequiredCapabilityMissing = ''required-capability-missing''"
| "replan_reason_string ReplanFailureThresholdReached = ''failure-threshold-reached''"
| "replan_reason_string ReplanEpochInvalidated = ''epoch-invalidated''"
| "replan_reason_string ReplanManualAuthorized = ''manual-authorized''"
| "replan_reason_string (ReplanReasonOther t) = t"

fun plan_status_string :: "plan_status \<Rightarrow> string" where
  "plan_status_string PlanPlanned = ''planned''"
| "plan_status_string PlanActive = ''active''"
| "plan_status_string PlanBlocked = ''blocked''"
| "plan_status_string PlanPaused = ''paused''"
| "plan_status_string PlanCompleted = ''completed''"
| "plan_status_string PlanFailed = ''failed''"
| "plan_status_string PlanCancelled = ''cancelled''"
| "plan_status_string (PlanStatusOther t) = t"

definition validReplanReason :: "replan_reason \<Rightarrow> bool" where
  "validReplanReason r \<longleftrightarrow> r \<in> {ReplanGoalChanged, ReplanRequiredCapabilityMissing, ReplanFailureThresholdReached, ReplanEpochInvalidated,
     ReplanManualAuthorized}"

text \<open>The draft of a revision takes everything that identifies the plan from the current one.\<close>

definition rebased_draft :: "plan_state \<Rightarrow> plan_draft \<Rightarrow> plan_draft" where
  "rebased_draft p d =
     d\<lparr>df_PlanID := pl_PlanID p, df_TaskID := pl_TaskID p, df_SessionID := pl_SessionID p, df_HostID := pl_HostID p,
       df_WorldID := pl_WorldID p, df_ActorID := pl_ActorID p, df_ControllerID := pl_ControllerID p,
       df_ControllerSource := pl_ControllerSource p, df_PlanningMode := pl_PlanningMode p, df_MaxReplans := pl_MaxReplans p\<rparr>"

definition Store_Revise :: "go_env \<Rightarrow> int \<Rightarrow> plan_store \<Rightarrow> revise_input \<Rightarrow> plan_state store_result" where
  "Store_Revise env now s input =
     (case first_err [
         task_validateText ''summary'' (rv_Summary input) 500 True,
         require (validReplanReason (rv_Reason input)) (task_invalid ''reason'' ''is unsupported'')] of
        Some e \<Rightarrow> (Inl e, s)
      | None \<Rightarrow>
          transaction s (ebind (loadPlan env s (rv_PlanID input)) (\<lambda>current.
            guard_err (first_err [
                require (pl_Revision current = rv_ExpectedRevision input) (task_fault TaskConflict),
                require (\<not> (terminalPlanStatus (pl_Status current) \<or> pl_MaxReplans current \<le> pl_ReplanCount current)) (task_fault TaskConflict),
                require (unfinished s (pl_PlanID current) = []) (TaskError TaskConflict ''plan has an unfinished operation'')])
              (ebind (NewPlan env (rebased_draft current (rv_Draft input)) now) (\<lambda>p.
                let next = p\<lparr>pl_CreatedAt := pl_CreatedAt current, pl_Revision := pl_Revision current + 1,
                             pl_ReplanCount := pl_ReplanCount current + 1\<rparr> in
                guard_err (ValidatePlan env next)
                  (ebind (replacePlan (pl_Revision current) next s) (\<lambda>s1.
                   ebind (insertEvent next (''plan.revised.'' @ replan_reason_string (rv_Reason input)) (rv_Summary input) None '''' now s1)
                     (\<lambda>s2. Inr (next, s2))))))))) "

definition skip_open_steps :: "plan_step list \<Rightarrow> plan_step list" where
  "skip_open_steps sts = map (\<lambda>st. if sp_Status st \<in> {StepActive, StepPending, StepBlocked} then st\<lparr>sp_Status := StepSkipped\<rparr> else st) sts"

definition with_status :: "plan_status \<Rightarrow> plan_state \<Rightarrow> plan_state" where
  "with_status m p =
     (let p = p\<lparr>pl_Status := m\<rparr> in
      if m = PlanCancelled then p\<lparr>pl_Steps := skip_open_steps (pl_Steps p), pl_CurrentStepID := ''''\<rparr> else p)"

definition Store_SetStatus :: "go_env \<Rightarrow> int \<Rightarrow> plan_store \<Rightarrow> status_input \<Rightarrow> plan_state store_result" where
  "Store_SetStatus env now s input =
     (case first_err [
         require (sx_Status input \<in> {PlanPaused, PlanActive, PlanCancelled})
           (task_invalid ''status'' ''only active, paused, or cancelled is accepted''),
         task_validateText ''summary'' (sx_Summary input) 500 True] of
        Some e \<Rightarrow> (Inl e, s)
      | None \<Rightarrow>
          transaction s (ebind (loadPlan env s (sx_PlanID input)) (\<lambda>p.
            guard_err (first_err [
                require (pl_Revision p = sx_ExpectedRevision input \<and> \<not> terminalPlanStatus (pl_Status p)) (task_fault TaskConflict),
                require (\<not> (sx_Status input = PlanActive \<and> pl_Status p \<noteq> PlanPaused)) (TaskError TaskConflict ''only a paused plan can resume''),
                require (\<not> (sx_Status input = PlanPaused \<and> pl_Status p \<noteq> PlanActive \<and> pl_Status p \<noteq> PlanBlocked))
                  (TaskError TaskConflict ''plan cannot be paused''),
                require (\<not> (sx_Status input = PlanCancelled \<and> unfinished s (pl_PlanID p) \<noteq> []))
                  (TaskError TaskConflict ''cancel linked operations first'')])
              (let next = bump_revision now (with_status (sx_Status input) p) in
               guard_err (ValidatePlan env next)
                 (ebind (replacePlan (sx_ExpectedRevision input) next s) (\<lambda>s1.
                  ebind (insertEvent next (''plan.'' @ plan_status_string (sx_Status input)) (sx_Summary input) None '''' (pl_UpdatedAt next) s1)
                    (\<lambda>s2. Inr (next, s2))))))))"

definition validateOperationLink :: "operation_link \<Rightarrow> task_error option" where
  "validateOperationLink l =
     first_err [
       task_validateText ''operation_id'' (lk_OperationID l) 256 True,
       task_validateText ''plan_id'' (lk_PlanID l) 256 True,
       task_validateText ''step_id'' (lk_StepID l) 256 True,
       require (lk_PlanRevision l \<noteq> 0 \<and> unat (lk_PlanRevision l) \<le> maxWireInteger \<and> length (lk_ConditionIDs l) \<le> 24) (task_fault TaskInvalid),
       loop_err (\<lambda>i seen c. first_err [
           task_validateText ''condition_id'' c 128 True,
           require (\<not> (seen \<noteq> [] \<and> last seen = c)) (task_fault TaskInvalid)]) [] (sort (lk_ConditionIDs l))]"

definition validateLinkConditions :: "plan_state \<Rightarrow> operation_link \<Rightarrow> task_error option" where
  "validateLinkConditions p l =
     (case currentStepIndex p of
        None \<Rightarrow> Some (task_fault TaskConflict)
      | Some i \<Rightarrow>
          loop_err (\<lambda>j seen c. require (conditionInList (sp_SuccessConditions (pl_Steps p ! i)) c EvidenceOperationOutcome
              \<or> conditionInList (pl_SuccessConditions p) c EvidenceOperationOutcome)
            (task_invalid ''condition_ids'' ''must name operation-outcome conditions'')) [] (lk_ConditionIDs l))"

definition operationLinksCompatible :: "operation_link \<Rightarrow> operation_link \<Rightarrow> bool" where
  "operationLinksCompatible a b \<longleftrightarrow>
     lk_OperationID a = lk_OperationID b \<and> lk_PlanID a = lk_PlanID b \<and> lk_PlanRevision a = lk_PlanRevision b \<and> lk_StepID a = lk_StepID b
     \<and> (lk_ConditionIDs a = [] \<or> lk_ConditionIDs b = [] \<or> lk_ConditionIDs a = lk_ConditionIDs b)"

text \<open>\<open>INSERT OR IGNORE\<close>, and the comparison with the row that is there.\<close>

definition insert_link :: "operation_link \<Rightarrow> plan_store \<Rightarrow> task_error + unit \<times> plan_store" where
  "insert_link l s =
     (case operation_row_at s (lk_OperationID l) of
        None \<Rightarrow> Inr ((), s\<lparr>tb_operations := tb_operations s @ [\<lparr>ow_Link = l, ow_Terminal = False, ow_OutcomeDigest = ''''\<rparr>]\<rparr>)
      | Some r \<Rightarrow> if operationLinksCompatible (ow_Link r) l then Inr ((), s) else Inl (task_fault TaskConflict))"

definition LinkOperation :: "go_env \<Rightarrow> plan_store \<Rightarrow> operation_link \<Rightarrow> unit store_result" where
  "LinkOperation env s l0 =
     (case validateOperationLink l0 of
        Some e \<Rightarrow> (Inl e, s)
      | None \<Rightarrow>
          transaction s (ebind (loadPlan env s (lk_PlanID l0)) (\<lambda>p.
            let l = l0\<lparr>lk_ConditionIDs := sort (lk_ConditionIDs l0)\<rparr> in
            guard_err (first_err [
                require (pl_Revision p = lk_PlanRevision l \<and> pl_Status p = PlanActive \<and> pl_CurrentStepID p = lk_StepID l) (task_fault TaskConflict),
                validateLinkConditions p l0,
                require (filter (\<lambda>r. lk_OperationID (ow_Link r) \<noteq> lk_OperationID l) (unfinished s (lk_PlanID l)) = [])
                  (TaskError TaskConflict ''current step already has an unfinished operation'')])
              (insert_link l s))))"

definition applyTrustedEvidence ::
  "go_env \<Rightarrow> int \<Rightarrow> plan_store \<Rightarrow> string \<Rightarrow> u64 \<Rightarrow> plan_evidence \<Rightarrow> string \<Rightarrow> plan_state store_result" where
  "applyTrustedEvidence env now s planID expected v summary =
     (case task_validateText ''summary'' summary 500 True of
        Some e \<Rightarrow> (Inl e, s)
      | None \<Rightarrow>
          transaction s (ebind (loadPlan env s planID) (\<lambda>p.
            guard_err (require (pl_Revision p = expected) (task_fault TaskConflict))
              (ebind (ApplyEvidence env p v now) (\<lambda>(next, changed).
                if \<not> changed \<and> pl_Revision next = pl_Revision p then Inr (next, s)
                else ebind (replacePlan (pl_Revision p) next s) (\<lambda>s1.
                  ebind (insertEvent next ''plan.evidence'' summary (Some v) (pv_OperationID v) (pl_UpdatedAt next) s1)
                    (\<lambda>s2. Inr (next, s2))))))))"

definition ReconcileOperationLink :: "go_env \<Rightarrow> plan_store \<Rightarrow> operation_link \<Rightarrow> unit store_result" where
  "ReconcileOperationLink env s l0 =
     (case validateOperationLink l0 of
        Some e \<Rightarrow> (Inl e, s)
      | None \<Rightarrow>
          transaction s (ebind (loadPlan env s (lk_PlanID l0)) (\<lambda>p.
            let l = l0\<lparr>lk_ConditionIDs := sort (lk_ConditionIDs l0)\<rparr> in
            guard_err (require (lk_PlanRevision l \<le> pl_Revision p) (task_fault TaskConflict)) (insert_link l s))))"

definition outcome_evidence :: "string \<Rightarrow> string \<Rightarrow> string \<Rightarrow> action_outcome \<Rightarrow> string \<Rightarrow> int \<Rightarrow> plan_evidence" where
  "outcome_evidence evidenceID conditionID operationID oc digest now =
     \<lparr>pv_EvidenceID = evidenceID, pv_ConditionID = conditionID, pv_Kind = EvidenceOperationOutcome, pv_OperationID = operationID,
      pv_Epoch = ao_Epoch oc, pv_ObservationSequence = ao_WorldSeq oc, pv_Digest = digest, pv_RecordedAt = now\<rparr>"

fun apply_conditions :: "go_env \<Rightarrow> string \<Rightarrow> action_outcome \<Rightarrow> string \<Rightarrow> int \<Rightarrow> string list \<Rightarrow> plan_state \<Rightarrow> task_error + plan_state" where
  "apply_conditions env operationID oc digest now [] p = Inr p"
| "apply_conditions env operationID oc digest now (c # cs) p =
     ebind (ApplyEvidence env p (outcome_evidence (operationID @ ''.'' @ c) c operationID oc digest now) now) (\<lambda>(q, _).
       apply_conditions env operationID oc digest now cs q)"

text \<open>What an applicable outcome makes of the plan, and whether it was written.\<close>

definition settle_plan :: "go_env \<Rightarrow> int \<Rightarrow> operation_link \<Rightarrow> action_outcome \<Rightarrow> string \<Rightarrow> plan_state \<Rightarrow> task_error + plan_state \<times> bool" where
  "settle_plan env now l oc digest p =
     (if \<not> (pl_Revision p = lk_PlanRevision l \<and> pl_CurrentStepID p = lk_StepID l) then Inr (p, False)
      else if ao_Status oc = ActionSucceeded
      then ebind (apply_conditions env (lk_OperationID l) oc digest now (lk_ConditionIDs l) p) (\<lambda>q. Inr (q, lk_ConditionIDs l \<noteq> []))
      else let family = action_run_status_string (ao_Status oc); code = (if ao_Code oc = [] then family else ao_Code oc) in
        ebind (ApplyFailure env p (lk_OperationID l) family code now) (\<lambda>q. Inr (q, True)))"

definition settle_row :: "string \<Rightarrow> string \<Rightarrow> plan_store \<Rightarrow> plan_store" where
  "settle_row operationID digest s =
     s\<lparr>tb_operations := map (\<lambda>r. if lk_OperationID (ow_Link r) = operationID then r\<lparr>ow_Terminal := True, ow_OutcomeDigest := digest\<rparr> else r)
         (tb_operations s)\<rparr>"

text \<open>\<open>digest_of\<close> is the digest of the JSON text of an outcome.\<close>

definition ApplyOperationResult ::
  "go_env \<Rightarrow> (action_outcome \<Rightarrow> string) \<Rightarrow> int \<Rightarrow> plan_store \<Rightarrow> operation_result \<Rightarrow> (plan_state \<times> bool) store_result" where
  "ApplyOperationResult env digest_of now s result =
     (let oc = rz_Outcome result; operationID = rz_OperationID result; digest = digest_of oc in
      case first_err [
          require (rz_ExecutionConfirmed result) (task_invalid ''execution_confirmed'' ''must be true''),
          map_option (\<lambda>e. TaskError TaskInvalid (''outcome: '' @ validation_text e)) (ValidateActionOutcome oc),
          require (operationID = ao_OperationID oc) (task_invalid ''operation_id'' ''does not match outcome'')] of
        Some e \<Rightarrow> (Inl e, s)
      | None \<Rightarrow>
          transaction s
            (case operation_row_at s operationID of
               None \<Rightarrow> Inl (task_fault TaskNotFound)
             | Some r \<Rightarrow>
                 let l = ow_Link r in
                 ebind (loadPlan env s (lk_PlanID l)) (\<lambda>p.
                   if ow_Terminal r then
                     (if ow_OutcomeDigest r \<noteq> digest then Inl (task_fault TaskConflict) else Inr ((p, False), s))
                   else ebind (settle_plan env now l oc digest p) (\<lambda>(q, changed).
                     ebind (if changed then replacePlan (lk_PlanRevision l) q s else Inr s) (\<lambda>s1.
                     let kind = (if pl_Revision p = lk_PlanRevision l \<and> pl_CurrentStepID p = lk_StepID l then ''operation.outcome''
                                 else ''operation.stale'') in
                     ebind (insertEvent q kind (ao_Summary oc) (Some (outcome_evidence operationID ''operation.result'' operationID oc digest now))
                         operationID now (settle_row operationID digest s1)) (\<lambda>s2.
                       Inr ((q, changed), s2)))))))"

definition Store_Events :: "go_env \<Rightarrow> plan_store \<Rightarrow> string \<Rightarrow> nat \<Rightarrow> u32 \<Rightarrow> task_error + event_page" where
  "Store_Events env s planID after limit0 =
     (let limit = (if limit0 = 0 then 64 else limit0) in
      if limit > 256 then Inl (task_fault TaskCapacity)
      else if tb_closed s then Inl (task_fault TaskClosed)
      else ebind (loadPlan env s planID) (\<lambda>p.
        let found = take (unat limit + 1) (sort_key pn_Sequence (filter (\<lambda>e. pn_PlanID e = planID \<and> after < pn_Sequence e) (tb_events s)));
            events = take (unat limit) found
        in Inr \<lparr>pg_Events = events, pg_NextCursor = (if events = [] then after else pn_Sequence (last events)),
                pg_More = (unat limit < length found)\<rparr>))"

definition Store_Close :: "plan_store \<Rightarrow> plan_store" where
  "Store_Close s = s\<lparr>tb_closed := True\<rparr>"

end
