(* ===== verification/Task_Lifecycle.thy ===== *)
theory Task_Lifecycle
  imports Task_Store
begin

section \<open>The life of stored plans\<close>

text \<open>
  What the methods of the store do to its tables, as a step relation, and what holds in every store they lead to: the rows fit
  together and every plan is well-formed. The methods are shown to make only four kinds of change; the invariant and the
  properties are proved for those.
\<close>

subsection \<open>How a plan may change\<close>

definition identity :: "plan_state \<Rightarrow> string list \<times> controller_source \<times> planning_mode \<times> u32 \<times> int" where
  "identity p = ([pl_PlanID p, pl_TaskID p, pl_SessionID p, pl_HostID p, pl_WorldID p, pl_ActorID p, pl_ControllerID p],
     pl_ControllerSource p, pl_PlanningMode p, pl_MaxReplans p, pl_CreatedAt p)"

definition accepted :: "go_env \<Rightarrow> plan_state \<Rightarrow> bool" where
  "accepted env p \<longleftrightarrow> ValidatePlan env p = None \<and> plan_ok p"

definition moves :: "plan_state \<Rightarrow> plan_state \<Rightarrow> bool" where
  "moves p q \<longleftrightarrow>
     q = p \<or> \<not> terminalPlanStatus (pl_Status p) \<and> pl_Revision p < pl_Revision q \<and> identity q = identity p
       \<and> pl_ReplanCount p \<le> pl_ReplanCount q"

lemma moves_refl [simp]: "moves p p"
  by (simp add: moves_def)

lemma moves_trans: "moves p q \<Longrightarrow> moves q r \<Longrightarrow> moves p r"
  by (auto simp: moves_def)

lemma moves_identity: "moves p q \<Longrightarrow> identity q = identity p"
  by (auto simp: moves_def)

lemma moves_ids:
  assumes "moves p q"
  shows "pl_PlanID q = pl_PlanID p" "pl_TaskID q = pl_TaskID p" "pl_SessionID q = pl_SessionID p" "pl_ActorID q = pl_ActorID p"
    "pl_MaxReplans q = pl_MaxReplans p"
  using moves_identity [OF assms] by (simp_all add: identity_def)

lemma moves_revision: "moves p q \<Longrightarrow> pl_Revision p \<le> pl_Revision q"
  by (auto simp: moves_def)

lemma word_next: "x + 1 \<noteq> (0 :: u64) \<Longrightarrow> x < x + 1"
  using unatSuc [of x] by (simp add: add.commute word_less_nat_alt)

lemma word_below: "x < m \<Longrightarrow> x \<le> x + (1 :: u32)"
  by unat_arith

lemma moves_bump:
  assumes "ValidatePlan env q = None" "q = bump_revision now r" "identity r = identity p" "pl_Revision r = pl_Revision p"
    and "pl_ReplanCount r = pl_ReplanCount p" "\<not> terminalPlanStatus (pl_Status p)"
  shows "moves p q"
  using assms ValidatePlan_facts(4) [OF assms(1)] word_next [of "pl_Revision p"] by (simp add: moves_def bump_revision_def identity_def)

definition kept_fields :: "plan_state \<Rightarrow> plan_state \<Rightarrow> bool" where
  "kept_fields p q \<longleftrightarrow> identity q = identity p \<and> pl_Revision q = pl_Revision p \<and> pl_ReplanCount q = pl_ReplanCount p"

lemma kept_place: "place_evidence p v = Inr q \<Longrightarrow> kept_fields p q"
  by (auto simp: place_evidence_def kept_fields_def identity_def Let_def split: option.splits if_splits)

lemma kept_complete: "kept_fields p (complete_step i p)"
  by (simp add: complete_step_def activate_next_def kept_fields_def identity_def Let_def split: option.split)

lemma kept_advance: "advance_step i p = (q, adv) \<Longrightarrow> kept_fields p q"
  using kept_complete [of p] by (auto simp: advance_step_def kept_fields_def split: option.splits if_splits)

lemma kept_finish: "kept_fields p (finish_plan p)"
  by (simp add: finish_plan_def kept_fields_def identity_def)

lemma kept_failure: "kept_fields p (record_failure o' f c i p)"
  by (simp add: record_failure_def kept_fields_def identity_def Let_def)

lemma ApplyEvidence_moves:
  assumes "ApplyEvidence env p v now = Inr (q, adv)" "accepted env p"
  shows "moves p q \<and> accepted env q"
proof -
  have ok: "accepted env q" using ApplyEvidence_ok [OF assms(1)] assms(2) by (simp add: accepted_def)
  from assms(1) show ?thesis
  proof (cases rule: ApplyEvidence_cases)
    case known
    then show ?thesis using assms(2) by simp
  next
    case (new p1 p2)
    have "kept_fields p (finish_plan p2)"
      using kept_place [OF new(1)] kept_advance [OF new(2)] kept_finish [of p2] by (simp add: kept_fields_def)
    then have "moves p q" using new by (intro moves_bump [OF new(4, 3)]) (auto simp: kept_fields_def terminalPlanStatus_def)
    then show ?thesis using ok by simp
  qed
qed

lemma ApplyFailure_moves:
  assumes "ApplyFailure env p operationID family code now = Inr q" "accepted env p"
  shows "moves p q \<and> accepted env q"
proof -
  have ok: "accepted env q" using ApplyFailure_ok [OF assms(1)] assms(2) by (simp add: accepted_def)
  from assms(1) show ?thesis
  proof (cases rule: ApplyFailure_cases)
    case (1 i)
    have "moves p q" using 1 kept_failure [of p] by (intro moves_bump [OF 1(5, 3)]) (auto simp: kept_fields_def terminalPlanStatus_def)
    then show ?thesis using ok by simp
  qed
qed

lemma apply_conditions_moves:
  "apply_conditions env i oc dg now cs p = Inr q \<Longrightarrow> accepted env p \<Longrightarrow> moves p q \<and> accepted env q"
proof (induction cs arbitrary: p)
  case (Cons c cs)
  then obtain r adv where r: "ApplyEvidence env p (outcome_evidence (i @ ''.'' @ c) c i oc dg now) now = Inr (r, adv)"
      "apply_conditions env i oc dg now cs r = Inr q"
    by (auto simp: ebind_Inr_iff)
  from ApplyEvidence_moves [OF r(1) Cons.prems(2)] Cons.IH [OF r(2)] show ?case using moves_trans by blast
qed simp

lemma settle_plan_moves:
  assumes "settle_plan env now l oc dg p = Inr (q, changed)" "accepted env p"
  shows "moves p q \<and> accepted env q" "changed \<Longrightarrow> pl_Revision p = lk_PlanRevision l" "\<not> changed \<Longrightarrow> q = p"
proof -
  show "moves p q \<and> accepted env q"
    using assms apply_conditions_moves [OF _ assms(2)] ApplyFailure_moves [OF _ assms(2)]
    by (auto simp: settle_plan_def ebind_Inr_iff Let_def split: if_splits)
  show "changed \<Longrightarrow> pl_Revision p = lk_PlanRevision l" "\<not> changed \<Longrightarrow> q = p"
    using assms(1) by (auto simp: settle_plan_def ebind_Inr_iff Let_def split: if_splits)
qed

lemma with_status_ok:
  assumes "plan_ok p" "\<not> terminalPlanStatus (pl_Status p)" "m \<in> {PlanActive, PlanPaused, PlanCancelled}"
  shows "plan_ok (with_status m p)" "kept_fields p (with_status m p)"
proof -
  have p: "progress p" "proven p" using assms(1, 2) by (auto simp: plan_ok_def terminalPlanStatus_def split: plan_status.splits)
  show "kept_fields p (with_status m p)" by (simp add: with_status_def kept_fields_def identity_def Let_def)
  show "plan_ok (with_status m p)"
  proof (cases "m = PlanCancelled")
    case False
    then have "proven (with_status m p)" "progress (with_status m p)"
      using p proven_cong [of "with_status m p" p] by (simp_all add: with_status_def same_basis_def progress_def Let_def)
    then show ?thesis using False assms(3) by (auto simp: plan_ok_def with_status_def Let_def)
  next
    case True
    let ?q = "with_status m p"
    have "\<forall>st \<in> set (pl_Steps p). sp_Status st \<in> {StepCompleted, StepActive, StepBlocked, StepPending}"
      using p(1) by (auto simp: progress_def steps_done_def)
    then have "\<forall>st \<in> set (pl_Steps ?q). sp_Status st \<in> {StepCompleted, StepSkipped}"
      using True by (auto simp: with_status_def skip_open_steps_def Let_def)
    moreover have "proven ?q"
      using p(2) validateEvidence_basis [of ?q p] True
      by (auto simp: proven_def with_status_def skip_open_steps_def Let_def same_basis_def step_proven_def)
    ultimately show ?thesis using True by (simp add: plan_ok_def with_status_def Let_def)
  qed
qed

lemma revise_moves:
  assumes "NewPlan env (rebased_draft p d) now = Inr r" "accepted env p" "\<not> terminalPlanStatus (pl_Status p)"
    and "q = r\<lparr>pl_CreatedAt := pl_CreatedAt p, pl_Revision := pl_Revision p + 1, pl_ReplanCount := pl_ReplanCount p + 1\<rparr>"
    and "pl_ReplanCount p < pl_MaxReplans p" "ValidatePlan env q = None"
  shows "moves p q \<and> accepted env q"
proof -
  have r: "r = drafted_plan env (rebased_draft p d) now" using assms(1) by (auto simp: NewPlan_def split: if_splits)
  have "pl_MaxReplans p \<noteq> 0" using assms(5) by auto
  then have "identity q = identity p"
    by (simp add: assms(4) r drafted_plan_def start_first_def rebased_draft_def identity_def split: list.split)
  moreover have "pl_Revision p < pl_Revision q" using ValidatePlan_facts(4) [OF assms(6)] word_next [of "pl_Revision p"] by (simp add: assms(4))
  moreover have "pl_ReplanCount p \<le> pl_ReplanCount q" using word_below [OF assms(5)] by (simp add: assms(4))
  moreover have "plan_ok q"
  proof -
    have "proven q = proven r" by (rule proven_cong) (simp_all add: assms(4) same_basis_def)
    moreover have "progress q = progress r" by (simp add: progress_def assms(4))
    moreover have "pl_Status q = PlanActive" "pl_Status r = PlanActive" "plan_ok r" using new_plan_ok [OF assms(1)] by (simp_all add: assms(4))
    ultimately show ?thesis by (simp add: plan_ok_def)
  qed
  ultimately show ?thesis using assms(3, 6) by (simp add: moves_def accepted_def)
qed

subsection \<open>The changes of the tables\<close>

text \<open>
  \<open>settled\<close> marks the row of an operation when the change comes with its outcome.
\<close>

definition settled :: "(string \<times> string) option \<Rightarrow> plan_store \<Rightarrow> plan_store" where
  "settled r s = (case r of None \<Rightarrow> s | Some (i, dg) \<Rightarrow> settle_row i dg s)"

inductive table_step :: "go_env \<Rightarrow> plan_store \<Rightarrow> plan_store \<Rightarrow> bool" for env where
  created: "accepted env p \<Longrightarrow> length (open_plans s) < unat (tb_maxPlans s) \<Longrightarrow> insertPlan p s = Inr s1
    \<Longrightarrow> insertEvent p k su ev i now s1 = Inr s2 \<Longrightarrow> table_step env s s2"
| changed: "plan_at s (pl_PlanID p) = Some p \<Longrightarrow> moves p q \<Longrightarrow> accepted env q \<Longrightarrow> replacePlan (pl_Revision p) q s = Inr s1
    \<Longrightarrow> insertEvent q k su ev i now (settled r s1) = Inr s2 \<Longrightarrow> table_step env s s2"
| linked: "plan_at s (lk_PlanID l) = Some p \<Longrightarrow> lk_PlanRevision l \<le> pl_Revision p \<Longrightarrow> insert_link l s = Inr ((), s')
    \<Longrightarrow> table_step env s s'"
| outdated: "plan_at s (pl_PlanID p) = Some p \<Longrightarrow> insertEvent p k su ev i now (settled r s) = Inr s2 \<Longrightarrow> table_step env s s2"
| closed: "table_step env s (Store_Close s)"

inductive store_step :: "go_env \<Rightarrow> (action_outcome \<Rightarrow> string) \<Rightarrow> plan_store \<Rightarrow> plan_store \<Rightarrow> bool" for env digest_of where
  step_Create: "store_step env digest_of s (snd (Store_Create env now s d))"
| step_Revise: "store_step env digest_of s (snd (Store_Revise env now s rin))"
| step_SetStatus: "store_step env digest_of s (snd (Store_SetStatus env now s sin))"
| step_LinkOperation: "store_step env digest_of s (snd (LinkOperation env s l))"
| step_applyTrustedEvidence: "store_step env digest_of s (snd (applyTrustedEvidence env now s i r v su))"
| step_ReconcileOperationLink: "store_step env digest_of s (snd (ReconcileOperationLink env s l))"
| step_ApplyOperationResult: "store_step env digest_of s (snd (ApplyOperationResult env digest_of now s result))"
| step_Close: "store_step env digest_of s (Store_Close s)"

inductive reachable_store :: "go_env \<Rightarrow> (action_outcome \<Rightarrow> string) \<Rightarrow> plan_store \<Rightarrow> bool" for env digest_of where
  opened: "OpenStore m n = Inr s \<Longrightarrow> reachable_store env digest_of s"
| continued: "reachable_store env digest_of s \<Longrightarrow> store_step env digest_of s s' \<Longrightarrow> reachable_store env digest_of s'"

lemma transactionI:
  assumes "\<And>a s'. body = Inr (a, s') \<Longrightarrow> s' = s \<or> R s s'"
  shows "snd (transaction s body) = s \<or> R s (snd (transaction s body))"
  using assms by (auto simp: transaction_def split: sum.split)

lemma plan_at_id: "plan_at s i = Some p \<Longrightarrow> pl_PlanID p = i"
  by (auto simp: plan_at_def find_Some_iff)

lemma loadPlan_Inr: "loadPlan env s i = Inr p \<longleftrightarrow> plan_at s i = Some p \<and> ValidatePlan env p = None"
  by (auto simp: loadPlan_def decodeStoredPlan_def split: option.splits)

lemma plan_at_in: "plan_at s i = Some p \<Longrightarrow> p \<in> set (tb_plans s)"
  by (auto simp: plan_at_def find_Some_iff)

lemma loaded:
  assumes "loadPlan env s i = Inr p" "\<forall>p \<in> set (tb_plans s). plan_ok p"
  shows "plan_at s (pl_PlanID p) = Some p" "accepted env p" "pl_PlanID p = i"
  using assms plan_at_id plan_at_in by (auto simp: loadPlan_Inr accepted_def)

text \<open>Every method is one of these changes, or changes nothing.\<close>

abbreviation steps_to :: "go_env \<Rightarrow> plan_store \<Rightarrow> plan_store \<Rightarrow> bool" where
  "steps_to env s s' \<equiv> s' = s \<or> table_step env s s'"

lemma Create_refines: "steps_to env s (snd (Store_Create env now s d))"
proof (cases "NewPlan env d now")
  case (Inr p)
  then have "accepted env p" using new_plan_ok [OF Inr] by (simp add: accepted_def)
  then show ?thesis
    unfolding Store_Create_def Inr sum.case
    by (intro transactionI) (auto simp: ebind_Inr_iff split: if_splits sum.splits intro: table_step.created)
qed (simp add: Store_Create_def)

lemma replaced_refines:
  assumes "ebind (replacePlan (pl_Revision p) q s) (\<lambda>s1. ebind (insertEvent q k su ev i now (settled r s1)) (\<lambda>s2. Inr (x, s2))) = Inr (a, s')"
    and "plan_at s (pl_PlanID p) = Some p" "moves p q" "accepted env q"
  shows "table_step env s s'"
  using assms by (auto simp: ebind_Inr_iff intro: table_step.changed)

lemma Revise_refines:
  assumes "\<forall>p \<in> set (tb_plans s). plan_ok p"
  shows "steps_to env s (snd (Store_Revise env now s input))"
proof -
  let ?k = "''plan.revised.'' @ replan_reason_string (rv_Reason input)"
  have "table_step env s s'"
    if load: "loadPlan env s (rv_PlanID input) = Inr p" and "\<not> terminalPlanStatus (pl_Status p)" "pl_ReplanCount p < pl_MaxReplans p"
      "NewPlan env (rebased_draft p (rv_Draft input)) now = Inr r"
      "q = r\<lparr>pl_CreatedAt := pl_CreatedAt p, pl_Revision := pl_Revision p + 1, pl_ReplanCount := pl_ReplanCount p + 1\<rparr>"
      "ValidatePlan env q = None" "replacePlan (pl_Revision p) q s = Inr s1" "insertEvent q ?k (rv_Summary input) None '''' now s1 = Inr s'"
    for p q r s1 s'
  proof -
    note p = loaded [OF load assms]
    have "moves p q \<and> accepted env q" using revise_moves that(2-6) p(2) by blast
    then show ?thesis using table_step.changed [OF p(1), of q env s1 ?k "rv_Summary input" None "''''" now None s'] that(7, 8)
      by (simp add: settled_def)
  qed
  then show ?thesis
    unfolding Store_Revise_def
    by (auto split: option.split intro!: transactionI simp: ebind_Inr_iff Let_def not_le)
qed

lemma SetStatus_refines:
  assumes "\<forall>p \<in> set (tb_plans s). plan_ok p"
  shows "steps_to env s (snd (Store_SetStatus env now s input))"
proof -
  let ?k = "''plan.'' @ plan_status_string (sx_Status input)"
  have "table_step env s s'"
    if load: "loadPlan env s (sx_PlanID input) = Inr p" and "\<not> terminalPlanStatus (pl_Status p)" "sx_ExpectedRevision input = pl_Revision p"
      "q = bump_revision now (with_status (sx_Status input) p)" "sx_Status input \<in> {PlanPaused, PlanActive, PlanCancelled}"
      "ValidatePlan env q = None" "replacePlan (pl_Revision p) q s = Inr s1"
      "insertEvent q ?k (sx_Summary input) None '''' (pl_UpdatedAt q) s1 = Inr s'"
    for p q s1 s'
  proof -
    note p = loaded [OF load assms]
    have "plan_ok (with_status (sx_Status input) p)" "kept_fields p (with_status (sx_Status input) p)"
      using with_status_ok that(2, 5) p(2) by (auto simp: accepted_def)
    then have "moves p q" "accepted env q"
      using moves_bump [OF that(6, 4), of p] that(2, 4, 6) by (simp_all add: kept_fields_def accepted_def bump_ok)
    then show ?thesis
      using table_step.changed [OF p(1), of q env s1 ?k "sx_Summary input" None "''''" "pl_UpdatedAt q" None s'] that(7, 8)
      by (simp add: settled_def)
  qed
  then show ?thesis
    unfolding Store_SetStatus_def
    by (auto split: option.split intro!: transactionI simp: ebind_Inr_iff Let_def)
qed

lemma link_refines:
  assumes "loadPlan env s (lk_PlanID l) = Inr p" "lk_PlanRevision l \<le> pl_Revision p"
    and "insert_link (l\<lparr>lk_ConditionIDs := cs\<rparr>) s = Inr (a, s')"
  shows "table_step env s s'"
  using assms by (intro table_step.linked [of s "l\<lparr>lk_ConditionIDs := cs\<rparr>" p]) (simp_all add: loadPlan_Inr)

lemma LinkOperation_refines: "steps_to env s (snd (LinkOperation env s l))"
proof (cases "validateOperationLink l")
  case None
  show ?thesis
    unfolding LinkOperation_def None option.case
    by (rule transactionI, rule disjI2) (auto simp: ebind_Inr_iff Let_def intro: link_refines)
qed (simp add: LinkOperation_def)

lemma Reconcile_refines: "steps_to env s (snd (ReconcileOperationLink env s l))"
proof (cases "validateOperationLink l")
  case None
  show ?thesis
    unfolding ReconcileOperationLink_def None option.case
    by (rule transactionI, rule disjI2) (auto simp: ebind_Inr_iff Let_def intro: link_refines)
qed (simp add: ReconcileOperationLink_def)

lemma Trusted_refines:
  assumes "\<forall>p \<in> set (tb_plans s). plan_ok p"
  shows "steps_to env s (snd (applyTrustedEvidence env now s i r v su))"
proof -
  have "table_step env s s'"
    if load: "loadPlan env s i = Inr p" and "ApplyEvidence env p v now = Inr (q, adv)" "replacePlan (pl_Revision p) q s = Inr s1"
      "insertEvent q ''plan.evidence'' su (Some v) (pv_OperationID v) (pl_UpdatedAt q) s1 = Inr s'" for p q adv s1 s'
  proof -
    note p = loaded [OF load assms]
    show ?thesis
      using ApplyEvidence_moves [OF that(2) p(2)] that(3, 4)
        table_step.changed [OF p(1), of q env s1 "''plan.evidence''" su "Some v" "pv_OperationID v" "pl_UpdatedAt q" None s']
      by (simp add: settled_def)
  qed
  then show ?thesis
    unfolding applyTrustedEvidence_def
    by (auto split: option.split if_splits intro!: transactionI simp: ebind_Inr_iff Let_def)
qed

lemma Result_refines:
  assumes "\<forall>p \<in> set (tb_plans s). plan_ok p"
  shows "steps_to env s (snd (ApplyOperationResult env digest_of now s result))"
proof -
  let ?oc = "rz_Outcome result" let ?i = "rz_OperationID result" let ?dg = "digest_of ?oc"
  have "table_step env s s'"
    if load: "loadPlan env s (lk_PlanID l) = Inr p" and "settle_plan env now l ?oc ?dg p = Inr (q, changed)"
      "(if changed then replacePlan (lk_PlanRevision l) q s else Inr s) = Inr s1"
      "insertEvent q k su ev ?i now (settle_row ?i ?dg s1) = Inr s'" for p q l changed s1 k su ev s'
  proof -
    note p = loaded [OF load assms] and q = settle_plan_moves [OF that(2)]
    have "insertEvent q k su ev ?i now (settled (Some (?i, ?dg)) s1) = Inr s'" using that(4) by (simp add: settled_def)
    note event = this
    show ?thesis
    proof (cases changed)
      case True
      then show ?thesis using p q that(3) by (intro table_step.changed [OF p(1) _ _ _ event]) simp_all
    next
      case False
      then show ?thesis using p q that(3) event by (intro table_step.outdated [of s p]) auto
    qed
  qed
  then show ?thesis
    unfolding ApplyOperationResult_def Let_def
    by (auto split: option.splits if_splits intro!: transactionI simp: ebind_Inr_iff Let_def)
qed

lemma store_step_refines:
  assumes "store_step env digest_of s s'" "\<forall>p \<in> set (tb_plans s). plan_ok p"
  shows "steps_to env s s'"
  using assms
  by cases (auto simp only: Create_refines LinkOperation_refines Reconcile_refines Revise_refines SetStatus_refines Trusted_refines
      Result_refines table_step.closed)

subsection \<open>The invariant of the tables\<close>

definition plans_ok :: "go_env \<Rightarrow> plan_store \<Rightarrow> bool" where
  "plans_ok env s \<longleftrightarrow>
     (\<forall>p \<in> set (tb_plans s). accepted env p)
     \<and> distinct (map pl_PlanID (tb_plans s)) \<and> distinct (map pl_TaskID (tb_plans s))
     \<and> (\<forall>p \<in> set (tb_plans s). \<forall>q \<in> set (tb_plans s). same_seat p q \<longrightarrow> p = q)
     \<and> length (open_plans s) \<le> unat (tb_maxPlans s)"

definition covers :: "plan_store \<Rightarrow> string \<Rightarrow> u64 \<Rightarrow> bool" where
  "covers s i r \<longleftrightarrow> (\<exists>p \<in> set (tb_plans s). pl_PlanID p = i \<and> r \<le> pl_Revision p)"

definition events_ok :: "plan_store \<Rightarrow> bool" where
  "events_ok s \<longleftrightarrow>
     sorted_wrt (<) (map pn_Sequence (tb_events s)) \<and> (\<forall>e \<in> set (tb_events s). pn_Sequence e \<le> tb_sequence s)
     \<and> (\<forall>i. length (filter (\<lambda>e. pn_PlanID e = i) (tb_events s)) \<le> unat (tb_maxEvents s))
     \<and> (\<forall>e \<in> set (tb_events s). covers s (pn_PlanID e) (pn_Revision e))"

definition links_ok :: "plan_store \<Rightarrow> bool" where
  "links_ok s \<longleftrightarrow>
     distinct (map (\<lambda>r. lk_OperationID (ow_Link r)) (tb_operations s))
     \<and> (\<forall>r \<in> set (tb_operations s). covers s (lk_PlanID (ow_Link r)) (lk_PlanRevision (ow_Link r)))"

definition store_ok :: "go_env \<Rightarrow> plan_store \<Rightarrow> bool" where
  "store_ok env s \<longleftrightarrow> plans_ok env s \<and> events_ok s \<and> links_ok s"

text \<open>The rows that a change keeps: every plan is there in the same or a later revision.\<close>

definition rows_kept :: "plan_store \<Rightarrow> plan_store \<Rightarrow> bool" where
  "rows_kept s s' \<longleftrightarrow> (\<forall>p \<in> set (tb_plans s). \<exists>q \<in> set (tb_plans s'). moves p q)"

lemma covers_kept:
  assumes "rows_kept s s'" "covers s i r"
  shows "covers s' i r"
proof -
  obtain p where p: "p \<in> set (tb_plans s)" "pl_PlanID p = i" "r \<le> pl_Revision p" using assms(2) by (auto simp: covers_def)
  then obtain q where q: "q \<in> set (tb_plans s')" "moves p q" using assms(1) unfolding rows_kept_def by blast
  have "r \<le> pl_Revision q" using p(3) moves_revision [OF q(2)] by (rule order_trans)
  then show ?thesis unfolding covers_def using q(1) moves_ids(1) [OF q(2)] p(2) by (intro bexI [of _ q]) simp_all
qed

lemma rows_kept_same: "tb_plans s' = tb_plans s \<Longrightarrow> rows_kept s s'"
  unfolding rows_kept_def by (intro ballI, rule bexI, rule moves_refl) simp

lemma insertEvent_frame:
  assumes "insertEvent p k su ev i now s = Inr s'"
  shows "tb_plans s' = tb_plans s" "tb_operations s' = tb_operations s" "tb_maxPlans s' = tb_maxPlans s" "tb_maxEvents s' = tb_maxEvents s"
  using assms by (auto simp: insertEvent_def split: if_splits)

lemma plans_ok_cong: "tb_plans s' = tb_plans s \<Longrightarrow> tb_maxPlans s' = tb_maxPlans s \<Longrightarrow> plans_ok env s' = plans_ok env s"
  by (simp add: plans_ok_def open_plans_def)

lemma settled_frame [simp]:
  "tb_plans (settled r s) = tb_plans s" "tb_events (settled r s) = tb_events s" "tb_sequence (settled r s) = tb_sequence s"
  "tb_maxPlans (settled r s) = tb_maxPlans s" "tb_maxEvents (settled r s) = tb_maxEvents s"
  by (simp_all add: settled_def settle_row_def split: option.split prod.split)

lemma events_ok_frame:
  assumes "events_ok s" "rows_kept s s'" "tb_events s' = tb_events s" "tb_sequence s' = tb_sequence s" "tb_maxEvents s' = tb_maxEvents s"
  shows "events_ok s'"
  using assms covers_kept [OF assms(2)] by (simp add: events_ok_def)

lemma links_ok_frame:
  assumes "links_ok s" "rows_kept s s'"
    and "map ow_Link (tb_operations s') = map ow_Link (tb_operations s)"
  shows "links_ok s'"
proof -
  have "map (\<lambda>r. lk_OperationID (ow_Link r)) (tb_operations s') = map (\<lambda>r. lk_OperationID (ow_Link r)) (tb_operations s)"
    using arg_cong [OF assms(3), of "map lk_OperationID"] by (simp add: comp_def)
  moreover have "set (map ow_Link (tb_operations s')) = set (map ow_Link (tb_operations s))" using assms(3) by (rule arg_cong)
  then have "\<forall>l \<in> ow_Link ` set (tb_operations s'). covers s' (lk_PlanID l) (lk_PlanRevision l)"
    using assms(1) covers_kept [OF assms(2)] by (simp add: links_ok_def)
  ultimately show ?thesis using assms(1) by (simp add: links_ok_def)
qed

lemma settled_links: "map ow_Link (tb_operations (settled r s)) = map ow_Link (tb_operations s)"
  by (auto simp: settled_def settle_row_def split: option.split prod.split)

lemma insertEvent_ok:
  assumes "insertEvent p k su ev i now s = Inr s'" "events_ok s" "p \<in> set (tb_plans s)"
  shows "events_ok s'"
proof -
  have s': "s' = s\<lparr>tb_sequence := Suc (tb_sequence s), tb_events := tb_events s @ [\<lparr>pn_Sequence = Suc (tb_sequence s),
      pn_PlanID = pl_PlanID p, pn_Revision = pl_Revision p, pn_Kind = k, pn_Summary = su, pn_Evidence = ev, pn_OperationID = i, pn_OccurredAt = now\<rparr>]\<rparr>"
    and room: "length (filter (\<lambda>e. pn_PlanID e = pl_PlanID p) (tb_events s)) < unat (tb_maxEvents s)"
    using assms(1) by (auto simp: insertEvent_def split: if_splits)
  have "covers s' = covers s" by (intro ext) (simp add: covers_def s')
  moreover have "covers s (pl_PlanID p) (pl_Revision p)" using assms(3) by (auto simp: covers_def)
  moreover have "\<forall>i. length (filter (\<lambda>e. pn_PlanID e = i) (tb_events s')) \<le> unat (tb_maxEvents s)"
    using assms(2) room by (simp add: events_ok_def s' Suc_le_eq)
  moreover have "sorted_wrt (<) (map pn_Sequence (tb_events s'))"
    using assms(2) by (auto simp: events_ok_def s' sorted_wrt_append less_Suc_eq_le)
  ultimately show ?thesis using assms(2) by (auto simp: events_ok_def s' intro: le_SucI)
qed

lemma filter_map_le: "(\<And>x. x \<in> set xs \<Longrightarrow> P (f x) \<Longrightarrow> P x) \<Longrightarrow> length (filter P (map f xs)) \<le> length (filter P xs)"
  by (induction xs) (auto intro: le_SucI)

lemma plan_ok_status: "plan_ok p \<Longrightarrow> open_status (pl_Status p) \<longleftrightarrow> \<not> terminalPlanStatus (pl_Status p)"
  by (auto simp: plan_ok_def open_status_def terminalPlanStatus_def split: plan_status.splits)

lemma plan_at_unique:
  assumes "distinct (map pl_PlanID (tb_plans s))" "plan_at s i = Some p" "q \<in> set (tb_plans s)" "pl_PlanID q = i"
  shows "q = p"
  using assms(1, 3, 4) plan_at_in [OF assms(2)] plan_at_id [OF assms(2)] by (auto simp: distinct_map dest: inj_onD)

lemma moves_open:
  assumes "moves p q" "accepted env p" "accepted env q" "open_status (pl_Status q)"
  shows "open_status (pl_Status p)"
  using assms plan_ok_status [of p] by (auto simp: moves_def accepted_def)

text \<open>Replacing the row of a plan by a later revision.\<close>

lemma replacePlan_row:
  assumes "replacePlan (pl_Revision p) q s = Inr s'" "plan_at s (pl_PlanID p) = Some p" "moves p q"
    and "distinct (map pl_PlanID (tb_plans s))"
  shows "s' = s\<lparr>tb_plans := map (\<lambda>x. if x = p then q else x) (tb_plans s)\<rparr>"
    "\<forall>x \<in> set (tb_plans s). x \<noteq> p \<longrightarrow> \<not> same_seat x q"
proof -
  have id: "pl_PlanID q = pl_PlanID p" using moves_ids(1) [OF assms(3)] .
  have hit: "(pl_PlanID x = pl_PlanID q \<and> pl_Revision x = pl_Revision p) = (x = p)" if "x \<in> set (tb_plans s)" for x
    using plan_at_unique [OF assms(4, 2) that] id by auto
  have other: "pl_PlanID x \<noteq> pl_PlanID q" if "x \<in> set (tb_plans s)" "x \<noteq> p" for x
    using plan_at_unique [OF assms(4, 2) that(1)] that(2) id by auto
  have s': "s' = s\<lparr>tb_plans := map (\<lambda>x. if pl_PlanID x = pl_PlanID q \<and> pl_Revision x = pl_Revision p then q else x) (tb_plans s)\<rparr>"
    and seat: "\<not> list_ex (\<lambda>x. pl_PlanID x \<noteq> pl_PlanID q \<and> same_seat x q) (tb_plans s)"
    using assms(1) by (auto simp: replacePlan_def Let_def split: if_splits)
  show "s' = s\<lparr>tb_plans := map (\<lambda>x. if x = p then q else x) (tb_plans s)\<rparr>"
    unfolding s' by (rule arg_cong [where f = "\<lambda>xs. s\<lparr>tb_plans := xs\<rparr>"], rule map_cong [OF refl]) (use hit in simp)
  show "\<forall>x \<in> set (tb_plans s). x \<noteq> p \<longrightarrow> \<not> same_seat x q" using seat other by (auto simp: list_ex_iff)
qed

lemma replaced_ok:
  assumes "s' = s\<lparr>tb_plans := map (\<lambda>x. if x = p then q else x) (tb_plans s)\<rparr>" "moves p q" "accepted env q" "plans_ok env s"
    and "p \<in> set (tb_plans s)" "\<forall>x \<in> set (tb_plans s). x \<noteq> p \<longrightarrow> \<not> same_seat x q"
  shows "plans_ok env s'" "rows_kept s s'" "q \<in> set (tb_plans s')"
proof -
  note ids = moves_ids [OF assms(2)]
  have plans: "tb_plans s' = map (\<lambda>x. if x = p then q else x) (tb_plans s)" by (simp add: assms(1))
  have same: "map f (tb_plans s') = map f (tb_plans s)" if "f q = f p" for f :: "plan_state \<Rightarrow> string"
    using that by (simp add: plans)
  have "length (open_plans s') \<le> length (open_plans s)"
    unfolding open_plans_def plans using moves_open [OF assms(2) _ assms(3)] assms(4, 5)
    by (intro filter_map_le) (auto simp: plans_ok_def split: if_splits)
  moreover have "same_seat x y \<longrightarrow> x = y" if "x \<in> set (tb_plans s')" "y \<in> set (tb_plans s')" for x y
    using that assms(4, 6) unfolding plans plans_ok_def by (auto simp: same_seat_def)
  moreover have "\<forall>x \<in> set (tb_plans s'). accepted env x" using assms(3, 4) by (auto simp: plans plans_ok_def)
  moreover have "distinct (map pl_PlanID (tb_plans s'))" "distinct (map pl_TaskID (tb_plans s'))"
    using assms(4) unfolding same [OF ids(1)] same [OF ids(2)] plans_ok_def by blast+
  moreover have "length (open_plans s) \<le> unat (tb_maxPlans s)" using assms(4) by (simp add: plans_ok_def)
  moreover have "tb_maxPlans s' = tb_maxPlans s" by (simp add: assms(1))
  ultimately show "plans_ok env s'" unfolding plans_ok_def by (metis order_trans)
  show "rows_kept s s'"
    unfolding rows_kept_def
  proof
    fix x assume "x \<in> set (tb_plans s)"
    then show "\<exists>y \<in> set (tb_plans s'). moves x y"
      using assms(2) by (intro bexI [of _ "if x = p then q else x"]) (auto simp: plans)
  qed
  show "q \<in> set (tb_plans s')" using assms(5) by (auto simp: plans)
qed

lemma insertPlan_ok:
  assumes "insertPlan p s = Inr s'" "accepted env p" "plans_ok env s" "length (open_plans s) < unat (tb_maxPlans s)"
  shows "plans_ok env s'" "rows_kept s s'" "p \<in> set (tb_plans s')"
    "tb_events s' = tb_events s" "tb_operations s' = tb_operations s" "tb_sequence s' = tb_sequence s" "tb_maxEvents s' = tb_maxEvents s"
proof -
  have s': "s' = s\<lparr>tb_plans := tb_plans s @ [p]\<rparr>"
    and fresh: "\<forall>q \<in> set (tb_plans s). pl_PlanID q \<noteq> pl_PlanID p \<and> pl_TaskID q \<noteq> pl_TaskID p \<and> \<not> same_seat q p"
    using assms(1) by (auto simp: insertPlan_def list_ex_iff split: if_splits)
  have "\<not> same_seat p q" if "q \<in> set (tb_plans s)" for q using fresh that by (auto simp: same_seat_def)
  then have "\<forall>x \<in> set (tb_plans s'). \<forall>y \<in> set (tb_plans s'). same_seat x y \<longrightarrow> x = y"
    using assms(3) fresh by (auto simp: plans_ok_def s')
  moreover have "length (open_plans s') \<le> Suc (length (open_plans s))" by (simp add: open_plans_def s')
  ultimately show "plans_ok env s'" using assms(2-4) fresh by (auto simp: plans_ok_def s')
  show "rows_kept s s'" unfolding rows_kept_def s' by (intro ballI, rule bexI, rule moves_refl) simp
qed (use assms(1) in \<open>auto simp: insertPlan_def split: if_splits\<close>)

lemma insert_link_ok:
  assumes "insert_link l s = Inr (a, s')" "links_ok s" "plan_at s (lk_PlanID l) = Some p" "lk_PlanRevision l \<le> pl_Revision p"
  shows "links_ok s'" "tb_plans s' = tb_plans s" "tb_events s' = tb_events s" "tb_sequence s' = tb_sequence s"
    "tb_maxEvents s' = tb_maxEvents s" "tb_maxPlans s' = tb_maxPlans s"
proof -
  have "covers s (lk_PlanID l) (lk_PlanRevision l)"
    using assms(4) plan_at_in [OF assms(3)] plan_at_id [OF assms(3)] by (auto simp: covers_def)
  moreover have "s' = s \<or> s' = s\<lparr>tb_operations := tb_operations s @ [\<lparr>ow_Link = l, ow_Terminal = False, ow_OutcomeDigest = ''''\<rparr>]\<rparr>
      \<and> (\<forall>r \<in> set (tb_operations s). lk_OperationID (ow_Link r) \<noteq> lk_OperationID l)"
    using assms(1) by (auto simp: insert_link_def operation_row_at_def find_None_iff split: option.splits if_splits)
  moreover have "covers s' = covers s" if "tb_plans s' = tb_plans s" using that by (intro ext) (simp add: covers_def)
  ultimately show "links_ok s'" using assms(2) by (auto simp: links_ok_def image_iff) (metis)
qed (use assms(1) in \<open>auto simp: insert_link_def split: option.splits if_splits\<close>)

lemma table_step_ok:
  assumes "table_step env s s'" "store_ok env s"
  shows "store_ok env s' \<and> rows_kept s s'"
  using assms(1)
proof cases
  case (created p s1 k su ev i now)
  have ok: "plans_ok env s" "events_ok s" "links_ok s" using assms(2) by (simp_all add: store_ok_def)
  note new = insertPlan_ok [OF created(3, 1) ok(1) created(2)] and frame = insertEvent_frame [OF created(4)]
  have "events_ok s1" using ok(2) new(2, 4, 6, 7) by (rule events_ok_frame)
  then have "events_ok s'" using insertEvent_ok [OF created(4)] new(3) by blast
  moreover have kept: "rows_kept s s'" using new(2) frame(1) by (simp add: rows_kept_def)
  moreover have "links_ok s'" using ok(3) kept by (rule links_ok_frame) (simp add: frame new)
  moreover have "plans_ok env s'" using new(1) plans_ok_cong [OF frame(1, 3)] by simp
  ultimately show ?thesis by (simp add: store_ok_def)
next
  case (changed p q s1 k su ev i now r)
  have ok: "plans_ok env s" "events_ok s" "links_ok s" using assms(2) by (simp_all add: store_ok_def)
  then have "distinct (map pl_PlanID (tb_plans s))" by (simp add: plans_ok_def)
  note row = replacePlan_row [OF changed(4, 1, 2) this]
  note new = replaced_ok [OF row(1) changed(2, 3) ok(1) plan_at_in [OF changed(1)] row(2)] and frame = insertEvent_frame [OF changed(5)]
  have kept1: "rows_kept s (settled r s1)" using new(2) by (simp add: rows_kept_def)
  have "events_ok (settled r s1)" using ok(2) kept1 by (rule events_ok_frame) (simp_all add: row(1))
  then have "events_ok s'" using insertEvent_ok [OF changed(5)] new(3) by simp
  moreover have kept: "rows_kept s s'" using new(2) frame(1) by (simp add: rows_kept_def)
  moreover have "links_ok s'" using ok(3) kept by (rule links_ok_frame) (simp add: frame settled_links, simp add: row(1))
  moreover have "plans_ok env s'" using new(1) plans_ok_cong [of s' s1] frame(1, 3) by simp
  ultimately show ?thesis by (simp add: store_ok_def)
next
  case (linked l p)
  have ok: "plans_ok env s" "events_ok s" "links_ok s" using assms(2) by (simp_all add: store_ok_def)
  note new = insert_link_ok [OF linked(3) ok(3) linked(1, 2)]
  have kept: "rows_kept s s'" using new(2) by (rule rows_kept_same)
  moreover have "events_ok s'" using ok(2) kept new(3, 4, 5) by (rule events_ok_frame)
  moreover have "plans_ok env s'" using ok(1) plans_ok_cong [OF new(2, 6)] by simp
  ultimately show ?thesis using new(1) by (simp add: store_ok_def)
next
  case (outdated p k su ev i now r)
  have ok: "plans_ok env s" "events_ok s" "links_ok s" using assms(2) by (simp_all add: store_ok_def)
  note frame = insertEvent_frame [OF outdated(2)]
  have kept1: "rows_kept s (settled r s)" by (rule rows_kept_same) simp
  have "events_ok (settled r s)" using ok(2) kept1 by (rule events_ok_frame) simp_all
  then have "events_ok s'" using insertEvent_ok [OF outdated(2)] plan_at_in [OF outdated(1)] by simp
  moreover have kept: "rows_kept s s'" by (rule rows_kept_same) (simp add: frame)
  moreover have "links_ok s'" using ok(3) kept by (rule links_ok_frame) (simp add: frame settled_links)
  moreover have "plans_ok env s'" using ok(1) plans_ok_cong [of s' s] frame(1, 3) by simp
  ultimately show ?thesis by (simp add: store_ok_def)
next
  case closed
  then have kept: "rows_kept s s'" by (intro rows_kept_same) (simp add: Store_Close_def)
  then show ?thesis
    using assms(2) closed events_ok_frame [OF _ kept] links_ok_frame [OF _ kept] plans_ok_cong [of s' s]
    by (simp add: store_ok_def Store_Close_def)
qed

lemma store_step_ok:
  assumes "store_step env digest_of s s'" "store_ok env s"
  shows "store_ok env s' \<and> rows_kept s s'"
proof -
  have "\<forall>p \<in> set (tb_plans s). plan_ok p" using assms(2) by (simp add: store_ok_def plans_ok_def accepted_def)
  from store_step_refines [OF assms(1) this] show ?thesis
    using table_step_ok [OF _ assms(2)] assms(2) rows_kept_same [of s s] by blast
qed

lemma reachable_store_ok: "reachable_store env digest_of s \<Longrightarrow> store_ok env s"
proof (induction rule: reachable_store.induct)
  case (opened m n s)
  then show ?case
    by (auto simp: OpenStore_def store_ok_def plans_ok_def events_ok_def links_ok_def open_plans_def Let_def split: if_splits)
qed (use store_step_ok in blast)

end
