(* ===== verification/Task_Properties.thy ===== *)
theory Task_Properties
  imports Task_Lifecycle Policy_Samples
begin

section \<open>What the store of plans guarantees\<close>

text \<open>
  The properties of plans in every store that the methods lead to, and two cases in which a plan cannot go on, each with a
  concrete store in which it holds.
\<close>

subsection \<open>A store with one plan\<close>

definition walk :: capability_ref where
  "walk = CapabilityRef ''g.w'' ''1.0.0''"

definition walk_condition :: "string \<Rightarrow> plan_condition" where
  "walk_condition i = \<lparr>cn_ConditionID = i, cn_Kind = EvidenceOperationOutcome, cn_Summary = ''s'', cn_Capability = Some walk,
     cn_FactID = '''', cn_FactValueJSON = ''''\<rparr>"

definition walk_draft :: "string list \<Rightarrow> plan_draft" where
  "walk_draft conditions = \<lparr>df_PlanID = ''p'', df_TaskID = ''t'', df_SessionID = ''s'', df_HostID = ''h'', df_WorldID = ''w'',
     df_ActorID = ''a'', df_ControllerID = ''c'', df_ControllerSource = ControllerExternal, df_Goal = ''g'',
     df_PlanningMode = PlanningAuto, df_Phase = '''',
     df_Steps = [\<lparr>sd_StepID = ''x'', sd_Title = ''x'', sd_Objective = ''x'',
       sd_SuccessConditions = map walk_condition conditions, sd_CapabilityHints = [walk], sd_MaxAttempts = 1\<rparr>],
     df_SuccessConditions = [], df_MaxReplans = 0, df_BasedOnEpoch = sample_epoch, df_BasedOnObservationSequence = 1\<rparr>"

definition store_open :: plan_store where
  "store_open = \<lparr>tb_plans = [], tb_events = [], tb_operations = [], tb_sequence = 0, tb_maxPlans = 2, tb_maxEvents = 8, tb_closed = False\<rparr>"

definition store_planned :: "string list \<Rightarrow> plan_store" where
  "store_planned conditions = snd (Store_Create sample_env 1000 store_open (walk_draft conditions))"

definition walk_link :: "u64 \<Rightarrow> string list \<Rightarrow> operation_link" where
  "walk_link r conditions = \<lparr>lk_OperationID = ''o'', lk_PlanID = ''p'', lk_PlanRevision = r, lk_StepID = ''x'', lk_ConditionIDs = conditions\<rparr>"

definition walk_outcome :: "string \<Rightarrow> action_run_status \<Rightarrow> action_outcome" where
  "walk_outcome i m = \<lparr>ao_OperationID = i, ao_Status = m, ao_Code = (if m = ActionSucceeded then '''' else ''g.b''), ao_Summary = ''d'', ao_Evidence = [], ao_Epoch = sample_epoch,
     ao_WorldSeq = 2, ao_OccurredAt = \<lparr>tp_Clock = ClockRealtime, tp_Value = 1000\<rparr>\<rparr>"

definition walk_result :: "string \<Rightarrow> action_run_status \<Rightarrow> operation_result" where
  "walk_result i m = \<lparr>rz_OperationID = i, rz_ExecutionConfirmed = True, rz_Outcome = walk_outcome i m\<rparr>"

definition outcome_digest :: "action_outcome \<Rightarrow> string" where
  "outcome_digest oc = (if ao_Status oc = ActionSucceeded then replicate 64 (CHR ''a'') else replicate 64 (CHR ''b''))"

definition store_linked :: plan_store where
  "store_linked = snd (LinkOperation sample_env (store_planned [''a'']) (walk_link 1 [''a'']))"

definition store_done :: plan_store where
  "store_done = snd (ApplyOperationResult sample_env outcome_digest 2000 store_linked (walk_result ''o'' ActionSucceeded))"

definition store_blocked :: plan_store where
  "store_blocked = snd (Store_SetStatus sample_env 3000
     (snd (ApplyOperationResult sample_env outcome_digest 2000 store_linked (walk_result ''o'' ActionFailed)))
     \<lparr>sx_PlanID = ''p'', sx_ExpectedRevision = 2, sx_Status = PlanPaused, sx_Summary = ''s''\<rparr>)"

definition store_half :: plan_store where
  "store_half = snd (LinkOperation sample_env
     (snd (applyTrustedEvidence sample_env 1500 (store_planned [''a'', ''b'']) ''p'' 1
        (outcome_evidence ''n.b'' ''b'' ''n'' (walk_outcome ''n'' ActionSucceeded) (replicate 64 (CHR ''a'')) 1500) ''s''))
     (walk_link 2 [''a'', ''b'']))"

abbreviation reached_store :: "plan_store \<Rightarrow> bool" where
  "reached_store \<equiv> reachable_store sample_env outcome_digest"

lemma reached_planned: "reached_store (store_planned conditions)"
proof -
  have "OpenStore 2 8 = Inr store_open" by code_simp
  then show ?thesis unfolding store_planned_def by (intro reachable_store.continued [OF reachable_store.opened step_Create])
qed

lemma reached_linked: "reached_store store_linked"
  unfolding store_linked_def by (rule reachable_store.continued [OF reached_planned step_LinkOperation])

lemma reached_done: "reached_store store_done"
  unfolding store_done_def by (rule reachable_store.continued [OF reached_linked step_ApplyOperationResult])

lemma reached_blocked: "reached_store store_blocked"
  unfolding store_blocked_def
  by (rule reachable_store.continued [OF reachable_store.continued [OF reached_linked step_ApplyOperationResult] step_SetStatus])

lemma reached_half: "reached_store store_half"
  unfolding store_half_def
  by (rule reachable_store.continued [OF reachable_store.continued [OF reached_planned step_applyTrustedEvidence] step_LinkOperation])

text \<open>What the examples ask of a store: the kinds of its events, and the status, revision and current step of each plan.\<close>

definition overview :: "plan_store \<Rightarrow> nat \<times> (string \<times> plan_status \<times> nat option \<times> step_status list) list" where
  "overview s = (length (tb_events s), map (\<lambda>p. (pl_PlanID p, pl_Status p, currentStepIndex p, map sp_Status (pl_Steps p))) (tb_plans s))"

lemma overview_plan:
  assumes "overview s = (n, [(i, m, c, ms)])"
  shows "length (tb_events s) = n" "\<exists>p. tb_plans s = [p] \<and> plan_at s i = Some p \<and> pl_Status p = m \<and> currentStepIndex p = c \<and> map sp_Status (pl_Steps p) = ms"
  using assms by (auto simp: overview_def plan_at_def map_eq_Cons_conv)

text \<open>The store with the linked operation as a value, so that later evaluations start from it.\<close>

lemma store_linked_value [code]:
  "store_linked = store_open\<lparr>tb_plans := [\<lparr>pl_SchemaVersion = ''rin.task-plan/v1'', pl_PlanID = ''p'', pl_TaskID = ''t'', pl_SessionID = ''s'',
       pl_HostID = ''h'', pl_WorldID = ''w'', pl_ActorID = ''a'', pl_ControllerID = ''c'', pl_ControllerSource = ControllerExternal, pl_Goal = ''g'',
       pl_GoalDigest = replicate 64 CHR ''a'', pl_PlanningMode = PlanningAuto, pl_Status = PlanActive, pl_Phase = ''x'', pl_CurrentStepID = ''x'',
       pl_Steps = [\<lparr>sp_StepID = ''x'', sp_Title = ''x'', sp_Objective = ''x'', sp_Status = StepActive, sp_SuccessConditions = [walk_condition ''a''],
         sp_CapabilityHints = [walk], sp_Attempt = 0, sp_MaxAttempts = 1, sp_BlockedReason = '''', sp_Evidence = []\<rparr>],
       pl_SuccessConditions = [], pl_Evidence = [], pl_Revision = 1, pl_ReplanCount = 0, pl_MaxReplans = 3, pl_ConsecutiveFailures = 0,
       pl_LastFailureFamily = '''', pl_LastOperationID = '''', pl_LastOutcomeCode = '''', pl_BasedOnEpoch = sample_epoch,
       pl_BasedOnObservationSequence = 1, pl_CreatedAt = 1000, pl_UpdatedAt = 1000\<rparr>],
     tb_events := [\<lparr>pn_Sequence = 1, pn_PlanID = ''p'', pn_Revision = 1, pn_Kind = ''plan.created'', pn_Summary = ''Plan created.'',
       pn_Evidence = None, pn_OperationID = '''', pn_OccurredAt = 1000\<rparr>],
     tb_operations := [\<lparr>ow_Link = walk_link 1 [''a''], ow_Terminal = False, ow_OutcomeDigest = ''''\<rparr>], tb_sequence := 1\<rparr>"
  by code_simp

lemma overview_linked: "overview store_linked = (1, [(''p'', PlanActive, Some 0, [StepActive])])"
  by code_simp

lemma overview_done: "overview store_done = (2, [(''p'', PlanCompleted, None, [StepCompleted])])"
  by code_simp

lemma overview_blocked: "overview store_blocked = (3, [(''p'', PlanPaused, Some 0, [StepBlocked])])"
  by code_simp

lemma store_done_facts:
  "length (tb_events store_done) = 2" "\<exists>p. tb_plans store_done = [p] \<and> plan_at store_done ''p'' = Some p \<and> pl_Status p = PlanCompleted"
  using overview_plan [OF overview_done] by auto

lemma store_linked_events: "length (tb_events store_linked) = 1"
  using overview_plan(1) [OF overview_linked] .

subsection \<open>Properties\<close>

text \<open>
  C13: in every store that the methods lead to, plans have distinct identifiers and tasks, every actor has at most one open plan in
  a session, the open plans stay within their limit, every plan passes its own validation, the events are numbered in order, at
  most the configured number for each plan, and every event and every linked operation belongs to a plan that is stored in that
  revision or a later one.
\<close>

theorem plan_tables_fit_together:
  "reachable_store env digest_of s \<Longrightarrow> plans_ok env s \<and> events_ok s \<and> links_ok s"
  using reachable_store_ok by (simp add: store_ok_def)

theorem plan_tables_fit_together_witness:
  "reached_store store_done \<and> map pl_Status (tb_plans store_done) = [PlanCompleted] \<and> length (tb_events store_done) = 2 \<and> links_ok store_done"
  using plan_tables_fit_together [OF reached_done] reached_done store_done_facts by auto

definition evidence_for :: "plan_state \<Rightarrow> plan_evidence list \<Rightarrow> plan_condition \<Rightarrow> bool" where
  "evidence_for p vs c \<longleftrightarrow>
     (\<exists>v \<in> set vs. pv_ConditionID v = cn_ConditionID c \<and> pv_Kind v = cn_Kind c \<and> pv_Epoch v = pl_BasedOnEpoch p
        \<and> pl_BasedOnObservationSequence p \<le> pv_ObservationSequence v)"

lemma satisfied_evidence:
  assumes "conditionsSatisfied cs vs" "\<forall>v \<in> set vs. validateEvidence v p = None" "c \<in> set cs"
  shows "evidence_for p vs c"
proof -
  obtain v where "v \<in> set vs" "pv_ConditionID v = cn_ConditionID c" "pv_Kind v = cn_Kind c"
    using assms(1, 3) by (auto simp: conditionsSatisfied_def list_all_iff list_ex_iff)
  moreover from this assms(2) have "pv_Epoch v = pl_BasedOnEpoch p" "pl_BasedOnObservationSequence p \<le> pv_ObservationSequence v"
    by (auto simp: validateEvidence_def first_err_None_iff simp del: first_err.simps)
  ultimately show ?thesis unfolding evidence_for_def by blast
qed

lemma stored_plan_ok:
  assumes "reachable_store env digest_of s" "plan_at s i = Some p"
  shows "plan_ok p" "ValidatePlan env p = None"
  using reachable_store_ok [OF assms(1)] plan_at_in [OF assms(2)] by (auto simp: store_ok_def plans_ok_def accepted_def)

text \<open>
  C11: a plan is completed only with proof: every step is completed, and for every condition of every step and of the plan there is
  evidence of the right kind, of the epoch the plan is based on and not older than the observation it is based on.
\<close>

theorem completed_plans_are_proven:
  assumes "reachable_store env digest_of s" "plan_at s i = Some p" "pl_Status p = PlanCompleted"
  shows "(\<forall>st \<in> set (pl_Steps p). sp_Status st = StepCompleted \<and> (\<forall>c \<in> set (sp_SuccessConditions st). evidence_for p (sp_Evidence st) c))
    \<and> (\<forall>c \<in> set (pl_SuccessConditions p). evidence_for p (pl_Evidence p) c)"
proof -
  have "proven p" "steps_done (pl_Steps p)" "conditionsSatisfied (pl_SuccessConditions p) (pl_Evidence p)"
    using stored_plan_ok(1) [OF assms(1, 2)] assms(3) by (simp_all add: plan_ok_def)
  then show ?thesis using satisfied_evidence unfolding proven_def steps_done_def step_proven_def by blast
qed

theorem completed_plans_are_proven_witness:
  "\<exists>p. plan_at store_done ''p'' = Some p \<and> (\<forall>st \<in> set (pl_Steps p). \<forall>c \<in> set (sp_SuccessConditions st). evidence_for p (sp_Evidence st) c)"
  using store_done_facts(2) completed_plans_are_proven [OF reached_done] by blast

text \<open>
  C12: plans only move forward. Whatever method is called, a stored plan stays stored, keeps what identifies it, and is either
  unchanged or was open and gets a higher revision; a plan that is completed or cancelled never changes. A plan is revised at most
  32 times.
\<close>

theorem plans_only_move_forward:
  assumes "reachable_store env digest_of s" "store_step env digest_of s s'" "plan_at s i = Some p"
  shows "\<exists>q. plan_at s' i = Some q \<and> identity q = identity p \<and> pl_ReplanCount p \<le> pl_ReplanCount q \<and> pl_ReplanCount q \<le> 32
    \<and> (q = p \<or> \<not> terminalPlanStatus (pl_Status p) \<and> pl_Revision p < pl_Revision q)"
proof -
  note ok = reachable_store_ok [OF assms(1)]
  have new: "store_ok env s'" and kept: "rows_kept s s'" using store_step_ok [OF assms(2) ok] by simp_all
  obtain q where q: "q \<in> set (tb_plans s')" "moves p q" using kept plan_at_in [OF assms(3)] unfolding rows_kept_def by blast
  have id: "pl_PlanID q = i" using moves_ids(1) [OF q(2)] plan_at_id [OF assms(3)] by simp
  then obtain r where r: "plan_at s' i = Some r" using q(1) by (cases "plan_at s' i") (auto simp: plan_at_def find_None_iff)
  have "distinct (map pl_PlanID (tb_plans s'))" using new by (simp add: store_ok_def plans_ok_def)
  then have "plan_at s' i = Some q" using plan_at_unique [OF _ r q(1) id] r by simp
  moreover have "pl_ReplanCount q \<le> 32"
  proof -
    have "ValidatePlan env q = None" using new q(1) by (simp add: store_ok_def plans_ok_def accepted_def)
    then show ?thesis using ValidatePlan_facts(5, 6) by (blast intro: order_trans)
  qed
  ultimately show ?thesis using q(2) by (auto simp: moves_def)
qed

theorem plans_only_move_forward_witness:
  "\<exists>q. plan_at (snd (Store_SetStatus sample_env 3000 store_done
        \<lparr>sx_PlanID = ''p'', sx_ExpectedRevision = 3, sx_Status = PlanCancelled, sx_Summary = ''stop''\<rparr>)) ''p'' = Some q
     \<and> pl_Status q = PlanCompleted"
proof -
  obtain p where p: "plan_at store_done ''p'' = Some p" "pl_Status p = PlanCompleted" using store_done_facts(2) by blast
  from plans_only_move_forward [OF reached_done step_SetStatus p(1)] p(2) show ?thesis by (fastforce simp: terminalPlanStatus_def)
qed

text \<open>
  C20: the shape of an open plan. There is a position such that every step before it is completed and every step after it pending;
  the step at that position is active or blocked and is the current step; when all steps are completed there is no current step.
\<close>

theorem open_plans_are_in_order:
  assumes "reachable_store env digest_of s" "plan_at s i = Some p" "open_status (pl_Status p)"
  shows "\<exists>n \<le> length (pl_Steps p). (\<forall>j < n. sp_Status (pl_Steps p ! j) = StepCompleted)
    \<and> (\<forall>j. n < j \<and> j < length (pl_Steps p) \<longrightarrow> sp_Status (pl_Steps p ! j) = StepPending)
    \<and> (if n < length (pl_Steps p) then sp_Status (pl_Steps p ! n) \<in> {StepActive, StepBlocked} \<and> currentStepIndex p = Some n
       else pl_CurrentStepID p = [] \<and> currentStepIndex p = None)"
proof -
  have "progress p"
    using stored_plan_ok(1) [OF assms(1, 2)] assms(3) by (auto simp: plan_ok_def open_status_def split: plan_status.splits)
  then show ?thesis using ValidatePlan_ids [OF stored_plan_ok(2) [OF assms(1, 2)]]
  proof (cases rule: progress_cases)
    case finished
    then show ?thesis by (intro exI [of _ "length (pl_Steps p)"]) (simp add: steps_done_def)
  next
    case (current ds st rest)
    have "sp_Status (pl_Steps p ! j) = StepPending" if j: "length ds < j" "j < length (pl_Steps p)" for j
    proof -
      obtain k where "j = Suc (length ds) + k" "k < length rest" using j current(1) by (auto dest!: less_imp_Suc_add)
      then show ?thesis using current(5) by (simp add: current(1) nth_append)
    qed
    then show ?thesis using current by (intro exI [of _ "length ds"]) (auto simp: steps_done_def nth_append)
  qed
qed

theorem open_plans_are_in_order_witness:
  "\<exists>p. plan_at store_linked ''p'' = Some p \<and> (\<exists>n \<le> length (pl_Steps p). \<forall>j < n. sp_Status (pl_Steps p ! j) = StepCompleted)"
proof -
  obtain p where p: "plan_at store_linked ''p'' = Some p" "pl_Status p = PlanActive" using overview_plan(2) [OF overview_linked] by auto
  from open_plans_are_in_order [OF reached_linked p(1)] p show ?thesis by (auto simp: open_status_def)
qed

lemma find_map_same: "(\<And>x. P (f x) = P x) \<Longrightarrow> find P (map f xs) = map_option f (find P xs)"
  by (induction xs) auto

lemma operation_row_settled:
  assumes "operation_row_at s i = Some r"
  shows "operation_row_at (settle_row i dg s) i = Some (r\<lparr>ow_Terminal := True, ow_OutcomeDigest := dg\<rparr>)"
proof -
  have "lk_OperationID (ow_Link r) = i" using assms by (auto simp: operation_row_at_def find_Some_iff)
  then show ?thesis using assms unfolding operation_row_at_def settle_row_def by (simp add: find_map_same)
qed

lemma insertEvent_closed: "insertEvent p k su ev i now s = Inr s' \<Longrightarrow> tb_closed s' = tb_closed s"
  and replacePlan_frame: "replacePlan r q s = Inr s' \<Longrightarrow> tb_closed s' = tb_closed s \<and> tb_operations s' = tb_operations s"
  by (auto simp: insertEvent_def replacePlan_def Let_def split: if_splits)

lemma transaction_Inr: "transaction s body = (Inr a, s') \<longleftrightarrow> \<not> tb_closed s \<and> body = Inr (a, s')"
  by (auto simp: transaction_def split: sum.splits prod.splits)

definition result_valid :: "operation_result \<Rightarrow> bool" where
  "result_valid result \<longleftrightarrow>
     rz_ExecutionConfirmed result \<and> ValidateActionOutcome (rz_Outcome result) = None \<and> rz_OperationID result = ao_OperationID (rz_Outcome result)"

lemma ApplyOperationResult_settles:
  assumes "ApplyOperationResult env digest_of now s result = (Inr a, s')"
  shows "\<not> tb_closed s' \<and> result_valid result
    \<and> (\<exists>r. operation_row_at s' (rz_OperationID result) = Some r \<and> ow_Terminal r \<and> ow_OutcomeDigest r = digest_of (rz_Outcome result))"
proof -
  let ?i = "rz_OperationID result" let ?dg = "digest_of (rz_Outcome result)"
  have valid: "result_valid result" and opened: "\<not> tb_closed s"
    using assms by (auto simp: ApplyOperationResult_def Let_def transaction_def result_valid_def split: option.splits if_splits)
  obtain r where r: "operation_row_at s ?i = Some r"
    using assms by (auto simp: ApplyOperationResult_def Let_def transaction_def split: option.splits if_splits sum.splits)
  show ?thesis
  proof (cases "ow_Terminal r")
    case True
    then have "s' = s" "ow_OutcomeDigest r = ?dg"
      using assms r by (auto simp: ApplyOperationResult_def Let_def transaction_def ebind_def split: option.splits if_splits sum.splits)
    then show ?thesis using True valid opened r by simp
  next
    case False
    note run = assms [unfolded ApplyOperationResult_def Let_def]
    obtain p q changed s1 k where settle: "(if changed then replacePlan (lk_PlanRevision (ow_Link r)) q s else Inr s) = Inr s1"
        "insertEvent q k (ao_Summary (rz_Outcome result)) (Some (outcome_evidence ?i ''operation.result'' ?i (rz_Outcome result) ?dg now)) ?i now
           (settle_row ?i ?dg s1) = Inr s'"
      using run r False valid by (auto simp: transaction_Inr ebind_Inr_iff result_valid_def Let_def)
    then have frame: "tb_operations s1 = tb_operations s" "tb_closed s1 = tb_closed s"
      using replacePlan_frame [of _ q s s1] by (auto split: if_splits)
    then have "operation_row_at s1 ?i = Some r" using r by (simp add: operation_row_at_def)
    from operation_row_settled [OF this, of ?dg] have "operation_row_at s' ?i = Some (r\<lparr>ow_Terminal := True, ow_OutcomeDigest := ?dg\<rparr>)"
      using insertEvent_frame(2) [OF settle(2)] by (simp add: operation_row_at_def)
    moreover have "\<not> tb_closed s'" using insertEvent_closed [OF settle(2)] frame(2) opened by (simp add: settle_row_def)
    ultimately show ?thesis using valid by simp
  qed
qed

lemma ApplyOperationResult_again:
  assumes "store_ok env s" "\<not> tb_closed s" "result_valid result" "operation_row_at s (rz_OperationID result) = Some r" "ow_Terminal r"
  shows "\<exists>p. ApplyOperationResult env digest_of now s result =
    (if ow_OutcomeDigest r = digest_of (rz_Outcome result) then Inr (p, False) else Inl (task_fault TaskConflict), s)
      \<and> plan_at s (lk_PlanID (ow_Link r)) = Some p"
proof -
  have "r \<in> set (tb_operations s)" using assms(4) by (auto simp: operation_row_at_def find_Some_iff)
  then have "covers s (lk_PlanID (ow_Link r)) (lk_PlanRevision (ow_Link r))" using assms(1) by (simp add: store_ok_def links_ok_def)
  then obtain p where p: "plan_at s (lk_PlanID (ow_Link r)) = Some p"
    by (cases "plan_at s (lk_PlanID (ow_Link r))") (auto simp: plan_at_def find_None_iff covers_def)
  then have "loadPlan env s (lk_PlanID (ow_Link r)) = Inr p"
    using plan_at_in [OF p] assms(1) by (simp add: loadPlan_Inr store_ok_def plans_ok_def accepted_def)
  then show ?thesis
    using assms(2-5) p by (auto simp: ApplyOperationResult_def Let_def transaction_def result_valid_def)
qed

text \<open>
  the outcome of an operation is applied once. After a result was recorded, recording it again changes nothing and reports
  no change, at any time; a different outcome for the same operation is refused as a conflict and changes nothing.
\<close>

theorem outcomes_are_applied_once:
  assumes "reachable_store env digest_of s" "ApplyOperationResult env digest_of now s result = (Inr a, s')"
    and "result_valid other" "rz_OperationID other = rz_OperationID result"
  shows "snd (ApplyOperationResult env digest_of now' s' other) = s'
    \<and> (if digest_of (rz_Outcome other) = digest_of (rz_Outcome result)
       then \<exists>p. fst (ApplyOperationResult env digest_of now' s' other) = Inr (p, False)
       else fst (ApplyOperationResult env digest_of now' s' other) = Inl (task_fault TaskConflict))"
proof -
  have "reachable_store env digest_of s'"
    using reachable_store.continued [OF assms(1) step_ApplyOperationResult, of now result] assms(2) by simp
  then have ok: "store_ok env s'" by (rule reachable_store_ok)
  obtain r where "\<not> tb_closed s'" "operation_row_at s' (rz_OperationID other) = Some r" "ow_Terminal r"
      "ow_OutcomeDigest r = digest_of (rz_Outcome result)"
    using ApplyOperationResult_settles [OF assms(2)] assms(4) by auto
  with ApplyOperationResult_again [OF ok _ assms(3), of r digest_of now'] show ?thesis by auto
qed

theorem outcomes_are_applied_once_witness:
  "fst (ApplyOperationResult sample_env outcome_digest 9000 store_done (walk_result ''o'' ActionFailed)) = Inl (task_fault TaskConflict)"
proof -
  let ?run = "ApplyOperationResult sample_env outcome_digest 2000 store_linked (walk_result ''o'' ActionSucceeded)"
  have "store_done \<noteq> store_linked" using store_done_facts(1) store_linked_events by auto
  then obtain a where run: "?run = (Inr a, store_done)"
    unfolding store_done_def by (cases "fst ?run") (auto simp: ApplyOperationResult_def Let_def transaction_def split: option.splits sum.splits if_splits)
  have "result_valid (walk_result ''o'' ActionFailed)" by code_simp
  from outcomes_are_applied_once [OF reached_linked run this, of 9000] show ?thesis
    by (simp add: walk_result_def walk_outcome_def outcome_digest_def)
qed

subsection \<open>Plans that cannot go on\<close>

lemma blocked_not_active:
  assumes "progress p" "ValidatePlan env p = None" "currentStepIndex p = Some n" "sp_Status (pl_Steps p ! n) = StepBlocked"
  shows "active_steps (pl_Steps p) = 0" "\<not> allStepsTerminalSuccess (pl_Steps p)"
proof -
  from assms(1) ValidatePlan_ids [OF assms(2)] have "active_steps (pl_Steps p) = 0 \<and> \<not> allStepsTerminalSuccess (pl_Steps p)"
  proof (cases rule: progress_cases)
    case (current ds st rest)
    then have "sp_Status st = StepBlocked" using assms(3, 4) by (simp add: nth_append)
    then show ?thesis using current by (auto simp: active_steps_def allStepsTerminalSuccess_def filter_empty_conv steps_done_def)
  qed (use assms(3) in simp)
  then show "active_steps (pl_Steps p) = 0" "\<not> allStepsTerminalSuccess (pl_Steps p)" by simp_all
qed

lemma SetStatus_refused: "fst (Store_SetStatus env now s input) = Inl e \<Longrightarrow> snd (Store_SetStatus env now s input) = s"
  by (auto simp: Store_SetStatus_def transaction_def split: option.splits sum.splits if_splits prod.splits)

text \<open>
  C39: a plan whose current step ran out of attempts and that was paused then cannot be resumed: the status it would get demands an
  active step, so that every attempt to set it active is refused and changes nothing.
\<close>

theorem paused_blocked_plans_cannot_resume:
  assumes "reachable_store env digest_of s" "plan_at s (sx_PlanID input) = Some p" "sx_Status input = PlanActive"
    and "currentStepIndex p = Some n" "sp_Status (pl_Steps p ! n) = StepBlocked" "pl_Status p = PlanPaused"
  shows "isl (fst (Store_SetStatus env now s input)) \<and> snd (Store_SetStatus env now s input) = s"
proof -
  note p = stored_plan_ok [OF assms(1, 2)]
  have "progress p" using p(1) assms(6) by (simp add: plan_ok_def)
  note stuck = blocked_not_active [OF this p(2) assms(4, 5)]
  have "validate_plan_status (bump_revision now (with_status PlanActive p)) \<noteq> None"
    using stuck by (simp add: validate_plan_status_def bump_revision_def with_status_def Let_def terminalPlanStatus_def)
  then have "ValidatePlan env (bump_revision now (with_status PlanActive p)) \<noteq> None"
    by (rule contrapos_nn) (rule ValidatePlan_facts(2))
  moreover have "loadPlan env s (sx_PlanID input) = Inr p" using assms(2) p(2) by (simp add: loadPlan_Inr)
  ultimately have "\<not> (\<exists>a. fst (Store_SetStatus env now s input) = Inr a)"
    by (auto simp: Store_SetStatus_def assms(3) transaction_def ebind_def Let_def split: option.splits sum.splits if_splits)
  then show ?thesis
    by (cases "fst (Store_SetStatus env now s input)") (auto dest!: SetStatus_refused)
qed

theorem paused_blocked_plans_cannot_resume_witness:
  "reached_store store_blocked \<and> isl (fst (Store_SetStatus sample_env 4000 store_blocked
     \<lparr>sx_PlanID = ''p'', sx_ExpectedRevision = 3, sx_Status = PlanActive, sx_Summary = ''go''\<rparr>))"
proof -
  obtain p where p: "plan_at store_blocked ''p'' = Some p" "pl_Status p = PlanPaused" "currentStepIndex p = Some 0"
      "sp_Status (pl_Steps p ! 0) = StepBlocked" using overview_plan(2) [OF overview_blocked] by auto
  let ?input = "\<lparr>sx_PlanID = ''p'', sx_ExpectedRevision = 3, sx_Status = PlanActive, sx_Summary = ''go''\<rparr>"
  show ?thesis using paused_blocked_plans_cannot_resume [OF reached_blocked, of ?input p 0 4000] p reached_blocked by simp
qed

text \<open>
  C40: a success can be refused for ever. When the first of the conditions an operation is linked to completes the plan, because the
  others were proven before, the evidence for the next condition meets a plan that is not open any more, and the whole result is
  undone; so it is each time it is reported.
\<close>

theorem early_completion_refuses_outcome:
  assumes "store_ok env s" "\<not> tb_closed s" "result_valid result" "operation_row_at s (rz_OperationID result) = Some r" "\<not> ow_Terminal r"
    and "plan_at s (lk_PlanID (ow_Link r)) = Some p" "pl_Revision p = lk_PlanRevision (ow_Link r)" "pl_CurrentStepID p = lk_StepID (ow_Link r)"
    and "ao_Status (rz_Outcome result) = ActionSucceeded" "lk_ConditionIDs (ow_Link r) = c # d # cs"
    and "ApplyEvidence env p (outcome_evidence (rz_OperationID result @ ''.'' @ c) c (rz_OperationID result) (rz_Outcome result)
           (digest_of (rz_Outcome result)) now) now = Inr (q, adv)" "pl_Status q = PlanCompleted"
  shows "ApplyOperationResult env digest_of now s result = (Inl (TaskError TaskConflict ''plan is not active''), s)"
proof -
  have "lk_OperationID (ow_Link r) = rz_OperationID result" using assms(4) by (auto simp: operation_row_at_def find_Some_iff)
  moreover have p: "accepted env p" using plan_at_in [OF assms(6)] assms(1) by (simp add: store_ok_def plans_ok_def)
  moreover have "ValidatePlan env q = None" using ApplyEvidence_moves [OF assms(11) p] by (simp add: accepted_def)
  ultimately have "settle_plan env now (ow_Link r) (rz_Outcome result) (digest_of (rz_Outcome result)) p
      = Inl (TaskError TaskConflict ''plan is not active'')"
    using assms(7-12) by (simp add: settle_plan_def ApplyEvidence_def [of env q] guard_err_def)
  moreover have "loadPlan env s (lk_PlanID (ow_Link r)) = Inr p" using assms(6) p by (simp add: loadPlan_Inr accepted_def)
  ultimately show ?thesis
    using assms(2-5) by (simp add: ApplyOperationResult_def Let_def transaction_def result_valid_def)
qed

definition completes_next :: "plan_evidence \<Rightarrow> plan_store \<Rightarrow> bool" where
  "completes_next v s \<longleftrightarrow>
     (case operation_row_at s ''o'' of
        None \<Rightarrow> False
      | Some r \<Rightarrow> \<not> tb_closed s \<and> \<not> ow_Terminal r \<and> ow_Link r = walk_link 2 [''a'', ''b'']
          \<and> (case plan_at s ''p'' of
               None \<Rightarrow> False
             | Some p \<Rightarrow> pl_Revision p = 2 \<and> pl_CurrentStepID p = ''x''
                 \<and> (case ApplyEvidence sample_env p v 2000 of Inl _ \<Rightarrow> False | Inr (q, adv) \<Rightarrow> pl_Status q = PlanCompleted)))"

lemma store_half_facts:
  "completes_next (outcome_evidence (rz_OperationID (walk_result ''o'' ActionSucceeded) @ ''.'' @ ''a'') ''a''
     (rz_OperationID (walk_result ''o'' ActionSucceeded)) (rz_Outcome (walk_result ''o'' ActionSucceeded))
     (outcome_digest (rz_Outcome (walk_result ''o'' ActionSucceeded))) 2000) store_half"
  by code_simp

theorem early_completion_refuses_outcome_witness:
  "reached_store store_half \<and> fst (ApplyOperationResult sample_env outcome_digest 2000 store_half (walk_result ''o'' ActionSucceeded))
     = Inl (TaskError TaskConflict ''plan is not active'')"
proof -
  let ?res = "walk_result ''o'' ActionSucceeded"
  let ?v = "outcome_evidence (rz_OperationID ?res @ ''.'' @ ''a'') ''a'' (rz_OperationID ?res) (rz_Outcome ?res) (outcome_digest (rz_Outcome ?res)) 2000"
  obtain r p q adv where facts: "operation_row_at store_half ''o'' = Some r" "\<not> tb_closed store_half" "\<not> ow_Terminal r"
      "ow_Link r = walk_link 2 [''a'', ''b'']" "plan_at store_half ''p'' = Some p" "pl_Revision p = 2" "pl_CurrentStepID p = ''x''"
      "ApplyEvidence sample_env p ?v 2000 = Inr (q, adv)" "pl_Status q = PlanCompleted"
    using store_half_facts by (auto simp: completes_next_def split: option.splits sum.splits)
  have "result_valid ?res" by code_simp
  moreover have "rz_OperationID ?res = ''o''" "ao_Status (rz_Outcome ?res) = ActionSucceeded" by (simp_all add: walk_result_def walk_outcome_def)
  ultimately show ?thesis
    using early_completion_refuses_outcome [OF reachable_store_ok [OF reached_half] facts(2), of ?res r p "''a''" "''b''" "[]" outcome_digest 2000 q adv]
      facts reached_half by (simp add: walk_link_def)
qed

end
