(* ===== verification/Control_Discovery.thy ===== *)
theory Control_Discovery
  imports Control_Service
begin

section \<open>What a client may read of an actor\<close>

text \<open>
  The read methods of \<open>src/controlplane/discovery.go\<close>: the observation and the catalog of capabilities that the Host of an actor
  published last, for principals that may read the actor, while the Host has a live lease.
\<close>

definition published_actor :: "int \<Rightarrow> service \<Rightarrow> principal \<Rightarrow> actor_control_target \<Rightarrow> control_error + actor_publication" where
  "published_actor now s p t =
     guard_err (first_err [validateActorControlTarget t, invalid_principal p])
       (ebind (findWorldLocked s (at_HostID t) (at_WorldID t)) (\<lambda>(h, w).
         if \<not> lease_live now h then Inl (fault ErrUnavailable) else authorizeActorSnapshotLocked s p t ScopeActorRead))"

definition GetObservation :: "int \<Rightarrow> service \<Rightarrow> principal \<Rightarrow> actor_control_target \<Rightarrow> control_error + observation_envelope" where
  "GetObservation now s p t =
     ebind (published_actor now s p t) (\<lambda>a.
       case ap_Observation a of
         None \<Rightarrow> Inl (ControlError ErrUnavailable ''Host has not published a V2 observation'')
       | Some v \<Rightarrow> Inr v)"

definition ListCapabilities :: "int \<Rightarrow> service \<Rightarrow> principal \<Rightarrow> actor_control_target \<Rightarrow> control_error + capability_snapshot" where
  "ListCapabilities now s p t =
     ebind (published_actor now s p t) (\<lambda>a.
       case ap_Capabilities a of
         None \<Rightarrow> Inl (ControlError ErrUnavailable ''Host has not published a V2 capability catalog'')
       | Some v \<Rightarrow> Inr v)"

definition DescribeCapability ::
  "int \<Rightarrow> service \<Rightarrow> principal \<Rightarrow> actor_control_target \<Rightarrow> capability_ref \<Rightarrow> control_error + capability_spec" where
  "DescribeCapability now s p t ref =
     (case CapabilityRef_Validate ref ''capability'' of
        Some e \<Rightarrow> Inl (control_invalid ''capability'' (error_text e))
      | None \<Rightarrow>
          ebind (ListCapabilities now s p t) (\<lambda>snapshot.
            case find (\<lambda>spec. cs_Capability spec = ref) (sn_Specs snapshot) of
              None \<Rightarrow> Inl (fault ErrNotFound)
            | Some spec \<Rightarrow> Inr spec))"

lemma published_actor_access:
  assumes "published_actor now s p t = Inr a"
  shows "ap_ActorID a = at_ActorID t \<and> canAccessActor p a ScopeActorRead"
    "\<exists>h w. findWorldLocked s (at_HostID t) (at_WorldID t) = Inr (h, w) \<and> lease_live now h \<and> a \<in> set (wp_Actors w)"
proof -
  obtain h w where hw: "findWorldLocked s (at_HostID t) (at_WorldID t) = Inr (h, w)" "lease_live now h"
      "find_actor p w (at_ActorID t) ScopeActorRead = Inr a"
    using assms by (auto simp: published_actor_def authorizeActorSnapshotLocked_def ebind_Inr_iff split: if_splits)
  then show "ap_ActorID a = at_ActorID t \<and> canAccessActor p a ScopeActorRead"
    "\<exists>h w. findWorldLocked s (at_HostID t) (at_WorldID t) = Inr (h, w) \<and> lease_live now h \<and> a \<in> set (wp_Actors w)"
    by (auto simp: find_actor_def find_Some_iff split: option.splits if_splits)
qed

text \<open>What is described is in the catalog, and everything in the catalog can be described.\<close>

lemma described_is_listed:
  assumes "ListCapabilities now s p t = Inr snapshot" "CapabilityRef_Validate ref ''capability'' = None"
  shows "(\<exists>spec. DescribeCapability now s p t ref = Inr spec) \<longleftrightarrow> ref \<in> cs_Capability ` set (sn_Specs snapshot)"
    "DescribeCapability now s p t ref = Inr spec \<Longrightarrow> spec \<in> set (sn_Specs snapshot) \<and> cs_Capability spec = ref"
  using assms by (auto simp: DescribeCapability_def find_None_iff find_Some_iff split: option.splits)

end
