(* ===== verification/Task_Coordinator.thy ===== *)
theory Task_Coordinator
  imports Task_Lifecycle Control_Discovery Control_Gateway
begin

section \<open>Plans under the authority of the control plane\<close>

text \<open>
  The coordinator of \<open>src/taskstate/coordinator.go\<close>: it sits between clients and the store of plans, and asks the control plane who
  the client is, what the actor looks like and who controls it before it touches a plan. The control plane is the service of this
  development, reached through \<open>ClientService\<close> of \<open>src/controlplane/client_service.go\<close>, which fixes the principal. The digests of
  outcomes and facts and \<open>json.Compact\<close> are parameters. Reads of the clock give one time for each call.
\<close>

subsection \<open>The client of the control plane\<close>

datatype plan_fault = PlanFault (pf_task: task_error) | ControlFault (pf_control: control_error)

record task_env =
  tv_go :: go_env
  tv_digest :: "action_outcome \<Rightarrow> string"
  tv_fact_digest :: "observation_fact \<Rightarrow> string"
  tv_compact :: "string \<Rightarrow> string option"

text \<open>\<open>NewClientService\<close> refuses a principal that is not valid or has no scope of the control plane.\<close>

definition principalHasControlScope :: "principal \<Rightarrow> bool" where
  "principalHasControlScope p \<longleftrightarrow>
     list_ex (\<lambda>scope. scope \<in> {ScopeActorRead, ScopeActorControl, ScopeActorExecute, ScopeOperationCancel, ScopeHostAdmin}) (pr_GrantedScopes p)"

definition NewClientService :: "principal \<Rightarrow> control_error + principal" where
  "NewClientService p =
     guard_err (first_err [
         map_option (\<lambda>e. ControlError ErrInvalid (''principal: '' @ error_text e)) (ValidatePrincipal p),
         require (principalHasControlScope p) (ControlError ErrInvalid ''principal has no Control Plane scope'')])
       (Inr (clonePrincipalValue p))"

definition client_Info :: "principal \<Rightarrow> principal" where
  "client_Info p = clonePrincipalValue p"

definition principalHasScope :: "principal \<Rightarrow> string \<Rightarrow> bool" where
  "principalHasScope p scope \<longleftrightarrow> list_ex (\<lambda>granted. granted = scope) (pr_GrantedScopes p)"

definition mapControlError :: "control_error \<Rightarrow> plan_fault" where
  "mapControlError e =
     (if ce_kind e \<in> {ErrForbidden, ErrNotFound, ErrLeaseExpired} then PlanFault (task_fault TaskForbidden)
      else if ce_kind e \<in> {ErrStale, ErrLeaseConflict} then PlanFault (task_fault TaskConflict)
      else ControlFault e)"

subsection \<open>Authorisation\<close>

definition plan_target :: "plan_state \<Rightarrow> actor_control_target" where
  "plan_target p = ActorControlTarget (pl_HostID p) (pl_WorldID p) (pl_ActorID p)"

definition authorizeRead :: "int \<Rightarrow> service \<Rightarrow> principal \<Rightarrow> plan_state \<Rightarrow> plan_fault option" where
  "authorizeRead now sv who p =
     (if \<not> principalHasScope (client_Info who) ScopeActorRead \<and> \<not> principalHasScope (client_Info who) ScopeHostAdmin
      then Some (PlanFault (task_fault TaskForbidden))
      else case GetActor now sv who (pl_HostID p) (pl_WorldID p) (pl_ActorID p) of Inl e \<Rightarrow> Some (mapControlError e) | Inr _ \<Rightarrow> None)"

text \<open>Whether the lease of the actor's controller allows the client to work on the plan.\<close>

definition lease_fits :: "bool \<Rightarrow> principal \<Rightarrow> plan_state \<Rightarrow> controller_lease \<Rightarrow> bool" where
  "lease_fits admin who p lease \<longleftrightarrow>
     cl_ControllerID lease = pl_ControllerID p \<and> cl_Epoch lease = pl_BasedOnEpoch p
     \<and> (admin \<or> cl_PrincipalID lease = pr_ID (client_Info who))
     \<and> \<not> (pl_ControllerSource p = ControllerExternal \<and> cl_Source lease \<noteq> DecisionExternal)
     \<and> \<not> (pl_ControllerSource p = ControllerInternal \<and> cl_Source lease \<noteq> DecisionInternal)"

text \<open>\<open>GetController\<close> may drop an expired lease, so that the service is threaded through.\<close>

definition authorizeState :: "int \<Rightarrow> service \<Rightarrow> principal \<Rightarrow> plan_state \<Rightarrow> string \<Rightarrow> bool \<Rightarrow> plan_fault option \<times> service" where
  "authorizeState now sv who p scope requireController =
     (let admin = principalHasScope (client_Info who) ScopeHostAdmin in
      if \<not> admin \<and> \<not> principalHasScope (client_Info who) scope then (Some (PlanFault (task_fault TaskForbidden)), sv)
      else case GetActor now sv who (pl_HostID p) (pl_WorldID p) (pl_ActorID p) of
        Inl e \<Rightarrow> (Some (mapControlError e), sv)
      | Inr actor \<Rightarrow>
          if av_Epoch actor \<noteq> pl_BasedOnEpoch p \<or> av_ObservationSeq actor < pl_BasedOnObservationSequence p
          then (Some (PlanFault (TaskError TaskConflict ''plan observation is stale'')), sv)
          else if \<not> requireController then (None, sv)
          else case GetController now sv who (plan_target p) of
            (Inl e, sv1) \<Rightarrow> (Some (mapControlError e), sv1)
          | (Inr lease, sv1) \<Rightarrow>
              (if lease_fits admin who p lease then None else Some (PlanFault (task_fault TaskForbidden)), sv1))"

definition authorizeDraft :: "go_env \<Rightarrow> int \<Rightarrow> service \<Rightarrow> principal \<Rightarrow> plan_draft \<Rightarrow> string \<Rightarrow> plan_fault option \<times> service" where
  "authorizeDraft env now sv who d scope =
     (case NewPlan env d 0 of
        Inl e \<Rightarrow> (Some (PlanFault e), sv)
      | Inr p \<Rightarrow> authorizeState now sv who p scope True)"

subsection \<open>Calls\<close>

text \<open>Service and store after a call.\<close>

type_synonym 'a plan_call = "(plan_fault + 'a) \<times> service \<times> plan_store"

definition lift_store :: "service \<Rightarrow> 'a store_result \<Rightarrow> 'a plan_call" where
  "lift_store sv r = (map_sum PlanFault id (fst r), sv, snd r)"

definition CreatePlan :: "task_env \<Rightarrow> int \<Rightarrow> service \<Rightarrow> plan_store \<Rightarrow> principal \<Rightarrow> plan_draft \<Rightarrow> plan_state plan_call" where
  "CreatePlan tv now sv s who d =
     (case authorizeDraft (tv_go tv) now sv who d ScopeActorControl of
        (Some e, sv1) \<Rightarrow> (Inl e, sv1, s)
      | (None, sv1) \<Rightarrow> lift_store sv1 (Store_Create (tv_go tv) now s d))"

definition GetPlan :: "task_env \<Rightarrow> int \<Rightarrow> service \<Rightarrow> plan_store \<Rightarrow> principal \<Rightarrow> string \<Rightarrow> plan_fault + plan_state" where
  "GetPlan tv now sv s who i =
     (case Store_Get (tv_go tv) s i of
        Inl e \<Rightarrow> Inl (PlanFault e)
      | Inr p \<Rightarrow> guard_err (authorizeRead now sv who p) (Inr p))"

definition planStepCapabilityMissing :: "plan_state \<Rightarrow> capability_snapshot \<Rightarrow> bool" where
  "planStepCapabilityMissing p catalog \<longleftrightarrow>
     (case find (\<lambda>st. sp_StepID st = pl_CurrentStepID p) (pl_Steps p) of
        None \<Rightarrow> False
      | Some st \<Rightarrow> list_ex (\<lambda>c. c \<notin> cs_Capability ` set (sn_Specs catalog)) (sp_CapabilityHints st))"

text \<open>What the coordinator knows itself about the reason of a revision.\<close>

definition replan_gate :: "int \<Rightarrow> service \<Rightarrow> principal \<Rightarrow> plan_state \<Rightarrow> revise_input \<Rightarrow> plan_fault + replan_input" where
  "replan_gate now sv who current input =
     (let gate = \<lparr>ri_Reason = rv_Reason input, ri_ConsecutiveFailures = pl_ConsecutiveFailures current,
                  ri_ReplanCount = pl_ReplanCount current, ri_PlayerAuthorized = False, ri_HasAuthoritativeProof = False\<rparr> in
      case rv_Reason input of
        ReplanGoalChanged \<Rightarrow> Inr (gate\<lparr>ri_PlayerAuthorized := True\<rparr>)
      | ReplanManualAuthorized \<Rightarrow> Inr (gate\<lparr>ri_PlayerAuthorized := True\<rparr>)
      | ReplanFailureThresholdReached \<Rightarrow> Inr (gate\<lparr>ri_HasAuthoritativeProof := (3 \<le> pl_ConsecutiveFailures current)\<rparr>)
      | ReplanEpochInvalidated \<Rightarrow>
          (case GetActor now sv who (pl_HostID current) (pl_WorldID current) (pl_ActorID current) of
             Inl e \<Rightarrow> Inl (mapControlError e)
           | Inr actor \<Rightarrow> Inr (gate\<lparr>ri_HasAuthoritativeProof :=
               (av_Online actor \<and> av_Epoch actor = df_BasedOnEpoch (rv_Draft input) \<and> av_Epoch actor \<noteq> pl_BasedOnEpoch current)\<rparr>))
      | ReplanRequiredCapabilityMissing \<Rightarrow>
          (case ListCapabilities now sv who (plan_target current) of
             Inl e \<Rightarrow> Inl (mapControlError e)
           | Inr catalog \<Rightarrow> Inr (gate\<lparr>ri_HasAuthoritativeProof := planStepCapabilityMissing current catalog\<rparr>))
      | _ \<Rightarrow> Inl (PlanFault (TaskError TaskForbidden ''unsupported replan reason'')))"

definition RevisePlan :: "task_env \<Rightarrow> int \<Rightarrow> service \<Rightarrow> plan_store \<Rightarrow> principal \<Rightarrow> revise_input \<Rightarrow> plan_state plan_call" where
  "RevisePlan tv now sv s who input0 =
     (case Store_Get (tv_go tv) s (rv_PlanID input0) of
        Inl e \<Rightarrow> (Inl (PlanFault e), sv, s)
      | Inr current \<Rightarrow>
          let input = input0\<lparr>rv_Draft := rebased_draft current (rv_Draft input0)\<rparr> in
          (case authorizeDraft (tv_go tv) now sv who (rv_Draft input) ScopeActorControl of
             (Some e, sv1) \<Rightarrow> (Inl e, sv1, s)
           | (None, sv1) \<Rightarrow>
               (case replan_gate now sv1 who current input of
                  Inl e \<Rightarrow> (Inl e, sv1, s)
                | Inr g \<Rightarrow>
                    if \<not> ShouldReplan \<lparr>rp_FailureThreshold = 3, rp_MaxReplans = pl_MaxReplans current\<rparr> g
                    then (Inl (PlanFault (TaskError TaskConflict ''deterministic replan gate is not satisfied'')), sv1, s)
                    else lift_store sv1 (Store_Revise (tv_go tv) now s input))))"

definition SetPlanStatus :: "task_env \<Rightarrow> int \<Rightarrow> service \<Rightarrow> plan_store \<Rightarrow> principal \<Rightarrow> status_input \<Rightarrow> plan_state plan_call" where
  "SetPlanStatus tv now sv s who input =
     (case Store_Get (tv_go tv) s (sx_PlanID input) of
        Inl e \<Rightarrow> (Inl (PlanFault e), sv, s)
      | Inr p \<Rightarrow>
          (case authorizeState now sv who p ScopeActorControl True of
             (Some e, sv1) \<Rightarrow> (Inl e, sv1, s)
           | (None, sv1) \<Rightarrow> lift_store sv1 (Store_SetStatus (tv_go tv) now s input)))"

record owned_cancellation =
  oc_PlanID :: string
  oc_TaskID :: string
  oc_SessionID :: string
  oc_HostID :: string
  oc_WorldID :: string
  oc_ActorID :: string
  oc_ControllerID :: string
  oc_Summary :: string

definition CancelOwnedPlan :: "task_env \<Rightarrow> int \<Rightarrow> plan_store \<Rightarrow> owned_cancellation \<Rightarrow> (plan_fault + plan_state) \<times> plan_store" where
  "CancelOwnedPlan tv now s input =
     (case Store_Get (tv_go tv) s (oc_PlanID input) of
        Inl e \<Rightarrow> (Inl (PlanFault e), s)
      | Inr p \<Rightarrow>
          if pl_ControllerSource p \<noteq> ControllerInternal \<or> pl_TaskID p \<noteq> oc_TaskID input \<or> pl_SessionID p \<noteq> oc_SessionID input
             \<or> pl_HostID p \<noteq> oc_HostID input \<or> pl_WorldID p \<noteq> oc_WorldID input \<or> pl_ActorID p \<noteq> oc_ActorID input
             \<or> pl_ControllerID p \<noteq> oc_ControllerID input
          then (Inl (PlanFault (TaskError TaskForbidden ''runtime does not own plan'')), s)
          else if terminalPlanStatus (pl_Status p) then (Inr p, s)
          else let r = Store_SetStatus (tv_go tv) now s
                 \<lparr>sx_PlanID = pl_PlanID p, sx_ExpectedRevision = pl_Revision p, sx_Status = PlanCancelled, sx_Summary = oc_Summary input\<rparr>
               in (map_sum PlanFault id (fst r), snd r))"

definition currentPlanCondition :: "plan_state \<Rightarrow> string \<Rightarrow> plan_condition option" where
  "currentPlanCondition p i =
     find (\<lambda>c. cn_ConditionID c = i)
       ((case currentStepIndex p of None \<Rightarrow> [] | Some n \<Rightarrow> sp_SuccessConditions (pl_Steps p ! n)) @ pl_SuccessConditions p)"

record transition_input =
  tn_PlanID :: string
  tn_ExpectedRevision :: u64
  tn_ConditionID :: string
  tn_Kind :: evidence_kind
  tn_EvidenceID :: string

definition confirmed_evidence :: "plan_state \<Rightarrow> operation_view \<Rightarrow> bool" where
  "confirmed_evidence p v \<longleftrightarrow>
     ov_Terminal v \<and> ov_ExecutionConfirmed v
     \<and> (case (ov_Outcome v, ov_ActionRequest v) of
          (Some oc, Some rq) \<Rightarrow> ao_Status oc = ActionSucceeded \<and> (case rq_PlanStep rq of None \<Rightarrow> False | Some st \<Rightarrow> ps_PlanID st = pl_PlanID p)
        | _ \<Rightarrow> False)"

text \<open>The evidence that the outcome of an operation gives, as the control plane reports it.\<close>

definition operation_evidence :: "task_env \<Rightarrow> int \<Rightarrow> service \<Rightarrow> principal \<Rightarrow> plan_state \<Rightarrow> transition_input \<Rightarrow> (plan_fault + plan_evidence) \<times> service" where
  "operation_evidence tv now sv who p input =
     (case GetOperation (tv_go tv) now sv who (tn_EvidenceID input) of
        (Inl e, sv1) \<Rightarrow> (Inl (mapControlError e), sv1)
      | (Inr v, sv1) \<Rightarrow>
          if \<not> confirmed_evidence p v then (Inl (PlanFault (TaskError TaskInvalid ''operation is not confirmed plan evidence'')), sv1)
          else
            (case (currentPlanCondition p (tn_ConditionID input), ov_Outcome v, ov_ActionRequest v) of
               (Some c, Some oc, Some rq) \<Rightarrow>
                 if proves (rq_Capability rq) c
                 then (Inr (outcome_evidence (ov_OperationID v @ ''.'' @ tn_ConditionID input) (tn_ConditionID input) (ov_OperationID v) oc
                        (tv_digest tv oc) (ov_UpdatedAt v)), sv1)
                 else (Inl (PlanFault (TaskError TaskInvalid ''operation capability does not prove the condition'')), sv1)
             | _ \<Rightarrow> (Inl (PlanFault (TaskError TaskInvalid ''operation capability does not prove the condition'')), sv1)))"

definition timepointMillis :: "int \<Rightarrow> timepoint \<Rightarrow> int" where
  "timepointMillis now t = (if tp_Clock t = ClockRealtime then tp_Value t else now)"

definition observation_evidence :: "task_env \<Rightarrow> int \<Rightarrow> service \<Rightarrow> principal \<Rightarrow> plan_state \<Rightarrow> transition_input \<Rightarrow> plan_fault + plan_evidence" where
  "observation_evidence tv now sv who p input =
     (case GetObservation now sv who (plan_target p) of
        Inl e \<Rightarrow> Inl (mapControlError e)
      | Inr observation \<Rightarrow>
          (case find (\<lambda>f. of_FactID f = tn_EvidenceID input) (oe_Facts observation) of
             None \<Rightarrow> Inl (PlanFault (task_fault TaskNotFound))
           | Some f \<Rightarrow>
               (case currentPlanCondition p (tn_ConditionID input) of
                  None \<Rightarrow> Inl (PlanFault (TaskError TaskInvalid ''observation fact does not prove the condition''))
                | Some c \<Rightarrow>
                    if ObservationConditionMatches (tv_compact tv) c f
                    then Inr \<lparr>pv_EvidenceID = oe_ObservationID observation @ ''.'' @ of_FactID f, pv_ConditionID = tn_ConditionID input,
                      pv_Kind = tn_Kind input, pv_OperationID = '''', pv_Epoch = oe_Epoch observation,
                      pv_ObservationSequence = oe_Sequence observation, pv_Digest = tv_fact_digest tv f,
                      pv_RecordedAt = timepointMillis now (oe_ObservedAt observation)\<rparr>
                    else Inl (PlanFault (TaskError TaskInvalid ''observation fact does not prove the condition'')))))"

definition transition_evidence :: "task_env \<Rightarrow> int \<Rightarrow> service \<Rightarrow> principal \<Rightarrow> plan_state \<Rightarrow> transition_input \<Rightarrow> (plan_fault + plan_evidence) \<times> service" where
  "transition_evidence tv now sv who p input =
     (case tn_Kind input of
        EvidenceOperationOutcome \<Rightarrow> operation_evidence tv now sv who p input
      | EvidenceObservationFact \<Rightarrow> (observation_evidence tv now sv who p input, sv)
      | _ \<Rightarrow> (Inl (PlanFault (TaskError TaskForbidden ''MCP transition accepts only Host-owned evidence'')), sv))"

definition RequestTransition :: "task_env \<Rightarrow> int \<Rightarrow> service \<Rightarrow> plan_store \<Rightarrow> principal \<Rightarrow> transition_input \<Rightarrow> plan_state plan_call" where
  "RequestTransition tv now sv s who input =
     (case Store_Get (tv_go tv) s (tn_PlanID input) of
        Inl e \<Rightarrow> (Inl (PlanFault e), sv, s)
      | Inr p \<Rightarrow>
          if pl_Revision p \<noteq> tn_ExpectedRevision input then (Inl (PlanFault (task_fault TaskConflict)), sv, s)
          else
            (case authorizeState now sv who p ScopeActorControl True of
               (Some e, sv1) \<Rightarrow> (Inl e, sv1, s)
             | (None, sv1) \<Rightarrow>
                 (case transition_evidence tv now sv1 who p input of
                    (Inl e, sv2) \<Rightarrow> (Inl e, sv2, s)
                  | (Inr v, sv2) \<Rightarrow>
                      lift_store sv2 (applyTrustedEvidence (tv_go tv) now s (pl_PlanID p) (pl_Revision p) v ''Verified plan evidence applied.''))))"

record submit_step_input =
  ss_Action :: submit_action_input
  ss_ConditionIDs :: "string list"

definition step_action_checks :: "plan_state \<Rightarrow> submit_step_input \<Rightarrow> plan_step_ref \<Rightarrow> plan_fault option" where
  "step_action_checks p input st =
     (let rq = si_Request (ss_Action input);
          link = \<lparr>lk_OperationID = '''', lk_PlanID = pl_PlanID p, lk_PlanRevision = pl_Revision p, lk_StepID = pl_CurrentStepID p,
                  lk_ConditionIDs = ss_ConditionIDs input\<rparr> in
      first_err [
        require (pl_Revision p = ps_PlanRevision st \<and> pl_CurrentStepID p = ps_StepID st \<and> pl_Status p = PlanActive
            \<and> pl_TaskID p = rq_TaskID rq \<and> pl_HostID p = si_HostID (ss_Action input) \<and> pl_WorldID p = si_WorldID (ss_Action input)
            \<and> pl_ActorID p = rq_ActorID rq \<and> pl_ControllerID p = rq_ControllerID rq) (PlanFault (task_fault TaskConflict)),
        map_option PlanFault (validateLinkConditions p link),
        loop_err (\<lambda>i seen c. require (c \<in> set (OperationConditionIDs p (rq_Capability rq)))
            (PlanFault (task_invalid ''condition_ids'' ''must match the submitted action capability''))) [] (ss_ConditionIDs input)])"

text \<open>
  \<open>SubmitStepAction\<close>: the control plane's \<open>SubmitAction\<close> with its arguments for the answer of the Host and the random bytes; \<open>None\<close>
  where it waits for another submission of the same key. The view is returned beside an error of the link.
\<close>

definition SubmitStepAction ::
  "task_env \<Rightarrow> int \<Rightarrow> service \<Rightarrow> plan_store \<Rightarrow> principal \<Rightarrow> submit_step_input \<Rightarrow> control_error + action_binding_result
     \<Rightarrow> string option \<Rightarrow> string option \<Rightarrow> string option \<Rightarrow> (operation_view \<times> task_error option) plan_call option" where
  "SubmitStepAction tv now sv s who input binding decision_random challenge_random random =
     (case rq_PlanStep (si_Request (ss_Action input)) of
        None \<Rightarrow> Some (Inl (PlanFault (task_invalid ''plan_step_ref'' ''is required'')), sv, s)
      | Some st \<Rightarrow>
          (case Store_Get (tv_go tv) s (ps_PlanID st) of
             Inl e \<Rightarrow> Some (Inl (PlanFault e), sv, s)
           | Inr p \<Rightarrow>
               (case authorizeState now sv who p ScopeActorExecute True of
                  (Some e, sv1) \<Rightarrow> Some (Inl e, sv1, s)
                | (None, sv1) \<Rightarrow>
                    (case step_action_checks p input st of
                       Some e \<Rightarrow> Some (Inl e, sv1, s)
                     | None \<Rightarrow>
                         (case SubmitAction (tv_go tv) now sv1 who (ss_Action input) binding decision_random challenge_random random of
                            None \<Rightarrow> None
                          | Some (Inl e, sv2) \<Rightarrow> Some (Inl (ControlFault e), sv2, s)
                          | Some (Inr v, sv2) \<Rightarrow>
                              (case LinkOperation (tv_go tv) s \<lparr>lk_OperationID = ov_OperationID v, lk_PlanID = pl_PlanID p,
                                   lk_PlanRevision = pl_Revision p, lk_StepID = pl_CurrentStepID p, lk_ConditionIDs = ss_ConditionIDs input\<rparr> of
                                 (Inl e, s1) \<Rightarrow> Some (Inr (v, Some e), sv2, s1)
                               | (Inr _, s1) \<Rightarrow> Some (Inr (v, None), sv2, s1)))))))"

subsection \<open>Outcomes\<close>

text \<open>
  \<open>OutcomeEvidence\<close> of \<open>src/controlplane/outcome_sink.go\<close>, which the service makes of an operation with an outcome. It is handed to
  the subscribers of outcomes; the plan store is one of them.
\<close>

record outcome_report =
  xe_TaskID :: string
  xe_OperationID :: string
  xe_HostID :: string
  xe_WorldID :: string
  xe_ActorID :: string
  xe_ControllerID :: string
  xe_Capability :: capability_ref
  xe_ExpectedEpoch :: epoch
  xe_ObservationSequence :: u64
  xe_PlanStep :: "plan_step_ref option"
  xe_Outcome :: action_outcome

definition operationOutcomeEvidence :: "operation_state \<Rightarrow> action_outcome \<Rightarrow> outcome_report option" where
  "operationOutcomeEvidence op oc =
     (case hc_ActionRequest (op_request op) of
        None \<Rightarrow> None
      | Some rq \<Rightarrow> Some \<lparr>xe_TaskID = rq_TaskID rq, xe_OperationID = hc_OperationID (op_request op), xe_HostID = hc_HostID (op_request op),
          xe_WorldID = hc_WorldID (op_request op), xe_ActorID = rq_ActorID rq, xe_ControllerID = rq_ControllerID rq,
          xe_Capability = rq_Capability rq, xe_ExpectedEpoch = rq_ExpectedEpoch rq, xe_ObservationSequence = rq_ObservationSeq rq,
          xe_PlanStep = rq_PlanStep rq, xe_Outcome = oc\<rparr>)"

definition report_link :: "plan_state \<Rightarrow> outcome_report \<Rightarrow> plan_step_ref \<Rightarrow> operation_link" where
  "report_link p e st =
     \<lparr>lk_OperationID = xe_OperationID e, lk_PlanID = ps_PlanID st, lk_PlanRevision = ps_PlanRevision st, lk_StepID = ps_StepID st,
      lk_ConditionIDs = (if pl_Revision p = ps_PlanRevision st \<and> pl_CurrentStepID p = ps_StepID st
                         then OperationConditionIDs p (xe_Capability e) else [])\<rparr>"

definition RecordOutcome :: "task_env \<Rightarrow> int \<Rightarrow> plan_store \<Rightarrow> outcome_report \<Rightarrow> task_error option \<times> plan_store" where
  "RecordOutcome tv now s e =
     (case xe_PlanStep e of
        None \<Rightarrow> (None, s)
      | Some st \<Rightarrow>
          (case Store_Get (tv_go tv) s (ps_PlanID st) of
             Inl x \<Rightarrow> (Some x, s)
           | Inr p \<Rightarrow>
               (case ReconcileOperationLink (tv_go tv) s (report_link p e st) of
                  (Inl x, s1) \<Rightarrow> (Some x, s1)
                | (Inr _, s1) \<Rightarrow>
                    let r = ApplyOperationResult (tv_go tv) (tv_digest tv) now s1
                      \<lparr>rz_OperationID = xe_OperationID e, rz_ExecutionConfirmed = True, rz_Outcome = xe_Outcome e\<rparr>
                    in (err_of (fst r), snd r))))"

text \<open>
  \<open>deliverOutcome\<close> with the plan store as the sink: the operation is looked up and written, the sink is called without the lock, and
  its success is acknowledged. A failure is tried again later, and so is an outcome whose acknowledgement was lost.
\<close>

definition deliverOutcome :: "task_env \<Rightarrow> int \<Rightarrow> service \<Rightarrow> plan_store \<Rightarrow> string \<Rightarrow> string \<Rightarrow> unit plan_call" where
  "deliverOutcome tv now sv s subscriber i =
     (case outcome_delivery_begin sv subscriber i of
        (Inl e, sv1) \<Rightarrow> (Inl (ControlFault e), sv1, s)
      | (Inr None, sv1) \<Rightarrow> (Inr (), sv1, s)
      | (Inr (Some op), sv1) \<Rightarrow>
          (case Option.bind (op_outcome op) (operationOutcomeEvidence op) of
             None \<Rightarrow> (Inl (PlanFault (TaskError TaskPlain ''pending outcome has no evidence'')), sv1, s)
           | Some ev \<Rightarrow>
               (case RecordOutcome tv now s ev of
                  (Some x, s1) \<Rightarrow> (Inl (PlanFault x), sv1, s1)
                | (None, s1) \<Rightarrow>
                    (case outcome_delivery_acknowledge sv1 subscriber i of
                       (Inl e, sv2) \<Rightarrow> (Inl (ControlFault e), sv2, s1)
                     | (Inr _, sv2) \<Rightarrow> (Inr (), sv2, s1)))))"

end
