(* ===== verification/Task_Access.thy ===== *)
theory Task_Access
  imports Task_Coordinator Task_Properties Control_Samples
begin

section \<open>Who may change a plan, and outcomes that come twice\<close>

text \<open>
  What the coordinator adds to the store of plans. The calls that change a plan are instances of one interface, the locale
  \<open>controlled_call\<close>: each is at most one method of the store, a refused call leaves the store as it was, and a call that succeeds was
  made by a principal whose live lease controls the actor of the plan. The subscriber of outcomes may be called twice with one
  outcome, because an acknowledgement can be lost; the second call changes nothing.
\<close>

subsection \<open>Authority\<close>










subsection \<open>What a method of the store changes\<close>




lemma find_snoc: "find P (xs @ [x]) = (case find P xs of Some y \<Rightarrow> Some y | None \<Rightarrow> if P x then Some x else None)"
  by (induction xs) auto









subsection \<open>The interface of the calls that change a plan\<close>










subsection \<open>Outcomes that come twice\<close>

lemma row_settled_link:
  assumes "ApplyOperationResult env digest_of now s result = (Inr a, s')" "operation_row_at s i = Some r"
  shows "\<exists>r'. operation_row_at s' i = Some r' \<and> ow_Link r' = ow_Link r"
proof -
  have event: "insertEvent q k su ev j t s1 = Inr s2 \<Longrightarrow> operation_row_at s2 i = operation_row_at s1 i" for q k su ev j t s1 s2
    by (auto simp: insertEvent_def operation_row_at_def split: if_splits)
  have row: "operation_row_at s1 i = Some r \<Longrightarrow> \<exists>r'. operation_row_at (settle_row j dg s1) i = Some r' \<and> ow_Link r' = ow_Link r" for s1 j dg
    by (simp add: operation_row_at_def settle_row_def find_map_same)
  have plans: "replacePlan x q s = Inr s1 \<Longrightarrow> operation_row_at s1 i = operation_row_at s i" for x q s1
    by (auto simp: replacePlan_def operation_row_at_def Let_def split: if_splits)
  have "s' = s \<or> (\<exists>s1 j dg q k su ev t. operation_row_at s1 i = operation_row_at s i \<and> insertEvent q k su ev j t (settle_row j dg s1) = Inr s')"
    using assms(1) plans
    by (fastforce simp: ApplyOperationResult_def Let_def transaction_Inr ebind_Inr_iff split: option.splits if_splits)
  then show ?thesis using assms(2) event row by (metis (no_types, lifting))
qed

lemma insert_link_row:
  assumes "insert_link l s = Inr (u, s')"
  shows "tb_plans s' = tb_plans s" "\<exists>r. operation_row_at s' (lk_OperationID l) = Some r \<and> operationLinksCompatible (ow_Link r) l"
  using assms by (auto simp: insert_link_def operation_row_at_def find_snoc operationLinksCompatible_def split: option.splits if_splits)

lemma validate_bare_link:
  "validateOperationLink l = None \<Longrightarrow> validateOperationLink (l\<lparr>lk_ConditionIDs := []\<rparr>) = None"
  by (auto simp: validateOperationLink_def split: option.splits)

lemma Reconcile_again:
  assumes "validateOperationLink l = None" "\<not> tb_closed s" "loadPlan env s (lk_PlanID l) = Inr p" "lk_PlanRevision l \<le> pl_Revision p"
    and "operation_row_at s (lk_OperationID l) = Some r" "operationLinksCompatible (ow_Link r) (l\<lparr>lk_ConditionIDs := sort (lk_ConditionIDs l)\<rparr>)"
  shows "ReconcileOperationLink env s l = (Inr (), s)"
  using assms by (simp add: ReconcileOperationLink_def transaction_def insert_link_def Let_def)

lemma stored_valid: "store_ok env s \<Longrightarrow> plan_at s i = Some p \<Longrightarrow> loadPlan env s i = Inr p"
  using plan_at_in by (auto simp: loadPlan_Inr store_ok_def plans_ok_def accepted_def)

lemma kept_plan:
  assumes "store_ok env s" "store_ok env s'" "rows_kept s s'" "plan_at s i = Some p"
  shows "\<exists>q. plan_at s' i = Some q \<and> moves p q"
proof -
  obtain q where q: "q \<in> set (tb_plans s')" "moves p q" using assms(3) plan_at_in [OF assms(4)] by (auto simp: rows_kept_def)
  moreover have "pl_PlanID q = i" using moves_ids(1) [OF q(2)] plan_at_id [OF assms(4)] by simp
  moreover have "distinct (map pl_PlanID (tb_plans s'))" using assms(2) by (simp add: store_ok_def plans_ok_def)
  ultimately show ?thesis using plan_at_unique [of s' i] by (cases "plan_at s' i") (auto simp: plan_at_def find_None_iff)
qed

lemma RecordOutcome_again:
  assumes "store_ok (tv_go tv) s" "RecordOutcome tv now s e = (None, s1)"
  shows "RecordOutcome tv now' s1 e = (None, s1)"
proof (cases "xe_PlanStep e")
  case None
  then show ?thesis using assms(2) by (simp add: RecordOutcome_def)
next
  case (Some st)
  let ?env = "tv_go tv" and ?result = "\<lparr>rz_OperationID = xe_OperationID e, rz_ExecutionConfirmed = True, rz_Outcome = xe_Outcome e\<rparr>"
  obtain p s0 a where p: "Store_Get ?env s (ps_PlanID st) = Inr p"
    and link: "ReconcileOperationLink ?env s (report_link p e st) = (Inr (), s0)"
    and run: "ApplyOperationResult ?env (tv_digest tv) now s0 ?result = (Inr a, s1)"
    using assms(2) Some
    by (auto simp: RecordOutcome_def Let_def split: sum.splits prod.splits) (metis err_of_None_iff surjective_pairing)
  define l where "l = report_link p e st"
  have ids: "lk_OperationID l = xe_OperationID e" "lk_PlanID l = ps_PlanID st" "lk_PlanRevision l = ps_PlanRevision st"
    by (simp_all add: l_def report_link_def)
  have at: "plan_at s (ps_PlanID st) = Some p" and named: "task_validateText ''plan_id'' (ps_PlanID st) 256 True = None"
    using p by (auto simp: Store_Get_def guard_err_Inr_iff loadPlan_Inr split: if_splits)
  have valid: "validateOperationLink l = None" and old: "ps_PlanRevision st \<le> pl_Revision p"
    and ins: "insert_link (l\<lparr>lk_ConditionIDs := sort (lk_ConditionIDs l)\<rparr>) s = Inr ((), s0)"
    using link stored_valid [OF assms(1) at] ids
    by (auto simp: ReconcileOperationLink_def transaction_Inr guard_err_Inr_iff Let_def l_def [symmetric] split: option.splits)
  have s0: "store_ok ?env s0" "rows_kept s s0" using store_step_ok [OF step_ReconcileOperationLink assms(1)] link by (metis snd_conv)+
  have s1: "store_ok ?env s1" "rows_kept s0 s1" using store_step_ok [OF step_ApplyOperationResult s0(1)] run by (metis snd_conv)+
  obtain r0 where "operation_row_at s0 (xe_OperationID e) = Some r0"
    and compat: "operationLinksCompatible (ow_Link r0) (l\<lparr>lk_ConditionIDs := sort (lk_ConditionIDs l)\<rparr>)"
    using insert_link_row(2) [OF ins] ids by auto
  then obtain r where r: "operation_row_at s1 (xe_OperationID e) = Some r" "ow_Link r = ow_Link r0" using row_settled_link [OF run] by blast
  note settles = ApplyOperationResult_settles [OF run]
  then have final: "ow_Terminal r" "ow_OutcomeDigest r = tv_digest tv (xe_Outcome e)" "\<not> tb_closed s1" "result_valid ?result" using r by auto
  obtain q where q: "plan_at s1 (ps_PlanID st) = Some q" "moves p q"
    using kept_plan [OF assms(1) s0 at] kept_plan [OF s0(1) s1] moves_trans by blast
  have again: "report_link q e st = l \<or> report_link q e st = l\<lparr>lk_ConditionIDs := []\<rparr>"
    using q(2) old by (auto simp: moves_def l_def report_link_def)
  have "operationLinksCompatible (ow_Link r) ((report_link q e st)\<lparr>lk_ConditionIDs := sort (lk_ConditionIDs (report_link q e st))\<rparr>)"
    using again compat r(2) by (elim disjE) (simp_all add: operationLinksCompatible_def)
  moreover have "validateOperationLink (report_link q e st) = None" using again valid validate_bare_link [OF valid] by (elim disjE) simp_all
  moreover have "ps_PlanRevision st \<le> pl_Revision q" using moves_revision [OF q(2)] old by (rule order_trans [rotated])
  ultimately have "ReconcileOperationLink ?env s1 (report_link q e st) = (Inr (), s1)"
    using final(3) stored_valid [OF s1(1) q(1)] r(1) by (intro Reconcile_again) (simp_all add: report_link_def)
  moreover obtain p' where "ApplyOperationResult ?env (tv_digest tv) now' s1 ?result = (Inr (p', False), s1)"
    using ApplyOperationResult_again [OF s1(1) final(3, 4), of r "tv_digest tv" now'] r final(1, 2) by auto
  moreover have "Store_Get ?env s1 (ps_PlanID st) = Inr q" using named final(3) stored_valid [OF s1(1) q(1)] by (simp add: Store_Get_def)
  ultimately show ?thesis using Some by (simp add: RecordOutcome_def Let_def err_of_def)
qed

subsection \<open>Properties\<close>

definition task_env_1 :: task_env where
  "task_env_1 = \<lparr>tv_go = sample_env, tv_digest = outcome_digest, tv_fact_digest = (\<lambda>f. replicate 64 (CHR ''a'')), tv_compact = Some\<rparr>"





text \<open>
  C10: an outcome that is delivered twice counts once. When an outcome was delivered to the plans and the service lost the
  acknowledgement, so that it is again in the state before the delivery, then delivering it again at any later time succeeds, leaves
  the plans as they are and ends in the same service.
\<close>

theorem redelivery_is_harmless:
  assumes "reachable_store (tv_go tv) (tv_digest tv) s" "deliverOutcome tv now sv s subscriber i = (Inr (), sv1, s1)"
  shows "deliverOutcome tv now' sv s1 subscriber i = (Inr (), sv1, s1)"
  using assms(2) RecordOutcome_again [OF reachable_store_ok [OF assms(1)]]
  by (auto simp: deliverOutcome_def split: sum.splits prod.splits option.splits)

definition operation_done :: operation_state where
  "operation_done = operation_1\<lparr>
     op_request := (op_request operation_1)\<lparr>hc_OperationID := ''o'', hc_ActionRequest := Some (request_1\<lparr>rq_Capability := walk,
       rq_PlanStep := Some \<lparr>ps_PlanID = ''p'', ps_PlanRevision = 1, ps_StepID = ''x''\<rparr>\<rparr>)\<rparr>,
     op_status := OperationSucceeded, op_outcome := Some (walk_outcome ''o'' ActionSucceeded), op_outcomeDelivery := [(''plans'', False)]\<rparr>"

definition service_pending :: service where
  "service_pending = service_controlled\<lparr>sv_operations := [(''o'', operation_done)]\<rparr>"

lemma pending_delivered:
  "case deliverOutcome task_env_1 2000 service_pending store_linked ''plans'' ''o'' of
     (Inr _, _, s) \<Rightarrow> map pl_Status (tb_plans s) = [PlanCompleted] | _ \<Rightarrow> False"
  by code_simp

theorem redelivery_is_harmless_witness:
  "\<exists>sv s. deliverOutcome task_env_1 2000 service_pending store_linked ''plans'' ''o'' = (Inr (), sv, s)
     \<and> map pl_Status (tb_plans s) = [PlanCompleted]
     \<and> deliverOutcome task_env_1 9000 service_pending s ''plans'' ''o'' = (Inr (), sv, s)"
proof -
  obtain sv s where run: "deliverOutcome task_env_1 2000 service_pending store_linked ''plans'' ''o'' = (Inr (), sv, s)"
    and plan: "map pl_Status (tb_plans s) = [PlanCompleted]"
    using pending_delivered by (auto split: prod.splits sum.splits)
  have reach: "reachable_store (tv_go task_env_1) (tv_digest task_env_1) store_linked" using reached_linked by (simp add: task_env_1_def)
  show ?thesis by (intro exI conjI) (rule run plan redelivery_is_harmless [OF reach run])+
qed

text \<open>
  C38: an operation that was linked to some, but not all, of the conditions that its capability can prove never gets its outcome
  recorded while the plan stays as it is: the sink recomputes all of them, finds the link in conflict with its own, and returns an
  error without any change, at every attempt.
\<close>

theorem partly_linked_outcomes_are_refused:
  assumes "xe_PlanStep e = Some st" "plan_at s (ps_PlanID st) = Some p" "pl_Revision p = ps_PlanRevision st" "pl_CurrentStepID p = ps_StepID st"
    and "operation_row_at s (xe_OperationID e) = Some r" "lk_ConditionIDs (ow_Link r) \<noteq> []" "OperationConditionIDs p (xe_Capability e) \<noteq> []"
    and "lk_ConditionIDs (ow_Link r) \<noteq> sort (OperationConditionIDs p (xe_Capability e))"
  shows "\<exists>x. RecordOutcome tv now s e = (Some x, s)"
proof -
  let ?l = "report_link p e st"
  have l: "lk_ConditionIDs ?l = OperationConditionIDs p (xe_Capability e)" "lk_OperationID ?l = xe_OperationID e"
    using assms(3, 4) by (simp_all add: report_link_def)
  have "sort (OperationConditionIDs p (xe_Capability e)) \<noteq> []" using assms(7) by (metis length_0_conv length_sort)
  then have clash: "insert_link (?l\<lparr>lk_ConditionIDs := sort (lk_ConditionIDs ?l)\<rparr>) s = Inl (task_fault TaskConflict)"
    using assms(5, 6, 8) by (simp add: insert_link_def operationLinksCompatible_def l)
  have "\<exists>x. ReconcileOperationLink (tv_go tv) s ?l = (Inl x, s)"
    using clash
    by (auto simp: ReconcileOperationLink_def transaction_def ebind_def guard_err_def Let_def split: option.splits sum.splits)
  moreover have "Store_Get (tv_go tv) s (ps_PlanID st) = Inr q \<Longrightarrow> q = p" for q
    using assms(2) by (auto simp: Store_Get_def guard_err_Inr_iff loadPlan_Inr split: if_splits)
  ultimately show ?thesis using assms(1) by (fastforce simp: RecordOutcome_def split: sum.split)
qed

definition store_partly :: plan_store where
  "store_partly = snd (LinkOperation sample_env (store_planned [''a'', ''b'']) (walk_link 1 [''a'']))"

definition report_1 :: outcome_report where
  "report_1 = the (operationOutcomeEvidence operation_done (walk_outcome ''o'' ActionSucceeded))"

lemma partly_linked:
  "case (plan_at store_partly ''p'', operation_row_at store_partly ''o'') of
     (Some p, Some r) \<Rightarrow> pl_Revision p = 1 \<and> pl_CurrentStepID p = ''x'' \<and> lk_ConditionIDs (ow_Link r) = [''a'']
       \<and> OperationConditionIDs p (xe_Capability report_1) = [''a'', ''b'']
   | _ \<Rightarrow> False"
  by code_simp

theorem partly_linked_outcomes_are_refused_witness:
  "reached_store store_partly \<and> (\<exists>x. RecordOutcome task_env_1 2000 store_partly report_1 = (Some x, store_partly))"
proof -
  have reach: "reached_store store_partly"
    unfolding store_partly_def by (rule reachable_store.continued [OF reached_planned step_LinkOperation])
  obtain p r where facts: "plan_at store_partly ''p'' = Some p" "operation_row_at store_partly ''o'' = Some r" "pl_Revision p = 1"
      "pl_CurrentStepID p = ''x''" "lk_ConditionIDs (ow_Link r) = [''a'']" "OperationConditionIDs p (xe_Capability report_1) = [''a'', ''b'']"
    using partly_linked by (auto split: option.splits)
  have report: "xe_PlanStep report_1 = Some \<lparr>ps_PlanID = ''p'', ps_PlanRevision = 1, ps_StepID = ''x''\<rparr>" "xe_OperationID report_1 = ''o''"
    by code_simp+
  have "length (sort [''a'', ''b'']) = 2" "length [''a''] = 1" by simp_all
  then have other: "lk_ConditionIDs (ow_Link r) \<noteq> sort (OperationConditionIDs p (xe_Capability report_1))"
    unfolding facts(5, 6) by (metis numeral_eq_one_iff semiring_norm(85))
  show ?thesis
    by (rule conjI [OF reach], rule partly_linked_outcomes_are_refused [OF report(1) _ _ _ _ _ _ other])
      (simp_all only: facts report plan_step_ref.select_convs list.distinct not_False_eq_True)
qed

end
