(* ===== verification/Signal_Box.thy ===== *)
theory Signal_Box
  imports Host_Validate Go_Text
begin

section \<open>The inbox of signals\<close>

text \<open>
  The package \<open>src/signalbox\<close>: \<open>signal.go\<close>, \<open>store.go\<close>, \<open>delivery.go\<close> and what \<open>sqlite.go\<close> writes and checks. A Host tells an
  actor's controllers that something happened; the store keeps a bounded inbox for each actor, refuses duplicates and signals of a
  kind that was seen too recently, and follows the attempts to hand a signal to a task. Every method holds the lock of the store
  and is a function of its state; \<open>now\<close> is the reading of the clock in that call. The database is a table with one row for each
  inbox and the global sequence number; a row decodes to the inbox it was made from, and \<open>size_of\<close> gives the length of its JSON
  text. Failures of the disk are left out. A check that ranges over a map literal is made in the order it is written.
\<close>

subsection \<open>Data\<close>

datatype signal_error_kind = SignalInvalid | SignalNotFound | SignalForbidden | SignalClosed | SignalPersistence

datatype signal_error = SignalError (se_kind: signal_error_kind) (se_text: string)

definition SignalSchemaVersion :: string where "SignalSchemaVersion = ''rin.signal/v1''"

record delivery_state =
  dv_Status :: string
  dv_Reason :: string
  dv_TaskID :: string
  dv_Attempts :: u32
  dv_RetryAt :: int

record signal =
  sg_Delivery :: delivery_state
  sg_SchemaVersion :: string
  sg_SignalID :: string
  sg_HostID :: string
  sg_WorldID :: string
  sg_ActorID :: string
  sg_Kind :: string
  sg_Summary :: string
  sg_Epoch :: epoch
  sg_ObservationSequence :: u64
  sg_ExpiresAt :: int
  sg_ReceivedAt :: int
  sg_Cursor :: u64
  sg_globalSequence :: u64

record signal_settings =
  ss_Enabled :: bool
  ss_CooldownMillis :: u32
  ss_MaxPending :: u32

datatype signal_target = SignalTarget (sr_HostID: string) (sr_WorldID: string) (sr_ActorID: string)

record publish_result =
  pb_Accepted :: bool
  pb_Reason :: string
  pb_Cursor :: u64

record signal_list_input =
  sl_Target :: signal_target
  sl_AfterCursor :: u64
  sl_Limit :: u32

record signal_page =
  sy_Signals :: "signal list"
  sy_NextCursor :: u64
  sy_More :: bool

datatype actor_key = ActorKey (ak_hostID: string) (ak_worldID: string) (ak_actorID: string)

record inbox =
  ib_settings :: signal_settings
  ib_signals :: "signal list"
  ib_nextCursor :: u64
  ib_lastKindMillis :: "(string, int) gomap"

record signal_rows =
  sw_rows :: "(actor_key, inbox) gomap"
  sw_sequence :: u64
  sw_bytes :: "(actor_key, nat) gomap"
  sw_total :: int

text \<open>\<open>sb_generation\<close> changes whenever the channel of waiting readers is closed and replaced.\<close>

record signal_store =
  sb_defaultSettings :: signal_settings
  sb_maxActors :: u32
  sb_inboxes :: "(actor_key, inbox) gomap"
  sb_globalSequence :: u64
  sb_generation :: nat
  sb_closed :: bool
  sb_blocked :: "signal_error option"
  sb_durable :: "signal_rows option"

type_synonym 'a signal_outcome = "(signal_error + 'a) \<times> signal_store"

subsection \<open>Validation\<close>

definition signal_invalid :: "string \<Rightarrow> string \<Rightarrow> signal_error" where
  "signal_invalid field reason = SignalError SignalInvalid (field @ '' '' @ reason)"

definition signal_fault :: "signal_error_kind \<Rightarrow> signal_error" where
  "signal_fault k = SignalError k ''''"

definition no_delivery :: delivery_state where
  "no_delivery = \<lparr>dv_Status = '''', dv_Reason = '''', dv_TaskID = '''', dv_Attempts = 0, dv_RetryAt = 0\<rparr>"

definition DefaultSettings :: signal_settings where
  "DefaultSettings = \<lparr>ss_Enabled = False, ss_CooldownMillis = 30000, ss_MaxPending = 32\<rparr>"

definition ValidateSettings :: "signal_settings \<Rightarrow> signal_error option" where
  "ValidateSettings v =
     first_err [
       require (ss_CooldownMillis v \<le> 3600000) (signal_invalid ''cooldown_millis'' ''must not exceed 3600000''),
       require (ss_MaxPending v \<noteq> 0 \<and> ss_MaxPending v \<le> 256) (signal_invalid ''max_pending'' ''must be between 1 and 256'')]"

definition signal_validateIdentifier :: "string \<Rightarrow> string \<Rightarrow> nat \<Rightarrow> signal_error option" where
  "signal_validateIdentifier field v maximum =
     (let t = TrimSpace v in
      require (t \<noteq> [] \<and> length t \<le> maximum \<and> id_pattern t) (signal_invalid field ''has invalid syntax''))"

definition signal_validateText :: "string \<Rightarrow> string \<Rightarrow> nat \<Rightarrow> bool \<Rightarrow> signal_error option" where
  "signal_validateText field v maximum required =
     (let t = TrimSpace v in
      require (\<not> (required \<and> t = []) \<and> length t \<le> maximum \<and> NUL \<notin> set t) (signal_invalid field ''has invalid length or content''))"

definition ValidateTarget :: "signal_target \<Rightarrow> signal_error option" where
  "ValidateTarget t =
     first_err [
       signal_validateIdentifier ''host_id'' (sr_HostID t) 128,
       signal_validateIdentifier ''world_id'' (sr_WorldID t) 128,
       signal_validateIdentifier ''actor_id'' (sr_ActorID t) 128]"

definition signal_target_of :: "signal \<Rightarrow> signal_target" where
  "signal_target_of v = SignalTarget (sg_HostID v) (sg_WorldID v) (sg_ActorID v)"

definition validateSignal :: "signal \<Rightarrow> int \<Rightarrow> signal_error option" where
  "validateSignal v now =
     first_err [
       require (sg_Delivery v = no_delivery) (signal_invalid ''delivery'' ''must be assigned by Rin''),
       require (sg_SchemaVersion v = [] \<or> sg_SchemaVersion v = SignalSchemaVersion) (signal_invalid ''schema_version'' ''is unsupported''),
       ValidateTarget (signal_target_of v),
       signal_validateIdentifier ''signal_id'' (sg_SignalID v) 128,
       signal_validateIdentifier ''kind'' (sg_Kind v) 128,
       require (CHR ''.'' \<in> set (sg_Kind v)) (signal_invalid ''kind'' ''must use an adapter namespace''),
       signal_validateText ''summary'' (sg_Summary v) 1000 True,
       map_option (\<lambda>e. SignalError SignalInvalid
         (if ve_Field e = [] then ve_Message e else ve_Field e @ '': '' @ ve_Message e)) (Epoch_Validate (sg_Epoch v) ''epoch''),
       require (ep_WorldID (sg_Epoch v) = sg_WorldID v \<and> sg_ObservationSequence v \<noteq> 0)
         (signal_invalid ''observation_sequence'' ''must identify the current world observation''),
       require (now < sg_ExpiresAt v \<and> sg_ExpiresAt v \<le> now + 86400000)
         (signal_invalid ''expires_at_unix_millis'' ''must be within the next 24 hours''),
       require (sg_Cursor v = 0 \<and> sg_ReceivedAt v = 0 \<and> sg_globalSequence v = 0) (signal_invalid ''runtime fields'' ''must be assigned by Rin'')]"

definition validateList :: "signal_list_input \<Rightarrow> signal_error + signal_list_input" where
  "validateList input =
     guard_err (ValidateTarget (sl_Target input))
       (let input = (if sl_Limit input = 0 then input\<lparr>sl_Limit := 32\<rparr> else input) in
        if sl_Limit input > 100 then Inl (signal_invalid ''limit'' ''must not exceed 100'') else Inr input)"

definition validateDelivery :: "delivery_state \<Rightarrow> signal_error option" where
  "validateDelivery d =
     first_err [
       require (dv_Status d \<in> {'''', ''started'', ''attached'', ''merged'', ''dropped'', ''retry''}) (signal_fault SignalInvalid),
       require (dv_Attempts d \<le> 32 \<and> 0 \<le> dv_RetryAt d \<and> dv_RetryAt d \<le> 2 ^ 53 - 1) (signal_fault SignalInvalid),
       require (\<not> (dv_Status d = ''retry'' \<and> (dv_Attempts d = 0 \<or> dv_Attempts d \<ge> 32 \<or> dv_RetryAt d = 0))) (signal_fault SignalInvalid),
       require (\<not> (dv_Status d \<noteq> ''retry'' \<and> dv_RetryAt d \<noteq> 0)) (signal_fault SignalInvalid),
       signal_validateText ''delivery.reason'' (dv_Reason d) 128 False,
       (if dv_TaskID d = [] then None else signal_validateIdentifier ''delivery.task_id'' (dv_TaskID d) 128)]"

subsection \<open>The store\<close>

definition keyOf :: "signal_target \<Rightarrow> actor_key" where
  "keyOf t = ActorKey (sr_HostID t) (sr_WorldID t) (sr_ActorID t)"

definition NewStore :: "signal_settings \<Rightarrow> u32 \<Rightarrow> signal_error + signal_store" where
  "NewStore configured maxActors0 =
     (let settings = (if configured = \<lparr>ss_Enabled = False, ss_CooldownMillis = 0, ss_MaxPending = 0\<rparr> then DefaultSettings else configured);
          maxActors = (if maxActors0 = 0 then 4096 else maxActors0) in
      guard_err (ValidateSettings settings)
        (if maxActors > 100000 then Inl (signal_invalid ''max_actors'' ''must not exceed 100000'')
         else Inr \<lparr>sb_defaultSettings = settings, sb_maxActors = maxActors, sb_inboxes = [], sb_globalSequence = 0, sb_generation = 0,
                   sb_closed = False, sb_blocked = None, sb_durable = None\<rparr>))"

definition signal_ready :: "signal_store \<Rightarrow> signal_error option" where
  "signal_ready s = (if sb_closed s then Some (signal_fault SignalClosed) else sb_blocked s)"

definition signal_notify :: "signal_store \<Rightarrow> signal_store" where
  "signal_notify s = s\<lparr>sb_generation := Suc (sb_generation s)\<rparr>"

definition put_inbox :: "actor_key \<Rightarrow> inbox \<Rightarrow> signal_store \<Rightarrow> signal_store" where
  "put_inbox k box s = s\<lparr>sb_inboxes := AList.update k box (sb_inboxes s)\<rparr>"

definition inboxLocked :: "actor_key \<Rightarrow> bool \<Rightarrow> signal_store \<Rightarrow> signal_error + inbox \<times> signal_store" where
  "inboxLocked k create s =
     (case map_of (sb_inboxes s) k of
        Some box \<Rightarrow> Inr (box, s)
      | None \<Rightarrow>
          if \<not> create then Inl (signal_fault SignalNotFound)
          else if length (sb_inboxes s) \<ge> unat (sb_maxActors s) then Inl (signal_invalid ''actors'' ''capacity reached'')
          else let box = \<lparr>ib_settings = sb_defaultSettings s, ib_signals = [], ib_nextCursor = 0, ib_lastKindMillis = []\<rparr>
               in Inr (box, put_inbox k box s))"

definition pruneInbox :: "int \<Rightarrow> inbox \<Rightarrow> inbox" where
  "pruneInbox now box =
     box\<lparr>ib_signals := filter (\<lambda>v. now < sg_ExpiresAt v) (ib_signals box),
         ib_lastKindMillis := filter (\<lambda>(kind, at). now - at < uint (ss_CooldownMillis (ib_settings box))) (ib_lastKindMillis box)\<rparr>"

definition maxInboxBytes :: nat where "maxInboxBytes = 1048576"
definition maxSignalStoreBytes :: int where "maxSignalStoreBytes = 67108864"

text \<open>The inbox is written together with the sequence number; an inbox that is too large blocks the store.\<close>

definition persistInboxLocked :: "(inbox \<Rightarrow> nat) \<Rightarrow> actor_key \<Rightarrow> inbox \<Rightarrow> signal_store \<Rightarrow> signal_error option \<times> signal_store" where
  "persistInboxLocked size_of k box s =
     (case sb_durable s of
        None \<Rightarrow> (None, s)
      | Some du \<Rightarrow>
          let bytes = size_of box;
              old = (case map_of (sw_bytes du) k of None \<Rightarrow> 0 | Some n \<Rightarrow> n);
              total = sw_total du - int old + int bytes in
          if bytes > maxInboxBytes \<or> total > maxSignalStoreBytes
          then let e = SignalError SignalPersistence ''invalid signal'' in (Some e, signal_notify (s\<lparr>sb_blocked := Some e\<rparr>))
          else (None, s\<lparr>sb_durable := Some \<lparr>sw_rows = AList.update k box (sw_rows du), sw_sequence = sb_globalSequence s,
                  sw_bytes = AList.update k bytes (sw_bytes du), sw_total = total\<rparr>\<rparr>))"

definition drop_undelivered :: "signal \<Rightarrow> signal" where
  "drop_undelivered v =
     (if dv_Status (sg_Delivery v) = [] \<or> dv_Status (sg_Delivery v) = ''retry''
      then v\<lparr>sg_Delivery := (sg_Delivery v)\<lparr>dv_Status := ''dropped'', dv_Reason := ''inbox-disabled'', dv_RetryAt := 0\<rparr>\<rparr>
      else v)"

definition newest :: "nat \<Rightarrow> 'a list \<Rightarrow> 'a list" where
  "newest n xs = drop (length xs - n) xs"

definition never_written :: "actor_key \<Rightarrow> signal_store \<Rightarrow> bool" where
  "never_written k s =
     (case sb_durable s of None \<Rightarrow> False | Some du \<Rightarrow> (case map_of (sw_bytes du) k of None \<Rightarrow> True | Some n \<Rightarrow> n = 0))"

definition configured_inbox :: "int \<Rightarrow> signal_settings \<Rightarrow> inbox \<Rightarrow> inbox" where
  "configured_inbox now settings box =
     (let box1 = box\<lparr>ib_settings := settings,
                    ib_signals := (if ss_Enabled settings then ib_signals box else map drop_undelivered (ib_signals box))\<rparr>;
          box2 = pruneInbox now box1
      in box2\<lparr>ib_signals := newest (unat (ss_MaxPending settings)) (ib_signals box2)\<rparr>)"

definition Signals_Configure ::
  "(inbox \<Rightarrow> nat) \<Rightarrow> int \<Rightarrow> signal_store \<Rightarrow> signal_target \<Rightarrow> signal_settings \<Rightarrow> signal_settings signal_outcome" where
  "Signals_Configure size_of now s t settings =
     (case first_err [ValidateTarget t, ValidateSettings settings, signal_ready s] of
        Some e \<Rightarrow> (Inl e, s)
      | None \<Rightarrow>
          (case inboxLocked (keyOf t) True s of
             Inl e \<Rightarrow> (Inl e, s)
           | Inr (box, s1) \<Rightarrow>
               let unchanged = (ib_settings box = settings);
                   box' = configured_inbox now settings box;
                   s2 = put_inbox (keyOf t) box' s1 in
               (case (if \<not> unchanged \<or> never_written (keyOf t) s2 then persistInboxLocked size_of (keyOf t) box' s2 else (None, s2)) of
                  (Some e, s3) \<Rightarrow> (Inl e, s3)
                | (None, s3) \<Rightarrow> (Inr settings, if unchanged then s3 else signal_notify s3))))"

definition Signals_Settings :: "signal_store \<Rightarrow> signal_target \<Rightarrow> signal_error + signal_settings" where
  "Signals_Settings s t =
     guard_err (first_err [ValidateTarget t, signal_ready s])
       (Inr (case map_of (sb_inboxes s) (keyOf t) of Some box \<Rightarrow> ib_settings box | None \<Rightarrow> sb_defaultSettings s))"

definition refuse_signal :: "string \<Rightarrow> u64 \<Rightarrow> publish_result" where
  "refuse_signal reason cursor = \<lparr>pb_Accepted = False, pb_Reason = reason, pb_Cursor = cursor\<rparr>"

text \<open>Why a pruned inbox does not take a signal.\<close>

definition refusal :: "int \<Rightarrow> inbox \<Rightarrow> signal \<Rightarrow> publish_result option" where
  "refusal now box v =
     (if \<not> ss_Enabled (ib_settings box) then Some (refuse_signal ''disabled'' 0)
      else case find (\<lambda>x. sg_SignalID x = sg_SignalID v) (ib_signals box) of
        Some x \<Rightarrow> Some (refuse_signal ''duplicate'' (sg_Cursor x))
      | None \<Rightarrow>
          let last = (case map_of (ib_lastKindMillis box) (sg_Kind v) of None \<Rightarrow> 0 | Some at \<Rightarrow> at) in
          if last \<noteq> 0 \<and> now - last < uint (ss_CooldownMillis (ib_settings box)) then Some (refuse_signal ''cooldown'' 0)
          else if length (ib_signals box) \<ge> unat (ss_MaxPending (ib_settings box)) then Some (refuse_signal ''capacity'' 0)
          else if map_of (ib_lastKindMillis box) (sg_Kind v) = None \<and> length (ib_lastKindMillis box) \<ge> 1024
          then Some (refuse_signal ''capacity'' 0)
          else None)"

definition accept_signal :: "int \<Rightarrow> u64 \<Rightarrow> signal \<Rightarrow> inbox \<Rightarrow> inbox" where
  "accept_signal now sequence v box =
     (let cursor = ib_nextCursor box + 1 in
      box\<lparr>ib_nextCursor := cursor,
          ib_signals := ib_signals box @ [v\<lparr>sg_SchemaVersion := SignalSchemaVersion, sg_Summary := TrimSpace (sg_Summary v),
            sg_ReceivedAt := now, sg_Cursor := cursor, sg_globalSequence := sequence\<rparr>],
          ib_lastKindMillis := AList.update (sg_Kind v) now (ib_lastKindMillis box)\<rparr>)"

definition Signals_Publish :: "(inbox \<Rightarrow> nat) \<Rightarrow> int \<Rightarrow> signal_store \<Rightarrow> signal \<Rightarrow> publish_result signal_outcome" where
  "Signals_Publish size_of now s v =
     (case first_err [validateSignal v now, signal_ready s] of
        Some e \<Rightarrow> (Inl e, s)
      | None \<Rightarrow>
          let k = keyOf (signal_target_of v) in
          (case inboxLocked k True s of
             Inl e \<Rightarrow> (Inl e, s)
           | Inr (box0, s0) \<Rightarrow>
               let box = pruneInbox now box0; s1 = put_inbox k box s0 in
               (case refusal now box v of
                  Some r \<Rightarrow> (Inr r, s1)
                | None \<Rightarrow>
                    if unat (ib_nextCursor box) \<ge> 2 ^ 53 - 1 \<or> unat (sb_globalSequence s1) \<ge> 2 ^ 53 - 1
                    then (Inl (signal_fault SignalInvalid), s1)
                    else
                      let sequence = sb_globalSequence s1 + 1;
                          box' = accept_signal now sequence v box;
                          s2 = put_inbox k box' (s1\<lparr>sb_globalSequence := sequence\<rparr>) in
                      (case persistInboxLocked size_of k box' s2 of
                         (Some e, s3) \<Rightarrow> (Inl e, s3)
                       | (None, s3) \<Rightarrow> (Inr \<lparr>pb_Accepted = True, pb_Reason = '''', pb_Cursor = ib_nextCursor box'\<rparr>, signal_notify s3)))))"

subsection \<open>Readers\<close>

definition cloneSignals :: "signal list \<Rightarrow> signal list" where
  "cloneSignals vs = map (\<lambda>v. v\<lparr>sg_globalSequence := 0\<rparr>) vs"

definition pageLocked :: "inbox \<Rightarrow> u64 \<Rightarrow> u32 \<Rightarrow> signal_page" where
  "pageLocked box after limit =
     (let later = filter (\<lambda>v. after < sg_Cursor v) (ib_signals box);
          items = take (unat limit) later
      in \<lparr>sy_Signals = cloneSignals items, sy_NextCursor = (if items = [] then after else sg_Cursor (last items)),
          sy_More = (unat limit < length later)\<rparr>)"

definition Signals_List :: "int \<Rightarrow> signal_store \<Rightarrow> signal_list_input \<Rightarrow> signal_page signal_outcome" where
  "Signals_List now s input0 =
     (case validateList input0 of
        Inl e \<Rightarrow> (Inl e, s)
      | Inr input \<Rightarrow>
          (case signal_ready s of
             Some e \<Rightarrow> (Inl e, s)
           | None \<Rightarrow>
               (case map_of (sb_inboxes s) (keyOf (sl_Target input)) of
                  None \<Rightarrow>
                    if sl_AfterCursor input \<noteq> 0 then (Inl (signal_fault SignalInvalid), s)
                    else (Inr \<lparr>sy_Signals = [], sy_NextCursor = 0, sy_More = False\<rparr>, s)
                | Some box0 \<Rightarrow>
                    let box = pruneInbox now box0; s1 = put_inbox (keyOf (sl_Target input)) box s in
                    if ib_nextCursor box < sl_AfterCursor input then (Inl (signal_fault SignalInvalid), s1)
                    else (Inr (pageLocked box (sl_AfterCursor input) (sl_Limit input)), s1))))"

definition boundedLimit :: "u32 \<Rightarrow> u32" where
  "boundedLimit v = (if v = 0 then 32 else v)"

text \<open>One pass of the loop of \<open>Wait\<close>: \<open>None\<close> where it goes on waiting; \<open>expired\<close> says that its timer has fired.\<close>

definition signals_wait_pass ::
  "int \<Rightarrow> signal_store \<Rightarrow> signal_list_input \<Rightarrow> u32 \<Rightarrow> bool \<Rightarrow> (signal_error + bool \<times> signal_page) option \<times> signal_store" where
  "signals_wait_pass now s input waitMillis expired =
     (if waitMillis > 25000 then (Some (Inl (signal_invalid ''wait_millis'' ''must not exceed 25000'')), s)
      else case Signals_List now s (input\<lparr>sl_Limit := boundedLimit (sl_Limit input)\<rparr>) of
        (Inl e, s1) \<Rightarrow> (Some (Inl e), s1)
      | (Inr page, s1) \<Rightarrow>
          let changed = (sy_Signals page \<noteq> []) in
          (if changed \<or> waitMillis = 0 \<or> expired then Some (Inr (changed, page)) else None, s1))"

definition prune_all :: "int \<Rightarrow> signal_store \<Rightarrow> signal_store" where
  "prune_all now s = s\<lparr>sb_inboxes := map (\<lambda>(k, box). (k, pruneInbox now box)) (sb_inboxes s)\<rparr>"

definition all_signals :: "signal_store \<Rightarrow> signal list" where
  "all_signals s = concat (map (\<lambda>(k, box). ib_signals box) (sb_inboxes s))"

definition signals_wait_any_pass ::
  "int \<Rightarrow> signal_store \<Rightarrow> u64 \<Rightarrow> bool \<Rightarrow> bool \<Rightarrow> (signal_error + signal list \<times> u64) option \<times> signal_store" where
  "signals_wait_any_pass now s after no_wait expired =
     (case first_err [signal_ready s, require (after \<le> sb_globalSequence s) (signal_fault SignalInvalid)] of
        Some e \<Rightarrow> (Some (Inl e), s)
      | None \<Rightarrow>
          let s1 = prune_all now s;
              items = sort_key sg_globalSequence (filter (\<lambda>v. after < sg_globalSequence v) (all_signals s1)) in
          (if items \<noteq> [] \<or> no_wait then Some (Inr (cloneSignals items, sb_globalSequence s1))
           else if expired then Some (Inr ([], sb_globalSequence s1)) else None, s1))"

definition deliverable_at :: "int \<Rightarrow> signal \<Rightarrow> bool" where
  "deliverable_at now v \<longleftrightarrow>
     dv_Status (sg_Delivery v) = [] \<or> dv_Status (sg_Delivery v) = ''retry'' \<and> dv_RetryAt (sg_Delivery v) \<le> now"

definition signals_wait_pending_pass :: "int \<Rightarrow> signal_store \<Rightarrow> bool \<Rightarrow> (signal_error + signal list) option \<times> signal_store" where
  "signals_wait_pending_pass now s expired =
     (case signal_ready s of
        Some e \<Rightarrow> (Some (Inl e), s)
      | None \<Rightarrow>
          let s1 = prune_all now s;
              items = take 256 (sort_key sg_globalSequence (filter (deliverable_at now) (all_signals s1))) in
          (if items \<noteq> [] \<or> expired then Some (Inr (cloneSignals items)) else None, s1))"

subsection \<open>Deliveries\<close>

definition delivery_settled :: "delivery_state \<Rightarrow> bool" where
  "delivery_settled d \<longleftrightarrow> dv_Status d \<noteq> [] \<and> dv_Status d \<noteq> ''retry''"

definition next_delivery :: "int \<Rightarrow> string \<Rightarrow> string \<Rightarrow> string \<Rightarrow> delivery_state \<Rightarrow> delivery_state" where
  "next_delivery now status reason taskID d =
     (let attempts = dv_Attempts d + 1;
          state = \<lparr>dv_Status = status, dv_Reason = reason, dv_TaskID = taskID, dv_Attempts = attempts, dv_RetryAt = 0\<rparr> in
      if status = ''retry'' then
        (if attempts \<ge> 32 then state\<lparr>dv_Status := ''dropped'', dv_Reason := ''retry-limit''\<rparr>
         else state\<lparr>dv_RetryAt := now + 1000 * 2 ^ unat (min (attempts - 1) 3)\<rparr>)
      else state)"

definition replace_first :: "('a \<Rightarrow> bool) \<Rightarrow> ('a \<Rightarrow> 'a) \<Rightarrow> 'a list \<Rightarrow> 'a list" where
  "replace_first P f xs = (case dropWhile (\<lambda>x. \<not> P x) xs of [] \<Rightarrow> xs | y # ys \<Rightarrow> takeWhile (\<lambda>x. \<not> P x) xs @ f y # ys)"

definition RecordDelivery ::
  "(inbox \<Rightarrow> nat) \<Rightarrow> int \<Rightarrow> signal_store \<Rightarrow> signal \<Rightarrow> string \<Rightarrow> string \<Rightarrow> string \<Rightarrow> signal_error option \<times> signal_store" where
  "RecordDelivery size_of now s v status reason taskID =
     (case first_err [
          require (status \<in> {''started'', ''attached'', ''merged'', ''dropped'', ''retry''}) (signal_invalid ''delivery.status'' ''is invalid''),
          signal_validateText ''delivery.reason'' reason 128 False,
          (if taskID = [] then None else signal_validateIdentifier ''delivery.task_id'' taskID 128),
          signal_ready s] of
        Some e \<Rightarrow> (Some e, s)
      | None \<Rightarrow>
          let k = keyOf (signal_target_of v); hit = (\<lambda>x. sg_SignalID x = sg_SignalID v \<and> sg_Cursor x = sg_Cursor v) in
          (case map_of (sb_inboxes s) k of
             None \<Rightarrow> (Some (signal_fault SignalNotFound), s)
           | Some box \<Rightarrow>
               (case find hit (ib_signals box) of
                  None \<Rightarrow> (Some (signal_fault SignalNotFound), s)
                | Some x \<Rightarrow>
                    if delivery_settled (sg_Delivery x) then
                      (if dv_Status (sg_Delivery x) = status \<and> dv_Reason (sg_Delivery x) = reason \<and> dv_TaskID (sg_Delivery x) = taskID
                       then (None, s) else (Some (signal_fault SignalInvalid), s))
                    else
                      let box' = box\<lparr>ib_signals := replace_first hit
                            (\<lambda>x. x\<lparr>sg_Delivery := next_delivery now status reason taskID (sg_Delivery x)\<rparr>) (ib_signals box)\<rparr> in
                      (case persistInboxLocked size_of k box' (put_inbox k box' s) of
                         (Some e, s1) \<Rightarrow> (Some e, s1)
                       | (None, s1) \<Rightarrow> (None, signal_notify s1)))))"

definition Signals_Close :: "signal_store \<Rightarrow> signal_store" where
  "Signals_Close s = (if sb_closed s then s else signal_notify (s\<lparr>sb_closed := True\<rparr>))"

subsection \<open>Restart\<close>

definition restored_signal_check :: "actor_key \<Rightarrow> u64 \<Rightarrow> u64 \<Rightarrow> u64 list \<Rightarrow> nat \<Rightarrow> signal list \<Rightarrow> signal \<Rightarrow> signal_error option" where
  "restored_signal_check k nextCursor globalSequence sequences index seen v =
     first_err [
       require (keyOf (signal_target_of v) = k \<and> (if seen = [] then 0 else sg_Cursor (last seen)) < sg_Cursor v \<and> sg_Cursor v \<le> nextCursor
           \<and> sg_globalSequence v \<noteq> 0 \<and> sg_globalSequence v \<le> globalSequence \<and> sg_globalSequence v \<notin> set sequences \<union> sg_globalSequence ` set seen
           \<and> sg_SignalID v \<notin> sg_SignalID ` set seen) (signal_fault SignalInvalid),
       require (0 \<le> sg_ReceivedAt v \<and> sg_ReceivedAt v \<le> 2 ^ 53 - 1) (signal_fault SignalInvalid),
       validateSignal (v\<lparr>sg_Delivery := no_delivery, sg_Cursor := 0, sg_ReceivedAt := 0, sg_globalSequence := 0\<rparr>) (sg_ReceivedAt v),
       validateDelivery (sg_Delivery v)]"

definition restored_row_check :: "(inbox \<Rightarrow> nat) \<Rightarrow> actor_key \<Rightarrow> u64 \<Rightarrow> u64 list \<Rightarrow> inbox \<Rightarrow> signal_error option" where
  "restored_row_check size_of k globalSequence sequences saved =
     first_err [
       ValidateTarget (SignalTarget (ak_hostID k) (ak_worldID k) (ak_actorID k)),
       require (size_of saved \<le> maxInboxBytes) (SignalError SignalPersistence ''invalid JSON''),
       ValidateSettings (ib_settings saved),
       require (length (ib_signals saved) \<le> unat (ss_MaxPending (ib_settings saved)) \<and> unat (ib_nextCursor saved) \<le> 2 ^ 53 - 1
           \<and> length (ib_lastKindMillis saved) \<le> 1024) (signal_fault SignalInvalid),
       require (\<forall>(kind, at) \<in> set (ib_lastKindMillis saved). signal_validateIdentifier ''kind'' kind 128 = None \<and> 0 \<le> at \<and> at \<le> 2 ^ 53 - 1)
         (signal_fault SignalInvalid),
       loop_err (restored_signal_check k (ib_nextCursor saved) globalSequence sequences) [] (ib_signals saved)]"

fun restore_rows ::
  "(inbox \<Rightarrow> nat) \<Rightarrow> int \<Rightarrow> u64 \<Rightarrow> u64 list \<Rightarrow> (actor_key, inbox) gomap \<Rightarrow> signal_error + (actor_key, inbox) gomap" where
  "restore_rows size_of now globalSequence sequences [] = Inr []"
| "restore_rows size_of now globalSequence sequences ((k, saved) # rows) =
     guard_err (restored_row_check size_of k globalSequence sequences saved)
       (ebind (restore_rows size_of now globalSequence (sequences @ map sg_globalSequence (ib_signals saved)) rows) (\<lambda>boxes.
          Inr ((k, pruneInbox now saved) # boxes)))"

definition restoreSQLite :: "(inbox \<Rightarrow> nat) \<Rightarrow> int \<Rightarrow> signal_store \<Rightarrow> signal_rows \<Rightarrow> signal_error + signal_store" where
  "restoreSQLite size_of now s du =
     (let total = sum_list (map (\<lambda>(k, box). int (size_of box)) (sw_rows du)) in
      if unat (sw_sequence du) > 2 ^ 53 - 1 then Inl (signal_fault SignalInvalid)
      else if length (sw_rows du) > unat (sb_maxActors s) \<or> total > maxSignalStoreBytes then Inl (signal_fault SignalInvalid)
      else ebind (restore_rows size_of now (sw_sequence du) [] (sw_rows du)) (\<lambda>boxes.
        Inr (s\<lparr>sb_inboxes := boxes, sb_globalSequence := sw_sequence du,
               sb_durable := Some \<lparr>sw_rows = sw_rows du, sw_sequence = sw_sequence du,
                 sw_bytes = map (\<lambda>(k, box). (k, size_of box)) (sw_rows du), sw_total = total\<rparr>\<rparr>)))"

definition OpenSignalStore :: "(inbox \<Rightarrow> nat) \<Rightarrow> int \<Rightarrow> signal_settings \<Rightarrow> u32 \<Rightarrow> signal_rows \<Rightarrow> signal_error + signal_store" where
  "OpenSignalStore size_of now configured maxActors du =
     ebind (NewStore configured maxActors) (\<lambda>s.
       case restoreSQLite size_of now s du of Inl e \<Rightarrow> Inl (SignalError SignalPersistence (se_text e)) | Inr s' \<Rightarrow> Inr s')"

definition empty_rows :: signal_rows where
  "empty_rows = \<lparr>sw_rows = [], sw_sequence = 0, sw_bytes = [], sw_total = 0\<rparr>"

end
