(* ===== verification/Signal_Lifecycle.thy ===== *)
theory Signal_Lifecycle
  imports Signal_Box
begin

section \<open>What holds of every inbox\<close>

text \<open>
  The calls of the store as a step relation with restarts, the invariant of every store they lead to, and from it: inboxes are
  bounded and ordered, a delivery that is settled stays as it is, and a restart accepts what was written and loses nothing that
  was accepted. The changes of an inbox that take no new signal share the locale \<open>inbox_change\<close>. The clock is assumed to
  show a time after 1970 and before the year 280000.
\<close>

subsection \<open>Well-formed inboxes\<close>

definition sane_clock :: "int \<Rightarrow> bool" where
  "sane_clock now \<longleftrightarrow> 0 < now \<and> now + 8000 \<le> 2 ^ 53 - 1"

definition target_of_key :: "actor_key \<Rightarrow> signal_target" where
  "target_of_key k = SignalTarget (ak_hostID k) (ak_worldID k) (ak_actorID k)"

definition as_published :: "signal \<Rightarrow> signal" where
  "as_published v = v\<lparr>sg_Delivery := no_delivery, sg_Cursor := 0, sg_ReceivedAt := 0, sg_globalSequence := 0\<rparr>"

definition signal_ok :: "actor_key \<Rightarrow> signal \<Rightarrow> bool" where
  "signal_ok k v \<longleftrightarrow>
     keyOf (signal_target_of v) = k \<and> 0 \<le> sg_ReceivedAt v \<and> sg_ReceivedAt v \<le> 2 ^ 53 - 1
     \<and> validateSignal (as_published v) (sg_ReceivedAt v) = None \<and> validateDelivery (sg_Delivery v) = None
     \<and> (dv_Status (sg_Delivery v) = [] \<longrightarrow> dv_Attempts (sg_Delivery v) = 0)"

definition kinds_ok :: "(string, int) gomap \<Rightarrow> bool" where
  "kinds_ok m \<longleftrightarrow> map_ok m \<and> length m \<le> 1024
     \<and> (\<forall>(kind, at) \<in> set m. signal_validateIdentifier ''kind'' kind 128 = None \<and> 0 \<le> at \<and> at \<le> 2 ^ 53 - 1)"

definition before :: "signal \<Rightarrow> signal \<Rightarrow> bool" where
  "before v w \<longleftrightarrow> sg_Cursor v < sg_Cursor w \<and> sg_globalSequence v < sg_globalSequence w \<and> sg_SignalID v \<noteq> sg_SignalID w"

definition box_ok :: "actor_key \<Rightarrow> u64 \<Rightarrow> inbox \<Rightarrow> bool" where
  "box_ok k g box \<longleftrightarrow>
     ValidateSettings (ib_settings box) = None
     \<and> length (ib_signals box) \<le> unat (ss_MaxPending (ib_settings box)) \<and> unat (ib_nextCursor box) \<le> 2 ^ 53 - 1 \<and> kinds_ok (ib_lastKindMillis box)
     \<and> sorted_wrt before (ib_signals box)
     \<and> (\<forall>v \<in> set (ib_signals box). 0 < sg_Cursor v \<and> sg_Cursor v \<le> ib_nextCursor box \<and> 0 < sg_globalSequence v \<and> sg_globalSequence v \<le> g
          \<and> signal_ok k v \<and> (\<not> ss_Enabled (ib_settings box) \<longrightarrow> delivery_settled (sg_Delivery v)))"

abbreviation sequences_of :: "inbox \<Rightarrow> u64 set" where
  "sequences_of box \<equiv> sg_globalSequence ` set (ib_signals box)"

definition rows_ok :: "(inbox \<Rightarrow> nat) \<Rightarrow> signal_rows \<Rightarrow> bool" where
  "rows_ok size_of du \<longleftrightarrow>
     map_ok (sw_rows du) \<and> unat (sw_sequence du) \<le> 2 ^ 53 - 1
     \<and> (\<forall>k box. map_of (sw_rows du) k = Some box \<longrightarrow>
          ValidateTarget (target_of_key k) = None \<and> box_ok k (sw_sequence du) box \<and> size_of box \<le> maxInboxBytes)
     \<and> map_of (sw_bytes du) = (\<lambda>k. map_option size_of (map_of (sw_rows du) k))
     \<and> sw_total du = sum_list (map (\<lambda>(k, box). int (size_of box)) (sw_rows du)) \<and> sw_total du \<le> maxSignalStoreBytes"

text \<open>Every sequence number belongs to one actor, in memory and in the database.\<close>

definition owned :: "(actor_key, inbox) gomap \<Rightarrow> (u64 \<Rightarrow> actor_key) \<Rightarrow> bool" where
  "owned m owner \<longleftrightarrow> (\<forall>k box. map_of m k = Some box \<longrightarrow> (\<forall>v \<in> set (ib_signals box). owner (sg_globalSequence v) = k))"

definition durable_ok :: "(inbox \<Rightarrow> nat) \<Rightarrow> signal_store \<Rightarrow> signal_rows \<Rightarrow> bool" where
  "durable_ok size_of s du \<longleftrightarrow>
     rows_ok size_of du \<and> sw_sequence du \<le> sb_globalSequence s \<and> dom (map_of (sw_rows du)) \<subseteq> dom (map_of (sb_inboxes s))
     \<and> (sb_blocked s = None \<longrightarrow>
          (\<forall>k box. map_of (sb_inboxes s) k = Some box \<longrightarrow>
            set (ib_signals box) \<subseteq> (case map_of (sw_rows du) k of None \<Rightarrow> {} | Some row \<Rightarrow> set (ib_signals row))))"

definition signals_ok :: "(inbox \<Rightarrow> nat) \<Rightarrow> signal_store \<Rightarrow> bool" where
  "signals_ok size_of s \<longleftrightarrow>
     map_ok (sb_inboxes s) \<and> length (sb_inboxes s) \<le> unat (sb_maxActors s) \<and> unat (sb_globalSequence s) \<le> 2 ^ 53 - 1
     \<and> sb_maxActors s \<noteq> 0 \<and> sb_maxActors s \<le> 100000 \<and> ValidateSettings (sb_defaultSettings s) = None
     \<and> (\<forall>k box. map_of (sb_inboxes s) k = Some box \<longrightarrow> ValidateTarget (target_of_key k) = None \<and> box_ok k (sb_globalSequence s) box)
     \<and> (\<exists>owner. owned (sb_inboxes s) owner \<and> (\<forall>du. sb_durable s = Some du \<longrightarrow> owned (sw_rows du) owner))
     \<and> (\<forall>du. sb_durable s = Some du \<longrightarrow> durable_ok size_of s du)"

subsection \<open>Steps\<close>

inductive signal_step :: "(inbox \<Rightarrow> nat) \<Rightarrow> signal_store \<Rightarrow> signal_store \<Rightarrow> bool" for size_of where
  step_Configure: "sane_clock now \<Longrightarrow> signal_step size_of s (snd (Signals_Configure size_of now s t settings))"
| step_Publish: "sane_clock now \<Longrightarrow> signal_step size_of s (snd (Signals_Publish size_of now s v))"
| step_List: "signal_step size_of s (snd (Signals_List now s input))"
| step_wait_pass: "signal_step size_of s (snd (signals_wait_pass now s input waitMillis expired))"
| step_wait_any_pass: "signal_step size_of s (snd (signals_wait_any_pass now s after no_wait expired))"
| step_wait_pending_pass: "signal_step size_of s (snd (signals_wait_pending_pass now s expired))"
| step_RecordDelivery: "sane_clock now \<Longrightarrow> signal_step size_of s (snd (RecordDelivery size_of now s v status reason taskID))"
| step_Close: "signal_step size_of s (Signals_Close s)"

inductive reachable_signals :: "(inbox \<Rightarrow> nat) \<Rightarrow> signal_store \<Rightarrow> bool" for size_of where
  in_memory: "NewStore configured m = Inr s \<Longrightarrow> reachable_signals size_of s"
| created: "OpenSignalStore size_of now configured m empty_rows = Inr s \<Longrightarrow> reachable_signals size_of s"
| continued: "reachable_signals size_of s \<Longrightarrow> signal_step size_of s s' \<Longrightarrow> reachable_signals size_of s'"
| restarted: "reachable_signals size_of s \<Longrightarrow> sb_durable s = Some du \<Longrightarrow> OpenSignalStore size_of now configured (sb_maxActors s) du = Inr s'
    \<Longrightarrow> reachable_signals size_of s'"

subsection \<open>Changes that take no new signal\<close>

locale inbox_change =
  fixes f :: "inbox \<Rightarrow> inbox"
  assumes keeps_ok: "box_ok k g box \<Longrightarrow> box_ok k g (f box)"
    and keeps_origin: "box_ok k g box \<Longrightarrow> sequences_of (f box) \<subseteq> sequences_of box"
begin

lemma keeps_owner:
  "box_ok k g box \<Longrightarrow> \<forall>v \<in> set (ib_signals box). owner (sg_globalSequence v) = k \<Longrightarrow> \<forall>v \<in> set (ib_signals (f box)). owner (sg_globalSequence v) = k"
  using keeps_origin [of k g box] by (metis image_iff image_subset_iff)

end

lemma sorted_wrt_filter_drop:
  "sorted_wrt P xs \<Longrightarrow> sorted_wrt P (filter Q xs)" "sorted_wrt P xs \<Longrightarrow> sorted_wrt P (drop n xs)"
  by (simp_all add: sorted_wrt_filter sorted_wrt_drop)

lemma kinds_ok_filter: "kinds_ok m \<Longrightarrow> kinds_ok (filter P m)"
  by (auto simp: kinds_ok_def map_ok_filter intro: order_trans [OF length_filter_le])

lemma pruned_subset: "set (ib_signals (pruneInbox now box)) \<subseteq> set (ib_signals box)"
  by (auto simp: pruneInbox_def)

interpretation prunes: inbox_change "pruneInbox now" for now
proof
  fix k g box
  assume ok: "box_ok k g box"
  show "box_ok k g (pruneInbox now box)"
    using ok by (auto simp: box_ok_def pruneInbox_def sorted_wrt_filter kinds_ok_filter intro: order_trans [OF length_filter_le])
  show "sequences_of (pruneInbox now box) \<subseteq> sequences_of box" by (auto simp: pruneInbox_def)
qed

lemma validateText_empty [simp]: "signal_validateText field [] n False = None"
  by (simp add: signal_validateText_def TrimSpace_def)

lemma disabled_reason: "signal_validateText ''delivery.reason'' ''inbox-disabled'' 128 False = None"
  by code_simp

lemma limit_reason: "signal_validateText ''delivery.reason'' ''retry-limit'' 128 False = None"
  by code_simp

lemma drop_undelivered_ok:
  "signal_ok k v \<Longrightarrow> signal_ok k (drop_undelivered v)" "delivery_settled (sg_Delivery (drop_undelivered v))"
  "sg_Cursor (drop_undelivered v) = sg_Cursor v" "sg_globalSequence (drop_undelivered v) = sg_globalSequence v"
  "sg_SignalID (drop_undelivered v) = sg_SignalID v" "sg_ExpiresAt (drop_undelivered v) = sg_ExpiresAt v"
proof -
  let ?d = "(sg_Delivery v)\<lparr>dv_Status := ''dropped'', dv_Reason := ''inbox-disabled'', dv_RetryAt := 0\<rparr>"
  have "validateDelivery (sg_Delivery v) = None \<Longrightarrow> validateDelivery ?d = None"
    using disabled_reason by (simp add: validateDelivery_def first_err_None_iff del: first_err.simps split: if_splits)
  then show "signal_ok k v \<Longrightarrow> signal_ok k (drop_undelivered v)"
    by (simp add: drop_undelivered_def signal_ok_def as_published_def signal_target_of_def)
qed (simp_all add: drop_undelivered_def delivery_settled_def)

lemma before_drop [simp]: "before (drop_undelivered v) (drop_undelivered w) = before v w"
  by (simp add: before_def drop_undelivered_ok)

lemma newest_length: "length (newest n xs) \<le> n"
  by (simp add: newest_def)

lemma box_ok_signals:
  assumes "box_ok k g box" "sorted_wrt before vs" "length vs \<le> unat (ss_MaxPending settings)" "ValidateSettings settings = None" "kinds_ok kinds"
    and "\<And>v. v \<in> set vs \<Longrightarrow> 0 < sg_Cursor v \<and> sg_Cursor v \<le> ib_nextCursor box \<and> 0 < sg_globalSequence v \<and> sg_globalSequence v \<le> g \<and> signal_ok k v"
    and "\<And>v. v \<in> set vs \<Longrightarrow> \<not> ss_Enabled settings \<Longrightarrow> delivery_settled (sg_Delivery v)"
  shows "box_ok k g \<lparr>ib_settings = settings, ib_signals = vs, ib_nextCursor = ib_nextCursor box, ib_lastKindMillis = kinds\<rparr>"
  using assms by (simp add: box_ok_def)

lemma configures:
  assumes "ValidateSettings settings = None"
  shows "inbox_change (configured_inbox now settings)"
proof
  fix k g box
  assume ok: "box_ok k g box"
  define vs where "vs = (if ss_Enabled settings then ib_signals box else map drop_undelivered (ib_signals box))"
  define ws where "ws = newest (unat (ss_MaxPending settings)) (filter (\<lambda>v. now < sg_ExpiresAt v) vs)"
  have shape: "configured_inbox now settings box = \<lparr>ib_settings = settings, ib_signals = ws, ib_nextCursor = ib_nextCursor box,
      ib_lastKindMillis = filter (\<lambda>(kind, at). now - at < uint (ss_CooldownMillis settings)) (ib_lastKindMillis box)\<rparr>"
    by (simp add: configured_inbox_def pruneInbox_def Let_def vs_def ws_def)
  have "sorted_wrt before vs" using ok by (auto simp: vs_def box_ok_def sorted_wrt_map)
  then have sorted: "sorted_wrt before ws" by (simp add: ws_def newest_def sorted_wrt_filter_drop)
  have sub: "set ws \<subseteq> set vs" unfolding ws_def newest_def using set_drop_subset by fastforce
  have each: "0 < sg_Cursor v \<and> sg_Cursor v \<le> ib_nextCursor box \<and> 0 < sg_globalSequence v \<and> sg_globalSequence v \<le> g
      \<and> signal_ok k v \<and> (\<not> ss_Enabled settings \<longrightarrow> delivery_settled (sg_Delivery v))" if "v \<in> set vs" for v
    using that ok by (auto simp: vs_def box_ok_def drop_undelivered_ok split: if_splits)
  show "box_ok k g (configured_inbox now settings box)"
    unfolding shape
  proof (rule box_ok_signals [OF ok sorted])
    show "length ws \<le> unat (ss_MaxPending settings)" unfolding ws_def by (rule newest_length)
    show "kinds_ok (filter (\<lambda>(kind, at). now - at < uint (ss_CooldownMillis settings)) (ib_lastKindMillis box))"
      using ok by (simp add: box_ok_def kinds_ok_filter)
  qed (use assms each sub in auto)
  show "sequences_of (configured_inbox now settings box) \<subseteq> sequences_of box"
    using sub by (auto simp: shape vs_def drop_undelivered_ok split: if_splits)
qed

definition delivered_box :: "(signal \<Rightarrow> bool) \<Rightarrow> (delivery_state \<Rightarrow> delivery_state) \<Rightarrow> inbox \<Rightarrow> inbox" where
  "delivered_box hit f box =
     (case find hit (ib_signals box) of
        Some x \<Rightarrow>
          if delivery_settled (sg_Delivery x) then box
          else box\<lparr>ib_signals := replace_first hit (\<lambda>x. x\<lparr>sg_Delivery := f (sg_Delivery x)\<rparr>) (ib_signals box)\<rparr>
      | None \<Rightarrow> box)"

lemma find_split: "find P xs = Some x \<Longrightarrow> \<exists>as bs. xs = as @ x # bs \<and> (\<forall>a \<in> set as. \<not> P a) \<and> P x"
proof (induction xs)
  case (Cons a xs)
  show ?case
  proof (cases "P a")
    case True
    with Cons.prems show ?thesis by (intro exI [of _ "[]"] exI [of _ xs]) auto
  next
    case False
    with Cons obtain as bs where "xs = as @ x # bs" "\<forall>a \<in> set as. \<not> P a" "P x" by auto
    with False show ?thesis by (intro exI [of _ "a # as"] exI [of _ bs]) auto
  qed
qed simp

lemma replace_first_split:
  assumes "find P xs = Some x"
  obtains as bs where "xs = as @ x # bs" "replace_first P f xs = as @ f x # bs"
proof -
  obtain as bs where xs: "xs = as @ x # bs" "\<forall>a \<in> set as. \<not> P a" "P x" using find_split [OF assms] by blast
  then have "takeWhile (\<lambda>x. \<not> P x) xs = as" "dropWhile (\<lambda>x. \<not> P x) xs = x # bs"
    by (simp_all add: takeWhile_append dropWhile_append)
  then show thesis using that xs(1) by (simp add: replace_first_def)
qed

definition delivery_input_ok :: "string \<Rightarrow> string \<Rightarrow> string \<Rightarrow> bool" where
  "delivery_input_ok status reason taskID \<longleftrightarrow>
     status \<in> {''started'', ''attached'', ''merged'', ''dropped'', ''retry''} \<and> signal_validateText ''delivery.reason'' reason 128 False = None
     \<and> (taskID = [] \<or> signal_validateIdentifier ''delivery.task_id'' taskID 128 = None)"

lemma retry_delay: "(2 :: int) ^ unat (min (n :: u32) 3) \<le> 8"
proof -
  have "unat (min n 3) \<le> unat (3 :: u32)" by (simp add: min_def word_le_nat_alt)
  then have "(2 :: int) ^ unat (min n 3) \<le> 2 ^ 3" by (intro power_increasing) simp_all
  then show ?thesis by simp
qed

lemma word_plus_one_nonzero: "(x :: u32) < 32 \<Longrightarrow> x + 1 \<noteq> 0"
proof
  assume "x < 32" "x + 1 = 0"
  then have "x = - 1" by (simp add: add_eq_0_iff2)
  with \<open>x < 32\<close> show False by simp
qed

lemma next_delivery_ok:
  assumes "validateDelivery d = None" "\<not> delivery_settled d" "dv_Status d = [] \<longrightarrow> dv_Attempts d = 0"
    and "delivery_input_ok status reason taskID" "sane_clock now"
  shows "validateDelivery (next_delivery now status reason taskID d) = None \<and> dv_Status (next_delivery now status reason taskID d) \<noteq> []"
proof -
  have small: "dv_Attempts d < 32"
    using assms(1-3) by (auto simp: validateDelivery_def delivery_settled_def require_def split: if_splits option.splits)
  then have next_small: "dv_Attempts d + 1 \<le> 32" "dv_Attempts d + 1 \<noteq> 0" 
    by (auto simp: inc_le word_plus_one_nonzero)
  have time: "0 < now + 1000 * 2 ^ unat (min (dv_Attempts d) 3)" "now + 1000 * 2 ^ unat (min (dv_Attempts d) 3) \<le> 2 ^ 53 - 1"
    using retry_delay [of "dv_Attempts d"] assms(5) by (simp_all add: sane_clock_def add_pos_pos)
  have input: "status \<in> {''started'', ''attached'', ''merged'', ''dropped'', ''retry''}"
    "signal_validateText ''delivery.reason'' reason 128 False = None" "taskID = [] \<or> signal_validateIdentifier ''delivery.task_id'' taskID 128 = None"
    using assms(4) by (simp_all add: delivery_input_ok_def)
  show ?thesis
  proof (cases "status = ''retry''")
    case True
    then show ?thesis
      using next_small time input limit_reason by (auto simp: next_delivery_def validateDelivery_def Let_def require_def)
  next
    case False
    then show ?thesis using next_small input by (auto simp: next_delivery_def validateDelivery_def Let_def require_def)
  qed
qed

lemma delivers:
  assumes "delivery_input_ok status reason taskID" "sane_clock now"
  shows "inbox_change (delivered_box hit (next_delivery now status reason taskID))"
proof
  fix k g box
  assume ok: "box_ok k g box"
  let ?f = "next_delivery now status reason taskID"
  let ?g = "\<lambda>x. x\<lparr>sg_Delivery := ?f (sg_Delivery x)\<rparr>"
  have "box_ok k g (delivered_box hit ?f box) \<and> sequences_of (delivered_box hit ?f box) \<subseteq> sequences_of box"
  proof (cases "\<exists>x. find hit (ib_signals box) = Some x \<and> \<not> delivery_settled (sg_Delivery x)")
    case True
    then obtain x where x: "find hit (ib_signals box) = Some x" "\<not> delivery_settled (sg_Delivery x)" by blast
    obtain as bs where split: "ib_signals box = as @ x # bs" "replace_first hit ?g (ib_signals box) = as @ ?g x # bs"
      using replace_first_split [OF x(1)] by blast
    have x_ok: "signal_ok k x" "ss_Enabled (ib_settings box)" using ok x(2) split(1) by (auto simp: box_ok_def)
    then have "signal_ok k (?g x)"
      using next_delivery_ok [OF _ x(2) _ assms] by (auto simp: signal_ok_def as_published_def signal_target_of_def)
    then have "box_ok k g (box\<lparr>ib_signals := as @ ?g x # bs\<rparr>)"
      using ok split(1) x_ok(2) by (auto simp: box_ok_def sorted_wrt_append before_def)
    then show ?thesis using x split by (simp add: delivered_box_def)
  qed (use ok in \<open>auto simp: delivered_box_def split: option.splits\<close>)
  then show "box_ok k g (delivered_box hit ?f box)" "sequences_of (delivered_box hit ?f box) \<subseteq> sequences_of box" by simp_all
qed

subsection \<open>Writing an inbox\<close>

declare map_of_eq_Some_iff [simp del]

lemma box_ok_mono: "box_ok k g box \<Longrightarrow> g \<le> g' \<Longrightarrow> box_ok k g' box"
  by (auto simp: box_ok_def)

lemma sum_update:
  fixes h :: "'b \<Rightarrow> int"
  assumes "map_ok m"
  shows "sum_list (map (\<lambda>(k, b). h b) (AList.update k b m))
    = sum_list (map (\<lambda>(k, b). h b) m) - (case map_of m k of None \<Rightarrow> 0 | Some x \<Rightarrow> h x) + h b"
  using assms
proof (induction m)
  case (Cons x m)
  obtain j c where x: "x = (j, c)" by (cases x)
  show ?case
  proof (cases "j = k")
    case False
    then show ?thesis using Cons by (simp add: x)
  qed (simp add: x)
qed simp

lemma owned_update:
  assumes "owned m owner" "\<forall>k box. map_of m k = Some box \<longrightarrow> (\<forall>v \<in> set (ib_signals box). sg_globalSequence v \<le> g)"
    and "\<forall>x \<in> sequences_of box. x \<le> g \<longrightarrow> owner x = k"
  shows "owned m (\<lambda>x. if x \<in> sequences_of box then k else owner x)"
    "owned (AList.update k box m) (\<lambda>x. if x \<in> sequences_of box then k else owner x)"
proof -
  have same: "(if sg_globalSequence v \<in> sequences_of box then k else owner (sg_globalSequence v)) = j"
    if "map_of m j = Some b" "v \<in> set (ib_signals b)" for j b v
    using that assms unfolding owned_def by metis
  then show "owned m (\<lambda>x. if x \<in> sequences_of box then k else owner x)" unfolding owned_def by blast
  show "owned (AList.update k box m) (\<lambda>x. if x \<in> sequences_of box then k else owner x)"
    unfolding owned_def gm.get_put fun_upd_apply using same by (auto split: if_splits)
qed

lemma persist_rows_ok:
  assumes "rows_ok size_of du" "ValidateTarget (target_of_key k) = None" "box_ok k g box" "sw_sequence du \<le> g" "unat g \<le> 2 ^ 53 - 1"
    and "size_of box \<le> maxInboxBytes"
    and "sw_total du - int (case map_of (sw_bytes du) k of None \<Rightarrow> 0 | Some n \<Rightarrow> n) + int (size_of box) \<le> maxSignalStoreBytes"
  shows "rows_ok size_of \<lparr>sw_rows = AList.update k box (sw_rows du), sw_sequence = g, sw_bytes = AList.update k (size_of box) (sw_bytes du),
    sw_total = sw_total du - int (case map_of (sw_bytes du) k of None \<Rightarrow> 0 | Some n \<Rightarrow> n) + int (size_of box)\<rparr>"
proof -
  have "int (case map_of (sw_bytes du) k of None \<Rightarrow> 0 | Some n \<Rightarrow> n) = (case map_of (sw_rows du) k of None \<Rightarrow> 0 | Some x \<Rightarrow> int (size_of x))"
    using assms(1) by (simp add: rows_ok_def split: option.split)
  then have "sum_list (map (\<lambda>(k, box). int (size_of box)) (AList.update k box (sw_rows du)))
      = sw_total du - int (case map_of (sw_bytes du) k of None \<Rightarrow> 0 | Some n \<Rightarrow> n) + int (size_of box)"
    using assms(1) sum_update [of "sw_rows du" "\<lambda>b. int (size_of b)" k box] by (simp add: rows_ok_def)
  then show ?thesis
    using assms by (auto simp: rows_ok_def gm.get_put map_ok_update fun_eq_iff intro: box_ok_mono)
qed

lemma persisted_ok:
  assumes ok: "signals_ok size_of s" and old: "map_of (sb_inboxes s) k = Some old" and new: "box_ok k g box"
    and g: "sb_globalSequence s \<le> g" "unat g \<le> 2 ^ 53 - 1"
    and origin: "\<And>v. v \<in> set (ib_signals box) \<Longrightarrow> sg_globalSequence v \<in> sequences_of old \<or> sb_globalSequence s < sg_globalSequence v"
  shows "signals_ok size_of (snd (persistInboxLocked size_of k box (put_inbox k box (s\<lparr>sb_globalSequence := g\<rparr>))))"
proof -
  let ?s = "put_inbox k box (s\<lparr>sb_globalSequence := g\<rparr>)"
  have target: "ValidateTarget (target_of_key k) = None" and boxes: "\<And>j b. map_of (sb_inboxes s) j = Some b \<Longrightarrow> box_ok j (sb_globalSequence s) b"
    using ok old by (auto simp: signals_ok_def)
  obtain owner where owner: "owned (sb_inboxes s) owner" "\<And>du. sb_durable s = Some du \<Longrightarrow> owned (sw_rows du) owner"
    using ok by (auto simp: signals_ok_def)
  let ?owner = "\<lambda>x. if x \<in> sequences_of box then k else owner x"
  have mine: "\<forall>x \<in> sequences_of box. x \<le> sb_globalSequence s \<longrightarrow> owner x = k"
    using origin owner(1) old by (fastforce simp: owned_def)
  have mem: "owned (AList.update k box (sb_inboxes s)) ?owner"
    using boxes by (intro owned_update(2) [OF owner(1) _ mine]) (auto simp: box_ok_def)
  have rows: "owned (sw_rows du) ?owner \<and> owned (AList.update k box (sw_rows du)) ?owner" if "sb_durable s = Some du" for du
  proof -
    have "\<forall>j b. map_of (sw_rows du) j = Some b \<longrightarrow> (\<forall>v \<in> set (ib_signals b). sg_globalSequence v \<le> sb_globalSequence s)"
      using ok that unfolding signals_ok_def durable_ok_def rows_ok_def box_ok_def by (meson order_trans)
    then show ?thesis using owned_update [OF owner(2) [OF that] _ mine] by blast
  qed
  have len: "length (AList.update k box (sb_inboxes s)) \<le> unat (sb_maxActors s)"
    using ok old by (auto simp: signals_ok_def gm.len_put dom_def)
  have each: "map_of (AList.update k box (sb_inboxes s)) j = Some b \<Longrightarrow> ValidateTarget (target_of_key j) = None \<and> box_ok j g b" for j b
    using ok new target box_ok_mono [OF _ g(1)] by (auto simp: signals_ok_def gm.get_put split: if_splits)
  note basic = ok [unfolded signals_ok_def] map_ok_update len each mem g
  show ?thesis
  proof (cases "sb_durable s")
    case None
    then show ?thesis using basic by (auto simp: persistInboxLocked_def put_inbox_def signals_ok_def)
  next
    case (Some du)
    have du: "durable_ok size_of s du" using ok Some by (simp add: signals_ok_def)
    let ?total = "sw_total du - int (case map_of (sw_bytes du) k of None \<Rightarrow> 0 | Some n \<Rightarrow> n) + int (size_of box)"
    show ?thesis
    proof (cases "maxInboxBytes < size_of box \<or> maxSignalStoreBytes < ?total")
      case True
      then have "snd (persistInboxLocked size_of k box ?s) = signal_notify (?s\<lparr>sb_blocked := Some (SignalError SignalPersistence ''invalid signal'')\<rparr>)"
        using Some by (auto simp: persistInboxLocked_def Let_def put_inbox_def)
      moreover have "durable_ok size_of (signal_notify (?s\<lparr>sb_blocked := Some e\<rparr>)) du" for e
        using du g(1) by (auto simp: durable_ok_def put_inbox_def signal_notify_def gm.get_put)
      ultimately show ?thesis using basic rows [OF Some] Some by (auto simp: signals_ok_def put_inbox_def signal_notify_def)
    next
      case False
      let ?du = "\<lparr>sw_rows = AList.update k box (sw_rows du), sw_sequence = g, sw_bytes = AList.update k (size_of box) (sw_bytes du), sw_total = ?total\<rparr>"
      have result: "snd (persistInboxLocked size_of k box ?s) = ?s\<lparr>sb_durable := Some ?du\<rparr>"
        using False Some by (auto simp: persistInboxLocked_def Let_def put_inbox_def)
      have "rows_ok size_of ?du"
        using du False g by (intro persist_rows_ok [OF _ target new]) (auto simp: durable_ok_def)
      then have "durable_ok size_of (?s\<lparr>sb_durable := Some ?du\<rparr>) ?du"
        using du by (auto simp: durable_ok_def put_inbox_def gm.get_put split: if_splits)
      then show ?thesis unfolding result using basic rows [OF Some] by (auto simp: signals_ok_def put_inbox_def)
    qed
  qed
qed

subsection \<open>Every call keeps the invariant\<close>

lemma signals_ok_box: "signals_ok size_of s \<Longrightarrow> map_of (sb_inboxes s) k = Some box \<Longrightarrow> box_ok k (sb_globalSequence s) box"
  by (simp add: signals_ok_def)

lemma put_fewer_ok:
  assumes ok: "signals_ok size_of s" and old: "map_of (sb_inboxes s) k = Some old" and new: "box_ok k (sb_globalSequence s) box"
    and fewer: "set (ib_signals box) \<subseteq> set (ib_signals old)"
  shows "signals_ok size_of (put_inbox k box s)"
proof -
  obtain owner where owner: "owned (sb_inboxes s) owner" "\<And>du. sb_durable s = Some du \<Longrightarrow> owned (sw_rows du) owner"
    using ok by (auto simp: signals_ok_def)
  have "owned (AList.update k box (sb_inboxes s)) owner"
    unfolding owned_def gm.get_put fun_upd_apply using owner(1) old fewer by (auto simp: owned_def split: if_splits)
  moreover have "durable_ok size_of (put_inbox k box s) du" if "durable_ok size_of s du" for du
  proof -
    have "set (ib_signals box) \<subseteq> (case map_of (sw_rows du) k of None \<Rightarrow> {} | Some row \<Rightarrow> set (ib_signals row))" if "sb_blocked s = None"
      using \<open>durable_ok size_of s du\<close> that old fewer unfolding durable_ok_def by blast
    then show ?thesis using that by (simp add: durable_ok_def put_inbox_def gm.get_put) blast
  qed
  ultimately show ?thesis
    using ok new old owner(2) by (auto simp: signals_ok_def put_inbox_def map_ok_update gm.get_put gm.len_put dom_def)
qed

lemma put_pruned_ok:
  assumes "signals_ok size_of s" "map_of (sb_inboxes s) k = Some box"
  shows "signals_ok size_of (put_inbox k (pruneInbox now box) s)"
  by (rule put_fewer_ok [OF assms prunes.keeps_ok [OF signals_ok_box [OF assms]]]) (rule pruned_subset)

lemma signals_ok_notify [simp]: "signals_ok size_of (signal_notify s) = signals_ok size_of s"
  by (simp add: signals_ok_def signal_notify_def durable_ok_def)

lemma prune_all_ok:
  assumes "signals_ok size_of s"
  shows "signals_ok size_of (prune_all now s)"
proof -
  have get: "map_of (sb_inboxes (prune_all now s)) k = map_option (pruneInbox now) (map_of (sb_inboxes s) k)" for k
    by (simp add: prune_all_def map_of_map)
  have keys: "map fst (sb_inboxes (prune_all now s)) = map fst (sb_inboxes s)" by (simp add: prune_all_def case_prod_beta comp_def)
  have fields: "sb_durable (prune_all now s) = sb_durable s" "sb_globalSequence (prune_all now s) = sb_globalSequence s"
    "sb_maxActors (prune_all now s) = sb_maxActors s" "sb_defaultSettings (prune_all now s) = sb_defaultSettings s"
    by (simp_all add: prune_all_def)
  note sub = pruned_subset
  obtain owner where owner: "owned (sb_inboxes s) owner" "\<And>du. sb_durable s = Some du \<Longrightarrow> owned (sw_rows du) owner"
    using assms by (auto simp: signals_ok_def)
  have "owned (sb_inboxes (prune_all now s)) owner" using owner(1) sub by (force simp: owned_def get)
  moreover have "durable_ok size_of (prune_all now s) du" if "durable_ok size_of s du" for du
    using that sub unfolding durable_ok_def by (simp add: get dom_def) (force simp: prune_all_def)
  moreover have "length (sb_inboxes (prune_all now s)) = length (sb_inboxes s)" by (simp add: prune_all_def)
  ultimately show ?thesis
    using assms owner(2) keys prunes.keeps_ok unfolding signals_ok_def get by (auto simp: fields)
qed

lemma new_box_ok: "ValidateSettings settings = None \<Longrightarrow> box_ok k g \<lparr>ib_settings = settings, ib_signals = [], ib_nextCursor = 0, ib_lastKindMillis = []\<rparr>"
  by (simp add: box_ok_def kinds_ok_def)

lemma inboxLocked_ok:
  assumes "signals_ok size_of s" "inboxLocked k True s = Inr (box, s1)" "ValidateTarget (target_of_key k) = None"
  shows "signals_ok size_of s1 \<and> map_of (sb_inboxes s1) k = Some box \<and> sb_globalSequence s1 = sb_globalSequence s"
proof (cases "map_of (sb_inboxes s) k")
  case None
  let ?box = "\<lparr>ib_settings = sb_defaultSettings s, ib_signals = [], ib_nextCursor = 0, ib_lastKindMillis = []\<rparr>"
  have s1: "s1 = put_inbox k ?box s" "box = ?box" and room: "length (sb_inboxes s) < unat (sb_maxActors s)"
    using assms(2) None by (auto simp: inboxLocked_def Let_def split: if_splits)
  obtain owner where owner: "owned (sb_inboxes s) owner" "\<And>du. sb_durable s = Some du \<Longrightarrow> owned (sw_rows du) owner"
    using assms(1) by (auto simp: signals_ok_def)
  have "owned (AList.update k ?box (sb_inboxes s)) owner" using owner(1) by (auto simp: owned_def gm.get_put)
  moreover have "durable_ok size_of s1 du" if "durable_ok size_of s du" for du
    using that by (auto simp: durable_ok_def put_inbox_def gm.get_put s1)
  ultimately have "signals_ok size_of s1"
    using assms(1, 3) owner(2) room new_box_ok
    by (auto simp: signals_ok_def put_inbox_def map_ok_update gm.get_put gm.len_put s1(1))
  then show ?thesis by (simp add: s1 put_inbox_def gm.get_put)
qed (use assms in \<open>auto simp: inboxLocked_def\<close>)

lemma drop_settled: "delivery_settled (sg_Delivery v) \<Longrightarrow> drop_undelivered v = v"
  by (auto simp: drop_undelivered_def delivery_settled_def)

lemma configured_same:
  assumes "box_ok k g box"
  shows "configured_inbox now (ib_settings box) box = pruneInbox now box"
proof -
  have "map drop_undelivered (ib_signals box) = ib_signals box" if "\<not> ss_Enabled (ib_settings box)"
    using assms that by (intro map_idI drop_settled) (simp add: box_ok_def)
  moreover have "length (filter P (ib_signals box)) - unat (ss_MaxPending (ib_settings box)) = 0" for P
    using assms by (auto simp: box_ok_def intro: order_trans [OF length_filter_le])
  ultimately show ?thesis by (simp add: configured_inbox_def pruneInbox_def newest_def Let_def)
qed

lemma target_of_keyOf [simp]: "target_of_key (keyOf t) = t"
  by (simp add: target_of_key_def keyOf_def)

lemma changed_persisted_ok:
  assumes "inbox_change f" "signals_ok size_of s" "map_of (sb_inboxes s) k = Some box"
  shows "signals_ok size_of (snd (persistInboxLocked size_of k (f box) (put_inbox k (f box) s)))"
proof -
  have ok: "box_ok k (sb_globalSequence s) box" using signals_ok_box assms(2, 3) by blast
  have "unat (sb_globalSequence s) \<le> 2 ^ 53 - 1" using assms(2) by (simp add: signals_ok_def)
  then have "signals_ok size_of (snd (persistInboxLocked size_of k (f box) (put_inbox k (f box) (s\<lparr>sb_globalSequence := sb_globalSequence s\<rparr>))))"
    using inbox_change.keeps_origin [OF assms(1) ok] by (intro persisted_ok [OF assms(2, 3) inbox_change.keeps_ok [OF assms(1) ok]]) auto
  then show ?thesis by simp
qed

lemma Configure_ok:
  assumes ok: "signals_ok size_of s"
  shows "signals_ok size_of (snd (Signals_Configure size_of now s t settings))"
proof (cases "\<exists>box s1. first_err [ValidateTarget t, ValidateSettings settings, signal_ready s] = None \<and> inboxLocked (keyOf t) True s = Inr (box, s1)")
  case True
  then obtain box s1 where valid: "ValidateTarget t = None" "ValidateSettings settings = None" "signal_ready s = None"
    and inbox: "inboxLocked (keyOf t) True s = Inr (box, s1)" by (auto simp: first_err_None_iff)
  have s1: "signals_ok size_of s1" "map_of (sb_inboxes s1) (keyOf t) = Some box" using inboxLocked_ok [OF ok inbox] valid(1) by auto
  let ?box = "configured_inbox now settings box"
  let ?run = "if ib_settings box \<noteq> settings \<or> never_written (keyOf t) (put_inbox (keyOf t) ?box s1)
    then persistInboxLocked size_of (keyOf t) ?box (put_inbox (keyOf t) ?box s1) else (None, put_inbox (keyOf t) ?box s1)"
  have "signals_ok size_of (snd ?run)"
  proof (cases "ib_settings box \<noteq> settings \<or> never_written (keyOf t) (put_inbox (keyOf t) ?box s1)")
    case True
    then show ?thesis using changed_persisted_ok [OF configures [OF valid(2)] s1] by simp
  next
    case False
    then have "?box = pruneInbox now box" using configured_same [OF signals_ok_box [OF s1]] by simp
    then show ?thesis using False put_pruned_ok [OF s1] by simp
  qed
  moreover have "snd (Signals_Configure size_of now s t settings) \<in> {snd ?run, signal_notify (snd ?run)}"
    using valid inbox by (auto simp: Signals_Configure_def Let_def split: prod.split option.split)
  ultimately show ?thesis by auto
next
  case False
  then have "snd (Signals_Configure size_of now s t settings) = s"
    by (auto simp: Signals_Configure_def split: option.split sum.split)
  then show ?thesis using ok by simp
qed

lemma Delivery_ok:
  assumes ok: "signals_ok size_of s" and clock: "sane_clock now"
  shows "signals_ok size_of (snd (RecordDelivery size_of now s v status reason taskID))"
proof -
  let ?k = "keyOf (signal_target_of v)" and ?hit = "\<lambda>x. sg_SignalID x = sg_SignalID v \<and> sg_Cursor x = sg_Cursor v"
  let ?f = "next_delivery now status reason taskID" and ?run = "RecordDelivery size_of now s v status reason taskID"
  let ?checks = "first_err [
          require (status \<in> {''started'', ''attached'', ''merged'', ''dropped'', ''retry''}) (signal_invalid ''delivery.status'' ''is invalid''),
          signal_validateText ''delivery.reason'' reason 128 False,
          (if taskID = [] then None else signal_validateIdentifier ''delivery.task_id'' taskID 128),
          signal_ready s]"
  have input: "delivery_input_ok status reason taskID" if "?checks = None"
    using that by (auto simp: delivery_input_ok_def first_err_None_iff simp del: first_err.simps insert_iff split: if_splits)
  let ?put = "\<lambda>box. persistInboxLocked size_of ?k (delivered_box ?hit ?f box) (put_inbox ?k (delivered_box ?hit ?f box) s)"
  have "snd ?run = s \<or> (\<exists>box. map_of (sb_inboxes s) ?k = Some box \<and> delivery_input_ok status reason taskID
      \<and> snd ?run \<in> {snd (?put box), signal_notify (snd (?put box))})"
  proof (cases "\<exists>box x. ?checks = None \<and> map_of (sb_inboxes s) ?k = Some box \<and> find ?hit (ib_signals box) = Some x \<and> \<not> delivery_settled (sg_Delivery x)")
    case True
    then obtain box x where checks: "?checks = None" and run: "map_of (sb_inboxes s) ?k = Some box"
        "find ?hit (ib_signals box) = Some x" "\<not> delivery_settled (sg_Delivery x)" by blast
    have "delivered_box ?hit ?f box = box\<lparr>ib_signals := replace_first ?hit (\<lambda>x. x\<lparr>sg_Delivery := ?f (sg_Delivery x)\<rparr>) (ib_signals box)\<rparr>"
      using run(2, 3) by (simp add: delivered_box_def)
    then have "?run = (case ?put box of (Some e, s1) \<Rightarrow> (Some e, s1) | (None, s1) \<Rightarrow> (None, signal_notify s1))"
      unfolding RecordDelivery_def Let_def checks using run by simp
    then show ?thesis using run(1) input [OF checks] by (auto split: prod.split option.split)
  next
    case False
    then show ?thesis by (auto simp: RecordDelivery_def Let_def simp del: first_err.simps insert_iff split: option.split)
  qed
  then show ?thesis using ok changed_persisted_ok [OF delivers [OF _ clock] ok] by auto
qed

lemma word_succ:
  assumes "unat (x :: u64) < 2 ^ 53 - 1"
  shows "unat (x + 1) = Suc (unat x)" "x < x + 1" "0 < x + 1"
proof -
  have "unat (x + 1) = unat x + unat (1 :: u64)" using assms by (intro unat_plus_no_wrap) simp
  then show eq: "unat (x + 1) = Suc (unat x)" by simp
  then show "x < x + 1" by (simp add: word_less_nat_alt)
  show "0 < x + 1" using eq by (simp add: word_less_nat_alt)
qed

lemma accepted_signal_ok:
  assumes "validateSignal v now = None" "keyOf (signal_target_of v) = k" "sane_clock now"
  shows "signal_ok k (v\<lparr>sg_SchemaVersion := SignalSchemaVersion, sg_Summary := TrimSpace (sg_Summary v), sg_ReceivedAt := now, sg_Cursor := c,
    sg_globalSequence := g\<rparr>)"
proof -
  let ?w = "v\<lparr>sg_SchemaVersion := SignalSchemaVersion, sg_Summary := TrimSpace (sg_Summary v), sg_ReceivedAt := now, sg_Cursor := c,
    sg_globalSequence := g\<rparr>"
  have raw: "sg_Delivery v = no_delivery" using assms(1) by (auto simp: validateSignal_def first_err_None_iff simp del: first_err.simps)
  have "validateSignal (as_published ?w) now = None"
    using assms(1)
    by (simp add: validateSignal_def first_err_None_iff as_published_def signal_target_of_def signal_validateText_def del: first_err.simps)
  moreover have "validateDelivery no_delivery = None" by code_simp
  ultimately show ?thesis
    using assms(2, 3) raw by (simp add: signal_ok_def sane_clock_def signal_target_of_def no_delivery_def)
qed

lemma kinds_ok_update:
  assumes "kinds_ok m" "map_of m kind \<noteq> None \<or> length m < 1024" "signal_validateIdentifier ''kind'' kind 128 = None" "sane_clock now"
  shows "kinds_ok (AList.update kind now m)"
proof -
  have "length (AList.update kind now m) \<le> 1024" using assms(1, 2) by (auto simp: kinds_ok_def gm.len_put)
  moreover have "set (AList.update kind now m) \<subseteq> insert (kind, now) (set m)" by (induction m) auto
  ultimately show ?thesis using assms by (auto simp: kinds_ok_def map_ok_update sane_clock_def dest!: subsetD)
qed

lemma accept_ok:
  assumes ok: "box_ok k g box" and free: "refusal now box v = None" and valid: "validateSignal v now = None" "keyOf (signal_target_of v) = k" "sane_clock now"
    and room: "unat (ib_nextCursor box) < 2 ^ 53 - 1" "unat g < 2 ^ 53 - 1"
  shows "box_ok k (g + 1) (accept_signal now (g + 1) v box)"
proof -
  have open_box: "ss_Enabled (ib_settings box)" "find (\<lambda>x. sg_SignalID x = sg_SignalID v) (ib_signals box) = None"
    "length (ib_signals box) < unat (ss_MaxPending (ib_settings box))"
    "map_of (ib_lastKindMillis box) (sg_Kind v) \<noteq> None \<or> length (ib_lastKindMillis box) < 1024"
    using free by (auto simp: refusal_def Let_def split: if_splits option.splits)
  have kind: "signal_validateIdentifier ''kind'' (sg_Kind v) 128 = None"
    using valid(1) by (auto simp: validateSignal_def first_err_None_iff simp del: first_err.simps)
  note g = word_succ [OF room(2)] and c = word_succ [OF room(1)]
  let ?w = "v\<lparr>sg_SchemaVersion := SignalSchemaVersion, sg_Summary := TrimSpace (sg_Summary v), sg_ReceivedAt := now,
    sg_Cursor := ib_nextCursor box + 1, sg_globalSequence := g + 1\<rparr>"
  have "before x ?w" if "x \<in> set (ib_signals box)" for x
  proof -
    have "sg_Cursor x \<le> ib_nextCursor box" "sg_globalSequence x \<le> g" using ok that by (auto simp: box_ok_def)
    moreover have "sg_SignalID x \<noteq> sg_SignalID v" using open_box(2) that by (auto simp: find_None_iff)
    ultimately show ?thesis using c(2) g(2) by (auto simp: before_def)
  qed
  then have "sorted_wrt before (ib_signals box @ [?w])" using ok by (simp add: box_ok_def sorted_wrt_append)
  moreover have "kinds_ok (AList.update (sg_Kind v) now (ib_lastKindMillis box))"
    using ok open_box(4) kind valid(3) by (intro kinds_ok_update) (simp_all add: box_ok_def)
  moreover have "signal_ok k ?w" by (rule accepted_signal_ok [OF valid])
  moreover have "0 < sg_Cursor x \<and> sg_Cursor x \<le> ib_nextCursor box + 1 \<and> 0 < sg_globalSequence x \<and> sg_globalSequence x \<le> g + 1 \<and> signal_ok k x"
    if "x \<in> set (ib_signals box)" for x
    using ok that c(2) g(2) unfolding box_ok_def by (meson order.strict_implies_order order_trans)
  ultimately show ?thesis
    using ok open_box(1, 3) room(1) g(3) c(1, 3) by (simp add: box_ok_def accept_signal_def Let_def)
qed

lemma Publish_ok:
  assumes ok: "signals_ok size_of s" and clock: "sane_clock now"
  shows "signals_ok size_of (snd (Signals_Publish size_of now s v))"
proof (cases "\<exists>box s0. first_err [validateSignal v now, signal_ready s] = None \<and> inboxLocked (keyOf (signal_target_of v)) True s = Inr (box, s0)")
  case True
  let ?k = "keyOf (signal_target_of v)"
  from True obtain box0 s0 where checks: "first_err [validateSignal v now, signal_ready s] = None"
    and inbox: "inboxLocked ?k True s = Inr (box0, s0)" by blast
  have valid: "validateSignal v now = None" using checks by (simp add: first_err_None_iff del: first_err.simps)
  have target: "ValidateTarget (signal_target_of v) = None"
    using valid by (auto simp: validateSignal_def first_err_None_iff simp del: first_err.simps)
  define box s1 where "box = pruneInbox now box0" and "s1 = put_inbox ?k box s0"
  have s0: "signals_ok size_of s0" "map_of (sb_inboxes s0) ?k = Some box0" using inboxLocked_ok [OF ok inbox] target by auto
  have s1: "signals_ok size_of s1" "map_of (sb_inboxes s1) ?k = Some box"
    using put_pruned_ok [OF s0] by (simp_all add: s1_def box_def put_inbox_def gm.get_put)
  show ?thesis
  proof (cases "refusal now box v = None \<and> unat (ib_nextCursor box) < 2 ^ 53 - 1 \<and> unat (sb_globalSequence s1) < 2 ^ 53 - 1")
    case True
    let ?g = "sb_globalSequence s1 + 1"
    let ?box = "accept_signal now ?g v box"
    let ?run = "persistInboxLocked size_of ?k ?box (put_inbox ?k ?box (s1\<lparr>sb_globalSequence := ?g\<rparr>))"
    note g = word_succ [OF True [THEN conjunct2, THEN conjunct2]]
    have "box_ok ?k ?g ?box" using True by (intro accept_ok [OF signals_ok_box [OF s1] _ valid refl clock]) simp_all
    moreover have "sg_globalSequence w \<in> sequences_of box \<or> sb_globalSequence s1 < sg_globalSequence w" if "w \<in> set (ib_signals ?box)" for w
      using that g(2) by (auto simp: accept_signal_def Let_def)
    ultimately have "signals_ok size_of (snd ?run)" using g True by (intro persisted_ok [OF s1]) auto
    moreover have "snd (Signals_Publish size_of now s v) \<in> {snd ?run, signal_notify (snd ?run)}"
      using True checks inbox by (auto simp: Signals_Publish_def Let_def box_def s1_def split: prod.split option.split)
    ultimately show ?thesis by auto
  next
    case False
    then have "snd (Signals_Publish size_of now s v) = s1"
      using checks inbox by (auto simp: Signals_Publish_def Let_def box_def s1_def split: option.split)
    then show ?thesis using s1(1) by simp
  qed
next
  case False
  then have "snd (Signals_Publish size_of now s v) = s"
    by (auto simp: Signals_Publish_def Let_def simp del: first_err.simps split: option.split sum.split)
  then show ?thesis using ok by simp
qed

lemma List_ok:
  assumes "signals_ok size_of s"
  shows "signals_ok size_of (snd (Signals_List now s input))"
  using assms put_pruned_ok by (auto simp: Signals_List_def Let_def split: sum.split option.split)

lemma signal_step_ok: "signal_step size_of s s' \<Longrightarrow> signals_ok size_of s \<Longrightarrow> signals_ok size_of s'"
proof (induction rule: signal_step.induct)
  case (step_wait_pass s now input waitMillis expired)
  let ?run = "Signals_List now s (input\<lparr>sl_Limit := boundedLimit (sl_Limit input)\<rparr>)"
  have "snd (signals_wait_pass now s input waitMillis expired) \<in> {s, snd ?run}"
    by (auto simp: signals_wait_pass_def Let_def split: prod.split sum.split)
  then show ?case using step_wait_pass List_ok [of size_of s now] by auto
next
  case (step_wait_any_pass s now after no_wait expired)
  then show ?case using prune_all_ok by (auto simp: signals_wait_any_pass_def Let_def simp del: first_err.simps split: option.split)
next
  case (step_wait_pending_pass s now expired)
  then show ?case using prune_all_ok by (auto simp: signals_wait_pending_pass_def Let_def split: option.split)
next
  case (step_Close s)
  then show ?case by (simp add: Signals_Close_def) (simp add: signals_ok_def durable_ok_def)
qed (simp_all add: Configure_ok Publish_ok List_ok Delivery_ok)

subsection \<open>Restarts\<close>

lemma restored_signals_ok:
  assumes "box_ok k g box" "set sequences \<inter> sequences_of box = {}"
  shows "loop_err (restored_signal_check k (ib_nextCursor box) g sequences) [] (ib_signals box) = None"
proof -
  have "restored_signal_check k (ib_nextCursor box) g sequences i (take i (ib_signals box)) (ib_signals box ! i) = None"
    if i: "i < length (ib_signals box)" for i
  proof -
    let ?v = "ib_signals box ! i" and ?seen = "take i (ib_signals box)"
    have v: "?v \<in> set (ib_signals box)" using i by simp
    have earlier: "before x ?v" if x: "x \<in> set ?seen" for x
    proof -
      obtain j where "j < i" "x = ib_signals box ! j" using x i by (auto simp: in_set_conv_nth)
      then show ?thesis using assms(1) i by (simp add: box_ok_def sorted_wrt_iff_nth_less)
    qed
    have "(if ?seen = [] then 0 else sg_Cursor (last ?seen)) < sg_Cursor ?v"
      using earlier [of "last ?seen"] v assms(1) by (auto simp: before_def box_ok_def)
    moreover have "sg_globalSequence ?v \<notin> sg_globalSequence ` set ?seen" "sg_SignalID ?v \<notin> sg_SignalID ` set ?seen"
      using earlier unfolding before_def by (metis imageE order_less_irrefl)+
    moreover have "sg_globalSequence ?v \<notin> set sequences" using assms(2) v by auto
    moreover have "sg_globalSequence ?v \<noteq> 0" using assms(1) v by (fastforce simp: box_ok_def)
    ultimately show ?thesis
      using assms(1) v unfolding restored_signal_check_def box_ok_def signal_ok_def
      by (simp add: first_err_None_iff as_published_def del: first_err.simps)
  qed
  then show ?thesis by (simp add: loop_err_None_iff)
qed

lemma restored_row_ok:
  assumes "box_ok k g box" "set sequences \<inter> sequences_of box = {}" "ValidateTarget (target_of_key k) = None" "size_of box \<le> maxInboxBytes"
  shows "restored_row_check size_of k g sequences box = None"
  using assms(1, 3, 4) restored_signals_ok [OF assms(1, 2)]
  by (auto simp: restored_row_check_def first_err_None_iff target_of_key_def box_ok_def kinds_ok_def simp del: first_err.simps)

lemma restore_rows_ok:
  assumes "map_ok rows" "\<And>k box. (k, box) \<in> set rows \<Longrightarrow> ValidateTarget (target_of_key k) = None \<and> box_ok k g box \<and> size_of box \<le> maxInboxBytes
      \<and> (\<forall>v \<in> set (ib_signals box). owner (sg_globalSequence v) = k)"
    and "\<And>x. x \<in> set sequences \<Longrightarrow> owner x \<notin> fst ` set rows"
  shows "restore_rows size_of now g sequences rows = Inr (map (\<lambda>(k, box). (k, pruneInbox now box)) rows)"
  using assms
proof (induction rows arbitrary: sequences)
  case (Cons row rows)
  obtain k box where row: "row = (k, box)" by (cases row)
  have box: "ValidateTarget (target_of_key k) = None" "box_ok k g box" "size_of box \<le> maxInboxBytes"
    "\<And>v. v \<in> set (ib_signals box) \<Longrightarrow> owner (sg_globalSequence v) = k"
    using Cons.prems(2) [of k box] by (auto simp: row)
  have "set sequences \<inter> sequences_of box = {}" using Cons.prems(3) box(4) by (fastforce simp: row)
  then have first: "restored_row_check size_of k g sequences box = None"
    by (intro restored_row_ok box(1, 2, 3))
  have later: "owner x \<notin> fst ` set rows" if "x \<in> set (sequences @ map sg_globalSequence (ib_signals box))" for x
  proof (cases "x \<in> set sequences")
    case False
    then have "owner x = k" using that box(4) by auto
    then show ?thesis using Cons.prems(1) by (simp add: row)
  qed (use Cons.prems(3) in auto)
  have "restore_rows size_of now g (sequences @ map sg_globalSequence (ib_signals box)) rows = Inr (map (\<lambda>(k, box). (k, pruneInbox now box)) rows)"
  proof (rule Cons.IH)
    show "map_ok rows" using Cons.prems(1) by simp
    show "ValidateTarget (target_of_key k) = None \<and> box_ok k g box \<and> size_of box \<le> maxInboxBytes
      \<and> (\<forall>v \<in> set (ib_signals box). owner (sg_globalSequence v) = k)" if "(k, box) \<in> set rows" for k box
      using Cons.prems(2) [of k box] that by simp
  qed (rule later)
  then show ?case using first by (simp add: row)
qed simp

lemma NewStore_ok:
  assumes "NewStore configured m = Inr s"
  shows "signals_ok size_of s" "sb_inboxes s = []" "sb_globalSequence s = 0" "sb_durable s = None" "sb_blocked s = None" "sb_closed s = False"
    "sb_maxActors s = (if m = 0 then 4096 else m)"
proof -
  show fields: "sb_inboxes s = []" "sb_globalSequence s = 0" "sb_durable s = None" "sb_blocked s = None" "sb_closed s = False"
    "sb_maxActors s = (if m = 0 then 4096 else m)"
    using assms by (auto simp: NewStore_def Let_def split: if_splits)
  have "sb_maxActors s \<noteq> 0 \<and> sb_maxActors s \<le> 100000 \<and> ValidateSettings (sb_defaultSettings s) = None"
    using assms by (auto simp: NewStore_def Let_def split: if_splits)
  then show "signals_ok size_of s" by (simp add: signals_ok_def fields owned_def)
qed

lemma restore_ok:
  assumes new: "signals_ok size_of s" "sb_durable s = None" and rows: "rows_ok size_of du" "owned (sw_rows du) owner" "length (sw_rows du) \<le> unat (sb_maxActors s)"
  obtains s' where "restoreSQLite size_of now s du = Inr s'" "signals_ok size_of s'" "sb_maxActors s' = sb_maxActors s"
    "\<And>k. map_of (sb_inboxes s') k = map_option (pruneInbox now) (map_of (sw_rows du) k)" "sb_globalSequence s' = sw_sequence du"
proof -
  let ?boxes = "map (\<lambda>(k, box). (k, pruneInbox now box)) (sw_rows du)"
  let ?total = "sum_list (map (\<lambda>(k, box). int (size_of box)) (sw_rows du))"
  let ?du = "\<lparr>sw_rows = sw_rows du, sw_sequence = sw_sequence du, sw_bytes = map (\<lambda>(k, box). (k, size_of box)) (sw_rows du), sw_total = ?total\<rparr>"
  let ?s = "s\<lparr>sb_inboxes := ?boxes, sb_globalSequence := sw_sequence du, sb_durable := Some ?du\<rparr>"
  have each: "ValidateTarget (target_of_key k) = None \<and> box_ok k (sw_sequence du) box \<and> size_of box \<le> maxInboxBytes
      \<and> (\<forall>v \<in> set (ib_signals box). owner (sg_globalSequence v) = k)" if "map_of (sw_rows du) k = Some box" for k box
    using that rows(1, 2) by (simp add: rows_ok_def owned_def)
  have ok: "map_ok (sw_rows du)" "unat (sw_sequence du) \<le> 2 ^ 53 - 1" "?total \<le> maxSignalStoreBytes" using rows(1) by (auto simp: rows_ok_def)
  have "restore_rows size_of now (sw_sequence du) [] (sw_rows du) = Inr ?boxes"
    by (rule restore_rows_ok [OF ok(1) each [OF map_of_is_SomeI [OF ok(1)]]]) simp_all
  then have run: "restoreSQLite size_of now s du = Inr ?s"
    using ok rows(3) by (simp add: restoreSQLite_def Let_def)
  have get: "map_of ?boxes k = map_option (pruneInbox now) (map_of (sw_rows du) k)" for k by (simp add: map_of_map)
  have keys: "map_ok ?boxes" using ok(1) by (simp add: case_prod_beta comp_def)
  have "rows_ok size_of ?du" using rows(1) by (simp add: rows_ok_def map_of_map comp_def)
  then have "durable_ok size_of ?s ?du"
    unfolding durable_ok_def using pruned_subset by (simp add: get dom_def) fastforce
  moreover have "owned ?boxes owner" using rows(2) pruned_subset by (simp add: owned_def get) blast
  moreover have "ValidateTarget (target_of_key k) = None \<and> box_ok k (sw_sequence du) box" if "map_of ?boxes k = Some box" for k box
    using that each prunes.keeps_ok by (auto simp: get)
  ultimately have "signals_ok size_of ?s"
    using new(1) ok(2) rows(2, 3) keys unfolding signals_ok_def by (auto simp del: distinct_map map_map)
  then show thesis using run get by (intro that [of ?s]) simp_all
qed

lemma Open_ok:
  assumes "NewStore configured m = Inr fresh" "rows_ok size_of du" "owned (sw_rows du) owner" "length (sw_rows du) \<le> unat (sb_maxActors fresh)"
  obtains s where "OpenSignalStore size_of now configured m du = Inr s" "signals_ok size_of s"
    "\<And>k. map_of (sb_inboxes s) k = map_option (pruneInbox now) (map_of (sw_rows du) k)" "sb_globalSequence s = sw_sequence du"
proof -
  note fresh = NewStore_ok [OF assms(1)]
  obtain s where s: "restoreSQLite size_of now fresh du = Inr s" "signals_ok size_of s"
      "\<And>k. map_of (sb_inboxes s) k = map_option (pruneInbox now) (map_of (sw_rows du) k)" "sb_globalSequence s = sw_sequence du"
    using restore_ok [OF fresh(1, 4) assms(2-4)] by blast
  then show thesis using assms(1) by (intro that [of s]) (simp_all add: OpenSignalStore_def)
qed

lemma empty_rows_ok: "rows_ok size_of empty_rows" "owned (sw_rows empty_rows) owner"
  by (simp_all add: rows_ok_def empty_rows_def owned_def maxSignalStoreBytes_def fun_eq_iff)

lemma rows_fit:
  assumes "signals_ok size_of s" "sb_durable s = Some du"
  shows "length (sw_rows du) \<le> unat (sb_maxActors s)"
proof -
  have du: "map_ok (sw_rows du)" "dom (map_of (sw_rows du)) \<subseteq> dom (map_of (sb_inboxes s))"
    and s: "map_ok (sb_inboxes s)" "length (sb_inboxes s) \<le> unat (sb_maxActors s)"
    using assms by (simp_all add: signals_ok_def durable_ok_def rows_ok_def)
  have "card (dom (map_of (sw_rows du))) \<le> card (dom (map_of (sb_inboxes s)))" by (rule card_mono [OF finite_dom_map_of du(2)])
  then show ?thesis using du(1) s by (simp add: length_map_ok)
qed

lemma restart_ok:
  assumes "signals_ok size_of s" "sb_durable s = Some du" "NewStore configured (sb_maxActors s) = Inr fresh"
  obtains s' where "OpenSignalStore size_of now configured (sb_maxActors s) du = Inr s'" "signals_ok size_of s'"
    "\<And>k. map_of (sb_inboxes s') k = map_option (pruneInbox now) (map_of (sw_rows du) k)" "sb_globalSequence s' = sw_sequence du"
proof -
  obtain owner where "owned (sw_rows du) owner" "rows_ok size_of du" "sb_maxActors s \<noteq> 0"
    using assms(1, 2) by (auto simp: signals_ok_def durable_ok_def)
  then show thesis using Open_ok [OF assms(3), of size_of du owner] rows_fit [OF assms(1, 2)] NewStore_ok(7) [OF assms(3)] that by auto
qed

lemma reachable_signals_ok: "reachable_signals size_of s \<Longrightarrow> signals_ok size_of s"
proof (induction rule: reachable_signals.induct)
  case (created now configured m s)
  then obtain fresh where "NewStore configured m = Inr fresh" by (auto simp: OpenSignalStore_def ebind_Inr_iff)
  then obtain s' where "OpenSignalStore size_of now configured m empty_rows = Inr s'" "signals_ok size_of s'"
    using Open_ok [OF _ empty_rows_ok] by (metis empty_rows_def le0 list.size(3) signal_rows.select_convs(1))
  then show ?case using created by simp
next
  case (restarted s du now configured s')
  obtain fresh where "NewStore configured (sb_maxActors s) = Inr fresh" using restarted(3) by (auto simp: OpenSignalStore_def ebind_Inr_iff)
  then obtain t where "OpenSignalStore size_of now configured (sb_maxActors s) du = Inr t" "signals_ok size_of t"
    using restart_ok [OF restarted(4, 2)] by blast
  then show ?case using restarted(3) by simp
qed (simp_all add: NewStore_ok(1) signal_step_ok)

end
