(* ===== verification/Signal_Properties.thy ===== *)
theory Signal_Properties
  imports Signal_Lifecycle
begin

section \<open>Signals over time\<close>

text \<open>
  What a reader and a deliverer of signals can rely on: a cursor names one signal for good, a delivery that is settled is final,
  pages neither skip nor repeat a signal, the inboxes are bounded, and a restart gives back what was accepted. The relation
  \<open>advanced\<close> between an inbox and a later form of it is kept by every call.
\<close>

subsection \<open>Later forms of an inbox\<close>

definition follows :: "signal \<Rightarrow> signal \<Rightarrow> bool" where
  "follows v w \<longleftrightarrow> sg_Cursor w = sg_Cursor v \<and> sg_SignalID w = sg_SignalID v \<and> sg_Summary w = sg_Summary v
     \<and> (delivery_settled (sg_Delivery v) \<longrightarrow> w = v)"

definition advanced :: "inbox \<Rightarrow> inbox \<Rightarrow> bool" where
  "advanced box box' \<longleftrightarrow> ib_nextCursor box \<le> ib_nextCursor box'
     \<and> (\<forall>w \<in> set (ib_signals box'). ib_nextCursor box < sg_Cursor w \<or> (\<exists>v \<in> set (ib_signals box). follows v w))"

definition advanced_store :: "signal_store \<Rightarrow> signal_store \<Rightarrow> bool" where
  "advanced_store s s' \<longleftrightarrow>
     (\<forall>k box. map_of (sb_inboxes s) k = Some box \<longrightarrow> (\<exists>box'. map_of (sb_inboxes s') k = Some box' \<and> advanced box box'))"

lemma follows_refl [simp]: "follows v v"
  by (simp add: follows_def)

lemma follows_trans: "follows u v \<Longrightarrow> follows v w \<Longrightarrow> follows u w"
  by (auto simp: follows_def)

lemma follows_cursor: "follows v w \<Longrightarrow> sg_Cursor w = sg_Cursor v"
  by (simp add: follows_def)

lemma advanced_refl [simp]: "advanced box box"
  by (auto simp: advanced_def intro: follows_refl)

lemma advanced_trans:
  assumes "advanced a b" "advanced b c"
  shows "advanced a c"
proof -
  have "ib_nextCursor a < sg_Cursor w \<or> (\<exists>v \<in> set (ib_signals a). follows v w)" if w: "w \<in> set (ib_signals c)" for w
  proof -
    consider "ib_nextCursor b < sg_Cursor w" | u where "u \<in> set (ib_signals b)" "follows u w"
      using assms(2) w by (auto simp: advanced_def)
    then show ?thesis
    proof cases
      case 1
      then show ?thesis using assms(1) by (auto simp: advanced_def)
    next
      case 2
      then show ?thesis using assms(1) follows_cursor [OF 2(2)] by (auto simp: advanced_def intro: follows_trans)
    qed
  qed
  then show ?thesis using assms by (auto simp: advanced_def)
qed

lemma advanced_store_trans: "advanced_store r s \<Longrightarrow> advanced_store s t \<Longrightarrow> advanced_store r t"
  unfolding advanced_store_def by (meson advanced_trans)

lemma advanced_store_same: "sb_inboxes s' = sb_inboxes s \<Longrightarrow> advanced_store s s'"
  by (simp add: advanced_store_def)

lemma pruned_advanced: "advanced box (pruneInbox now box)"
  by (auto simp: advanced_def pruneInbox_def intro: follows_refl)

lemma advanced_prune_all: "advanced_store s (prune_all now s)"
  by (auto simp: advanced_store_def prune_all_def map_of_map pruned_advanced)

lemma advanced_put: "map_of (sb_inboxes s) k = Some box \<Longrightarrow> advanced box box' \<Longrightarrow> advanced_store s (put_inbox k box' s)"
  by (auto simp: advanced_store_def put_inbox_def gm.get_put)

lemma follows_drop: "follows v (drop_undelivered v)"
  by (auto simp: follows_def drop_undelivered_def delivery_settled_def)

lemma configured_advanced: "advanced box (configured_inbox now settings box)"
proof -
  have "set (ib_signals (configured_inbox now settings box)) \<subseteq> set (ib_signals box) \<union> drop_undelivered ` set (ib_signals box)"
    by (auto simp: configured_inbox_def pruneInbox_def newest_def Let_def dest!: in_set_dropD split: if_splits)
  moreover have "ib_nextCursor (configured_inbox now settings box) = ib_nextCursor box" by (simp add: configured_inbox_def pruneInbox_def Let_def)
  ultimately show ?thesis unfolding advanced_def using follows_refl follows_drop by fastforce
qed

lemma delivered_advanced:
  assumes "find hit (ib_signals box) = Some x" "\<not> delivery_settled (sg_Delivery x)"
  shows "advanced box (box\<lparr>ib_signals := replace_first hit (\<lambda>x. x\<lparr>sg_Delivery := f (sg_Delivery x)\<rparr>) (ib_signals box)\<rparr>)"
proof -
  let ?f = "\<lambda>x. x\<lparr>sg_Delivery := f (sg_Delivery x)\<rparr>"
  obtain as bs where "ib_signals box = as @ x # bs" "replace_first hit ?f (ib_signals box) = as @ ?f x # bs"
    using replace_first_split [OF assms(1)] by blast
  moreover have "follows x (?f x)" using assms(2) by (simp add: follows_def)
  ultimately show ?thesis by (auto simp: advanced_def intro: follows_refl)
qed

lemma accepted_advanced:
  assumes "unat (ib_nextCursor box) < 2 ^ 53 - 1"
  shows "advanced box (accept_signal now g v box)"
  using word_succ [OF assms] by (auto simp: advanced_def accept_signal_def Let_def intro: follows_refl)

subsection \<open>Every call\<close>

lemma persist_inboxes: "persistInboxLocked size_of k box s = (e, s') \<Longrightarrow> sb_inboxes s' = sb_inboxes s"
  by (auto simp: persistInboxLocked_def Let_def signal_notify_def split: option.splits if_splits)

lemma notify_inboxes [simp]: "sb_inboxes (signal_notify s) = sb_inboxes s"
  by (simp add: signal_notify_def)

lemma inboxLocked_advanced: "inboxLocked k create s = Inr (box, s1) \<Longrightarrow> advanced_store s s1 \<and> map_of (sb_inboxes s1) k = Some box"
  by (auto simp: inboxLocked_def advanced_store_def put_inbox_def gm.get_put Let_def split: option.splits if_splits)

lemma Configure_advanced: "advanced_store s (snd (Signals_Configure size_of now s t settings))"
proof (cases "\<exists>box s1. first_err [ValidateTarget t, ValidateSettings settings, signal_ready s] = None \<and> inboxLocked (keyOf t) True s = Inr (box, s1)")
  case True
  then obtain box s1 where run: "first_err [ValidateTarget t, ValidateSettings settings, signal_ready s] = None"
    "inboxLocked (keyOf t) True s = Inr (box, s1)" by blast
  let ?s2 = "put_inbox (keyOf t) (configured_inbox now settings box) s1"
  have "sb_inboxes (snd (Signals_Configure size_of now s t settings)) = sb_inboxes ?s2"
    using run by (auto simp: Signals_Configure_def Let_def dest!: persist_inboxes split: prod.split option.split)
  then show ?thesis
    using inboxLocked_advanced [OF run(2)] advanced_put [OF _ configured_advanced] advanced_store_trans advanced_store_same by metis
next
  case False
  then show ?thesis by (auto simp: Signals_Configure_def intro: advanced_store_same split: option.split sum.split)
qed

lemma List_advanced: "advanced_store s (snd (Signals_List now s input))"
  by (auto simp: Signals_List_def Let_def intro: advanced_store_same advanced_put [OF _ pruned_advanced] split: sum.split option.split)

lemma Publish_advanced: "advanced_store s (snd (Signals_Publish size_of now s v))"
proof (cases "\<exists>box s0. first_err [validateSignal v now, signal_ready s] = None \<and> inboxLocked (keyOf (signal_target_of v)) True s = Inr (box, s0)")
  case True
  let ?k = "keyOf (signal_target_of v)"
  from True obtain box0 s0 where checks: "first_err [validateSignal v now, signal_ready s] = None"
    and inbox: "inboxLocked ?k True s = Inr (box0, s0)" by blast
  define box s1 g where "box = pruneInbox now box0" and "s1 = put_inbox ?k box s0" and "g = sb_globalSequence s0 + 1"
  have s1: "advanced_store s s1" "map_of (sb_inboxes s1) ?k = Some box"
    using inboxLocked_advanced [OF inbox] advanced_put [OF _ pruned_advanced] advanced_store_trans
    unfolding s1_def box_def by (metis, simp add: put_inbox_def gm.get_put)
  show ?thesis
  proof (cases "refusal now box v = None \<and> unat (ib_nextCursor box) < 2 ^ 53 - 1 \<and> unat (sb_globalSequence s1) < 2 ^ 53 - 1")
    case True
    let ?box = "accept_signal now g v box"
    let ?s2 = "put_inbox ?k ?box (s1\<lparr>sb_globalSequence := g\<rparr>)"
    have "sb_inboxes (snd (Signals_Publish size_of now s v)) = sb_inboxes ?s2"
      using True checks inbox
      by (auto simp: Signals_Publish_def Let_def box_def s1_def g_def put_inbox_def dest!: persist_inboxes split: prod.split option.split)
    moreover have "advanced_store s1 ?s2"
      using s1(2) True by (auto simp: put_inbox_def advanced_store_def gm.get_put accepted_advanced)
    ultimately show ?thesis using s1(1) advanced_store_trans advanced_store_same by metis
  next
    case False
    then have "snd (Signals_Publish size_of now s v) = s1"
      using checks inbox by (auto simp: Signals_Publish_def Let_def box_def s1_def split: option.split)
    then show ?thesis using s1(1) by simp
  qed
next
  case False
  then show ?thesis
    by (auto simp: Signals_Publish_def Let_def intro: advanced_store_same simp del: first_err.simps split: option.split sum.split)
qed

lemma Delivery_advanced: "advanced_store s (snd (RecordDelivery size_of now s v status reason taskID))"
proof -
  let ?run = "RecordDelivery size_of now s v status reason taskID"
  let ?k = "keyOf (signal_target_of v)" and ?hit = "\<lambda>x. sg_SignalID x = sg_SignalID v \<and> sg_Cursor x = sg_Cursor v"
  let ?box = "\<lambda>box. box\<lparr>ib_signals := replace_first ?hit (\<lambda>x. x\<lparr>sg_Delivery := next_delivery now status reason taskID (sg_Delivery x)\<rparr>) (ib_signals box)\<rparr>"
  have "sb_inboxes (snd ?run) = sb_inboxes s \<or> (\<exists>box x. map_of (sb_inboxes s) ?k = Some box \<and> find ?hit (ib_signals box) = Some x
      \<and> \<not> delivery_settled (sg_Delivery x) \<and> sb_inboxes (snd ?run) = sb_inboxes (put_inbox ?k (?box box) s))"
    unfolding RecordDelivery_def Let_def
    by (auto simp del: first_err.simps insert_iff dest!: persist_inboxes split: option.split prod.split)
  then show ?thesis
  proof (elim disjE exE conjE)
    fix box x
    assume run: "map_of (sb_inboxes s) ?k = Some box" "find ?hit (ib_signals box) = Some x" "\<not> delivery_settled (sg_Delivery x)"
      and after: "sb_inboxes (snd ?run) = sb_inboxes (put_inbox ?k (?box box) s)"
    have "advanced_store s (put_inbox ?k (?box box) s)" by (rule advanced_put [OF run(1) delivered_advanced [OF run(2, 3)]])
    then show ?thesis using after by (simp add: advanced_store_def)
  qed (rule advanced_store_same)
qed

lemma signal_step_advanced: "signal_step size_of s s' \<Longrightarrow> advanced_store s s'"
proof (induction rule: signal_step.induct)
  case (step_wait_pass s now input waitMillis expired)
  let ?run = "Signals_List now s (input\<lparr>sl_Limit := boundedLimit (sl_Limit input)\<rparr>)"
  have "snd (signals_wait_pass now s input waitMillis expired) \<in> {s, snd ?run}"
    by (auto simp: signals_wait_pass_def Let_def split: prod.split sum.split)
  then show ?case using List_advanced [of s now] advanced_store_same [of s s] by auto
next
  case (step_wait_any_pass s now after no_wait expired)
  then show ?case
    by (auto simp: signals_wait_any_pass_def Let_def advanced_prune_all advanced_store_same simp del: first_err.simps split: option.split)
next
  case (step_wait_pending_pass s now expired)
  then show ?case by (auto simp: signals_wait_pending_pass_def Let_def advanced_prune_all advanced_store_same split: option.split)
next
  case (step_Close s)
  then show ?case by (simp add: Signals_Close_def signal_notify_def advanced_store_same)
qed (rule Configure_advanced Publish_advanced List_advanced Delivery_advanced)+

lemma signal_steps_advanced: "rtranclp (signal_step size_of) s s' \<Longrightarrow> advanced_store s s'"
proof (induction rule: rtranclp_induct)
  case base
  show ?case by (simp add: advanced_store_same)
next
  case (step t u)
  then show ?case using signal_step_advanced advanced_store_trans by blast
qed

lemma same_cursor:
  assumes "sorted_wrt before vs" "v \<in> set vs" "w \<in> set vs" "sg_Cursor v = sg_Cursor w"
  shows "v = w"
proof -
  obtain i j where ij: "i < length vs" "j < length vs" "v = vs ! i" "w = vs ! j" using assms(2, 3) by (auto simp: in_set_conv_nth)
  then have "i = j"
    using assms(1, 4) unfolding sorted_wrt_iff_nth_less before_def by (metis linorder_cases order_less_irrefl)
  with ij show ?thesis by simp
qed

lemma later_signal:
  assumes "box_ok k g box" "advanced box box'" "v \<in> set (ib_signals box)" "w \<in> set (ib_signals box')" "sg_Cursor w = sg_Cursor v"
  shows "follows v w"
proof -
  have "sg_Cursor v \<le> ib_nextCursor box" using assms(1, 3) by (simp add: box_ok_def)
  then obtain u where u: "u \<in> set (ib_signals box)" "follows u w" using assms(2, 4, 5) by (auto simp: advanced_def)
  moreover have "u = v"
    using assms(1, 3, 5) u follows_cursor [OF u(2)] by (intro same_cursor [of "ib_signals box"]) (simp_all add: box_ok_def)
  ultimately show ?thesis by simp
qed

subsection \<open>Pages\<close>

lemma filter_after_take:
  fixes c :: "'a \<Rightarrow> 'b :: linorder"
  assumes "sorted_wrt (\<lambda>x y. c x < c y) xs" "0 < n" "xs \<noteq> []"
  shows "filter (\<lambda>x. c (last (take n xs)) < c x) xs = drop n xs"
proof -
  let ?l = "last (take n xs)"
  have front: "take n xs \<noteq> []" using assms(2, 3) by simp
  have parts: "sorted_wrt (\<lambda>x y. c x < c y) (take n xs @ drop n xs)" using assms(1) by simp
  have "take n xs = butlast (take n xs) @ [?l]" using front by simp
  then have "sorted_wrt (\<lambda>x y. c x < c y) (butlast (take n xs) @ [?l])" using assms(1) by (metis sorted_wrt_take)
  then have "\<forall>x \<in> set (butlast (take n xs)). c x < c ?l" by (simp add: sorted_wrt_append)
  then have "\<forall>x \<in> set (butlast (take n xs) @ [?l]). c x \<le> c ?l" by auto
  then have "\<forall>x \<in> set (take n xs). \<not> c ?l < c x" using front by (metis append_butlast_last_id leD)
  then have "filter (\<lambda>x. c ?l < c x) (take n xs) = []" by (simp add: filter_empty_conv)
  moreover have "\<forall>x \<in> set (drop n xs). c ?l < c x" using parts front last_in_set unfolding sorted_wrt_append by blast
  then have "filter (\<lambda>x. c ?l < c x) (drop n xs) = drop n xs" by simp
  ultimately show ?thesis by (metis append_take_drop_id filter_append append_Nil)
qed

definition unread :: "int \<Rightarrow> inbox \<Rightarrow> u64 \<Rightarrow> signal list" where
  "unread now box after = cloneSignals (filter (\<lambda>v. now < sg_ExpiresAt v \<and> after < sg_Cursor v) (ib_signals box))"

lemma page_complete:
  fixes after n vs
  assumes "sorted_wrt before vs" "0 < n"
  defines "later \<equiv> filter (\<lambda>v. after < sg_Cursor v) vs"
  defines "next \<equiv> (if take n later = [] then after else sg_Cursor (last (take n later)))"
  shows "filter (\<lambda>v. next < sg_Cursor v) vs = drop n later"
proof (cases "later = []")
  case True
  then show ?thesis by (simp add: next_def later_def)
next
  case False
  have "sorted_wrt (\<lambda>v w. sg_Cursor v < sg_Cursor w) vs"
    using assms(1) by (rule sorted_wrt_mono_rel [rotated]) (simp add: before_def)
  then have "sorted_wrt (\<lambda>v w. sg_Cursor v < sg_Cursor w) later" by (simp add: later_def sorted_wrt_filter)
  then have "filter (\<lambda>v. next < sg_Cursor v) later = drop n later"
    using filter_after_take [of sg_Cursor later n] False assms(2) by (simp add: next_def)
  moreover have "after \<le> next"
  proof -
    have "last (take n later) \<in> set later" using False assms(2) by (intro in_set_takeD [OF last_in_set]) simp
    then show ?thesis by (auto simp: next_def later_def)
  qed
  then have "filter (\<lambda>v. next < sg_Cursor v) later = filter (\<lambda>v. next < sg_Cursor v) vs"
    unfolding later_def filter_filter by (intro filter_cong) auto
  ultimately show ?thesis by simp
qed

lemma distinct_sorted_wrt: "distinct (map f xs) \<longleftrightarrow> sorted_wrt (\<lambda>x y. f x \<noteq> f y) xs"
  by (induction xs) auto

lemma validateList_Inr:
  "validateList input = Inr input' \<Longrightarrow>
     input' = input\<lparr>sl_Limit := (if sl_Limit input = 0 then 32 else sl_Limit input)\<rparr> \<and> sl_Limit input' \<noteq> 0 \<and> sl_Limit input' \<le> 100"
  by (auto simp: validateList_def Let_def split: if_splits)

subsection \<open>Properties\<close>


text \<open>
  C19: Whatever calls and restarts came before, the store has at most the configured number of actors and no inbox holds more than
  256 signals or remembers more than 1024 kinds; the identifiers of an inbox are distinct and its cursors ascend; no delivery is
  tried more than 32 times; and an inbox that is switched off holds nothing that is still to be delivered.
\<close>

theorem inboxes_stay_within_bounds:
  assumes "reachable_signals size_of s"
  shows "length (sb_inboxes s) \<le> 100000
    \<and> (\<forall>k box. map_of (sb_inboxes s) k = Some box \<longrightarrow>
         length (ib_signals box) \<le> 256 \<and> length (ib_lastKindMillis box) \<le> 1024
         \<and> distinct (map sg_SignalID (ib_signals box)) \<and> sorted_wrt (<) (map sg_Cursor (ib_signals box))
         \<and> (\<forall>v \<in> set (ib_signals box). dv_Attempts (sg_Delivery v) \<le> 32 \<and> keyOf (signal_target_of v) = k
              \<and> (\<not> ss_Enabled (ib_settings box) \<longrightarrow> delivery_settled (sg_Delivery v))))"
proof -
  have ok: "signals_ok size_of s" by (rule reachable_signals_ok [OF assms])
  have "length (sb_inboxes s) \<le> unat (sb_maxActors s)" "unat (sb_maxActors s) \<le> 100000"
    using ok by (simp_all add: signals_ok_def word_le_nat_alt)
  moreover have "length (ib_signals box) \<le> 256 \<and> length (ib_lastKindMillis box) \<le> 1024
      \<and> distinct (map sg_SignalID (ib_signals box)) \<and> sorted_wrt (<) (map sg_Cursor (ib_signals box))" if "box_ok k g box" for k g box
  proof -
    have "ss_MaxPending (ib_settings box) \<le> 256"
      using that by (auto simp: box_ok_def ValidateSettings_def first_err_None_iff simp del: first_err.simps)
    then have "unat (ss_MaxPending (ib_settings box)) \<le> 256" by (simp add: word_le_nat_alt)
    moreover have "sorted_wrt before (ib_signals box)" using that by (simp add: box_ok_def)
    then have "sorted_wrt (\<lambda>v w. sg_SignalID v \<noteq> sg_SignalID w) (ib_signals box)" "sorted_wrt (\<lambda>v w. sg_Cursor v < sg_Cursor w) (ib_signals box)"
      by (auto elim!: sorted_wrt_mono_rel [rotated] simp: before_def)
    ultimately show ?thesis using that by (auto simp: box_ok_def kinds_ok_def sorted_wrt_map distinct_sorted_wrt)
  qed
  moreover have "dv_Attempts (sg_Delivery v) \<le> 32 \<and> keyOf (signal_target_of v) = k \<and> (\<not> ss_Enabled (ib_settings box) \<longrightarrow> delivery_settled (sg_Delivery v))"
    if "box_ok k g box" "v \<in> set (ib_signals box)" for k g box v
    using that by (auto simp: box_ok_def signal_ok_def validateDelivery_def first_err_None_iff simp del: first_err.simps)
  ultimately show ?thesis using signals_ok_box [OF ok] by (meson order_trans)
qed

text \<open>
  C16: A cursor names one signal for good: after any further calls, whatever an inbox holds under a cursor it held before is the same
  signal, and once its delivery is settled it does not change at all.
\<close>

theorem settled_deliveries_are_final:
  assumes "reachable_signals size_of s" "rtranclp (signal_step size_of) s s'"
    and "map_of (sb_inboxes s) k = Some box" "v \<in> set (ib_signals box)"
    and "map_of (sb_inboxes s') k = Some box'" "w \<in> set (ib_signals box')" "sg_Cursor w = sg_Cursor v"
  shows "sg_SignalID w = sg_SignalID v \<and> sg_Summary w = sg_Summary v \<and> (delivery_settled (sg_Delivery v) \<longrightarrow> w = v)"
proof -
  have "box_ok k (sb_globalSequence s) box" by (rule signals_ok_box [OF reachable_signals_ok [OF assms(1)] assms(3)])
  moreover have "advanced box box'" using signal_steps_advanced [OF assms(2)] assms(3, 5) by (fastforce simp: advanced_store_def)
  ultimately have "follows v w" using assms(4, 6, 7) by (rule later_signal)
  then show ?thesis by (simp add: follows_def)
qed

text \<open>
  C18: A page of an inbox is an initial part of what is pending after the reader's cursor, what remains after its cursor is exactly
  the rest, and it says that there is more exactly when the rest is not empty: reading page by page neither skips nor repeats a signal.
\<close>

theorem signal_pages_are_complete:
  assumes "reachable_signals size_of s" "Signals_List now s input = (Inr page, s')"
    and "map_of (sb_inboxes s) (keyOf (sl_Target input)) = Some box"
  shows "unread now box (sl_AfterCursor input) = sy_Signals page @ unread now box (sy_NextCursor page)
    \<and> (sy_More page \<longleftrightarrow> unread now box (sy_NextCursor page) \<noteq> []) \<and> length (sy_Signals page) \<le> 100"
proof -
  have "box_ok (keyOf (sl_Target input)) (sb_globalSequence s) (pruneInbox now box)"
    by (rule prunes.keeps_ok [OF signals_ok_box [OF reachable_signals_ok [OF assms(1)] assms(3)]])
  then have sorted: "sorted_wrt before (ib_signals (pruneInbox now box))" by (simp add: box_ok_def)
  obtain input' where input': "validateList input = Inr input'" using assms(2) by (auto simp: Signals_List_def split: sum.splits)
  note limit = validateList_Inr [OF input']
  define n where "n = unat (sl_Limit input')"
  let ?vs = "ib_signals (pruneInbox now box)" and ?after = "sl_AfterCursor input"
  let ?later = "filter (\<lambda>v. ?after < sg_Cursor v) ?vs"
  have n: "0 < n" "n \<le> 100" using limit [THEN conjunct2] by (simp_all add: n_def unat_gt_0 word_le_nat_alt)
  have "page = pageLocked (pruneInbox now box) ?after (sl_Limit input')"
    using limit assms(2, 3) by (auto simp: input' Signals_List_def Let_def split: if_splits option.splits)
  then have page: "sy_Signals page = cloneSignals (take n ?later)" "sy_More page = (n < length ?later)"
    "sy_NextCursor page = (if take n ?later = [] then ?after else sg_Cursor (last (take n ?later)))"
    by (simp_all add: n_def pageLocked_def Let_def)
  have pend: "unread now box c = cloneSignals (filter (\<lambda>v. c < sg_Cursor v) ?vs)" for c
    by (simp add: unread_def pruneInbox_def conj_commute)
  have rest: "unread now box (sy_NextCursor page) = cloneSignals (drop n ?later)"
    using page_complete [OF sorted n(1), of ?after] by (simp add: pend page(3))
  have "cloneSignals ?later = cloneSignals (take n ?later) @ cloneSignals (drop n ?later)"
    by (simp add: cloneSignals_def flip: map_append)
  then have "unread now box ?after = sy_Signals page @ unread now box (sy_NextCursor page)"
    using pend [of ?after] rest page(1) by simp
  then show ?thesis using n(2) rest page(1, 2) by (auto simp: cloneSignals_def)
qed

subsection \<open>Examples\<close>

definition sample_target :: signal_target where
  "sample_target = SignalTarget ''h1'' ''w1'' ''a1''"

definition sample_signal :: "string \<Rightarrow> string \<Rightarrow> signal" where
  "sample_signal i kind = \<lparr>sg_Delivery = no_delivery, sg_SchemaVersion = '''', sg_SignalID = i, sg_HostID = ''h1'', sg_WorldID = ''w1'',
     sg_ActorID = ''a1'', sg_Kind = kind, sg_Summary = ''Rain.'',
     sg_Epoch = \<lparr>ep_SessionID = ''s1'', ep_WorldID = ''w1'', ep_Host = 1, ep_World = 1, ep_Timeline = 1\<rparr>,
     sg_ObservationSequence = 1, sg_ExpiresAt = 5000, sg_ReceivedAt = 0, sg_Cursor = 0, sg_globalSequence = 0\<rparr>"

abbreviation sample_size :: "inbox \<Rightarrow> nat" where "sample_size \<equiv> \<lambda>_. 100"

definition sample_settings :: signal_settings where
  "sample_settings = \<lparr>ss_Enabled = True, ss_CooldownMillis = 10, ss_MaxPending = 4\<rparr>"

definition sample_opened :: signal_store where
  "sample_opened = \<lparr>sb_defaultSettings = sample_settings, sb_maxActors = 8, sb_inboxes = [], sb_globalSequence = 0, sb_generation = 0,
     sb_closed = False, sb_blocked = None, sb_durable = Some empty_rows\<rparr>"

text \<open>The inbox after two signals, and after the first one has started a task.\<close>

definition sample_stored :: "string \<Rightarrow> string \<Rightarrow> u64 \<Rightarrow> signal" where
  "sample_stored i kind n = (sample_signal i kind)\<lparr>sg_SchemaVersion := SignalSchemaVersion, sg_ReceivedAt := 1000, sg_Cursor := n, sg_globalSequence := n\<rparr>"

definition sample_inbox :: "signal list \<Rightarrow> inbox" where
  "sample_inbox vs = \<lparr>ib_settings = sample_settings, ib_signals = vs, ib_nextCursor = of_nat (length vs),
     ib_lastKindMillis = map (\<lambda>v. (sg_Kind v, 1000)) vs\<rparr>"

definition sample_with :: "signal list \<Rightarrow> nat \<Rightarrow> signal_store" where
  "sample_with vs n = sample_opened\<lparr>sb_inboxes := [(keyOf sample_target, sample_inbox vs)], sb_globalSequence := of_nat (length vs), sb_generation := n,
     sb_durable := Some \<lparr>sw_rows = [(keyOf sample_target, sample_inbox vs)], sw_sequence = of_nat (length vs),
       sw_bytes = [(keyOf sample_target, 100)], sw_total = 100\<rparr>\<rparr>"

definition first_signal :: signal where "first_signal = sample_stored ''s1'' ''weather.rain'' 1"
definition second_signal :: signal where "second_signal = sample_stored ''s2'' ''weather.wind'' 2"

definition first_started :: signal where
  "first_started = first_signal\<lparr>sg_Delivery := \<lparr>dv_Status = ''started'', dv_Reason = '''', dv_TaskID = ''t1'', dv_Attempts = 1, dv_RetryAt = 0\<rparr>\<rparr>"

lemmas sample_defs = sample_target_def sample_signal_def sample_settings_def sample_opened_def sample_stored_def sample_inbox_def sample_with_def
  first_signal_def second_signal_def first_started_def

lemma sample_valid:
  "validateSignal (sample_signal ''s1'' ''weather.rain'') 1000 = None" "validateSignal (sample_signal ''s2'' ''weather.wind'') 1000 = None"
  by code_simp+

lemma sample_texts: "TrimSpace ''Rain.'' = ''Rain.''" "signal_validateText ''delivery.reason'' '''' 128 False = None"
  "signal_validateIdentifier ''delivery.task_id'' ''t1'' 128 = None"
  by code_simp+

lemma sample_open: "OpenSignalStore sample_size 1000 sample_settings 8 empty_rows = Inr sample_opened"
  by code_simp

lemma sample_publish:
  "Signals_Publish sample_size 1000 sample_opened (sample_signal ''s1'' ''weather.rain'')
     = (Inr \<lparr>pb_Accepted = True, pb_Reason = '''', pb_Cursor = 1\<rparr>, sample_with [first_signal] 1)"
  "Signals_Publish sample_size 1000 (sample_with [first_signal] 1) (sample_signal ''s2'' ''weather.wind'')
     = (Inr \<lparr>pb_Accepted = True, pb_Reason = '''', pb_Cursor = 2\<rparr>, sample_with [first_signal, second_signal] 2)"
  by (simp_all add: Signals_Publish_def Let_def sample_valid [unfolded sample_defs] inboxLocked_def refusal_def accept_signal_def persistInboxLocked_def pruneInbox_def put_inbox_def
      signal_ready_def signal_notify_def signal_target_of_def keyOf_def empty_rows_def maxInboxBytes_def maxSignalStoreBytes_def sample_texts
      sample_defs)

lemma sample_started:
  "RecordDelivery sample_size 1000 (sample_with [first_signal, second_signal] 2) first_signal ''started'' '''' ''t1''
     = (None, sample_with [first_started, second_signal] 3)"
  by (simp add: RecordDelivery_def Let_def sample_texts signal_ready_def signal_notify_def signal_target_of_def keyOf_def persistInboxLocked_def put_inbox_def
      next_delivery_def replace_first_def delivery_settled_def no_delivery_def maxInboxBytes_def maxSignalStoreBytes_def sample_defs)

lemma sample_clock: "sane_clock 1000"
  by (simp add: sane_clock_def)

lemma sample_reached:
  "reachable_signals sample_size (sample_with [first_signal, second_signal] 2)"
  "signal_step sample_size (sample_with [first_signal, second_signal] 2) (sample_with [first_started, second_signal] 3)"
proof -
  have "reachable_signals sample_size sample_opened" by (rule created [OF sample_open])
  then have "reachable_signals sample_size (sample_with [first_signal] 1)"
    using step_Publish [OF sample_clock, of sample_size sample_opened "sample_signal ''s1'' ''weather.rain''"]
    unfolding sample_publish snd_conv by (rule continued)
  then show "reachable_signals sample_size (sample_with [first_signal, second_signal] 2)"
    using step_Publish [OF sample_clock, of sample_size "sample_with [first_signal] 1" "sample_signal ''s2'' ''weather.wind''"]
    unfolding sample_publish snd_conv by (rule continued)
  show "signal_step sample_size (sample_with [first_signal, second_signal] 2) (sample_with [first_started, second_signal] 3)"
    using step_RecordDelivery [OF sample_clock, of sample_size "sample_with [first_signal, second_signal] 2" first_signal "''started''" "''''" "''t1''"]
    by (simp add: sample_started)
qed


theorem inboxes_stay_within_bounds_witness:
  "distinct (map sg_SignalID [first_signal, second_signal]) \<and> sorted_wrt (<) (map sg_Cursor [first_signal, second_signal])"
proof -
  have "map_of (sb_inboxes (sample_with [first_signal, second_signal] 2)) (keyOf sample_target) = Some (sample_inbox [first_signal, second_signal])"
    by (simp add: sample_with_def)
  moreover have "ib_signals (sample_inbox [first_signal, second_signal]) = [first_signal, second_signal]" by (simp add: sample_inbox_def)
  ultimately show ?thesis using inboxes_stay_within_bounds [OF sample_reached(1)] by metis
qed

theorem settled_deliveries_are_final_witness:
  "signal_step sample_size (sample_with [first_signal, second_signal] 2) (sample_with [first_started, second_signal] 3)
    \<and> sg_SignalID first_started = sg_SignalID first_signal"
proof -
  have get: "map_of (sb_inboxes (sample_with vs n)) (keyOf sample_target) = Some (sample_inbox vs)" for vs n
    by (simp add: sample_with_def)
  have "first_signal \<in> set (ib_signals (sample_inbox [first_signal, second_signal]))"
    "first_started \<in> set (ib_signals (sample_inbox [first_started, second_signal]))" "sg_Cursor first_started = sg_Cursor first_signal"
    by (simp_all add: sample_inbox_def first_started_def)
  moreover have "rtranclp (signal_step sample_size) (sample_with [first_signal, second_signal] 2) (sample_with [first_started, second_signal] 3)"
    by (rule r_into_rtranclp) (rule sample_reached(2))
  ultimately show ?thesis using settled_deliveries_are_final [OF sample_reached(1) _ get _ get] sample_reached(2) by blast
qed

text \<open>A page of one signal, and the other one after its cursor.\<close>

theorem signal_pages_are_complete_witness:
  "fst (Signals_List 2000 (sample_with [first_signal, second_signal] 2) \<lparr>sl_Target = sample_target, sl_AfterCursor = 0, sl_Limit = 1\<rparr>)
     = Inr \<lparr>sy_Signals = cloneSignals [first_signal], sy_NextCursor = 1, sy_More = True\<rparr>
    \<and> unread 2000 (sample_inbox [first_signal, second_signal]) 1 \<noteq> []"
proof -
  let ?s = "sample_with [first_signal, second_signal] 2" and ?input = "\<lparr>sl_Target = sample_target, sl_AfterCursor = 0, sl_Limit = 1\<rparr>"
  let ?page = "\<lparr>sy_Signals = cloneSignals [first_signal], sy_NextCursor = 1, sy_More = True\<rparr>"
  have "ValidateTarget sample_target = None" by code_simp
  then have run: "Signals_List 2000 ?s ?input = (Inr ?page, snd (Signals_List 2000 ?s ?input))"
    by (simp add: Signals_List_def validateList_def signal_ready_def pageLocked_def pruneInbox_def keyOf_def sample_defs)
  have "map_of (sb_inboxes ?s) (keyOf (sl_Target ?input)) = Some (sample_inbox [first_signal, second_signal])" by (simp add: sample_with_def)
  then have "sy_More ?page \<longleftrightarrow> unread 2000 (sample_inbox [first_signal, second_signal]) (sy_NextCursor ?page) \<noteq> []"
    using signal_pages_are_complete [OF sample_reached(1) run] by blast
  then show ?thesis using run by (metis fst_conv signal_page.select_convs(2, 3))
qed

end
