(* ===== verification/Signal_Service.thy ===== *)
theory Signal_Service
  imports Signal_Properties Control_Samples
begin

section \<open>Who may speak and who may listen\<close>

text \<open>
  \<open>src/signalbox/service.go\<close>: the store of signals behind the control plane. A Host publishes and configures under its own lease,
  for an actor of a world it has published; a client reads the inbox of an actor it may see. A context is absent, done or live.
\<close>

datatype call_context = NilContext | DoneContext | LiveContext

datatype signal_service_error = SignalFault signal_error | ControlFault control_error | ContextFault

record host_settings_input =
  hi_HostID :: string
  hi_LeaseID :: string
  hi_WorldID :: string
  hi_ActorID :: string
  hi_Settings :: signal_settings

record host_publish_input =
  hp_HostID :: string
  hp_LeaseID :: string
  hp_Signal :: signal

definition requireContext :: "call_context \<Rightarrow> signal_service_error option" where
  "requireContext ctx =
     (case ctx of NilContext \<Rightarrow> Some (SignalFault (signal_fault SignalInvalid)) | DoneContext \<Rightarrow> Some ContextFault | LiveContext \<Rightarrow> None)"

definition normalizeControlError :: "control_error \<Rightarrow> signal_service_error" where
  "normalizeControlError e =
     (case ce_kind e of
        ErrForbidden \<Rightarrow> SignalFault (signal_fault SignalForbidden)
      | ErrNotFound \<Rightarrow> SignalFault (signal_fault SignalNotFound)
      | ErrInvalid \<Rightarrow> SignalFault (signal_fault SignalInvalid)
      | _ \<Rightarrow> ControlFault e)"

definition of_store :: "'a signal_outcome \<Rightarrow> (signal_service_error + 'a) \<times> signal_store" where
  "of_store r = (case r of (Inl e, s) \<Rightarrow> (Inl (SignalFault e), s) | (Inr v, s) \<Rightarrow> (Inr v, s))"

definition ConfigureHost ::
  "(inbox \<Rightarrow> nat) \<Rightarrow> int \<Rightarrow> call_context \<Rightarrow> service \<Rightarrow> signal_store \<Rightarrow> host_settings_input
     \<Rightarrow> (signal_service_error + signal_settings) \<times> signal_store" where
  "ConfigureHost size_of now ctx control s input =
     (case requireContext ctx of
        Some e \<Rightarrow> (Inl e, s)
      | None \<Rightarrow>
          (case ValidateHostActorSnapshot now control (hi_HostID input) (hi_LeaseID input) (hi_WorldID input) (hi_ActorID input) of
             Inl e \<Rightarrow> (Inl (normalizeControlError e), s)
           | Inr _ \<Rightarrow>
               of_store (Signals_Configure size_of now s (SignalTarget (hi_HostID input) (hi_WorldID input) (hi_ActorID input)) (hi_Settings input))))"

definition PublishHost ::
  "(inbox \<Rightarrow> nat) \<Rightarrow> int \<Rightarrow> call_context \<Rightarrow> service \<Rightarrow> signal_store \<Rightarrow> host_publish_input
     \<Rightarrow> (signal_service_error + publish_result) \<times> signal_store" where
  "PublishHost size_of now ctx control s input =
     (case requireContext ctx of
        Some e \<Rightarrow> (Inl e, s)
      | None \<Rightarrow>
          let v = hp_Signal input in
          if hp_HostID input \<noteq> sg_HostID v then (Inl (SignalFault (signal_fault SignalInvalid)), s)
          else if sg_SchemaVersion v \<noteq> SignalSchemaVersion then (Inl (SignalFault (signal_fault SignalInvalid)), s)
          else (case ValidateHostActorSnapshot now control (hp_HostID input) (hp_LeaseID input) (sg_WorldID v) (sg_ActorID v) of
             Inl e \<Rightarrow> (Inl (normalizeControlError e), s)
           | Inr snapshot \<Rightarrow>
               if hs_Epoch snapshot \<noteq> sg_Epoch v \<or> hs_ObservationSequence snapshot \<noteq> sg_ObservationSequence v
               then (Inl (SignalFault (signal_fault SignalInvalid)), s)
               else of_store (Signals_Publish size_of now s v)))"

definition authorizeRead :: "int \<Rightarrow> call_context \<Rightarrow> service \<Rightarrow> principal \<Rightarrow> signal_target \<Rightarrow> signal_service_error option" where
  "authorizeRead now ctx control who t =
     first_err [
       requireContext ctx,
       map_option SignalFault (ValidateTarget t),
       (case GetActor now control who (sr_HostID t) (sr_WorldID t) (sr_ActorID t) of
          Inl e \<Rightarrow> Some (normalizeControlError e) | Inr _ \<Rightarrow> None)]"

definition Service_List ::
  "int \<Rightarrow> call_context \<Rightarrow> service \<Rightarrow> principal \<Rightarrow> signal_store \<Rightarrow> signal_list_input
     \<Rightarrow> (signal_service_error + signal_page) \<times> signal_store" where
  "Service_List now ctx control who s input =
     (case authorizeRead now ctx control who (sl_Target input) of
        Some e \<Rightarrow> (Inl e, s)
      | None \<Rightarrow> of_store (Signals_List now s input))"

text \<open>The first pass of a wait; the later ones are passes of the store alone.\<close>

definition Service_Wait ::
  "int \<Rightarrow> call_context \<Rightarrow> service \<Rightarrow> principal \<Rightarrow> signal_store \<Rightarrow> signal_list_input \<Rightarrow> u32
     \<Rightarrow> (signal_service_error + bool \<times> signal_page) option \<times> signal_store" where
  "Service_Wait now ctx control who s input waitMillis =
     (case authorizeRead now ctx control who (sl_Target input) of
        Some e \<Rightarrow> (Some (Inl e), s)
      | None \<Rightarrow>
          (case signals_wait_pass now s input waitMillis False of
             (Some (Inl e), s') \<Rightarrow> (Some (Inl (SignalFault e)), s')
           | (Some (Inr v), s') \<Rightarrow> (Some (Inr v), s')
           | (None, s') \<Rightarrow> (None, s')))"

subsection \<open>Authority\<close>

text \<open>The Host holds a live lease and has published the actor in the world.\<close>

definition speaks_for :: "int \<Rightarrow> service \<Rightarrow> string \<Rightarrow> string \<Rightarrow> signal_target \<Rightarrow> actor_publication \<Rightarrow> bool" where
  "speaks_for now control hostID leaseID t a \<longleftrightarrow>
     sr_HostID t = hostID \<and> ap_ActorID a = sr_ActorID t
     \<and> (\<exists>h w. map_of (sv_hosts control) hostID = Some h \<and> hl_LeaseID (ho_lease h) = leaseID \<and> now < hl_ExpiresAt (ho_lease h)
          \<and> map_of (ho_worlds h) (sr_WorldID t) = Some w \<and> a \<in> set (wp_Actors w))"

definition only_inbox :: "actor_key \<Rightarrow> signal_store \<Rightarrow> signal_store \<Rightarrow> bool" where
  "only_inbox k s s' \<longleftrightarrow> (\<forall>j. j \<noteq> k \<longrightarrow> map_of (sb_inboxes s') j = map_of (sb_inboxes s) j)"

lemma found_in: "find P xs = Some x \<Longrightarrow> x \<in> set xs \<and> P x"
  using find_split by fastforce

lemma snapshot_speaks:
  assumes "ValidateHostActorSnapshot now control hostID leaseID worldID actorID = Inr snapshot"
  shows "\<exists>a. speaks_for now control hostID leaseID (SignalTarget hostID worldID actorID) a
    \<and> snapshot = \<lparr>hs_Epoch = ap_Epoch a, hs_ObservationSequence = ap_ObservationSeq a\<rparr>"
proof -
  obtain h where h: "requireLeaseLocked now control hostID leaseID = Inr h"
    and rest: "(case map_of (ho_worlds h) worldID of None \<Rightarrow> Inl (fault ErrNotFound) | Some w \<Rightarrow>
      (case find (\<lambda>a. ap_ActorID a = actorID) (wp_Actors w) of None \<Rightarrow> Inl (fault ErrNotFound)
       | Some a \<Rightarrow> Inr \<lparr>hs_Epoch = ap_Epoch a, hs_ObservationSequence = ap_ObservationSeq a\<rparr>)) = Inr snapshot"
    using assms unfolding ValidateHostActorSnapshot_def guard_err_Inr_iff ebind_Inr_iff by blast
  obtain w a where w: "map_of (ho_worlds h) worldID = Some w" "find (\<lambda>a. ap_ActorID a = actorID) (wp_Actors w) = Some a"
    and snapshot: "snapshot = \<lparr>hs_Epoch = ap_Epoch a, hs_ObservationSequence = ap_ObservationSeq a\<rparr>"
    using rest by (auto split: option.splits)
  have "map_of (sv_hosts control) hostID = Some h \<and> hl_LeaseID (ho_lease h) = leaseID \<and> now < hl_ExpiresAt (ho_lease h)"
    using h by (auto simp: requireLeaseLocked_def lease_live_def split: option.splits if_splits)
  then show ?thesis using w(1) found_in [OF w(2)] snapshot by (auto simp: speaks_for_def)
qed

lemma of_store_simps [simp]: "snd (of_store r) = snd r" "fst (of_store r) = Inr v \<longleftrightarrow> fst r = Inr v"
  by (auto simp: of_store_def split: prod.split sum.split)

lemma only_inbox_locked: "inboxLocked k create s = Inr (box, s1) \<Longrightarrow> \<forall>j. j \<noteq> k \<longrightarrow> map_of (sb_inboxes s1) j = map_of (sb_inboxes s) j"
  by (auto simp: inboxLocked_def put_inbox_def gm.get_put Let_def split: option.splits if_splits)

lemmas only_inbox_simps = only_inbox_def put_inbox_def gm.get_put

lemma Configure_only: "only_inbox (keyOf t) s (snd (Signals_Configure size_of now s t settings))"
  by (auto simp: Signals_Configure_def Let_def only_inbox_simps simp del: first_err.simps
      dest!: persist_inboxes only_inbox_locked split: option.split sum.split prod.split)

lemma Publish_only: "only_inbox (keyOf (signal_target_of v)) s (snd (Signals_Publish size_of now s v))"
  by (auto simp: Signals_Publish_def Let_def only_inbox_simps simp del: first_err.simps
      dest!: persist_inboxes only_inbox_locked split: option.split sum.split prod.split)

subsection \<open>Properties\<close>

text \<open>
  C15: A call of a Host that changes a store of signals was made under the live lease of that Host, for an actor it has published, and
  touches the inbox of this actor only; what it publishes carries the epoch and the sequence number of the actor's current observation.
\<close>

theorem hosts_speak_for_their_actors:
  "(snd (PublishHost size_of now ctx control s input) \<noteq> s \<longrightarrow>
     (\<exists>a. speaks_for now control (hp_HostID input) (hp_LeaseID input) (signal_target_of (hp_Signal input)) a
        \<and> sg_Epoch (hp_Signal input) = ap_Epoch a \<and> sg_ObservationSequence (hp_Signal input) = ap_ObservationSeq a)
     \<and> only_inbox (keyOf (signal_target_of (hp_Signal input))) s (snd (PublishHost size_of now ctx control s input)))
   \<and> (snd (ConfigureHost size_of now ctx control s settings) \<noteq> s \<longrightarrow>
     (\<exists>a. speaks_for now control (hi_HostID settings) (hi_LeaseID settings)
        (SignalTarget (hi_HostID settings) (hi_WorldID settings) (hi_ActorID settings)) a)
     \<and> only_inbox (keyOf (SignalTarget (hi_HostID settings) (hi_WorldID settings) (hi_ActorID settings))) s
         (snd (ConfigureHost size_of now ctx control s settings)))"
proof
  let ?v = "hp_Signal input" and ?run = "PublishHost size_of now ctx control s input"
  show "snd ?run \<noteq> s \<longrightarrow>
     (\<exists>a. speaks_for now control (hp_HostID input) (hp_LeaseID input) (signal_target_of ?v) a
        \<and> sg_Epoch ?v = ap_Epoch a \<and> sg_ObservationSequence ?v = ap_ObservationSeq a)
     \<and> only_inbox (keyOf (signal_target_of ?v)) s (snd ?run)"
  proof
    assume "snd ?run \<noteq> s"
    then obtain snapshot where snapshot: "ValidateHostActorSnapshot now control (sg_HostID ?v) (hp_LeaseID input) (sg_WorldID ?v) (sg_ActorID ?v) = Inr snapshot"
      "hs_Epoch snapshot = sg_Epoch ?v" "hs_ObservationSequence snapshot = sg_ObservationSequence ?v"
      and host: "hp_HostID input = sg_HostID ?v" and run: "snd ?run = snd (Signals_Publish size_of now s ?v)"
      by (auto simp: PublishHost_def Let_def split: option.splits sum.splits if_splits)
    from snapshot_speaks [OF snapshot(1)] snapshot(2, 3)
    show "(\<exists>a. speaks_for now control (hp_HostID input) (hp_LeaseID input) (signal_target_of ?v) a
        \<and> sg_Epoch ?v = ap_Epoch a \<and> sg_ObservationSequence ?v = ap_ObservationSeq a) \<and> only_inbox (keyOf (signal_target_of ?v)) s (snd ?run)"
      using Publish_only unfolding run host signal_target_of_def by fastforce
  qed
  let ?t = "SignalTarget (hi_HostID settings) (hi_WorldID settings) (hi_ActorID settings)"
  have "snd (ConfigureHost size_of now ctx control s settings) = s
      \<or> (\<exists>snapshot. ValidateHostActorSnapshot now control (hi_HostID settings) (hi_LeaseID settings) (hi_WorldID settings) (hi_ActorID settings) = Inr snapshot
          \<and> snd (ConfigureHost size_of now ctx control s settings) = snd (Signals_Configure size_of now s ?t (hi_Settings settings)))"
    by (auto simp: ConfigureHost_def split: option.split sum.split)
  then show "snd (ConfigureHost size_of now ctx control s settings) \<noteq> s \<longrightarrow>
     (\<exists>a. speaks_for now control (hi_HostID settings) (hi_LeaseID settings) ?t a)
     \<and> only_inbox (keyOf ?t) s (snd (ConfigureHost size_of now ctx control s settings))"
    using snapshot_speaks Configure_only by metis
qed

text \<open>
  C17: A client gets the signals of an actor, at once or after waiting, only if it is a valid principal that may read the actor, and
  the actor has been published.
\<close>

theorem signals_are_read_with_permission:
  assumes "fst (Service_List now ctx control who s input) = Inr page \<or> fst (Service_Wait now ctx control who s input waitMillis) = Some (Inr update)"
  shows "\<exists>h w a. map_of (sv_hosts control) (sr_HostID (sl_Target input)) = Some h \<and> map_of (ho_worlds h) (sr_WorldID (sl_Target input)) = Some w
    \<and> a \<in> set (wp_Actors w) \<and> ap_ActorID a = sr_ActorID (sl_Target input) \<and> canAccessActor who a ScopeActorRead"
proof -
  let ?t = "sl_Target input"
  have "authorizeRead now ctx control who ?t = None"
    using assms by (auto simp: Service_List_def Service_Wait_def split: option.splits)
  then obtain v where "GetActor now control who (sr_HostID ?t) (sr_WorldID ?t) (sr_ActorID ?t) = Inr v"
    by (auto simp: authorizeRead_def first_err_None_iff simp del: first_err.simps split: sum.splits)
  then obtain h w a where "findWorldLocked control (sr_HostID ?t) (sr_WorldID ?t) = Inr (h, w)"
    and "find_actor who w (sr_ActorID ?t) ScopeActorRead = Inr a"
    by (auto simp: GetActor_def getActorLocked_def ebind_Inr_iff)
  then show ?thesis
    by (auto simp: findWorldLocked_def find_actor_def split: option.splits if_splits dest!: found_in)
qed

subsection \<open>Examples\<close>

definition harvest_signal :: signal where
  "harvest_signal = (sample_signal ''s1'' ''farm.harvest'')\<lparr>sg_SchemaVersion := SignalSchemaVersion, sg_HostID := ''server'', sg_WorldID := ''world'',
     sg_ActorID := ''actor'', sg_Epoch := sample_epoch\<rparr>"

definition host_publishes :: host_publish_input where
  "host_publishes = \<lparr>hp_HostID = ''server'', hp_LeaseID = ''lease.1'', hp_Signal = harvest_signal\<rparr>"

definition actor_input :: signal_list_input where
  "actor_input = \<lparr>sl_Target = SignalTarget ''server'' ''world'' ''actor'', sl_AfterCursor = 0, sl_Limit = 10\<rparr>"

lemma harvest_allowed:
  "ValidateHostActorSnapshot 2000 service_published ''server'' ''lease.1'' ''world'' ''actor'' = Inr \<lparr>hs_Epoch = sample_epoch, hs_ObservationSequence = 1\<rparr>"
  "validateSignal harvest_signal 2000 = None"
  by code_simp+

theorem hosts_speak_for_their_actors_witness:
  "snd (PublishHost sample_size 2000 LiveContext service_published sample_opened host_publishes) \<noteq> sample_opened
    \<and> (\<exists>a. speaks_for 2000 service_published ''server'' ''lease.1'' (SignalTarget ''server'' ''world'' ''actor'') a)"
proof -
  let ?run = "PublishHost sample_size 2000 LiveContext service_published sample_opened host_publishes"
  have fields: "sg_HostID harvest_signal = ''server''" "sg_WorldID harvest_signal = ''world''" "sg_ActorID harvest_signal = ''actor''"
    "sg_SchemaVersion harvest_signal = SignalSchemaVersion" "sg_Epoch harvest_signal = sample_epoch" "sg_ObservationSequence harvest_signal = 1"
    by (simp_all add: harvest_signal_def sample_signal_def)
  have "?run = of_store (Signals_Publish sample_size 2000 sample_opened harvest_signal)"
    by (simp add: PublishHost_def requireContext_def host_publishes_def fields harvest_allowed)
  moreover have "sb_inboxes (snd (Signals_Publish sample_size 2000 sample_opened harvest_signal)) \<noteq> []"
    by (simp add: Signals_Publish_def Let_def harvest_allowed inboxLocked_def refusal_def pruneInbox_def put_inbox_def accept_signal_def
        persistInboxLocked_def signal_ready_def empty_rows_def maxInboxBytes_def maxSignalStoreBytes_def signal_notify_def sample_opened_def sample_settings_def)
  ultimately have "snd ?run \<noteq> sample_opened" by (auto simp: sample_opened_def)
  moreover have "signal_target_of (hp_Signal host_publishes) = SignalTarget ''server'' ''world'' ''actor''" "hp_HostID host_publishes = ''server''"
    "hp_LeaseID host_publishes = ''lease.1''"
    by (simp_all add: signal_target_of_def host_publishes_def fields)
  ultimately show ?thesis
    using hosts_speak_for_their_actors [THEN conjunct1, of sample_size 2000 LiveContext service_published sample_opened host_publishes] by auto
qed

theorem signals_are_read_with_permission_witness:
  "fst (Service_List 2000 LiveContext service_published owner sample_opened actor_input) = Inr \<lparr>sy_Signals = [], sy_NextCursor = 0, sy_More = False\<rparr>
    \<and> (\<exists>a. ap_ActorID a = ''actor'' \<and> canAccessActor owner a ScopeActorRead)"
proof -
  have run: "fst (Service_List 2000 LiveContext service_published owner sample_opened actor_input) = Inr \<lparr>sy_Signals = [], sy_NextCursor = 0, sy_More = False\<rparr>"
    by code_simp
  moreover have "sr_ActorID (sl_Target actor_input) = ''actor''" by (simp add: actor_input_def)
  ultimately show ?thesis using signals_are_read_with_permission [OF disjI1 [OF run]] by auto
qed

end
