(* ===== verification/Spec2Isabelle.thy ===== *)
theory Spec2Isabelle
  imports Policy_Safety Host_Registry Control_Properties Change_Feed Control_Recovery Task_Properties Task_Access Signal_Service
begin

text \<open>
  A verification development of the Go core of Rin.

  Rin lets controllers (a language model inside Rin, or an external client) act through the actors of a game. The game is an
  authoritative \<^emph>\<open>Host\<close>: it publishes worlds, actors, observations and the catalog of its capabilities, binds a request to
  concrete effects, runs it and reports the outcome. In between is the \<^emph>\<open>control plane\<close>: it knows who controls which actor, asks
  the \<^emph>\<open>policy engine\<close> whether an action may run, queues allowed operations for the Host, follows them to their end and keeps a
  timeline. \<^emph>\<open>Task plans\<close> sit on top: a plan is advanced only by evidence that the control plane vouches for.
  \<^emph>\<open>Signals\<close> tell the controllers of an actor that something happened in the game.

  \<^bold>\<open>Prelude\<close>

    \<^item> \<open>Go_Prelude\<close>: what the code uses of Go and its library: errors of a sequence of checks (\<open>first_err\<close>, \<open>loop_err\<close>), results as
      sums, maps as association lists behind the interface \<open>go_map\<close>, decimal formatting, UTF-8, the identifier grammar.
    \<^item> \<open>Go_Text\<close>: \<open>strings.TrimSpace\<close>, \<open>strconv.FormatUint\<close> and \<open>ParseUint\<close>, hexadecimal text.

  \<^bold>\<open>Host contract\<close> (\<open>src/host\<close>)

    \<^item> \<open>Host_Types\<close> (\<open>types.go\<close>, \<open>action.go\<close>, \<open>errors.go\<close>): the records and enumerations. A Go string enumeration is a datatype with
      one constructor for every other text.
    \<^item> \<open>Host_Validate\<close> (\<open>validate.go\<close>, \<open>action_validate.go\<close>): every validator, with its error paths, and the life cycle of runs. The
      identifier automaton accepts exactly the language of its regular expression; chains of run statuses are finite.
    \<^item> \<open>Host_Schema\<close> (\<open>schema.go\<close>, \<open>schema_cache.go\<close>): the code around the JSON Schema compiler; the cache is bounded and answers as
      the compiler does (locale \<open>transparent_cache\<close>).
    \<^item> \<open>Host_Registry\<close> (\<open>registry.go\<close>, \<open>action_registry.go\<close>): capabilities and issued bindings; an authorised binding was issued
      unchanged, is fresh, and its capability is in force; revocation is final; the invariant of every reachable registry.

  \<^bold>\<open>Policy\<close> (\<open>src/policy\<close>)

    \<^item> \<open>Policy_Config\<close> (\<open>types.go\<close>, \<open>validate.go\<close>, \<open>defaults.go\<close>): rules, budgets, sealing of a revision, matching, the safety kernel.
    \<^item> \<open>Policy_Engine\<close> (\<open>engine.go\<close>): \<open>Evaluate\<close>, \<open>Approve\<close>, \<open>Finalize\<close>, \<open>DiscardConfirmation\<close>, \<open>Update\<close>, \<open>New\<close> and what they call, each
      a function of the engine's state, since each holds its mutex.
    \<^item> \<open>Policy_Verdict\<close>: the verdict on an action is the first most severe verdict on its effects (locale \<open>severity_fold\<close>).
    \<^item> \<open>Policy_Ledger\<close>: charges and rollbacks of budgets in words against a ledger of natural numbers (locale \<open>ledger\<close>).
    \<^item> \<open>Policy_Invariant\<close>: the invariant of the six maps of every reachable engine, and that identifiers of decisions are fresh.
    \<^item> \<open>Policy_State\<close> (\<open>state.go\<close>): checkpoints, their validation against a declarative specification, and the restore.
    \<^item> \<open>Policy_Safety\<close>: what \<open>allow\<close> requires and costs, single use of confirmations, refinement of the abstract ledger.
    \<^item> \<open>Policy_Samples\<close>: the concrete environment, policy and actions of the witnesses.

  \<^bold>\<open>Control plane\<close> (\<open>src/controlplane\<close>)

    \<^item> \<open>Control_Types\<close> (\<open>types.go\<close>, \<open>errors.go\<close>, \<open>validate.go\<close>), \<open>Control_Operation\<close> (\<open>operation.go\<close>, \<open>task_timeline.go\<close>): data and
      validators, the state of one operation and its bounded diagnostic timeline.
    \<^item> \<open>Control_Service\<close> (\<open>service.go\<close>, \<open>controller.go\<close>): the record \<open>service\<close>, Hosts, worlds, controllers and emergency stops.
    \<^item> \<open>Control_Delivery\<close> (\<open>operation.go\<close>, \<open>outcome_archive.go\<close>), \<open>Control_Gateway\<close> (\<open>action_gateway.go\<close>, \<open>action_lookup.go\<close>,
      \<open>remote_action_host.go\<close>, \<open>outcome_delivery.go\<close>): polling, acknowledgement, runs, outcomes, cancellation; submission and
      confirmation. The two methods that release the lock are modelled as their critical sections, which may interleave with every
      other call, and also as one call.
    \<^item> \<open>Control_Discovery\<close> (\<open>discovery.go\<close>): the published observation and capabilities of an actor.
    \<^item> \<open>Change_Feed\<close> (\<open>src/internal/changefeed\<close>, \<open>scheduling_changes.go\<close>): the ring of changes refines the full log (locale
      \<open>change_log\<close>); a reader gets every change or is told to start over.
    \<^item> \<open>Task_Timeline\<close> (\<open>src/timeline\<close>), \<open>Control_Timeline\<close>: events, cursors and pages; a reader that follows the cursors ends and has
      every event once and in order.
    \<^item> \<open>Control_Step\<close>, \<open>Control_Methods\<close>, \<open>Control_Lifecycle\<close>, \<open>Control_Frame\<close>: every method changes operations only by the steps of
      a life cycle; \<open>control_step\<close> is one call of any method, \<open>reachable_service\<close> what calls in any order lead to. The locales
      \<open>operation_property\<close> and \<open>operation_history\<close> lift facts about steps to all reachable services; \<open>Control_Frame\<close> says what
      each call leaves alone.
    \<^item> \<open>Control_Safety\<close>, \<open>Control_Properties\<close>: operations fit together, what is settled or recorded stays, a Host is offered only what
      policy allowed, a stopped actor gets nothing new, leases are exclusive, capacity is kept. \<open>Control_Samples\<close> is a concrete run.
    \<^item> \<open>Control_Restore\<close>, \<open>Control_Recovery\<close> (\<open>operation_file.go\<close>): what is written and what a restart accepts and rebuilds; a restored
      service is sound and keeps what is final.

  \<^bold>\<open>Task plans\<close> (\<open>src/taskstate\<close>)

    \<^item> \<open>Task_Plan\<close> (\<open>plan.go\<close>): plans, steps, conditions and evidence, \<open>NewPlan\<close>, \<open>ApplyEvidence\<close>, \<open>ApplyFailure\<close>, \<open>ShouldReplan\<close>,
      \<open>ValidatePlan\<close>; the well-formedness \<open>plan_ok\<close> and its preservation.
    \<^item> \<open>Task_Store\<close> (\<open>store.go\<close>): the three tables and every method as one transaction. \<open>Task_Lifecycle\<close>: the methods make only the
      changes of \<open>table_step\<close>; the invariant \<open>store_ok\<close> of every reachable store.
    \<^item> \<open>Task_Properties\<close>: completed plans are proven, plans only move forward, outcomes are applied once, and two ways in which a plan
      gets stuck.
    \<^item> \<open>Task_Coordinator\<close> (\<open>coordinator.go\<close>, \<open>client_service.go\<close>): the calls that ask the control plane first, and the subscriber of
      outcomes. \<open>Task_Access\<close>: the interface \<open>controlled_call\<close> of the calls that change a plan, interpreted for each of them; plans
      change only under a live lease; outcomes that are delivered twice count once.

  \<^bold>\<open>Signals\<close> (\<open>src/signalbox\<close>)

    \<^item> \<open>Signal_Box\<close> (\<open>signal.go\<close>, \<open>store.go\<close>, \<open>delivery.go\<close>, \<open>sqlite.go\<close>): the record \<open>signal_store\<close> with one bounded inbox for each
      actor, \<open>Configure\<close>, \<open>Publish\<close>, \<open>List\<close>, the three waits, \<open>RecordDelivery\<close>, and what is written and checked at a restart.
    \<^item> \<open>Signal_Lifecycle\<close>: the invariant \<open>signals_ok\<close> of memory and database, kept by every call (\<open>signal_step\<close>) and every restart;
      changes that take no new signal share the locale \<open>inbox_change\<close>.
    \<^item> \<open>Signal_Properties\<close>: a restart brings back what was pending, a cursor names one signal for good, a settled delivery is final,
      pages neither skip nor repeat, everything is bounded.
    \<^item> \<open>Signal_Service\<close> (\<open>service.go\<close>): a Host speaks only for actors it has published, under its live lease; a client reads only what
      it may see.

  \<^bold>\<open>Parameters.\<close> The record \<open>go_env\<close> holds the code outside the repository and the encodings that the code only passes on: JSON
  decoding and encoding, SHA-256, the JSON Schema compiler; \<open>task_env\<close> adds digests of outcomes and facts. The
  signal store has the length of an inbox's JSON text as its parameter \<open>size_of\<close>. Random identifiers, the
  answer of the Host to a bind request and the time are arguments; a call reads the clock once. Where a theorem needs something of a
  parameter, for example that digests have 64 hexadecimal digits, it is a hypothesis of that theorem, and its witness has a concrete
  environment.

  \<^bold>\<open>Conventions.\<close> Errors are values of a sum type with the kind and the text of the source; a value that Go returns beside an error is
  dropped. Unsigned integers of 32 and 64 bits are words; signed times in milliseconds are integers. Clone functions are identities.
  A range over a Go map is a walk through the association list; theorems do not depend on the order. An event recorded for a waiting
  reader is the growth of a list or counter; blocking calls are one pass of their loop. What is written to a store is what is read
  back; a transaction that fails leaves the tables as they were.

  \<^bold>\<open>Bounds and fuel.\<close> Loops are structural recursion over the lists they walk. The walk along the parents of an operation terminates
  because it stops at the first operation it meets twice; its measure is the number of operations it has not met. A reader of a
  timeline is given one page for each record and one more; every page but the last has an event, so that this is enough, which is
  proved.

  \<^bold>\<open>Not modelled.\<close> HTTP servers and clients, the MCP bridge and the management API, which move the same calls over a network; SQLite
  files, locks and migrations; the archive of outcomes; the agent runtime of \<open>src/cognition\<close>, whose decisions are the answers of a
  language model, with its memory, prompts and model providers; the command line, SDKs, examples and the web
  console.
\<close>

end
